(* ===== verification/Prelude.thy ===== *)
theory Prelude
  imports Complex_Main "HOL-Library.Char_ord" "HOL-Library.List_Lexorder"
    "HOL-Library.Multiset"
begin

text \<open>
  Shared material of the development: the result type of fallible pure functions, the
  program type of effectful methods (a state transformer whose result is an exception or a
  value) with its weakest-precondition equations, Python dictionaries as association lists
  in insertion order, and the few operations on Python strings and integers that the
  modelled modules use.

  Strings are lists of characters with code points below 256. Python compares strings by
  code point, which is the lexicographic order of \<open>List_Lexorder\<close> over \<open>Char_ord\<close>.
\<close>

section \<open>Proof collections\<close>

named_theorems wp_simps \<open>weakest-precondition equations of the program combinators\<close>
named_theorems check_simps \<open>equations of the pure guards\<close>
named_theorems result_iff \<open>when a fallible computation returns a value\<close>
named_theorems run_iff \<open>when a program returns a value, and in which state\<close>

section \<open>Results of pure code that may raise\<close>

text \<open>
  \<open>Inl e\<close> is a raised exception, \<open>Inr v\<close> a returned value. \<open>refuse_if bad e\<close> is the
  source's \<^theory_text>\<open>if bad: raise e\<close>.
\<close>

definition refuse_if :: "bool \<Rightarrow> 'e \<Rightarrow> 'e + unit" where
  "refuse_if bad e = (if bad then Inl e else Inr ())"

definition bindR :: "'e + 'a \<Rightarrow> ('a \<Rightarrow> 'e + 'b) \<Rightarrow> 'e + 'b" where
  "bindR m f = (case m of Inl e \<Rightarrow> Inl e | Inr x \<Rightarrow> f x)"

definition andR :: "'e + unit \<Rightarrow> 'e + 'b \<Rightarrow> 'e + 'b" where
  "andR m n = bindR m (\<lambda>_. n)"

lemma refuse_if_simps [check_simps, simp]:
  "refuse_if True e = Inl e"
  "refuse_if False e = Inr ()"
  by (simp_all add: refuse_if_def)

lemma bindR_simps [check_simps, simp]:
  "bindR (Inl e) f = Inl e"
  "bindR (Inr x) f = f x"
  by (simp_all add: bindR_def)

lemma andR_simps [check_simps, simp]:
  "andR (Inl e) n = Inl e"
  "andR (Inr u) n = n"
  by (simp_all add: andR_def)

lemma refuse_if_Inr [result_iff]: "refuse_if bad e = Inr u \<longleftrightarrow> \<not> bad"
  by (simp add: refuse_if_def)

lemma refuse_if_Inl [result_iff]: "refuse_if bad e = Inl e' \<longleftrightarrow> bad \<and> e' = e"
  by (auto simp: refuse_if_def)

lemma bindR_Inr [result_iff]: "bindR m f = Inr y \<longleftrightarrow> (\<exists>x. m = Inr x \<and> f x = Inr y)"
  by (cases m) auto

lemma bindR_Inl [result_iff]:
  "bindR m f = Inl e \<longleftrightarrow> m = Inl e \<or> (\<exists>x. m = Inr x \<and> f x = Inl e)"
  by (cases m) auto

lemma andR_Inr [result_iff]: "andR m n = Inr y \<longleftrightarrow> m = Inr () \<and> n = Inr y"
  by (cases m) auto

lemma andR_Inl [result_iff]: "andR m n = Inl e \<longleftrightarrow> m = Inl e \<or> m = Inr () \<and> n = Inl e"
  by (cases m) auto

text \<open>A loop that stops at the first exception, as a comprehension over raising calls does.\<close>

fun mapR :: "('a \<Rightarrow> 'e + 'b) \<Rightarrow> 'a list \<Rightarrow> 'e + 'b list" where
  "mapR f [] = Inr []"
| "mapR f (x # xs) = bindR (f x) (\<lambda>y. bindR (mapR f xs) (\<lambda>ys. Inr (y # ys)))"

lemma mapR_Inr_iff: "mapR f xs = Inr ys \<longleftrightarrow> list_all2 (\<lambda>x y. f x = Inr y) xs ys"
proof (induction xs arbitrary: ys)
  case Nil
  then show ?case by auto
next
  case (Cons x xs)
  then show ?case by (cases ys) (auto simp: bindR_Inr)
qed

lemma mapR_length: "mapR f xs = Inr ys \<Longrightarrow> length ys = length xs"
  by (auto simp: mapR_Inr_iff dest: list_all2_lengthD)

section \<open>Programs: state, exceptions and values\<close>

text \<open>
  A method with effects takes the state and gives back an exception or a value together
  with the state it leaves, so effects made before an exception are kept.
\<close>

type_synonym ('s, 'e, 'a) prog = "'s \<Rightarrow> ('e + 'a) \<times> 's"

definition returnP :: "'a \<Rightarrow> ('s, 'e, 'a) prog" where
  "returnP x = (\<lambda>s. (Inr x, s))"

definition raiseP :: "'e \<Rightarrow> ('s, 'e, 'a) prog" where
  "raiseP e = (\<lambda>s. (Inl e, s))"

definition bindP :: "('s, 'e, 'a) prog \<Rightarrow> ('a \<Rightarrow> ('s, 'e, 'b) prog) \<Rightarrow> ('s, 'e, 'b) prog" where
  "bindP m f = (\<lambda>s. case m s of (Inl e, s') \<Rightarrow> (Inl e, s') | (Inr x, s') \<Rightarrow> f x s')"

definition thenP :: "('s, 'e, unit) prog \<Rightarrow> ('s, 'e, 'b) prog \<Rightarrow> ('s, 'e, 'b) prog" where
  "thenP m n = bindP m (\<lambda>_. n)"

definition liftP :: "'e + 'a \<Rightarrow> ('s, 'e, 'a) prog" where
  "liftP r = (\<lambda>s. (r, s))"

definition getsP :: "('s \<Rightarrow> 'a) \<Rightarrow> ('s, 'e, 'a) prog" where
  "getsP f = (\<lambda>s. (Inr (f s), s))"

definition modifyP :: "('s \<Rightarrow> 's) \<Rightarrow> ('s, 'e, unit) prog" where
  "modifyP f = (\<lambda>s. (Inr (), f s))"

text \<open>
  \<open>catchP m h\<close> is \<^theory_text>\<open>try\<close>/\<^theory_text>\<open>except\<close>: the handler answers \<open>None\<close> for an
  exception it does not catch, which propagates. \<open>finallyP m c\<close> runs the state update \<open>c\<close>
  on every way out of \<open>m\<close>.
\<close>

definition catchP ::
  "('s, 'e, 'a) prog \<Rightarrow> ('e \<Rightarrow> ('s, 'e, 'a) prog option) \<Rightarrow> ('s, 'e, 'a) prog" where
  "catchP m h = (\<lambda>s. case m s of
       (Inr x, s') \<Rightarrow> (Inr x, s')
     | (Inl e, s') \<Rightarrow> (case h e of None \<Rightarrow> (Inl e, s') | Some p \<Rightarrow> p s'))"

definition finallyP :: "('s, 'e, 'a) prog \<Rightarrow> ('s \<Rightarrow> 's) \<Rightarrow> ('s, 'e, 'a) prog" where
  "finallyP m c = (\<lambda>s. case m s of (r, s') \<Rightarrow> (r, c s'))"

text \<open>
  \<open>wp m Q E s\<close>: run from \<open>s\<close>, the program either returns a value satisfying \<open>Q\<close> or raises
  an exception satisfying \<open>E\<close>, each in the state it leaves. Programs are total, so this is
  total correctness.
\<close>

definition wp ::
  "('s, 'e, 'a) prog \<Rightarrow> ('a \<Rightarrow> 's \<Rightarrow> bool) \<Rightarrow> ('e \<Rightarrow> 's \<Rightarrow> bool) \<Rightarrow> 's \<Rightarrow> bool" where
  "wp m Q E s = (case m s of (Inl e, s') \<Rightarrow> E e s' | (Inr x, s') \<Rightarrow> Q x s')"

lemma wp_return [wp_simps]: "wp (returnP x) Q E s = Q x s"
  by (simp add: wp_def returnP_def)

lemma wp_raise [wp_simps]: "wp (raiseP e) Q E s = E e s"
  by (simp add: wp_def raiseP_def)

lemma wp_bind [wp_simps]: "wp (bindP m f) Q E s = wp m (\<lambda>x. wp (f x) Q E) E s"
  by (simp add: wp_def bindP_def split: prod.splits sum.splits)

lemma wp_then [wp_simps]: "wp (thenP m n) Q E s = wp m (\<lambda>_. wp n Q E) E s"
  by (simp add: thenP_def wp_bind)

lemma wp_lift [wp_simps]:
  "wp (liftP r) Q E s = (case r of Inl e \<Rightarrow> E e s | Inr x \<Rightarrow> Q x s)"
  by (simp add: wp_def liftP_def split: sum.splits)

lemma wp_gets [wp_simps]: "wp (getsP f) Q E s = Q (f s) s"
  by (simp add: wp_def getsP_def)

lemma wp_modify [wp_simps]: "wp (modifyP f) Q E s = Q () (f s)"
  by (simp add: wp_def modifyP_def)

lemma wp_catch [wp_simps]:
  "wp (catchP m h) Q E s =
     wp m Q (\<lambda>e s'. case h e of None \<Rightarrow> E e s' | Some p \<Rightarrow> wp p Q E s') s"
  by (simp add: wp_def catchP_def split: prod.splits sum.splits option.splits)

lemma wp_finally [wp_simps]:
  "wp (finallyP m c) Q E s = wp m (\<lambda>x s'. Q x (c s')) (\<lambda>e s'. E e (c s')) s"
  by (simp add: wp_def finallyP_def split: prod.splits sum.splits)

lemma wp_mono:
  assumes "wp m Q E s"
    and "\<And>x s'. Q x s' \<Longrightarrow> Q' x s'" and "\<And>e s'. E e s' \<Longrightarrow> E' e s'"
  shows "wp m Q' E' s"
  using assms by (auto simp: wp_def split: prod.splits sum.splits)

lemma wp_conj:
  "wp m Q E s \<Longrightarrow> wp m Q' E' s \<Longrightarrow> wp m (\<lambda>x s'. Q x s' \<and> Q' x s') (\<lambda>e s'. E e s' \<and> E' e s') s"
  by (auto simp: wp_def split: prod.splits sum.splits)

lemma wp_ret: "wp m Q E s \<Longrightarrow> m s = (Inr x, s') \<Longrightarrow> Q x s'"
  by (simp add: wp_def)

lemma wp_exc: "wp m Q E s \<Longrightarrow> m s = (Inl e, s') \<Longrightarrow> E e s'"
  by (simp add: wp_def)

lemma wp_both: "wp m (\<lambda>_. Q) (\<lambda>_. Q) s \<longleftrightarrow> Q (snd (m s))"
  by (simp add: wp_def split: prod.splits sum.splits)

lemma bindP_return:
  "m s = (Inr x, s') \<Longrightarrow> bindP m f s = f x s'"
  by (simp add: bindP_def)

lemma bindP_raise:
  "m s = (Inl e, s') \<Longrightarrow> bindP m f s = (Inl e, s')"
  by (simp add: bindP_def)

lemma return_Inr [run_iff]: "returnP x s = (Inr y, t) \<longleftrightarrow> y = x \<and> t = s"
  and raise_Inr [run_iff]: "raiseP e s = (Inr y, t) \<longleftrightarrow> False"
  and lift_Inr [run_iff]: "liftP r s = (Inr y, t) \<longleftrightarrow> r = Inr y \<and> t = s"
  and gets_Inr [run_iff]: "getsP f s = (Inr z, t) \<longleftrightarrow> z = f s \<and> t = s"
  and modify_Inr [run_iff]: "modifyP g s = (Inr u, t) \<longleftrightarrow> t = g s"
  by (auto simp: returnP_def raiseP_def liftP_def getsP_def modifyP_def)

lemma bind_Inr [run_iff]:
  "bindP m f s = (Inr y, t) \<longleftrightarrow> (\<exists>x s'. m s = (Inr x, s') \<and> f x s' = (Inr y, t))"
  by (auto simp: bindP_def split: prod.splits sum.splits)

lemma then_Inr [run_iff]:
  "thenP m n s = (Inr y, t) \<longleftrightarrow> (\<exists>s'. m s = (Inr (), s') \<and> n s' = (Inr y, t))"
  by (auto simp: thenP_def bind_Inr)

text \<open>
  \<open>inv_prog I E m\<close>: from a state with \<open>I\<close> the program returns with \<open>I\<close> and raises with \<open>E\<close>.
\<close>

definition inv_prog :: "('s \<Rightarrow> bool) \<Rightarrow> ('e \<Rightarrow> 's \<Rightarrow> bool) \<Rightarrow> ('s, 'e, 'a) prog \<Rightarrow> bool" where
  "inv_prog I E m \<longleftrightarrow> (\<forall>s. I s \<longrightarrow> wp m (\<lambda>_. I) E s)"

named_theorems inv_rules \<open>programs that keep an invariant\<close>

lemma inv_progI: "(\<And>s. I s \<Longrightarrow> wp m (\<lambda>_. I) E s) \<Longrightarrow> inv_prog I E m"
  by (simp add: inv_prog_def)

lemma inv_progD: "inv_prog I E m \<Longrightarrow> I s \<Longrightarrow> wp m (\<lambda>_. I) E s"
  by (simp add: inv_prog_def)

lemma inv_return [inv_rules]: "inv_prog I E (returnP x)"
  and inv_gets [inv_rules]: "inv_prog I E (getsP f)"
  by (simp_all add: inv_prog_def wp_simps)

lemma inv_raise [inv_rules]: "(\<And>s. I s \<Longrightarrow> E e s) \<Longrightarrow> inv_prog I E (raiseP e)"
  by (simp add: inv_prog_def wp_simps)

lemma inv_lift [inv_rules]: "(\<And>e s. r = Inl e \<Longrightarrow> I s \<Longrightarrow> E e s) \<Longrightarrow> inv_prog I E (liftP r)"
  by (auto simp: inv_prog_def wp_simps split: sum.splits)

lemma inv_modify [inv_rules]: "(\<And>s. I s \<Longrightarrow> I (f s)) \<Longrightarrow> inv_prog I E (modifyP f)"
  by (simp add: inv_prog_def wp_simps)

lemma inv_bind [inv_rules]:
  "inv_prog I E m \<Longrightarrow> (\<And>x. inv_prog I E (f x)) \<Longrightarrow> inv_prog I E (bindP m f)"
  unfolding inv_prog_def wp_bind by (auto elim!: wp_mono)

lemma inv_then [inv_rules]: "inv_prog I E m \<Longrightarrow> inv_prog I E n \<Longrightarrow> inv_prog I E (thenP m n)"
  unfolding thenP_def by (rule inv_bind)

lemma inv_if [inv_rules]:
  "inv_prog I E m \<Longrightarrow> inv_prog I E n \<Longrightarrow> inv_prog I E (if b then m else n)"
  by simp

text \<open>\<open>preserves I m\<close>: the program preserves \<open>I\<close> on every way out.\<close>

definition preserves :: "('s \<Rightarrow> bool) \<Rightarrow> ('s, 'e, 'a) prog \<Rightarrow> bool" where
  "preserves I m \<longleftrightarrow> (\<forall>s. I s \<longrightarrow> I (snd (m s)))"

named_theorems preserves_rules \<open>programs that keep a predicate on every way out\<close>

lemma preservesI: "(\<And>s. I s \<Longrightarrow> I (snd (m s))) \<Longrightarrow> preserves I m"
  by (simp add: preserves_def)

lemma preserves_wp: "preserves I m \<Longrightarrow> I s \<Longrightarrow> wp m (\<lambda>_. I) (\<lambda>_. I) s"
  by (simp add: preserves_def wp_both)

lemma preserves_if_wp: "(\<And>s. I s \<Longrightarrow> wp m (\<lambda>_. I) (\<lambda>_. I) s) \<Longrightarrow> preserves I m"
  by (simp add: preserves_def wp_both)

lemma preserves_basic [preserves_rules]:
  "preserves I (returnP x)" "preserves I (raiseP e)" "preserves I (liftP r)" "preserves I (getsP f)"
  by (simp_all add: preserves_def returnP_def raiseP_def liftP_def getsP_def)

lemma preserves_modify [preserves_rules]: "(\<And>s. I s \<Longrightarrow> I (f s)) \<Longrightarrow> preserves I (modifyP f)"
  by (simp add: preserves_def modifyP_def)

lemma preserves_bind [preserves_rules]: "preserves I m \<Longrightarrow> (\<And>x. preserves I (f x)) \<Longrightarrow> preserves I (bindP m f)"
proof (rule preservesI)
  fix s assume m: "preserves I m" and f: "\<And>x. preserves I (f x)" and "I s"
  then show "I (snd (bindP m f s))"
    by (cases "m s") (auto simp: preserves_def bindP_def split: sum.splits dest: spec [of _ s])
qed

lemma preserves_then [preserves_rules]: "preserves I m \<Longrightarrow> preserves I n \<Longrightarrow> preserves I (thenP m n)"
  unfolding thenP_def by (rule preserves_bind)

lemma preserves_catch [preserves_rules]:
  "preserves I m \<Longrightarrow> (\<And>e p. h e = Some p \<Longrightarrow> preserves I p) \<Longrightarrow> preserves I (catchP m h)"
proof (rule preservesI)
  fix s assume m: "preserves I m" and h: "\<And>e p. h e = Some p \<Longrightarrow> preserves I p" and "I s"
  then show "I (snd (catchP m h s))"
    by (cases "m s")
      (auto simp: preserves_def catchP_def split: sum.splits option.splits dest: spec [of _ s])
qed

lemma preserves_if [preserves_rules]: "(b \<Longrightarrow> preserves I m) \<Longrightarrow> (\<not> b \<Longrightarrow> preserves I n) \<Longrightarrow> preserves I (if b then m else n)"
  by simp

lemmas prog_defs =
  returnP_def raiseP_def bindP_def thenP_def liftP_def getsP_def modifyP_def catchP_def finallyP_def

section \<open>Dictionaries in insertion order\<close>

text \<open>
  A Python dictionary is an association list with distinct keys; assigning a present key
  keeps its place, a new key goes last, as \<^theory_text>\<open>dict\<close> does.
\<close>

type_synonym ('k, 'v) dict = "('k \<times> 'v) list"

fun dict_set :: "'k \<Rightarrow> 'v \<Rightarrow> ('k, 'v) dict \<Rightarrow> ('k, 'v) dict" where
  "dict_set k v [] = [(k, v)]"
| "dict_set k v ((k', v') # d) = (if k' = k then (k, v) # d else (k', v') # dict_set k v d)"

text \<open>\<^theory_text>\<open>{**d, **e}\<close> and \<^theory_text>\<open>d.update(e)\<close>.\<close>

fun dict_update :: "('k, 'v) dict \<Rightarrow> ('k, 'v) dict \<Rightarrow> ('k, 'v) dict" where
  "dict_update d [] = d"
| "dict_update d ((k, v) # e) = dict_update (dict_set k v d) e"

definition dict_keys :: "('k, 'v) dict \<Rightarrow> 'k list" where
  "dict_keys d = map fst d"

definition well_keyed :: "('k, 'v) dict \<Rightarrow> bool" where
  "well_keyed d \<longleftrightarrow> distinct (map fst d)"

lemma dict_set_lookup [simp]: "map_of (dict_set k v d) = (map_of d)(k \<mapsto> v)"
  by (induction k v d rule: dict_set.induct) auto

lemma dict_set_keys: "fst ` set (dict_set k v d) = insert k (fst ` set d)"
  by (induction k v d rule: dict_set.induct) auto

lemma dict_set_well_keyed [simp]: "well_keyed d \<Longrightarrow> well_keyed (dict_set k v d)"
  unfolding well_keyed_def
proof (induction k v d rule: dict_set.induct)
  case (2 k v k' v' d)
  then show ?case using dict_set_keys [of k v d] by (auto simp: image_iff)
qed simp

lemma dict_update_lookup:
  "well_keyed e \<Longrightarrow> map_of (dict_update d e) = map_of d ++ map_of e"
proof (induction d e rule: dict_update.induct)
  case (2 d k v e)
  then have "map_of e k = None"
    by (auto simp: well_keyed_def map_of_eq_None_iff)
  with 2 show ?case
    by (auto simp: well_keyed_def map_add_def fun_eq_iff split: option.splits)
qed simp

lemma dict_update_well_keyed [simp]: "well_keyed d \<Longrightarrow> well_keyed (dict_update d e)"
  by (induction d e rule: dict_update.induct) auto

text \<open>Two dictionaries with the same lookup agree once their keys are sorted.\<close>

lemma sort_key_unique:
  fixes d e :: "('k::linorder, 'v) dict"
  assumes "well_keyed d" "well_keyed e" "map_of d = map_of e"
  shows "sort_key fst d = sort_key fst e"
proof -
  have "set d = set e"
    using assms by (metis map_of_eqI map_of_inject_set well_keyed_def)
  moreover have "distinct d" "distinct e"
    using assms(1,2) by (auto simp: well_keyed_def distinct_map)
  ultimately have "mset d = mset (sort_key fst e)"
    by (simp add: set_eq_iff_mset_eq_distinct)
  moreover have "inj_on fst (set d)"
    using assms(1) by (auto simp: well_keyed_def distinct_map)
  ultimately show ?thesis
    by (intro sort_key_inj_key_eq) simp_all
qed

text \<open>\<^theory_text>\<open>len(xs) != len(set(xs))\<close>.\<close>

lemma length_remdups_distinct:
  "length xs = length (remdups xs) \<longleftrightarrow> distinct xs"
  "length (remdups xs) = length xs \<longleftrightarrow> distinct xs"
  by (metis length_remdups_eq distinct_remdups distinct_remdups_id)+

section \<open>Python text and integers\<close>

definition py_space :: "char \<Rightarrow> bool" where
  "py_space c =
     (let n = (of_char c :: nat)
      in 9 \<le> n \<and> n \<le> 13 \<or> 28 \<le> n \<and> n \<le> 32 \<or> n = 133 \<or> n = 160)"

definition py_strip :: "string \<Rightarrow> string" where
  "py_strip s = rev (dropWhile py_space (rev (dropWhile py_space s)))"

text \<open>\<^theory_text>\<open>not s.strip()\<close>.\<close>

definition blank :: "string \<Rightarrow> bool" where
  "blank s \<longleftrightarrow> py_strip s = []"

lemma blank_iff: "blank s \<longleftrightarrow> list_all py_space s"
proof -
  have "set s \<subseteq> set (takeWhile py_space s) \<union> set (dropWhile py_space s)"
    by (metis set_append subset_refl takeWhile_dropWhile_id)
  then show ?thesis
    by (auto simp: blank_def py_strip_def list_all_iff dest: set_takeWhileD set_dropWhileD)
qed

text \<open>\<^theory_text>\<open>p in s\<close>.\<close>

fun occurs_in :: "string \<Rightarrow> string \<Rightarrow> bool" where
  "occurs_in p [] = (p = [])"
| "occurs_in p (c # cs) = (take (length p) (c # cs) = p \<or> occurs_in p cs)"

text \<open>\<^theory_text>\<open>str.lower\<close> below code point 256.\<close>

definition lower_char :: "char \<Rightarrow> char" where
  "lower_char c =
     (let n = (of_char c :: nat)
      in if 65 \<le> n \<and> n \<le> 90 \<or> 192 \<le> n \<and> n \<le> 222 \<and> n \<noteq> 215 then char_of (n + 32) else c)"

text \<open>\<^theory_text>\<open>str.lower\<close> where only the ASCII letters bear on the result.\<close>

definition ascii_lower :: "char \<Rightarrow> char" where
  "ascii_lower c = (let n = (of_char c :: nat) in if 65 \<le> n \<and> n \<le> 90 then char_of (n + 32) else c)"

definition starts_text :: "string \<Rightarrow> string \<Rightarrow> bool" where
  "starts_text p s \<longleftrightarrow> take (length p) s = p"

definition ends_text :: "string \<Rightarrow> string \<Rightarrow> bool" where
  "ends_text p s \<longleftrightarrow> starts_text (rev p) (rev s)"

text \<open>\<^theory_text>\<open>s.replace(old, new)\<close>, where \<open>old\<close> is not empty.\<close>

function replace_all :: "string \<Rightarrow> string \<Rightarrow> string \<Rightarrow> string" where
  "replace_all old new [] = []"
| "replace_all old new (c # cs) =
     (if old \<noteq> [] \<and> starts_text old (c # cs)
      then new @ replace_all old new (drop (length old) (c # cs))
      else c # replace_all old new cs)"
  by pat_completeness auto
termination
  by (relation "measure (\<lambda>(old, new, s). length s)") (auto simp: neq_Nil_conv)

text \<open>\<^theory_text>\<open>s.split(sep)\<close> for a separator of one character.\<close>

fun py_split :: "char \<Rightarrow> string \<Rightarrow> string list" where
  "py_split sep [] = [[]]"
| "py_split sep (c # cs) =
     (if c = sep then [] # py_split sep cs
      else case py_split sep cs of [] \<Rightarrow> [[c]] | w # ws \<Rightarrow> (c # w) # ws)"

lemma py_split_nonempty [simp]: "py_split sep s \<noteq> []"
  by (induction sep s rule: py_split.induct) (auto split: list.splits)

text \<open>\<^theory_text>\<open>str(n)\<close>.\<close>

fun show_nat :: "nat \<Rightarrow> string" where
  "show_nat n =
     (if n < 10 then [char_of (48 + n)] else show_nat (n div 10) @ [char_of (48 + n mod 10)])"

declare show_nat.simps [simp del]

definition show_int :: "int \<Rightarrow> string" where
  "show_int i = (if i < 0 then CHR ''-'' # show_nat (nat (- i)) else show_nat (nat i))"

definition digit_value :: "char \<Rightarrow> nat option" where
  "digit_value c =
     (let n = (of_char c :: nat) in if 48 \<le> n \<and> n \<le> 57 then Some (n - 48) else None)"

text \<open>\<^theory_text>\<open>int(s)\<close> on decimal digits: \<open>None\<close> is \<^theory_text>\<open>ValueError\<close>.\<close>

fun read_digits :: "nat \<Rightarrow> string \<Rightarrow> nat option" where
  "read_digits acc [] = Some acc"
| "read_digits acc (c # cs) =
     (case digit_value c of None \<Rightarrow> None | Some d \<Rightarrow> read_digits (acc * 10 + d) cs)"

lemma digit_value_char: "d < 10 \<Longrightarrow> digit_value (char_of (48 + d)) = Some d"
  by (simp add: digit_value_def)

lemma read_digits_append:
  "read_digits acc (xs @ ys) =
     (case read_digits acc xs of None \<Rightarrow> None | Some a \<Rightarrow> read_digits a ys)"
  by (induction acc xs rule: read_digits.induct) (auto split: option.splits)

lemma read_show_nat: "read_digits 0 (show_nat n) = Some n"
proof (induction n rule: show_nat.induct)
  case (1 n)
  show ?case
  proof (cases "n < 10")
    case True
    then show ?thesis by (subst show_nat.simps) (simp add: digit_value_char)
  next
    case False
    with 1 show ?thesis
      by (subst show_nat.simps) (simp add: read_digits_append digit_value_char)
  qed
qed

lemma show_nat_nonempty [simp]: "show_nat n \<noteq> []"
  by (subst show_nat.simps) simp

lemma show_nat_inject: "show_nat m = show_nat n \<longleftrightarrow> m = n"
  using read_show_nat by (metis option.inject)

end
