(* ===== verification/Json_Value.thy ===== *)
theory Json_Value
  imports Prelude
begin

text \<open>
  The JSON values that cross the write-back boundary, Python's equality on them and the
  canonical encoding \<^theory_text>\<open>json.dumps(value, sort_keys=True, separators=(",", ":"))\<close> of
  \<^verbatim>\<open>writeback/dry_run_binding.py\<close> and \<^verbatim>\<open>writeback/_transport_common.py\<close>.

  Finite floats are their exact rational values; how the interpreter spells one
  (\<^theory_text>\<open>float.__repr__\<close>) is the parameter \<open>fr\<close>. The hash function of a digest is a
  parameter too, so nothing below depends on which function it is.
\<close>

datatype pyfloat = Fin rat | NaN | PosInf | NegInf

datatype json =
    JNull
  | JBool bool
  | JInt int
  | JFloat pyfloat
  | JStr string
  | JArr "json list"
  | JObj "(string \<times> json) list"

section \<open>Python equality\<close>

text \<open>
  \<^theory_text>\<open>==\<close> compares numbers by value across \<^theory_text>\<open>bool\<close>, \<^theory_text>\<open>int\<close> and
  \<^theory_text>\<open>float\<close>, so \<^theory_text>\<open>True == 1 == 1.0\<close>; dictionaries compare without order.
\<close>

fun number_of :: "json \<Rightarrow> rat option" where
  "number_of (JBool b) = Some (if b then 1 else 0)"
| "number_of (JInt i) = Some (of_int i)"
| "number_of (JFloat (Fin r)) = Some r"
| "number_of _ = None"

fun py_eq :: "json \<Rightarrow> json \<Rightarrow> bool"
and py_eq_list :: "json list \<Rightarrow> json list \<Rightarrow> bool"
and py_eq_members :: "(string \<times> json) list \<Rightarrow> (string \<times> json) list \<Rightarrow> bool" where
  "py_eq JNull w = (w = JNull)"
| "py_eq (JBool b) w = (number_of w = Some (if b then 1 else 0))"
| "py_eq (JInt i) w = (number_of w = Some (of_int i))"
| "py_eq (JFloat f) w =
     (case f of
        Fin r \<Rightarrow> number_of w = Some r
      | NaN \<Rightarrow> False
      | PosInf \<Rightarrow> w = JFloat PosInf
      | NegInf \<Rightarrow> w = JFloat NegInf)"
| "py_eq (JStr s) w = (w = JStr s)"
| "py_eq (JArr xs) w = (case w of JArr ys \<Rightarrow> py_eq_list xs ys | _ \<Rightarrow> False)"
| "py_eq (JObj kvs) w =
     (case w of JObj lvs \<Rightarrow> length kvs = length lvs \<and> py_eq_members kvs lvs | _ \<Rightarrow> False)"
| "py_eq_list [] ys = (ys = [])"
| "py_eq_list (x # xs) ys = (case ys of [] \<Rightarrow> False | y # ys' \<Rightarrow> py_eq x y \<and> py_eq_list xs ys')"
| "py_eq_members [] lvs = True"
| "py_eq_members ((k, v) # kvs) lvs =
     ((case map_of lvs k of None \<Rightarrow> False | Some w \<Rightarrow> py_eq v w) \<and> py_eq_members kvs lvs)"

section \<open>Canonical encoding\<close>

definition hex_digit :: "nat \<Rightarrow> char" where
  "hex_digit n = (if n < 10 then char_of (48 + n) else char_of (87 + n))"

text \<open>
  String escapes of \<^theory_text>\<open>json.dumps\<close> with its default \<^theory_text>\<open>ensure_ascii=True\<close>.
\<close>

definition escape_char :: "char \<Rightarrow> string" where
  "escape_char c =
     (let n = (of_char c :: nat) in
      if n = 34 \<or> n = 92 then [CHR 0x5C, c]
      else if n = 10 then [CHR 0x5C, CHR ''n'']
      else if n = 13 then [CHR 0x5C, CHR ''r'']
      else if n = 9 then [CHR 0x5C, CHR ''t'']
      else if n = 8 then [CHR 0x5C, CHR ''b'']
      else if n = 12 then [CHR 0x5C, CHR ''f'']
      else if 32 \<le> n \<and> n < 127 then [c]
      else CHR 0x5C # ''u00'' @ [hex_digit (n div 16), hex_digit (n mod 16)])"

definition encode_string :: "string \<Rightarrow> string" where
  "encode_string s = CHR 0x22 # concat (map escape_char s) @ [CHR 0x22]"

text \<open>The escapes with \<^theory_text>\<open>ensure_ascii=False\<close>, and UTF-8 of code points below 256.\<close>

definition escape_char_raw :: "char \<Rightarrow> string" where
  "escape_char_raw c = (if 127 \<le> (of_char c :: nat) then [c] else escape_char c)"

definition encode_string_raw :: "string \<Rightarrow> string" where
  "encode_string_raw s = CHR 0x22 # concat (map escape_char_raw s) @ [CHR 0x22]"

definition utf8 :: "string \<Rightarrow> string" where
  "utf8 s = concat (map (\<lambda>c.
     let n = (of_char c :: nat)
     in if n < 128 then [c] else [char_of (192 + n div 64), char_of (128 + n mod 64)]) s)"

fun join_with :: "string \<Rightarrow> string list \<Rightarrow> string" where
  "join_with sep [] = []"
| "join_with sep [x] = x"
| "join_with sep (x # y # ys) = x @ sep @ join_with sep (y # ys)"

fun encode_float :: "bool \<Rightarrow> (rat \<Rightarrow> string) \<Rightarrow> pyfloat \<Rightarrow> string option" where
  "encode_float allow_nan fr (Fin r) = Some (fr r)"
| "encode_float allow_nan fr NaN = (if allow_nan then Some ''NaN'' else None)"
| "encode_float allow_nan fr PosInf = (if allow_nan then Some ''Infinity'' else None)"
| "encode_float allow_nan fr NegInf = (if allow_nan then Some ''-Infinity'' else None)"

definition encode_object :: "(string \<times> string) list \<Rightarrow> string" where
  "encode_object members =
     ''{'' @ join_with '',''
       (map (\<lambda>(k, e). encode_string k @ '':'' @ e) (sort_key fst members)) @ ''}''"

text \<open>\<open>None\<close> is the \<^theory_text>\<open>ValueError\<close> of \<^theory_text>\<open>allow_nan=False\<close>.\<close>

fun encode_json :: "bool \<Rightarrow> (rat \<Rightarrow> string) \<Rightarrow> json \<Rightarrow> string option"
and encode_list :: "bool \<Rightarrow> (rat \<Rightarrow> string) \<Rightarrow> json list \<Rightarrow> string list option"
and encode_members ::
  "bool \<Rightarrow> (rat \<Rightarrow> string) \<Rightarrow> (string \<times> json) list \<Rightarrow> (string \<times> string) list option" where
  "encode_json an fr JNull = Some ''null''"
| "encode_json an fr (JBool b) = Some (if b then ''true'' else ''false'')"
| "encode_json an fr (JInt i) = Some (show_int i)"
| "encode_json an fr (JFloat f) = encode_float an fr f"
| "encode_json an fr (JStr s) = Some (encode_string s)"
| "encode_json an fr (JArr xs) =
     (case encode_list an fr xs of
        None \<Rightarrow> None
      | Some es \<Rightarrow> Some (''['' @ join_with '','' es @ '']''))"
| "encode_json an fr (JObj kvs) =
     (case encode_members an fr kvs of None \<Rightarrow> None | Some ms \<Rightarrow> Some (encode_object ms))"
| "encode_list an fr [] = Some []"
| "encode_list an fr (x # xs) =
     (case encode_json an fr x of
        None \<Rightarrow> None
      | Some e \<Rightarrow> (case encode_list an fr xs of None \<Rightarrow> None | Some es \<Rightarrow> Some (e # es)))"
| "encode_members an fr [] = Some []"
| "encode_members an fr ((k, v) # kvs) =
     (case encode_json an fr v of
        None \<Rightarrow> None
      | Some e \<Rightarrow>
          (case encode_members an fr kvs of None \<Rightarrow> None | Some ms \<Rightarrow> Some ((k, e) # ms)))"

lemma encode_members_lookup:
  "encode_members an fr kvs = Some ms \<Longrightarrow>
     map_of ms k = (case map_of kvs k of None \<Rightarrow> None | Some v \<Rightarrow> encode_json an fr v)"
  by (induction kvs arbitrary: ms) (auto split: option.splits)

lemma encode_members_keys: "encode_members an fr kvs = Some ms \<Longrightarrow> map fst ms = map fst kvs"
  by (induction kvs arbitrary: ms) (auto split: option.splits)

lemma encode_members_None_iff:
  "encode_members an fr kvs = None \<longleftrightarrow> (\<exists>v \<in> snd ` set kvs. encode_json an fr v = None)"
  by (induction kvs) (auto split: option.splits)

text \<open>The encoding of an object depends only on what its keys are bound to, not on their order.\<close>

lemma encode_object_cong:
  assumes "well_keyed kvs" "well_keyed lvs" "map_of kvs = map_of lvs"
  shows "encode_json an fr (JObj kvs) = encode_json an fr (JObj lvs)"
proof -
  have vals: "snd ` set kvs = snd ` set lvs"
    using assms by (metis map_of_inject_set well_keyed_def)
  show ?thesis
  proof (cases "encode_members an fr kvs")
    case None
    then have "encode_members an fr lvs = None"
      using vals by (simp add: encode_members_None_iff)
    with None show ?thesis by simp
  next
    case (Some ms)
    then have "encode_members an fr lvs \<noteq> None"
      using vals encode_members_None_iff by (metis option.distinct(1))
    then obtain ns where ns: "encode_members an fr lvs = Some ns" by auto
    have "map_of ms = map_of ns"
      using Some ns assms(3) by (auto simp: fun_eq_iff encode_members_lookup split: option.splits)
    then have "sort_key fst ms = sort_key fst ns"
      using Some ns assms(1,2)
      by (intro sort_key_unique) (auto simp: well_keyed_def dest: encode_members_keys)
    with Some ns show ?thesis by (simp add: encode_object_def)
  qed
qed

section \<open>Digests\<close>

text \<open>
  \<^verbatim>\<open>_transport_common.digest\<close>: the hash of the canonical encoding, non-finite floats spelled
  \<^verbatim>\<open>NaN\<close> and \<^verbatim>\<open>Infinity\<close> (\<^theory_text>\<open>json.dumps\<close> without \<^theory_text>\<open>allow_nan=False\<close>
  accepts them), so it never fails.
\<close>

definition digest :: "(string \<Rightarrow> string) \<Rightarrow> (rat \<Rightarrow> string) \<Rightarrow> json \<Rightarrow> string" where
  "digest hash fr v = (case encode_json True fr v of None \<Rightarrow> [] | Some e \<Rightarrow> hash e)"

lemma encode_total:
  "an \<Longrightarrow> \<exists>e. encode_json an fr v = Some e"
  "an \<Longrightarrow> \<exists>es. encode_list an fr vs = Some es"
  "an \<Longrightarrow> \<exists>ms. encode_members an fr kvs = Some ms"
proof (induction an fr v and an fr vs and an fr kvs
    rule: encode_json_encode_list_encode_members.induct)
  case (4 an fr f)
  then show ?case by (cases f) auto
qed fastforce+

lemma digest_encoding: "\<exists>e. digest hash fr v = hash e"
  using encode_total(1) [of True fr v] by (auto simp: digest_def)

section \<open>Truth and integers\<close>

text \<open>Whether a value counts as true.\<close>

fun truthy :: "json \<Rightarrow> bool" where
  "truthy JNull = False"
| "truthy (JBool b) = b"
| "truthy (JInt i) = (i \<noteq> 0)"
| "truthy (JFloat f) = (f \<noteq> Fin 0)"
| "truthy (JStr s) = (s \<noteq> [])"
| "truthy (JArr xs) = (xs \<noteq> [])"
| "truthy (JObj kvs) = (kvs \<noteq> [])"

text \<open>
  \<^theory_text>\<open>int(text)\<close> of a decimal: spaces around it, a sign, and single underscores between digits.
\<close>

fun plain_digits :: "string \<Rightarrow> string option" where
  "plain_digits [] = Some []"
| "plain_digits [c] = (if c = CHR ''_'' then None else Some [c])"
| "plain_digits (c # d # cs) =
     (if c = CHR ''_'' then (if d = CHR ''_'' then None else plain_digits (d # cs))
      else map_option (\<lambda>r. c # r) (plain_digits (d # cs)))"

definition unsigned_int :: "string \<Rightarrow> int option" where
  "unsigned_int s =
     (if s = [] \<or> hd s = CHR ''_'' then None
      else case plain_digits s of None \<Rightarrow> None | Some ds \<Rightarrow> map_option int (read_digits 0 ds))"

definition py_int :: "string \<Rightarrow> int option" where
  "py_int txt =
     (let s = py_strip txt in
      if take 1 s = ''-'' then map_option uminus (unsigned_int (drop 1 s))
      else if take 1 s = ''+'' then unsigned_int (drop 1 s) else unsigned_int s)"

section \<open>Reading members\<close>

text \<open>\<^theory_text>\<open>record.get(name)\<close>.\<close>

definition get :: "(string, json) dict \<Rightarrow> string \<Rightarrow> json" where
  "get d k = (case map_of d k of None \<Rightarrow> JNull | Some v \<Rightarrow> v)"

text \<open>\<open>_dig\<close>: a path of keys.\<close>

fun dig :: "json \<Rightarrow> string list \<Rightarrow> json" where
  "dig v [] = v"
| "dig (JObj kvs) (part # parts) = dig (get kvs part) parts"
| "dig v (part # parts) = JNull"

end
