(* ===== verification/WB_Contract.thy ===== *)
theory WB_Contract
  imports Json_Value
begin

text \<open>
  The contract of governed write-back: its exceptions (\<^verbatim>\<open>writeback/errors.py\<close>), the records
  that cross its ports, the pure guards of \<^verbatim>\<open>writeback/validation.py\<close> and
  \<^verbatim>\<open>writeback/dry_run_binding.py\<close>, and the authorization resolvers of
  \<^verbatim>\<open>writeback/authorization.py\<close> and \<^verbatim>\<open>writeback/recorded_approval.py\<close>.

  The change set, attempt, observation and receipt records are generated by another package;
  they appear here with the fields the modelled modules read or set. Their digest methods are
  the functions \<open>canonical_digest\<close> and \<open>patch_digest\<close> of the \<open>engine\<close> record, a parameter.
\<close>

section \<open>Exceptions\<close>

text \<open>
  One constructor per class of \<^verbatim>\<open>errors.py\<close> with its message, \<open>OtherError\<close> for any other
  \<^theory_text>\<open>Exception\<close> a port raises, and \<open>Interrupt\<close> for a \<^theory_text>\<open>BaseException\<close> that is
  no \<^theory_text>\<open>Exception\<close> (cancellation, process death).
\<close>

datatype wb_exc =
    ChangeSetValidationError string
  | AuditReservationUnavailableError string
  | ChangeSetExpiredError string
  | AuthorizationDeniedError string
  | SourceVersionConflictError string
  | IdempotencyConflictError string
  | OutcomeUncertainError string
  | ReconciliationRequiredError string
  | WriteBackPersistenceError string
  | WalletProofRefusedError string
  | WriteBackError string
  | KeyError string
  | OtherError string
  | Interrupt

section \<open>Records\<close>

record auth_decision =
  mode :: string
  authorization_ref :: string
  authorized :: bool
  decision_digest :: string
  input_digest :: string
  output_digest :: string

record change_set =
  tenant_id :: string
  change_set_id :: string
  change_set_digest :: string
  idempotency_key :: string
  connector_id :: string
  entity_id :: string
  actor :: string
  base_source_version :: string
  expires_at_ms :: int
  field_scope :: "string list"
  desired_patch :: "(string, json) dict"
  field_provenance :: "(string, json) dict"
  authorization :: auth_decision
  policy_digest :: string
  schema_version :: int

datatype attempt_kind = KindApply | KindOther string
datatype wb_outcome = OutApplied | OutUncertain | OutOther string
datatype effect_status = EffApplied | EffNoEffect | EffUncertain | EffOther string

fun status_value :: "effect_status \<Rightarrow> string" where
  "status_value EffApplied = ''applied''"
| "status_value EffNoEffect = ''no_effect''"
| "status_value EffUncertain = ''outcome_uncertain''"
| "status_value (EffOther s) = s"

record attempt =
  at_tenant_id :: string
  at_change_set_id :: string
  at_change_set_digest :: string
  at_idempotency_key :: string
  at_kind :: attempt_kind
  at_input_digest :: string
  at_output_digest :: string
  pre_source_version :: string
  post_source_version :: string
  applied_field_digest :: string
  at_outcome :: wb_outcome
  at_effect_status :: effect_status
  at_observation_digest :: string
  at_provenance_digest :: string

record observation =
  ob_tenant_id :: string
  ob_change_set_id :: string
  ob_change_set_digest :: string
  ob_idempotency_key :: string
  observed_source_version :: string
  ob_effect_status :: effect_status
  retry_allowed :: bool
  evidence_digest :: string
  ob_observation_digest :: string
  ob_provenance_digest :: string

text \<open>\<^verbatim>\<open>writeback/models.py\<close>.\<close>

record snapshot =
  source_version :: string
  sn_fields :: "(string, json) dict"
  sn_observation :: "(string, json) dict"

record dry_run_observation =
  dr_change_set_digest :: string
  dr_source_version :: string
  desired_patch_digest :: string
  changed_fields :: "string list"
  dr_before :: "(string, json) dict"
  dr_after :: "(string, json) dict"

text \<open>
  \<^verbatim>\<open>ports/audit_reservation.py\<close>. The reservation identity is checked at run time to be a
  string, so a port may hand over one that is not: \<open>None\<close>.
\<close>

record audit_reservation =
  reservation_id :: "string option"
  effect_key :: string
  ar_change_set_digest :: string

text \<open>The functions of the engine package and of the interpreter that the code calls.\<close>

record engine =
  canonical_digest :: "change_set \<Rightarrow> string"
  patch_digest :: "change_set \<Rightarrow> string"
  sha256 :: "string \<Rightarrow> string"
  float_repr :: "rat \<Rightarrow> string"

definition json_digest :: "engine \<Rightarrow> json \<Rightarrow> string" where
  "json_digest g v = digest (sha256 g) (float_repr g) v"

section \<open>Binding guards\<close>

definition require_base :: "change_set \<Rightarrow> snapshot \<Rightarrow> wb_exc + unit" where
  "require_base cs current =
     refuse_if (source_version current \<noteq> base_source_version cs)
       (SourceVersionConflictError ''source version changed before mutation'')"

definition require_authorized :: "change_set \<Rightarrow> auth_decision \<Rightarrow> wb_exc + unit" where
  "require_authorized cs d =
     refuse_if (\<not> authorized d \<or> d \<noteq> authorization cs)
       (AuthorizationDeniedError ''authorization decision binding mismatch'')"

definition require_effect :: "engine \<Rightarrow> change_set \<Rightarrow> attempt \<Rightarrow> wb_exc + unit" where
  "require_effect g cs r =
     (let expected =
            (tenant_id cs, change_set_id cs, change_set_digest cs, idempotency_key cs,
             input_digest (authorization cs), output_digest (authorization cs), patch_digest g cs);
          observed =
            (at_tenant_id r, at_change_set_id r, at_change_set_digest r, at_idempotency_key r,
             at_input_digest r, at_output_digest r, applied_field_digest r)
      in refuse_if
           (observed \<noteq> expected \<or> at_kind r \<noteq> KindApply \<or> at_outcome r \<noteq> OutApplied
            \<or> at_effect_status r \<noteq> EffApplied)
           (ChangeSetValidationError ''apply observation binding mismatch''))"

definition require_reconciliation :: "change_set \<Rightarrow> observation \<Rightarrow> wb_exc + unit" where
  "require_reconciliation cs r =
     (let expected =
            (tenant_id cs, change_set_id cs, change_set_digest cs, idempotency_key cs);
          observed =
            (ob_tenant_id r, ob_change_set_id r, ob_change_set_digest r, ob_idempotency_key r)
      in andR (refuse_if (observed \<noteq> expected)
                (ChangeSetValidationError ''reconciliation binding mismatch''))
         (andR (refuse_if (ob_effect_status r = EffApplied \<and> retry_allowed r)
                 (ChangeSetValidationError ''an applied effect cannot be retryable''))
         (andR (refuse_if (ob_effect_status r = EffUncertain \<and> retry_allowed r)
                 (ChangeSetValidationError ''an uncertain effect cannot be retryable''))
         (refuse_if (ob_effect_status r = EffNoEffect \<and> \<not> retry_allowed r)
            (ChangeSetValidationError ''a proven no-effect must permit retry'')))))"

text \<open>What a bound effect and a bound reconciliation are, as predicates.\<close>

definition effect_bound :: "engine \<Rightarrow> change_set \<Rightarrow> attempt \<Rightarrow> bool" where
  "effect_bound g cs r \<longleftrightarrow>
     at_tenant_id r = tenant_id cs \<and> at_change_set_id r = change_set_id cs
     \<and> at_change_set_digest r = change_set_digest cs \<and> at_idempotency_key r = idempotency_key cs
     \<and> at_input_digest r = input_digest (authorization cs)
     \<and> at_output_digest r = output_digest (authorization cs)
     \<and> applied_field_digest r = patch_digest g cs \<and> at_kind r = KindApply
     \<and> at_outcome r = OutApplied \<and> at_effect_status r = EffApplied"

lemma require_base_iff [result_iff]:
  "require_base cs c = Inr u \<longleftrightarrow> source_version c = base_source_version cs"
  by (simp add: require_base_def result_iff)

lemma require_authorized_iff [result_iff]:
  "require_authorized cs d = Inr u \<longleftrightarrow> authorized d \<and> d = authorization cs"
  by (simp add: require_authorized_def result_iff)

lemma require_effect_iff [result_iff]:
  "require_effect g cs r = Inr u \<longleftrightarrow> effect_bound g cs r"
  by (auto simp: require_effect_def effect_bound_def result_iff)

lemma require_effect_eq:
  "require_effect g cs r =
     (if effect_bound g cs r then Inr ()
      else Inl (ChangeSetValidationError ''apply observation binding mismatch''))"
  by (auto simp: require_effect_def effect_bound_def refuse_if_def)

lemma require_reconciliation_iff [result_iff]:
  "require_reconciliation cs r = Inr u \<longleftrightarrow>
     ob_tenant_id r = tenant_id cs \<and> ob_change_set_id r = change_set_id cs
     \<and> ob_change_set_digest r = change_set_digest cs \<and> ob_idempotency_key r = idempotency_key cs
     \<and> (ob_effect_status r \<in> {EffApplied, EffUncertain} \<longrightarrow> \<not> retry_allowed r)
     \<and> (ob_effect_status r = EffNoEffect \<longrightarrow> retry_allowed r)"
  by (auto simp: require_reconciliation_def result_iff)

section \<open>Dry-run binding\<close>

definition encode :: "engine \<Rightarrow> json \<Rightarrow> wb_exc + string" where
  "encode g v =
     (case encode_json False (float_repr g) v of
        None \<Rightarrow> Inl (ChangeSetValidationError ''invalid dry-run preview values'')
      | Some e \<Rightarrow> Inr e)"

record expected_preview =
  ep_before :: string
  ep_after :: string
  ep_changed :: "string list"

text \<open>\<^theory_text>\<open>current.fields.get(name)\<close>: a missing field reads as \<^theory_text>\<open>None\<close>.\<close>

definition field_get :: "(string, json) dict \<Rightarrow> string \<Rightarrow> json" where
  "field_get d name = (case map_of d name of None \<Rightarrow> JNull | Some v \<Rightarrow> v)"

definition scoped_before :: "change_set \<Rightarrow> snapshot \<Rightarrow> (string, json) dict" where
  "scoped_before cs current =
     fold (\<lambda>name d. dict_set name (field_get (sn_fields current) name) d) (field_scope cs) []"

text \<open>
  The set of changed fields is kept as the list of scope entries in the set. \<open>after[name]\<close> of a
  name outside the patch is \<open>KeyError\<close>, which the source does not catch.
\<close>

fun changed_names ::
  "engine \<Rightarrow> (string, json) dict \<Rightarrow> (string, json) dict \<Rightarrow> string list \<Rightarrow> wb_exc + string list" where
  "changed_names g before after [] = Inr []"
| "changed_names g before after (name # names) =
     bindR (encode g (field_get before name)) (\<lambda>b.
     bindR (case map_of after name of None \<Rightarrow> Inl (KeyError name) | Some v \<Rightarrow> encode g v) (\<lambda>a.
     bindR (changed_names g before after names) (\<lambda>rest.
       Inr (if b \<noteq> a then List.insert name rest else rest))))"

definition expected_preview_of :: "engine \<Rightarrow> change_set \<Rightarrow> snapshot \<Rightarrow> wb_exc + expected_preview" where
  "expected_preview_of g cs current =
     (let before = scoped_before cs current; after = desired_patch cs in
      bindR (changed_names g before after (field_scope cs)) (\<lambda>changed.
      bindR (encode g (JObj before)) (\<lambda>b.
      bindR (encode g (JObj after)) (\<lambda>a.
        Inr \<lparr>ep_before = b, ep_after = a, ep_changed = changed\<rparr>))))"

definition require_preview_binding ::
  "engine \<Rightarrow> change_set \<Rightarrow> snapshot \<Rightarrow> expected_preview \<Rightarrow> dry_run_observation \<Rightarrow> wb_exc + unit" where
  "require_preview_binding g cs current expected result =
     bindR (encode g (JObj (dr_before result))) (\<lambda>b.
     bindR (if b = ep_before expected
            then bindR (encode g (JObj (dr_after result))) (\<lambda>a. Inr (a = ep_after expected))
            else Inr False) (\<lambda>matches.
     refuse_if
       (dr_change_set_digest result \<noteq> change_set_digest cs
        \<or> desired_patch_digest result \<noteq> patch_digest g cs
        \<or> change_set_digest cs \<noteq> canonical_digest g cs
        \<or> dr_source_version result \<noteq> source_version current
        \<or> \<not> matches
        \<or> length (changed_fields result) \<noteq> length (ep_changed expected)
        \<or> set (changed_fields result) \<noteq> set (ep_changed expected))
       (ChangeSetValidationError ''dry-run observation binding mismatch'')))"

section \<open>Authorization resolvers\<close>

text \<open>
  \<^verbatim>\<open>writeback/authorization.py\<close>: the fixture verifier grants exact bindings in advance; the
  durable resolver reads the ledger's change set back.
\<close>

record authorization_binding =
  ab_change_set_digest :: string
  ab_mode :: string
  ab_authorization_ref :: string
  ab_policy_digest :: string
  ab_decision_digest :: string
  ab_input_digest :: string
  ab_output_digest :: string

definition binding_of :: "change_set \<Rightarrow> authorization_binding" where
  "binding_of cs =
     (let a = authorization cs in
      \<lparr>ab_change_set_digest = change_set_digest cs, ab_mode = mode a,
       ab_authorization_ref = authorization_ref a, ab_policy_digest = policy_digest cs,
       ab_decision_digest = decision_digest a, ab_input_digest = input_digest a,
       ab_output_digest = output_digest a\<rparr>)"

definition grant ::
  "authorization_binding list \<Rightarrow> change_set \<Rightarrow> wb_exc + authorization_binding list" where
  "grant grants cs =
     (let b = binding_of cs in
      andR (refuse_if (ab_authorization_ref b = [] \<or> ab_policy_digest b = [])
             (AuthorizationDeniedError
               ''authorization reference and policy digest must not be empty''))
        (Inr (List.insert b grants)))"

definition verify_grant ::
  "authorization_binding list \<Rightarrow> change_set \<Rightarrow> wb_exc + auth_decision" where
  "verify_grant grants cs =
     andR (refuse_if (binding_of cs \<notin> set grants)
            (AuthorizationDeniedError ''no exact authorization decision''))
       (Inr (authorization cs))"

definition require_durable_authorization ::
  "engine \<Rightarrow> change_set \<Rightarrow> change_set option \<Rightarrow> wb_exc + auth_decision" where
  "require_durable_authorization g requested durable =
     (case durable of
        None \<Rightarrow> Inl (AuthorizationDeniedError ''durable change set does not exist'')
      | Some d \<Rightarrow>
          andR (refuse_if (d \<noteq> requested \<or> change_set_digest d \<noteq> canonical_digest g d)
                 (AuthorizationDeniedError ''durable change-set binding mismatch''))
          (andR (refuse_if (\<not> authorized (authorization d))
                  (AuthorizationDeniedError ''durable authorization denied''))
             (Inr (authorization d))))"

lemma verify_grant_iff [result_iff]:
  "verify_grant grants cs = Inr d \<longleftrightarrow> binding_of cs \<in> set grants \<and> d = authorization cs"
  by (auto simp: verify_grant_def result_iff)

lemma require_durable_authorization_iff [result_iff]:
  "require_durable_authorization g cs durable = Inr d \<longleftrightarrow>
     durable = Some cs \<and> change_set_digest cs = canonical_digest g cs
     \<and> authorized (authorization cs) \<and> d = authorization cs"
  by (auto simp: require_durable_authorization_def result_iff split: option.splits)

text \<open>
  \<^verbatim>\<open>writeback/recorded_approval.py\<close>: the approval record comes from the engine; the fields read
  are here, with \<^theory_text>\<open>GovernedStatus.APPROVED\<close> as a flag.
\<close>

record governed_change =
  gc_change_id :: string
  gc_kind :: string
  gc_target :: string
  gc_digest :: string
  gc_approved :: bool
  gc_approver :: "string option"
  gc_proposer :: string
  gc_approved_until_ms :: "int option"

definition write_back_approval_target :: "engine \<Rightarrow> change_set \<Rightarrow> string" where
  "write_back_approval_target g cs =
     ''write-back:'' @ sha256 g (utf8
       (''['' @ encode_string_raw (tenant_id cs) @ '','' @ encode_string_raw (change_set_id cs)
        @ '']''))"

definition approval_identity_matches ::
  "governed_change \<Rightarrow> auth_decision \<Rightarrow> change_set \<Rightarrow> string \<Rightarrow> bool" where
  "approval_identity_matches a d cs target \<longleftrightarrow>
     gc_change_id a = authorization_ref d \<and> gc_kind a = ''governed.write-back''
     \<and> gc_target a = target \<and> gc_digest a = change_set_digest cs"

definition approval_is_independent :: "governed_change \<Rightarrow> change_set \<Rightarrow> bool" where
  "approval_is_independent a cs \<longleftrightarrow>
     gc_approved a
     \<and> (case gc_approver a of None \<Rightarrow> False | Some p \<Rightarrow> p \<noteq> [] \<and> p \<noteq> gc_proposer a)
     \<and> gc_proposer a = actor cs"

definition approval_is_live :: "governed_change \<Rightarrow> change_set \<Rightarrow> int \<Rightarrow> bool" where
  "approval_is_live a cs now \<longleftrightarrow>
     (case gc_approved_until_ms a of None \<Rightarrow> False | Some t \<Rightarrow> now < t) \<and> now < expires_at_ms cs"

definition approval_binds ::
  "governed_change \<Rightarrow> auth_decision \<Rightarrow> change_set \<Rightarrow> string \<Rightarrow> int \<Rightarrow> bool" where
  "approval_binds a d cs target now \<longleftrightarrow>
     approval_identity_matches a d cs target \<and> approval_is_independent a cs
     \<and> approval_is_live a cs now"

text \<open>
  The resolver after its two reads: \<open>durable\<close> is the ledger's answer, \<open>loaded\<close> the approval
  (\<open>None\<close> when loading or parsing it failed), \<open>now\<close> the clock.
\<close>

definition resolve_recorded_approval ::
  "engine \<Rightarrow> change_set \<Rightarrow> change_set option \<Rightarrow> governed_change option \<Rightarrow> int
   \<Rightarrow> wb_exc + auth_decision" where
  "resolve_recorded_approval g cs durable loaded now =
     bindR (require_durable_authorization g cs durable) (\<lambda>d.
       case loaded of
         None \<Rightarrow> Inl (AuthorizationDeniedError ''recorded approval unavailable'')
       | Some a \<Rightarrow>
           andR (refuse_if (\<not> approval_binds a d cs (write_back_approval_target g cs) now)
                  (AuthorizationDeniedError ''recorded approval binding mismatch''))
             (Inr d))"

lemma resolve_recorded_approval_iff [result_iff]:
  "resolve_recorded_approval g cs durable loaded now = Inr d \<longleftrightarrow>
     require_durable_authorization g cs durable = Inr d
     \<and> (\<exists>a. loaded = Some a \<and> approval_binds a d cs (write_back_approval_target g cs) now)"
  by (auto simp: resolve_recorded_approval_def result_iff split: option.splits)

end
