(* ===== verification/WB_Service.thy ===== *)
theory WB_Service
  imports WB_Contract
begin

text \<open>
  \<open>GovernedWriteBack\<close> of \<^verbatim>\<open>writeback/service.py\<close> over arbitrary ports. The ports
  (\<^verbatim>\<open>ports/writeback_transport.py\<close>, \<^verbatim>\<open>ports/authorization_verifier.py\<close>,
  \<^verbatim>\<open>ports/audit_reservation.py\<close>, the clock and the wallet-proof gate) are functions on a world
  of any type \<open>'w\<close>: every call may change the world and may raise. Every call is appended to a
  log with its answer, so the order of the calls is part of the model.

  Change sets are values, so the deep copies the source takes before it awaits a port are the
  identity here: no caller can mutate them.
\<close>

section \<open>Ports\<close>

type_synonym ('w, 'a) port = "'w \<Rightarrow> (wb_exc + 'a) \<times> 'w"

text \<open>
  The two optional protocols of a transport (\<open>ReservableWriteBackTransport\<close> and
  \<open>AuditBoundWriteBackTransport\<close>) are options. A gate or an audit port that answers with an
  object of another class answers \<open>None\<close>.
\<close>

record 'w transport =
  t_read_current :: "change_set \<Rightarrow> ('w, snapshot) port"
  t_preview :: "change_set \<Rightarrow> snapshot \<Rightarrow> ('w, dry_run_observation) port"
  t_prior_effect :: "change_set \<Rightarrow> ('w, attempt option) port"
  t_apply :: "change_set \<Rightarrow> string \<Rightarrow> ('w, attempt) port"
  t_reconcile :: "change_set \<Rightarrow> ('w, observation) port"
  t_prepare :: "(change_set \<Rightarrow> ('w, unit) port) option"
  t_apply_reserved :: "(change_set \<Rightarrow> string \<Rightarrow> audit_reservation \<Rightarrow> ('w, attempt) port) option"

record wallet_result =
  wr_verified :: bool
  wr_reason :: string

record 'w governed =
  gw_engine :: engine
  gw_transport :: "'w transport"
  gw_verify :: "change_set \<Rightarrow> ('w, auth_decision) port"
  gw_reserve :: "change_set \<Rightarrow> ('w, audit_reservation option) port"
  gw_clock :: "('w, int) port"
  gw_gate :: "(change_set \<Rightarrow> ('w, wallet_result option) port) option"

datatype event =
    EvClock "wb_exc + int"
  | EvVerify "wb_exc + auth_decision"
  | EvGate "wb_exc + wallet_result option"
  | EvPrepare "wb_exc + unit"
  | EvPrior "wb_exc + attempt option"
  | EvRead "wb_exc + snapshot"
  | EvPreview "wb_exc + dry_run_observation"
  | EvReserve "wb_exc + audit_reservation option"
  | EvEffect change_set string "wb_exc + attempt"
  | EvReconcile change_set "wb_exc + observation"

text \<open>The two calls that bear on the unresolved attempts: the effect itself and a reconciliation.\<close>

fun is_marking :: "event \<Rightarrow> bool" where
  "is_marking (EvEffect cs v r) = True"
| "is_marking (EvReconcile cs r) = True"
| "is_marking e = False"

text \<open>The service's own state: the unresolved attempts, next to the world and the call log.\<close>

record 'w gstate =
  world :: 'w
  unresolved :: "string \<rightharpoonup> string"
  log :: "event list"

type_synonym ('w, 'z, 'a) wb_prog = "(('w, 'z) gstate_scheme, wb_exc, 'a) prog"

definition port_call ::
  "(wb_exc + 'a \<Rightarrow> event) \<Rightarrow> ('w, 'a) port \<Rightarrow> ('w, 'z, 'a) wb_prog" where
  "port_call ev p =
     (\<lambda>s. case p (world s) of (r, w') \<Rightarrow> (r, s\<lparr>world := w', log := log s @ [ev r]\<rparr>))"

lemma wp_port_call [wp_simps]:
  "wp (port_call ev p) Q E s =
     (case p (world s) of (r, w') \<Rightarrow>
        (case r of
           Inl e \<Rightarrow> E e (s\<lparr>world := w', log := log s @ [ev r]\<rparr>)
         | Inr x \<Rightarrow> Q x (s\<lparr>world := w', log := log s @ [ev r]\<rparr>)))"
  by (simp add: wp_def port_call_def split: prod.splits sum.splits)

section \<open>The service\<close>

definition require_bound_reservation ::
  "change_set \<Rightarrow> audit_reservation option \<Rightarrow> wb_exc + audit_reservation" where
  "require_bound_reservation cs reply =
     (case reply of
        None \<Rightarrow> Inl (AuditReservationUnavailableError
                       ''audit reservation binding mismatch or missing ID'')
      | Some r \<Rightarrow>
          andR (refuse_if
             ((case reservation_id r of None \<Rightarrow> True | Some i \<Rightarrow> blank i)
              \<or> effect_key r \<noteq> idempotency_key cs
              \<or> ar_change_set_digest r \<noteq> change_set_digest cs)
             (AuditReservationUnavailableError
               ''audit reservation binding mismatch or missing ID''))
          (Inr r))"

definition reservation_bound :: "change_set \<Rightarrow> audit_reservation \<Rightarrow> bool" where
  "reservation_bound cs r \<longleftrightarrow>
     (\<exists>i. reservation_id r = Some i \<and> \<not> blank i)
     \<and> effect_key r = idempotency_key cs \<and> ar_change_set_digest r = change_set_digest cs"

lemma require_bound_reservation_iff [result_iff]:
  "require_bound_reservation cs reply = Inr r \<longleftrightarrow> reply = Some r \<and> reservation_bound cs r"
  by (auto simp: require_bound_reservation_def reservation_bound_def result_iff
      split: option.splits)

text \<open>\<open>set(scope)\<close> against the keys of the patch and of the provenance.\<close>

definition scope_exact :: "change_set \<Rightarrow> bool" where
  "scope_exact cs \<longleftrightarrow>
     distinct (field_scope cs) \<and> set (field_scope cs) = fst ` set (desired_patch cs)
     \<and> set (field_scope cs) = fst ` set (field_provenance cs)"

definition gw_validate :: "'w governed \<Rightarrow> change_set \<Rightarrow> ('w, 'z, unit) wb_prog" where
  "gw_validate g cs =
     thenP (liftP (refuse_if (change_set_digest cs \<noteq> canonical_digest (gw_engine g) cs)
              (ChangeSetValidationError ''change-set digest does not match contents'')))
     (bindP (port_call EvClock (gw_clock g)) (\<lambda>now.
      thenP (liftP (refuse_if (expires_at_ms cs \<le> now)
               (ChangeSetExpiredError ''change set has expired'')))
      (liftP (refuse_if
         (length (field_scope cs) \<noteq> length (remdups (field_scope cs))
          \<or> set (field_scope cs) \<noteq> fst ` set (desired_patch cs)
          \<or> set (field_scope cs) \<noteq> fst ` set (field_provenance cs))
         (ChangeSetValidationError ''patch and provenance must exactly match field scope'')))))"

definition gw_authorize :: "'w governed \<Rightarrow> change_set \<Rightarrow> ('w, 'z, unit) wb_prog" where
  "gw_authorize g cs =
     thenP (gw_validate g cs)
     (bindP (port_call EvVerify (gw_verify g cs)) (\<lambda>decision.
      thenP (gw_validate g cs)
      (liftP (require_authorized cs decision))))"

definition gw_require_wallet_proof :: "'w governed \<Rightarrow> change_set \<Rightarrow> ('w, 'z, unit) wb_prog" where
  "gw_require_wallet_proof g cs =
     (case gw_gate g of
        None \<Rightarrow> returnP ()
      | Some gate \<Rightarrow>
          bindP (catchP (port_call EvGate (gate cs))
                  (\<lambda>e. if e = Interrupt then None
                       else Some (raiseP (WalletProofRefusedError ''verification_unavailable''))))
            (\<lambda>reply. case reply of
               None \<Rightarrow> raiseP (WalletProofRefusedError ''missing_signature'')
             | Some r \<Rightarrow>
                 if wr_verified r then returnP ()
                 else raiseP (WalletProofRefusedError (wr_reason r))))"

definition gw_require_reconciled :: "change_set \<Rightarrow> ('w, 'z, unit) wb_prog" where
  "gw_require_reconciled cs =
     bindP (getsP unresolved) (\<lambda>u.
       liftP (refuse_if (u (idempotency_key cs) \<noteq> None)
         (ReconciliationRequiredError ''uncertain outcome must reconcile first'')))"

definition gw_current_version :: "'w governed \<Rightarrow> change_set \<Rightarrow> ('w, 'z, snapshot) wb_prog" where
  "gw_current_version g cs =
     thenP (gw_validate g cs) (port_call EvRead (t_read_current (gw_transport g) cs))"

definition gw_dry_run :: "'w governed \<Rightarrow> change_set \<Rightarrow> ('w, 'z, dry_run_observation) wb_prog" where
  "gw_dry_run g cs =
     thenP (gw_validate g cs)
     (bindP (port_call EvRead (t_read_current (gw_transport g) cs)) (\<lambda>current.
      thenP (liftP (require_base cs current))
      (bindP (liftP (expected_preview_of (gw_engine g) cs current)) (\<lambda>expected.
       bindP (port_call EvPreview (t_preview (gw_transport g) cs current)) (\<lambda>result.
       thenP (liftP (require_preview_binding (gw_engine g) cs current expected result))
       (returnP result))))))"

definition gw_run_effect ::
  "'w governed \<Rightarrow> change_set \<Rightarrow> snapshot \<Rightarrow> audit_reservation \<Rightarrow> ('w, 'z, attempt) wb_prog" where
  "gw_run_effect g cs current reservation =
     bindP (port_call (EvEffect cs (source_version current))
              (case t_apply_reserved (gw_transport g) of
                 Some ar \<Rightarrow> ar cs (source_version current) reservation
               | None \<Rightarrow> t_apply (gw_transport g) cs (source_version current)))
       (\<lambda>result. thenP (liftP (require_effect (gw_engine g) cs result)) (returnP result))"

text \<open>
  \<open>_uncertain\<close>: \<^theory_text>\<open>json.dumps\<close> of the provenance allows non-finite floats.
\<close>

definition gw_uncertain :: "engine \<Rightarrow> change_set \<Rightarrow> string \<Rightarrow> attempt" where
  "gw_uncertain g cs version =
     \<lparr>at_tenant_id = tenant_id cs, at_change_set_id = change_set_id cs,
      at_change_set_digest = change_set_digest cs, at_idempotency_key = idempotency_key cs,
      at_kind = KindApply, at_input_digest = input_digest (authorization cs),
      at_output_digest = output_digest (authorization cs),
      pre_source_version = version, post_source_version = version,
      applied_field_digest = patch_digest g cs,
      at_outcome = OutUncertain, at_effect_status = EffUncertain,
      at_observation_digest =
        sha256 g (utf8 (idempotency_key cs @ '':'' @ version @ '':outcome_uncertain'')),
      at_provenance_digest = json_digest g (JObj (field_provenance cs))\<rparr>"

definition gw_mark_unresolved :: "change_set \<Rightarrow> ('w, 'z, unit) wb_prog" where
  "gw_mark_unresolved cs =
     modifyP (\<lambda>s. s\<lparr>unresolved := (unresolved s)(idempotency_key cs \<mapsto> change_set_digest cs)\<rparr>)"

text \<open>
  The part of \<open>apply\<close> after the prior-effect lookup found nothing: \<open>gw_admit\<close> is the first
  authorization and the audit reservation, \<open>gw_commit\<close> the second authorization and the effect
  with its exception handler.
\<close>

definition gw_admit :: "'w governed \<Rightarrow> change_set \<Rightarrow> ('w, 'z, audit_reservation) wb_prog" where
  "gw_admit g cs =
     bindP (port_call EvVerify (gw_verify g cs)) (\<lambda>decision.
     thenP (liftP (require_authorized cs decision))
     (bindP (port_call EvReserve (gw_reserve g cs)) (\<lambda>reply.
      liftP (require_bound_reservation cs reply))))"

definition gw_commit ::
  "'w governed \<Rightarrow> change_set \<Rightarrow> snapshot \<Rightarrow> audit_reservation \<Rightarrow> ('w, 'z, attempt) wb_prog" where
  "gw_commit g cs current reservation =
     thenP (gw_validate g cs)
     (bindP (port_call EvVerify (gw_verify g cs)) (\<lambda>decision.
      thenP (gw_validate g cs)
      (thenP (liftP (require_authorized cs decision))
       (catchP (gw_run_effect g cs current reservation)
          (\<lambda>e. case e of
             OutcomeUncertainError m \<Rightarrow>
               Some (thenP (gw_mark_unresolved cs)
                 (returnP (gw_uncertain (gw_engine g) cs (source_version current))))
           | _ \<Rightarrow> None)))))"

definition gw_apply_fresh :: "'w governed \<Rightarrow> change_set \<Rightarrow> ('w, 'z, attempt) wb_prog" where
  "gw_apply_fresh g cs =
     bindP (port_call EvRead (t_read_current (gw_transport g) cs)) (\<lambda>current.
     thenP (liftP (require_base cs current))
     (bindP (gw_admit g cs) (gw_commit g cs current)))"

definition gw_prepare :: "'w governed \<Rightarrow> change_set \<Rightarrow> ('w, 'z, unit) wb_prog" where
  "gw_prepare g cs =
     (case t_prepare (gw_transport g) of
        None \<Rightarrow> returnP ()
      | Some p \<Rightarrow> port_call EvPrepare (p cs))"

definition gw_apply :: "'w governed \<Rightarrow> change_set \<Rightarrow> ('w, 'z, attempt) wb_prog" where
  "gw_apply g cs =
     thenP (gw_validate g cs)
     (thenP (gw_require_reconciled cs)
     (thenP (gw_authorize g cs)
     (thenP (gw_require_wallet_proof g cs)
     (thenP (gw_prepare g cs)
     (bindP (port_call EvPrior (t_prior_effect (gw_transport g) cs)) (\<lambda>prior.
      case prior of
        Some effect \<Rightarrow>
          thenP (gw_authorize g cs)
          (thenP (liftP (require_effect (gw_engine g) cs effect)) (returnP effect))
      | None \<Rightarrow> gw_apply_fresh g cs))))))"

definition gw_reconcile :: "'w governed \<Rightarrow> change_set \<Rightarrow> ('w, 'z, observation) wb_prog" where
  "gw_reconcile g cs =
     thenP (gw_validate g cs)
     (bindP (getsP unresolved) (\<lambda>u.
      thenP (liftP (refuse_if
        (case u (idempotency_key cs) of None \<Rightarrow> False | Some d \<Rightarrow> d \<noteq> change_set_digest cs)
        (ReconciliationRequiredError ''idempotency key is bound to another uncertain change set'')))
      (bindP (port_call (EvReconcile cs) (t_reconcile (gw_transport g) cs)) (\<lambda>result.
       thenP (liftP (require_reconciliation cs result))
       (thenP (modifyP (\<lambda>s.
           if ob_effect_status result \<noteq> EffUncertain
           then s\<lparr>unresolved := (unresolved s)(idempotency_key cs := None)\<rparr> else s))
        (returnP result))))))"

section \<open>The calls a method makes\<close>

text \<open>
  \<open>extends s P r\<close>: the run went from \<open>s\<close> to a state whose log is that of \<open>s\<close> followed by
  events satisfying \<open>P\<close>. \<open>calls m P s\<close> says it of a program, whether it returns or raises.
\<close>

definition extends ::
  "('w, 'z) gstate_scheme \<Rightarrow> (event list \<Rightarrow> bool) \<Rightarrow> ('w, 'z) gstate_scheme \<Rightarrow> bool" where
  "extends s P s' \<longleftrightarrow> (\<exists>evs. log s' = log s @ evs \<and> P evs)"

definition quiet :: "event list \<Rightarrow> bool" where
  "quiet evs \<longleftrightarrow> filter is_marking evs = []"

lemma quiet_simps [simp]:
  "quiet []"
  "quiet (e # es) \<longleftrightarrow> \<not> is_marking e \<and> quiet es"
  "quiet (es @ fs) \<longleftrightarrow> quiet es \<and> quiet fs"
  by (auto simp: quiet_def)

text \<open>
  A silent step makes no effect call and leaves the unresolved attempts alone; \<open>A\<close> collects what
  its log shows when it returns.
\<close>

definition silent ::
  "('w, 'z, 'a) wb_prog \<Rightarrow> ('a \<Rightarrow> event list \<Rightarrow> bool) \<Rightarrow> ('w, 'z) gstate_scheme \<Rightarrow> bool" where
  "silent m A s \<longleftrightarrow>
     wp m (\<lambda>x s'. extends s (\<lambda>evs. quiet evs \<and> A x evs) s' \<and> unresolved s' = unresolved s)
          (\<lambda>_ s'. extends s quiet s' \<and> unresolved s' = unresolved s) s"

lemma silent_bind:
  assumes "silent m A s"
    and "\<And>x s' evs. A x evs \<Longrightarrow> quiet evs \<Longrightarrow> log s' = log s @ evs \<Longrightarrow> unresolved s' = unresolved s
           \<Longrightarrow> wp (f x) Q E s'"
    and "\<And>e s'. extends s quiet s' \<Longrightarrow> unresolved s' = unresolved s \<Longrightarrow> E e s'"
  shows "wp (bindP m f) Q E s"
  unfolding wp_bind using assms(1) unfolding silent_def
  by (rule wp_mono) (auto simp: extends_def intro: assms(2,3))

lemma silent_then:
  assumes "silent m A s"
    and "\<And>s' evs. A () evs \<Longrightarrow> quiet evs \<Longrightarrow> log s' = log s @ evs \<Longrightarrow> unresolved s' = unresolved s
               \<Longrightarrow> wp n Q E s'"
    and "\<And>e s'. extends s quiet s' \<Longrightarrow> unresolved s' = unresolved s \<Longrightarrow> E e s'"
  shows "wp (thenP m n) Q E s"
  unfolding thenP_def by (rule silent_bind [OF assms(1)]) (use assms(2,3) in auto)

lemmas service_splits =
  prod.splits sum.splits option.splits if_splits wb_exc.splits unit.splits

text \<open>What a log shows after a successful \<open>gw_validate\<close>: a clock reading before the expiry.\<close>

lemma silent_validate:
  "silent (gw_validate g cs)
     (\<lambda>_ evs. (\<exists>t. evs = [EvClock (Inr t)] \<and> t < expires_at_ms cs)
        \<and> change_set_digest cs = canonical_digest (gw_engine g) cs \<and> scope_exact cs) s"
  by (auto simp: silent_def gw_validate_def wp_simps extends_def refuse_if_def scope_exact_def
      length_remdups_distinct split: service_splits)

lemma silent_wallet:
  "silent (gw_require_wallet_proof g cs)
     (\<lambda>_ evs. gw_gate g \<noteq> None \<longrightarrow> (\<exists>w. EvGate (Inr (Some w)) \<in> set evs \<and> wr_verified w)) s"
  by (auto simp: silent_def gw_require_wallet_proof_def wp_simps extends_def split: service_splits)

lemma silent_prepare: "silent (gw_prepare g cs) (\<lambda>_ _. True) s"
  by (auto simp: silent_def gw_prepare_def wp_simps extends_def split: service_splits)

lemma silent_port:
  "(\<And>r. \<not> is_marking (ev r)) \<Longrightarrow> silent (port_call ev p) (\<lambda>x evs. evs = [ev (Inr x)]) s"
  by (auto simp: silent_def wp_simps extends_def split: service_splits)

lemma silent_authorize:
  "silent (gw_authorize g cs) (\<lambda>_ evs. EvVerify (Inr (authorization cs)) \<in> set evs
     \<and> authorized (authorization cs) \<and> scope_exact cs) s"
  unfolding silent_def gw_authorize_def
  by (auto simp: gw_validate_def wp_simps extends_def refuse_if_def scope_exact_def
      require_authorized_def length_remdups_distinct split: service_splits)

text \<open>
  The log of the calls between the failed prior-effect lookup and the effect, in this order and
  with nothing in between: the current version read, the verifier, the audit reservation, a clock
  reading, the verifier again, another clock reading and the effect at the version read.
  \<open>unresolved_after\<close> says when the effect leaves its key unresolved.
\<close>

definition unresolved_after ::
  "change_set \<Rightarrow> wb_exc + attempt \<Rightarrow> (string \<rightharpoonup> string) \<Rightarrow> (string \<rightharpoonup> string)" where
  "unresolved_after cs res u =
     (case res of
        Inl (OutcomeUncertainError m) \<Rightarrow> u(idempotency_key cs \<mapsto> change_set_digest cs)
      | _ \<Rightarrow> u)"

definition admitted ::
  "'w governed \<Rightarrow> change_set \<Rightarrow> (string \<rightharpoonup> string) \<Rightarrow> (string \<rightharpoonup> string) \<Rightarrow> event list \<Rightarrow> bool" where
  "admitted g cs u u' evs \<longleftrightarrow>
     (\<exists>current r t1 t2 res.
        evs = [EvRead (Inr current), EvVerify (Inr (authorization cs)), EvReserve (Inr (Some r)),
               EvClock (Inr t1), EvVerify (Inr (authorization cs)), EvClock (Inr t2),
               EvEffect cs (base_source_version cs) res]
        \<and> source_version current = base_source_version cs
        \<and> reservation_bound cs r \<and> authorized (authorization cs)
        \<and> t1 < expires_at_ms cs \<and> t2 < expires_at_ms cs
        \<and> change_set_digest cs = canonical_digest (gw_engine g) cs \<and> scope_exact cs
        \<and> u' = unresolved_after cs res u)"

text \<open>
  What a returned attempt is: the transport's own, bound to the change set, or the uncertain one,
  whose key is then recorded.
\<close>

definition outcome_ok ::
  "'w governed \<Rightarrow> change_set \<Rightarrow> ('w, 'z) gstate_scheme \<Rightarrow> attempt \<Rightarrow> ('w, 'z) gstate_scheme \<Rightarrow> bool" where
  "outcome_ok g cs s r s' \<longleftrightarrow>
     effect_bound (gw_engine g) cs r \<and> unresolved s' = unresolved s
     \<or> r = gw_uncertain (gw_engine g) cs (base_source_version cs)
       \<and> unresolved s' = (unresolved s)(idempotency_key cs \<mapsto> change_set_digest cs)"

lemma silent_admit:
  "silent (gw_admit g cs)
     (\<lambda>r evs. evs = [EvVerify (Inr (authorization cs)), EvReserve (Inr (Some r))]
        \<and> authorized (authorization cs) \<and> reservation_bound cs r) s"
  by (auto simp: silent_def gw_admit_def wp_simps extends_def require_authorized_def refuse_if_def
      require_bound_reservation_def reservation_bound_def split: service_splits)

text \<open>The part of \<open>admitted\<close> that \<open>gw_commit\<close> is responsible for.\<close>

definition commit_events ::
  "'w governed \<Rightarrow> change_set \<Rightarrow> (string \<rightharpoonup> string) \<Rightarrow> (string \<rightharpoonup> string) \<Rightarrow> event list \<Rightarrow> bool" where
  "commit_events g cs u u' evs \<longleftrightarrow>
     (\<exists>t1 t2 res.
        evs = [EvClock (Inr t1), EvVerify (Inr (authorization cs)), EvClock (Inr t2),
               EvEffect cs (base_source_version cs) res]
        \<and> t1 < expires_at_ms cs \<and> t2 < expires_at_ms cs
        \<and> change_set_digest cs = canonical_digest (gw_engine g) cs \<and> scope_exact cs
        \<and> u' = unresolved_after cs res u)"

definition effect_event ::
  "change_set \<Rightarrow> (string \<rightharpoonup> string) \<Rightarrow> (string \<rightharpoonup> string) \<Rightarrow> event list \<Rightarrow> bool" where
  "effect_event cs u u' evs \<longleftrightarrow>
     (\<exists>res. evs = [EvEffect cs (base_source_version cs) res] \<and> u' = unresolved_after cs res u)"

lemma run_effect_commit:
  assumes "source_version current = base_source_version cs"
  shows "wp (catchP (gw_run_effect g cs current reservation)
          (\<lambda>e. case e of
             OutcomeUncertainError m \<Rightarrow>
               Some (thenP (gw_mark_unresolved cs)
                 (returnP (gw_uncertain (gw_engine g) cs (source_version current))))
           | _ \<Rightarrow> None))
     (\<lambda>r s'. extends s (effect_event cs (unresolved s) (unresolved s')) s' \<and> outcome_ok g cs s r s')
     (\<lambda>_ s'. extends s (effect_event cs (unresolved s) (unresolved s')) s') s"
proof (cases "(case t_apply_reserved (gw_transport g) of
      Some ar \<Rightarrow> ar cs (source_version current) reservation
    | None \<Rightarrow> t_apply (gw_transport g) cs (source_version current)) (world s)")
  case (Pair res w)
  then show ?thesis
    using assms
    by (cases res)
      (auto simp: gw_run_effect_def gw_mark_unresolved_def wp_simps extends_def outcome_ok_def
        effect_event_def unresolved_after_def require_effect_eq split: wb_exc.splits)
qed

lemma commit_calls:
  assumes "source_version current = base_source_version cs"
  shows "wp (gw_commit g cs current reservation)
     (\<lambda>r s'. extends s (commit_events g cs (unresolved s) (unresolved s')) s' \<and> outcome_ok g cs s r s')
     (\<lambda>_ s'. extends s quiet s' \<and> unresolved s' = unresolved s
             \<or> extends s (commit_events g cs (unresolved s) (unresolved s')) s') s"
  unfolding gw_commit_def
proof (rule silent_then [OF silent_validate], goal_cases)
  case A: (1 s1 evs1)
  show ?case
  proof (rule silent_bind [OF silent_port], goal_cases)
    case B: (2 d s2 evs2)
    show ?case
    proof (rule silent_then [OF silent_validate], goal_cases)
      case C: (1 s3 evs3)
      show ?case
      proof (cases "require_authorized cs d")
        case (Inl e)
        with A B C show ?thesis by (auto simp: wp_simps extends_def)
      next
        case (Inr u)
        then have "d = authorization cs" by (simp add: require_authorized_iff)
        then show ?thesis
          unfolding wp_then wp_lift Inr sum.case
          by (intro wp_mono [OF run_effect_commit [OF assms]])
            (use A B C in \<open>auto simp: extends_def commit_events_def effect_event_def outcome_ok_def\<close>)
      qed
    qed (use A B in \<open>auto simp: extends_def\<close>)
  qed (use A in \<open>auto simp: extends_def\<close>)
qed (auto simp: extends_def)

lemma apply_fresh_calls:
  "wp (gw_apply_fresh g cs)
     (\<lambda>r s'. extends s (admitted g cs (unresolved s) (unresolved s')) s' \<and> outcome_ok g cs s r s')
     (\<lambda>_ s'. extends s quiet s' \<and> unresolved s' = unresolved s
             \<or> extends s (admitted g cs (unresolved s) (unresolved s')) s') s"
  unfolding gw_apply_fresh_def
proof (rule silent_bind [OF silent_port], goal_cases)
  case A: (2 current s1 evs1)
  show ?case
  proof (cases "require_base cs current")
    case (Inl e)
    with A show ?thesis by (auto simp: wp_simps extends_def)
  next
    case (Inr u)
    then have base: "source_version current = base_source_version cs" by (simp add: require_base_iff)
    have "wp (bindP (gw_admit g cs) (gw_commit g cs current))
       (\<lambda>r s'. extends s (admitted g cs (unresolved s) (unresolved s')) s' \<and> outcome_ok g cs s r s')
       (\<lambda>_ s'. extends s quiet s' \<and> unresolved s' = unresolved s
             \<or> extends s (admitted g cs (unresolved s) (unresolved s')) s') s1"
    proof (rule silent_bind [OF silent_admit], goal_cases)
      case B: (1 r s2 evs2)
      with A base show ?case
        by (intro wp_mono [OF commit_calls [OF base]])
          (auto simp: extends_def admitted_def commit_events_def outcome_ok_def)
    qed (use A in \<open>auto simp: extends_def\<close>)
    with Inr show ?thesis by (simp add: wp_simps)
  qed
qed (auto simp: extends_def)

text \<open>\<open>reconcile\<close>: one reconciliation call; only a bound, certain answer clears the key.\<close>

definition reconcile_events ::
  "change_set \<Rightarrow> (string \<rightharpoonup> string) \<Rightarrow> (string \<rightharpoonup> string) \<Rightarrow> event list \<Rightarrow> bool" where
  "reconcile_events cs u u' evs \<longleftrightarrow>
     (\<exists>t res. evs = [EvClock (Inr t), EvReconcile cs res]
        \<and> u (idempotency_key cs) \<in> {None, Some (change_set_digest cs)}
        \<and> u' = (case res of
             Inl e \<Rightarrow> u
           | Inr ob \<Rightarrow>
               if require_reconciliation cs ob = Inr () \<and> ob_effect_status ob \<noteq> EffUncertain
               then u(idempotency_key cs := None) else u))"

lemma reconcile_calls:
  "wp (gw_reconcile g cs)
     (\<lambda>ob s'. extends s (\<lambda>evs. reconcile_events cs (unresolved s) (unresolved s') evs
                 \<and> EvReconcile cs (Inr ob) \<in> set evs \<and> require_reconciliation cs ob = Inr ()) s')
     (\<lambda>_ s'. extends s quiet s' \<and> unresolved s' = unresolved s
             \<or> extends s (reconcile_events cs (unresolved s) (unresolved s')) s') s"
  unfolding gw_reconcile_def
proof (rule silent_then [OF silent_validate], goal_cases)
  case A: (1 s1 evs1)
  then show ?case
    by (cases "unresolved s (idempotency_key cs)")
      (auto simp: wp_simps extends_def reconcile_events_def refuse_if_def split: service_splits)
qed (auto simp: extends_def)

text \<open>\<open>dry_run\<close>: the version read and the preview, nothing else.\<close>

definition preview_events :: "'w governed \<Rightarrow> change_set \<Rightarrow> dry_run_observation \<Rightarrow> event list \<Rightarrow> bool" where
  "preview_events g cs r evs \<longleftrightarrow>
     (\<exists>t current expected.
        evs = [EvClock (Inr t), EvRead (Inr current), EvPreview (Inr r)]
        \<and> t < expires_at_ms cs \<and> source_version current = base_source_version cs
        \<and> expected_preview_of (gw_engine g) cs current = Inr expected
        \<and> require_preview_binding (gw_engine g) cs current expected r = Inr ())"

lemma dry_run_calls:
  "wp (gw_dry_run g cs)
     (\<lambda>r s'. extends s (preview_events g cs r) s' \<and> unresolved s' = unresolved s)
     (\<lambda>_ s'. extends s quiet s' \<and> unresolved s' = unresolved s) s"
  unfolding gw_dry_run_def
proof (rule silent_then [OF silent_validate], goal_cases)
  case A: (1 s1 evs1)
  then show ?case
    by (auto simp: wp_simps extends_def preview_events_def require_base_def refuse_if_def
        split: service_splits)
qed (auto simp: extends_def)

lemma current_version_calls:
  "wp (gw_current_version g cs)
     (\<lambda>_ s'. extends s quiet s' \<and> unresolved s' = unresolved s)
     (\<lambda>_ s'. extends s quiet s' \<and> unresolved s' = unresolved s) s"
  unfolding gw_current_version_def
  by (rule silent_then [OF silent_validate])
    (auto simp: wp_simps extends_def split: service_splits)

end
