(* ===== verification/WB_Safety.thy ===== *)
theory WB_Safety
  imports WB_Service
begin

text \<open>
  What \<open>GovernedWriteBack\<close> guarantees over any transport, verifier, audit port, clock and gate:
  the order of the calls around the one source effect, what a returned attempt is bound to, and
  the discipline of the unresolved attempts over whole runs of the service.
\<close>

section \<open>One call of apply\<close>

definition wallet_checked :: "'w governed \<Rightarrow> event list \<Rightarrow> bool" where
  "wallet_checked g evs \<longleftrightarrow>
     (case gw_gate g of
        None \<Rightarrow> True
      | Some gate \<Rightarrow> \<exists>w. EvGate (Inr (Some w)) \<in> set evs \<and> wr_verified w)"

definition effect_discipline ::
  "'w governed \<Rightarrow> change_set \<Rightarrow> (string \<rightharpoonup> string) \<Rightarrow> (string \<rightharpoonup> string) \<Rightarrow> event list \<Rightarrow> bool" where
  "effect_discipline g cs u u' evs \<longleftrightarrow>
     quiet evs \<and> u' = u
     \<or> (\<exists>pre post. evs = pre @ post \<and> quiet pre \<and> admitted g cs u u' post \<and> wallet_checked g pre
          \<and> EvPrior (Inr None) \<in> set pre \<and> u (idempotency_key cs) = None)"

lemma silent_reconciled:
  "silent (gw_require_reconciled cs) (\<lambda>_ evs. evs = [] \<and> unresolved s (idempotency_key cs) = None) s"
  by (auto simp: silent_def gw_require_reconciled_def wp_simps extends_def refuse_if_def)

lemma effect_disciplineI:
  assumes "log s1 = log s @ pre" "quiet pre" "unresolved s1 = unresolved s"
  shows "extends s1 quiet s' \<Longrightarrow> u' = unresolved s
           \<Longrightarrow> extends s (effect_discipline g cs (unresolved s) u') s'"
    and "extends s1 (admitted g cs (unresolved s1) u') s' \<Longrightarrow> wallet_checked g pre
           \<Longrightarrow> EvPrior (Inr None) \<in> set pre \<Longrightarrow> unresolved s (idempotency_key cs) = None
           \<Longrightarrow> extends s (effect_discipline g cs (unresolved s) u') s'"
  using assms by (auto simp: extends_def effect_discipline_def)

lemmas extends_disciplineI = effect_disciplineI [of s s "[]" for s, simplified]

lemma apply_calls:
  "wp (gw_apply g cs)
     (\<lambda>r s'. extends s (effect_discipline g cs (unresolved s) (unresolved s')) s' \<and> outcome_ok g cs s r s')
     (\<lambda>_ s'. extends s (effect_discipline g cs (unresolved s) (unresolved s')) s') s"
  unfolding gw_apply_def
proof (rule silent_then [OF silent_validate], goal_cases)
  case A: (1 s1 evs1)
  show ?case
  proof (rule silent_then [OF silent_reconciled], goal_cases)
    case B: (1 s2 evs2)
    show ?case
    proof (rule silent_then [OF silent_authorize], goal_cases)
      case C: (1 s3 evs3)
      show ?case
      proof (rule silent_then [OF silent_wallet], goal_cases)
        case D: (1 s4 evs4)
        show ?case
        proof (rule silent_then [OF silent_prepare], goal_cases)
          case E: (1 s5 evs5)
          show ?case
          proof (rule silent_bind [OF silent_port], goal_cases)
            case F: (2 prior s6 evs6)
            obtain pre where pre: "log s6 = log s @ pre" "quiet pre" "unresolved s6 = unresolved s"
                and wal: "wallet_checked g pre" and prior: "EvPrior (Inr prior) \<in> set pre"
              by (rule that [of "evs1 @ evs2 @ evs3 @ evs4 @ evs5 @ evs6"])
                (use A B C D E F in \<open>auto simp: wallet_checked_def split: option.splits\<close>)
            have none: "unresolved s (idempotency_key cs) = None"
              using A B by simp
            show ?case
            proof (cases prior)
              case None
              show ?thesis unfolding None option.case
                by (rule wp_mono [OF apply_fresh_calls])
                  (use None pre wal prior none in \<open>auto simp: outcome_ok_def
                     intro: effect_disciplineI [OF pre]\<close>)
            next
              case (Some effect)
              show ?thesis unfolding Some option.case
                by (rule silent_then [OF silent_authorize])
                  (use pre in \<open>auto simp: wp_simps extends_def effect_discipline_def outcome_ok_def
                     require_effect_iff split: sum.splits\<close>)
            qed
          qed (use A B C D E in \<open>auto simp: extends_def effect_discipline_def\<close>)
        qed (use A B C D in \<open>auto simp: extends_def effect_discipline_def\<close>)
      qed (use A B C in \<open>auto simp: extends_def effect_discipline_def\<close>)
    qed (use A B in \<open>auto simp: extends_def effect_discipline_def\<close>)
  qed (use A in \<open>auto simp: extends_def effect_discipline_def\<close>)
qed (auto simp: extends_def effect_discipline_def)

section \<open>Whole runs of the service\<close>

text \<open>
  The abstract state of a log: the keys whose last effect was uncertain and has not been
  reconciled since. \<open>safe_log\<close>: no effect is attempted on a key while it is in that set.
\<close>

fun track :: "event \<Rightarrow> string set \<Rightarrow> string set" where
  "track (EvEffect cs v (Inl (OutcomeUncertainError m))) U = insert (idempotency_key cs) U"
| "track (EvReconcile cs (Inr ob)) U =
     (if require_reconciliation cs ob = Inr () \<and> ob_effect_status ob \<noteq> EffUncertain
      then U - {idempotency_key cs} else U)"
| "track e U = U"

fun effect_keys :: "event \<Rightarrow> string set" where
  "effect_keys (EvEffect cs v r) = {idempotency_key cs}"
| "effect_keys e = {}"

fun safe_log :: "string set \<Rightarrow> event list \<Rightarrow> bool" where
  "safe_log U [] = True"
| "safe_log U (e # es) = (effect_keys e \<inter> U = {} \<and> safe_log (track e U) es)"

lemma safe_log_append: "safe_log U (es @ fs) \<longleftrightarrow> safe_log U es \<and> safe_log (fold track es U) fs"
  by (induction U es rule: safe_log.induct) auto

lemma quiet_track: "quiet evs \<Longrightarrow> fold track evs U = U \<and> safe_log U evs"
proof (induction evs)
  case (Cons e es)
  then show ?case by (cases e) auto
qed simp

lemma effect_track: "track (EvEffect cs v res) (dom u) = dom (unresolved_after cs res u)"
proof (cases res)
  case (Inl e)
  then show ?thesis by (cases e) (auto simp: unresolved_after_def)
qed (simp add: unresolved_after_def)

lemma admitted_track:
  assumes "admitted g cs u u' evs" "u (idempotency_key cs) = None"
  shows "fold track evs (dom u) = dom u' \<and> safe_log (dom u) evs"
  using assms by (auto simp: admitted_def effect_track)

lemma reconcile_track:
  assumes "reconcile_events cs u u' evs"
  shows "fold track evs (dom u) = dom u' \<and> safe_log (dom u) evs"
proof -
  obtain t res where evs: "evs = [EvClock (Inr t), EvReconcile cs res]"
    and u': "u' = (case res of Inl e \<Rightarrow> u
       | Inr ob \<Rightarrow> if require_reconciliation cs ob = Inr () \<and> ob_effect_status ob \<noteq> EffUncertain
                   then u(idempotency_key cs := None) else u)"
    using assms by (auto simp: reconcile_events_def)
  show ?thesis by (cases res) (simp_all add: evs u')
qed

text \<open>One rule per operation of the service, and one for everything else that changes the world.\<close>

inductive service_run :: "'w governed \<Rightarrow> ('w, 'z) gstate_scheme \<Rightarrow> bool" for g where
  run_start: "log s = [] \<Longrightarrow> unresolved s = Map.empty \<Longrightarrow> service_run g s"
| run_apply: "service_run g s \<Longrightarrow> service_run g (snd (gw_apply g cs s))"
| run_reconcile: "service_run g s \<Longrightarrow> service_run g (snd (gw_reconcile g cs s))"
| run_dry_run: "service_run g s \<Longrightarrow> service_run g (snd (gw_dry_run g cs s))"
| run_current: "service_run g s \<Longrightarrow> service_run g (snd (gw_current_version g cs s))"
| run_environment: "service_run g s \<Longrightarrow> service_run g (s\<lparr>world := w\<rparr>)"

definition log_inv :: "('w, 'z) gstate_scheme \<Rightarrow> bool" where
  "log_inv s \<longleftrightarrow> dom (unresolved s) = fold track (log s) {} \<and> safe_log {} (log s)"

lemma log_inv_extends:
  assumes "log_inv s" "log s' = log s @ evs"
    and "dom (unresolved s') = fold track evs (dom (unresolved s))" "safe_log (dom (unresolved s)) evs"
  shows "log_inv s'"
  using assms by (auto simp: log_inv_def safe_log_append)

lemma log_inv_quiet:
  assumes "log_inv s" "extends s quiet s'" "unresolved s' = unresolved s"
  shows "log_inv s'"
proof -
  from assms(2) obtain evs where "log s' = log s @ evs" "quiet evs" by (auto simp: extends_def)
  with assms show ?thesis by (intro log_inv_extends [of s s' evs]) (simp_all add: quiet_track)
qed

lemma log_inv_discipline:
  assumes "log_inv s" "extends s (effect_discipline g cs (unresolved s) (unresolved s')) s'"
  shows "log_inv s'"
proof -
  from assms(2) obtain evs where evs: "log s' = log s @ evs"
      "effect_discipline g cs (unresolved s) (unresolved s') evs"
    by (auto simp: extends_def)
  have "fold track evs (dom (unresolved s)) = dom (unresolved s') \<and> safe_log (dom (unresolved s)) evs"
    using evs(2) unfolding effect_discipline_def
    by (elim disjE exE conjE) (simp_all add: quiet_track safe_log_append admitted_track)
  with assms(1) evs(1) show ?thesis by (intro log_inv_extends [of s s' evs]) simp_all
qed

lemma log_inv_reconcile:
  assumes "log_inv s" "extends s (reconcile_events cs (unresolved s) (unresolved s')) s'"
  shows "log_inv s'"
proof -
  from assms(2) obtain evs where "log s' = log s @ evs"
      "reconcile_events cs (unresolved s) (unresolved s') evs"
    by (auto simp: extends_def)
  with assms(1) reconcile_track show ?thesis by (blast intro: log_inv_extends)
qed

lemma log_inv_weaken:
  "extends s P s' \<Longrightarrow> (\<And>evs. P evs \<Longrightarrow> Q evs) \<Longrightarrow> extends s Q s'"
  by (auto simp: extends_def)

lemma service_run_inv: "service_run g s \<Longrightarrow> log_inv s"
proof (induction rule: service_run.induct)
  case (run_apply s cs)
  then have "wp (gw_apply g cs) (\<lambda>_. log_inv) (\<lambda>_. log_inv) s"
    by (intro wp_mono [OF apply_calls]) (blast intro: log_inv_discipline)+
  then show ?case by (simp only: wp_both)
next
  case (run_reconcile s cs)
  then have "wp (gw_reconcile g cs) (\<lambda>_. log_inv) (\<lambda>_. log_inv) s"
    by (intro wp_mono [OF reconcile_calls])
      (blast intro: log_inv_quiet log_inv_reconcile log_inv_weaken)+
  then show ?case by (simp only: wp_both)
next
  case (run_dry_run s cs)
  have "preview_events g cs r evs \<Longrightarrow> quiet evs" for r evs
    by (auto simp: preview_events_def)
  with run_dry_run have "wp (gw_dry_run g cs) (\<lambda>_. log_inv) (\<lambda>_. log_inv) s"
    by (intro wp_mono [OF dry_run_calls]) (blast intro: log_inv_quiet log_inv_weaken)+
  then show ?case by (simp only: wp_both)
next
  case (run_current s cs)
  then have "wp (gw_current_version g cs) (\<lambda>_. log_inv) (\<lambda>_. log_inv) s"
    by (intro wp_mono [OF current_version_calls]) (blast intro: log_inv_quiet)+
  then show ?case by (simp only: wp_both)
qed (auto simp: log_inv_def)

section \<open>Properties\<close>

text \<open>
  Property C1. Whatever the ports answer, one call of \<open>apply\<close> makes at most one source effect,
  as its last call; and it makes one only after the wallet proof verified (when a gate is set),
  the prior-effect lookup found nothing, the key was not unresolved, the current version equalled
  the base version, the verifier returned exactly the change set's own granted decision, the audit
  reservation was bound to the change set, and then again a clock reading before the expiry, the
  same decision and another clock reading before the expiry, with nothing in between.
\<close>

theorem apply_effect_discipline:
  "\<exists>evs. log (snd (gw_apply g cs s)) = log s @ evs
     \<and> effect_discipline g cs (unresolved s) (unresolved (snd (gw_apply g cs s))) evs"
proof -
  have "wp (gw_apply g cs)
      (\<lambda>_ s'. extends s (effect_discipline g cs (unresolved s) (unresolved s')) s')
      (\<lambda>_ s'. extends s (effect_discipline g cs (unresolved s) (unresolved s')) s') s"
    by (rule wp_mono [OF apply_calls]) simp_all
  then show ?thesis by (simp only: wp_both) (simp add: extends_def)
qed

text \<open>
  Property C2. An attempt that \<open>apply\<close> returns is either bound in every field to the change set
  and reported applied, or it is the uncertain attempt at the base version, and then the key is
  recorded as unresolved under the change set's digest.
\<close>

theorem apply_result_bound:
  "case gw_apply g cs s of
     (Inr r, s') \<Rightarrow>
       effect_bound (gw_engine g) cs r \<and> unresolved s' = unresolved s
       \<or> r = gw_uncertain (gw_engine g) cs (base_source_version cs)
         \<and> unresolved s' = (unresolved s)(idempotency_key cs \<mapsto> change_set_digest cs)
   | (Inl e, s') \<Rightarrow> True"
  using apply_calls [of g cs s] by (auto simp: wp_def outcome_ok_def split: prod.splits sum.splits)

text \<open>
  While a key is unresolved, \<open>apply\<close> refuses it before any call but at most one
  clock reading: the verifier, the gate, the audit port and the source are not asked.
\<close>

theorem unresolved_blocks_apply:
  assumes "unresolved s (idempotency_key cs) = Some d"
  shows "\<exists>e s' evs. gw_apply g cs s = (Inl e, s') \<and> log s' = log s @ evs
     \<and> (evs = [] \<or> (\<exists>t. evs = [EvClock t])) \<and> unresolved s' = unresolved s"
proof -
  have "wp (gw_apply g cs) (\<lambda>_ _. False)
      (\<lambda>_ s'. (\<exists>evs. log s' = log s @ evs \<and> (evs = [] \<or> (\<exists>t. evs = [EvClock t])))
        \<and> unresolved s' = unresolved s) s"
    using assms
    by (auto simp: gw_apply_def gw_validate_def gw_require_reconciled_def wp_simps refuse_if_def
        split: prod.splits sum.splits)
  then show ?thesis by (auto simp: wp_def split: prod.splits sum.splits)
qed

text \<open>
  \<open>reconcile\<close> returns only an observation bound to the change set whose retry flag
  agrees with its status, and clears the key exactly when the status is certain; when it raises,
  the unresolved keys stay as they were. A key bound to another digest is refused.
\<close>

theorem reconcile_clears_only_certain:
  "case gw_reconcile g cs s of
     (Inr ob, s') \<Rightarrow>
       require_reconciliation cs ob = Inr ()
       \<and> unresolved s (idempotency_key cs) \<in> {None, Some (change_set_digest cs)}
       \<and> unresolved s' =
           (if ob_effect_status ob = EffUncertain then unresolved s
            else (unresolved s)(idempotency_key cs := None))
   | (Inl e, s') \<Rightarrow> unresolved s' = unresolved s"
proof -
  have "wp (gw_reconcile g cs)
      (\<lambda>ob s'. require_reconciliation cs ob = Inr ()
         \<and> unresolved s (idempotency_key cs) \<in> {None, Some (change_set_digest cs)}
         \<and> unresolved s' = (if ob_effect_status ob = EffUncertain then unresolved s
             else (unresolved s)(idempotency_key cs := None)))
      (\<lambda>_ s'. unresolved s' = unresolved s) s"
    by (cases "unresolved s (idempotency_key cs)")
      (auto simp: gw_reconcile_def gw_validate_def wp_simps refuse_if_def
        split: prod.splits sum.splits)
  then show ?thesis by (simp add: wp_def split: prod.splits sum.splits)
qed

text \<open>
  Property C3. In every run of the service, whatever operations it serves and however the world
  changes in between: the unresolved keys are exactly those whose last source effect was uncertain
  with no bound, certain reconciliation after it, and no source effect is ever attempted on a key
  while it is unresolved.
\<close>

theorem service_run_safe:
  assumes "service_run g s"
  shows "dom (unresolved s) = fold track (log s) {} \<and> safe_log {} (log s)"
  using service_run_inv [OF assms] by (simp add: log_inv_def)

lemma encode_Inr: "encode g v = Inr e \<longleftrightarrow> encode_json False (float_repr g) v = Some e"
  by (auto simp: encode_def split: option.splits)

lemma changed_names_set:
  "changed_names g b a ns = Inr xs \<Longrightarrow>
     set xs = {n \<in> set ns. encode g (field_get b n) \<noteq> encode g (field_get a n)}"
proof (induction ns arbitrary: xs)
  case (Cons n ns)
  show ?case
  proof (cases "map_of a n")
    case None
    with Cons.prems show ?thesis by (simp add: bindR_Inr)
  next
    case (Some v)
    from Cons.prems obtain eb ea rest where eb: "encode g (field_get b n) = Inr eb"
      and ea: "encode g v = Inr ea" and rest: "changed_names g b a ns = Inr rest"
      and xs: "(if eb \<noteq> ea then List.insert n rest else rest) = xs"
      unfolding changed_names.simps bindR_Inr Some option.case sum.inject by blast
    have IH: "set rest = {m \<in> set ns. encode g (field_get b m) \<noteq> encode g (field_get a m)}"
      by (rule Cons.IH [OF rest])
    have v: "field_get a n = v" by (simp add: field_get_def Some)
    show ?thesis
    proof (cases "eb = ea")
      case True
      then have "xs = rest" using xs by simp
      then show ?thesis using True eb ea by (auto simp: IH v)
    next
      case False
      then have "xs = List.insert n rest" using xs by simp
      then show ?thesis using False eb ea by (auto simp: IH v)
    qed
  qed
qed simp

definition preview_true ::
  "engine \<Rightarrow> change_set \<Rightarrow> snapshot \<Rightarrow> dry_run_observation \<Rightarrow> bool" where
  "preview_true g cs current r \<longleftrightarrow>
     source_version current = base_source_version cs \<and> dr_source_version r = source_version current
     \<and> (\<exists>b. encode g (JObj (dr_before r)) = Inr b \<and> encode g (JObj (scoped_before cs current)) = Inr b)
     \<and> (\<exists>a. encode g (JObj (dr_after r)) = Inr a \<and> encode g (JObj (desired_patch cs)) = Inr a)
     \<and> set (changed_fields r) =
         {n \<in> set (field_scope cs).
            encode g (field_get (scoped_before cs current) n)
            \<noteq> encode g (field_get (desired_patch cs) n)}"

lemma preview_binding_true:
  assumes "source_version current = base_source_version cs"
    and "expected_preview_of g cs current = Inr x" and "require_preview_binding g cs current x r = Inr ()"
  shows "preview_true g cs current r"
  using assms
  by (auto simp: preview_true_def expected_preview_of_def require_preview_binding_def Let_def
      result_iff split: if_splits dest!: changed_names_set)

text \<open>
  \<open>dry_run\<close> makes no source effect, and a preview it returns is the truth about the
  patch: taken at the base version, its before and after encode as the current scoped fields and
  as the desired patch, and its changed fields are exactly those whose encoding the patch changes.
\<close>

theorem dry_run_faithful:
  "case gw_dry_run g cs s of
     (Inr r, s') \<Rightarrow>
       \<exists>t current. log s' = log s @ [EvClock (Inr t), EvRead (Inr current), EvPreview (Inr r)]
         \<and> preview_true (gw_engine g) cs current r
   | (Inl e, s') \<Rightarrow> \<exists>evs. log s' = log s @ evs \<and> quiet evs"
proof -
  have "wp (gw_dry_run g cs)
      (\<lambda>r s'. \<exists>t current. log s' = log s @ [EvClock (Inr t), EvRead (Inr current), EvPreview (Inr r)]
         \<and> preview_true (gw_engine g) cs current r)
      (\<lambda>_ s'. extends s quiet s') s"
    by (rule wp_mono [OF dry_run_calls])
      (auto simp: extends_def preview_events_def dest: preview_binding_true)
  then show ?thesis by (simp add: wp_def extends_def split: prod.splits sum.splits)
qed

end
