(* ===== verification/WB_Source.thy ===== *)
theory WB_Source
  imports WB_Safety
begin

text \<open>
  The contract between the service and its source. \<open>effect_source\<close> is what a write-back transport
  promises: reads, previews, lookups and reconciliations leave the source alone, a lookup and a
  reconciliation tell the truth about what landed under an idempotency key, and an effect call
  either leaves the source alone or lands the change set under its key. \<open>governed_source\<close> adds a
  service over such a transport; its lemmas are the at-most-once guarantee of \<open>apply\<close>.
\<close>

section \<open>Programs that keep an observation of the world\<close>

definition keeps :: "('w \<Rightarrow> 's) \<Rightarrow> ('w, 'z, 'a) wb_prog \<Rightarrow> bool" where
  "keeps f m \<longleftrightarrow> (\<forall>s. f (world (snd (m s))) = f (world s))"

named_theorems keeps_rules

lemma keepsD: "keeps f m \<Longrightarrow> f (world (snd (m s))) = f (world s)"
  by (simp add: keeps_def)

lemma keeps_pure [keeps_rules]:
  "keeps f (returnP x)" "keeps f (raiseP e)" "keeps f (liftP r)" "keeps f (getsP h)"
  by (auto simp: keeps_def prog_defs split: sum.splits)

lemma keeps_bind [keeps_rules]:
  assumes m: "keeps f m" and k: "\<And>x. keeps f (k x)"
  shows "keeps f (bindP m k)"
  unfolding keeps_def
proof
  fix s
  show "f (world (snd (bindP m k s))) = f (world s)"
    using keepsD [OF m, of s] keepsD [OF k]
    by (cases "m s"; cases "fst (m s)") (simp_all add: bindP_def)
qed

lemma keeps_then [keeps_rules]: "keeps f m \<Longrightarrow> keeps f n \<Longrightarrow> keeps f (thenP m n)"
  unfolding thenP_def by (rule keeps_bind)

lemma keeps_port [keeps_rules]: "(\<And>w. f (snd (p w)) = f w) \<Longrightarrow> keeps f (port_call ev p)"
  by (simp add: keeps_def port_call_def case_prod_beta)

lemma keeps_modify [keeps_rules]: "(\<And>s. world (h s) = world s) \<Longrightarrow> keeps f (modifyP h)"
  by (simp add: keeps_def prog_defs)

lemma keeps_catch [keeps_rules]:
  assumes m: "keeps f m" and h: "\<And>e n. h e = Some n \<Longrightarrow> keeps f n"
  shows "keeps f (catchP m h)"
  unfolding keeps_def
proof
  fix s
  show "f (world (snd (catchP m h s))) = f (world s)"
    using keepsD [OF m, of s] keepsD [OF h]
    by (cases "m s"; cases "fst (m s)") (auto simp: catchP_def split: option.splits)
qed

lemma keeps_wp:
  assumes "keeps f m"
  shows "wp m (\<lambda>_ s'. f (world s') = f (world s)) (\<lambda>_ s'. f (world s') = f (world s)) s"
  using keepsD [OF assms, of s] by (auto simp: wp_def split: prod.splits sum.splits)

lemma keeps_bind_wp:
  assumes "keeps f m" "\<And>x s'. f (world s') = f (world s) \<Longrightarrow> wp (k x) Q E s'"
    and "\<And>e s'. f (world s') = f (world s) \<Longrightarrow> E e s'"
  shows "wp (bindP m k) Q E s"
  unfolding wp_bind by (rule wp_mono [OF keeps_wp [OF assms(1)]]) (use assms(2,3) in auto)

lemma keeps_then_wp:
  assumes "keeps f m" "\<And>s'. f (world s') = f (world s) \<Longrightarrow> wp n Q E s'"
    and "\<And>e s'. f (world s') = f (world s) \<Longrightarrow> E e s'"
  shows "wp (thenP m n) Q E s"
  unfolding thenP_def by (rule keeps_bind_wp [OF assms(1)]) (use assms(2,3) in auto)

definition effect_port ::
  "'w transport \<Rightarrow> change_set \<Rightarrow> string \<Rightarrow> audit_reservation \<Rightarrow> ('w, attempt) port" where
  "effect_port T cs version r =
     (case t_apply_reserved T of Some ar \<Rightarrow> ar cs version r | None \<Rightarrow> t_apply T cs version)"

lemma run_effect_port:
  "gw_run_effect g cs current r =
     bindP (port_call (EvEffect cs (source_version current))
              (effect_port (gw_transport g) cs (source_version current) r))
       (\<lambda>result. thenP (liftP (require_effect (gw_engine g) cs result)) (returnP result))"
  by (simp add: gw_run_effect_def effect_port_def)

section \<open>Ports that keep an observation\<close>

text \<open>
  \<open>quiet_ports\<close>: every port but the effect keeps the observation \<open>f\<close>, so every part of the
  service before the effect does. \<open>untouched\<close>: the effect keeps it too, so every operation does.
\<close>

locale quiet_ports =
  fixes g :: "'w governed" and f :: "'w \<Rightarrow> 's"
  assumes read_quiet: "f (snd (t_read_current (gw_transport g) cs w)) = f w"
    and preview_quiet: "f (snd (t_preview (gw_transport g) cs c w)) = f w"
    and prior_quiet: "f (snd (t_prior_effect (gw_transport g) cs w)) = f w"
    and reconcile_quiet: "f (snd (t_reconcile (gw_transport g) cs w)) = f w"
    and prepare_quiet: "t_prepare (gw_transport g) = Some p \<Longrightarrow> f (snd (p cs w)) = f w"
    and verify_quiet: "f (snd (gw_verify g cs w)) = f w"
    and reserve_quiet: "f (snd (gw_reserve g cs w)) = f w"
    and clock_quiet: "f (snd (gw_clock g w)) = f w"
    and gate_quiet: "gw_gate g = Some gate \<Longrightarrow> f (snd (gate cs w)) = f w"
begin

lemma validate_keeps: "keeps f (gw_validate g cs)"
  unfolding gw_validate_def by (intro keeps_rules) (rule clock_quiet)

lemma authorize_keeps: "keeps f (gw_authorize g cs)"
  unfolding gw_authorize_def by (intro keeps_rules validate_keeps) (rule verify_quiet)

lemma wallet_keeps: "keeps f (gw_require_wallet_proof g cs)"
proof (cases "gw_gate g")
  case None
  then show ?thesis by (simp add: gw_require_wallet_proof_def keeps_rules)
next
  case (Some gate)
  have "keeps f (port_call EvGate (gate cs))" by (intro keeps_port gate_quiet [OF Some])
  then show ?thesis unfolding gw_require_wallet_proof_def Some option.case
    by (intro keeps_bind keeps_catch) (auto split: if_splits option.splits intro: keeps_pure)
qed

lemma prepare_call_keeps: "keeps f (gw_prepare g cs)"
  unfolding gw_prepare_def
  by (cases "t_prepare (gw_transport g)") (auto intro!: keeps_rules prepare_quiet)

lemma admit_keeps: "keeps f (gw_admit g cs)"
  unfolding gw_admit_def by (intro keeps_rules) (rule verify_quiet reserve_quiet)+

lemma reconciled_keeps: "keeps f (gw_require_reconciled cs)"
  unfolding gw_require_reconciled_def by (intro keeps_rules)

lemma reconcile_call_keeps: "keeps f (gw_reconcile g cs)"
  unfolding gw_reconcile_def
  by (intro keeps_rules validate_keeps) (simp_all add: reconcile_quiet)

lemma dry_run_call_keeps: "keeps f (gw_dry_run g cs)"
  unfolding gw_dry_run_def
  by (intro keeps_rules validate_keeps) (simp_all add: read_quiet preview_quiet)

lemma current_call_keeps: "keeps f (gw_current_version g cs)"
  unfolding gw_current_version_def
  by (intro keeps_rules validate_keeps) (simp_all add: read_quiet)

end

lemma uncertain_handler:
  "(case e of OutcomeUncertainError m \<Rightarrow> Some p | _ \<Rightarrow> None) = Some n \<Longrightarrow> n = p"
  by (cases e) simp_all

locale untouched = quiet_ports +
  assumes effect_quiet: "f (snd (effect_port (gw_transport g) cs v r w)) = f w"
begin

lemma run_effect_keeps: "keeps f (gw_run_effect g cs c r)"
  unfolding run_effect_port by (intro keeps_rules) (rule effect_quiet)

lemma commit_keeps: "keeps f (gw_commit g cs c r)"
  unfolding gw_commit_def gw_mark_unresolved_def
  by (intro keeps_rules validate_keeps run_effect_keeps verify_quiet)
    (drule uncertain_handler, simp add: keeps_rules)

lemma fresh_keeps: "keeps f (gw_apply_fresh g cs)"
  unfolding gw_apply_fresh_def by (intro keeps_rules admit_keeps commit_keeps read_quiet)

lemma apply_keeps: "keeps f (gw_apply g cs)"
proof -
  have "keeps f (case prior of
        Some effect \<Rightarrow> thenP (gw_authorize g cs)
          (thenP (liftP (require_effect (gw_engine g) cs effect)) (returnP effect))
      | None \<Rightarrow> gw_apply_fresh g cs)" for prior
    by (cases prior) (auto intro!: keeps_rules authorize_keeps fresh_keeps)
  then show ?thesis
    unfolding gw_apply_def
    by (intro keeps_rules validate_keeps reconciled_keeps authorize_keeps wallet_keeps
        prepare_call_keeps prior_quiet)
qed

end

section \<open>The transport's contract\<close>

definition lands :: "change_set \<Rightarrow> (string \<rightharpoonup> string) \<Rightarrow> (string \<rightharpoonup> string)" where
  "lands cs l = l(idempotency_key cs \<mapsto> change_set_digest cs)"

lemma lands_key [simp]: "lands cs l (idempotency_key cs) = Some (change_set_digest cs)"
  by (simp add: lands_def)

text \<open>
  \<open>src\<close> is what the source durably holds, \<open>landed\<close> the change-set digest that took effect under
  each idempotency key, and \<open>commit cs v x x'\<close> that \<open>x'\<close> is \<open>x\<close> after the effect of \<open>cs\<close> at
  version \<open>v\<close>.
\<close>

locale effect_source =
  fixes T :: "'w transport" and src :: "'w \<Rightarrow> 's" and landed :: "'s \<Rightarrow> string \<Rightarrow> string option"
    and commit :: "change_set \<Rightarrow> string \<Rightarrow> 's \<Rightarrow> 's \<Rightarrow> bool"
  assumes read_keeps: "src (snd (t_read_current T cs w)) = src w"
    and preview_keeps: "src (snd (t_preview T cs c w)) = src w"
    and prior_keeps: "src (snd (t_prior_effect T cs w)) = src w"
    and reconcile_keeps: "src (snd (t_reconcile T cs w)) = src w"
    and prepare_keeps: "t_prepare T = Some p \<Longrightarrow> src (snd (p cs w)) = src w"
    and prior_found: "fst (t_prior_effect T cs w) = Inr (Some a) \<Longrightarrow>
           landed (src w) (idempotency_key cs) = Some (change_set_digest cs)"
    and prior_absent: "fst (t_prior_effect T cs w) = Inr None \<Longrightarrow>
           landed (src w) (idempotency_key cs) = None"
    and commit_lands: "commit cs v x x' \<Longrightarrow> landed x' = lands cs (landed x)"
    and effect_lands: "effect_port T cs v r w = (res, w') \<Longrightarrow>
           src w' = src w \<or> commit cs v (src w) (src w')"
    and effect_returned: "effect_port T cs v r w = (Inr a, w') \<Longrightarrow> commit cs v (src w) (src w')"
    and effect_refused: "effect_port T cs v r w = (Inl e, w') \<Longrightarrow>
           (\<And>m. e \<noteq> OutcomeUncertainError m) \<Longrightarrow> src w' = src w"
    and reconciled_applied: "fst (t_reconcile T cs w) = Inr ob \<Longrightarrow> ob_effect_status ob = EffApplied \<Longrightarrow>
           landed (src w) (idempotency_key cs) \<noteq> None"
    and reconciled_no_effect: "fst (t_reconcile T cs w) = Inr ob \<Longrightarrow> ob_effect_status ob = EffNoEffect \<Longrightarrow>
           landed (src w) (idempotency_key cs) = None"

text \<open>
  \<open>landing\<close>: the source is as it was, or the change set took effect at its base version under a
  key that was free. \<open>honest_effects\<close>: every attempt the transport returns is bound to its request.
\<close>

definition landing ::
  "('s \<Rightarrow> string \<Rightarrow> string option) \<Rightarrow> (change_set \<Rightarrow> string \<Rightarrow> 's \<Rightarrow> 's \<Rightarrow> bool)
   \<Rightarrow> change_set \<Rightarrow> 's \<Rightarrow> 's \<Rightarrow> bool" where
  "landing landed commit cs x x' \<longleftrightarrow>
     x' = x \<or> landed x (idempotency_key cs) = None \<and> commit cs (base_source_version cs) x x'"

definition settled ::
  "('s \<Rightarrow> string \<Rightarrow> string option) \<Rightarrow> change_set \<Rightarrow> attempt \<Rightarrow> 's \<Rightarrow> bool" where
  "settled landed cs r x \<longleftrightarrow>
     at_effect_status r = EffUncertain
     \<or> at_effect_status r = EffApplied \<and> landed x (idempotency_key cs) = Some (change_set_digest cs)"

definition honest_effects :: "'w transport \<Rightarrow> engine \<Rightarrow> bool" where
  "honest_effects T g \<longleftrightarrow>
     (\<forall>cs v r w a w'. effect_port T cs v r w = (Inr a, w') \<longrightarrow> effect_bound g cs a)"

lemma landing_refl [simp]: "landing landed commit cs x x" by (simp add: landing_def)

locale governed_source = effect_source T src landed commit
  for T :: "'w transport" and src :: "'w \<Rightarrow> 's" and landed commit +
  fixes g :: "'w governed"
  assumes transport: "gw_transport g = T"
    and verify_keeps: "src (snd (gw_verify g cs w)) = src w"
    and reserve_keeps: "src (snd (gw_reserve g cs w)) = src w"
    and clock_keeps: "src (snd (gw_clock g w)) = src w"
    and gate_keeps: "gw_gate g = Some gate \<Longrightarrow> src (snd (gate cs w)) = src w"

text \<open>Every port but the effect keeps the source.\<close>

sublocale governed_source \<subseteq> quiet_ports g src
  by unfold_locales
    (simp_all add: transport read_keeps preview_keeps prior_keeps reconcile_keeps prepare_keeps
      verify_keeps reserve_keeps clock_keeps gate_keeps)

context governed_source
begin

lemma landing_mono:
  assumes "landing landed commit cs x x'" "landed x k = Some d"
  shows "landed x' k = Some d"
  using assms commit_lands by (fastforce simp: landing_def lands_def)

text \<open>The two outcomes of a program that may land \<open>cs\<close>, from the state \<open>s\<close>.\<close>

definition returned :: "change_set \<Rightarrow> 's \<Rightarrow> attempt \<Rightarrow> ('w, 'z) gstate_scheme \<Rightarrow> bool" where
  "returned cs x a s' \<longleftrightarrow> landing landed commit cs x (src (world s')) \<and> settled landed cs a (src (world s'))"

definition raised :: "change_set \<Rightarrow> 's \<Rightarrow> wb_exc \<Rightarrow> ('w, 'z) gstate_scheme \<Rightarrow> bool" where
  "raised cs x e s' \<longleftrightarrow> landing landed commit cs x (src (world s'))
     \<and> (honest_effects T (gw_engine g) \<longrightarrow> src (world s') = x)"

lemma raised_same: "src (world s') = x \<Longrightarrow> raised cs x e s'"
  by (simp add: raised_def)

lemma run_effect_lands:
  assumes "landed (src (world s)) (idempotency_key cs) = None"
    and "source_version current = base_source_version cs"
  shows "wp (catchP (gw_run_effect g cs current r)
          (\<lambda>e. case e of
             OutcomeUncertainError m \<Rightarrow>
               Some (thenP (gw_mark_unresolved cs)
                 (returnP (gw_uncertain (gw_engine g) cs (source_version current))))
           | _ \<Rightarrow> None))
     (returned cs (src (world s))) (raised cs (src (world s))) s"
proof -
  obtain res w where eff: "effect_port T cs (base_source_version cs) r (world s) = (res, w)"
    by (cases "effect_port T cs (base_source_version cs) r (world s)")
  have land: "landing landed commit cs (src (world s)) (src w)"
    using effect_lands [OF eff] assms by (auto simp: landing_def)
  show ?thesis
  proof (cases res)
    case (Inr a)
    have "landed (src w) = lands cs (landed (src (world s)))"
      using effect_returned eff Inr commit_lands by blast
    moreover have "honest_effects T (gw_engine g) \<Longrightarrow> effect_bound (gw_engine g) cs a"
      using eff Inr unfolding honest_effects_def by blast
    ultimately show ?thesis using land eff Inr
      by (auto simp add: run_effect_port transport wp_simps assms(2) returned_def raised_def
          require_effect_eq settled_def effect_bound_def)
  next
    case (Inl e)
    have "src w = src (world s)" if "\<And>m. e \<noteq> OutcomeUncertainError m"
      using effect_refused eff Inl that by blast
    with land eff Inl show ?thesis
      by (cases e) (simp_all add: run_effect_port gw_mark_unresolved_def transport wp_simps assms(2)
          settled_def gw_uncertain_def returned_def raised_def)
  qed
qed

lemma commit_call_lands:
  assumes "landed (src (world s)) (idempotency_key cs) = None"
    and "source_version current = base_source_version cs"
  shows "wp (gw_commit g cs current r) (returned cs (src (world s))) (raised cs (src (world s))) s"
  unfolding gw_commit_def
proof (rule keeps_then_wp [OF validate_keeps], goal_cases)
  case A: (1 s1)
  show ?case
  proof (rule keeps_bind_wp [OF keeps_port [where f = src]], goal_cases)
    case B: (2 d s2)
    show ?case
    proof (rule keeps_then_wp [OF validate_keeps], goal_cases)
      case C: (1 s3)
      with A B assms have "landed (src (world s3)) (idempotency_key cs) = None"
        and same: "src (world s3) = src (world s)" by simp_all
      with run_effect_lands [of s3 cs current r] assms(2) show ?case
        by (cases "require_authorized cs d") (simp_all add: wp_then wp_lift raised_same)
    qed (use A B in \<open>simp add: raised_same\<close>)
  qed (use A verify_keeps in \<open>simp_all add: raised_same\<close>)
qed (simp add: raised_same)

lemma fresh_lands:
  assumes "landed (src (world s)) (idempotency_key cs) = None"
  shows "wp (gw_apply_fresh g cs) (returned cs (src (world s))) (raised cs (src (world s))) s"
  unfolding gw_apply_fresh_def
proof (rule keeps_bind_wp [OF keeps_port [where f = src]], goal_cases)
  case B: (2 c s7)
  show ?case
  proof (cases "require_base cs c")
    case (Inl e)
    with B show ?thesis by (simp add: wp_then wp_lift raised_same)
  next
    case (Inr u)
    then have base: "source_version c = base_source_version cs" by (simp add: require_base_iff)
    have "wp (bindP (gw_admit g cs) (gw_commit g cs c))
        (returned cs (src (world s))) (raised cs (src (world s))) s7"
    proof (rule keeps_bind_wp [OF admit_keeps], goal_cases)
      case C: (1 r s9)
      then have "src (world s9) = src (world s)" using B by simp
      then show ?case using commit_call_lands [of s9 cs c r] assms base by simp
    qed (use B in \<open>simp add: raised_same\<close>)
    with Inr show ?thesis by (simp add: wp_then wp_lift)
  qed
qed (simp_all add: transport read_keeps raised_same)

lemma apply_lands:
  "wp (gw_apply g cs) (returned cs (src (world s))) (raised cs (src (world s))) s"
  unfolding gw_apply_def
proof (intro keeps_then_wp [OF validate_keeps] keeps_then_wp [OF reconciled_keeps]
    keeps_then_wp [OF authorize_keeps] keeps_then_wp [OF wallet_keeps]
    keeps_then_wp [OF prepare_call_keeps], goal_cases)
  case A: (1 s1 s2 s3 s4 s5)
  then have same: "src (world s5) = src (world s)" by simp
  obtain res w where prior: "t_prior_effect T cs (world s5) = (res, w)"
    by (cases "t_prior_effect T cs (world s5)")
  have w: "src w = src (world s)" using prior_keeps [of cs "world s5"] prior same by simp
  define s6 where "s6 = s5\<lparr>world := w, log := log s5 @ [EvPrior res]\<rparr>"
  have s6: "src (world s6) = src (world s)" by (simp add: s6_def w)
  show ?case
  proof (cases res)
    case (Inl e)
    with prior w show ?thesis by (simp add: wp_simps transport raised_same)
  next
    case res: (Inr p)
    show ?thesis
    proof (cases p)
      case (Some a)
      have there: "landed (src (world s)) (idempotency_key cs) = Some (change_set_digest cs)"
        using prior_found [of cs "world s5" a] prior res Some same by simp
      have "wp (thenP (gw_authorize g cs) (thenP (liftP (require_effect (gw_engine g) cs a)) (returnP a)))
          (returned cs (src (world s))) (raised cs (src (world s))) s6"
        by (rule keeps_then_wp [OF authorize_keeps])
          (use there s6 in \<open>simp_all add: wp_simps require_effect_eq settled_def effect_bound_def
             returned_def raised_same\<close>)
      with prior res Some show ?thesis by (simp add: wp_bind wp_port_call transport s6_def)
    next
      case None
      have "landed (src (world s)) (idempotency_key cs) = None"
        using prior_absent [of cs "world s5"] prior res None same by simp
      then have "wp (gw_apply_fresh g cs) (returned cs (src (world s))) (raised cs (src (world s))) s6"
        using fresh_lands [of s6 cs] s6 by simp
      with prior res None show ?thesis by (simp add: wp_bind wp_port_call transport s6_def)
    qed
  qed
qed (simp_all add: raised_same)

lemma apply_landing: "landing landed commit cs (src (world s)) (src (world (snd (gw_apply g cs s))))"
proof -
  have "wp (gw_apply g cs) (\<lambda>_ s'. landing landed commit cs (src (world s)) (src (world s')))
      (\<lambda>_ s'. landing landed commit cs (src (world s)) (src (world s'))) s"
    by (rule wp_mono [OF apply_lands]) (simp_all add: returned_def raised_def)
  then show ?thesis by (simp only: wp_both)
qed

text \<open>What landed under a key stays, through every operation of the service.\<close>

lemma landed_stays:
  assumes "landed (src (world s)) k = Some d"
  shows "landed (src (world (snd (gw_apply g cs s)))) k = Some d"
    and "landed (src (world (snd (gw_reconcile g cs s)))) k = Some d"
    and "landed (src (world (snd (gw_dry_run g cs s)))) k = Some d"
    and "landed (src (world (snd (gw_current_version g cs s)))) k = Some d"
  using assms landing_mono [OF apply_landing]
  by (simp_all add: keepsD [OF reconcile_call_keeps] keepsD [OF dry_run_call_keeps]
      keepsD [OF current_call_keeps])

end

end
