(* ===== verification/WB_Memory.thy ===== *)
theory WB_Memory
  imports WB_Source
begin

text \<open>
  The compare-and-apply building blocks of \<^verbatim>\<open>writeback/_transport_common.py\<close> and the in-memory
  transport of \<^verbatim>\<open>writeback/memory.py\<close> with its injected uncertainties, as an instance of the
  source contract.
\<close>

section \<open>Building blocks of the reference transports\<close>

text \<open>\<open>after\<close> holds every scope name, so reading it never fails; \<^theory_text>\<open>!=\<close> is Python equality.\<close>

definition preview_observation :: "engine \<Rightarrow> change_set \<Rightarrow> snapshot \<Rightarrow> dry_run_observation" where
  "preview_observation g cs current =
     (let before = scoped_before cs current;
          after = dict_update before (desired_patch cs);
          changed = filter (\<lambda>n. \<not> py_eq (field_get before n) (field_get after n)) (field_scope cs)
      in \<lparr>dr_change_set_digest = change_set_digest cs, dr_source_version = source_version current,
          desired_patch_digest = patch_digest g cs, changed_fields = changed,
          dr_before = before, dr_after = after\<rparr>)"

definition check_prior_effect :: "engine \<Rightarrow> attempt \<Rightarrow> change_set \<Rightarrow> wb_exc + attempt" where
  "check_prior_effect g effect cs =
     andR (refuse_if (at_change_set_digest effect \<noteq> change_set_digest cs
                      \<or> applied_field_digest effect \<noteq> patch_digest g cs)
            (IdempotencyConflictError ''idempotency key is bound to a different effect''))
       (Inr effect)"

definition applied_attempt ::
  "engine \<Rightarrow> change_set \<Rightarrow> string \<Rightarrow> string \<Rightarrow> string \<Rightarrow> attempt" where
  "applied_attempt g cs pre_version post_version observation_digest =
     \<lparr>at_tenant_id = tenant_id cs, at_change_set_id = change_set_id cs,
      at_change_set_digest = change_set_digest cs, at_idempotency_key = idempotency_key cs,
      at_kind = KindApply, at_input_digest = input_digest (authorization cs),
      at_output_digest = output_digest (authorization cs),
      pre_source_version = pre_version, post_source_version = post_version,
      applied_field_digest = patch_digest g cs,
      at_outcome = OutApplied, at_effect_status = EffApplied,
      at_observation_digest = observation_digest,
      at_provenance_digest = json_digest g (JObj (field_provenance cs))\<rparr>"

text \<open>\<^theory_text>\<open>snapshot.model_dump()\<close>.\<close>

definition snapshot_dump :: "snapshot \<Rightarrow> json" where
  "snapshot_dump c =
     JObj [(''source_version'', JStr (source_version c)), (''fields'', JObj (sn_fields c)),
           (''observation'', JObj (sn_observation c))]"

definition reconciliation_observation ::
  "engine \<Rightarrow> change_set \<Rightarrow> snapshot \<Rightarrow> effect_status \<Rightarrow> observation" where
  "reconciliation_observation g cs current status =
     \<lparr>ob_tenant_id = tenant_id cs, ob_change_set_id = change_set_id cs,
      ob_change_set_digest = change_set_digest cs, ob_idempotency_key = idempotency_key cs,
      observed_source_version = source_version current, ob_effect_status = status,
      retry_allowed = (status = EffNoEffect),
      evidence_digest = json_digest g
        (JObj [(''effect_status'', JStr (status_value status)),
               (''source_version'', JStr (source_version current))]),
      ob_observation_digest = json_digest g (snapshot_dump current),
      ob_provenance_digest = json_digest g (JObj (field_provenance cs))\<rparr>"

lemma check_prior_effect_iff [result_iff]:
  "check_prior_effect g e cs = Inr a \<longleftrightarrow>
     a = e \<and> at_change_set_digest e = change_set_digest cs
     \<and> applied_field_digest e = patch_digest g cs"
  by (auto simp: check_prior_effect_def result_iff)

lemma applied_attempt_bound [simp]: "effect_bound g cs (applied_attempt g cs pre post d)"
  by (simp add: effect_bound_def applied_attempt_def)

lemma applied_attempt_digest [simp]:
  "at_change_set_digest (applied_attempt g cs pre post d) = change_set_digest cs"
  by (simp add: applied_attempt_def)

lemma reconciliation_bound:
  "require_reconciliation cs (reconciliation_observation g cs c status) = Inr ()"
  by (simp add: require_reconciliation_iff reconciliation_observation_def)

section \<open>The in-memory transport\<close>

datatype fixture_uncertainty = BeforeEffect | AfterEffect | UnresolvedOutcome

record memory =
  entities :: "string \<rightharpoonup> snapshot"
  effects :: "string \<rightharpoonup> attempt"
  attempts :: nat
  uncertainty :: "string \<rightharpoonup> fixture_uncertainty"

definition mem_seed :: "string \<Rightarrow> string \<Rightarrow> (string, json) dict \<Rightarrow> memory \<Rightarrow> memory" where
  "mem_seed entity version vals w =
     w\<lparr>entities := (entities w)(entity \<mapsto>
        \<lparr>source_version = version, sn_fields = vals, sn_observation = []\<rparr>)\<rparr>"

definition mem_inject :: "string \<Rightarrow> fixture_uncertainty \<Rightarrow> memory \<Rightarrow> memory" where
  "mem_inject key u w = w\<lparr>uncertainty := (uncertainty w)(key \<mapsto> u)\<rparr>"

definition mem_read :: "change_set \<Rightarrow> (memory, snapshot) port" where
  "mem_read cs w =
     ((case entities w (entity_id cs) of None \<Rightarrow> Inl (KeyError (entity_id cs)) | Some c \<Rightarrow> Inr c), w)"

definition mem_preview :: "engine \<Rightarrow> change_set \<Rightarrow> snapshot \<Rightarrow> (memory, dry_run_observation) port" where
  "mem_preview g cs current w = (Inr (preview_observation g cs current), w)"

definition mem_prior_effect :: "engine \<Rightarrow> change_set \<Rightarrow> (memory, attempt option) port" where
  "mem_prior_effect g cs w =
     (case effects w (idempotency_key cs) of
        None \<Rightarrow> (Inr None, w)
      | Some e \<Rightarrow> (map_sum id Some (check_prior_effect g e cs), w))"

text \<open>\<open>_commit\<close>: the patched fields at the next version, and the effect under its key.\<close>

definition patched :: "change_set \<Rightarrow> snapshot \<Rightarrow> snapshot" where
  "patched cs current =
     \<lparr>source_version = source_version current @ ''+1'',
      sn_fields = dict_update (sn_fields current) (desired_patch cs), sn_observation = []\<rparr>"

definition mem_commit :: "engine \<Rightarrow> change_set \<Rightarrow> snapshot \<Rightarrow> memory \<Rightarrow> attempt \<times> memory" where
  "mem_commit g cs current w =
     (let snap = patched cs current;
          a = applied_attempt g cs (source_version current) (source_version snap)
                (json_digest g (snapshot_dump snap))
      in (a, w\<lparr>entities := (entities w)(entity_id cs \<mapsto> snap),
               effects := (effects w)(idempotency_key cs \<mapsto> a)\<rparr>))"

definition mem_apply :: "engine \<Rightarrow> change_set \<Rightarrow> string \<Rightarrow> (memory, attempt) port" where
  "mem_apply g cs expected w0 =
     (let w = w0\<lparr>attempts := attempts w0 + 1\<rparr>;
          u = uncertainty w (idempotency_key cs);
          popped = (\<lambda>w'. w'\<lparr>uncertainty := (uncertainty w')(idempotency_key cs := None)\<rparr>)
      in if u = Some BeforeEffect then
           (Inl (OutcomeUncertainError ''fixture lost acknowledgement before effect''), popped w)
         else if u = Some UnresolvedOutcome then
           (Inl (OutcomeUncertainError ''fixture outcome remains unresolved''), w)
         else case entities w (entity_id cs) of
           None \<Rightarrow> (Inl (KeyError (entity_id cs)), w)
         | Some current \<Rightarrow>
             if source_version current \<noteq> expected then
               (Inl (SourceVersionConflictError ''source changed during compare-and-apply''), w)
             else
               (case mem_commit g cs current w of (a, w') \<Rightarrow>
                  if u = Some AfterEffect then
                    (Inl (OutcomeUncertainError ''fixture lost acknowledgement after effect''),
                     popped w')
                  else (Inr a, w')))"

definition mem_reconcile :: "engine \<Rightarrow> change_set \<Rightarrow> (memory, observation) port" where
  "mem_reconcile g cs w =
     (let u = uncertainty w (idempotency_key cs);
          observed =
            (if u = Some UnresolvedOutcome then Inr EffUncertain
             else case effects w (idempotency_key cs) of
               Some e \<Rightarrow>
                 andR (refuse_if (at_change_set_digest e \<noteq> change_set_digest cs)
                        (IdempotencyConflictError
                          ''idempotency key is bound to a different effect''))
                   (Inr EffApplied)
             | None \<Rightarrow> Inr EffNoEffect)
      in case observed of
           Inl e \<Rightarrow> (Inl e, w)
         | Inr status \<Rightarrow>
             let w' = (if u = Some UnresolvedOutcome then w
                       else w\<lparr>uncertainty := (uncertainty w)(idempotency_key cs := None)\<rparr>)
             in (case entities w' (entity_id cs) of
                   None \<Rightarrow> (Inl (KeyError (entity_id cs)), w')
                 | Some current \<Rightarrow>
                     (Inr (reconciliation_observation g cs current status), w')))"

definition memory_transport :: "engine \<Rightarrow> memory transport" where
  "memory_transport g =
     \<lparr>t_read_current = mem_read, t_preview = mem_preview g, t_prior_effect = mem_prior_effect g,
      t_apply = mem_apply g, t_reconcile = mem_reconcile g, t_prepare = None,
      t_apply_reserved = None\<rparr>"

text \<open>
  A service over the in-memory source. Its verifier, audit port and clock are any functions that
  leave the source alone: the granted bindings, the reservations and the time come from elsewhere.
\<close>

definition memory_service ::
  "engine \<Rightarrow> (change_set \<Rightarrow> wb_exc + auth_decision) \<Rightarrow> (change_set \<Rightarrow> wb_exc + audit_reservation option)
   \<Rightarrow> (memory \<Rightarrow> int) \<Rightarrow> memory governed" where
  "memory_service g verify reserve clock =
     \<lparr>gw_engine = g, gw_transport = memory_transport g,
      gw_verify = (\<lambda>cs w. (verify cs, w)), gw_reserve = (\<lambda>cs w. (reserve cs, w)),
      gw_clock = (\<lambda>w. (Inr (clock w), w)), gw_gate = None\<rparr>"

section \<open>The contract holds\<close>

text \<open>What the source durably holds, and what landed under a key.\<close>

definition mem_source :: "memory \<Rightarrow> (string \<rightharpoonup> snapshot) \<times> (string \<rightharpoonup> attempt)" where
  "mem_source w = (entities w, effects w)"

fun mem_landed :: "(string \<rightharpoonup> snapshot) \<times> (string \<rightharpoonup> attempt) \<Rightarrow> string \<Rightarrow> string option" where
  "mem_landed (es, fs) = map_option at_change_set_digest \<circ> fs"

fun mem_committed ::
  "engine \<Rightarrow> change_set \<Rightarrow> string \<Rightarrow> (string \<rightharpoonup> snapshot) \<times> (string \<rightharpoonup> attempt)
   \<Rightarrow> (string \<rightharpoonup> snapshot) \<times> (string \<rightharpoonup> attempt) \<Rightarrow> bool" where
  "mem_committed g cs v (es, fs) (es', fs') \<longleftrightarrow>
     (case es (entity_id cs) of
        None \<Rightarrow> False
      | Some current \<Rightarrow>
          source_version current = v \<and> es' = es(entity_id cs \<mapsto> patched cs current)
          \<and> fs' = fs(idempotency_key cs \<mapsto> applied_attempt g cs v (v @ ''+1'')
                       (json_digest g (snapshot_dump (patched cs current)))))"

lemma mem_apply_cases:
  assumes "mem_apply g cs v w = (res, w')"
  shows "mem_committed g cs v (mem_source w) (mem_source w') \<and>
           (\<forall>e. res = Inl e \<longrightarrow> (\<exists>m. e = OutcomeUncertainError m))
         \<or> mem_source w' = mem_source w \<and> (\<forall>a. res \<noteq> Inr a)"
    and "\<And>a. res = Inr a \<Longrightarrow> effect_bound g cs a"
proof -
  show "mem_committed g cs v (mem_source w) (mem_source w') \<and>
           (\<forall>e. res = Inl e \<longrightarrow> (\<exists>m. e = OutcomeUncertainError m))
         \<or> mem_source w' = mem_source w \<and> (\<forall>a. res \<noteq> Inr a)"
    using assms
    by (auto simp: mem_apply_def mem_commit_def mem_source_def Let_def patched_def
        split: if_splits option.splits)
  show "effect_bound g cs a" if "res = Inr a" for a
    using assms that
    by (auto simp: mem_apply_def mem_commit_def Let_def split: if_splits option.splits)
qed

lemma mem_reconcile_source [simp]: "mem_source (snd (mem_reconcile g cs w)) = mem_source w"
  by (simp add: mem_reconcile_def mem_source_def Let_def split: sum.splits option.splits)

lemma mem_reconcile_truth:
  assumes "fst (mem_reconcile g cs w) = Inr ob"
  shows "require_reconciliation cs ob = Inr ()"
    and "ob_effect_status ob =
       (if uncertainty w (idempotency_key cs) = Some UnresolvedOutcome then EffUncertain
        else if mem_landed (mem_source w) (idempotency_key cs) = Some (change_set_digest cs)
        then EffApplied else EffNoEffect)"
    and "uncertainty w (idempotency_key cs) = Some UnresolvedOutcome
         \<or> mem_landed (mem_source w) (idempotency_key cs) \<in> {None, Some (change_set_digest cs)}"
  using assms
  by (auto simp: mem_reconcile_def mem_source_def Let_def reconciliation_bound result_iff
      reconciliation_observation_def require_reconciliation_iff refuse_if_def
      split: if_splits option.splits sum.splits)

lemma mem_source_eq: "mem_source w' = mem_source w \<longleftrightarrow> entities w' = entities w \<and> effects w' = effects w"
  by (auto simp: mem_source_def)

lemmas mem_reconcile_keeps [simp] = mem_reconcile_source [unfolded mem_source_eq, THEN conjunct1]
  mem_reconcile_source [unfolded mem_source_eq, THEN conjunct2]

lemma mem_prior_found: "fst (mem_prior_effect g cs w) = Inr (Some a) \<longleftrightarrow>
    effects w (idempotency_key cs) = Some a \<and> check_prior_effect g a cs = Inr a"
  and mem_prior_absent: "fst (mem_prior_effect g cs w) = Inr None \<longleftrightarrow>
    effects w (idempotency_key cs) = None"
  by (auto simp: mem_prior_effect_def check_prior_effect_def refuse_if_def split: option.splits)

lemma mem_prior_keeps [simp]: "snd (mem_prior_effect g cs w) = w"
  by (simp add: mem_prior_effect_def split: option.splits)

interpretation memory_source: effect_source "memory_transport g" mem_source mem_landed "mem_committed g"
proof (unfold_locales, goal_cases)
  case (6 cs w a)
  then show ?case
    by (auto simp: memory_transport_def mem_prior_found mem_source_def result_iff)
next
  case (7 cs w)
  then show ?case by (auto simp: memory_transport_def mem_prior_absent mem_source_def)
next
  case (8 cs v x x')
  then show ?case
    by (cases x; cases x') (auto simp: lands_def fun_eq_iff split: option.splits)
next
  case (9 cs v r w res w')
  then show ?case
    using mem_apply_cases(1) [of g cs v w res w'] by (auto simp: memory_transport_def effect_port_def)
next
  case (10 cs v r w a w')
  then show ?case
    using mem_apply_cases(1) [of g cs v w "Inr a" w'] by (auto simp: memory_transport_def effect_port_def)
next
  case (11 cs v r w e w')
  then show ?case
    using mem_apply_cases(1) [of g cs v w "Inl e" w'] by (auto simp: memory_transport_def effect_port_def)
next
  case (12 cs w ob)
  then show ?case
    using mem_reconcile_truth(2) [of g cs w ob] by (auto simp: memory_transport_def split: if_splits)
next
  case (13 cs w ob)
  then show ?case
    using mem_reconcile_truth(2,3) [of g cs w ob] by (auto simp: memory_transport_def split: if_splits)
qed (auto simp: memory_transport_def mem_read_def mem_preview_def mem_source_def)

interpretation memory_governed:
  governed_source "memory_transport g" mem_source mem_landed "mem_committed g"
    "memory_service g verify reserve clock"
  by unfold_locales (simp_all add: memory_service_def)

lemma memory_honest: "honest_effects (memory_transport g) g"
  unfolding honest_effects_def effect_port_def
  using mem_apply_cases(2) by (fastforce simp: memory_transport_def)


section \<open>Properties\<close>

text \<open>
  Property C4. Over the in-memory source one \<open>apply\<close> changes the source at most once and only
  under a key nothing landed under: either nothing changes, or the patch is committed at the base
  version. A returned attempt is uncertain or says applied, and then the change set landed under
  its key. When \<open>apply\<close> raises, the source is as it was.
\<close>

theorem memory_apply_outcome:
  "case gw_apply (memory_service g verify reserve clock) cs s of
     (Inr a, s') \<Rightarrow>
       landing mem_landed (mem_committed g) cs (mem_source (world s)) (mem_source (world s'))
       \<and> settled mem_landed cs a (mem_source (world s'))
   | (Inl e, s') \<Rightarrow> mem_source (world s') = mem_source (world s)"
proof -
  have "gw_engine (memory_service g verify reserve clock) = g"
    by (simp add: memory_service_def)
  then show ?thesis
    using memory_governed.apply_lands [of g verify reserve clock cs s] memory_honest [of g]
    by (simp add: wp_def memory_governed.returned_def memory_governed.raised_def
        split: prod.splits sum.splits)
qed

text \<open>
  The runs of the service and of the fixture around it, with the keys whose call changed the
  source, latest first.
\<close>

inductive memory_history ::
  "memory governed \<Rightarrow> memory gstate \<Rightarrow> string list \<Rightarrow> bool" for g where
  hist_start: "log s = [] \<Longrightarrow> unresolved s = Map.empty \<Longrightarrow> effects (world s) = Map.empty \<Longrightarrow>
      memory_history g s []"
| hist_apply: "memory_history g s ks \<Longrightarrow> s' = snd (gw_apply g cs s) \<Longrightarrow>
      memory_history g s'
        (if mem_source (world s') = mem_source (world s) then ks else idempotency_key cs # ks)"
| hist_reconcile: "memory_history g s ks \<Longrightarrow> memory_history g (snd (gw_reconcile g cs s)) ks"
| hist_dry_run: "memory_history g s ks \<Longrightarrow> memory_history g (snd (gw_dry_run g cs s)) ks"
| hist_current: "memory_history g s ks \<Longrightarrow> memory_history g (snd (gw_current_version g cs s)) ks"
| hist_seed: "memory_history g s ks \<Longrightarrow> memory_history g (s\<lparr>world := mem_seed e v f (world s)\<rparr>) ks"
| hist_inject: "memory_history g s ks \<Longrightarrow> memory_history g (s\<lparr>world := mem_inject k u (world s)\<rparr>) ks"

lemma mem_landed_dom: "effects w k = None \<longleftrightarrow> mem_landed (mem_source w) k = None"
  by (simp add: mem_source_def)

lemma landing_effects:
  assumes "landing mem_landed (mem_committed g) cs (mem_source w) (mem_source w')"
    and "mem_source w' \<noteq> mem_source w"
  shows "idempotency_key cs \<notin> dom (effects w)"
    and "dom (effects w') = insert (idempotency_key cs) (dom (effects w))"
  using assms by (auto simp: landing_def mem_source_def split: option.splits)

lemma memory_history_keys:
  assumes "memory_history (memory_service g verify reserve clock) s ks"
  shows "distinct ks \<and> set ks = dom (effects (world s))"
  using assms
proof (induction rule: memory_history.induct)
  case (hist_apply s ks s' cs)
  have "landing mem_landed (mem_committed g) cs (mem_source (world s)) (mem_source (world s'))"
    unfolding hist_apply by (rule memory_governed.apply_landing)
  from landing_effects [OF this] hist_apply.IH show ?case
    by (simp add: mem_source_eq)
next
  case (hist_reconcile s ks cs)
  have "mem_source (world (snd (gw_reconcile (memory_service g verify reserve clock) cs s)))
      = mem_source (world s)"
    by (rule keepsD [OF memory_governed.reconcile_call_keeps])
  with hist_reconcile.IH show ?case by (simp add: mem_source_eq)
next
  case (hist_dry_run s ks cs)
  have "mem_source (world (snd (gw_dry_run (memory_service g verify reserve clock) cs s)))
      = mem_source (world s)"
    by (rule keepsD [OF memory_governed.dry_run_call_keeps])
  with hist_dry_run.IH show ?case by (simp add: mem_source_eq)
next
  case (hist_current s ks cs)
  have "mem_source (world (snd (gw_current_version (memory_service g verify reserve clock) cs s)))
      = mem_source (world s)"
    by (rule keepsD [OF memory_governed.current_call_keeps])
  with hist_current.IH show ?case by (simp add: mem_source_eq)
qed (simp_all add: mem_seed_def mem_inject_def)

text \<open>
  Property C5. In every history of the service over the in-memory source, with entities seeded and
  acknowledgements lost at any point, each idempotency key changes the source at most once, and
  the keys that did are exactly those with a recorded effect.
\<close>

theorem memory_at_most_once:
  assumes "memory_history (memory_service g verify reserve clock) s ks"
  shows "distinct ks \<and> set ks = dom (effects (world s))"
  by (rule memory_history_keys [OF assms])

text \<open>What a change set needs so that \<open>apply\<close> can commit it.\<close>

definition admissible ::
  "engine \<Rightarrow> (change_set \<Rightarrow> wb_exc + auth_decision) \<Rightarrow> (change_set \<Rightarrow> wb_exc + audit_reservation option)
   \<Rightarrow> (memory \<Rightarrow> int) \<Rightarrow> change_set \<Rightarrow> memory \<Rightarrow> bool" where
  "admissible g verify reserve clock cs w \<longleftrightarrow>
     change_set_digest cs = canonical_digest g cs \<and> clock w < expires_at_ms cs \<and> scope_exact cs
     \<and> verify cs = Inr (authorization cs) \<and> authorized (authorization cs)
     \<and> (case reserve cs of Inr (Some r) \<Rightarrow> reservation_bound cs r | _ \<Rightarrow> False)"

lemma memory_validate:
  assumes "admissible g verify reserve clock cs (world s)"
  shows "gw_validate (memory_service g verify reserve clock) cs s =
           (Inr (), s\<lparr>log := log s @ [EvClock (Inr (clock (world s)))]\<rparr>)"
proof -
  from assms have "scope_exact cs" by (simp add: admissible_def)
  then have scope: "distinct (field_scope cs)" "fst ` set (desired_patch cs) = set (field_scope cs)"
    "fst ` set (field_provenance cs) = set (field_scope cs)"
    unfolding scope_exact_def by metis+
  show ?thesis using assms
    by (simp add: gw_validate_def memory_service_def admissible_def prog_defs port_call_def
        refuse_if_def length_remdups_distinct scope)
qed

lemma memory_authorize:
  assumes "admissible g verify reserve clock cs (world s)"
  shows "gw_authorize (memory_service g verify reserve clock) cs s =
           (Inr (), s\<lparr>log := log s @ [EvClock (Inr (clock (world s))),
              EvVerify (Inr (authorization cs)), EvClock (Inr (clock (world s)))]\<rparr>)"
proof -
  let ?t = "s\<lparr>log := log s @ [EvClock (Inr (clock (world s))), EvVerify (Inr (authorization cs))]\<rparr>"
  have "admissible g verify reserve clock cs (world ?t)" using assms by simp
  from memory_validate [OF this] memory_validate [OF assms] assms show ?thesis
    by (simp add: gw_authorize_def bindP_def thenP_def liftP_def port_call_def admissible_def
        require_authorized_def memory_service_def)
qed

lemma memory_read:
  "entities (world s) (entity_id cs) = Some c \<Longrightarrow>
     port_call EvRead (t_read_current (gw_transport (memory_service g verify reserve clock)) cs) s =
       (Inr c, s\<lparr>log := log s @ [EvRead (Inr c)]\<rparr>)"
  by (simp add: port_call_def memory_service_def memory_transport_def mem_read_def)

lemma memory_admit:
  assumes "admissible g verify reserve clock cs (world s)"
  obtains r where "gw_admit (memory_service g verify reserve clock) cs s =
           (Inr r, s\<lparr>log := log s @ [EvVerify (Inr (authorization cs)), EvReserve (Inr (Some r))]\<rparr>)"
proof -
  obtain r where r: "reserve cs = Inr (Some r)" "reservation_bound cs r"
    using assms by (auto simp: admissible_def split: sum.splits option.splits)
  then have "require_bound_reservation cs (Some r) = Inr r" by (simp add: require_bound_reservation_iff)
  with r assms show ?thesis
    by (intro that [of r])
      (simp add: gw_admit_def bindP_def thenP_def liftP_def port_call_def admissible_def
        require_authorized_def memory_service_def)
qed

text \<open>The answer and the unresolved keys that follow from the transport's answer to the effect.\<close>

fun effect_answer :: "engine \<Rightarrow> change_set \<Rightarrow> string \<Rightarrow> wb_exc + attempt \<Rightarrow> wb_exc + attempt" where
  "effect_answer g cs v (Inr a) = Inr a"
| "effect_answer g cs v (Inl (OutcomeUncertainError m)) = Inr (gw_uncertain g cs v)"
| "effect_answer g cs v (Inl e) = Inl e"

lemma memory_apply_evaluates:
  assumes adm: "admissible g verify reserve clock cs (world s)"
    and res: "unresolved s (idempotency_key cs) = None"
    and new: "effects (world s) (idempotency_key cs) = None"
    and ent: "entities (world s) (entity_id cs) = Some c" "source_version c = base_source_version cs"
    and eff: "mem_apply g cs (base_source_version cs) (world s) = (ans, w')"
  shows "\<exists>s'. gw_apply (memory_service g verify reserve clock) cs s =
           (effect_answer g cs (base_source_version cs) ans, s')
         \<and> world s' = w' \<and> unresolved s' = unresolved_after cs ans (unresolved s)"
proof -
  let ?M = "memory_service g verify reserve clock"
  have ports: "gw_gate ?M = None" "t_prepare (gw_transport ?M) = None"
    "t_prior_effect (gw_transport ?M) = mem_prior_effect g"
    "effect_port (gw_transport ?M) cs v r = mem_apply g cs v"
    "gw_verify ?M cs = (\<lambda>w. (verify cs, w))" "gw_engine ?M = g" for v r
    by (simp_all add: memory_service_def memory_transport_def effect_port_def)
  have "\<exists>l. gw_apply ?M cs s = gw_apply_fresh ?M cs (s\<lparr>log := l\<rparr>)"
    by (simp add: gw_apply_def bindP_def thenP_def liftP_def getsP_def returnP_def port_call_def
        gw_require_reconciled_def refuse_if_def gw_require_wallet_proof_def gw_prepare_def ports
        memory_validate memory_authorize adm res new mem_prior_effect_def)
      (intro exI, rule refl)
  then obtain l where pre: "gw_apply ?M cs s = gw_apply_fresh ?M cs (s\<lparr>log := l\<rparr>)" by blast
  obtain r l' where fresh: "gw_apply_fresh ?M cs (s\<lparr>log := l\<rparr>) = gw_commit ?M cs c r (s\<lparr>log := l'\<rparr>)"
  proof -
    let ?s = "s\<lparr>log := l @ [EvRead (Inr c)]\<rparr>"
    obtain r where "gw_admit ?M cs ?s = (Inr r, ?s\<lparr>log := log ?s @
        [EvVerify (Inr (authorization cs)), EvReserve (Inr (Some r))]\<rparr>)"
      using memory_admit [of g verify reserve clock cs ?s] adm by auto
    with ent show ?thesis
      by (intro that) (simp add: gw_apply_fresh_def bindP_def thenP_def liftP_def memory_read
          require_base_def)
  qed
  have bound: "require_effect g cs a = Inr ()" if "ans = Inr a" for a
    using mem_apply_cases(2) [OF eff that] by (simp add: require_effect_eq)
  have verified: "verify cs = Inr (authorization cs)" "authorized (authorization cs)"
    using adm by (simp_all add: admissible_def)
  have "gw_commit ?M cs c r (s\<lparr>log := l'\<rparr>) = (effect_answer g cs (base_source_version cs) ans,
          s\<lparr>world := w', unresolved := unresolved_after cs ans (unresolved s), log :=
              l' @ [EvClock (Inr (clock (world s))), EvVerify (Inr (authorization cs)),
                    EvClock (Inr (clock (world s))), EvEffect cs (base_source_version cs) ans]\<rparr>)"
    using adm ent eff bound
    by (cases "(g, cs, base_source_version cs, ans)" rule: effect_answer.cases)
      (simp_all add: gw_commit_def bindP_def thenP_def liftP_def catchP_def port_call_def
        memory_validate require_authorized_def ports verified
        run_effect_port gw_mark_unresolved_def modifyP_def returnP_def unresolved_after_def)
  then show ?thesis by (simp add: pre fresh)
qed

lemma memory_apply_recorded:
  assumes adm: "admissible g verify reserve clock cs (world s)"
    and res: "unresolved s (idempotency_key cs) = None"
    and old: "effects (world s) (idempotency_key cs) = Some a" "effect_bound g cs a"
  shows "\<exists>l. gw_apply (memory_service g verify reserve clock) cs s = (Inr a, s\<lparr>log := l\<rparr>)"
proof -
  let ?M = "memory_service g verify reserve clock"
  have ports: "gw_gate ?M = None" "t_prepare (gw_transport ?M) = None"
    "t_prior_effect (gw_transport ?M) = mem_prior_effect g" "gw_engine ?M = g"
    by (simp_all add: memory_service_def memory_transport_def)
  have "check_prior_effect g a cs = Inr a" "require_effect g cs a = Inr ()"
    using old(2) by (simp_all add: check_prior_effect_iff effect_bound_def require_effect_iff)
  then show ?thesis
    by (simp add: gw_apply_def bindP_def thenP_def liftP_def getsP_def returnP_def port_call_def
        gw_require_reconciled_def refuse_if_def gw_require_wallet_proof_def gw_prepare_def ports
        memory_validate memory_authorize adm res old mem_prior_effect_def)
      (intro exI, rule refl)
qed

lemma memory_reconcile_evaluates:
  assumes adm: "admissible g verify reserve clock cs (world s)"
    and res: "unresolved s (idempotency_key cs) \<in> {None, Some (change_set_digest cs)}"
    and ans: "mem_reconcile g cs (world s) = (Inr ob, w')" "ob_effect_status ob \<noteq> EffUncertain"
  shows "\<exists>l. gw_reconcile (memory_service g verify reserve clock) cs s =
           (Inr ob, s\<lparr>world := w', unresolved := (unresolved s)(idempotency_key cs := None), log := l\<rparr>)"
proof -
  let ?M = "memory_service g verify reserve clock"
  have port: "t_reconcile (gw_transport ?M) = mem_reconcile g"
    by (simp add: memory_service_def memory_transport_def)
  have "require_reconciliation cs ob = Inr ()"
    using mem_reconcile_truth(1) [of g cs "world s" ob] ans(1) by simp
  moreover have "(case unresolved s (idempotency_key cs) of None \<Rightarrow> False
      | Some d \<Rightarrow> d \<noteq> change_set_digest cs) = False"
    using res by auto
  ultimately show ?thesis
    by (simp add: gw_reconcile_def bindP_def thenP_def liftP_def getsP_def modifyP_def returnP_def
        port_call_def port memory_validate adm ans)
      (intro exI, rule gstate.equality; simp)
qed

text \<open>
  An admissible change set whose key is free and whose acknowledgement is not lost is
  applied: \<open>apply\<close> returns the applied attempt from the base version to the next, the entity has
  the patched fields, and nothing is left unresolved.
\<close>

theorem memory_apply_commits:
  assumes "admissible g verify reserve clock cs (world s)"
    and "unresolved s (idempotency_key cs) = None"
    and "effects (world s) (idempotency_key cs) = None"
    and "uncertainty (world s) (idempotency_key cs) = None"
    and "entities (world s) (entity_id cs) = Some c" "source_version c = base_source_version cs"
  shows "\<exists>s'. gw_apply (memory_service g verify reserve clock) cs s =
           (Inr (applied_attempt g cs (base_source_version cs) (base_source_version cs @ ''+1'')
                   (json_digest g (snapshot_dump (patched cs c)))), s')
         \<and> entities (world s') = (entities (world s))(entity_id cs \<mapsto> patched cs c)
         \<and> unresolved s' = unresolved s"
proof -
  obtain ans w' where eff: "mem_apply g cs (base_source_version cs) (world s) = (ans, w')"
    by (cases "mem_apply g cs (base_source_version cs) (world s)")
  with assms(4-6) have "ans = Inr (applied_attempt g cs (base_source_version cs)
        (base_source_version cs @ ''+1'') (json_digest g (snapshot_dump (patched cs c))))"
      "entities w' = (entities (world s))(entity_id cs \<mapsto> patched cs c)"
    by (auto simp: mem_apply_def mem_commit_def Let_def patched_def)
  with memory_apply_evaluates [OF assms(1,2,3,5,6) eff] show ?thesis
    by (auto simp: unresolved_after_def)
qed

text \<open>The fixture forgets an injected loss once it happened.\<close>

lemma mem_apply_lost:
  assumes "uncertainty w (idempotency_key cs) = Some u" "u \<in> {BeforeEffect, AfterEffect}"
    and "entities w (entity_id cs) = Some c" "source_version c = v"
    and "mem_apply g cs v w = (ans, w')"
  shows "\<exists>m. ans = Inl (OutcomeUncertainError m)" and "uncertainty w' (idempotency_key cs) = None"
    and "u = BeforeEffect \<Longrightarrow> mem_source w' = mem_source w"
    and "u = AfterEffect \<Longrightarrow> mem_committed g cs v (mem_source w) (mem_source w')"
  using assms by (auto simp: mem_apply_def mem_commit_def Let_def mem_source_def patched_def)

lemma mem_reconcile_answers:
  assumes "uncertainty w (idempotency_key cs) = None" "entities w (entity_id cs) = Some c"
    and "mem_landed (mem_source w) (idempotency_key cs) \<in> {None, Some (change_set_digest cs)}"
  shows "\<exists>ob w'. mem_reconcile g cs w = (Inr ob, w') \<and> mem_source w' = mem_source w
     \<and> uncertainty w' = uncertainty w \<and> retry_allowed ob = (ob_effect_status ob = EffNoEffect)
     \<and> ob_effect_status ob =
         (if mem_landed (mem_source w) (idempotency_key cs) = None then EffNoEffect else EffApplied)"
  using assms
  by (auto simp: mem_reconcile_def Let_def mem_source_def refuse_if_def reconciliation_observation_def
      split: option.splits)

lemma mem_apply_plain:
  assumes "uncertainty w (idempotency_key cs) = None"
    and "entities w (entity_id cs) = Some c" "source_version c = v"
  shows "\<exists>a w'. mem_apply g cs v w = (Inr a, w') \<and> mem_committed g cs v (mem_source w) (mem_source w')"
  using assms by (auto simp: mem_apply_def mem_commit_def Let_def mem_source_def patched_def)

text \<open>
  Property C6. When the acknowledgement of an apply is lost, before or after the effect, apply,
  reconcile and apply again end with the patch committed exactly once: the first call answers the
  uncertain attempt, the reconciliation tells the truth about the effect and permits a retry
  exactly when there was none, and the last call returns an applied attempt.
\<close>

theorem memory_lost_acknowledgement:
  assumes adm: "\<And>w. admissible g verify reserve clock cs w"
    and free: "unresolved s (idempotency_key cs) = None"
      "effects (world s) (idempotency_key cs) = None"
    and ent: "entities (world s) (entity_id cs) = Some c" "source_version c = base_source_version cs"
    and lost: "uncertainty (world s) (idempotency_key cs) = Some u" "u \<in> {BeforeEffect, AfterEffect}"
  shows "\<exists>s1 ob s2 a s3.
      gw_apply (memory_service g verify reserve clock) cs s =
        (Inr (gw_uncertain g cs (base_source_version cs)), s1)
      \<and> gw_reconcile (memory_service g verify reserve clock) cs s1 = (Inr ob, s2)
      \<and> ob_effect_status ob = (if u = BeforeEffect then EffNoEffect else EffApplied)
      \<and> retry_allowed ob = (u = BeforeEffect)
      \<and> gw_apply (memory_service g verify reserve clock) cs s2 = (Inr a, s3)
      \<and> at_effect_status a = EffApplied \<and> unresolved s3 = unresolved s
      \<and> mem_committed g cs (base_source_version cs) (mem_source (world s)) (mem_source (world s3))"
proof -
  let ?M = "memory_service g verify reserve clock" and ?k = "idempotency_key cs"
    and ?v = "base_source_version cs"
  obtain ans w1 where eff: "mem_apply g cs ?v (world s) = (ans, w1)"
    by (cases "mem_apply g cs ?v (world s)")
  note lost' = mem_apply_lost [OF lost ent eff]
  obtain m where ans: "ans = Inl (OutcomeUncertainError m)" using lost'(1) by blast
  obtain s1 where s1: "gw_apply ?M cs s = (Inr (gw_uncertain g cs ?v), s1)" "world s1 = w1"
      "unresolved s1 = (unresolved s)(?k \<mapsto> change_set_digest cs)"
    using memory_apply_evaluates [OF adm free ent eff] by (auto simp: ans unresolved_after_def)
  have src1: "mem_source w1 = mem_source (world s) \<and> u = BeforeEffect
      \<or> mem_committed g cs ?v (mem_source (world s)) (mem_source w1) \<and> u = AfterEffect"
    using lost' lost(2) by auto
  then obtain c1 where c1: "entities w1 (entity_id cs) = Some c1"
    using ent by (auto simp: mem_source_def split: option.splits)
  have landed1: "mem_landed (mem_source w1) ?k = (if u = BeforeEffect then None else Some (change_set_digest cs))"
    using src1 free(2) by (auto simp: mem_source_def split: option.splits)
  obtain ob w2 where rec: "mem_reconcile g cs w1 = (Inr ob, w2)" "mem_source w2 = mem_source w1"
      "uncertainty w2 = uncertainty w1" "retry_allowed ob = (ob_effect_status ob = EffNoEffect)"
      "ob_effect_status ob = (if u = BeforeEffect then EffNoEffect else EffApplied)"
    using mem_reconcile_answers [OF lost'(2) c1, of g] landed1 by (auto split: if_splits)
  have certain: "ob_effect_status ob \<noteq> EffUncertain" using rec(5) by simp
  obtain l where s2: "gw_reconcile ?M cs s1 =
      (Inr ob, s1\<lparr>world := w2, unresolved := (unresolved s1)(?k := None), log := l\<rparr>)"
    using memory_reconcile_evaluates [of g verify reserve clock cs s1 ob w2] adm rec(1) certain s1(2,3) by auto
  let ?s2 = "s1\<lparr>world := w2, unresolved := (unresolved s1)(?k := None), log := l\<rparr>"
  have clear: "unresolved ?s2 = unresolved s" using s1(3) free(1) by (auto simp: fun_eq_iff)
  have "\<exists>a s3. gw_apply ?M cs ?s2 = (Inr a, s3) \<and> at_effect_status a = EffApplied
      \<and> unresolved s3 = unresolved s
      \<and> mem_committed g cs ?v (mem_source (world s)) (mem_source (world s3))"
  proof (cases "u = BeforeEffect")
    case True
    then have same: "entities w2 = entities (world s)" "effects w2 = effects (world s)"
      using src1 rec(2) by (auto simp: mem_source_eq)
    obtain a w3 where eff3: "mem_apply g cs ?v w2 = (Inr a, w3)"
        "mem_committed g cs ?v (mem_source w2) (mem_source w3)"
      using mem_apply_plain [of w2 cs c ?v g] rec(3) lost'(2) ent same by auto
    have "effect_bound g cs a" by (rule mem_apply_cases(2) [OF eff3(1) refl])
    with memory_apply_evaluates [of g verify reserve clock cs ?s2 c "Inr a" w3] adm eff3 same ent
      free clear s1(3)
    show ?thesis by (auto simp: effect_bound_def unresolved_after_def mem_source_def)
  next
    case False
    then have com: "mem_committed g cs ?v (mem_source (world s)) (mem_source w2)"
      using src1 rec(2) by simp
    then obtain a where a: "effects w2 ?k = Some a" "effect_bound g cs a"
      by (auto simp: mem_source_def split: option.splits)
    with memory_apply_recorded [of g verify reserve clock cs ?s2 a] adm com clear free(1) show ?thesis
      by (auto simp: effect_bound_def)
  qed
  with s1(1) s2 rec show ?thesis by auto
qed

section \<open>Concrete runs\<close>

text \<open>A change set that corrects one field of a two-field entity.\<close>

definition demo_engine :: engine where
  "demo_engine = \<lparr>canonical_digest = (\<lambda>_. ''d''), patch_digest = (\<lambda>_. ''p''),
     sha256 = (\<lambda>s. s), float_repr = (\<lambda>_. ''0.0'')\<rparr>"

definition demo_decision :: auth_decision where
  "demo_decision = \<lparr>mode = ''human'', authorization_ref = ''a'', authorized = True,
     decision_digest = ''dd'', input_digest = ''i'', output_digest = ''o''\<rparr>"

definition demo_cs :: change_set where
  "demo_cs = \<lparr>tenant_id = ''t'', change_set_id = ''c'', change_set_digest = ''d'',
     idempotency_key = ''k'', connector_id = ''n'', entity_id = ''e'', actor = ''u'',
     base_source_version = ''1'', expires_at_ms = 10, field_scope = [''x''],
     desired_patch = [(''x'', JInt 2)], field_provenance = [(''x'', JStr ''src'')],
     authorization = demo_decision, policy_digest = ''q'', schema_version = 1\<rparr>"

definition demo_entity :: snapshot where
  "demo_entity = \<lparr>source_version = ''1'', sn_fields = [(''x'', JInt 1), (''y'', JNull)],
     sn_observation = []\<rparr>"

definition demo_world :: "(string \<rightharpoonup> fixture_uncertainty) \<Rightarrow> memory" where
  "demo_world u = \<lparr>entities = [''e'' \<mapsto> demo_entity], effects = Map.empty, attempts = 0,
     uncertainty = u\<rparr>"

definition demo_state :: "memory \<Rightarrow> memory gstate" where
  "demo_state w = \<lparr>world = w, unresolved = Map.empty, log = []\<rparr>"

definition demo_verify :: "change_set \<Rightarrow> wb_exc + auth_decision" where
  "demo_verify = verify_grant [binding_of demo_cs]"

definition demo_reserve :: "change_set \<Rightarrow> wb_exc + audit_reservation option" where
  "demo_reserve cs = Inr (Some \<lparr>reservation_id = Some ''r'', effect_key = idempotency_key cs,
     ar_change_set_digest = change_set_digest cs\<rparr>)"

definition demo_clock :: "memory \<Rightarrow> int" where
  "demo_clock w = 5"

abbreviation demo_service :: "memory governed" where
  "demo_service \<equiv> memory_service demo_engine demo_verify demo_reserve demo_clock"

lemma demo_admissible: "admissible demo_engine demo_verify demo_reserve demo_clock demo_cs w"
  by (simp add: admissible_def demo_engine_def demo_verify_def demo_reserve_def demo_clock_def
      demo_cs_def scope_exact_def verify_grant_def demo_decision_def reservation_bound_def blank_def
      py_space_def py_strip_def)

lemma memory_apply_commits_witness:
  "\<exists>s'. gw_apply demo_service demo_cs (demo_state (demo_world Map.empty)) =
      (Inr (applied_attempt demo_engine demo_cs ''1'' ''1+1''
              (json_digest demo_engine (snapshot_dump (patched demo_cs demo_entity)))), s')
    \<and> entities (world s') = [''e'' \<mapsto> patched demo_cs demo_entity] \<and> unresolved s' = Map.empty"
  using memory_apply_commits [of demo_engine demo_verify demo_reserve demo_clock demo_cs
      "demo_state (demo_world Map.empty)" demo_entity] demo_admissible
  by (simp add: demo_state_def demo_world_def demo_cs_def demo_entity_def)

lemma memory_lost_acknowledgement_witness:
  "\<exists>s1 ob s2 a s3.
      gw_apply demo_service demo_cs (demo_state (demo_world [''k'' \<mapsto> BeforeEffect])) =
        (Inr (gw_uncertain demo_engine demo_cs ''1''), s1)
      \<and> gw_reconcile demo_service demo_cs s1 = (Inr ob, s2)
      \<and> ob_effect_status ob = EffNoEffect
      \<and> gw_apply demo_service demo_cs s2 = (Inr a, s3) \<and> at_effect_status a = EffApplied"
  using memory_lost_acknowledgement [of demo_engine demo_verify demo_reserve demo_clock demo_cs
      "demo_state (demo_world [''k'' \<mapsto> BeforeEffect])" demo_entity BeforeEffect, OF demo_admissible]
  by (simp add: demo_state_def demo_world_def demo_cs_def demo_entity_def) blast

text \<open>The first apply of the change set, in a world that loses its acknowledgement or not.\<close>

lemma demo_apply:
  assumes "mem_apply demo_engine demo_cs ''1'' (demo_world u) = (ans, w')"
  shows "\<exists>s'. gw_apply demo_service demo_cs (demo_state (demo_world u)) =
           (effect_answer demo_engine demo_cs ''1'' ans, s')
         \<and> world s' = w' \<and> unresolved s' = unresolved_after demo_cs ans Map.empty"
  using memory_apply_evaluates [of demo_engine demo_verify demo_reserve demo_clock demo_cs
      "demo_state (demo_world u)" demo_entity ans w'] demo_admissible assms
  by (simp add: demo_state_def demo_world_def demo_cs_def demo_entity_def)

lemma memory_at_most_once_witness:
  "\<exists>s. memory_history demo_service s [''k''] \<and> dom (effects (world s)) = {''k''}"
proof -
  let ?s = "demo_state (demo_world Map.empty)"
  obtain a w' where eff: "mem_apply demo_engine demo_cs ''1'' (demo_world Map.empty) = (Inr a, w')"
    and com: "mem_committed demo_engine demo_cs ''1'' (mem_source (demo_world Map.empty)) (mem_source w')"
    using mem_apply_plain [of "demo_world Map.empty" demo_cs demo_entity "''1''" demo_engine]
    by (auto simp: demo_world_def demo_cs_def demo_entity_def)
  from com have "effects w' ''k'' \<noteq> None"
    by (simp add: demo_world_def demo_cs_def mem_source_def split: option.splits)
  then have "mem_source w' \<noteq> mem_source (demo_world Map.empty)"
    by (auto simp: mem_source_eq demo_world_def)
  moreover have start: "memory_history demo_service ?s []"
    by (intro hist_start) (simp_all add: demo_state_def demo_world_def)
  ultimately have hist: "memory_history demo_service (snd (gw_apply demo_service demo_cs ?s)) [''k'']"
    using hist_apply [OF start refl, of demo_cs] demo_apply [OF eff]
    by (elim exE conjE) (simp add: demo_state_def demo_cs_def)
  let ?t = "snd (gw_apply demo_service demo_cs ?s)"
  have "dom (effects (world ?t)) = {''k''}" using memory_at_most_once [OF hist] by simp
  with hist show ?thesis by blast
qed

lemma unresolved_blocks_apply_witness:
  "\<exists>e s' evs. gw_apply demo_service demo_cs
       ((demo_state (demo_world Map.empty))\<lparr>unresolved := [''k'' \<mapsto> ''d'']\<rparr>) = (Inl e, s')
     \<and> log s' = evs \<and> (evs = [] \<or> (\<exists>t. evs = [EvClock t])) \<and> unresolved s' = [''k'' \<mapsto> ''d'']"
  using unresolved_blocks_apply [of "(demo_state (demo_world Map.empty))\<lparr>unresolved := [''k'' \<mapsto> ''d'']\<rparr>"
      demo_cs "''d''" demo_service]
  by (simp add: demo_state_def demo_cs_def)

lemma service_run_safe_witness:
  "\<exists>s :: memory gstate. service_run demo_service s \<and> unresolved s = [''k'' \<mapsto> ''d'']
     \<and> fold track (log s) {} = {''k''} \<and> safe_log {} (log s)"
proof -
  let ?w = "demo_world [''k'' \<mapsto> BeforeEffect]"
  obtain ans w' where eff: "mem_apply demo_engine demo_cs ''1'' ?w = (ans, w')"
    by (cases "mem_apply demo_engine demo_cs ''1'' ?w")
  have "\<exists>m. ans = Inl (OutcomeUncertainError m)"
    by (rule mem_apply_lost(1) [OF _ _ _ _ eff, of BeforeEffect demo_entity])
      (simp_all add: demo_world_def demo_cs_def demo_entity_def)
  then obtain m where ans: "ans = Inl (OutcomeUncertainError m)" ..
  obtain s' where "gw_apply demo_service demo_cs (demo_state ?w) =
        (effect_answer demo_engine demo_cs ''1'' ans, s')"
      "unresolved s' = unresolved_after demo_cs ans Map.empty"
    using demo_apply [OF eff] by blast
  moreover have "unresolved_after demo_cs ans Map.empty = [''k'' \<mapsto> ''d'']"
    unfolding ans by (simp add: unresolved_after_def demo_cs_def)
  ultimately have u: "unresolved (snd (gw_apply demo_service demo_cs (demo_state ?w))) = [''k'' \<mapsto> ''d'']"
    by simp
  have run: "service_run demo_service (snd (gw_apply demo_service demo_cs (demo_state ?w)))"
    by (intro run_apply run_start) (simp_all add: demo_state_def)
  let ?s = "snd (gw_apply demo_service demo_cs (demo_state ?w))"
  have d: "dom (unresolved ?s) = {''k''}" unfolding u by simp
  note safe = service_run_safe [OF run, unfolded d]
  show ?thesis by (rule exI [of _ ?s], intro conjI run u)
    (rule safe [THEN conjunct1, symmetric], rule safe [THEN conjunct2])
qed

end
