(* ===== verification/WB_Recovery.thy ===== *)
theory WB_Recovery
  imports WB_Service
begin

text \<open>
  The restart state of a change set, replayed from its append-only receipts:
  \<^verbatim>\<open>writeback/recovery.py\<close>, the page of \<^verbatim>\<open>_transport_common.py\<close> and the ledger port of
  \<^verbatim>\<open>ports/writeback_ledger.py\<close>.
\<close>

section \<open>Receipts\<close>

text \<open>The fields a ledger adds to an attempt or an observation when it records it.\<close>

record receipt_meta =
  rm_actor :: string
  rm_authorization :: auth_decision
  rm_policy_digest :: string
  rm_receipt_id :: string
  rm_recorded_at_ms :: int
  rm_schema_version :: int
  rm_sequence :: int

datatype receipt_record =
    AttemptRecord attempt receipt_meta
  | ReconciliationRecord observation receipt_meta

fun receipt_meta_of :: "receipt_record \<Rightarrow> receipt_meta" where
  "receipt_meta_of (AttemptRecord a m) = m"
| "receipt_meta_of (ReconciliationRecord ob m) = m"

abbreviation receipt_sequence :: "receipt_record \<Rightarrow> int" where
  "receipt_sequence r \<equiv> rm_sequence (receipt_meta_of r)"

record receipt_page =
  rp_receipts :: "receipt_record list"
  rp_next :: "int option"

text \<open>\<open>after_sequence or 0\<close>, then the records strictly after it, at most \<open>limit\<close> of them.\<close>

definition receipt_page_of :: "receipt_record list \<Rightarrow> int option \<Rightarrow> nat \<Rightarrow> receipt_page" where
  "receipt_page_of records after_sequence limit =
     (let after = (case after_sequence of None \<Rightarrow> 0 | Some a \<Rightarrow> a);
          remaining = filter (\<lambda>r. after < receipt_sequence r) records;
          selected = take limit remaining
      in \<lparr>rp_receipts = selected,
          rp_next = (if limit < length remaining then Some (receipt_sequence (last selected))
                     else None)\<rparr>)"

section \<open>Replay\<close>

datatype recovery_state = Fresh | Retryable | Uncertain | Applied

fun attempt_state :: "wb_outcome \<Rightarrow> effect_status \<Rightarrow> recovery_state option" where
  "attempt_state OutApplied EffApplied = Some Applied"
| "attempt_state OutUncertain EffUncertain = Some Uncertain"
| "attempt_state _ _ = None"

text \<open>A status outside the three of the table is \<open>KeyError\<close>.\<close>

fun reconciliation_state :: "effect_status \<Rightarrow> wb_exc + recovery_state" where
  "reconciliation_state EffNoEffect = Inr Retryable"
| "reconciliation_state EffApplied = Inr Applied"
| "reconciliation_state EffUncertain = Inr Uncertain"
| "reconciliation_state (EffOther s) = Inl (KeyError s)"

definition require_receipt_identity ::
  "change_set \<Rightarrow> string \<times> string \<times> string \<times> string \<Rightarrow> wb_exc + unit" where
  "require_receipt_identity cs observed =
     refuse_if (observed \<noteq> (tenant_id cs, change_set_id cs, change_set_digest cs, idempotency_key cs))
       (WriteBackPersistenceError ''durable receipt identity mismatch'')"

definition require_attempt_receipt ::
  "engine \<Rightarrow> change_set \<Rightarrow> attempt \<Rightarrow> receipt_meta \<Rightarrow> wb_exc + unit" where
  "require_attempt_receipt g cs r m =
     andR (require_receipt_identity cs
            (at_tenant_id r, at_change_set_id r, at_change_set_digest r, at_idempotency_key r))
     (let binding_matches =
            (rm_authorization m = authorization cs \<and> rm_policy_digest m = policy_digest cs
             \<and> at_input_digest r = input_digest (authorization cs)
             \<and> at_output_digest r = output_digest (authorization cs)
             \<and> applied_field_digest r = patch_digest g cs \<and> at_kind r = KindApply)
      in refuse_if (\<not> binding_matches \<or> attempt_state (at_outcome r) (at_effect_status r) = None)
           (WriteBackPersistenceError ''durable attempt receipt binding mismatch''))"

definition require_reconciliation_receipt ::
  "change_set \<Rightarrow> observation \<Rightarrow> receipt_meta \<Rightarrow> wb_exc + unit" where
  "require_reconciliation_receipt cs r m =
     andR (require_receipt_identity cs
            (ob_tenant_id r, ob_change_set_id r, ob_change_set_digest r, ob_idempotency_key r))
     (let retry_forbidden = ob_effect_status r \<in> {EffApplied, EffUncertain};
          binding_matches =
            (rm_authorization m = authorization cs \<and> rm_policy_digest m = policy_digest cs
             \<and> (\<not> retry_forbidden \<or> \<not> retry_allowed r)
             \<and> (ob_effect_status r \<noteq> EffNoEffect \<or> retry_allowed r))
      in refuse_if (\<not> binding_matches)
           (WriteBackPersistenceError ''durable reconciliation receipt binding mismatch''))"

fun record_state :: "engine \<Rightarrow> change_set \<Rightarrow> receipt_record \<Rightarrow> wb_exc + recovery_state" where
  "record_state g cs (AttemptRecord r m) =
     andR (require_attempt_receipt g cs r m)
       (case attempt_state (at_outcome r) (at_effect_status r) of
          None \<Rightarrow> Inl (KeyError ''outcome'')
        | Some st \<Rightarrow> Inr st)"
| "record_state g cs (ReconciliationRecord r m) =
     andR (require_reconciliation_receipt cs r m) (reconciliation_state (ob_effect_status r))"

text \<open>\<open>_consume_page\<close>: the loop over the receipts of one page.\<close>

fun consume_page ::
  "engine \<Rightarrow> change_set \<Rightarrow> receipt_record list \<Rightarrow> recovery_state \<Rightarrow> int
   \<Rightarrow> wb_exc + recovery_state \<times> int" where
  "consume_page g cs [] st last_seq = Inr (st, last_seq)"
| "consume_page g cs (r # rs) st last_seq =
     andR (refuse_if (receipt_sequence r \<le> last_seq)
            (WriteBackPersistenceError ''EG receipt sequence is not strictly increasing''))
     (bindR (record_state g cs r) (\<lambda>next_state.
      andR (refuse_if (st = Applied \<and> next_state \<noteq> st)
             (WriteBackPersistenceError ''durable applied receipt cannot be reversed''))
        (consume_page g cs rs next_state (receipt_sequence r))))"

lemma consume_page_append:
  "consume_page g cs (rs @ qs) st n =
     bindR (consume_page g cs rs st n) (\<lambda>(st', n'). consume_page g cs qs st' n')"
proof (induction rs arbitrary: st n)
  case (Cons r rs)
  then show ?case
    by (cases "record_state g cs r") (auto simp: refuse_if_def)
qed simp

lemma consume_page_applied:
  "consume_page g cs rs Applied n = Inr (st, m) \<Longrightarrow> st = Applied"
  by (induction rs arbitrary: n) (auto simp: result_iff refuse_if_def split: if_splits)

text \<open>
  The ledger port. \<open>l_receipts cs after limit\<close> is the page request for the change set's tenant
  and identity.
\<close>

record 'w ledger =
  l_create :: "change_set \<Rightarrow> ('w, change_set) port"
  l_get :: "string \<Rightarrow> string \<Rightarrow> ('w, change_set option) port"
  l_record_attempt :: "attempt \<Rightarrow> ('w, receipt_record) port"
  l_record_reconciliation :: "observation \<Rightarrow> ('w, receipt_record) port"
  l_receipts :: "string \<Rightarrow> string \<Rightarrow> int option \<Rightarrow> nat \<Rightarrow> ('w, receipt_page) port"

definition receipt_page_limit :: nat where
  "receipt_page_limit = 256"

text \<open>
  \<open>_receipt_recovery_state\<close>. Nothing bounds the number of pages a ledger may answer, so the loop
  has a bound: a run of more pages than the bound is cut there, as by a kill of the process.
\<close>

fun recovery_loop ::
  "engine \<Rightarrow> 'w ledger \<Rightarrow> change_set \<Rightarrow> nat \<Rightarrow> int option \<Rightarrow> recovery_state \<Rightarrow> int
   \<Rightarrow> ('w, recovery_state) port" where
  "recovery_loop g L cs 0 after st last_seq w = (Inl Interrupt, w)"
| "recovery_loop g L cs (Suc n) after st last_seq w =
     (case l_receipts L (tenant_id cs) (change_set_id cs) after receipt_page_limit w of
        (Inl e, w') \<Rightarrow> (Inl e, w')
      | (Inr page, w') \<Rightarrow>
          (case consume_page g cs (rp_receipts page) st last_seq of
             Inl e \<Rightarrow> (Inl e, w')
           | Inr (st', last') \<Rightarrow>
               (case rp_next page of
                  None \<Rightarrow> (Inr st', w')
                | Some nxt \<Rightarrow>
                    if rp_receipts page = [] \<or> nxt \<noteq> last' then
                      (Inl (WriteBackPersistenceError ''EG receipt continuation is not page-bound''), w')
                    else recovery_loop g L cs n (Some nxt) st' last' w')))"

definition recovery_state_of ::
  "engine \<Rightarrow> 'w ledger \<Rightarrow> nat \<Rightarrow> change_set \<Rightarrow> ('w, recovery_state) port" where
  "recovery_state_of g L bound cs = recovery_loop g L cs bound None Fresh 0"

text \<open>
  The reference: one pass over the whole stream.
\<close>

definition final_state :: "wb_exc + recovery_state \<times> int \<Rightarrow> wb_exc + recovery_state" where
  "final_state r = bindR r (\<lambda>(st, n). Inr st)"

lemma final_state_simps [simp]:
  "final_state (Inl e) = Inl e" "final_state (Inr (st, n)) = Inr st"
  by (simp_all add: final_state_def)

definition replay :: "engine \<Rightarrow> change_set \<Rightarrow> receipt_record list \<Rightarrow> wb_exc + recovery_state" where
  "replay g cs rs = final_state (consume_page g cs rs Fresh 0)"

section \<open>What a ledger promises\<close>

text \<open>
  \<open>stream w\<close> is the change set's append-only stream. A ledger answers page requests from it,
  without changing the world. Its sequence numbers are positive and strictly increasing.
\<close>

definition increasing_from :: "int \<Rightarrow> receipt_record list \<Rightarrow> bool" where
  "increasing_from n rs \<longleftrightarrow> sorted_wrt (<) (n # map receipt_sequence rs)"

locale receipt_ledger =
  fixes L :: "'w ledger" and holds :: "'w \<Rightarrow> string \<Rightarrow> string \<Rightarrow> bool"
    and stream :: "'w \<Rightarrow> receipt_record list"
  assumes receipts_page: "holds w t c \<Longrightarrow>
      l_receipts L t c after limit w = (Inr (receipt_page_of (stream w) after limit), w)"
    and stream_increasing: "holds w t c \<Longrightarrow> increasing_from 0 (stream w)"
begin

lemma later_records:
  assumes "stream w = pre @ rest" "increasing_from 0 (pre @ rest)"
    and "n = (if pre = [] then 0 else receipt_sequence (last pre))"
  shows "filter (\<lambda>r. n < receipt_sequence r) (stream w) = rest"
proof -
  have inc: "sorted_wrt (<) (map receipt_sequence (pre @ rest))" "\<forall>r \<in> set (pre @ rest). 0 < receipt_sequence r"
    using assms(2) by (auto simp: increasing_from_def)
  have "receipt_sequence r \<le> n" if mem: "r \<in> set pre" for r
  proof -
    obtain q x where q: "pre = q @ [x]" using mem by (cases pre rule: rev_cases) auto
    from inc(1) have "sorted_wrt (<) (map receipt_sequence q @ [receipt_sequence x])"
      by (simp add: q sorted_wrt_append)
    moreover have "n = receipt_sequence x" using assms(3) by (simp add: q)
    ultimately show ?thesis using mem by (auto simp: q sorted_wrt_append)
  qed
  moreover have "n < receipt_sequence r" if "r \<in> set rest" for r
    using inc assms(3) that by (cases "pre = []") (auto simp: sorted_wrt_append)
  ultimately show ?thesis unfolding assms(1)
    by (simp add: filter_empty_conv filter_id_conv not_less)
qed

lemma recovery_loop_replays:
  assumes "holds w (tenant_id cs) (change_set_id cs)"
    and "stream w = pre @ rest"
    and "consume_page g cs pre Fresh 0 = Inr (st, n)"
    and "after = (if pre = [] then None else Some n)"
    and "length rest div receipt_page_limit < bound"
  shows "recovery_loop g L cs bound after st n w = (final_state (consume_page g cs rest st n), w)"
  using assms
proof (induction bound arbitrary: pre rest st n after)
  case (Suc bound)
  have inc: "increasing_from 0 (pre @ rest)" using stream_increasing [OF Suc.prems(1)] Suc.prems(2) by simp
  have n: "n = (if pre = [] then 0 else receipt_sequence (last pre))"
  proof (cases pre rule: rev_cases)
    case Nil
    then show ?thesis using Suc.prems(3) by simp
  next
    case (snoc q x)
    then show ?thesis using Suc.prems(3)
      by (auto simp: consume_page_append result_iff)
  qed
  let ?sel = "take receipt_page_limit rest"
  have page: "receipt_page_of (stream w) after receipt_page_limit =
      \<lparr>rp_receipts = ?sel, rp_next = (if receipt_page_limit < length rest
         then Some (receipt_sequence (last ?sel)) else None)\<rparr>"
    using later_records [OF Suc.prems(2) inc n] Suc.prems(3,4)
    by (auto simp: receipt_page_of_def Let_def)
  have split: "consume_page g cs rest st n =
      bindR (consume_page g cs ?sel st n) (\<lambda>(st', n'). consume_page g cs (drop receipt_page_limit rest) st' n')"
    by (metis append_take_drop_id consume_page_append)
  show ?case
  proof (cases "consume_page g cs ?sel st n")
    case (Inl e)
    with split show ?thesis by (simp add: receipts_page Suc.prems(1) page)
  next
    case (Inr p)
    obtain st' n' where p: "p = (st', n')" by (cases p)
    show ?thesis
    proof (cases "receipt_page_limit < length rest")
      case False
      then have "drop receipt_page_limit rest = []" by simp
      with split Inr p False show ?thesis by (simp add: receipts_page Suc.prems(1) page)
    next
      case True
      then have ne: "?sel \<noteq> []" by (auto simp: receipt_page_limit_def)
      then obtain q x where sel: "?sel = q @ [x]" by (metis rev_exhaust)
      then have last': "n' = receipt_sequence (last ?sel)"
        using Inr p by (auto simp: consume_page_append result_iff)
      have "recovery_loop g L cs bound (Some n') st' n' w =
          (final_state (consume_page g cs (drop receipt_page_limit rest) st' n'), w)"
      proof (rule Suc.IH [of "pre @ ?sel"])
        show "consume_page g cs (pre @ ?sel) Fresh 0 = Inr (st', n')"
          using Suc.prems(3) Inr p by (simp add: consume_page_append)
        show "length (drop receipt_page_limit rest) div receipt_page_limit < bound"
          using Suc.prems(5) True by (simp add: receipt_page_limit_def div_if)
      qed (use Suc.prems(1,2) ne in simp_all)
      with split Inr p True ne last' show ?thesis
        by (simp add: receipts_page Suc.prems(1) page)
    qed
  qed
qed simp

text \<open>Reading page by page is reading the whole stream, with one page more than it fills.\<close>

lemma recovery_replays:
  assumes "holds w (tenant_id cs) (change_set_id cs)" "length (stream w) div receipt_page_limit < bound"
  shows "recovery_state_of g L bound cs w = (replay g cs (stream w), w)"
  unfolding recovery_state_of_def replay_def
  by (rule recovery_loop_replays [of _ _ "[]"]) (use assms in simp_all)

end

text \<open>\<open>replay\<close> of a longer stream, and what its answers mean.\<close>

definition receipt_bound :: "engine \<Rightarrow> change_set \<Rightarrow> receipt_record \<Rightarrow> bool" where
  "receipt_bound g cs r \<longleftrightarrow> (\<exists>st. record_state g cs r = Inr st)"

lemma consume_page_bound:
  "consume_page g cs rs st n = Inr (st', n') \<Longrightarrow>
     list_all (receipt_bound g cs) rs \<and> increasing_from n rs
     \<and> (rs = [] \<longrightarrow> st' = st \<and> n' = n)
     \<and> (rs \<noteq> [] \<longrightarrow> record_state g cs (last rs) = Inr st' \<and> n' = receipt_sequence (last rs))"
proof (induction rs arbitrary: st n)
  case (Cons r rs)
  then obtain st1 where r: "record_state g cs r = Inr st1" "n < receipt_sequence r"
    and rest: "consume_page g cs rs st1 (receipt_sequence r) = Inr (st', n')"
    by (auto simp: result_iff refuse_if_def split: if_splits)
  from Cons.IH [OF rest] r show ?case
    by (cases "rs = []") (auto simp: increasing_from_def receipt_bound_def)
qed (simp add: increasing_from_def)

lemma replay_append:
  "replay g cs rs = Inr st \<Longrightarrow> replay g cs (rs @ qs) = Inr st' \<Longrightarrow> st = Applied \<Longrightarrow> st' = Applied"
  unfolding replay_def
  by (cases "consume_page g cs rs Fresh 0")
    (auto simp: consume_page_append final_state_def result_iff dest: consume_page_applied)

end
