(* ===== verification/WB_File.thy ===== *)
theory WB_File
  imports WB_Memory WB_Recovery
begin

text \<open>
  The file-backed transport and ledger: \<^verbatim>\<open>writeback/durable_files.py\<close>,
  \<^verbatim>\<open>writeback/durable_transport.py\<close> and \<^verbatim>\<open>writeback/durable_ledger.py\<close>. The disk holds the
  four JSON files as the values they parse to; a missing file is an empty map, an empty list or no
  change set, which is how the code reads it. \<open>os.replace\<close> is atomic, so a write of one file is one
  step; the two writes of \<open>apply\<close> are two.
\<close>

section \<open>The disk\<close>

record disk =
  disk_entities :: "string \<rightharpoonup> string \<times> (string, json) dict"
  disk_effects :: "string \<rightharpoonup> attempt"
  disk_change_set :: "change_set option"
  disk_receipts :: "receipt_record list"

section \<open>The transport\<close>

definition file_seed :: "string \<Rightarrow> string \<Rightarrow> (string, json) dict \<Rightarrow> disk \<Rightarrow> disk" where
  "file_seed entity version vals d =
     d\<lparr>disk_entities := (disk_entities d)(entity \<mapsto> (version, vals))\<rparr>"

definition file_snapshot :: "string \<Rightarrow> disk \<Rightarrow> wb_exc + snapshot" where
  "file_snapshot entity d =
     (case disk_entities d entity of
        None \<Rightarrow> Inl (KeyError entity)
      | Some (v, f) \<Rightarrow> Inr \<lparr>source_version = v, sn_fields = f, sn_observation = []\<rparr>)"

definition file_read :: "change_set \<Rightarrow> (disk, snapshot) port" where
  "file_read cs d = (file_snapshot (entity_id cs) d, d)"

definition file_preview :: "engine \<Rightarrow> change_set \<Rightarrow> snapshot \<Rightarrow> (disk, dry_run_observation) port" where
  "file_preview g cs current d = (Inr (preview_observation g cs current), d)"

definition file_prior_effect :: "engine \<Rightarrow> change_set \<Rightarrow> (disk, attempt option) port" where
  "file_prior_effect g cs d =
     (case disk_effects d (idempotency_key cs) of
        None \<Rightarrow> (Inr None, d)
      | Some e \<Rightarrow> (map_sum id Some (check_prior_effect g e cs), d))"

definition file_write_effect :: "change_set \<Rightarrow> attempt \<Rightarrow> disk \<Rightarrow> disk" where
  "file_write_effect cs a d = d\<lparr>disk_effects := (disk_effects d)(idempotency_key cs \<mapsto> a)\<rparr>"

text \<open>The attempt and the patched fields that \<open>apply\<close> computes from the current snapshot.\<close>

definition file_patched :: "change_set \<Rightarrow> snapshot \<Rightarrow> (string, json) dict" where
  "file_patched cs current = dict_update (sn_fields current) (desired_patch cs)"

definition file_attempt :: "engine \<Rightarrow> change_set \<Rightarrow> snapshot \<Rightarrow> attempt" where
  "file_attempt g cs current =
     (let post = source_version current @ ''+1'' in
      applied_attempt g cs (source_version current) post
        (json_digest g (JObj [(''fields'', JObj (file_patched cs current)), (''v'', JStr post)])))"

definition file_apply :: "engine \<Rightarrow> change_set \<Rightarrow> string \<Rightarrow> (disk, attempt) port" where
  "file_apply g cs expected d =
     (case file_snapshot (entity_id cs) d of
        Inl e \<Rightarrow> (Inl e, d)
      | Inr current \<Rightarrow>
          if source_version current \<noteq> expected then
            (Inl (SourceVersionConflictError ''source changed during compare-and-apply''), d)
          else
            let d1 = file_seed (entity_id cs) (source_version current @ ''+1'') (file_patched cs current) d;
                a = file_attempt g cs current
            in (Inr a, file_write_effect cs a d1))"

text \<open>The disk when the process is killed after the first of the two writes.\<close>

definition file_apply_killed :: "change_set \<Rightarrow> string \<Rightarrow> disk \<Rightarrow> disk" where
  "file_apply_killed cs expected d =
     (case file_snapshot (entity_id cs) d of
        Inl e \<Rightarrow> d
      | Inr current \<Rightarrow>
          if source_version current \<noteq> expected then d
          else file_seed (entity_id cs) (source_version current @ ''+1'') (file_patched cs current) d)"

definition file_reconcile :: "engine \<Rightarrow> change_set \<Rightarrow> (disk, observation) port" where
  "file_reconcile g cs d =
     (let effect = disk_effects d (idempotency_key cs) in
      case file_snapshot (entity_id cs) d of
        Inl e \<Rightarrow> (Inl e, d)
      | Inr current \<Rightarrow>
          (Inr (reconciliation_observation g cs current
                  (if effect \<noteq> None then EffApplied else EffNoEffect)), d))"

definition file_transport :: "engine \<Rightarrow> disk transport" where
  "file_transport g =
     \<lparr>t_read_current = file_read, t_preview = file_preview g, t_prior_effect = file_prior_effect g,
      t_apply = file_apply g, t_reconcile = file_reconcile g, t_prepare = None,
      t_apply_reserved = None\<rparr>"

section \<open>The ledger\<close>

definition receipt_meta_for :: "change_set \<Rightarrow> string \<Rightarrow> nat \<Rightarrow> receipt_meta" where
  "receipt_meta_for cs receipt_id n =
     \<lparr>rm_actor = actor cs, rm_authorization = authorization cs, rm_policy_digest = policy_digest cs,
      rm_receipt_id = receipt_id, rm_recorded_at_ms = 0, rm_schema_version = schema_version cs,
      rm_sequence = int n + 1\<rparr>"

definition file_create :: "change_set \<Rightarrow> (disk, change_set) port" where
  "file_create cs d =
     (case disk_change_set d of
        None \<Rightarrow> (Inr cs, d\<lparr>disk_change_set := Some cs\<rparr>)
      | Some existing \<Rightarrow>
          if existing \<noteq> cs then
            (Inl (WriteBackPersistenceError ''change-set identity conflict''), d)
          else (Inr cs, d))"

definition file_get :: "string \<Rightarrow> string \<Rightarrow> (disk, change_set option) port" where
  "file_get tenant ident d =
     (Inr (case disk_change_set d of
             None \<Rightarrow> None
           | Some cs \<Rightarrow> if (tenant_id cs, change_set_id cs) \<noteq> (tenant, ident) then None else Some cs),
      d)"

definition file_append ::
  "(change_set \<Rightarrow> nat \<Rightarrow> receipt_record) \<Rightarrow> (disk, receipt_record) port" where
  "file_append record_for d =
     (case disk_change_set d of
        None \<Rightarrow> (Inl (WriteBackPersistenceError ''no durable change set is registered''), d)
      | Some cs \<Rightarrow>
          let r = record_for cs (length (disk_receipts d))
          in (Inr r, d\<lparr>disk_receipts := disk_receipts d @ [r]\<rparr>))"

definition file_record_attempt :: "attempt \<Rightarrow> (disk, receipt_record) port" where
  "file_record_attempt a =
     file_append (\<lambda>cs n. AttemptRecord a (receipt_meta_for cs (''attempt:'' @ show_nat (n + 1)) n))"

definition file_record_reconciliation :: "observation \<Rightarrow> (disk, receipt_record) port" where
  "file_record_reconciliation ob =
     file_append (\<lambda>cs n.
       ReconciliationRecord ob (receipt_meta_for cs (''reconciliation:'' @ show_nat (n + 1)) n))"

definition file_receipts ::
  "string \<Rightarrow> string \<Rightarrow> int option \<Rightarrow> nat \<Rightarrow> (disk, receipt_page) port" where
  "file_receipts tenant ident after limit d =
     (case disk_change_set d of
        None \<Rightarrow> (Inl (WriteBackPersistenceError ''no durable change set is registered''), d)
      | Some cs \<Rightarrow> (Inr (receipt_page_of (disk_receipts d) after limit), d))"

definition file_ledger :: "disk ledger" where
  "file_ledger =
     \<lparr>l_create = file_create, l_get = file_get, l_record_attempt = file_record_attempt,
      l_record_reconciliation = file_record_reconciliation, l_receipts = file_receipts\<rparr>"

section \<open>Both contracts hold\<close>

text \<open>The append-only stream as the ledger writes it: sequence numbers count from 1.\<close>

definition numbered :: "receipt_record list \<Rightarrow> bool" where
  "numbered rs \<longleftrightarrow> map receipt_sequence rs = map (\<lambda>n. int n + 1) [0..<length rs]"

lemma numbered_increasing: "numbered rs \<Longrightarrow> increasing_from 0 rs"
  unfolding numbered_def increasing_from_def
  by (simp add: sorted_wrt_map sorted_wrt_mono_rel [OF _ sorted_wrt_upt])

lemma numbered_snoc: "numbered rs \<Longrightarrow> receipt_sequence r = int (length rs) + 1 \<Longrightarrow> numbered (rs @ [r])"
  by (simp add: numbered_def)

definition file_ready :: "disk \<Rightarrow> string \<Rightarrow> string \<Rightarrow> bool" where
  "file_ready d t c \<longleftrightarrow> disk_change_set d \<noteq> None \<and> numbered (disk_receipts d)"

interpretation file_receipt_ledger: receipt_ledger file_ledger file_ready disk_receipts
  by unfold_locales
    (auto simp: file_ready_def file_ledger_def file_receipts_def numbered_increasing)

definition file_source :: "disk \<Rightarrow> (string \<rightharpoonup> string \<times> (string, json) dict) \<times> (string \<rightharpoonup> attempt)" where
  "file_source d = (disk_entities d, disk_effects d)"

fun file_landed ::
  "(string \<rightharpoonup> string \<times> (string, json) dict) \<times> (string \<rightharpoonup> attempt) \<Rightarrow> string \<Rightarrow> string option" where
  "file_landed (es, fs) = map_option at_change_set_digest \<circ> fs"

fun file_committed ::
  "engine \<Rightarrow> change_set \<Rightarrow> string
   \<Rightarrow> (string \<rightharpoonup> string \<times> (string, json) dict) \<times> (string \<rightharpoonup> attempt)
   \<Rightarrow> (string \<rightharpoonup> string \<times> (string, json) dict) \<times> (string \<rightharpoonup> attempt) \<Rightarrow> bool" where
  "file_committed g cs v (es, fs) (es', fs') \<longleftrightarrow>
     (case es (entity_id cs) of
        None \<Rightarrow> False
      | Some (v', f) \<Rightarrow>
          let current = \<lparr>source_version = v, sn_fields = f, sn_observation = []\<rparr> in
          v' = v \<and> es' = es(entity_id cs \<mapsto> (v @ ''+1'', file_patched cs current))
          \<and> fs' = fs(idempotency_key cs \<mapsto> file_attempt g cs current))"

lemma file_attempt_bound: "effect_bound g cs (file_attempt g cs c)"
  by (simp add: file_attempt_def Let_def)

lemma file_attempt_digest: "at_change_set_digest (file_attempt g cs c) = change_set_digest cs"
  by (simp add: file_attempt_def Let_def)

lemma file_apply_cases:
  assumes "file_apply g cs v d = (res, d')"
  shows "(\<exists>a. res = Inr a \<and> effect_bound g cs a) \<and> file_committed g cs v (file_source d) (file_source d')
     \<or> (\<exists>e. res = Inl e) \<and> d' = d"
  using assms
  by (auto simp: file_apply_def file_snapshot_def file_source_def file_seed_def file_write_effect_def
      Let_def file_attempt_bound split: option.splits if_splits)

interpretation file_effects: effect_source "file_transport g" file_source file_landed "file_committed g"
proof (unfold_locales, goal_cases)
  case (8 cs v x x')
  then show ?case
    by (cases x; cases x') (auto simp: lands_def fun_eq_iff file_attempt_digest Let_def split: option.splits)
next
  case (9 cs v r w res w')
  then show ?case
    using file_apply_cases [of g cs v w res w'] by (auto simp: file_transport_def effect_port_def)
next
  case (10 cs v r w a w')
  then show ?case
    using file_apply_cases [of g cs v w "Inr a" w'] by (auto simp: file_transport_def effect_port_def)
next
  case (11 cs v r w e w')
  then show ?case
    using file_apply_cases [of g cs v w "Inl e" w'] by (auto simp: file_transport_def effect_port_def)
qed (auto simp: file_transport_def file_read_def file_preview_def file_prior_effect_def
    file_reconcile_def file_source_def check_prior_effect_def refuse_if_def Let_def
    reconciliation_observation_def split: option.splits sum.splits if_splits)

lemma file_honest: "honest_effects (file_transport g) g"
  unfolding honest_effects_def effect_port_def
  using file_apply_cases by (fastforce simp: file_transport_def)

end
