(* ===== verification/WB_Connector.thy ===== *)
theory WB_Connector
  imports WB_File
begin

text \<open>
  \<open>DurableWritableConnector\<close> of \<^verbatim>\<open>writeback/connector.py\<close> with the in-flight guard of
  \<^verbatim>\<open>writeback/inflight.py\<close>: the governed service behind a durable ledger. A process that dies
  loses the unresolved attempts and the claims; the world and its ledger stay.
\<close>

section \<open>The connector\<close>

text \<open>
  \<open>cn_bound\<close> is the page bound of the receipt replay. The ledger's calls are not logged: the log
  is the governed service's.
\<close>

record 'w connector =
  cn_id :: string
  cn_ledger :: "'w ledger"
  cn_governed :: "'w governed"
  cn_bound :: nat

record 'w cstate = "'w gstate" +
  inflight :: "(string \<times> string) set"

type_synonym ('w, 'a) cn_prog = "('w cstate, wb_exc, 'a) prog"

definition ledger_call :: "('w, 'a) port \<Rightarrow> ('w, 'a) cn_prog" where
  "ledger_call p = (\<lambda>s. case p (world s) of (r, w') \<Rightarrow> (r, s\<lparr>world := w'\<rparr>))"

lemma wp_ledger_call [wp_simps]:
  "wp (ledger_call p) Q E s =
     (case p (world s) of (r, w') \<Rightarrow>
        (case r of Inl e \<Rightarrow> E e (s\<lparr>world := w'\<rparr>) | Inr x \<Rightarrow> Q x (s\<lparr>world := w'\<rparr>)))"
  by (simp add: wp_def ledger_call_def split: prod.splits sum.splits)

text \<open>\<open>_InFlight.claim\<close> around a block; the block's end releases the key on every path.\<close>

definition claim_key :: "change_set \<Rightarrow> string \<times> string" where
  "claim_key cs = (tenant_id cs, idempotency_key cs)"

definition claim :: "change_set \<Rightarrow> ('w, 'a) cn_prog \<Rightarrow> ('w, 'a) cn_prog" where
  "claim cs body =
     bindP (getsP inflight) (\<lambda>keys.
       if claim_key cs \<in> keys then
         raiseP (WriteBackError ''write-back operation is already in flight'')
       else
         thenP (modifyP (\<lambda>s. s\<lparr>inflight := insert (claim_key cs) (inflight s)\<rparr>))
           (finallyP body (\<lambda>s. s\<lparr>inflight := inflight s - {claim_key cs}\<rparr>)))"

definition cn_require_connector :: "'w connector \<Rightarrow> change_set \<Rightarrow> wb_exc + unit" where
  "cn_require_connector C cs =
     refuse_if (connector_id cs \<noteq> cn_id C)
       (ChangeSetValidationError ''change set targets another connector'')"

definition require_durable :: "engine \<Rightarrow> change_set \<Rightarrow> change_set option \<Rightarrow> wb_exc + change_set" where
  "require_durable g cs durable =
     (case durable of
        None \<Rightarrow> Inl (WriteBackPersistenceError ''durable change set does not exist'')
      | Some d \<Rightarrow>
          andR (refuse_if (d \<noteq> cs \<or> change_set_digest d \<noteq> canonical_digest g d)
                 (WriteBackPersistenceError ''durable change-set binding mismatch''))
            (Inr d))"

lemma require_durable_iff [result_iff]:
  "require_durable g cs durable = Inr d \<longleftrightarrow>
     durable = Some cs \<and> d = cs \<and> change_set_digest cs = canonical_digest g cs"
  by (auto simp: require_durable_def result_iff split: option.splits)

definition cn_authoritative :: "'w connector \<Rightarrow> change_set \<Rightarrow> ('w, change_set) cn_prog" where
  "cn_authoritative C cs =
     thenP (liftP (cn_require_connector C cs))
     (bindP (ledger_call (l_get (cn_ledger C) (tenant_id cs) (change_set_id cs))) (\<lambda>durable.
      liftP (require_durable (gw_engine (cn_governed C)) cs durable)))"

definition cn_register :: "'w connector \<Rightarrow> change_set \<Rightarrow> ('w, change_set) cn_prog" where
  "cn_register C cs =
     thenP (liftP (cn_require_connector C cs))
     (bindP (ledger_call (l_create (cn_ledger C) cs)) (\<lambda>created.
      thenP (liftP (refuse_if (created \<noteq> cs)
               (WriteBackPersistenceError ''EG created a different change set'')))
      (returnP created)))"

definition cn_current_version :: "'w connector \<Rightarrow> change_set \<Rightarrow> ('w, snapshot) cn_prog" where
  "cn_current_version C cs = bindP (cn_authoritative C cs) (gw_current_version (cn_governed C))"

definition cn_dry_run :: "'w connector \<Rightarrow> change_set \<Rightarrow> ('w, dry_run_observation) cn_prog" where
  "cn_dry_run C cs = bindP (cn_authoritative C cs) (gw_dry_run (cn_governed C))"

definition cn_recovery_state :: "'w connector \<Rightarrow> change_set \<Rightarrow> ('w, recovery_state) cn_prog" where
  "cn_recovery_state C cs =
     ledger_call (recovery_state_of (gw_engine (cn_governed C)) (cn_ledger C) (cn_bound C) cs)"

text \<open>The applied branch of \<open>_apply\<close>: the receipt must have its effect at the source.\<close>

definition cn_recorded_effect :: "'w connector \<Rightarrow> change_set \<Rightarrow> ('w, attempt) cn_prog" where
  "cn_recorded_effect C cs =
     bindP (port_call EvPrior (t_prior_effect (gw_transport (cn_governed C)) cs)) (\<lambda>prior.
       case prior of
         None \<Rightarrow> raiseP (WriteBackPersistenceError
                  ''durable applied receipt has no matching source effect'')
       | Some effect \<Rightarrow>
           thenP (gw_authorize (cn_governed C) cs)
           (thenP (liftP (require_effect (gw_engine (cn_governed C)) cs effect)) (returnP effect)))"

definition cn_apply_fresh :: "'w connector \<Rightarrow> change_set \<Rightarrow> ('w, attempt) cn_prog" where
  "cn_apply_fresh C cs =
     bindP (gw_apply (cn_governed C) cs) (\<lambda>attempt.
     bindP (ledger_call (l_record_attempt (cn_ledger C) attempt)) (\<lambda>_. returnP attempt))"

definition cn_apply_body :: "'w connector \<Rightarrow> change_set \<Rightarrow> ('w, attempt) cn_prog" where
  "cn_apply_body C cs =
     bindP (cn_authoritative C cs) (\<lambda>durable.
     thenP (gw_authorize (cn_governed C) durable)
     (bindP (cn_recovery_state C durable) (\<lambda>st.
      case st of
        Uncertain \<Rightarrow> raiseP (ReconciliationRequiredError
                     ''durable uncertain outcome must reconcile before retry'')
      | Applied \<Rightarrow> cn_recorded_effect C durable
      | _ \<Rightarrow> cn_apply_fresh C durable)))"

definition cn_apply :: "'w connector \<Rightarrow> change_set \<Rightarrow> ('w, attempt) cn_prog" where
  "cn_apply C cs = claim cs (cn_apply_body C cs)"

definition cn_reconcile_body :: "'w connector \<Rightarrow> change_set \<Rightarrow> ('w, observation) cn_prog" where
  "cn_reconcile_body C cs =
     bindP (cn_authoritative C cs) (\<lambda>durable.
     bindP (cn_recovery_state C durable) (\<lambda>st.
       if st \<noteq> Uncertain then
         raiseP (ReconciliationRequiredError
           ''no durable uncertain outcome requires reconciliation'')
       else
         bindP (gw_reconcile (cn_governed C) durable) (\<lambda>ob.
         bindP (ledger_call (l_record_reconciliation (cn_ledger C) ob)) (\<lambda>_. returnP ob))))"

definition cn_reconcile :: "'w connector \<Rightarrow> change_set \<Rightarrow> ('w, observation) cn_prog" where
  "cn_reconcile C cs = claim cs (cn_reconcile_body C cs)"

section \<open>Claims\<close>

text \<open>A block that leaves the claims alone is claimed and released around.\<close>

definition claim_neutral :: "('w, 'a) cn_prog \<Rightarrow> bool" where
  "claim_neutral m \<longleftrightarrow> (\<forall>s. inflight (snd (m s)) = inflight s)"

named_theorems claim_rules

lemma claim_neutral_pure [claim_rules]:
  "claim_neutral (returnP x)" "claim_neutral (raiseP e)" "claim_neutral (liftP r)"
  "claim_neutral (getsP h)" "claim_neutral (port_call ev p)" "claim_neutral (ledger_call q)"
  by (auto simp: claim_neutral_def prog_defs port_call_def ledger_call_def split: sum.splits prod.splits)

lemma claim_neutral_bind [claim_rules]:
  assumes m: "claim_neutral m" and k: "\<And>x. claim_neutral (k x)"
  shows "claim_neutral (bindP m k)"
  using assms unfolding claim_neutral_def bindP_def
  by (auto split: prod.splits sum.splits) (metis snd_conv)+

lemma claim_neutral_then [claim_rules]: "claim_neutral m \<Longrightarrow> claim_neutral n \<Longrightarrow> claim_neutral (thenP m n)"
  unfolding thenP_def by (rule claim_neutral_bind)

lemma claim_neutral_catch [claim_rules]:
  assumes m: "claim_neutral m" and h: "\<And>e n. h e = Some n \<Longrightarrow> claim_neutral n"
  shows "claim_neutral (catchP m h)"
  using assms unfolding claim_neutral_def catchP_def
  by (auto split: prod.splits sum.splits option.splits) (metis snd_conv)+

lemma claim_neutral_modify [claim_rules]: "(\<And>s. inflight (h s) = inflight s) \<Longrightarrow> claim_neutral (modifyP h)"
  by (simp add: claim_neutral_def prog_defs)

lemma service_claim_neutral [claim_rules]:
  "claim_neutral (gw_validate g cs)" "claim_neutral (gw_authorize g cs)"
  "claim_neutral (gw_require_wallet_proof g cs)" "claim_neutral (gw_prepare g cs)"
  "claim_neutral (gw_current_version g cs)" "claim_neutral (gw_dry_run g cs)"
  "claim_neutral (gw_mark_unresolved cs)" "claim_neutral (gw_run_effect g cs c r)"
  "claim_neutral (gw_reconcile g cs)" "claim_neutral (gw_require_reconciled cs)"
  "claim_neutral (gw_admit g cs)"
proof -
  show v: "claim_neutral (gw_validate g cs)"
    unfolding gw_validate_def by (intro claim_rules)
  show "claim_neutral (gw_authorize g cs)"
    unfolding gw_authorize_def by (intro claim_rules v)
  show "claim_neutral (gw_require_wallet_proof g cs)"
    unfolding gw_require_wallet_proof_def
    by (auto split: option.splits if_splits intro!: claim_rules)
  show "claim_neutral (gw_prepare g cs)"
    unfolding gw_prepare_def by (auto split: option.splits intro!: claim_rules)
  show "claim_neutral (gw_current_version g cs)"
    unfolding gw_current_version_def by (intro claim_rules v)
  show "claim_neutral (gw_dry_run g cs)"
    unfolding gw_dry_run_def by (intro claim_rules v)
  show "claim_neutral (gw_mark_unresolved cs)"
    unfolding gw_mark_unresolved_def by (intro claim_rules) simp
  show "claim_neutral (gw_run_effect g cs c r)"
    unfolding gw_run_effect_def by (intro claim_rules)
  show "claim_neutral (gw_reconcile g cs)"
    unfolding gw_reconcile_def by (intro claim_rules v) simp
  show "claim_neutral (gw_require_reconciled cs)"
    unfolding gw_require_reconciled_def by (intro claim_rules)
  show "claim_neutral (gw_admit g cs)"
    unfolding gw_admit_def by (intro claim_rules)
qed

lemma apply_claim_neutral [claim_rules]: "claim_neutral (gw_apply g cs)"
proof -
  have "claim_neutral (gw_commit g cs c r)" for c r
    unfolding gw_commit_def
    by (intro claim_rules) (drule uncertain_handler, simp add: claim_rules)
  then have "claim_neutral (gw_apply_fresh g cs)"
    unfolding gw_apply_fresh_def by (intro claim_rules)
  then show ?thesis
    unfolding gw_apply_def by (intro claim_rules) (auto split: option.splits intro!: claim_rules)
qed

lemma body_claim_neutral [claim_rules]:
  "claim_neutral (cn_authoritative C cs)" "claim_neutral (cn_apply_body C cs)"
  "claim_neutral (cn_reconcile_body C cs)"
proof -
  show a: "claim_neutral (cn_authoritative C cs)" for cs
    unfolding cn_authoritative_def by (intro claim_rules)
  show "claim_neutral (cn_apply_body C cs)"
    unfolding cn_apply_body_def cn_recovery_state_def cn_recorded_effect_def cn_apply_fresh_def
    by (intro claim_rules a) (auto split: recovery_state.splits option.splits intro!: claim_rules)
  show "claim_neutral (cn_reconcile_body C cs)"
    unfolding cn_reconcile_body_def cn_recovery_state_def
    by (intro claim_rules a) (auto intro!: claim_rules)
qed

lemma claim_held:
  "claim_key cs \<in> inflight s \<Longrightarrow>
     claim cs body s = (Inl (WriteBackError ''write-back operation is already in flight''), s)"
  by (simp add: claim_def prog_defs)

lemma claim_free:
  assumes "claim_key cs \<notin> inflight s"
  shows "claim cs body s =
    (let (r, s') = body (s\<lparr>inflight := insert (claim_key cs) (inflight s)\<rparr>)
     in (r, s'\<lparr>inflight := inflight s' - {claim_key cs}\<rparr>))"
  using assms by (simp add: claim_def prog_defs split: prod.splits)

lemma claim_released:
  assumes "claim_neutral body"
  shows "inflight (snd (claim cs body s)) = inflight s"
proof (cases "claim_key cs \<in> inflight s")
  case False
  let ?t = "s\<lparr>inflight := insert (claim_key cs) (inflight s)\<rparr>"
  have "inflight (snd (body ?t)) = insert (claim_key cs) (inflight s)"
    using assms by (simp add: claim_neutral_def)
  with False show ?thesis by (simp add: claim_free case_prod_beta)
qed (simp add: claim_held)

end
