(* ===== verification/WB_Durable.thy ===== *)
theory WB_Durable
  imports WB_Connector
begin

text \<open>
  The connector's restart contract: over any governed source with a ledger beside it, then over the
  file-backed transport and ledger with the process killed at any call and restarted.
\<close>

section \<open>A connector over a governed source\<close>

lemma keeps_ledger [keeps_rules]: "(\<And>w. f (snd (p w)) = f w) \<Longrightarrow> keeps f (ledger_call p)"
  by (simp add: keeps_def ledger_call_def case_prod_beta)

lemma keeps_claim:
  assumes "keeps f body"
  shows "keeps f (claim cs body)"
  unfolding keeps_def
proof
  fix s
  show "f (world (snd (claim cs body s))) = f (world s)"
    using keepsD [OF assms, of "s\<lparr>inflight := insert (claim_key cs) (inflight s)\<rparr>"]
    by (cases "claim_key cs \<in> inflight s") (simp_all add: claim_held claim_free case_prod_beta)
qed

lemma wp_claim [wp_simps]:
  "wp (claim cs body) Q E s =
     (if claim_key cs \<in> inflight s
      then E (WriteBackError ''write-back operation is already in flight'') s
      else wp body (\<lambda>x s'. Q x (s'\<lparr>inflight := inflight s' - {claim_key cs}\<rparr>))
             (\<lambda>e s'. E e (s'\<lparr>inflight := inflight s' - {claim_key cs}\<rparr>))
             (s\<lparr>inflight := insert (claim_key cs) (inflight s)\<rparr>))"
  by (simp add: claim_def wp_simps)

lemma recovery_loop_keeps:
  assumes "\<And>t c a n w. f (snd (l_receipts L t c a n w)) = f w"
  shows "f (snd (recovery_loop g L cs bound after st n w)) = f w"
proof (induction bound arbitrary: after st n w)
  case (Suc bound)
  obtain r w1 where r: "l_receipts L (tenant_id cs) (change_set_id cs) after receipt_page_limit w = (r, w1)"
    by (cases "l_receipts L (tenant_id cs) (change_set_id cs) after receipt_page_limit w")
  have "f w1 = f w" using assms [of "tenant_id cs" "change_set_id cs" after receipt_page_limit w] r by simp
  then show ?case by (auto simp: r Suc.IH split: sum.splits prod.splits option.splits)
qed simp

text \<open>A ledger call in the middle of a program whose outcomes only look at \<open>f\<close>.\<close>

lemma wp_step:
  assumes "\<And>w. f (snd (p w)) = f w" "P (f (world s))"
  shows "wp (bindP (ledger_call p) (\<lambda>_. returnP x)) (\<lambda>_ s'. P (f (world s'))) (\<lambda>_ s'. P (f (world s'))) s"
proof -
  have "keeps f (bindP (ledger_call p) (\<lambda>_. returnP x))"
    by (intro keeps_rules keeps_ledger assms(1))
  from keeps_wp [OF this, of s] show ?thesis by (rule wp_mono) (simp_all add: assms(2))
qed

locale durable_source = governed_source T src landed commit g
  for T :: "'w transport" and src :: "'w \<Rightarrow> 's" and landed commit and g :: "'w governed" +
  fixes C :: "'w connector"
  assumes governed: "cn_governed C = g"
    and get_quiet: "src (snd (l_get (cn_ledger C) t c w)) = src w"
    and create_quiet: "src (snd (l_create (cn_ledger C) cs w)) = src w"
    and attempt_quiet: "src (snd (l_record_attempt (cn_ledger C) a w)) = src w"
    and reconciliation_quiet: "src (snd (l_record_reconciliation (cn_ledger C) ob w)) = src w"
    and receipts_quiet: "src (snd (l_receipts (cn_ledger C) t c n k w)) = src w"
begin

lemma authoritative_keeps: "keeps src (cn_authoritative C cs)"
  unfolding cn_authoritative_def by (intro keeps_rules) (rule get_quiet)

lemma recovery_keeps: "keeps src (cn_recovery_state C cs)"
  unfolding cn_recovery_state_def recovery_state_of_def
  by (intro keeps_rules recovery_loop_keeps receipts_quiet)

lemma register_keeps: "keeps src (cn_register C cs)"
  unfolding cn_register_def by (intro keeps_rules) (rule create_quiet)

lemma cn_current_keeps: "keeps src (cn_current_version C cs)"
  unfolding cn_current_version_def governed by (intro keeps_rules authoritative_keeps current_call_keeps)

lemma cn_dry_run_keeps: "keeps src (cn_dry_run C cs)"
  unfolding cn_dry_run_def governed by (intro keeps_rules authoritative_keeps dry_run_call_keeps)

lemma cn_reconcile_keeps: "keeps src (cn_reconcile C cs)"
proof -
  have "keeps src (cn_reconcile_body C cs)"
    unfolding cn_reconcile_body_def governed
    by (intro keeps_rules authoritative_keeps recovery_keeps)
      (auto intro!: keeps_rules reconcile_call_keeps reconciliation_quiet)
  then show ?thesis unfolding cn_reconcile_def by (rule keeps_claim)
qed

lemmas operations_keep = keepsD [OF register_keeps] keepsD [OF cn_reconcile_keeps]
  keepsD [OF cn_dry_run_keeps] keepsD [OF cn_current_keeps]

lemma recorded_effect_keeps: "keeps src (cn_recorded_effect C cs)"
  unfolding cn_recorded_effect_def governed transport
  by (intro keeps_rules prior_keeps) (auto split: option.splits intro!: keeps_rules authorize_keeps)

text \<open>Whatever \<open>_authoritative\<close> returns is the change set it was given.\<close>

lemma authoritative_wp:
  "wp (cn_authoritative C cs) (\<lambda>d s'. d = cs \<and> src (world s') = src (world s))
     (\<lambda>_ s'. src (world s') = src (world s)) s"
  using keeps_wp [OF authoritative_keeps [of cs], of s]
  by (auto simp: wp_simps cn_authoritative_def require_durable_def refuse_if_def
      split: prod.splits sum.splits option.splits if_splits)

lemma fresh_landing:
  "wp (cn_apply_fresh C cs) (\<lambda>_ s'. landing landed commit cs (src (world s)) (src (world s')))
     (\<lambda>_ s'. landing landed commit cs (src (world s)) (src (world s'))) s"
  unfolding cn_apply_fresh_def governed
  by (subst wp_bind, rule wp_mono [OF apply_lands])
    (auto simp: returned_def raised_def intro!: wp_step [where f = src] attempt_quiet)

lemma apply_body_landing:
  "wp (cn_apply_body C cs) (\<lambda>_ s'. landing landed commit cs (src (world s)) (src (world s')))
     (\<lambda>_ s'. landing landed commit cs (src (world s)) (src (world s'))) s"
  unfolding cn_apply_body_def wp_bind
proof (rule wp_mono [OF authoritative_wp], goal_cases)
  case A: (1 d s1)
  show ?case unfolding governed
  proof (rule keeps_then_wp [OF authorize_keeps], goal_cases)
    case B: (1 s2)
    show ?case
    proof (rule keeps_bind_wp [OF recovery_keeps], goal_cases)
      case D: (1 st s3)
      then have same: "src (world s3) = src (world s)" using A B by simp
      show ?case using A fresh_landing [of cs s3] keeps_wp [OF recorded_effect_keeps, of cs s3] same
        by (cases st) (auto simp: wp_simps elim!: wp_mono)
    qed (use A B in simp)
  qed (use A in simp)
qed simp

lemma cn_apply_landing:
  "landing landed commit cs (src (world s)) (src (world (snd (cn_apply C cs s))))"
proof -
  let ?t = "s\<lparr>inflight := insert (claim_key cs) (inflight s)\<rparr>"
  have "wp (cn_apply C cs) (\<lambda>_ s'. landing landed commit cs (src (world s)) (src (world s')))
      (\<lambda>_ s'. landing landed commit cs (src (world s)) (src (world s'))) s"
    using apply_body_landing [of cs ?t] by (simp add: cn_apply_def wp_claim)
  then show ?thesis by (simp only: wp_both)
qed

end

section \<open>The file-backed connector\<close>

text \<open>
  With the default verifier, which reads the durable change set back. The audit port and the clock
  leave the disk alone.
\<close>

definition file_verify :: "engine \<Rightarrow> change_set \<Rightarrow> (disk, auth_decision) port" where
  "file_verify g cs d =
     (case file_get (tenant_id cs) (change_set_id cs) d of
        (r, d') \<Rightarrow> (bindR r (require_durable_authorization g cs), d'))"

definition file_service ::
  "engine \<Rightarrow> (change_set \<Rightarrow> wb_exc + audit_reservation option) \<Rightarrow> (disk \<Rightarrow> int) \<Rightarrow> disk governed" where
  "file_service g reserve clock =
     \<lparr>gw_engine = g, gw_transport = file_transport g, gw_verify = file_verify g,
      gw_reserve = (\<lambda>cs d. (reserve cs, d)), gw_clock = (\<lambda>d. (Inr (clock d), d)), gw_gate = None\<rparr>"

definition file_connector ::
  "engine \<Rightarrow> string \<Rightarrow> (change_set \<Rightarrow> wb_exc + audit_reservation option) \<Rightarrow> (disk \<Rightarrow> int) \<Rightarrow> nat
   \<Rightarrow> disk connector" where
  "file_connector g ident reserve clock bound =
     \<lparr>cn_id = ident, cn_ledger = file_ledger, cn_governed = file_service g reserve clock,
      cn_bound = bound\<rparr>"

lemma file_get_quiet [simp]: "snd (file_get t c d) = d"
  by (simp add: file_get_def)

lemma file_verify_quiet [simp]: "snd (file_verify g cs d) = d"
  by (simp add: file_verify_def case_prod_beta)

lemma file_append_source [simp]: "file_source (snd (file_append h d)) = file_source d"
  by (simp add: file_append_def file_source_def Let_def split: option.splits)

lemma file_create_source [simp]: "file_source (snd (file_create cs d)) = file_source d"
  by (simp add: file_create_def file_source_def split: option.splits)

lemma file_receipts_quiet [simp]: "snd (file_receipts t c n k d) = d"
  by (simp add: file_receipts_def split: option.splits)

interpretation file_durable:
  durable_source "file_transport g" file_source file_landed "file_committed g"
    "file_service g reserve clock" "file_connector g ident reserve clock bound"
  by unfold_locales
    (simp_all add: file_service_def file_connector_def file_ledger_def file_record_attempt_def
      file_record_reconciliation_def)

section \<open>Killed and restarted\<close>

text \<open>
  A process that dies after \<open>n\<close> more calls: the world counts down, and once the count is zero no
  call reaches its port and every one raises. No handler of the modelled code catches that.
\<close>

definition mortal :: "('w, 'a) port \<Rightarrow> ('w \<times> nat, 'a) port" where
  "mortal p = (\<lambda>(w, n). case n of
       0 \<Rightarrow> (Inl Interrupt, (w, 0))
     | Suc m \<Rightarrow> (case p w of (r, w') \<Rightarrow> (r, (w', m))))"

definition mortal_transport :: "'w transport \<Rightarrow> ('w \<times> nat) transport" where
  "mortal_transport T =
     \<lparr>t_read_current = (\<lambda>cs. mortal (t_read_current T cs)),
      t_preview = (\<lambda>cs c. mortal (t_preview T cs c)),
      t_prior_effect = (\<lambda>cs. mortal (t_prior_effect T cs)),
      t_apply = (\<lambda>cs v. mortal (t_apply T cs v)),
      t_reconcile = (\<lambda>cs. mortal (t_reconcile T cs)),
      t_prepare = map_option (\<lambda>p cs. mortal (p cs)) (t_prepare T),
      t_apply_reserved = map_option (\<lambda>p cs v r. mortal (p cs v r)) (t_apply_reserved T)\<rparr>"

definition mortal_governed :: "'w governed \<Rightarrow> ('w \<times> nat) governed" where
  "mortal_governed g =
     \<lparr>gw_engine = gw_engine g, gw_transport = mortal_transport (gw_transport g),
      gw_verify = (\<lambda>cs. mortal (gw_verify g cs)), gw_reserve = (\<lambda>cs. mortal (gw_reserve g cs)),
      gw_clock = mortal (gw_clock g), gw_gate = map_option (\<lambda>p cs. mortal (p cs)) (gw_gate g)\<rparr>"

definition mortal_ledger :: "'w ledger \<Rightarrow> ('w \<times> nat) ledger" where
  "mortal_ledger L =
     \<lparr>l_create = (\<lambda>cs. mortal (l_create L cs)), l_get = (\<lambda>t c. mortal (l_get L t c)),
      l_record_attempt = (\<lambda>a. mortal (l_record_attempt L a)),
      l_record_reconciliation = (\<lambda>ob. mortal (l_record_reconciliation L ob)),
      l_receipts = (\<lambda>t c n k. mortal (l_receipts L t c n k))\<rparr>"

definition mortal_connector :: "'w connector \<Rightarrow> ('w \<times> nat) connector" where
  "mortal_connector C =
     \<lparr>cn_id = cn_id C, cn_ledger = mortal_ledger (cn_ledger C),
      cn_governed = mortal_governed (cn_governed C), cn_bound = cn_bound C\<rparr>"

lemma mortal_keeps: "(\<And>w. f (snd (p w)) = f w) \<Longrightarrow> f (fst (snd (mortal p w))) = f (fst w)"
  by (simp add: mortal_def split: prod.splits nat.splits) (metis snd_conv)

lemma mortal_cases:
  "mortal p w = (r, w') \<Longrightarrow> r = Inl Interrupt \<and> fst w' = fst w \<or> p (fst w) = (r, fst w')"
  by (auto simp: mortal_def split: prod.splits nat.splits)

lemma mortal_answer: "fst (mortal p w) = Inr x \<Longrightarrow> fst (p (fst w)) = Inr x"
  using mortal_cases [of p w "fst (mortal p w)" "snd (mortal p w)"] by (auto simp: prod_eq_iff)

lemma mortal_effect_port:
  "effect_port (mortal_transport T) cs v r = mortal (effect_port T cs v r)"
  by (cases "t_apply_reserved T") (simp_all add: effect_port_def mortal_transport_def)

abbreviation living_source :: "disk \<times> nat \<Rightarrow> (string \<rightharpoonup> string \<times> (string, json) dict) \<times> (string \<rightharpoonup> attempt)"
  where "living_source \<equiv> (\<lambda>w. file_source (fst w))"

lemma mortal_file_keeps [simp]:
  "file_source (fst (snd (mortal (file_read cs) w))) = file_source (fst w)"
  "file_source (fst (snd (mortal (file_preview g cs c) w))) = file_source (fst w)"
  "file_source (fst (snd (mortal (file_prior_effect g cs) w))) = file_source (fst w)"
  "file_source (fst (snd (mortal (file_reconcile g cs) w))) = file_source (fst w)"
  "file_source (fst (snd (mortal (file_verify g cs) w))) = file_source (fst w)"
  "file_source (fst (snd (mortal (file_get t i) w))) = file_source (fst w)"
  "file_source (fst (snd (mortal (file_create cs) w))) = file_source (fst w)"
  "file_source (fst (snd (mortal (file_append h) w))) = file_source (fst w)"
  "file_source (fst (snd (mortal (file_receipts t i n k) w))) = file_source (fst w)"
  using file_effects.read_keeps file_effects.preview_keeps file_effects.prior_keeps
    file_effects.reconcile_keeps
  by (auto intro!: mortal_keeps [where f = file_source] simp: file_transport_def)

interpretation killed: effect_source "mortal_transport (file_transport g)" living_source file_landed
  "file_committed g"
proof (unfold_locales, goal_cases)
  case (6 cs w a)
  then show ?case
    using file_effects.prior_found [of g cs "fst w" a] by (auto simp: mortal_transport_def dest: mortal_answer)
next
  case (7 cs w)
  then show ?case
    using file_effects.prior_absent [of g cs "fst w"] by (auto simp: mortal_transport_def dest: mortal_answer)
next
  case (8 cs v x x')
  then show ?case by (rule file_effects.commit_lands)
next
  case (9 cs v r w res w')
  then show ?case
    unfolding mortal_effect_port using mortal_cases [of _ w res w'] file_effects.effect_lands by metis
next
  case (10 cs v r w a w')
  then show ?case
    unfolding mortal_effect_port using mortal_cases [of _ w "Inr a" w'] file_effects.effect_returned by blast
next
  case (11 cs v r w e w')
  then show ?case
    unfolding mortal_effect_port using mortal_cases [of _ w "Inl e" w'] file_effects.effect_refused by metis
next
  case (12 cs w ob)
  then show ?case
    using file_effects.reconciled_applied [of g cs "fst w" ob]
    by (auto simp: mortal_transport_def dest: mortal_answer)
next
  case (13 cs w ob)
  then show ?case
    using file_effects.reconciled_no_effect [of g cs "fst w" ob]
    by (auto simp: mortal_transport_def dest: mortal_answer)
qed (auto simp: mortal_transport_def file_transport_def)

abbreviation killed_connector where
  "killed_connector g ident reserve clock bound \<equiv>
     mortal_connector (file_connector g ident reserve clock bound)"

interpretation killed_durable:
  durable_source "mortal_transport (file_transport g)" living_source file_landed "file_committed g"
    "mortal_governed (file_service g reserve clock)" "killed_connector g ident reserve clock bound"
  by unfold_locales
    (simp_all add: mortal_governed_def file_service_def mortal_connector_def file_connector_def
      mortal_ledger_def file_ledger_def file_record_attempt_def file_record_reconciliation_def
      mortal_keeps)

section \<open>Histories of lives\<close>

text \<open>
  What the connector does over its lives, with the keys whose call changed the source, latest
  first: any operation, the fixture seeding an entity, and a restart, which forgets the claims and
  the unresolved attempts and lives for any number of calls.
\<close>

definition restart :: "nat \<Rightarrow> ('w \<times> nat) cstate \<Rightarrow> ('w \<times> nat) cstate" where
  "restart n s = s\<lparr>world := (fst (world s), n), unresolved := Map.empty, inflight := {}\<rparr>"

inductive lives :: "(disk \<times> nat) connector \<Rightarrow> (disk \<times> nat) cstate \<Rightarrow> string list \<Rightarrow> bool" for C where
  lives_start: "disk_effects (fst (world s)) = Map.empty \<Longrightarrow> lives C s []"
| lives_register: "lives C s ks \<Longrightarrow> lives C (snd (cn_register C cs s)) ks"
| lives_apply: "lives C s ks \<Longrightarrow> s' = snd (cn_apply C cs s) \<Longrightarrow>
    lives C s' (if living_source (world s') = living_source (world s) then ks else idempotency_key cs # ks)"
| lives_reconcile: "lives C s ks \<Longrightarrow> lives C (snd (cn_reconcile C cs s)) ks"
| lives_dry_run: "lives C s ks \<Longrightarrow> lives C (snd (cn_dry_run C cs s)) ks"
| lives_current: "lives C s ks \<Longrightarrow> lives C (snd (cn_current_version C cs s)) ks"
| lives_seed: "lives C s ks \<Longrightarrow> lives C (s\<lparr>world := (file_seed e v f (fst (world s)), n)\<rparr>) ks"
| lives_restart: "lives C s ks \<Longrightarrow> lives C (restart n s) ks"

lemma file_source_eq: "file_source d' = file_source d \<longleftrightarrow>
    disk_entities d' = disk_entities d \<and> disk_effects d' = disk_effects d"
  by (auto simp: file_source_def)

lemma file_landing_effects:
  assumes "landing file_landed (file_committed g) cs (file_source d) (file_source d')"
    and "file_source d' \<noteq> file_source d"
  shows "idempotency_key cs \<notin> dom (disk_effects d)"
    and "dom (disk_effects d') = insert (idempotency_key cs) (dom (disk_effects d))"
  using assms by (auto simp: landing_def file_source_def Let_def split: option.splits)

lemma lives_keys:
  assumes "lives (killed_connector g ident reserve clock bound) s ks"
  shows "distinct ks \<and> set ks = dom (disk_effects (fst (world s)))"
  using assms
proof (induction rule: lives.induct)
  case (lives_apply s ks s' cs)
  have "landing file_landed (file_committed g) cs (file_source (fst (world s))) (file_source (fst (world s')))"
    unfolding lives_apply by (rule killed_durable.cn_apply_landing)
  from file_landing_effects [OF this] lives_apply.IH show ?case
    by (simp add: file_source_eq)
qed (use killed_durable.operations_keep [unfolded file_source_eq] in
    \<open>simp_all add: file_seed_def restart_def\<close>)


text \<open>
  \<open>apply\<close> and \<open>reconcile\<close> of the connector release the claim they took on every
  path, and refuse a change set whose key is claimed without any call.
\<close>

theorem claims_released:
  "inflight (snd (cn_apply C cs s)) = inflight s
   \<and> inflight (snd (cn_reconcile C cs s)) = inflight s
   \<and> (let t = s\<lparr>inflight := insert (claim_key cs) (inflight s)\<rparr> in
        cn_apply C cs t = (Inl (WriteBackError ''write-back operation is already in flight''), t)
        \<and> cn_reconcile C cs t = (Inl (WriteBackError ''write-back operation is already in flight''), t))"
  by (simp add: cn_apply_def cn_reconcile_def claim_released body_claim_neutral claim_held Let_def)

section \<open>The recorded state decides\<close>

text \<open>The ledger half of the disk, which no call of the governed service touches.\<close>

definition file_records :: "disk \<Rightarrow> change_set option \<times> receipt_record list" where
  "file_records d = (disk_change_set d, disk_receipts d)"

lemma file_records_eq: "file_records d' = file_records d \<longleftrightarrow>
    disk_change_set d' = disk_change_set d \<and> disk_receipts d' = disk_receipts d"
  by (auto simp: file_records_def)

interpretation file_records: untouched "file_service g reserve clock" file_records
  by unfold_locales
    (auto simp: file_service_def file_transport_def file_read_def file_preview_def
      file_prior_effect_def file_reconcile_def file_apply_def file_records_def effect_port_def
      file_seed_def file_write_effect_def Let_def split: option.splits sum.splits)

text \<open>The connector's bound lets it read the whole stream.\<close>

definition ledger_ready :: "nat \<Rightarrow> disk \<Rightarrow> bool" where
  "ledger_ready bound d \<longleftrightarrow>
     numbered (disk_receipts d) \<and> length (disk_receipts d) div receipt_page_limit < bound"

lemma file_authoritative:
  "cn_authoritative (file_connector g ident reserve clock bound) cs s =
     (if connector_id cs \<noteq> ident then
        Inl (ChangeSetValidationError ''change set targets another connector'')
      else require_durable g cs (case disk_change_set (world s) of None \<Rightarrow> None
        | Some d \<Rightarrow> if (tenant_id d, change_set_id d) \<noteq> (tenant_id cs, change_set_id cs) then None else Some d),
      s)"
  by (simp add: cn_authoritative_def prog_defs ledger_call_def file_connector_def file_ledger_def
      cn_require_connector_def file_get_def file_service_def refuse_if_def)

lemma file_recovery:
  assumes "ledger_ready bound (world s)" "disk_change_set (world s) \<noteq> None"
  shows "cn_recovery_state (file_connector g ident reserve clock bound) cs s =
           (replay g cs (disk_receipts (world s)), s)"
  using file_receipt_ledger.recovery_replays [of "world s" cs bound g] assms
  by (simp add: cn_recovery_state_def ledger_call_def file_connector_def file_service_def
      file_ready_def ledger_ready_def)

lemma file_authorize_keeps:
  "file_records (world (snd (gw_authorize (file_service g reserve clock) cs s))) = file_records (world s)"
  by (rule keepsD [OF file_records.authorize_keeps])

text \<open>
  The body of \<open>apply\<close> up to its decision: the change set on the disk is this one and the log so far
  is quiet, or it raised with the disk as it was.
\<close>

lemma file_apply_decision:
  fixes s :: "disk cstate"
  assumes "ledger_ready bound (world s)"
    and "\<And>st s'. replay g cs (disk_receipts (world s)) = Inr st \<Longrightarrow> disk_change_set (world s) = Some cs
           \<Longrightarrow> world s' = world s \<Longrightarrow> extends s quiet s'
           \<Longrightarrow> wp (case st of
                 Uncertain \<Rightarrow> raiseP (ReconciliationRequiredError
                     ''durable uncertain outcome must reconcile before retry'')
               | Applied \<Rightarrow> cn_recorded_effect (file_connector g ident reserve clock bound) cs
               | _ \<Rightarrow> cn_apply_fresh (file_connector g ident reserve clock bound) cs) Q E s'"
    and "\<And>e s'. world s' = world s \<Longrightarrow> extends s quiet s' \<Longrightarrow> E e s'"
  shows "wp (cn_apply_body (file_connector g ident reserve clock bound) cs) Q E s"
proof (cases "fst (cn_authoritative (file_connector g ident reserve clock bound) cs s)")
  case (Inl e)
  then have "cn_authoritative (file_connector g ident reserve clock bound) cs s = (Inl e, s)"
    by (simp add: file_authoritative)
  then show ?thesis using assms(3) [of s e]
    by (simp add: cn_apply_body_def wp_def bindP_def extends_def)
next
  case (Inr d)
  then have auth: "cn_authoritative (file_connector g ident reserve clock bound) cs s = (Inr cs, s)"
    and dur: "disk_change_set (world s) = Some cs"
    by (auto simp: file_authoritative require_durable_iff split: if_splits option.splits)
  have wauth: "wp (cn_authoritative (file_connector g ident reserve clock bound) cs) P F s = P cs s" for P F
    by (simp add: wp_def auth)
  let ?A = "gw_authorize (file_service g reserve clock) cs"
  have kw: "wp ?A (\<lambda>_ s'. world s' = world s \<and> extends s quiet s')
      (\<lambda>_ s'. world s' = world s \<and> extends s quiet s') s"
    using keeps_wp [where f = "\<lambda>w. w", of ?A s]
    by (intro wp_mono [OF wp_conj [OF silent_authorize [unfolded silent_def, of "file_service g reserve clock" cs s]
          keeps_wp [where f = "\<lambda>w. w"]]])
      (auto simp: gw_authorize_def gw_validate_def file_service_def extends_def intro!: keeps_rules)
  show ?thesis
    unfolding cn_apply_body_def wp_bind wauth wp_then
  proof (subst file_connector_def, simp only: connector.simps, rule wp_mono [OF kw], goal_cases)
    case (1 u s')
    then have rec: "cn_recovery_state (file_connector g ident reserve clock bound) cs s' =
        (replay g cs (disk_receipts (world s)), s')"
      using assms(1) dur file_recovery [of bound s'] by simp
    show ?case
    proof (cases "replay g cs (disk_receipts (world s))")
      case (Inl e)
      then show ?thesis using 1 assms(3) rec by (simp add: wp_def)
    next
      case (Inr st)
      then show ?thesis using 1 assms(2) [OF Inr dur] rec by (simp add: wp_def)
    qed
  qed (use assms(3) in blast)
qed

lemma file_apply_body_uncertain:
  fixes s :: "disk cstate"
  assumes "ledger_ready bound (world s)" "replay g cs (disk_receipts (world s)) = Inr Uncertain"
  shows "wp (cn_apply_body (file_connector g ident reserve clock bound) cs) (\<lambda>_ _. False)
     (\<lambda>_ s'. world s' = world s \<and> extends s quiet s') s"
proof (rule file_apply_decision [OF assms(1)], goal_cases)
  case (1 st s')
  with assms(2) have "st = Uncertain" by simp
  with 1 show ?case by (simp add: wp_simps)
qed simp

text \<open>
  Property C9. While the durable receipts of a change set end in an uncertain outcome, \<open>apply\<close>
  raises, makes no source effect and no reconciliation call and leaves the disk as it was: a new
  process refuses what the old one left unresolved.
\<close>

theorem durable_uncertain_blocks:
  fixes s :: "disk cstate"
  assumes "ledger_ready bound (world s)" "replay g cs (disk_receipts (world s)) = Inr Uncertain"
  shows "\<exists>e s' evs. cn_apply (file_connector g ident reserve clock bound) cs s = (Inl e, s')
     \<and> world s' = world s \<and> log s' = log s @ evs \<and> quiet evs"
proof -
  let ?t = "s\<lparr>inflight := insert (claim_key cs) (inflight s)\<rparr>"
  have "wp (cn_apply (file_connector g ident reserve clock bound) cs) (\<lambda>_ _. False)
     (\<lambda>_ s'. world s' = world s \<and> extends s quiet s') s"
    using file_apply_body_uncertain [of bound ?t g cs] assms
    by (auto simp: cn_apply_def wp_claim extends_def elim!: wp_mono)
  then show ?thesis by (auto simp: wp_def extends_def split: prod.splits sum.splits)
qed

lemma numbered_last: "numbered rs \<Longrightarrow> rs \<noteq> [] \<Longrightarrow> receipt_sequence (last rs) = int (length rs)"
  by (cases rs rule: rev_cases) (auto simp: numbered_def)

text \<open>What the receipt of an attempt adds to the stream it is appended to.\<close>

definition attempt_outcome :: "attempt \<Rightarrow> recovery_state" where
  "attempt_outcome a = (if at_effect_status a = EffUncertain then Uncertain else Applied)"

lemma replay_record:
  assumes "replay g cs rs = Inr st" "st \<noteq> Applied" "numbered rs"
    and a: "effect_bound g cs a \<or> a = gw_uncertain g cs v"
  shows "replay g cs (rs @ [AttemptRecord a (receipt_meta_for cs i (length rs))]) = Inr (attempt_outcome a)"
    and "numbered (rs @ [AttemptRecord a (receipt_meta_for cs i (length rs))])"
proof -
  obtain n where n: "consume_page g cs rs Fresh 0 = Inr (st, n)"
    using assms(1) by (auto simp: replay_def final_state_def result_iff)
  from consume_page_bound [OF n] numbered_last [OF assms(3)] have le: "n \<le> int (length rs)"
    by (cases "rs = []") auto
  have "record_state g cs (AttemptRecord a (receipt_meta_for cs i (length rs))) = Inr (attempt_outcome a)"
    using a
    by (auto simp: require_attempt_receipt_def require_receipt_identity_def receipt_meta_for_def
        effect_bound_def gw_uncertain_def attempt_outcome_def)
  with n le assms(2) show "replay g cs (rs @ [AttemptRecord a (receipt_meta_for cs i (length rs))])
      = Inr (attempt_outcome a)"
    by (simp add: replay_def consume_page_append final_state_def receipt_meta_for_def)
  show "numbered (rs @ [AttemptRecord a (receipt_meta_for cs i (length rs))])"
    by (rule numbered_snoc [OF assms(3)]) (simp add: receipt_meta_for_def)
qed

text \<open>
  \<open>recorded g cs d a d'\<close>: the disk \<open>d'\<close> holds the receipts of \<open>d\<close> and at most one more, and its
  stream says what the attempt says.
\<close>

definition recorded :: "engine \<Rightarrow> change_set \<Rightarrow> disk \<Rightarrow> attempt \<Rightarrow> disk \<Rightarrow> bool" where
  "recorded g cs d a d' \<longleftrightarrow>
     disk_change_set d' = disk_change_set d \<and> numbered (disk_receipts d')
     \<and> (disk_receipts d' = disk_receipts d \<or> (\<exists>r. disk_receipts d' = disk_receipts d @ [r]))
     \<and> replay g cs (disk_receipts d') = Inr (attempt_outcome a)"

lemma file_record_attempt_recorded:
  assumes "replay g cs (disk_receipts d) = Inr st" "st \<noteq> Applied" "numbered (disk_receipts d)"
    and "disk_change_set d = Some cs" "effect_bound g cs a \<or> a = gw_uncertain g cs v"
  shows "\<exists>r. fst (file_record_attempt a d) = Inr r" and "recorded g cs d a (snd (file_record_attempt a d))"
  using replay_record [OF assms(1-3,5)] assms(4)
  by (auto simp: file_record_attempt_def file_append_def recorded_def Let_def)

lemma file_fresh_recorded:
  fixes s :: "disk cstate"
  assumes "replay g cs (disk_receipts (world s)) = Inr st" "st \<noteq> Applied"
    and "numbered (disk_receipts (world s))" "disk_change_set (world s) = Some cs"
  shows "wp (cn_apply_fresh (file_connector g ident reserve clock bound) cs)
     (\<lambda>a s'. recorded g cs (world s) a (world s')) (\<lambda>_ s'. file_records (world s') = file_records (world s)) s"
  unfolding cn_apply_fresh_def
proof (subst wp_bind, subst file_connector_def, simp only: connector.simps,
    rule wp_mono [OF wp_conj [OF apply_calls keeps_wp [OF file_records.apply_keeps]]], goal_cases)
  case (1 a s')
  then have same: "disk_change_set (world s') = disk_change_set (world s)"
      "disk_receipts (world s') = disk_receipts (world s)"
    and a: "effect_bound g cs a \<or> a = gw_uncertain g cs (base_source_version cs)"
    by (auto simp: file_records_eq outcome_ok_def file_service_def)
  note rec = file_record_attempt_recorded [of g cs "world s'" st, unfolded same, OF assms a]
  then obtain r where "fst (file_record_attempt a (world s')) = Inr r" by blast
  moreover have "recorded g cs (world s) a (snd (file_record_attempt a (world s')))"
    using rec(2) same by (simp add: recorded_def)
  ultimately show ?case
    by (simp add: wp_bind wp_return wp_ledger_call file_connector_def file_ledger_def case_prod_beta)
qed simp

lemma file_recorded_effect:
  fixes s :: "disk cstate"
  shows "wp (cn_recorded_effect (file_connector g ident reserve clock bound) cs)
     (\<lambda>a s'. effect_bound g cs a \<and> file_records (world s') = file_records (world s))
     (\<lambda>_ s'. file_records (world s') = file_records (world s)) s"
proof -
  have eqs: "cn_governed (file_connector g ident reserve clock bound) = file_service g reserve clock"
    "gw_engine (file_service g reserve clock) = g"
    "gw_transport (file_service g reserve clock) = file_transport g"
    by (simp_all add: file_connector_def file_service_def)
  show ?thesis unfolding cn_recorded_effect_def eqs
  proof (rule keeps_bind_wp [OF keeps_port [where f = file_records]], goal_cases)
    case (1 w)
    show ?case using file_records.prior_quiet [of g reserve clock cs w] by (simp add: eqs)
  next
    case (2 prior s1)
    show ?case
    proof (cases prior)
      case (Some e)
      show ?thesis unfolding Some option.case
        by (rule keeps_then_wp [OF file_records.authorize_keeps])
          (use 2 in \<open>auto simp: wp_simps require_effect_eq\<close>)
    qed (use 2 in \<open>simp add: wp_simps\<close>)
  qed simp
qed

text \<open>
  No retry decision is held only in memory: when the connector's \<open>apply\<close> returns an
  attempt, the durable receipts grew by at most one and replaying them, as the next process will,
  gives that attempt's outcome, applied or uncertain. When it raises, they are as they were.
\<close>

theorem apply_is_recorded:
  fixes s :: "disk cstate"
  assumes "ledger_ready bound (world s)"
  shows "case cn_apply (file_connector g ident reserve clock bound) cs s of
     (Inr a, s') \<Rightarrow> recorded g cs (world s) a (world s')
   | (Inl e, s') \<Rightarrow> file_records (world s') = file_records (world s)"
proof -
  let ?C = "file_connector g ident reserve clock bound"
  let ?t = "s\<lparr>inflight := insert (claim_key cs) (inflight s)\<rparr>"
  have "wp (cn_apply_body ?C cs) (\<lambda>a s'. recorded g cs (world s) a (world s'))
      (\<lambda>_ s'. file_records (world s') = file_records (world s)) ?t"
  proof (rule file_apply_decision, goal_cases)
    case (2 st s')
    then have same: "world s' = world s" by simp
    have num: "numbered (disk_receipts (world s))" using assms by (simp add: ledger_ready_def)
    show ?case
    proof (cases st)
      case Applied
      have "recorded g cs (world s) a (world s2)"
        if "effect_bound g cs a" "file_records (world s2) = file_records (world s)"
        for a and s2 :: "disk cstate"
        using that 2(1) num by (auto simp: recorded_def file_records_eq attempt_outcome_def effect_bound_def Applied)
      then show ?thesis unfolding Applied recovery_state.case
        by (intro wp_mono [OF file_recorded_effect]) (simp_all add: same)
    qed (use 2 file_fresh_recorded [of g cs s' st] num same in \<open>simp_all add: wp_simps\<close>)
  qed (simp_all add: assms)
  then have "wp (cn_apply ?C cs) (\<lambda>a s'. recorded g cs (world s) a (world s'))
      (\<lambda>_ s'. file_records (world s') = file_records (world s)) s"
    by (auto simp: cn_apply_def wp_claim elim!: wp_mono)
  then show ?thesis by (simp add: wp_def split: prod.splits sum.splits)
qed

section \<open>Receipt streams\<close>

text \<open>
  Property C10. Reading the ledger page by page gives the same state, or the same refusal, as one
  pass over the whole stream, and the loop ends: a stream of \<open>n\<close> receipts needs no more than
  \<open>n div 256 + 1\<close> pages.
\<close>

theorem recovery_reads_everything:
  assumes "file_ready d (tenant_id cs) (change_set_id cs)"
  shows "recovery_state_of g file_ledger (length (disk_receipts d) div receipt_page_limit + 1) cs d
    = (replay g cs (disk_receipts d), d)"
  by (rule file_receipt_ledger.recovery_replays) (use assms in simp_all)

text \<open>
  A replay that succeeds accepted only receipts bound to the change set, in strictly
  increasing sequence, its state is that of the last receipt, and an applied receipt anywhere in
  the stream makes it applied: the outcome cannot be reversed.
\<close>

theorem replay_sound:
  "case replay g cs (rs @ qs) of
     Inl e \<Rightarrow> True
   | Inr st \<Rightarrow>
       list_all (receipt_bound g cs) (rs @ qs) \<and> increasing_from 0 (rs @ qs)
       \<and> (if rs @ qs = [] then st = Fresh else record_state g cs (last (rs @ qs)) = Inr st)
       \<and> (case replay g cs rs of Inr Applied \<Rightarrow> st = Applied | _ \<Rightarrow> True)"
proof (cases "consume_page g cs (rs @ qs) Fresh 0")
  case (Inr p)
  obtain st n where p: "p = (st, n)" by (cases p)
  have "replay g cs (rs @ qs) = Inr st" by (simp add: replay_def Inr p)
  moreover from this have "case replay g cs rs of Inr Applied \<Rightarrow> st = Applied | _ \<Rightarrow> True"
    using replay_append by (auto split: sum.splits recovery_state.splits)
  ultimately show ?thesis using consume_page_bound [OF Inr [unfolded p]] by (auto split: if_splits)
qed (simp add: replay_def)

section \<open>Two limits of the file-backed transport\<close>

text \<open>
  A process killed between the two writes of the file-backed \<open>apply\<close> leaves the
  patched entity without its effect: reconciliation then reports that nothing happened and permits
  a retry, and the retry is refused because the source is no longer at the base version.
\<close>

theorem torn_apply_unreported:
  assumes "disk_entities d (entity_id cs) = Some (base_source_version cs, f)"
    and "disk_effects d (idempotency_key cs) = None"
  shows "let d' = file_apply_killed cs (base_source_version cs) d in
      disk_entities d' (entity_id cs) = Some (base_source_version cs @ ''+1'', dict_update f (desired_patch cs))
      \<and> (\<exists>ob. file_reconcile g cs d' = (Inr ob, d') \<and> ob_effect_status ob = EffNoEffect \<and> retry_allowed ob)
      \<and> file_apply g cs (base_source_version cs) d' =
          (Inl (SourceVersionConflictError ''source changed during compare-and-apply''), d')"
  using assms
  by (simp add: file_apply_killed_def file_snapshot_def file_seed_def file_patched_def file_reconcile_def
      file_apply_def reconciliation_observation_def Let_def)

text \<open>
  When a key is bound to another change set's effect, the file-backed lookup refuses
  it, and so does the in-memory reconciliation, but the file-backed reconciliation reports the
  change set at hand as applied, in an observation the service accepts.
\<close>

theorem file_reconcile_ignores_binding:
  assumes "disk_effects d (idempotency_key cs) = Some e" "at_change_set_digest e \<noteq> change_set_digest cs"
    and "disk_entities d (entity_id cs) = Some (v, f)"
    and "effects w (idempotency_key cs) = Some e" "uncertainty w (idempotency_key cs) = None"
  shows "file_prior_effect g cs d =
           (Inl (IdempotencyConflictError ''idempotency key is bound to a different effect''), d)
    \<and> fst (mem_reconcile g cs w) =
           Inl (IdempotencyConflictError ''idempotency key is bound to a different effect'')
    \<and> (\<exists>ob. file_reconcile g cs d = (Inr ob, d) \<and> ob_effect_status ob = EffApplied
           \<and> require_reconciliation cs ob = Inr ())"
  using assms
  by (simp add: file_prior_effect_def check_prior_effect_def mem_reconcile_def file_reconcile_def
      file_snapshot_def reconciliation_bound) (simp add: reconciliation_observation_def)

section \<open>Concrete runs\<close>

definition demo_disk :: disk where
  "demo_disk = \<lparr>disk_entities = [''e'' \<mapsto> (''1'', [(''x'', JInt 1)])], disk_effects = Map.empty,
     disk_change_set = Some demo_cs, disk_receipts = []\<rparr>"

definition demo_receipt :: receipt_record where
  "demo_receipt = AttemptRecord (gw_uncertain demo_engine demo_cs ''1'')
     (receipt_meta_for demo_cs ''attempt:1'' 0)"

definition demo_uncertain_disk :: disk where
  "demo_uncertain_disk = demo_disk\<lparr>disk_receipts := [demo_receipt]\<rparr>"

definition demo_cstate :: "'w \<Rightarrow> 'w cstate" where
  "demo_cstate d = \<lparr>world = d, unresolved = Map.empty, log = [], inflight = {}\<rparr>"

lemma demo_cstate_simps [simp]: "world (demo_cstate d) = d" "log (demo_cstate d) = []"
  by (simp_all add: demo_cstate_def)

abbreviation demo_connector :: "disk connector" where
  "demo_connector \<equiv> file_connector demo_engine ''n'' demo_reserve (\<lambda>d. 5) 1"

lemma demo_uncertain_replay:
  "replay demo_engine demo_cs (disk_receipts demo_uncertain_disk) = Inr Uncertain"
  using replay_record(1) [of demo_engine demo_cs "[]" Fresh "gw_uncertain demo_engine demo_cs ''1''" "''1''"
      "''attempt:1''"]
  by (simp add: demo_uncertain_disk_def demo_receipt_def attempt_outcome_def replay_def numbered_def)
    (simp add: gw_uncertain_def)

lemma demo_ledger_ready: "ledger_ready 1 demo_disk" "ledger_ready 1 demo_uncertain_disk"
  by (simp_all add: ledger_ready_def demo_disk_def demo_uncertain_disk_def demo_receipt_def numbered_def
      receipt_meta_for_def receipt_page_limit_def)


lemma durable_uncertain_blocks_witness:
  "\<exists>e s' evs. cn_apply demo_connector demo_cs (demo_cstate demo_uncertain_disk) = (Inl e, s')
     \<and> world s' = demo_uncertain_disk \<and> log s' = evs \<and> quiet evs"
  using durable_uncertain_blocks [where bound = 1 and s = "demo_cstate demo_uncertain_disk" and g = demo_engine
      and ident = "''n''" and reserve = demo_reserve and clock = "\<lambda>d. 5" and cs = demo_cs] demo_ledger_ready demo_uncertain_replay
  by simp

lemma apply_is_recorded_witness:
  "case cn_apply demo_connector demo_cs (demo_cstate demo_disk) of
     (Inr a, s') \<Rightarrow> recorded demo_engine demo_cs demo_disk a (world s')
   | (Inl e, s') \<Rightarrow> file_records (world s') = file_records demo_disk"
  using apply_is_recorded [where bound = 1 and s = "demo_cstate demo_disk" and g = demo_engine
      and ident = "''n''" and reserve = demo_reserve and clock = "\<lambda>d. 5" and cs = demo_cs] demo_ledger_ready(1)
  by (simp cong: sum.case_cong prod.case_cong)

lemma recovery_reads_everything_witness:
  "recovery_state_of demo_engine file_ledger 1 demo_cs demo_uncertain_disk = (Inr Uncertain, demo_uncertain_disk)"
  using recovery_reads_everything [of demo_uncertain_disk demo_cs demo_engine]
    demo_ledger_ready(2) demo_uncertain_replay
  by (simp add: file_ready_def ledger_ready_def demo_uncertain_disk_def demo_disk_def receipt_page_limit_def)

lemma torn_apply_unreported_witness:
  "\<exists>ob. file_reconcile demo_engine demo_cs (file_apply_killed demo_cs ''1'' demo_disk) =
      (Inr ob, file_apply_killed demo_cs ''1'' demo_disk) \<and> ob_effect_status ob = EffNoEffect"
  using torn_apply_unreported [of demo_disk demo_cs "[(''x'', JInt 1)]" demo_engine]
  by (auto simp: demo_disk_def demo_cs_def Let_def)

lemma file_reconcile_ignores_binding_witness:
  "\<exists>e ob. file_reconcile demo_engine demo_cs (demo_disk\<lparr>disk_effects := [''k'' \<mapsto> e]\<rparr>) =
      (Inr ob, demo_disk\<lparr>disk_effects := [''k'' \<mapsto> e]\<rparr>)
    \<and> at_change_set_digest e \<noteq> change_set_digest demo_cs \<and> ob_effect_status ob = EffApplied"
proof -
  define e where "e = (applied_attempt demo_engine demo_cs ''1'' ''2'' ''o'')\<lparr>at_change_set_digest := ''z''\<rparr>"
  have "at_change_set_digest e \<noteq> change_set_digest demo_cs" by (simp add: e_def demo_cs_def)
  with file_reconcile_ignores_binding [of "demo_disk\<lparr>disk_effects := [''k'' \<mapsto> e]\<rparr>" demo_cs e "''1''"
      "[(''x'', JInt 1)]" "(demo_world Map.empty)\<lparr>effects := [''k'' \<mapsto> e]\<rparr>" demo_engine]
  show ?thesis by (intro exI [of _ e]) (auto simp: demo_cs_def demo_disk_def demo_world_def)
qed

end
