(* ===== verification/Backoff.thy ===== *)
theory Backoff
  imports Json_Value
begin

text \<open>
  \<^verbatim>\<open>runner/backoff.py\<close>: the exponential backoff of the runner, of the source runner and of the
  supervisor. Durations are exact rationals: doubling and taking the smaller of two is exact on
  floats too, short of overflow, and \<^theory_text>\<open>min\<close> cuts that off.
\<close>

text \<open>
  \<open>_finite_number\<close>: an integer too large for a float is not one, because
  \<^theory_text>\<open>math.isfinite\<close> overflows. The largest finite float is \<open>(2 ^ 53 - 1) * 2 ^ 971\<close>, and
  the integers that round to it end half a unit above it.
\<close>

definition float_overflow :: int where
  "float_overflow = (2 ^ 54 - 1) * 2 ^ 970"

fun finite_number :: "json \<Rightarrow> bool" where
  "finite_number (JInt i) = (abs i < float_overflow)"
| "finite_number (JFloat (Fin r)) = True"
| "finite_number _ = False"

record backoff =
  bo_initial :: rat
  bo_maximum :: rat
  bo_current :: rat

text \<open>The constructor: \<open>Inl\<close> is the message of the \<^theory_text>\<open>ValueError\<close>.\<close>

definition backoff_new :: "json \<Rightarrow> json \<Rightarrow> string + backoff" where
  "backoff_new i m =
     (case (if finite_number i then number_of i else None, if finite_number m then number_of m else None) of
        (Some a, Some b) \<Rightarrow>
          andR (refuse_if (a \<le> 0 \<or> b < a) ''backoff needs 0 < initial <= maximum'')
            (Inr \<lparr>bo_initial = a, bo_maximum = b, bo_current = a\<rparr>)
      | _ \<Rightarrow> Inl ''backoff durations must be finite numbers'')"

definition next_delay :: "backoff \<Rightarrow> rat \<times> backoff" where
  "next_delay b = (bo_current b, b\<lparr>bo_current := min (bo_current b * 2) (bo_maximum b)\<rparr>)"

definition backoff_reset :: "backoff \<Rightarrow> backoff" where
  "backoff_reset b = b\<lparr>bo_current := bo_initial b\<rparr>"

text \<open>The delays of \<open>n\<close> consecutive failures and the backoff after them.\<close>

fun delays :: "nat \<Rightarrow> backoff \<Rightarrow> rat list \<times> backoff" where
  "delays 0 b = ([], b)"
| "delays (Suc n) b = (case next_delay b of (d, b') \<Rightarrow> case delays n b' of (ds, b'') \<Rightarrow> (d # ds, b''))"

definition backoff_ok :: "backoff \<Rightarrow> bool" where
  "backoff_ok b \<longleftrightarrow> 0 < bo_initial b \<and> bo_initial b \<le> bo_maximum b
     \<and> bo_initial b \<le> bo_current b \<and> bo_current b \<le> bo_maximum b"

lemma backoff_new_ok: "backoff_new i m = Inr b \<Longrightarrow> backoff_ok b \<and> bo_current b = bo_initial b"
  by (auto simp: backoff_new_def backoff_ok_def result_iff split: option.splits if_splits)

lemma next_delay_ok: "backoff_ok b \<Longrightarrow> backoff_ok (snd (next_delay b))"
  by (auto simp: backoff_ok_def next_delay_def min_def)

lemma backoff_reset_ok: "backoff_ok b \<Longrightarrow> backoff_ok (backoff_reset b)"
  by (auto simp: backoff_ok_def backoff_reset_def)

lemma double_min: "0 < (m::rat) \<Longrightarrow> min (min x m * 2) m = min (x * 2) m"
  by (auto simp: min_def)

lemma delays_from:
  assumes "0 < bo_maximum b" "bo_current b = min x (bo_maximum b)"
  shows "fst (delays n b) = map (\<lambda>k. min (x * 2 ^ k) (bo_maximum b)) [0..<n]"
  using assms
proof (induction n arbitrary: b x)
  case (Suc n)
  let ?b = "b\<lparr>bo_current := min (bo_current b * 2) (bo_maximum b)\<rparr>"
  have "fst (delays n ?b) = map (\<lambda>k. min (x * 2 * 2 ^ k) (bo_maximum b)) [0..<n]"
    using Suc.IH [of ?b "x * 2"] Suc.prems by (simp add: double_min)
  then show ?case
    using Suc.prems(2) by (simp add: next_delay_def case_prod_beta map_upt_Suc mult.assoc del: upt_Suc)
qed simp

text \<open>
  A backoff is built only from finite bounds \<open>0 < initial <= maximum\<close>, and the delay
  after the \<open>k\<close>-th consecutive failure is \<open>initial * 2 ^ k\<close> capped at the maximum, whether it is new
  or reset: so every delay lies between the two bounds and the delays never shrink.
\<close>

theorem backoff_delays:
  "case backoff_new i m of
     Inl e \<Rightarrow> True
   | Inr b \<Rightarrow>
       0 < bo_initial b \<and> bo_initial b \<le> bo_maximum b
       \<and> number_of i = Some (bo_initial b) \<and> number_of m = Some (bo_maximum b)
       \<and> fst (delays n b) = map (\<lambda>k. min (bo_initial b * 2 ^ k) (bo_maximum b)) [0..<n]
       \<and> fst (delays n (backoff_reset (snd (delays j b)))) = fst (delays n b)"
proof (cases "backoff_new i m")
  case (Inr b)
  have ok: "backoff_ok b" "bo_current b = bo_initial b" using backoff_new_ok [OF Inr] by auto
  have keep: "bo_initial (snd (delays j c)) = bo_initial c \<and> bo_maximum (snd (delays j c)) = bo_maximum c" for c
    by (induction j arbitrary: c) (simp_all add: next_delay_def case_prod_beta)
  have eq: "backoff_reset (snd (delays j b)) = b"
    using keep [of b] ok(2) by (simp add: backoff_reset_def)
  have "fst (delays n b) = map (\<lambda>k. min (bo_initial b * 2 ^ k) (bo_maximum b)) [0..<n]"
    using ok by (intro delays_from) (auto simp: backoff_ok_def)
  moreover have "number_of i = Some (bo_initial b) \<and> number_of m = Some (bo_maximum b)"
    using Inr by (auto simp: backoff_new_def result_iff split: option.splits if_splits)
  ultimately show ?thesis using ok by (simp add: Inr eq backoff_ok_def)
qed simp

end
