(* ===== verification/Sync_Records.thy ===== *)
theory Sync_Records
  imports Backoff
begin

text \<open>
  The pure part of the declared-source runner: the declarations it reads
  (\<^verbatim>\<open>ingest/sources.py\<close>, \<^verbatim>\<open>ingest/for_each.py\<close>), the typed change sets it builds
  (\<^verbatim>\<open>ingest/model.py\<close>) and the record, property and edge extraction of
  \<^verbatim>\<open>ingest/_sync_records.py\<close>. Tool results are decoded JSON.
\<close>

section \<open>Exceptions and the interpreter\<close>

text \<open>
  \<open>SyncError reason message\<close> is \<open>SourceSyncError\<close>; \<open>Foreign\<close> any other exception by the name of
  its class; \<open>Cancelled\<close> the cancellation of a deadline scope, which no
  \<^theory_text>\<open>except Exception\<close> catches.
\<close>

datatype sync_exc = SyncError string string | Foreign string | Cancelled

text \<open>
  What the interpreter does with a value: the hash, the spelling of a float and the text of a
  container, which only ever becomes part of a cursor.
\<close>

record pyenv =
  py_sha256 :: "string \<Rightarrow> string"
  py_float_repr :: "rat \<Rightarrow> string"
  py_container_text :: "json \<Rightarrow> string"

fun py_str :: "pyenv \<Rightarrow> json \<Rightarrow> string" where
  "py_str py JNull = ''None''"
| "py_str py (JBool b) = (if b then ''True'' else ''False'')"
| "py_str py (JInt i) = show_int i"
| "py_str py (JFloat (Fin r)) = py_float_repr py r"
| "py_str py (JFloat NaN) = ''nan''"
| "py_str py (JFloat PosInf) = ''inf''"
| "py_str py (JFloat NegInf) = ''-inf''"
| "py_str py (JStr s) = s"
| "py_str py v = py_container_text py v"

definition is_scalar :: "json \<Rightarrow> bool" where
  "is_scalar v \<longleftrightarrow> (case v of JBool _ \<Rightarrow> True | JInt _ \<Rightarrow> True | JFloat _ \<Rightarrow> True | JStr _ \<Rightarrow> True | _ \<Rightarrow> False)"

definition is_container :: "json \<Rightarrow> bool" where
  "is_container v \<longleftrightarrow> (case v of JArr _ \<Rightarrow> True | JObj _ \<Rightarrow> True | _ \<Rightarrow> False)"

section \<open>Declarations\<close>

record for_each =
  fe_source :: string
  fe_argument :: string
  fe_field :: string

record edge_spec =
  es_relationship :: string
  es_target_field :: string
  es_target_type :: string
  es_target_id_key :: "string option"
  es_target_id_template :: string
  es_target_fields :: "(string, string) dict"
  es_target_stream :: "string option"

datatype pagination = PageNone | PagePage | PageCursor | PageOffset

record source_spec =
  sp_source_id :: string
  sp_record_type :: string
  sp_tools :: "string list"
  sp_records_path :: string
  sp_id_field :: string
  sp_title_field :: "string option"
  sp_text_field :: "string option"
  sp_cursor_field :: "string option"
  sp_incremental :: bool
  sp_arguments :: "(string, json) dict"
  sp_pagination :: pagination
  sp_page_param :: "string option"
  sp_page_size_param :: "string option"
  sp_page_size :: nat
  sp_start_page :: nat
  sp_for_each :: "for_each option"
  sp_edges :: "edge_spec list"

text \<open>An optional or empty name is falsy.\<close>

fun named :: "string option \<Rightarrow> string option" where
  "named None = None"
| "named (Some s) = (if s = [] then None else Some s)"

section \<open>Change sets\<close>

record entity =
  en_id :: string
  en_node_type :: string
  en_properties :: "(string, json) dict"
  en_updated_at :: "string option"

record entity_ref =
  er_id :: string
  er_node_type :: "string option"
  er_stream :: "string option"

datatype endpoint = EndId string | EndRef entity_ref

record relationship =
  rl_source :: endpoint
  rl_target :: endpoint
  rl_relationship :: string

section \<open>Extraction\<close>

text \<open>
  \<^theory_text>\<open>str.isdigit\<close> holds of the three superscript digits as well, on which \<^theory_text>\<open>int\<close>
  raises.
\<close>

definition is_digit_char :: "char \<Rightarrow> bool" where
  "is_digit_char c = (let n = (of_char c :: nat) in 48 \<le> n \<and> n \<le> 57 \<or> n \<in> {178, 179, 185})"

definition is_digits :: "string \<Rightarrow> bool" where
  "is_digits s \<longleftrightarrow> s \<noteq> [] \<and> list_all is_digit_char s"

fun path_step :: "json \<Rightarrow> string \<Rightarrow> sync_exc + json" where
  "path_step (JObj kvs) part = Inr (get kvs part)"
| "path_step (JArr xs) part =
     (if is_digits part then
        (case read_digits 0 part of
           None \<Rightarrow> Inl (Foreign ''ValueError'')
         | Some i \<Rightarrow> Inr (if i < length xs then xs ! i else JNull))
      else Inr JNull)"
| "path_step v part = Inr JNull"

text \<open>\<open>return None\<close> ends the loop early; every later step from \<^theory_text>\<open>None\<close> is \<^theory_text>\<open>None\<close> too.\<close>

fun path_steps :: "json \<Rightarrow> string list \<Rightarrow> sync_exc + json" where
  "path_steps v [] = Inr v"
| "path_steps v (p # ps) = bindR (path_step v p) (\<lambda>w. path_steps w ps)"

definition json_path :: "json \<Rightarrow> string \<Rightarrow> sync_exc + json" where
  "json_path v path = path_steps v (filter (\<lambda>p. p \<noteq> []) (py_split CHR ''.'' path))"

definition usable_id :: "pyenv \<Rightarrow> json \<Rightarrow> bool" where
  "usable_id py v \<longleftrightarrow> v \<noteq> JNull \<and> \<not> is_container v \<and> \<not> blank (py_str py v)"

definition record_of :: "pyenv \<Rightarrow> source_spec \<Rightarrow> json \<Rightarrow> sync_exc + (string, json) dict" where
  "record_of py spec item =
     (case item of
        JObj r \<Rightarrow>
          andR (refuse_if (\<not> usable_id py (get r (sp_id_field spec)))
                 (SyncError ''malformed_result'' ''record has no usable declared ID''))
            (Inr r)
      | _ \<Rightarrow> Inl (SyncError ''malformed_result'' ''page contains a non-object record''))"

definition records_in :: "pyenv \<Rightarrow> json \<Rightarrow> source_spec \<Rightarrow> sync_exc + (string, json) dict list" where
  "records_in py result spec =
     bindR (if sp_records_path spec = [] then Inr result else json_path result (sp_records_path spec))
       (\<lambda>found. case found of
          JArr items \<Rightarrow> mapR (record_of py spec) items
        | _ \<Rightarrow> Inl (SyncError ''malformed_result''
               ((if sp_records_path spec = [] then ''result'' else sp_records_path spec)
                @ '' is not a record list'')))"

text \<open>\<^theory_text>\<open>setdefault\<close>.\<close>

definition set_default :: "'k \<Rightarrow> 'v \<Rightarrow> ('k, 'v) dict \<Rightarrow> ('k, 'v) dict" where
  "set_default k v d = (if map_of d k = None then d @ [(k, v)] else d)"

definition named_property ::
  "(string, json) dict \<Rightarrow> string \<times> string option \<Rightarrow> (string, json) dict \<Rightarrow> (string, json) dict" where
  "named_property r nf kept =
     (case nf of (name, field) \<Rightarrow>
        case named field of
          None \<Rightarrow> kept
        | Some f \<Rightarrow> if is_scalar (get r f) then set_default name (get r f) kept else kept)"

definition is_kept :: "json \<Rightarrow> bool" where
  "is_kept v \<longleftrightarrow> is_scalar v \<or> (case v of JArr xs \<Rightarrow> list_all is_scalar xs | _ \<Rightarrow> False)"

definition properties_of :: "(string, json) dict \<Rightarrow> source_spec \<Rightarrow> (string, json) dict" where
  "properties_of r spec =
     fold (named_property r) [(''title'', sp_title_field spec), (''text'', sp_text_field spec)]
       (filter (\<lambda>(k, v). is_kept v) r)"

definition references :: "json \<Rightarrow> json list" where
  "references v =
     (if v = JNull \<or> v = JStr [] then []
      else case v of
        JArr xs \<Rightarrow> filter (\<lambda>x. x \<noteq> JNull \<and> x \<noteq> JStr []) xs
      | _ \<Rightarrow> [v])"

definition step_into :: "json list \<Rightarrow> string \<Rightarrow> json list" where
  "step_into vs part =
     concat (map (\<lambda>item. case item of
          JObj kvs \<Rightarrow> (case map_of kvs part of None \<Rightarrow> [] | Some v \<Rightarrow> [v])
        | _ \<Rightarrow> [])
       (concat (map (\<lambda>v. case v of JArr xs \<Rightarrow> xs | _ \<Rightarrow> [v]) vs)))"

definition resolve :: "(string, json) dict \<Rightarrow> string \<Rightarrow> json list" where
  "resolve r path =
     concat (map references (fold (\<lambda>part vs. step_into vs part) (py_split CHR ''.'' path) [JObj r]))"

text \<open>
  \<^theory_text>\<open>template.format(type=t, id=i)\<close> for templates of literal text, doubled braces and the
  two fields; any other field is \<^theory_text>\<open>KeyError\<close> or \<^theory_text>\<open>ValueError\<close>.
\<close>

fun format_id :: "string \<Rightarrow> string \<Rightarrow> string \<Rightarrow> sync_exc + string" where
  "format_id t i [] = Inr []"
| "format_id t i (c # cs) =
     (if c = CHR ''{'' then
        (if take 1 cs = ''{'' then map_sum id (\<lambda>r. CHR ''{'' # r) (format_id t i (drop 1 cs))
         else if take 5 cs = ''type}'' then map_sum id (\<lambda>r. t @ r) (format_id t i (drop 5 cs))
         else if take 3 cs = ''id}'' then map_sum id (\<lambda>r. i @ r) (format_id t i (drop 3 cs))
         else Inl (Foreign ''KeyError''))
      else if c = CHR ''}'' then
        (if take 1 cs = ''}'' then map_sum id (\<lambda>r. CHR ''}'' # r) (format_id t i (drop 1 cs))
         else Inl (Foreign ''ValueError''))
      else map_sum id (\<lambda>r. c # r) (format_id t i cs))"

definition edge_of ::
  "pyenv \<Rightarrow> string \<Rightarrow> string \<Rightarrow> edge_spec \<Rightarrow> json \<Rightarrow> sync_exc + (entity option \<times> relationship) list" where
  "edge_of py record_id record_type edge ref =
     (let element = (case ref of JObj kvs \<Rightarrow> kvs | _ \<Rightarrow> []);
          raw = (case named (es_target_id_key edge) of
                   None \<Rightarrow> ref
                 | Some key \<Rightarrow> if element = [] then ref else get element key)
      in if \<not> usable_id py raw then Inr []
         else bindR (format_id (es_target_type edge) (py_str py raw) (es_target_id_template edge))
           (\<lambda>target_id.
             let src = EndRef \<lparr>er_id = record_id, er_node_type = Some record_type, er_stream = None\<rparr> in
             case es_target_stream edge of
               Some stream \<Rightarrow>
                 Inr [(None, \<lparr>rl_source = src,
                     rl_target = EndRef \<lparr>er_id = target_id, er_node_type = None, er_stream = Some stream\<rparr>,
                     rl_relationship = es_relationship edge\<rparr>)]
             | None \<Rightarrow>
                 Inr [(Some \<lparr>en_id = target_id, en_node_type = es_target_type edge,
                     en_properties = map (\<lambda>(name, key). (name, get element key))
                       (filter (\<lambda>(name, key). is_scalar (get element key)) (es_target_fields edge)),
                     en_updated_at = None\<rparr>,
                   \<lparr>rl_source = src, rl_target = EndId target_id, rl_relationship = es_relationship edge\<rparr>)]))"

definition edges_of ::
  "pyenv \<Rightarrow> string \<Rightarrow> (string, json) dict \<Rightarrow> source_spec \<Rightarrow> sync_exc + (entity option \<times> relationship) list" where
  "edges_of py record_id r spec =
     map_sum id concat
       (mapR (\<lambda>(edge, ref). edge_of py record_id (sp_record_type spec) edge ref)
         (concat (map (\<lambda>edge. map (Pair edge) (resolve r (es_target_field edge))) (sp_edges spec))))"

text \<open>\<open>record_digest\<close>.\<close>

definition record_digest :: "pyenv \<Rightarrow> (string, json) dict \<Rightarrow> string" where
  "record_digest py r = digest (py_sha256 py) (py_float_repr py) (JObj r)"

lemma records_in_usable:
  assumes "records_in py result spec = Inr rs" "r \<in> set rs"
  shows "usable_id py (get r (sp_id_field spec))"
proof -
  obtain found where "(case found of
          JArr items \<Rightarrow> mapR (record_of py spec) items
        | _ \<Rightarrow> Inl (SyncError ''malformed_result''
               ((if sp_records_path spec = [] then ''result'' else sp_records_path spec)
                @ '' is not a record list''))) = Inr rs"
    using assms(1) unfolding records_in_def bindR_Inr by blast
  then obtain items where "mapR (record_of py spec) items = Inr rs"
    by (cases found) simp_all
  then have "list_all2 (\<lambda>item r. record_of py spec item = Inr r) items rs"
    by (simp add: mapR_Inr_iff)
  then obtain item where "record_of py spec item = Inr r"
    using assms(2) by (auto simp: list_all2_conv_all_nth in_set_conv_nth)
  then show ?thesis by (auto simp: record_of_def result_iff split: json.splits)
qed

section \<open>Declared fan-out\<close>

text \<open>
  \<open>check_for_each\<close>: from every source the chain of parents is walked until it ends, leaves the
  declared sources or meets itself. The chain has no repetition, so it is no longer than the
  declaration: the bound of the walk is never reached.
\<close>

datatype fan_out_refusal = UnknownParent string string | ForEachCycle "string list"

fun walk_parents ::
  "nat \<Rightarrow> (string, for_each option) dict \<Rightarrow> string list \<Rightarrow> for_each option \<Rightarrow> (fan_out_refusal + unit) option" where
  "walk_parents n parents chain None = Some (Inr ())"
| "walk_parents 0 parents chain (Some link) = None"
| "walk_parents (Suc n) parents chain (Some link) =
     (case map_of parents (fe_source link) of
        None \<Rightarrow> Some (Inl (UnknownParent (last chain) (fe_source link)))
      | Some next_link \<Rightarrow>
          if fe_source link \<in> set chain then Some (Inl (ForEachCycle (chain @ [fe_source link])))
          else walk_parents n parents (chain @ [fe_source link]) next_link)"

fun check_sources ::
  "(string, for_each option) dict \<Rightarrow> (string \<times> for_each option) list \<Rightarrow> (fan_out_refusal + unit) option" where
  "check_sources parents [] = Some (Inr ())"
| "check_sources parents ((source, link) # rest) =
     (case walk_parents (length parents) parents [source] link of
        None \<Rightarrow> None
      | Some (Inl e) \<Rightarrow> Some (Inl e)
      | Some (Inr u) \<Rightarrow> check_sources parents rest)"

definition check_for_each :: "(string, for_each option) dict \<Rightarrow> (fan_out_refusal + unit) option" where
  "check_for_each parents = check_sources parents parents"

text \<open>The parent relation the declaration gives.\<close>

definition parent_of :: "(string, for_each option) dict \<Rightarrow> (string \<times> string) set" where
  "parent_of parents = {(s, fe_source link) | s link. map_of parents s = Some (Some link)}"

lemma walk_parents_total:
  assumes "distinct chain" "set chain \<subseteq> dom (map_of parents)" "chain \<noteq> []"
    and "length parents < n + length chain"
  shows "walk_parents n parents chain link \<noteq> None"
  using assms
proof (induction n parents chain link rule: walk_parents.induct)
  case (2 parents chain link)
  have "card (set chain) \<le> card (dom (map_of parents))"
    by (intro card_mono 2(2)) (simp add: finite_dom_map_of)
  also have "\<dots> \<le> length parents"
    by (metis card_length dom_map_of_conv_image_fst length_map set_map)
  finally show ?case using 2 by (simp add: distinct_card)
next
  case (3 n parents chain link)
  then show ?case by (auto split: option.splits)
qed simp

text \<open>A walk that ends without refusal followed parents to a root.\<close>

lemma walk_parents_acyclic:
  assumes "walk_parents n parents chain link = Some (Inr ())"
    and "map_of parents (last chain) = Some link" "chain \<noteq> []"
  shows "\<exists>root. (last chain, root) \<in> (parent_of parents)\<^sup>* \<and> map_of parents root = Some None
     \<and> (\<forall>y. (last chain, y) \<in> (parent_of parents)\<^sup>* \<longrightarrow> y \<in> dom (map_of parents))"
  using assms
proof (induction n parents chain link rule: walk_parents.induct)
  case (1 n parents chain)
  have "y = last chain" if "(last chain, y) \<in> (parent_of parents)\<^sup>*" for y
    using that by (cases rule: converse_rtranclE) (use 1 in \<open>auto simp: parent_of_def\<close>)
  with 1 show ?case by blast
next
  case (3 n parents chain link)
  then obtain link' where link': "map_of parents (fe_source link) = Some link'"
    and new: "fe_source link \<notin> set chain"
    and rec: "walk_parents n parents (chain @ [fe_source link]) link' = Some (Inr ())"
    by (auto split: option.splits if_splits)
  have step: "(last chain, fe_source link) \<in> parent_of parents"
    using 3(3) by (auto simp: parent_of_def)
  obtain root where root: "(fe_source link, root) \<in> (parent_of parents)\<^sup>*" "map_of parents root = Some None"
    "\<forall>y. (fe_source link, y) \<in> (parent_of parents)\<^sup>* \<longrightarrow> y \<in> dom (map_of parents)"
    using 3(1) [OF link' new rec] link' by auto
  have "y \<in> dom (map_of parents)" if "(last chain, y) \<in> (parent_of parents)\<^sup>*" for y
    using that
  proof (cases rule: converse_rtranclE)
    case base
    then show ?thesis using 3(3) by auto
  next
    case (step z)
    then have "z = fe_source link" using 3(3) by (auto simp: parent_of_def)
    with step root(3) show ?thesis by blast
  qed
  with step root show ?case by (meson converse_rtrancl_into_rtrancl)
qed simp

lemma single_valued_cycle:
  assumes "single_valued R" "(s, s) \<in> R\<^sup>+" "(s, y) \<in> R\<^sup>*"
  shows "(y, y) \<in> R\<^sup>+"
  using assms(3)
proof (induction rule: rtrancl_induct)
  case (step y z)
  then obtain z' where "(y, z') \<in> R" "(z', y) \<in> R\<^sup>*" by (meson tranclD)
  with step.hyps(2) assms(1) have "(z, y) \<in> R\<^sup>*" by (auto dest: single_valuedD)
  then show ?case using step.hyps(2) by (rule rtrancl_into_trancl1)
qed (rule assms(2))

lemma parent_of_single_valued: "single_valued (parent_of parents)"
  by (auto simp: single_valued_def parent_of_def)

lemma check_sources_cases:
  "(case check_sources parents rest of
      None \<Rightarrow> \<exists>(s, link) \<in> set rest. walk_parents (length parents) parents [s] link = None
    | Some (Inl e) \<Rightarrow> True
    | Some (Inr u) \<Rightarrow> \<forall>(s, link) \<in> set rest. walk_parents (length parents) parents [s] link = Some (Inr ()))"
  by (induction parents rest rule: check_sources.induct)
    (auto split: option.splits sum.splits)

text \<open>
  Property C11. \<open>check_for_each\<close> always answers, and it accepts a declaration only when following
  parents from any source stays within the declared sources and reaches one without a parent, so
  that no source is its own ancestor.
\<close>

theorem check_for_each_sound:
  assumes "well_keyed parents"
  shows "case check_for_each parents of
     None \<Rightarrow> False
   | Some (Inl e) \<Rightarrow> True
   | Some (Inr u) \<Rightarrow> \<forall>s \<in> dom (map_of parents).
       (\<exists>root. (s, root) \<in> (parent_of parents)\<^sup>* \<and> map_of parents root = Some None)
       \<and> (\<forall>y. (s, y) \<in> (parent_of parents)\<^sup>* \<longrightarrow> y \<in> dom (map_of parents))
       \<and> (s, s) \<notin> (parent_of parents)\<^sup>+"
proof -
  have mem: "(s, link) \<in> set parents \<longleftrightarrow> map_of parents s = Some link" for s link
    using assms by (simp add: well_keyed_def)
  have total: "walk_parents (length parents) parents [s] link \<noteq> None" if "map_of parents s = Some link" for s link
    by (rule walk_parents_total) (use that in auto)
  show ?thesis
  proof (cases "check_for_each parents")
    case None
    then obtain s link where "(s, link) \<in> set parents"
        "walk_parents (length parents) parents [s] link = None"
      using check_sources_cases [of parents parents] by (auto simp: check_for_each_def)
    with total mem show ?thesis by blast
  next
    case (Some r)
    show ?thesis
    proof (cases r)
      case (Inr u)
      have all: "walk_parents (length parents) parents [s] link = Some (Inr ())"
        if "map_of parents s = Some link" for s link
        using check_sources_cases [of parents parents] that Some Inr
        by (auto simp: check_for_each_def mem)
      have "(\<exists>root. (s, root) \<in> (parent_of parents)\<^sup>* \<and> map_of parents root = Some None)
         \<and> (\<forall>y. (s, y) \<in> (parent_of parents)\<^sup>* \<longrightarrow> y \<in> dom (map_of parents))
         \<and> (s, s) \<notin> (parent_of parents)\<^sup>+" if decl: "map_of parents s = Some link" for s link
      proof -
        obtain root where root: "(s, root) \<in> (parent_of parents)\<^sup>*" "map_of parents root = Some None"
          and closed: "\<forall>y. (s, y) \<in> (parent_of parents)\<^sup>* \<longrightarrow> y \<in> dom (map_of parents)"
          using walk_parents_acyclic [OF all [OF decl]] decl by auto
        have "(s, s) \<notin> (parent_of parents)\<^sup>+"
        proof
          assume "(s, s) \<in> (parent_of parents)\<^sup>+"
          from single_valued_cycle [OF parent_of_single_valued this root(1)]
          obtain z where "(root, z) \<in> parent_of parents" by (meson tranclD)
          with root(2) show False by (auto simp: parent_of_def)
        qed
        with root closed show ?thesis by blast
      qed
      then have "\<forall>s \<in> dom (map_of parents).
         (\<exists>root. (s, root) \<in> (parent_of parents)\<^sup>* \<and> map_of parents root = Some None)
         \<and> (\<forall>y. (s, y) \<in> (parent_of parents)\<^sup>* \<longrightarrow> y \<in> dom (map_of parents))
         \<and> (s, s) \<notin> (parent_of parents)\<^sup>+" by blast
      with Some Inr show ?thesis by simp
    qed (simp add: Some)
  qed
qed

lemma check_for_each_sound_witness:
  "well_keyed [(''a'', None), (''b'', Some \<lparr>fe_source = ''a'', fe_argument = ''x'', fe_field = ''id''\<rparr>)]
   \<and> (''b'', ''b'') \<notin> (parent_of [(''a'', None), (''b'', Some \<lparr>fe_source = ''a'', fe_argument = ''x'', fe_field = ''id''\<rparr>)])\<^sup>+"
proof -
  have wk: "well_keyed [(''a'', None), (''b'', Some \<lparr>fe_source = ''a'', fe_argument = ''x'', fe_field = ''id''\<rparr>)]"
    by (simp add: well_keyed_def)
  from check_for_each_sound [OF this] wk show ?thesis
    by (simp add: check_for_each_def)
qed

end
