(* ===== verification/Source_Sync.thy ===== *)
theory Source_Sync
  imports Sync_Records
begin

text \<open>
  The declared-source runner: \<open>SourceSyncRunner\<close> of \<^verbatim>\<open>ingest/source_sync.py\<close> with its run
  state (\<^verbatim>\<open>ingest/_sync_run.py\<close>), checkpoint and budget (\<^verbatim>\<open>ingest/_sync_models.py\<close>), bounded
  calls (\<^verbatim>\<open>ingest/source_calls.py\<close>) and page operations (\<^verbatim>\<open>ingest/source_budget.py\<close>,
  \<^verbatim>\<open>ingest/source_budget_util.py\<close>). The session, the ingest facade, the engine's key-value
  store, the clock and the sleep are ports on a world of any type.
\<close>

section \<open>State\<close>

record sync_budget =
  sb_max_pages :: nat
  sb_max_records :: nat
  sb_batch_size :: nat
  sb_max_seconds :: rat
  sb_max_fan_out :: nat
  sb_attempts :: nat
  sb_backoff :: backoff

text \<open>\<open>_validate_budget\<close> on the values given: booleans are no integers.\<close>

fun positive_count :: "json \<Rightarrow> nat option" where
  "positive_count (JInt i) = (if 1 \<le> i then Some (nat i) else None)"
| "positive_count _ = None"

definition budget_new ::
  "json \<Rightarrow> json \<Rightarrow> json \<Rightarrow> json \<Rightarrow> json \<Rightarrow> json \<Rightarrow> json \<Rightarrow> json \<Rightarrow> string + sync_budget" where
  "budget_new max_pages max_records batch_size max_seconds max_fan_out tries initial maximum =
     (case (positive_count max_pages, positive_count max_records, positive_count batch_size,
            positive_count tries, positive_count max_fan_out) of
        (Some p, Some r, Some b, Some a, Some f) \<Rightarrow>
          (case (if finite_number max_seconds then number_of max_seconds else None) of
             Some sec \<Rightarrow>
               andR (refuse_if (sec \<le> 0) ''sync time budget must be a positive finite number'')
                 (bindR (backoff_new initial maximum) (\<lambda>bo.
                    Inr \<lparr>sb_max_pages = p, sb_max_records = r, sb_batch_size = b,
                         sb_max_seconds = sec, sb_max_fan_out = f, sb_attempts = a,
                         sb_backoff = bo\<rparr>))
           | None \<Rightarrow> Inl ''sync time budget must be a positive finite number'')
      | _ \<Rightarrow> Inl ''sync count limits must be positive integers'')"

record sync_report =
  sr_connector :: string
  sr_source_id :: string
  sr_mode :: string
  sr_state :: string
  sr_pages :: nat
  sr_records_seen :: nat
  sr_submitted :: nat
  sr_unchanged :: nat
  sr_batch_digests :: "string list"
  sr_cursor_before :: "string option"
  sr_cursor_after :: "string option"
  sr_reason :: "string option"
  sr_engine_code :: "string option"

record checkpoint =
  ck_connector :: string
  ck_source_id :: string
  ck_cursor :: "string option"
  ck_digests :: "(string, string) dict"
  ck_state :: string
  ck_records :: nat
  ck_last_job_id :: "string option"
  ck_last_report :: "sync_report option"

definition fresh_checkpoint :: "string \<Rightarrow> string \<Rightarrow> checkpoint" where
  "fresh_checkpoint c i =
     \<lparr>ck_connector = c, ck_source_id = i, ck_cursor = None, ck_digests = [], ck_state = ''never'',
      ck_records = 0, ck_last_job_id = None, ck_last_report = None\<rparr>"

record sync_binding =
  bn_connector :: string
  bn_stream :: string
  bn_server :: string
  bn_tool :: string

record change_batch =
  cb_entities :: "entity list"
  cb_relationships :: "relationship list"
  cb_cursor :: "string option"

text \<open>
  What the facade's \<open>submit\<close> may raise: an \<open>IngestError\<close> with its text or another exception. It
  raises no \<open>SourceSyncError\<close>, so the branch that lets one through is never taken.
\<close>

datatype submit_exc = IngestRefused string | SubmitForeign string

text \<open>
  The log of a run: every submission with the checkpoint and the pending records it was made from
  and its answer, and every store with its answer.
\<close>

datatype sync_event =
    EvSubmit checkpoint change_batch "(entity \<times> string) list" "submit_exc + string"
  | EvStore checkpoint int "sync_exc + int"

record 'w run =
  rn_world :: 'w
  rn_log :: "sync_event list"
  rn_state :: checkpoint
  rn_version :: int
  rn_mode :: string
  rn_started :: rat
  rn_pages :: nat
  rn_seen :: nat
  rn_submitted :: nat
  rn_unchanged :: nat
  rn_batches :: "string list"
  rn_pending :: "(entity \<times> string) list"
  rn_pending_tool :: "string option"
  rn_pending_edges :: "(entity option \<times> relationship) list"
  rn_cursor :: "string option"
  rn_cursor_before :: "string option"

type_synonym ('w, 'e, 'a) sync_port = "'w \<Rightarrow> ('e + 'a) \<times> 'w"
type_synonym ('w, 'a) sync_prog = "('w run, sync_exc, 'a) prog"

text \<open>
  The ports. A tool call or a sleep may be cancelled by the deadline scope around it; the key-value
  store raises only exceptions of its own. \<open>se_cas\<close> answers whether it swapped and the new version.
\<close>

record 'w sync_env =
  se_py :: pyenv
  se_connector :: string
  se_server :: string
  se_budget :: sync_budget
  se_call :: "string \<Rightarrow> (string, json) dict \<Rightarrow> ('w, sync_exc, json) sync_port"
  se_read_only :: "string \<Rightarrow> ('w, string, bool) sync_port"
  se_submit :: "sync_binding \<Rightarrow> change_batch \<Rightarrow> ('w, submit_exc, string) sync_port"
  se_get :: "string \<Rightarrow> ('w, string, (checkpoint \<times> int) option) sync_port"
  se_cas :: "string \<Rightarrow> int \<Rightarrow> checkpoint \<Rightarrow> ('w, string, bool \<times> int) sync_port"
  se_clock :: "'w \<Rightarrow> rat \<times> 'w"
  se_sleep :: "rat \<Rightarrow> ('w, sync_exc, unit) sync_port"

definition world_call :: "('w, sync_exc, 'a) sync_port \<Rightarrow> ('w, 'a) sync_prog" where
  "world_call p = (\<lambda>s. case p (rn_world s) of (r, w') \<Rightarrow> (r, s\<lparr>rn_world := w'\<rparr>))"

definition foreign :: "('w, string, 'a) sync_port \<Rightarrow> ('w, sync_exc, 'a) sync_port" where
  "foreign p = (\<lambda>w. case p w of (Inl n, w') \<Rightarrow> (Inl (Foreign n), w') | (Inr x, w') \<Rightarrow> (Inr x, w'))"

definition clock_call :: "'w sync_env \<Rightarrow> ('w, rat) sync_prog" where
  "clock_call E = world_call (\<lambda>w. case se_clock E w of (t, w') \<Rightarrow> (Inr t, w'))"

lemma wp_world_call [wp_simps]:
  "wp (world_call p) Q E s =
     (case p (rn_world s) of (r, w') \<Rightarrow>
        (case r of Inl e \<Rightarrow> E e (s\<lparr>rn_world := w'\<rparr>) | Inr x \<Rightarrow> Q x (s\<lparr>rn_world := w'\<rparr>)))"
  by (simp add: wp_def world_call_def split: prod.splits sum.splits)

section \<open>Checkpoints in the engine's key-value store\<close>

definition checkpoint_key :: "string \<Rightarrow> string \<Rightarrow> string" where
  "checkpoint_key connector source_id = ''ingest-source/'' @ connector @ ''/'' @ source_id"

definition kv_load :: "'w sync_env \<Rightarrow> string \<Rightarrow> ('w, sync_exc, checkpoint \<times> int) sync_port" where
  "kv_load E source_id w =
     (case foreign (se_get E (checkpoint_key (se_connector E) source_id)) w of
        (Inl e, w') \<Rightarrow> (Inl e, w')
      | (Inr None, w') \<Rightarrow> (Inr (fresh_checkpoint (se_connector E) source_id, 0), w')
      | (Inr (Some entry), w') \<Rightarrow> (Inr entry, w'))"

definition kv_store :: "'w sync_env \<Rightarrow> checkpoint \<Rightarrow> int \<Rightarrow> ('w, sync_exc, int) sync_port" where
  "kv_store E ck version w =
     (case foreign (se_cas E (checkpoint_key (ck_connector ck) (ck_source_id ck)) version ck) w of
        (Inl e, w') \<Rightarrow> (Inl e, w')
      | (Inr (swapped, v), w') \<Rightarrow>
          (if swapped then Inr v
           else Inl (SyncError ''checkpoint_conflict'' ''another writer moved the source checkpoint''), w'))"

definition store :: "'w sync_env \<Rightarrow> ('w, unit) sync_prog" where
  "store E = (\<lambda>s. case kv_store E (rn_state s) (rn_version s) (rn_world s) of
       (r, w') \<Rightarrow>
         (let s' = s\<lparr>rn_world := w', rn_log := rn_log s @ [EvStore (rn_state s) (rn_version s) r]\<rparr>
          in case r of Inl e \<Rightarrow> (Inl e, s') | Inr v \<Rightarrow> (Inr (), s'\<lparr>rn_version := v\<rparr>)))"

section \<open>Bounded calls\<close>

definition exhausted :: "'w sync_env \<Rightarrow> ('w, bool) sync_prog" where
  "exhausted E =
     bindP (getsP (\<lambda>s. s)) (\<lambda>s.
       if sb_max_pages (se_budget E) \<le> rn_pages s \<or> sb_max_records (se_budget E) \<le> rn_seen s
       then returnP True
       else bindP (clock_call E) (\<lambda>t. returnP (sb_max_seconds (se_budget E) \<le> t - rn_started s)))"

definition call_arguments ::
  "source_spec \<Rightarrow> nat \<Rightarrow> (string, json) dict \<Rightarrow> (string, json) dict" where
  "call_arguments spec page scope =
     (let arguments = dict_update (sp_arguments spec) scope in
      case (sp_pagination spec, named (sp_page_param spec)) of
        (PagePage, Some p) \<Rightarrow>
          (let a = dict_set p (JInt (int page)) arguments in
           case named (sp_page_size_param spec) of
             None \<Rightarrow> a
           | Some q \<Rightarrow> dict_set q (JInt (int (sp_page_size spec))) a)
      | _ \<Rightarrow> arguments)"

fun exception_name :: "sync_exc \<Rightarrow> string" where
  "exception_name (SyncError r m) = ''SourceSyncError''"
| "exception_name (Foreign n) = n"
| "exception_name Cancelled = ''CancelledError''"

text \<open>
  \<open>_call\<close>: \<open>n\<close> attempts are left; the last failure's class goes into the message. A cancellation is
  no \<^theory_text>\<open>Exception\<close> and is not caught.
\<close>

fun call_attempts ::
  "'w sync_env \<Rightarrow> nat \<Rightarrow> backoff \<Rightarrow> sync_exc option \<Rightarrow> string \<Rightarrow> (string, json) dict \<Rightarrow> ('w, json) sync_prog"
where
  "call_attempts E 0 bo failure tool arguments =
     raiseP (SyncError ''tool_failed''
       (tool @ '' failed ('' @ (case failure of None \<Rightarrow> ''NoneType'' | Some e \<Rightarrow> exception_name e) @ '')''))"
| "call_attempts E (Suc n) bo failure tool arguments = (\<lambda>s.
     case world_call (se_call E tool arguments) s of
       (Inr v, s') \<Rightarrow> (Inr v, s')
     | (Inl Cancelled, s') \<Rightarrow> (Inl Cancelled, s')
     | (Inl e, s') \<Rightarrow>
         (if n = 0 then call_attempts E n bo (Some e) tool arguments s'
          else (case next_delay bo of (d, bo') \<Rightarrow>
            thenP (world_call (se_sleep E d)) (call_attempts E n bo' (Some e) tool arguments) s')))"

definition tool_call :: "'w sync_env \<Rightarrow> string \<Rightarrow> (string, json) dict \<Rightarrow> ('w, json) sync_prog" where
  "tool_call E tool arguments =
     call_attempts E (sb_attempts (se_budget E)) (sb_backoff (se_budget E)) None tool arguments"

definition deadline_exceeded :: sync_exc where
  "deadline_exceeded = SyncError ''deadline_exceeded'' ''source time budget ended''"

definition budgeted_call :: "'w sync_env \<Rightarrow> string \<Rightarrow> (string, json) dict \<Rightarrow> ('w, json) sync_prog" where
  "budgeted_call E tool arguments =
     bindP (getsP rn_started) (\<lambda>started.
     bindP (clock_call E) (\<lambda>t.
       if sb_max_seconds (se_budget E) - (t - started) \<le> 0 then raiseP deadline_exceeded
       else catchP (tool_call E tool arguments)
         (\<lambda>e. if e = Cancelled then Some (raiseP deadline_exceeded) else None)))"

definition source_page ::
  "'w sync_env \<Rightarrow> source_spec \<Rightarrow> string \<Rightarrow> (string, json) dict \<Rightarrow> ('w, (string, json) dict list) sync_prog"
where
  "source_page E spec tool arguments =
     bindP (budgeted_call E tool arguments) (\<lambda>result.
     bindP (liftP (records_in (se_py E) result spec)) (\<lambda>records.
     thenP (modifyP (\<lambda>s. s\<lparr>rn_pages := rn_pages s + 1\<rparr>))
     (bindP (getsP rn_seen) (\<lambda>seen.
      thenP (liftP (refuse_if (int (sb_max_records (se_budget E)) - int seen < int (length records))
               (SyncError ''record_budget_exceeded'' ''page exceeds remaining record budget'')))
      (returnP records)))))"

section \<open>Taking records\<close>

definition is_unchanged ::
  "pyenv \<Rightarrow> source_spec \<Rightarrow> 'w run \<Rightarrow> string \<Rightarrow> string option \<Rightarrow> (string, json) dict \<Rightarrow> bool" where
  "is_unchanged py spec s record_id cursor r \<longleftrightarrow>
     sp_incremental spec \<and> rn_mode s \<noteq> ''full''
       \<and> (case (cursor, ck_cursor (rn_state s)) of (Some c, Some d) \<Rightarrow> c \<le> d | _ \<Rightarrow> False)
     \<or> map_of (ck_digests (rn_state s)) record_id = Some (record_digest py r)"

definition binding_tool :: "source_spec \<Rightarrow> 'w run \<Rightarrow> string option \<Rightarrow> string" where
  "binding_tool spec s tool =
     (case named tool of
        Some t \<Rightarrow> t
      | None \<Rightarrow> (case named (rn_pending_tool s) of Some t \<Rightarrow> t | None \<Rightarrow> hd (sp_tools spec)))"

definition pending_records :: "'w run \<Rightarrow> (string, entity) dict" where
  "pending_records s =
     fold (\<lambda>(t, _) d. case t of None \<Rightarrow> d | Some e \<Rightarrow> set_default (en_id e) e d) (rn_pending_edges s)
       (dict_update [] (map (\<lambda>(e, _). (en_id e, e)) (rn_pending s)))"

definition max_digests :: nat where
  "max_digests = 50000"

definition merged_digests ::
  "(string, string) dict \<Rightarrow> (entity \<times> string) list \<Rightarrow> (string, string) dict" where
  "merged_digests digests pending =
     (let d = dict_update digests (map (\<lambda>(e, g). (en_id e, g)) pending)
      in drop (length d - max_digests) d)"

definition clear_pending :: "'w run \<Rightarrow> 'w run" where
  "clear_pending s = s\<lparr>rn_pending := [], rn_pending_edges := [], rn_pending_tool := None\<rparr>"

text \<open>\<open>IngestBinding\<close> refuses blank identities.\<close>

definition binding_new :: "'w sync_env \<Rightarrow> source_spec \<Rightarrow> string \<Rightarrow> sync_exc + sync_binding" where
  "binding_new E spec tool =
     andR (refuse_if (blank (se_connector E) \<or> blank (sp_source_id spec) \<or> blank tool) (Foreign ''ValueError''))
       (Inr \<lparr>bn_connector = se_connector E, bn_stream = sp_source_id spec, bn_server = se_server E,
             bn_tool = tool\<rparr>)"

definition submit_pending ::
  "'w sync_env \<Rightarrow> sync_binding \<Rightarrow> (string, entity) dict \<Rightarrow> ('w, string) sync_prog" where
  "submit_pending E binding records = (\<lambda>s.
     let changes = \<lparr>cb_entities = map snd records, cb_relationships = map snd (rn_pending_edges s),
                    cb_cursor = rn_cursor s\<rparr>
     in case se_submit E binding changes (rn_world s) of
          (r, w') \<Rightarrow>
            (let s' = s\<lparr>rn_world := w',
                        rn_log := rn_log s @ [EvSubmit (rn_state s) changes (rn_pending s) r]\<rparr>
             in case r of
                  Inr batch \<Rightarrow> (Inr batch, s')
                | Inl (IngestRefused m) \<Rightarrow> (Inl (SyncError ''ingest_refused'' m), clear_pending s')
                | Inl (SubmitForeign n) \<Rightarrow> (Inl (Foreign n), s')))"

definition accept_batch :: "string \<Rightarrow> 'w run \<Rightarrow> 'w run" where
  "accept_batch batch s =
     (let digests = merged_digests (ck_digests (rn_state s)) (rn_pending s) in
      (clear_pending (s\<lparr>rn_batches := rn_batches s @ [batch],
                        rn_submitted := rn_submitted s + length (rn_pending s)\<rparr>))
        \<lparr>rn_state := (rn_state s)\<lparr>ck_digests := digests, ck_cursor := rn_cursor s,
                                  ck_records := length digests, ck_state := ''running''\<rparr>\<rparr>)"

definition flush :: "'w sync_env \<Rightarrow> source_spec \<Rightarrow> string option \<Rightarrow> ('w, unit) sync_prog" where
  "flush E spec tool =
     bindP (getsP (\<lambda>s. s)) (\<lambda>s.
       if rn_pending s = [] then returnP ()
       else
         bindP (liftP (binding_new E spec (binding_tool spec s tool))) (\<lambda>binding.
         bindP (submit_pending E binding (pending_records s)) (\<lambda>batch.
         thenP (modifyP (accept_batch batch)) (store E))))"

definition newer :: "string option \<Rightarrow> string option \<Rightarrow> string option" where
  "newer cursor current =
     (case cursor of
        None \<Rightarrow> current
      | Some c \<Rightarrow> (case current of None \<Rightarrow> Some c | Some d \<Rightarrow> if d < c then Some c else Some d))"

definition take_record ::
  "'w sync_env \<Rightarrow> source_spec \<Rightarrow> string \<Rightarrow> (string, json) dict \<Rightarrow> ('w, unit) sync_prog" where
  "take_record E spec tool r =
     (let py = se_py E; raw_id = get r (sp_id_field spec); record_id = py_str py raw_id;
          cursor_value = (case named (sp_cursor_field spec) of None \<Rightarrow> JNull | Some f \<Rightarrow> get r f);
          cursor = (if cursor_value = JNull then None else Some (py_str py cursor_value)) in
      thenP (modifyP (\<lambda>s. s\<lparr>rn_seen := rn_seen s + 1\<rparr>))
      (if raw_id = JNull \<or> blank record_id then returnP ()
       else bindP (getsP (\<lambda>s. is_unchanged py spec s record_id cursor r)) (\<lambda>unchanged.
         if unchanged then modifyP (\<lambda>s. s\<lparr>rn_unchanged := rn_unchanged s + 1\<rparr>)
         else
           thenP (modifyP (\<lambda>s. s\<lparr>rn_pending_tool := Some tool,
              rn_pending := rn_pending s @
                [(\<lparr>en_id = record_id, en_node_type = sp_record_type spec,
                   en_properties = properties_of r spec, en_updated_at = cursor\<rparr>, record_digest py r)]\<rparr>))
           (bindP (liftP (edges_of py record_id r spec)) (\<lambda>edges.
            thenP (modifyP (\<lambda>s. s\<lparr>rn_pending_edges := rn_pending_edges s @ edges,
                                  rn_cursor := newer cursor (rn_cursor s)\<rparr>))
            (bindP (getsP (\<lambda>s. length (rn_pending s))) (\<lambda>n.
              if sb_batch_size (se_budget E) \<le> n then flush E spec (Some tool) else returnP ())))))))"

fun take_page ::
  "'w sync_env \<Rightarrow> source_spec \<Rightarrow> string \<Rightarrow> (string, json) dict list \<Rightarrow> ('w, unit) sync_prog" where
  "take_page E spec tool [] = returnP ()"
| "take_page E spec tool (r # rs) = thenP (take_record E spec tool r) (take_page E spec tool rs)"

section \<open>Sweeps\<close>

definition unsupported :: sync_exc where
  "unsupported = SyncError ''pagination_unsupported'' ''source sync cannot consume this pagination form''"

text \<open>
  The page loop of \<open>_sweep_tool\<close>. Every round reads a page or ends, and a run reads at most
  \<open>max_pages\<close> pages, so one round more than the pages left is enough.
\<close>

fun sweep_pages ::
  "nat \<Rightarrow> 'w sync_env \<Rightarrow> source_spec \<Rightarrow> string \<Rightarrow> (string, json) dict \<Rightarrow> nat \<Rightarrow> ('w, bool) sync_prog" where
  "sweep_pages 0 E spec tool scope page = raiseP (Foreign ''rounds'')"
| "sweep_pages (Suc n) E spec tool scope page =
     bindP (exhausted E) (\<lambda>ended.
       if ended then thenP (flush E spec None) (returnP False)
       else
         bindP (source_page E spec tool (call_arguments spec page scope)) (\<lambda>records.
         thenP (take_page E spec tool records)
           (if sp_pagination spec \<noteq> PagePage \<or> length records < sp_page_size spec
            then thenP (flush E spec (Some tool)) (returnP True)
            else sweep_pages n E spec tool scope (page + 1))))"

definition sweep_tool ::
  "'w sync_env \<Rightarrow> source_spec \<Rightarrow> string \<Rightarrow> (string, json) dict \<Rightarrow> ('w, bool) sync_prog" where
  "sweep_tool E spec tool scope =
     (if sp_pagination spec \<notin> {PageNone, PagePage} then raiseP unsupported
      else bindP (getsP rn_pages) (\<lambda>pages.
        sweep_pages (Suc (sb_max_pages (se_budget E) - pages)) E spec tool scope (sp_start_page spec)))"

text \<open>\<open>value not in values\<close> is Python equality.\<close>

fun append_parent_records ::
  "nat \<Rightarrow> json list \<Rightarrow> (string, json) dict list \<Rightarrow> string \<Rightarrow> sync_exc + json list" where
  "append_parent_records limit values [] field = Inr values"
| "append_parent_records limit values (r # rs) field =
     (let v = get r field in
      if v = JNull \<or> list_ex (\<lambda>w. py_eq w v) values then append_parent_records limit values rs field
      else andR (refuse_if (limit < length (values @ [v]))
                  (SyncError ''fan_out_exceeded'' ''parent source exceeded the fan-out budget''))
             (append_parent_records limit (values @ [v]) rs field))"

fun parent_pages ::
  "nat \<Rightarrow> 'w sync_env \<Rightarrow> source_spec \<Rightarrow> string \<Rightarrow> (string, json) dict \<Rightarrow> string \<Rightarrow> nat \<Rightarrow> json list
   \<Rightarrow> ('w, json list) sync_prog" where
  "parent_pages 0 E parent tool scope field page values = raiseP (Foreign ''rounds'')"
| "parent_pages (Suc n) E parent tool scope field page values =
     bindP (exhausted E) (\<lambda>ended.
       if ended then raiseP (SyncError ''parent_budget_exhausted''
         (''budget ended while reading parent '' @ sp_source_id parent))
       else
         bindP (budgeted_call E tool (call_arguments parent page scope)) (\<lambda>result.
         bindP (liftP (records_in (se_py E) result parent)) (\<lambda>records.
         thenP (modifyP (\<lambda>s. s\<lparr>rn_pages := rn_pages s + 1\<rparr>))
         (bindP (liftP (append_parent_records (sb_max_fan_out (se_budget E)) values records field)) (\<lambda>values'.
           if sp_pagination parent \<noteq> PagePage \<or> length records < sp_page_size parent
           then returnP values'
           else parent_pages n E parent tool scope field (page + 1) values')))))"

definition parent_sweep ::
  "'w sync_env \<Rightarrow> source_spec \<Rightarrow> string \<Rightarrow> (string, json) dict \<Rightarrow> string \<Rightarrow> json list \<Rightarrow> ('w, json list) sync_prog"
where
  "parent_sweep E parent tool scope field values =
     (if sp_pagination parent \<notin> {PageNone, PagePage} then raiseP unsupported
      else bindP (getsP rn_pages) (\<lambda>pages.
        parent_pages (Suc (sb_max_pages (se_budget E) - pages)) E parent tool scope field
          (sp_start_page parent) values))"

definition require_read_only :: "'w sync_env \<Rightarrow> string \<Rightarrow> ('w, unit) sync_prog" where
  "require_read_only E tool =
     bindP (world_call (foreign (se_read_only E tool))) (\<lambda>ok.
       liftP (refuse_if (\<not> ok) (SyncError ''not_read_only'' (''tool '' @ tool @ '' is not marked read-only''))))"

fun parent_tools ::
  "'w sync_env \<Rightarrow> source_spec \<Rightarrow> string \<Rightarrow> ((string, json) dict \<times> string) list \<Rightarrow> json list
   \<Rightarrow> ('w, json list) sync_prog" where
  "parent_tools E parent field [] values = returnP values"
| "parent_tools E parent field ((scope, tool) # rest) values =
     thenP (require_read_only E tool)
     (bindP (parent_sweep E parent tool scope field values) (\<lambda>values'.
        parent_tools E parent field rest values'))"

text \<open>
  \<open>_parent_values\<close>. The chain holds no source twice, so one level more than there are declared
  sources is enough.
\<close>

fun parent_values ::
  "nat \<Rightarrow> 'w sync_env \<Rightarrow> (string, source_spec) dict \<Rightarrow> source_spec \<Rightarrow> string list \<Rightarrow> ('w, json list) sync_prog"
where
  "parent_values 0 E sources spec chain0 = raiseP (Foreign ''RecursionError'')"
| "parent_values (Suc n) E sources spec chain0 =
     (case sp_for_each spec of
        None \<Rightarrow> returnP []
      | Some link \<Rightarrow>
          let chain = chain0 @ [sp_source_id spec] in
          (case map_of sources (fe_source link) of
             None \<Rightarrow> raiseP (SyncError ''unknown_parent_source''
               (''source '' @ sp_source_id spec @ '' follows undeclared source '' @ fe_source link))
           | Some parent \<Rightarrow>
               if fe_source link \<in> set chain then
                 raiseP (SyncError ''for_each_cycle''
                   (''sources '' @ join_with '' -> '' (chain @ [fe_source link])))
               else
                 bindP (case sp_for_each parent of
                          None \<Rightarrow> returnP [[]]
                        | Some up \<Rightarrow> bindP (parent_values n E sources parent chain) (\<lambda>vs.
                            returnP (map (\<lambda>v. [(fe_argument up, v)]) vs)))
                   (\<lambda>scopes. parent_tools E parent (fe_field link)
                      (concat (map (\<lambda>scope. map (Pair scope) (sp_tools parent)) scopes)) [])))"

fun sweep_scopes ::
  "'w sync_env \<Rightarrow> source_spec \<Rightarrow> ((string, json) dict \<times> string) list \<Rightarrow> ('w, string) sync_prog" where
  "sweep_scopes E spec [] = returnP ''completed''"
| "sweep_scopes E spec ((scope, tool) # rest) =
     bindP (sweep_tool E spec tool scope) (\<lambda>all_read.
       if all_read then sweep_scopes E spec rest else returnP ''partial'')"

definition sweep ::
  "'w sync_env \<Rightarrow> source_spec \<Rightarrow> (string, source_spec) dict \<Rightarrow> ('w, string) sync_prog" where
  "sweep E spec sources =
     bindP (case sp_for_each spec of
              None \<Rightarrow> returnP [[]]
            | Some link \<Rightarrow> bindP (parent_values (length sources + 2) E sources spec []) (\<lambda>vs.
                returnP (map (\<lambda>v. [(fe_argument link, v)]) vs)))
       (\<lambda>scopes. sweep_scopes E spec (concat (map (\<lambda>scope. map (Pair scope) (sp_tools spec)) scopes)))"

section \<open>One run\<close>

text \<open>\<open>_ENGINE_CODE\<close> in a text: the first whole word of at least two upper-case parts.\<close>

definition word_char :: "char \<Rightarrow> bool" where
  "word_char c =
     (let n = (of_char c :: nat)
      in 48 \<le> n \<and> n \<le> 57 \<or> 65 \<le> n \<and> n \<le> 90 \<or> n = 95 \<or> 97 \<le> n \<and> n \<le> 122
         \<or> n \<in> {170, 178, 179, 181, 185, 186, 188, 189, 190} \<or> 192 \<le> n \<and> n \<noteq> 215 \<and> n \<noteq> 247)"

definition upper_or_digit :: "char \<Rightarrow> bool" where
  "upper_or_digit c = (let n = (of_char c :: nat) in 48 \<le> n \<and> n \<le> 57 \<or> 65 \<le> n \<and> n \<le> 90)"

definition is_engine_code :: "string \<Rightarrow> bool" where
  "is_engine_code w \<longleftrightarrow>
     (let parts = py_split CHR ''_'' w in
      2 \<le> length parts \<and> list_all (\<lambda>p. p \<noteq> [] \<and> list_all upper_or_digit p) parts
      \<and> 65 \<le> (of_char (hd w) :: nat))"

fun words_of :: "string \<Rightarrow> string list" where
  "words_of [] = [[]]"
| "words_of (c # cs) =
     (if word_char c then (case words_of cs of [] \<Rightarrow> [[c]] | w # ws \<Rightarrow> (c # w) # ws)
      else [] # words_of cs)"

definition engine_code :: "string \<Rightarrow> string option" where
  "engine_code text = List.find is_engine_code (words_of text)"

text \<open>
  \<open>_handle_sync_error\<close>: the flush of a partial run may fail in turn, which is handled the same
  way; a recursion deeper than the limit raises.
\<close>

primrec handle_sync_error ::
  "nat \<Rightarrow> 'w sync_env \<Rightarrow> source_spec \<Rightarrow> string \<Rightarrow> string
   \<Rightarrow> ('w, string \<times> string option \<times> string option) sync_prog" where
  "handle_sync_error 0 = (\<lambda>E spec reason message. raiseP (Foreign ''RecursionError''))"
| "handle_sync_error (Suc n) = (\<lambda>E spec reason message.
     if reason = ''checkpoint_conflict'' then raiseP (SyncError reason message)
      else if reason \<in> {''deadline_exceeded'', ''record_budget_exceeded''} then
        catchP (thenP (flush E spec None) (returnP (''partial'', Some reason, None)))
          (\<lambda>e. case e of
             SyncError r m \<Rightarrow> Some (handle_sync_error n E spec r m)
           | _ \<Rightarrow> None)
      else returnP (''failed'', Some reason,
             if reason = ''ingest_refused'' then engine_code (reason @ '': '' @ message) else None))"

definition report_of :: "'w sync_env \<Rightarrow> source_spec \<Rightarrow> 'w run \<Rightarrow> string \<Rightarrow> string option \<Rightarrow> string option \<Rightarrow> sync_report"
where
  "report_of E spec s final reason code =
     \<lparr>sr_connector = se_connector E, sr_source_id = sp_source_id spec, sr_mode = rn_mode s,
      sr_state = final, sr_pages = rn_pages s, sr_records_seen = rn_seen s,
      sr_submitted = rn_submitted s, sr_unchanged = rn_unchanged s, sr_batch_digests = rn_batches s,
      sr_cursor_before = rn_cursor_before s, sr_cursor_after = ck_cursor (rn_state s),
      sr_reason = reason, sr_engine_code = code\<rparr>"

text \<open>The part of \<open>sync\<close> after the run record was built.\<close>

definition sync_run ::
  "'w sync_env \<Rightarrow> source_spec \<Rightarrow> string option \<Rightarrow> (string, source_spec) dict \<Rightarrow> ('w, sync_report) sync_prog"
where
  "sync_run E spec job_id sources =
     bindP (catchP (bindP (sweep E spec sources) (\<lambda>final. returnP (final, None, None)))
              (\<lambda>e. case e of
                 SyncError r m \<Rightarrow> Some (handle_sync_error 1000 E spec r m)
               | _ \<Rightarrow> None))
       (\<lambda>(final, reason, code).
         bindP (getsP (\<lambda>s. report_of E spec s final reason code)) (\<lambda>report.
         thenP (modifyP (\<lambda>s. s\<lparr>rn_state := (rn_state s)\<lparr>ck_state := final, ck_last_job_id := job_id,
                                                  ck_last_report := Some report\<rparr>\<rparr>))
         (thenP (store E) (returnP report))))"

definition run_new :: "string \<Rightarrow> checkpoint \<Rightarrow> int \<Rightarrow> rat \<Rightarrow> 'w \<Rightarrow> 'w run" where
  "run_new mode ck0 version started w =
     (let ck = (if mode = ''full'' then ck0\<lparr>ck_cursor := None, ck_digests := []\<rparr> else ck0)
      in \<lparr>rn_world = w, rn_log = [], rn_state = ck, rn_version = version, rn_mode = mode,
          rn_started = started, rn_pages = 0, rn_seen = 0, rn_submitted = 0, rn_unchanged = 0,
          rn_batches = [], rn_pending = [], rn_pending_tool = None, rn_pending_edges = [],
          rn_cursor = ck_cursor ck, rn_cursor_before = ck_cursor ck\<rparr>)"

fun check_tools :: "'w sync_env \<Rightarrow> string list \<Rightarrow> ('w, sync_exc, unit) sync_port" where
  "check_tools E [] w = (Inr (), w)"
| "check_tools E (t # ts) w =
     (case foreign (se_read_only E t) w of
        (Inl e, w') \<Rightarrow> (Inl e, w')
      | (Inr ok, w') \<Rightarrow>
          if ok then check_tools E ts w'
          else (Inl (SyncError ''not_read_only'' (''tool '' @ t @ '' is not marked read-only'')), w'))"

text \<open>\<open>sync\<close> answers its report or exception with the run it made, if it got that far.\<close>

definition sync ::
  "'w sync_env \<Rightarrow> source_spec \<Rightarrow> string \<Rightarrow> string option \<Rightarrow> (string, source_spec) dict \<Rightarrow> 'w
   \<Rightarrow> (sync_exc + sync_report) \<times> 'w run option \<times> 'w" where
  "sync E spec mode job_id sources w =
     (case check_tools E (sp_tools spec) w of
        (Inl e, w1) \<Rightarrow> (Inl e, None, w1)
      | (Inr u, w1) \<Rightarrow>
          (case kv_load E (sp_source_id spec) w1 of
             (Inl e, w2) \<Rightarrow> (Inl e, None, w2)
           | (Inr (ck, version), w2) \<Rightarrow>
               (case se_clock E w2 of (t, w3) \<Rightarrow>
                  (case sync_run E spec job_id sources (run_new mode ck version t w3) of
                     (r, s) \<Rightarrow> (r, Some s, rn_world s)))))"

end
