(* ===== verification/Sync_Safety.thy ===== *)
theory Sync_Safety
  imports Source_Sync
begin

text \<open>
  What a run of the source runner guarantees over any session, facade and store: the durable
  checkpoint moves only behind accepted submissions, a record whose digest is recorded is not
  submitted again, and a run stays within its budget.
\<close>

section \<open>Checkpoints behind submissions\<close>

definition fresh_records :: "checkpoint \<Rightarrow> (entity \<times> string) list \<Rightarrow> bool" where
  "fresh_records ck pending \<longleftrightarrow> list_all (\<lambda>(e, d). map_of (ck_digests ck) (en_id e) \<noteq> Some d) pending"

definition carries :: "change_batch \<Rightarrow> (entity \<times> string) list \<Rightarrow> bool" where
  "carries ch pending \<longleftrightarrow>
     list_all (\<lambda>(e, d). \<exists>e' \<in> set (cb_entities ch). en_id e' = en_id e \<and> e' \<in> fst ` set pending) pending"

definition advanced :: "checkpoint \<Rightarrow> change_batch \<Rightarrow> (entity \<times> string) list \<Rightarrow> checkpoint" where
  "advanced ck ch pending =
     (let digests = merged_digests (ck_digests ck) pending in
      ck\<lparr>ck_digests := digests, ck_cursor := cb_cursor ch, ck_records := length digests,
         ck_state := ''running''\<rparr>)"

text \<open>
  \<open>sync_chain ck0 log ck n bs\<close>: from the loaded checkpoint \<open>ck0\<close> the log led to the stored checkpoint
  \<open>ck\<close>, \<open>n\<close> records were accepted and \<open>bs\<close> are the accepted batches. A refused submission changes
  nothing; an accepted one is stored at once, with exactly its records and its cursor.
\<close>

inductive sync_chain ::
  "checkpoint \<Rightarrow> sync_event list \<Rightarrow> checkpoint \<Rightarrow> nat \<Rightarrow> string list \<Rightarrow> bool" for ck0 where
  chain_start: "sync_chain ck0 [] ck0 0 []"
| chain_refused: "sync_chain ck0 l ck n bs \<Longrightarrow> fresh_records ck pend \<Longrightarrow>
    sync_chain ck0 (l @ [EvSubmit ck ch pend (Inl e)]) ck n bs"
| chain_stored: "sync_chain ck0 l ck n bs \<Longrightarrow> fresh_records ck pend \<Longrightarrow> pend \<noteq> [] \<Longrightarrow> carries ch pend \<Longrightarrow>
    sync_chain ck0 (l @ [EvSubmit ck ch pend (Inr b), EvStore (advanced ck ch pend) v (Inr v')])
      (advanced ck ch pend) (n + length pend) (bs @ [b])"

inductive_cases sync_chain_nil: "sync_chain ck0 [] ck n bs"

definition in_step :: "checkpoint \<Rightarrow> 'w run \<Rightarrow> bool" where
  "in_step ck0 s \<longleftrightarrow>
     sync_chain ck0 (rn_log s) (rn_state s) (rn_submitted s) (rn_batches s)
     \<and> fresh_records (rn_state s) (rn_pending s)"

text \<open>The store after an accepted submission failed: a conflict or an exception of the store.\<close>

fun unhandled :: "sync_exc \<Rightarrow> bool" where
  "unhandled (SyncError r m) = (r = ''checkpoint_conflict'')"
| "unhandled e = True"

definition store_failed :: "checkpoint \<Rightarrow> sync_exc \<Rightarrow> 'w run \<Rightarrow> bool" where
  "store_failed ck0 e s \<longleftrightarrow> unhandled e \<and>
     (\<exists>l ck n bs ch pend b v x. sync_chain ck0 l ck n bs \<and> fresh_records ck pend \<and> carries ch pend
        \<and> rn_log s = l @ [EvSubmit ck ch pend (Inr b), EvStore (advanced ck ch pend) v (Inl x)])"

definition broken_off :: "checkpoint \<Rightarrow> sync_exc \<Rightarrow> 'w run \<Rightarrow> bool" where
  "broken_off ck0 e s \<longleftrightarrow> in_step ck0 s \<or> store_failed ck0 e s"

abbreviation steady :: "checkpoint \<Rightarrow> ('w, 'a) sync_prog \<Rightarrow> bool" where
  "steady ck0 m \<equiv> inv_prog (in_step ck0) (broken_off ck0) m"

lemma in_step_world [simp]: "in_step ck0 (s\<lparr>rn_world := w\<rparr>) = in_step ck0 s"
  and in_step_pages [simp]: "in_step ck0 (s\<lparr>rn_pages := p\<rparr>) = in_step ck0 s"
  and in_step_seen [simp]: "in_step ck0 (s\<lparr>rn_seen := n\<rparr>) = in_step ck0 s"
  and in_step_unchanged [simp]: "in_step ck0 (s\<lparr>rn_unchanged := n\<rparr>) = in_step ck0 s"
  by (simp_all add: in_step_def)

lemma broken_off_in_step: "in_step ck0 s \<Longrightarrow> broken_off ck0 e s"
  by (simp add: broken_off_def)

text \<open>A calm program keeps the invariant even when it raises: it stores nothing.\<close>

abbreviation calm :: "checkpoint \<Rightarrow> ('w, 'a) sync_prog \<Rightarrow> bool" where
  "calm ck0 m \<equiv> inv_prog (in_step ck0) (\<lambda>_. in_step ck0) m"

lemma calm_steady: "calm ck0 m \<Longrightarrow> steady ck0 m"
  by (auto simp: inv_prog_def broken_off_in_step elim!: wp_mono)

lemma calm_world [inv_rules]: "calm ck0 (world_call p)"
  by (auto simp: inv_prog_def wp_simps split: prod.splits sum.splits)

lemma calm_clock [inv_rules]: "calm ck0 (clock_call E)"
  unfolding clock_call_def by (rule calm_world)

lemma calm_raise [inv_rules]: "calm ck0 (raiseP e)"
  by (rule inv_raise)

lemma calm_exhausted [inv_rules]: "calm ck0 (exhausted E)"
  unfolding exhausted_def by (intro inv_rules)

lemma calm_call_attempts [inv_rules]: "calm ck0 (call_attempts E n bo failure tool arguments)"
proof (induction n arbitrary: bo failure)
  case (Suc n)
  show ?case
  proof (rule inv_progI)
    fix s :: "'a run"
    assume s: "in_step ck0 s"
    obtain r w where r: "se_call E tool arguments (rn_world s) = (r, w)"
      by (cases "se_call E tool arguments (rn_world s)")
    have s': "in_step ck0 (s\<lparr>rn_world := w\<rparr>)" using s by simp
    have next0: "wp (call_attempts E n bo f tool arguments) (\<lambda>_. in_step ck0) (\<lambda>_. in_step ck0) (s\<lparr>rn_world := w\<rparr>)" for f
      using Suc.IH [of bo f] s' unfolding inv_prog_def by blast
    have "calm ck0 (thenP (world_call (se_sleep E d)) (call_attempts E n bo' f tool arguments))" for d bo' f
      by (intro inv_then calm_world Suc.IH)
    then have next1: "wp (thenP (world_call (se_sleep E d)) (call_attempts E n bo' f tool arguments))
        (\<lambda>_. in_step ck0) (\<lambda>_. in_step ck0) (s\<lparr>rn_world := w\<rparr>)" for d bo' f
      using s' unfolding inv_prog_def by blast
    show "wp (call_attempts E (Suc n) bo failure tool arguments) (\<lambda>_. in_step ck0) (\<lambda>_. in_step ck0) s"
    proof (cases r)
      case (Inr v)
      with r s show ?thesis by (simp add: wp_def world_call_def)
    next
      case (Inl e)
      show ?thesis
      proof (cases "e = Cancelled")
        case True
        with r s Inl show ?thesis by (simp add: wp_def world_call_def)
      next
        case False
        then have eq: "call_attempts E (Suc n) bo failure tool arguments s =
            (if n = 0 then call_attempts E n bo (Some e) tool arguments (s\<lparr>rn_world := w\<rparr>)
             else case next_delay bo of (d, bo') \<Rightarrow>
               thenP (world_call (se_sleep E d)) (call_attempts E n bo' (Some e) tool arguments) (s\<lparr>rn_world := w\<rparr>))"
          using r Inl by (cases e) (simp_all add: world_call_def)
        show ?thesis unfolding wp_def eq
          by (cases "n = 0"; cases "next_delay bo")
            (use next0 [of "Some e"] next1 in \<open>simp_all add: wp_def\<close>)
      qed
    qed
  qed
qed (simp add: inv_rules)

lemma calm_budgeted [inv_rules]: "calm ck0 (budgeted_call E tool arguments)"
proof -
  have "calm ck0 (tool_call E tool arguments)"
    unfolding tool_call_def by (rule calm_call_attempts)
  then have "calm ck0 (catchP (tool_call E tool arguments)
      (\<lambda>e. if e = Cancelled then Some (raiseP deadline_exceeded) else None))"
    unfolding inv_prog_def wp_catch by (auto simp: wp_simps elim!: wp_mono)
  then show ?thesis unfolding budgeted_call_def by (intro inv_rules)
qed

lemma calm_source_page [inv_rules]: "calm ck0 (source_page E spec tool arguments)"
  unfolding source_page_def by (intro inv_rules) simp_all

lemma calm_read_only [inv_rules]: "calm ck0 (require_read_only E tool)"
  unfolding require_read_only_def by (intro inv_rules)

lemma calm_parent_pages [inv_rules]: "calm ck0 (parent_pages n E parent tool scope field page vals)"
  by (induction n arbitrary: page vals) (auto intro!: inv_rules)

lemma calm_parent_sweep [inv_rules]: "calm ck0 (parent_sweep E parent tool scope field vals)"
  unfolding parent_sweep_def by (intro inv_rules)

lemma calm_parent_tools [inv_rules]: "calm ck0 (parent_tools E parent field scopes vals)"
  by (induction E parent field scopes vals rule: parent_tools.induct) (auto intro!: inv_rules)

lemma calm_parent_values [inv_rules]: "calm ck0 (parent_values n E sources spec chain)"
proof (induction n arbitrary: spec chain)
  case (Suc n)
  show ?case
    by (auto simp: Let_def intro!: inv_rules Suc split: option.splits)
qed (simp add: inv_rules)

section \<open>Flush\<close>

lemma fresh_records_snoc:
  "fresh_records ck (pend @ [(e, d)]) \<longleftrightarrow> fresh_records ck pend \<and> map_of (ck_digests ck) (en_id e) \<noteq> Some d"
  by (simp add: fresh_records_def)

lemma fresh_records_nil [simp]: "fresh_records ck []"
  by (simp add: fresh_records_def)

text \<open>Every pending record goes into the change set under its own id, the latest one of its id.\<close>

lemma dict_set_members: "set (dict_set k v c) \<subseteq> insert (k, v) (set c)"
  by (induction k v c rule: dict_set.induct) auto

lemma dict_update_members: "set (dict_update d c) \<subseteq> set d \<union> set c"
proof (induction d c rule: dict_update.induct)
  case (2 d k v e)
  then show ?case using dict_set_members [of k v d] by auto
qed simp

lemma dict_update_dom:
  "fst ` set (dict_update d e) = fst ` set d \<union> fst ` set e"
  by (induction d e rule: dict_update.induct) (auto simp: dict_set_keys)

lemma set_default_mono:
  "set d \<subseteq> set (fold (\<lambda>(t, _) d. case t of None \<Rightarrow> d | Some e \<Rightarrow> set_default (en_id e) e d) edges d)"
proof (induction edges arbitrary: d)
  case (Cons p edges)
  obtain t r where p: "p = (t, r)" by (cases p)
  have "set d \<subseteq> set (case t of None \<Rightarrow> d | Some e \<Rightarrow> set_default (en_id e) e d)"
    by (auto simp: set_default_def split: option.splits)
  also note Cons.IH
  finally show ?case by (simp add: p)
qed simp

lemma pending_carried:
  "carries \<lparr>cb_entities = map snd (pending_records s), cb_relationships = rels, cb_cursor = c\<rparr> (rn_pending s)"
  unfolding carries_def list_all_iff
proof (intro ballI)
  fix p
  assume mem: "p \<in> set (rn_pending s)"
  obtain e d where p: "p = (e, d)" by (cases p)
  let ?d0 = "dict_update [] (map (\<lambda>(e, g). (en_id e, e)) (rn_pending s))"
  have "en_id e \<in> fst ` set ?d0"
    using mem p by (force simp: dict_update_dom)
  then obtain e' where e': "(en_id e, e') \<in> set ?d0" by auto
  then have "en_id e' = en_id e \<and> e' \<in> fst ` set (rn_pending s)"
    using dict_update_members [of "[]" "map (\<lambda>(e, g). (en_id e, e)) (rn_pending s)"] by force
  moreover have "e' \<in> snd ` set (pending_records s)"
    using e' set_default_mono [of ?d0 "rn_pending_edges s"] unfolding pending_records_def by force
  ultimately show "case p of (e, d) \<Rightarrow> \<exists>e' \<in> set (cb_entities
      \<lparr>cb_entities = map snd (pending_records s), cb_relationships = rels, cb_cursor = c\<rparr>).
        en_id e' = en_id e \<and> e' \<in> fst ` set (rn_pending s)"
    by (auto simp: p)
qed

lemma steady_flush [inv_rules]: "steady ck0 (flush E spec tool)"
proof (rule inv_progI)
  fix s :: "'a run"
  assume s: "in_step ck0 s"
  show "wp (flush E spec tool) (\<lambda>_. in_step ck0) (broken_off ck0) s"
  proof (cases "rn_pending s = []")
    case True
    with s show ?thesis by (simp add: flush_def wp_simps)
  next
    case False
    let ?ch = "\<lparr>cb_entities = map snd (pending_records s), cb_relationships = map snd (rn_pending_edges s),
                cb_cursor = rn_cursor s\<rparr>"
    let ?ck = "advanced (rn_state s) ?ch (rn_pending s)"
    have chain: "sync_chain ck0 (rn_log s) (rn_state s) (rn_submitted s) (rn_batches s)"
      and fresh: "fresh_records (rn_state s) (rn_pending s)"
      using s by (simp_all add: in_step_def)
    show ?thesis
    proof (cases "binding_new E spec (binding_tool spec s tool)")
      case (Inl e)
      with s False show ?thesis by (simp add: flush_def wp_simps broken_off_in_step)
    next
      case (Inr bn)
      obtain r w where r: "se_submit E bn ?ch (rn_world s) = (r, w)"
        by (cases "se_submit E bn ?ch (rn_world s)")
      have refused: "in_step ck0 (s\<lparr>rn_world := w, rn_log := rn_log s @ [EvSubmit (rn_state s) ?ch (rn_pending s) (Inl x)]\<rparr>)"
        "in_step ck0 (clear_pending (s\<lparr>rn_world := w, rn_log := rn_log s @ [EvSubmit (rn_state s) ?ch (rn_pending s) (Inl x)]\<rparr>))" for x
        using chain_refused [OF chain fresh] fresh by (simp_all add: in_step_def clear_pending_def)
      show ?thesis
      proof (cases r)
        case (Inl x)
        with Inr r False refused [of x] show ?thesis
          by (cases x) (simp_all add: flush_def wp_simps wp_def submit_pending_def bindP_def liftP_def
              getsP_def broken_off_in_step Let_def)
      next
        case r': (Inr b)
        obtain q w2 where q: "kv_store E ?ck (rn_version s) w = (q, w2)"
          by (cases "kv_store E ?ck (rn_version s) w")
        have unh: "unhandled e" if "q = Inl e" for e
          using q that by (auto simp: kv_store_def foreign_def split: prod.splits sum.splits option.splits if_splits)
        have state: "rn_state (accept_batch b (s\<lparr>rn_world := w, rn_log := l\<rparr>)) = ?ck" for l
          by (simp add: accept_batch_def clear_pending_def advanced_def Let_def)
        let ?s2 = "accept_batch b (s\<lparr>rn_world := w, rn_log := rn_log s @ [EvSubmit (rn_state s) ?ch (rn_pending s) (Inr b)]\<rparr>)"
        have flushed: "flush E spec tool s = store E ?s2"
          using Inr r r' False
          by (simp add: flush_def submit_pending_def bindP_def thenP_def liftP_def getsP_def modifyP_def Let_def)
        have s2: "rn_world ?s2 = w" "rn_version ?s2 = rn_version s" "rn_pending ?s2 = []"
          "rn_log ?s2 = rn_log s @ [EvSubmit (rn_state s) ?ch (rn_pending s) (Inr b)]"
          "rn_submitted ?s2 = rn_submitted s + length (rn_pending s)" "rn_batches ?s2 = rn_batches s @ [b]"
          by (simp_all add: accept_batch_def clear_pending_def Let_def)
        show ?thesis
        proof (cases q)
          case (Inr v')
          with q s2 state chain_stored [OF chain fresh False pending_carried, of "map snd (rn_pending_edges s)" "rn_cursor s" b "rn_version s" v']
          show ?thesis
            by (simp add: wp_def flushed store_def Let_def in_step_def)
        next
          case (Inl e)
          have "store_failed ck0 e (s3 :: 'a run)"
            if "rn_log s3 = (rn_log s @ [EvSubmit (rn_state s) ?ch (rn_pending s) (Inr b)]) @ [EvStore ?ck (rn_version s) (Inl e)]" for s3
            using chain fresh pending_carried [of s "map snd (rn_pending_edges s)" "rn_cursor s"] unh [OF Inl] that
            unfolding store_failed_def by (intro conjI) (assumption, force)
          with q Inl s2 state show ?thesis
            by (simp add: wp_def flushed store_def Let_def broken_off_def)
        qed
      qed
    qed
  qed
qed

section \<open>Records, pages and sweeps\<close>

text \<open>The pending list grows only by a record whose digest is not the recorded one.\<close>

lemma in_step_take:
  assumes "in_step ck0 s" "map_of (ck_digests (rn_state s)) (en_id e) \<noteq> Some d"
  shows "in_step ck0 (s\<lparr>rn_pending_tool := t, rn_pending := rn_pending s @ [(e, d)]\<rparr>)"
  using assms by (simp add: in_step_def fresh_records_snoc)

lemma in_step_edges [simp]: "in_step ck0 (s\<lparr>rn_pending_edges := x, rn_cursor := c\<rparr>) = in_step ck0 s"
  by (simp add: in_step_def)

lemma steady_if_batch:
  "steady ck0 (bindP (getsP (\<lambda>s. length (rn_pending s))) (\<lambda>n. if k \<le> n then flush E spec tool else returnP ()))"
  by (intro inv_rules)

lemma steady_take_record [inv_rules]: "steady ck0 (take_record E spec tool r)"
proof -
  let ?raw = "get r (sp_id_field spec)"
  let ?id = "py_str (se_py E) ?raw"
  let ?cv = "case named (sp_cursor_field spec) of None \<Rightarrow> JNull | Some f \<Rightarrow> get r f"
  let ?c = "if ?cv = JNull then None else Some (py_str (se_py E) ?cv)"
  let ?d = "record_digest (se_py E) r"
  let ?e = "\<lparr>en_id = ?id, en_node_type = sp_record_type spec, en_properties = properties_of r spec,
             en_updated_at = ?c\<rparr>"
  let ?rest = "bindP (liftP (edges_of (se_py E) ?id r spec)) (\<lambda>edges.
            thenP (modifyP (\<lambda>s. s\<lparr>rn_pending_edges := rn_pending_edges s @ edges,
                                  rn_cursor := newer ?c (rn_cursor s)\<rparr>))
            (bindP (getsP (\<lambda>s. length (rn_pending s))) (\<lambda>n.
              if sb_batch_size (se_budget E) \<le> n then flush E spec (Some tool) else returnP ())))"
  have rest: "steady ck0 ?rest"
    by (intro inv_rules steady_if_batch calm_steady [OF inv_lift]) simp_all
  have "steady ck0 (bindP (getsP (\<lambda>s. is_unchanged (se_py E) spec s ?id ?c r)) (\<lambda>unchanged.
         if unchanged then modifyP (\<lambda>s. s\<lparr>rn_unchanged := rn_unchanged s + 1\<rparr>)
         else thenP (modifyP (\<lambda>s. s\<lparr>rn_pending_tool := Some tool, rn_pending := rn_pending s @ [(?e, ?d)]\<rparr>)) ?rest))"
  proof (rule inv_progI)
    fix s :: "'a run"
    assume s: "in_step ck0 s"
    show "wp (bindP (getsP (\<lambda>s. is_unchanged (se_py E) spec s ?id ?c r)) (\<lambda>unchanged.
         if unchanged then modifyP (\<lambda>s. s\<lparr>rn_unchanged := rn_unchanged s + 1\<rparr>)
         else thenP (modifyP (\<lambda>s. s\<lparr>rn_pending_tool := Some tool, rn_pending := rn_pending s @ [(?e, ?d)]\<rparr>)) ?rest))
         (\<lambda>_. in_step ck0) (broken_off ck0) s"
    proof (cases "is_unchanged (se_py E) spec s ?id ?c r")
      case True
      with s show ?thesis by (simp add: wp_bind wp_gets wp_modify)
    next
      case False
      then have "map_of (ck_digests (rn_state s)) (en_id ?e) \<noteq> Some ?d"
        by (simp add: is_unchanged_def)
      from inv_progD [OF rest in_step_take [OF s this]] False show ?thesis
        by (simp only: wp_bind wp_gets wp_then wp_modify if_False)
    qed
  qed
  then show ?thesis
    unfolding take_record_def Let_def by (intro inv_then inv_modify inv_if inv_return) simp_all
qed

lemma steady_take_page [inv_rules]: "steady ck0 (take_page E spec tool rs)"
  by (induction E spec tool rs rule: take_page.induct) (auto intro!: inv_rules)

lemma steady_sweep_pages [inv_rules]: "steady ck0 (sweep_pages n E spec tool scope page)"
proof (induction n arbitrary: page)
  case (Suc n)
  show ?case unfolding sweep_pages.simps
    by (intro inv_bind inv_then inv_if inv_return steady_flush steady_take_page Suc
        calm_steady [OF calm_exhausted] calm_steady [OF calm_source_page])
qed (simp add: calm_steady [OF calm_raise])

lemma steady_sweep_tool [inv_rules]: "steady ck0 (sweep_tool E spec tool scope)"
  unfolding sweep_tool_def
  by (intro inv_if inv_bind inv_gets steady_sweep_pages calm_steady [OF calm_raise])

lemma steady_sweep_scopes [inv_rules]: "steady ck0 (sweep_scopes E spec scopes)"
  by (induction E spec scopes rule: sweep_scopes.induct)
    (auto intro!: inv_bind inv_if inv_return steady_sweep_tool)

lemma steady_sweep: "steady ck0 (sweep E spec sources)"
  unfolding sweep_def
  by (intro inv_bind steady_sweep_scopes)
    (auto split: option.splits intro!: inv_bind inv_return calm_steady [OF calm_parent_values] simp del: parent_values.simps)

lemma steady_handle: "steady ck0 (handle_sync_error n E spec reason message)"
proof (induction n arbitrary: reason message)
  case 0
  then show ?case by (simp add: calm_steady [OF calm_raise])
next
  case (Suc n)
  have "steady ck0 (catchP (thenP (flush E spec None) (returnP (''partial'', Some reason, None)))
          (\<lambda>e. case e of SyncError r m \<Rightarrow> Some (handle_sync_error n E spec r m) | _ \<Rightarrow> None))"
  proof (rule inv_progI)
    fix s :: "'a run"
    assume s: "in_step ck0 s"
    have m: "steady ck0 (thenP (flush E spec None) (returnP (''partial'', Some reason, None :: string option)))"
      by (intro inv_then steady_flush inv_return)
    show "wp (catchP (thenP (flush E spec None) (returnP (''partial'', Some reason, None)))
          (\<lambda>e. case e of SyncError r m \<Rightarrow> Some (handle_sync_error n E spec r m) | _ \<Rightarrow> None))
          (\<lambda>_. in_step ck0) (broken_off ck0) s"
      unfolding wp_catch
    proof (rule wp_mono [OF inv_progD [OF m s]])
      fix e and s' :: "'a run"
      assume b: "broken_off ck0 e s'"
      show "case case e of SyncError r m \<Rightarrow> Some (handle_sync_error n E spec r m) | _ \<Rightarrow> None of
          None \<Rightarrow> broken_off ck0 e s' | Some p \<Rightarrow> wp p (\<lambda>_. in_step ck0) (broken_off ck0) s'"
      proof (cases e)
        case (SyncError r m)
        show ?thesis
        proof (cases "in_step ck0 s'")
          case True
          from inv_progD [OF Suc this, of r m] SyncError show ?thesis by simp
        next
          case False
          with b SyncError have "r = ''checkpoint_conflict''"
            by (auto simp: broken_off_def store_failed_def)
          with b SyncError show ?thesis
            by (cases n) (auto simp: wp_raise broken_off_def store_failed_def)
        qed
      qed (use b in simp_all)
    qed simp
  qed
  then show ?case
    by (auto intro!: calm_steady [OF calm_raise] inv_return)
qed

section \<open>Pages and records within the budget\<close>

text \<open>Programs that read no page and take no record.\<close>

definition counts :: "'w run \<Rightarrow> nat \<times> nat" where
  "counts s = (rn_pages s, rn_seen s)"

definition frugal :: "('w, 'a) sync_prog \<Rightarrow> bool" where
  "frugal m \<longleftrightarrow> (\<forall>s. counts (snd (m s)) = counts s)"

named_theorems frugal_rules

lemma frugal_pure [frugal_rules]:
  "frugal (returnP x)" "frugal (raiseP e)" "frugal (liftP r)" "frugal (getsP h)" "frugal (world_call p)"
  by (auto simp: frugal_def prog_defs world_call_def counts_def split: sum.splits prod.splits)

lemma frugal_modify [frugal_rules]: "(\<And>s. counts (h s) = counts s) \<Longrightarrow> frugal (modifyP h)"
  by (simp add: frugal_def prog_defs)

lemma frugal_bind [frugal_rules]:
  assumes m: "frugal m" and k: "\<And>x. frugal (k x)"
  shows "frugal (bindP m k)"
  unfolding frugal_def
proof
  fix s
  have "counts (snd (m s)) = counts s" using m by (simp add: frugal_def)
  moreover have "counts (snd (k x t)) = counts t" for x t using k by (simp add: frugal_def)
  ultimately show "counts (snd (bindP m k s)) = counts s"
    by (cases "m s"; cases "fst (m s)") (simp_all add: bindP_def)
qed

lemma frugal_then [frugal_rules]: "frugal m \<Longrightarrow> frugal n \<Longrightarrow> frugal (thenP m n)"
  unfolding thenP_def by (rule frugal_bind)

lemma frugal_catch [frugal_rules]:
  assumes m: "frugal m" and h: "\<And>e n. h e = Some n \<Longrightarrow> frugal n"
  shows "frugal (catchP m h)"
  unfolding frugal_def
proof
  fix s
  have "counts (snd (m s)) = counts s" using m by (simp add: frugal_def)
  moreover have "counts (snd (n t)) = counts t" if "h e = Some n" for e n t
    using h [OF that] by (simp add: frugal_def)
  ultimately show "counts (snd (catchP m h s)) = counts s"
    by (cases "m s"; cases "fst (m s)") (auto simp: catchP_def split: option.splits)
qed

lemma frugal_if [frugal_rules]: "frugal m \<Longrightarrow> frugal n \<Longrightarrow> frugal (if b then m else n)"
  by simp

lemma frugal_wp:
  assumes "frugal m"
  shows "wp m (\<lambda>_ s'. counts s' = counts s) (\<lambda>_ s'. counts s' = counts s) s"
  using assms unfolding frugal_def by (simp only: wp_both)

lemma frugal_clock [frugal_rules]: "frugal (clock_call E)"
  unfolding clock_call_def by (rule frugal_pure)

lemma frugal_exhausted [frugal_rules]: "frugal (exhausted E)"
  unfolding exhausted_def by (intro frugal_rules)

lemma frugal_store [frugal_rules]: "frugal (store E)"
  by (simp add: frugal_def store_def counts_def Let_def split: prod.splits sum.splits)

lemma frugal_submit [frugal_rules]: "frugal (submit_pending E binding records)"
  by (auto simp: frugal_def submit_pending_def counts_def Let_def clear_pending_def
      split: prod.splits sum.splits submit_exc.splits)

lemma frugal_flush [frugal_rules]: "frugal (flush E spec tool)"
  unfolding flush_def
  by (intro frugal_rules) (simp add: accept_batch_def clear_pending_def counts_def Let_def)

lemma frugal_call_attempts [frugal_rules]: "frugal (call_attempts E n bo failure tool arguments)"
proof (induction n arbitrary: bo failure)
  case (Suc n)
  have "frugal (thenP (world_call (se_sleep E d)) (call_attempts E n bo' f tool arguments))" for d bo' f
    by (intro frugal_rules Suc)
  with Suc show ?case
    unfolding frugal_def call_attempts.simps(2)
    by (auto simp: world_call_def counts_def simp del: call_attempts.simps
        split: prod.splits sum.splits sync_exc.splits)
qed (simp add: frugal_rules)

lemma frugal_budgeted [frugal_rules]: "frugal (budgeted_call E tool arguments)"
  unfolding budgeted_call_def tool_call_def
  by (intro frugal_rules) (auto split: if_splits intro: frugal_rules)

lemma frugal_read_only [frugal_rules]: "frugal (require_read_only E tool)"
  unfolding require_read_only_def by (intro frugal_rules)

lemma take_record_counts:
  "wp (take_record E spec tool r) (\<lambda>_ s'. counts s' = (rn_pages s, Suc (rn_seen s)))
     (\<lambda>_ s'. counts s' = (rn_pages s, Suc (rn_seen s))) s"
proof -
  let ?raw = "get r (sp_id_field spec)"
  let ?id = "py_str (se_py E) ?raw"
  let ?cv = "case named (sp_cursor_field spec) of None \<Rightarrow> JNull | Some f \<Rightarrow> get r f"
  let ?c = "if ?cv = JNull then None else Some (py_str (se_py E) ?cv)"
  let ?body = "(if ?raw = JNull \<or> blank ?id then returnP ()
       else bindP (getsP (\<lambda>s. is_unchanged (se_py E) spec s ?id ?c r)) (\<lambda>unchanged.
         if unchanged then modifyP (\<lambda>s. s\<lparr>rn_unchanged := rn_unchanged s + 1\<rparr>)
         else
           thenP (modifyP (\<lambda>s. s\<lparr>rn_pending_tool := Some tool,
              rn_pending := rn_pending s @
                [(\<lparr>en_id = ?id, en_node_type = sp_record_type spec,
                   en_properties = properties_of r spec, en_updated_at = ?c\<rparr>, record_digest (se_py E) r)]\<rparr>))
           (bindP (liftP (edges_of (se_py E) ?id r spec)) (\<lambda>edges.
            thenP (modifyP (\<lambda>s. s\<lparr>rn_pending_edges := rn_pending_edges s @ edges,
                                  rn_cursor := newer ?c (rn_cursor s)\<rparr>))
            (bindP (getsP (\<lambda>s. length (rn_pending s))) (\<lambda>n.
              if sb_batch_size (se_budget E) \<le> n then flush E spec (Some tool) else returnP ()))))))"
  have "frugal ?body" by (intro frugal_rules) (simp_all add: counts_def)
  from frugal_wp [OF this, of "s\<lparr>rn_seen := rn_seen s + 1\<rparr>"]
  show ?thesis unfolding take_record_def Let_def wp_then wp_modify by (simp add: counts_def)
qed

lemma take_page_counts:
  "wp (take_page E spec tool rs) (\<lambda>_ s'. counts s' = (rn_pages s, rn_seen s + length rs))
     (\<lambda>_ s'. rn_pages s' = rn_pages s \<and> rn_seen s' \<le> rn_seen s + length rs) s"
proof (induction rs arbitrary: s)
  case (Cons r rs)
  show ?case unfolding take_page.simps wp_then
  proof (rule wp_mono [OF take_record_counts], goal_cases)
    case (1 u s1)
    then show ?case by (intro wp_mono [OF Cons]) (auto simp: counts_def)
  qed (simp add: counts_def)
qed (simp add: wp_return counts_def)

lemma source_page_counts:
  "wp (source_page E spec tool arguments)
     (\<lambda>rs s'. counts s' = (Suc (rn_pages s), rn_seen s) \<and> rn_seen s + length rs \<le> max (rn_seen s) (sb_max_records (se_budget E)))
     (\<lambda>_ s'. rn_pages s' \<le> Suc (rn_pages s) \<and> rn_seen s' = rn_seen s) s"
proof -
  have "wp (budgeted_call E tool arguments) (\<lambda>_ s'. counts s' = counts s) (\<lambda>_ s'. counts s' = counts s) s"
    by (intro frugal_wp frugal_rules)
  then show ?thesis unfolding source_page_def wp_bind
    by (rule wp_mono) (auto simp: wp_simps counts_def refuse_if_def split: sum.splits)
qed

text \<open>Within the budget: at most \<open>max_pages\<close> pages read and \<open>max_records\<close> records taken.\<close>

definition within_budget :: "'w sync_env \<Rightarrow> 'w run \<Rightarrow> bool" where
  "within_budget E s \<longleftrightarrow> rn_pages s \<le> sb_max_pages (se_budget E) \<and> rn_seen s \<le> sb_max_records (se_budget E)"

lemma within_counts: "counts s' = counts s \<Longrightarrow> within_budget E s \<Longrightarrow> within_budget E s'"
  by (simp add: within_budget_def counts_def)

lemma frugal_within: "frugal m \<Longrightarrow> inv_prog (within_budget E) (\<lambda>_. within_budget E) m"
  by (intro inv_progI wp_mono [OF frugal_wp]) (auto intro: within_counts)

lemma exhausted_room:
  assumes "within_budget E s"
  shows "wp (exhausted E) (\<lambda>ended s'. counts s' = counts s \<and>
      (\<not> ended \<longrightarrow> rn_pages s < sb_max_pages (se_budget E))) (\<lambda>_ s'. counts s' = counts s) s"
  by (auto simp: exhausted_def clock_call_def wp_simps counts_def split: prod.splits)

lemma within_sweep_pages: "inv_prog (within_budget E) (\<lambda>_. within_budget E) (sweep_pages n E spec tool scope page)"
proof (induction n arbitrary: page)
  case (Suc n)
  show ?case
  proof (rule inv_progI)
    fix s
    assume s: "within_budget E s"
    show "wp (sweep_pages (Suc n) E spec tool scope page) (\<lambda>_. within_budget E) (\<lambda>_. within_budget E) s"
      unfolding sweep_pages.simps wp_bind
    proof (rule wp_mono [OF exhausted_room [OF s]], goal_cases)
      case (1 ended s1)
      then have s1: "within_budget E s1" using s within_counts by blast
      show ?case
      proof (cases ended)
        case True
        have "inv_prog (within_budget E) (\<lambda>_. within_budget E) (thenP (flush E spec None) (returnP False))"
          by (intro frugal_within frugal_rules)
        with True s1 show ?thesis by (simp add: inv_progD)
      next
        case False
        then have room: "rn_pages s1 < sb_max_pages (se_budget E)" using 1 by (simp add: counts_def)
        have "wp (source_page E spec tool (call_arguments spec page scope)) (\<lambda>rs. wp (thenP (take_page E spec tool rs)
             (if sp_pagination spec \<noteq> PagePage \<or> length rs < sp_page_size spec
              then thenP (flush E spec (Some tool)) (returnP True)
              else sweep_pages n E spec tool scope (page + 1))) (\<lambda>_. within_budget E) (\<lambda>_. within_budget E)) (\<lambda>_. within_budget E) s1"
        proof (rule wp_mono [OF source_page_counts], goal_cases)
          case A: (1 rs s2)
          show ?case unfolding wp_then
          proof (rule wp_mono [OF take_page_counts], goal_cases)
            case (1 u s3)
            then have s3: "within_budget E s3" using A s1 room by (auto simp: within_budget_def counts_def)
            have "inv_prog (within_budget E) (\<lambda>_. within_budget E)
                (if sp_pagination spec \<noteq> PagePage \<or> length rs < sp_page_size spec
                 then thenP (flush E spec (Some tool)) (returnP True)
                 else sweep_pages n E spec tool scope (page + 1))"
              by (intro inv_if Suc frugal_within frugal_rules)
            then show ?case using s3 by (rule inv_progD)
          next
            case (2 e s3)
            then show ?case using A s1 room by (auto simp: within_budget_def counts_def)
          qed
        next
          case (2 e s2)
          then show ?case using s1 room by (auto simp: within_budget_def)
        qed
        with False show ?thesis by (simp add: wp_bind)
      qed
    next
      case (2 e s1)
      then show ?case using s within_counts by blast
    qed
  qed
qed (simp add: frugal_within frugal_rules)

lemma within_sweep_scopes: "inv_prog (within_budget E) (\<lambda>_. within_budget E) (sweep_scopes E spec scopes)"
proof (induction E spec scopes rule: sweep_scopes.induct)
  case (2 E spec scope tool rest)
  have "inv_prog (within_budget E) (\<lambda>_. within_budget E) (sweep_tool E spec tool scope)"
    unfolding sweep_tool_def by (intro inv_rules within_sweep_pages)
  then show ?case using 2 by (auto intro!: inv_bind inv_if inv_return)
qed (simp add: inv_return)

text \<open>The pages of a parent count too, its records do not.\<close>

lemma within_parent_pages: "inv_prog (within_budget E) (\<lambda>_. within_budget E) (parent_pages n E parent tool scope field page vals)"
proof (induction n arbitrary: page vals)
  case (Suc n)
  show ?case
  proof (rule inv_progI)
    fix s
    assume s: "within_budget E s"
    show "wp (parent_pages (Suc n) E parent tool scope field page vals) (\<lambda>_. within_budget E) (\<lambda>_. within_budget E) s"
      unfolding parent_pages.simps wp_bind
    proof (rule wp_mono [OF exhausted_room [OF s]], goal_cases)
      case (1 ended s1)
      then have s1: "within_budget E s1" using s within_counts by blast
      show ?case
      proof (cases ended)
        case True
        with s1 show ?thesis by (simp add: wp_raise)
      next
        case False
        then have room: "rn_pages s1 < sb_max_pages (se_budget E)" using 1 by (simp add: counts_def)
        have f: "frugal (budgeted_call E tool (call_arguments parent page scope))" by (intro frugal_rules)
        have rest: "wp (bindP (liftP (append_parent_records k vals rs field)) (\<lambda>values'.
             if sp_pagination parent \<noteq> PagePage \<or> length rs < sp_page_size parent
             then returnP values'
             else parent_pages n E parent tool scope field (page + 1) values')) (\<lambda>_. within_budget E) (\<lambda>_. within_budget E) s3"
          if s3: "within_budget E s3" for k rs s3
        proof -
          have "inv_prog (within_budget E) (\<lambda>_. within_budget E)
            (bindP (liftP (append_parent_records k vals rs field)) (\<lambda>values'.
             if sp_pagination parent \<noteq> PagePage \<or> length rs < sp_page_size parent
             then returnP values'
             else parent_pages n E parent tool scope field (page + 1) values'))"
            by (intro inv_rules Suc)
          then show ?thesis using s3 by (rule inv_progD)
        qed
        have "wp (budgeted_call E tool (call_arguments parent page scope)) (\<lambda>result. wp
           (bindP (liftP (records_in (se_py E) result parent)) (\<lambda>records.
             thenP (modifyP (\<lambda>s. s\<lparr>rn_pages := rn_pages s + 1\<rparr>))
             (bindP (liftP (append_parent_records (sb_max_fan_out (se_budget E)) vals records field)) (\<lambda>values'.
               if sp_pagination parent \<noteq> PagePage \<or> length records < sp_page_size parent
               then returnP values'
               else parent_pages n E parent tool scope field (page + 1) values')))) (\<lambda>_. within_budget E) (\<lambda>_. within_budget E))
           (\<lambda>_. within_budget E) s1"
        proof (rule wp_mono [OF frugal_wp [OF f]], goal_cases)
          case (1 result s2)
          then have "within_budget E s2" and "within_budget E (s2\<lparr>rn_pages := rn_pages s2 + 1\<rparr>)"
            using s1 room by (auto simp: within_budget_def counts_def)
          with rest show ?case
            by (subst wp_bind, cases "records_in (se_py E) result parent")
              (simp_all add: wp_lift wp_then wp_modify)
        next
          case (2 e s2)
          then show ?case using s1 within_counts by blast
        qed
        with False show ?thesis by (simp only: if_False wp_bind)
      qed
    next
      case (2 e s1)
      then show ?case using s within_counts by blast
    qed
  qed
qed (simp add: frugal_within frugal_rules)

lemma within_parent_tools: "inv_prog (within_budget E) (\<lambda>_. within_budget E) (parent_tools E parent field scopes vals)"
proof (induction E parent field scopes vals rule: parent_tools.induct)
  case (2 E parent field scope tool rest vals)
  have "inv_prog (within_budget E) (\<lambda>_. within_budget E) (parent_sweep E parent tool scope field vals)"
    unfolding parent_sweep_def by (intro inv_rules within_parent_pages)
  then show ?case unfolding parent_tools.simps
    by (intro inv_then inv_bind 2 frugal_within [OF frugal_read_only])
qed (simp add: inv_return)

lemma within_parent_values: "inv_prog (within_budget E) (\<lambda>_. within_budget E) (parent_values n E sources spec chain)"
proof (induction n arbitrary: spec chain)
  case (Suc n)
  show ?case
    by (auto simp: Let_def intro!: inv_rules Suc within_parent_tools split: option.splits)
qed (simp add: inv_rules)

lemma within_sweep: "inv_prog (within_budget E) (\<lambda>_. within_budget E) (sweep E spec sources)"
  unfolding sweep_def
  by (intro inv_bind within_sweep_scopes)
    (auto split: option.splits intro!: inv_bind inv_return within_parent_values simp del: parent_values.simps)

lemma frugal_handle: "frugal (handle_sync_error n E spec reason message)"
proof (induction n arbitrary: reason message)
  case (Suc n)
  have "frugal (catchP (thenP (flush E spec None) (returnP (''partial'', Some reason, None)))
          (\<lambda>e. case e of SyncError r m \<Rightarrow> Some (handle_sync_error n E spec r m) | _ \<Rightarrow> None))"
    by (intro frugal_catch frugal_then frugal_flush frugal_pure(1)) (auto split: sync_exc.splits intro: Suc)
  then show ?case by (simp add: frugal_rules)
qed (simp add: frugal_rules)

section \<open>Properties\<close>

text \<open>The stored checkpoint of a run that ended: the last accepted one with the report.\<close>

definition reported :: "checkpoint \<Rightarrow> string option \<Rightarrow> sync_report \<Rightarrow> checkpoint" where
  "reported ck job rep = ck\<lparr>ck_state := sr_state rep, ck_last_job_id := job, ck_last_report := Some rep\<rparr>"

definition run_reported :: "checkpoint \<Rightarrow> string option \<Rightarrow> sync_report \<Rightarrow> 'w run \<Rightarrow> bool" where
  "run_reported ck0 job rep s \<longleftrightarrow>
     (\<exists>l ck v v'. sync_chain ck0 l ck (sr_submitted rep) (sr_batch_digests rep)
        \<and> rn_log s = l @ [EvStore (reported ck job rep) v (Inr v')]
        \<and> sr_cursor_after rep = ck_cursor ck)"

definition run_raised :: "checkpoint \<Rightarrow> string option \<Rightarrow> sync_exc \<Rightarrow> 'w run \<Rightarrow> bool" where
  "run_raised ck0 job e s \<longleftrightarrow>
     broken_off ck0 e s
     \<or> (\<exists>l ck n bs rep v. sync_chain ck0 l ck n bs \<and> rn_log s = l @ [EvStore (reported ck job rep) v (Inl e)])"

lemma steady_ending:
  "steady ck0 (catchP (bindP (sweep E spec sources) (\<lambda>final. returnP (final, None, None)))
      (\<lambda>e. case e of SyncError r m \<Rightarrow> Some (handle_sync_error 1000 E spec r m) | _ \<Rightarrow> None))"
proof (rule inv_progI)
  fix s :: "'a run"
  assume s: "in_step ck0 s"
  have m: "steady ck0 (bindP (sweep E spec sources) (\<lambda>final. returnP (final, None :: string option, None :: string option)))"
    by (intro inv_bind inv_return steady_sweep)
  show "wp (catchP (bindP (sweep E spec sources) (\<lambda>final. returnP (final, None, None)))
      (\<lambda>e. case e of SyncError r m \<Rightarrow> Some (handle_sync_error 1000 E spec r m) | _ \<Rightarrow> None))
      (\<lambda>_. in_step ck0) (broken_off ck0) s"
    unfolding wp_catch
  proof (rule wp_mono [OF inv_progD [OF m s]])
    fix e and s' :: "'a run"
    assume b: "broken_off ck0 e s'"
    show "case case e of SyncError r m \<Rightarrow> Some (handle_sync_error 1000 E spec r m) | _ \<Rightarrow> None of
        None \<Rightarrow> broken_off ck0 e s' | Some p \<Rightarrow> wp p (\<lambda>_. in_step ck0) (broken_off ck0) s'"
    proof (cases e)
      case (SyncError r m)
      show ?thesis
      proof (cases "in_step ck0 s'")
        case True
        from inv_progD [OF steady_handle this, of 1000 E spec r m] SyncError show ?thesis by simp
      next
        case False
        with b SyncError have "r = ''checkpoint_conflict''"
          by (auto simp: broken_off_def store_failed_def)
        moreover have "handle_sync_error 1000 E spec ''checkpoint_conflict'' m =
            raiseP (SyncError ''checkpoint_conflict'' m)"
          by (simp add: eval_nat_numeral)
        ultimately show ?thesis using b SyncError by (simp add: wp_raise)
      qed
    qed (use b in simp_all)
  qed simp
qed

lemma in_step_new: "in_step (rn_state (run_new mode ck v t w)) (run_new mode ck v t w)"
  by (simp add: in_step_def run_new_def Let_def chain_start)

text \<open>
  Property C12. Whatever the tools, the facade and the store answer, the durable checkpoint moves
  only behind accepted submissions: the log of a run is a sequence of submissions, each of records
  whose digest is not the recorded one, and every accepted submission is followed at once by a store
  that records exactly its records and its cursor. A run that returns adds its report to the last
  such checkpoint and counts what was accepted; a run that raises stopped at a store that failed,
  or after what was stored.
\<close>

theorem sync_durable_progress:
  "let s0 = run_new mode ck v t w in
   case sync_run E spec job sources s0 of
     (Inr rep, s) \<Rightarrow> run_reported (rn_state s0) job rep s
   | (Inl e, s) \<Rightarrow> run_raised (rn_state s0) job e s"
proof -
  let ?s0 = "run_new mode ck v t w"
  let ?ck0 = "rn_state ?s0"
  have "wp (sync_run E spec job sources) (run_reported ?ck0 job) (run_raised ?ck0 job) ?s0"
    unfolding sync_run_def
  proof (subst wp_bind, rule wp_mono [OF inv_progD [OF steady_ending in_step_new]], goal_cases)
    case (1 x s)
    obtain final reason code where x: "x = (final, reason, code)" by (cases x)
    let ?rep = "report_of E spec s final reason code"
    have chain: "sync_chain ?ck0 (rn_log s) (rn_state s) (sr_submitted ?rep) (sr_batch_digests ?rep)"
      using 1 by (simp add: in_step_def report_of_def)
    have after: "sr_cursor_after ?rep = ck_cursor (rn_state s)" "sr_state ?rep = final"
      by (simp_all add: report_of_def)
    obtain q w' where q: "kv_store E (reported (rn_state s) job ?rep) (rn_version s) (rn_world s) = (q, w')"
      by (cases "kv_store E (reported (rn_state s) job ?rep) (rn_version s) (rn_world s)")
    have rep: "(rn_state s)\<lparr>ck_state := final, ck_last_job_id := job, ck_last_report := Some ?rep\<rparr>
        = reported (rn_state s) job ?rep"
      by (simp add: reported_def after(2))
    have "wp (thenP (store E) (returnP ?rep)) (run_reported ?ck0 job) (run_raised ?ck0 job)
        (s\<lparr>rn_state := reported (rn_state s) job ?rep\<rparr>)"
    proof (cases q)
      case (Inl e)
      with q chain show ?thesis
        by (auto simp: wp_def thenP_def bindP_def store_def Let_def run_raised_def)
    next
      case (Inr v')
      with q chain after show ?thesis
        by (auto simp: wp_def thenP_def bindP_def returnP_def store_def Let_def run_reported_def)
    qed
    then show ?case unfolding x
      by (simp add: wp_bind wp_gets wp_modify rep) (simp add: wp_then wp_modify rep)
  qed (simp add: run_raised_def)
  then show ?thesis by (simp add: wp_def Let_def split: prod.splits sum.splits)
qed

text \<open>
  A run reads at most \<open>max_pages\<close> pages, its parents' pages included, and takes at
  most \<open>max_records\<close> records, whether it returns or raises.
\<close>

theorem sync_within_budget:
  "within_budget E (snd (sync_run E spec job sources (run_new mode ck v t w)))"
proof -
  have start: "within_budget E (run_new mode ck v t w)" by (simp add: within_budget_def run_new_def Let_def)
  have ending: "inv_prog (within_budget E) (\<lambda>_. within_budget E)
      (catchP (bindP (sweep E spec sources) (\<lambda>final. returnP (final, None, None)))
      (\<lambda>e. case e of SyncError r m \<Rightarrow> Some (handle_sync_error 1000 E spec r m) | _ \<Rightarrow> None))"
  proof (rule inv_progI)
    fix s
    assume s: "within_budget E s"
    have m: "inv_prog (within_budget E) (\<lambda>_. within_budget E)
        (bindP (sweep E spec sources) (\<lambda>final. returnP (final, None :: string option, None :: string option)))"
      by (intro inv_bind inv_return within_sweep)
    show "wp (catchP (bindP (sweep E spec sources) (\<lambda>final. returnP (final, None, None)))
      (\<lambda>e. case e of SyncError r m \<Rightarrow> Some (handle_sync_error 1000 E spec r m) | _ \<Rightarrow> None))
      (\<lambda>_. within_budget E) (\<lambda>_. within_budget E) s"
      unfolding wp_catch
      by (rule wp_mono [OF inv_progD [OF m s]])
        (auto split: sync_exc.splits intro: inv_progD [OF frugal_within [OF frugal_handle]])
  qed
  have "inv_prog (within_budget E) (\<lambda>_. within_budget E) (sync_run E spec job sources)"
    unfolding sync_run_def
    by (intro inv_bind ending) (auto intro!: frugal_within frugal_rules simp: counts_def split: prod.splits)
  from inv_progD [OF this start] show ?thesis by (simp only: wp_both)
qed

lemma take_page_pages:
  "rn_pages (snd (take_page E spec tool rs s)) = rn_pages s"
proof -
  have "wp (take_page E spec tool rs) (\<lambda>_ s'. rn_pages s' = rn_pages s) (\<lambda>_ s'. rn_pages s' = rn_pages s) s"
    by (rule wp_mono [OF take_page_counts]) (auto simp: counts_def)
  then show ?thesis by (simp only: wp_both)
qed

lemma sweep_pages_rounds:
  "sb_max_pages (se_budget E) - rn_pages s < n \<Longrightarrow> sb_max_pages (se_budget E) - rn_pages s < m \<Longrightarrow>
     sweep_pages n E spec tool scope page s = sweep_pages m E spec tool scope page s"
proof (induction n arbitrary: m page s)
  case (Suc n)
  then obtain m' where m: "m = Suc m'" by (cases m) auto
  obtain r s1 where ex: "exhausted E s = (r, s1)" by (cases "exhausted E s")
  have c1: "counts s1 = counts s" and room: "r = Inr False \<Longrightarrow> rn_pages s < sb_max_pages (se_budget E)"
  proof -
    show "counts s1 = counts s" using frugal_exhausted [of E] ex unfolding frugal_def by (metis snd_conv)
    show "r = Inr False \<Longrightarrow> rn_pages s < sb_max_pages (se_budget E)"
      using ex by (auto simp: exhausted_def prog_defs split: if_splits prod.splits sum.splits)
  qed
  show ?case
  proof (cases "r = Inr False")
    case False
    with ex show ?thesis unfolding m sweep_pages.simps by (cases r) (simp_all add: bindP_def)
  next
    case True
    obtain q s2 where page: "source_page E spec tool (call_arguments spec page scope) s1 = (q, s2)"
      by (cases "source_page E spec tool (call_arguments spec page scope) s1")
    show ?thesis
    proof (cases q)
      case (Inl e)
      with ex True page show ?thesis unfolding m sweep_pages.simps by (simp add: bindP_def)
    next
      case (Inr rs)
      have p2: "rn_pages s2 = Suc (rn_pages s)"
        using source_page_counts [of E spec tool "call_arguments spec page scope" s1] page Inr c1
        by (simp add: wp_def counts_def)
      have eq: "sweep_pages n E spec tool scope (page + 1) s3 = sweep_pages m' E spec tool scope (page + 1) s3"
        if "rn_pages s3 = Suc (rn_pages s)" for s3
        using Suc.prems room [OF True] by (intro Suc.IH) (simp_all add: that m)
      obtain u s3 where tp: "take_page E spec tool rs s2 = (u, s3)" by (cases "take_page E spec tool rs s2")
      then have "rn_pages s3 = Suc (rn_pages s)" using take_page_pages [of E spec tool rs s2] p2 by simp
      with eq ex True page Inr tp show ?thesis unfolding m sweep_pages.simps
        by (cases u) (simp_all add: bindP_def thenP_def)
    qed
  qed
qed simp

text \<open>
  The page loop ends: one round more than the pages left in the budget is enough, and
  any larger number of rounds gives the same run.
\<close>

theorem sweep_rounds_enough:
  "sweep_pages (Suc (sb_max_pages (se_budget E) - rn_pages s) + k) E spec tool scope page s
   = sweep_pages (Suc (sb_max_pages (se_budget E) - rn_pages s)) E spec tool scope page s"
  by (rule sweep_pages_rounds) simp_all

text \<open>
  In an incremental run the first flush moves the cursor that decides which records
  are old: a later record of the same run whose cursor text is at or before the greatest one flushed
  is counted unchanged and never submitted, whatever its digest.
\<close>

theorem same_run_cursor_skips:
  assumes "flush E spec t s = (Inr (), s')" "rn_pending s \<noteq> []" "rn_cursor s = Some c"
    and "sp_incremental spec" "rn_mode s \<noteq> ''full''"
    and "usable_id (se_py E) (get r (sp_id_field spec))"
    and "named (sp_cursor_field spec) = Some f" "get r f \<noteq> JNull" "py_str (se_py E) (get r f) \<le> c"
  shows "take_record E spec tool r s' = (Inr (), s'\<lparr>rn_seen := rn_seen s' + 1, rn_unchanged := rn_unchanged s' + 1\<rparr>)"
proof -
  have "ck_cursor (rn_state s') = Some c \<and> rn_mode s' = rn_mode s"
    using assms(1-3)
    by (auto simp: flush_def prog_defs submit_pending_def store_def accept_batch_def clear_pending_def Let_def
        split: sum.splits prod.splits if_splits submit_exc.splits)
  then have "is_unchanged (se_py E) spec (s'\<lparr>rn_seen := Suc (rn_seen s')\<rparr>) (py_str (se_py E) (get r (sp_id_field spec)))
      (Some (py_str (se_py E) (get r f))) r"
    using assms by (simp add: is_unchanged_def)
  with assms(6-8) show ?thesis
    by (simp add: take_record_def Let_def prog_defs usable_id_def)
qed

section \<open>A concrete run\<close>

definition sample_py :: pyenv where
  "sample_py = \<lparr>py_sha256 = (\<lambda>s. s), py_float_repr = (\<lambda>_. ''0.0''), py_container_text = (\<lambda>_. [])\<rparr>"

definition sample_budget :: sync_budget where
  "sample_budget = \<lparr>sb_max_pages = 5, sb_max_records = 50, sb_batch_size = 1, sb_max_seconds = 10,
     sb_max_fan_out = 5, sb_attempts = 1, sb_backoff = \<lparr>bo_initial = 1, bo_maximum = 1, bo_current = 1\<rparr>\<rparr>"

text \<open>A facade that accepts every change set and a store that always swaps.\<close>

definition sample_env :: "json \<Rightarrow> unit sync_env" where
  "sample_env result = \<lparr>se_py = sample_py, se_connector = ''c'', se_server = ''s'', se_budget = sample_budget,
     se_call = (\<lambda>tool args w. (Inr result, w)), se_read_only = (\<lambda>tool w. (Inr True, w)),
     se_submit = (\<lambda>b ch w. (Inr ''batch'', w)), se_get = (\<lambda>k w. (Inr None, w)),
     se_cas = (\<lambda>k v ck w. (Inr (True, v + 1), w)), se_clock = (\<lambda>w. (0, w)),
     se_sleep = (\<lambda>d w. (Inr (), w))\<rparr>"

definition sample_spec :: source_spec where
  "sample_spec = \<lparr>sp_source_id = ''i'', sp_record_type = ''T'', sp_tools = [''list''], sp_records_path = [],
     sp_id_field = ''id'', sp_title_field = None, sp_text_field = None, sp_cursor_field = Some ''at'',
     sp_incremental = True, sp_arguments = [], sp_pagination = PageNone, sp_page_param = None,
     sp_page_size_param = None, sp_page_size = 100, sp_start_page = 1, sp_for_each = None, sp_edges = []\<rparr>"

definition sample_record :: "string \<Rightarrow> string \<Rightarrow> (string, json) dict" where
  "sample_record i stamp = [(''id'', JStr i), (''at'', JStr stamp)]"

definition sample_run :: "unit run" where
  "sample_run = (run_new ''incremental'' (fresh_checkpoint ''c'' ''i'') 0 0 ())
     \<lparr>rn_pending := [(\<lparr>en_id = ''a'', en_node_type = ''T'', en_properties = [], en_updated_at = Some ''2''\<rparr>, ''d'')],
      rn_cursor := Some ''2''\<rparr>"

lemma same_run_cursor_skips_witness:
  "\<exists>s'. flush (sample_env JNull) sample_spec None sample_run = (Inr (), s')
     \<and> take_record (sample_env JNull) sample_spec ''list'' (sample_record ''b'' ''2'') s' =
         (Inr (), s'\<lparr>rn_seen := rn_seen s' + 1, rn_unchanged := rn_unchanged s' + 1\<rparr>)"
proof -
  obtain u s' where fl: "flush (sample_env JNull) sample_spec None sample_run = (u, s')"
    by (cases "flush (sample_env JNull) sample_spec None sample_run")
  then have "u = Inr ()"
    by (auto simp: flush_def prog_defs sample_run_def run_new_def fresh_checkpoint_def binding_new_def
        sample_env_def sample_spec_def binding_tool_def blank_iff py_space_def submit_pending_def
        store_def kv_store_def foreign_def Let_def)
  with fl have "flush (sample_env JNull) sample_spec None sample_run = (Inr (), s')" by simp
  from same_run_cursor_skips [OF this, of "''2''" "sample_record ''b'' ''2''" "''at''" "''list''"] this
  show ?thesis
    by (auto simp: sample_run_def sample_spec_def sample_record_def sample_env_def usable_id_def get_def
        is_container_def run_new_def Let_def blank_iff py_space_def)
qed

text \<open>
  The whole run on a page of two records with the same cursor text and batches of one: it completes
  having submitted only the first.
\<close>

lemma sample_sync_loses_tie:
  "(case sync (sample_env (JArr [JObj (sample_record ''a'' ''2''), JObj (sample_record ''b'' ''2'')]))
      sample_spec ''incremental'' None [] () of
      (Inr rep, Some s, w) \<Rightarrow> (sr_state rep, sr_submitted rep, sr_unchanged rep, map fst (ck_digests (rn_state s)))
    | _ \<Rightarrow> (''raised'', 0, 0, [])) = (''completed'', 1, 1, [''a''])"
  by (simp add: sync_def sync_run_def sweep_def sweep_tool_def source_page_def budgeted_call_def
      tool_call_def exhausted_def clock_call_def world_call_def take_record_def flush_def submit_pending_def
      store_def kv_store_def kv_load_def foreign_def prog_defs sample_env_def sample_spec_def
      sample_budget_def sample_py_def sample_record_def run_new_def fresh_checkpoint_def binding_new_def
      binding_tool_def accept_batch_def clear_pending_def merged_digests_def max_digests_def
      is_unchanged_def records_in_def record_of_def usable_id_def is_container_def get_def edges_of_def
      newer_def report_of_def blank_iff py_space_def Let_def call_arguments_def)

end
