(* ===== verification/Stages.thy ===== *)
theory Stages
  imports Prelude
begin

text \<open>
  Stage declarations (\<^verbatim>\<open>runner/stages.py\<close>): the validated descriptors and the check a
  sync target makes of their dependency graph. The graph is the code's dictionary from a
  stage to the set of stages it still waits for, and the count loop removes stages from it
  until none is ready, as the code does on its mutable sets.
\<close>

section \<open>Declarations\<close>

record stage_limits =
  max_active_stages :: int
  limit_page_rows :: int
  limit_page_bytes :: int
  queued_pages :: int
  deadline_ms :: int

record stage_dependency =
  dep_stage :: string
  dep_receipt :: string

record stage_descriptor =
  stage_id :: string
  stage_tenant :: string
  stage_connector :: string
  stage_source :: string
  stage_stream :: string
  stage_manifest :: string
  stage_deps :: "stage_dependency list"
  stage_limits_of :: stage_limits

datatype stage_error =
    InvalidDeclaration
  | DuplicateIdentity
  | AuthorityMismatch
  | DuplicateStream
  | DuplicateDependency
  | UnknownDependency
  | CyclicDependencies
  | StageKeyError

text \<open>
  What the strict models admit: identities that are not blank, positive limits that fit
  their signed width, and a manifest digest spelled as sixty-four lower-case hex digits.
\<close>

definition limits_new :: "stage_limits \<Rightarrow> stage_error + stage_limits" where
  "limits_new l =
     andR (refuse_if (\<not> (1 \<le> max_active_stages l \<and> max_active_stages l \<le> 2 ^ 31 - 1
         \<and> 1 \<le> limit_page_rows l \<and> limit_page_rows l \<le> 2 ^ 31 - 1
         \<and> 1 \<le> limit_page_bytes l \<and> limit_page_bytes l \<le> 2 ^ 63 - 1
         \<and> 1 \<le> queued_pages l \<and> queued_pages l \<le> 2 ^ 31 - 1
         \<and> 1 \<le> deadline_ms l \<and> deadline_ms l \<le> 2 ^ 63 - 1)) InvalidDeclaration)
       (Inr l)"

definition dependency_new :: "stage_dependency \<Rightarrow> stage_error + stage_dependency" where
  "dependency_new d =
     andR (refuse_if (blank (dep_stage d)) InvalidDeclaration)
    (andR (refuse_if (blank (dep_receipt d)) InvalidDeclaration)
       (Inr d))"

definition lower_hex :: "char \<Rightarrow> bool" where
  "lower_hex c =
     (let n = (of_char c :: nat) in 48 \<le> n \<and> n \<le> 57 \<or> 97 \<le> n \<and> n \<le> 102)"

definition descriptor_new :: "stage_descriptor \<Rightarrow> stage_error + stage_descriptor" where
  "descriptor_new d =
     andR (refuse_if (blank (stage_id d) \<or> blank (stage_tenant d) \<or> blank (stage_connector d)
         \<or> blank (stage_source d) \<or> blank (stage_stream d)) InvalidDeclaration)
    (andR (refuse_if (take 7 (stage_manifest d) \<noteq> ''sha256:''
         \<or> length (drop 7 (stage_manifest d)) \<noteq> 64
         \<or> \<not> list_all lower_hex (drop 7 (stage_manifest d))) InvalidDeclaration)
       (Inr d))"

section \<open>The dependency graph\<close>

type_synonym stage_graph = "(string, string set) dict"

definition check_authority ::
  "stage_descriptor list \<Rightarrow> string \<Rightarrow> string option \<Rightarrow> stage_error + unit" where
  "check_authority stages connector tenant =
     refuse_if (stages \<noteq> [] \<and>
       (case tenant of
          None \<Rightarrow> True
        | Some t \<Rightarrow> t = [] \<or>
            list_ex (\<lambda>s. stage_tenant s \<noteq> t \<or> stage_connector s \<noteq> connector) stages))
       AuthorityMismatch"

text \<open>\<^theory_text>\<open>{dep.stage_id for dep in stage.dependencies}\<close>, per stage in dictionary order.\<close>

definition dep_ids :: "stage_descriptor \<Rightarrow> string list" where
  "dep_ids s = map dep_stage (stage_deps s)"

definition stage_edges :: "stage_descriptor list \<Rightarrow> stage_graph" where
  "stage_edges stages = map (\<lambda>s. (stage_id s, set (dep_ids s))) stages"

fun check_edges :: "string set \<Rightarrow> stage_descriptor list \<Rightarrow> stage_error + unit" where
  "check_edges known [] = Inr ()"
| "check_edges known (s # ss) =
     andR (refuse_if (card (set (dep_ids s)) \<noteq> length (stage_deps s)) DuplicateDependency)
    (andR (refuse_if (\<not> set (dep_ids s) \<subseteq> known) UnknownDependency)
       (check_edges known ss))"

definition dependency_edges ::
  "stage_descriptor list \<Rightarrow> string set \<Rightarrow> stage_error + stage_graph" where
  "dependency_edges stages known =
     andR (check_edges known stages) (Inr (stage_edges stages))"

section \<open>Counting the stages whose prerequisites can be met\<close>

text \<open>
  \<open>dependents_of g k\<close> is the list the code appends to: the stages that wait for \<open>k\<close>, in
  dictionary order. \<open>release\<close> is the inner loop of one popped stage; \<open>None\<close> is the
  \<^theory_text>\<open>KeyError\<close> of \<^theory_text>\<open>edges[dependent].remove(stage_id)\<close>. The stack pops
  from its end, which is the head here.
\<close>

definition dependents_of :: "stage_graph \<Rightarrow> string \<Rightarrow> string list" where
  "dependents_of g k = map fst (filter (\<lambda>(_, ds). k \<in> ds) g)"

fun release ::
  "string \<Rightarrow> string list \<Rightarrow> stage_graph \<Rightarrow> string list \<Rightarrow> (stage_graph \<times> string list) option" where
  "release k [] g ready = Some (g, ready)"
| "release k (d # ds) g ready =
     (case map_of g d of
        None \<Rightarrow> None
      | Some ps \<Rightarrow>
          if k \<in> ps
          then release k ds (dict_set d (ps - {k}) g)
                 (if ps - {k} = {} then d # ready else ready)
          else None)"

definition waiting :: "stage_graph \<Rightarrow> nat" where
  "waiting g = length (filter (\<lambda>(_, ps). ps \<noteq> {}) g)"

lemma waiting_set:
  "map_of g d = Some ps \<Longrightarrow> ps \<noteq> {} \<Longrightarrow>
     waiting (dict_set d qs g) + (if qs = {} then 1 else 0) = waiting g"
proof (induction d qs g rule: dict_set.induct)
  case (1 d v)
  then show ?case by simp
next
  case (2 d v k ps' g)
  then show ?case by (cases "k = d") (auto simp: waiting_def)
qed

text \<open>Each release moves stages from waiting to ready and loses none.\<close>

lemma release_measure:
  "release k ds g ready = Some (g', ready') \<Longrightarrow>
     length ready' + waiting g' = length ready + waiting g"
proof (induction k ds g ready rule: release.induct)
  case (2 k d ds g ready)
  then obtain ps where ps: "map_of g d = Some ps" "k \<in> ps"
    and rest: "release k ds (dict_set d (ps - {k}) g)
      (if ps - {k} = {} then d # ready else ready) = Some (g', ready')"
    by (auto split: option.splits if_splits)
  have "length ready' + waiting g' =
      length (if ps - {k} = {} then d # ready else ready) + waiting (dict_set d (ps - {k}) g)"
    by (rule "2.IH" [OF ps rest])
  moreover have "ps \<noteq> {}" using ps(2) by auto
  ultimately show ?case
    using waiting_set [OF ps(1), of "ps - {k}"] by (auto split: if_splits)
qed simp

function topo_loop ::
  "(string \<Rightarrow> string list) \<Rightarrow> string set \<Rightarrow> stage_graph \<Rightarrow> string list \<Rightarrow> string set option" where
  "topo_loop deps_of seen g [] = Some seen"
| "topo_loop deps_of seen g (k # ready) =
     (case release k (deps_of k) g ready of
        None \<Rightarrow> None
      | Some (g', ready') \<Rightarrow> topo_loop deps_of (insert k seen) g' ready')"
  by pat_completeness auto

termination
  by (relation "measure (\<lambda>(_, _, g, ready). length ready + waiting g)")
    (auto dest: release_measure)

definition topological_count :: "stage_graph \<Rightarrow> nat option" where
  "topological_count g =
     map_option card
       (topo_loop (dependents_of g) {} g
          (rev (map fst (filter (\<lambda>(_, ps). ps = {}) g))))"

definition validate_stage_graph ::
  "stage_descriptor list \<Rightarrow> string \<Rightarrow> string option \<Rightarrow> stage_error + unit" where
  "validate_stage_graph stages connector tenant =
     andR (refuse_if (card (set (map stage_id stages)) \<noteq> length stages) DuplicateIdentity)
    (andR (check_authority stages connector tenant)
    (andR (refuse_if (card (set (map stage_stream stages)) \<noteq> length stages) DuplicateStream)
    (bindR (dependency_edges stages (set (map stage_id stages)))
       (\<lambda>edges. case topological_count edges of
           None \<Rightarrow> Inl StageKeyError
         | Some n \<Rightarrow> refuse_if (n \<noteq> length stages) CyclicDependencies))))"

section \<open>What the loop removes\<close>

lemma release_exact:
  assumes "distinct ds" "\<forall>d \<in> set ds. \<exists>ps. map_of g d = Some ps \<and> k \<in> ps"
  shows "\<exists>g'. release k ds g ready =
      Some (g', rev (filter (\<lambda>d. map_of g d = Some {k}) ds) @ ready)
    \<and> map_of g' =
        (\<lambda>d. if d \<in> set ds then map_option (\<lambda>ps. ps - {k}) (map_of g d) else map_of g d)"
  using assms
proof (induction k ds g ready rule: release.induct)
  case (2 k d ds g ready)
  then obtain ps where ps: "map_of g d = Some ps" "k \<in> ps" by auto
  let ?h = "dict_set d (ps - {k}) g"
  have same: "\<And>e. e \<in> set ds \<Longrightarrow> map_of ?h e = map_of g e"
    using 2(2) by auto
  let ?ready = "if ps - {k} = {} then d # ready else ready"
  have "\<exists>g'. release k ds ?h ?ready =
        Some (g', rev (filter (\<lambda>d. map_of ?h d = Some {k}) ds) @ ?ready)
      \<and> map_of g' = (\<lambda>e. if e \<in> set ds then map_option (\<lambda>ps. ps - {k}) (map_of ?h e)
                         else map_of ?h e)"
    by (rule "2.IH" [OF ps]) (use 2(2,3) in auto)
  then obtain g' where g': "release k ds ?h ?ready =
        Some (g', rev (filter (\<lambda>d. map_of ?h d = Some {k}) ds) @ ?ready)"
      "map_of g' = (\<lambda>e. if e \<in> set ds then map_option (\<lambda>ps. ps - {k}) (map_of ?h e)
                         else map_of ?h e)"
    by blast
  have new: "filter (\<lambda>d. map_of ?h d = Some {k}) ds = filter (\<lambda>d. map_of g d = Some {k}) ds"
    by (rule filter_cong) (simp_all only: same)
  have last: "ps - {k} = {} \<longleftrightarrow> ps = {k}" using ps(2) by auto
  have "release k (d # ds) g ready =
      Some (g', rev (filter (\<lambda>d. map_of g d = Some {k}) (d # ds)) @ ready)"
    using g'(1) ps unfolding new last 
    by (cases "ps = {k}") (auto simp: subset_singleton_iff)
  moreover have "map_of g' = (\<lambda>e. if e \<in> set (d # ds)
      then map_option (\<lambda>ps. ps - {k}) (map_of g e) else map_of g e)"
    using g'(2) ps(1) 2(2) by (auto simp: fun_eq_iff)
  ultimately show ?case by blast
qed simp

text \<open>The dependency relation, from a prerequisite to the stage that waits for it.\<close>

definition waits_for :: "stage_graph \<Rightarrow> (string \<times> string) set" where
  "waits_for g = {(d, k). \<exists>ps. map_of g k = Some ps \<and> d \<in> ps}"

text \<open>
  The state of the loop over the graph \<open>e\<close>: what is left of every prerequisite set, and
  that the ready and the seen stages are those with nothing left, all of them well-founded.
\<close>

definition topo_inv :: "stage_graph \<Rightarrow> string set \<Rightarrow> stage_graph \<Rightarrow> string list \<Rightarrow> bool" where
  "topo_inv e seen g ready \<longleftrightarrow>
     map_of g = (\<lambda>k. map_option (\<lambda>ps. ps - seen) (map_of e k))
     \<and> distinct ready \<and> set ready \<inter> seen = {}
     \<and> set ready \<union> seen = {k. \<exists>ps. map_of e k = Some ps \<and> ps \<subseteq> seen}
     \<and> set ready \<union> seen \<subseteq> Wellfounded.acc (waits_for e)"

lemma accessible_from:
  assumes "map_of e k = Some ps" "ps \<subseteq> seen" "seen \<subseteq> Wellfounded.acc (waits_for e)"
  shows "k \<in> Wellfounded.acc (waits_for e)"
proof (rule accI)
  fix d assume "(d, k) \<in> waits_for e"
  then have "d \<in> ps" using assms(1) by (simp add: waits_for_def)
  then show "d \<in> Wellfounded.acc (waits_for e)" using assms(2,3) by blast
qed

lemma dependents_iff:
  assumes "well_keyed e"
  shows "d \<in> set (dependents_of e k) \<longleftrightarrow> (\<exists>ps. map_of e d = Some ps \<and> k \<in> ps)"
    and "distinct (dependents_of e k)"
proof -
  have "distinct (map fst e)" using assms by (simp add: well_keyed_def)
  then have "map_of e d = Some ps \<longleftrightarrow> (d, ps) \<in> set e" for ps by simp
  then show "d \<in> set (dependents_of e k) \<longleftrightarrow> (\<exists>ps. map_of e d = Some ps \<and> k \<in> ps)"
    by (force simp: dependents_of_def)
  from \<open>distinct (map fst e)\<close> show "distinct (dependents_of e k)"
    by (simp add: dependents_of_def distinct_map_filter)
qed

lemma topo_step:
  assumes keyed: "well_keyed e" and inv: "topo_inv e seen g (k # ready)"
  shows "\<exists>g' ready'. release k (dependents_of e k) g ready = Some (g', ready')
    \<and> topo_inv e (insert k seen) g' ready'"
proof -
  let ?ds = "dependents_of e k"
  have left: "map_of g = (\<lambda>k. map_option (\<lambda>ps. ps - seen) (map_of e k))"
    and fresh: "k \<notin> seen" "k \<notin> set ready" "distinct ready" "set ready \<inter> seen = {}"
    and closed: "insert k (set ready) \<union> seen = {k. \<exists>ps. map_of e k = Some ps \<and> ps \<subseteq> seen}"
    and good: "insert k (set ready) \<union> seen \<subseteq> Wellfounded.acc (waits_for e)"
    using inv by (auto simp: topo_inv_def)
  have "\<forall>d \<in> set ?ds. \<exists>ps. map_of g d = Some ps \<and> k \<in> ps"
    using fresh(1) by (auto simp: dependents_iff [OF keyed] left)
  from release_exact [OF dependents_iff(2) [OF keyed] this, of ready]
  obtain g' where rel: "release k ?ds g ready =
      Some (g', rev (filter (\<lambda>d. map_of g d = Some {k}) ?ds) @ ready)"
    and g': "map_of g' = (\<lambda>d. if d \<in> set ?ds then map_option (\<lambda>ps. ps - {k}) (map_of g d)
                              else map_of g d)"
    by blast
  let ?new = "filter (\<lambda>d. map_of g d = Some {k}) ?ds"
  have new: "set ?new = {d. \<exists>ps. map_of e d = Some ps \<and> ps \<subseteq> insert k seen \<and> k \<in> ps}"
    using fresh(1) by (auto simp: dependents_iff [OF keyed] left)
  have all: "set ?new \<union> (set ready \<union> insert k seen) =
      {j. \<exists>ps. map_of e j = Some ps \<and> ps \<subseteq> insert k seen}"
    (is "_ = ?closed")
  proof (rule set_eqI)
    fix j
    have "j \<in> set ready \<union> insert k seen \<longleftrightarrow> (\<exists>ps. map_of e j = Some ps \<and> ps \<subseteq> seen)"
      using closed by blast
    then show "j \<in> set ?new \<union> (set ready \<union> insert k seen) \<longleftrightarrow> j \<in> ?closed"
      unfolding Un_iff [of j "set ?new"] new by (cases "map_of e j") auto
  qed
  have disjoint: "set ?new \<inter> (set ready \<union> insert k seen) = {}"
  proof -
    have "j \<notin> insert k (set ready) \<union> seen" if "j \<in> set ?new" for j
      using that fresh(1) unfolding new closed by auto
    then show ?thesis by auto
  qed
  have "?closed \<subseteq> Wellfounded.acc (waits_for e)"
    using good by (blast intro: accessible_from)
  moreover have "map_of g' = (\<lambda>k'. map_option (\<lambda>ps. ps - insert k seen) (map_of e k'))"
  proof
    fix j
    show "map_of g' j = map_option (\<lambda>ps. ps - insert k seen) (map_of e j)"
      unfolding g' left dependents_iff(1) [OF keyed] by (cases "map_of e j") auto
  qed
  moreover have "set (rev ?new @ ready) \<union> insert k seen = ?closed"
    using all by (simp add: Un_assoc)
  moreover have "distinct (rev ?new @ ready)" "set (rev ?new @ ready) \<inter> insert k seen = {}"
    using fresh disjoint dependents_iff(2) [OF keyed, of k] by auto
  ultimately have "topo_inv e (insert k seen) g' (rev ?new @ ready)"
    unfolding topo_inv_def by simp
  with rel show ?thesis by blast
qed

text \<open>So the loop never raises, and what it has seen at the end is closed and accessible.\<close>

lemma topo_loop_result:
  assumes "well_keyed e" "topo_inv e seen g ready"
  shows "\<exists>final. topo_loop (dependents_of e) seen g ready = Some final
    \<and> final = {k. \<exists>ps. map_of e k = Some ps \<and> ps \<subseteq> final}
    \<and> final \<subseteq> Wellfounded.acc (waits_for e)"
  using assms
proof (induction "dependents_of e" seen g ready rule: topo_loop.induct)
  case (1 seen g)
  then show ?case by (auto simp: topo_inv_def)
next
  case (2 seen g k ready)
  from topo_step [OF 2(2,3)] obtain g' ready'
    where step: "release k (dependents_of e k) g ready = Some (g', ready')"
      and inv: "topo_inv e (insert k seen) g' ready'"
    by blast
  from "2.hyps" [OF step refl _ inv] 2(2) step show ?case by simp
qed

lemma topo_start:
  assumes "well_keyed e"
  shows "topo_inv e {} e (rev (map fst (filter (\<lambda>(_, ps). ps = {}) e)))"
proof -
  have d: "distinct (map fst e)" using assms by (simp add: well_keyed_def)
  have acc: "k \<in> Wellfounded.acc (waits_for e)" if "map_of e k = Some {}" for k
    using that by (rule accessible_from [of e _ "{}" "{}"]) simp_all
  have "(k, {}) \<in> set e \<longleftrightarrow> map_of e k = Some {}" for k
    using d by simp
  then have ready: "set (rev (map fst (filter (\<lambda>(_, ps). ps = {}) e))) =
      {k. map_of e k = Some {}}"
    by force
  have "distinct (map fst (filter (\<lambda>(_, ps). ps = {}) e))"
    using d by (simp add: distinct_map_filter)
  moreover have "map_of e = (\<lambda>k. map_option (\<lambda>ps. ps - {}) (map_of e k))"
    by (simp add: fun_eq_iff option.map_ident)
  ultimately show ?thesis
    unfolding topo_inv_def ready using acc by auto
qed

text \<open>The count reaches every stage exactly when the dependency relation is well-founded.\<close>

lemma topological_count_all:
  assumes keyed: "well_keyed e" and closed: "\<forall>(k, ps) \<in> set e. ps \<subseteq> fst ` set e"
  shows "\<exists>n. topological_count e = Some n \<and> (n = length e \<longleftrightarrow> wf (waits_for e))"
proof -
  from topo_loop_result [OF keyed topo_start [OF keyed]] obtain final
    where final: "topo_loop (dependents_of e) {} e
        (rev (map fst (filter (\<lambda>(_, ps). ps = {}) e))) = Some final"
      and eq: "final = {k. \<exists>ps. map_of e k = Some ps \<and> ps \<subseteq> final}"
      and acc: "final \<subseteq> Wellfounded.acc (waits_for e)"
    by blast
  have keys: "card (fst ` set e) = length e"
    using keyed by (metis distinct_card length_map list.set_map well_keyed_def)
  have "final \<subseteq> fst ` set e"
  proof
    fix k assume "k \<in> final"
    then obtain ps where "map_of e k = Some ps" using eq by blast
    then show "k \<in> fst ` set e" by (force dest: map_of_SomeD)
  qed
  then have all: "card final = length e \<longleftrightarrow> final = fst ` set e"
    using keys by (metis List.finite_set card_subset_eq finite_imageI)
  have "final = fst ` set e \<longleftrightarrow> wf (waits_for e)"
  proof
    assume full: "final = fst ` set e"
    have "k \<in> Wellfounded.acc (waits_for e)" for k
    proof (cases "map_of e k")
      case None
      then have "(d, k) \<notin> waits_for e" for d by (simp add: waits_for_def)
      then show ?thesis by (rule accI [OF notE])
    next
      case (Some ps)
      then have "k \<in> final" unfolding full by (force dest: map_of_SomeD)
      with acc show ?thesis by blast
    qed
    then show "wf (waits_for e)" by (simp add: wf_iff_acc)
  next
    assume wf: "wf (waits_for e)"
    have "map_of e k \<noteq> None \<longrightarrow> k \<in> final" for k
    proof (induction k rule: wf_induct_rule [OF wf])
      case (1 k)
      show ?case
      proof
        assume "map_of e k \<noteq> None"
        then obtain ps where ps: "map_of e k = Some ps" by blast
        then have sub: "ps \<subseteq> fst ` set e" using closed map_of_SomeD [OF ps] by fast
        have "ps \<subseteq> final"
        proof
          fix d assume d: "d \<in> ps"
          then have "(d, k) \<in> waits_for e" using ps by (auto simp: waits_for_def)
          moreover have "map_of e d \<noteq> None" using sub d by (auto simp: map_of_eq_None_iff)
          ultimately show "d \<in> final" using 1 by blast
        qed
        with ps show "k \<in> final" using eq by blast
      qed
    qed
    with \<open>final \<subseteq> fst ` set e\<close> show "final = fst ` set e"
      unfolding map_of_eq_None_iff by blast
  qed
  with all final show ?thesis by (auto simp: topological_count_def)
qed

section \<open>What an accepted graph is\<close>

text \<open>The declared order of the stages, and the authority a non-empty graph needs.\<close>

definition stage_order :: "stage_descriptor list \<Rightarrow> (string \<times> string) set" where
  "stage_order stages = {(d, stage_id s) |s d. s \<in> set stages \<and> d \<in> set (dep_ids s)}"

definition authorised ::
  "stage_descriptor list \<Rightarrow> string \<Rightarrow> string option \<Rightarrow> bool" where
  "authorised stages connector tenant \<longleftrightarrow>
     stages = [] \<or> (\<exists>t. tenant = Some t \<and> t \<noteq> [] \<and>
       list_all (\<lambda>s. stage_tenant s = t \<and> stage_connector s = connector) stages)"

lemma check_authority_Inr [result_iff]:
  "check_authority stages connector tenant = Inr () \<longleftrightarrow> authorised stages connector tenant"
  by (cases tenant)
    (auto simp: check_authority_def authorised_def refuse_if_Inr list_ex_iff list_all_iff)

lemma card_set_length: "card (set xs) = length xs \<longleftrightarrow> distinct xs"
  using card_distinct distinct_card by blast

lemma check_edges_Inr [result_iff]:
  "check_edges known stages = Inr () \<longleftrightarrow>
     list_all (\<lambda>s. distinct (dep_ids s) \<and> set (dep_ids s) \<subseteq> known) stages"
proof (induction known stages rule: check_edges.induct)
  case (2 known s ss)
  have "card (set (dep_ids s)) = length (stage_deps s) \<longleftrightarrow> distinct (dep_ids s)"
    by (metis card_set_length dep_ids_def length_map)
  with 2 show ?case by (simp add: andR_Inr refuse_if_Inr)
qed simp

lemma check_edges_no_key_error: "check_edges known stages \<noteq> Inl StageKeyError"
  by (induction known stages rule: check_edges.induct) (auto simp: andR_Inl refuse_if_Inl)

lemma stage_edges_order:
  assumes "distinct (map stage_id stages)"
  shows "well_keyed (stage_edges stages)"
    and "waits_for (stage_edges stages) = stage_order stages"
proof -
  have keys: "map fst (stage_edges stages) = map stage_id stages"
    by (simp add: stage_edges_def)
  with assms show keyed: "well_keyed (stage_edges stages)" by (simp add: well_keyed_def)
  then have "map_of (stage_edges stages) k = Some ps \<longleftrightarrow> (k, ps) \<in> set (stage_edges stages)"
    for k ps
    by (simp add: well_keyed_def)
  then show "waits_for (stage_edges stages) = stage_order stages"
    by (auto simp: waits_for_def stage_order_def stage_edges_def)
qed

lemma stage_order_wf: "wf (stage_order stages) \<longleftrightarrow> acyclic (stage_order stages)"
proof (rule wf_iff_acyclic_if_finite)
  have "stage_order stages = (\<Union>s \<in> set stages. (\<lambda>d. (d, stage_id s)) ` set (dep_ids s))"
    by (auto simp: stage_order_def)
  then show "finite (stage_order stages)" by simp
qed

lemma checked_graph_count:
  assumes "distinct (map stage_id stages)"
    and "check_edges (set (map stage_id stages)) stages = Inr ()"
  shows "\<exists>n. topological_count (stage_edges stages) = Some n
    \<and> (n = length stages \<longleftrightarrow> acyclic (stage_order stages))"
proof -
  have "\<forall>(k, ps) \<in> set (stage_edges stages). ps \<subseteq> fst ` set (stage_edges stages)"
    using assms(2) by (auto simp: check_edges_Inr stage_edges_def list_all_iff image_image)
  from topological_count_all [OF stage_edges_order(1) [OF assms(1)] this]
  moreover have "length (stage_edges stages) = length stages"
    by (simp add: stage_edges_def)
  ultimately show ?thesis
    by (simp add: stage_edges_order(2) [OF assms(1)] stage_order_wf)
qed

text \<open>
  Property C13. A stage graph is accepted exactly when stage identities and streams are each
  distinct, a non-empty graph carries the target's own tenant and connector on every stage,
  each stage names known prerequisites without repeats, and the order they declare has no
  cycle; whatever the input, the removal loop never raises a key error.
\<close>

theorem stage_graph_accepted_iff:
  "(validate_stage_graph stages connector tenant = Inr () \<longleftrightarrow>
      distinct (map stage_id stages) \<and> distinct (map stage_stream stages)
      \<and> authorised stages connector tenant
      \<and> list_all (\<lambda>s. distinct (dep_ids s)
          \<and> set (dep_ids s) \<subseteq> set (map stage_id stages)) stages
      \<and> acyclic (stage_order stages))
   \<and> validate_stage_graph stages connector tenant \<noteq> Inl StageKeyError"
proof (cases "distinct (map stage_id stages) \<and>
    check_edges (set (map stage_id stages)) stages = Inr ()")
  case True
  then obtain n where n: "topological_count (stage_edges stages) = Some n"
    "n = length stages \<longleftrightarrow> acyclic (stage_order stages)"
    using checked_graph_count by blast
  have ids: "card (stage_id ` set stages) = length stages"
    using True card_set_length [of "map stage_id stages"] by simp
  have streams: "card (stage_stream ` set stages) = length stages \<longleftrightarrow>
      distinct (map stage_stream stages)"
    using card_set_length [of "map stage_stream stages"] by simp
  have "check_authority stages connector tenant \<noteq> Inl StageKeyError"
    by (simp add: check_authority_def refuse_if_def)
  with True check_edges_no_key_error [of "stage_id ` set stages" stages] show ?thesis
    unfolding validate_stage_graph_def dependency_edges_def
    by (auto simp: result_iff n ids streams)
next
  case False
  have "card (stage_id ` set stages) = length stages \<longleftrightarrow> distinct (map stage_id stages)"
    using card_set_length [of "map stage_id stages"] by simp
  moreover have "check_authority stages connector tenant \<noteq> Inl StageKeyError"
    by (simp add: check_authority_def refuse_if_def)
  ultimately show ?thesis
    using False check_edges_no_key_error [of "stage_id ` set stages" stages]
    unfolding validate_stage_graph_def dependency_edges_def
    by (auto simp: result_iff)
qed

text \<open>Two stages that wait for each other, and the same two in a chain.\<close>

definition demo_limits :: stage_limits where
  "demo_limits = \<lparr>max_active_stages = 2, limit_page_rows = 100, limit_page_bytes = 65536,
     queued_pages = 4, deadline_ms = 60000\<rparr>"

definition demo_stage :: "string \<Rightarrow> string list \<Rightarrow> stage_descriptor" where
  "demo_stage k deps = \<lparr>stage_id = k, stage_tenant = ''acme'', stage_connector = ''jira'',
     stage_source = ''issues'', stage_stream = k, stage_manifest = ''sha256:'',
     stage_deps = map (\<lambda>d. \<lparr>dep_stage = d, dep_receipt = ''r''\<rparr>) deps,
     stage_limits_of = demo_limits\<rparr>"

lemma demo_stage_graphs:
  "validate_stage_graph [demo_stage ''a'' [], demo_stage ''b'' [''a'']] ''jira'' (Some ''acme'')
     = Inr ()"
  "validate_stage_graph [demo_stage ''a'' [''b''], demo_stage ''b'' [''a'']] ''jira'' (Some ''acme'')
     = Inl CyclicDependencies"
  "validate_stage_graph [demo_stage ''a'' [], demo_stage ''b'' [''c'']] ''jira'' (Some ''acme'')
     = Inl UnknownDependency"
  by (simp_all add: validate_stage_graph_def demo_stage_def check_authority_def
      dependency_edges_def dep_ids_def stage_edges_def topological_count_def dependents_of_def)

end
