(* ===== verification/Schema_Drift.thy ===== *)
theory Schema_Drift
  imports Json_Value "HOL-Library.FSet"
begin

text \<open>
  Normalized source schemas (\<^verbatim>\<open>schema_contract.py\<close>) and the classification of their
  changes (\<^verbatim>\<open>schema_drift.py\<close>). A contract holds the value its canonical text spells;
  parsing that text back gives the same value up to the order of members, on which nothing
  below depends. \<open>fr\<close> is the interpreter's spelling of floats and \<open>hash\<close> the digest function.
\<close>

datatype drift_error = ValueErr | TypeErr

section \<open>Loops that raise, under recursion\<close>

lemma mapR_cong [fundef_cong]:
  "xs = ys \<Longrightarrow> (\<And>x. x \<in> set ys \<Longrightarrow> f x = g x) \<Longrightarrow> mapR f xs = mapR g ys"
  by (induction xs arbitrary: ys) (auto simp: bindR_def split: sum.splits)

lemma bindR_cong [fundef_cong]:
  "m = n \<Longrightarrow> (\<And>x. n = Inr x \<Longrightarrow> f x = g x) \<Longrightarrow> bindR m f = bindR n g"
  by (cases n) auto

lemma member_size: "(k, v) \<in> set kvs \<Longrightarrow> size v < size (JObj kvs)"
  by (induction kvs) auto

lemma element_size: "v \<in> set xs \<Longrightarrow> size v < size (JArr xs)"
  by (induction xs) auto

lemma lookup_size: "map_of kvs k = Some v \<Longrightarrow> size v < size (JObj kvs)"
  by (rule member_size [OF map_of_SomeD])

section \<open>Normalized contracts\<close>

definition presentation :: "string \<Rightarrow> bool" where
  "presentation k \<longleftrightarrow>
     k \<in> {''title'', ''description'', ''examples'', ''$comment'', ''default''}"

definition schema_map :: "string \<Rightarrow> bool" where
  "schema_map k \<longleftrightarrow> k \<in> {''properties'', ''patternProperties'', ''$defs'', ''definitions'',
     ''dependentSchemas''}"

definition schema_value :: "string \<Rightarrow> bool" where
  "schema_value k \<longleftrightarrow> k \<in> {'''', ''items'', ''additionalItems'', ''additionalProperties'',
     ''unevaluatedItems'', ''unevaluatedProperties'', ''propertyNames'', ''contains'', ''not'',
     ''if'', ''then'', ''else'', ''contentSchema'', ''allOf'', ''anyOf'', ''oneOf'',
     ''prefixItems''}"

definition semantic_set :: "string \<Rightarrow> bool" where
  "semantic_set k \<longleftrightarrow> k \<in> {''enum'', ''required'', ''type''}"

text \<open>\<^verbatim>\<open>_json\<close>, and \<^theory_text>\<open>sorted(value, key=_json)\<close>.\<close>

definition schema_json :: "(rat \<Rightarrow> string) \<Rightarrow> json \<Rightarrow> drift_error + string" where
  "schema_json fr v =
     (case encode_json False fr v of None \<Rightarrow> Inl ValueErr | Some e \<Rightarrow> Inr e)"

definition sort_by_json :: "(rat \<Rightarrow> string) \<Rightarrow> json list \<Rightarrow> drift_error + json list" where
  "sort_by_json fr xs =
     bindR (mapR (\<lambda>x. bindR (schema_json fr x) (\<lambda>e. Inr (e, x))) xs)
       (\<lambda>keyed. Inr (map snd (sort_key fst keyed)))"

function normalize :: "(rat \<Rightarrow> string) \<Rightarrow> string \<Rightarrow> json \<Rightarrow> drift_error + json"
and normalize_schema :: "(rat \<Rightarrow> string) \<Rightarrow> json \<Rightarrow> drift_error + json" where
  "normalize fr keyword v =
     (if semantic_set keyword
      then (case v of JArr xs \<Rightarrow> bindR (sort_by_json fr xs) (\<lambda>ys. Inr (JArr ys)) | _ \<Rightarrow> Inr v)
      else if schema_map keyword \<and> (case v of JObj _ \<Rightarrow> True | _ \<Rightarrow> False)
      then (case v of
          JObj kvs \<Rightarrow> bindR (mapR (\<lambda>m. bindR (normalize fr '''' (snd m)) (\<lambda>y. Inr (fst m, y)))
              (sort_key fst kvs)) (\<lambda>ms. Inr (JObj ms))
        | _ \<Rightarrow> Inr v)
      else if \<not> schema_value keyword then Inr v
      else normalize_schema fr v)"
| "normalize_schema fr v =
     (case v of
        JObj kvs \<Rightarrow>
          bindR (mapR (\<lambda>m. bindR (normalize fr (fst m) (snd m)) (\<lambda>y. Inr (fst m, y)))
              (filter (\<lambda>m. \<not> presentation (fst m)) (sort_key fst kvs)))
            (\<lambda>ms. Inr (JObj ms))
      | JArr xs \<Rightarrow> bindR (mapR (\<lambda>x. normalize fr '''' x) xs) (\<lambda>ys. Inr (JArr ys))
      | _ \<Rightarrow> Inr v)"
  by pat_completeness auto

termination
proof (relation "measure (\<lambda>x. case x of
    Inl (_, _, v) \<Rightarrow> 2 * size v + 1 | Inr (_, v) \<Rightarrow> 2 * size v)", goal_cases)
qed (auto dest!: member_size element_size)

declare normalize.simps [simp del] normalize_schema.simps [simp del]

record schema_contract =
  contract_schema :: json
  contract_identifiers :: "string list"

definition identifier_set :: "string list \<Rightarrow> string list" where
  "identifier_set ids = sort (remdups ids)"

text \<open>The validators of the model, applied to the value the given text spells.\<close>

definition contract_new ::
  "(rat \<Rightarrow> string) \<Rightarrow> json \<Rightarrow> string list \<Rightarrow> drift_error + schema_contract" where
  "contract_new fr parsed ids =
     (case parsed of
        JObj _ \<Rightarrow>
          bindR (normalize fr '''' parsed)
            (\<lambda>n. bindR (schema_json fr n)
            (\<lambda>_. Inr \<lparr>contract_schema = n, contract_identifiers = identifier_set ids\<rparr>))
      | _ \<Rightarrow> Inl ValueErr)"

definition from_schema ::
  "(rat \<Rightarrow> string) \<Rightarrow> (string \<times> json) list \<Rightarrow> string list \<Rightarrow> drift_error + schema_contract" where
  "from_schema fr schema ids =
     bindR (normalize fr '''' (JObj schema))
       (\<lambda>n. bindR (schema_json fr n)
       (\<lambda>_. contract_new fr n (identifier_set ids)))"

definition canonical_schema :: "(rat \<Rightarrow> string) \<Rightarrow> schema_contract \<Rightarrow> string" where
  "canonical_schema fr c =
     (case schema_json fr (contract_schema c) of Inl _ \<Rightarrow> '''' | Inr e \<Rightarrow> e)"

definition contract_digest ::
  "(string \<Rightarrow> string) \<Rightarrow> (rat \<Rightarrow> string) \<Rightarrow> schema_contract \<Rightarrow> string" where
  "contract_digest hash fr c =
     digest hash fr (JArr [JStr (canonical_schema fr c),
       JArr (map JStr (contract_identifiers c))])"

section \<open>Normalizing twice\<close>

lemma mapR_fixed: "(\<And>x. x \<in> set xs \<Longrightarrow> f x = Inr (g x)) \<Longrightarrow> mapR f xs = Inr (map g xs)"
  by (induction xs) auto

lemma list_all2_source: "list_all2 P xs ys \<Longrightarrow> y \<in> set ys \<Longrightarrow> \<exists>x \<in> set xs. P x y"
  by (induction rule: list_all2_induct) auto

lemma mapR_defined: "mapR f xs = Inr ys \<Longrightarrow> x \<in> set xs \<Longrightarrow> \<exists>y \<in> set ys. f x = Inr y"
  unfolding mapR_Inr_iff by (induction rule: list_all2_induct) auto

lemma sort_by_json_again:
  assumes "sort_by_json fr xs = Inr ys"
  shows "sort_by_json fr ys = Inr ys"
proof -
  let ?f = "\<lambda>x. bindR (schema_json fr x) (\<lambda>e. Inr (e, x))"
  obtain keyed where keyed: "mapR ?f xs = Inr keyed" and ys: "ys = map snd (sort_key fst keyed)"
    using assms by (auto simp: sort_by_json_def bindR_Inr)
  let ?K = "sort_key fst keyed"
  have "?f (snd p) = Inr p" if "p \<in> set ?K" for p
    using list_all2_source [of _ xs keyed p] keyed that by (fastforce simp: mapR_Inr_iff bindR_Inr)
  then have "mapR (?f \<circ> snd) ?K = Inr (map (\<lambda>p. p) ?K)"
    by (intro mapR_fixed) simp
  moreover have "mapR ?f (map snd zs) = mapR (?f \<circ> snd) zs" for zs :: "(string \<times> json) list"
    by (induction zs) simp_all
  moreover have "sort_key fst ?K = ?K"
    by (rule sort_key_id_if_sorted) simp
  ultimately show ?thesis by (simp add: sort_by_json_def ys)
qed

text \<open>Members processed in order keep their keys; a second pass sees the first one's result.\<close>

lemma members_again:
  assumes "mapR (\<lambda>m. bindR (g m) (\<lambda>y. Inr (fst m, y))) xs = Inr ms"
    and "\<And>m y. m \<in> set xs \<Longrightarrow> g m = Inr y \<Longrightarrow> g (fst m, y) = Inr y"
  shows "map fst ms = map fst xs"
    and "mapR (\<lambda>m. bindR (g m) (\<lambda>y. Inr (fst m, y))) ms = Inr ms"
proof -
  have all: "list_all2 (\<lambda>x m. fst m = fst x \<and> g x = Inr (snd m)) xs ms"
    using assms(1) unfolding mapR_Inr_iff
    by (rule list_all2_mono) (auto simp: bindR_Inr)
  then show "map fst ms = map fst xs"
    by (induction rule: list_all2_induct) auto
  have "g m = Inr (snd m)" if "m \<in> set ms" for m
  proof -
    obtain x where "x \<in> set xs" "fst m = fst x" "g x = Inr (snd m)"
      using list_all2_source [OF all] \<open>m \<in> set ms\<close> by blast
    then show ?thesis using assms(2) [of x "snd m"] by (metis prod.collapse)
  qed
  then have "mapR (\<lambda>m. bindR (g m) (\<lambda>y. Inr (fst m, y))) ms = Inr (map (\<lambda>m. m) ms)"
    by (intro mapR_fixed) simp
  then show "mapR (\<lambda>m. bindR (g m) (\<lambda>y. Inr (fst m, y))) ms = Inr ms" by simp
qed

lemma sorted_members:
  "map fst ms = map fst (sort_key fst kvs) \<Longrightarrow> sort_key fst ms = ms"
  by (rule sort_key_id_if_sorted) simp

lemma sorted_filtered_members:
  assumes "map fst ms = map fst (filter (\<lambda>m. p (fst m)) (sort_key fst kvs))"
  shows "filter (\<lambda>m. p (fst m)) (sort_key fst ms) = ms"
proof -
  have "sorted (map fst ms)" unfolding assms by (rule sorted_filter) simp
  then have "sort_key fst ms = ms" by (rule sort_key_id_if_sorted)
  moreover have "p k" if "k \<in> set (map fst ms)" for k using that unfolding assms by auto
  then have "filter (\<lambda>m. p (fst m)) ms = ms" by (auto simp: filter_id_conv)
  ultimately show ?thesis by simp
qed

lemma normalize_map:
  "\<not> semantic_set keyword \<Longrightarrow> schema_map keyword \<Longrightarrow>
     normalize fr keyword (JObj kvs) =
       bindR (mapR (\<lambda>m. bindR (normalize fr '''' (snd m)) (\<lambda>y. Inr (fst m, y))) (sort_key fst kvs))
         (\<lambda>ms. Inr (JObj ms))"
  by (subst normalize.simps) simp

lemma normalize_again:
  "normalize fr keyword v = Inr n \<Longrightarrow> normalize fr keyword n = Inr n"
  "normalize_schema fr v = Inr n \<Longrightarrow> normalize_schema fr n = Inr n"
proof (induction fr keyword v and fr v arbitrary: n and n
    rule: normalize_normalize_schema.induct)
  case (1 fr keyword v)
  consider (sets) "semantic_set keyword"
    | (map) kvs where "\<not> semantic_set keyword" "schema_map keyword" "v = JObj kvs"
    | (literal) "\<not> semantic_set keyword" "\<not> (schema_map keyword \<and> (case v of JObj _ \<Rightarrow> True | _ \<Rightarrow> False))"
        "\<not> schema_value keyword"
    | (schema) "\<not> semantic_set keyword" "\<not> (schema_map keyword \<and> (case v of JObj _ \<Rightarrow> True | _ \<Rightarrow> False))"
        "schema_value keyword"
    by (cases v) auto
  then show ?case
  proof cases
    case sets
    with "1.prems" show ?thesis
      by (auto simp: normalize.simps [of fr keyword] bindR_Inr dest: sort_by_json_again
          split: json.splits)
  next
    case map
    let ?g = "\<lambda>m. normalize fr '''' (snd m)"
    obtain ms where ms: "mapR (\<lambda>m. bindR (?g m) (\<lambda>y. Inr (fst m, y))) (sort_key fst kvs) = Inr ms"
      and n: "n = JObj ms"
      using "1.prems" map by (auto simp: normalize_map bindR_Inr)
    have IH: "?g (fst m, y) = Inr y" if "m \<in> set (sort_key fst kvs)" "?g m = Inr y" for m y
      using "1.IH"(1) [OF map(1) _ map(3) that(1)] map(2,3) that(2) by simp
    have sorted: "sort_key fst ms = ms"
      using members_again(1) [of ?g, OF ms IH] by (rule sorted_members)
    have "mapR (\<lambda>m. bindR (?g m) (\<lambda>y. Inr (fst m, y))) ms = Inr ms"
      using ms IH by (rule members_again(2))
    then show ?thesis
      unfolding n normalize_map [OF map(1,2)] sorted by (simp only: bindR_simps)
  next
    case literal
    with "1.prems" show ?thesis by (auto simp: normalize.simps [of fr keyword])
  next
    case schema
    have nomap: "\<not> schema_map keyword"
      using schema(3) by (auto simp: schema_map_def schema_value_def)
    have v: "normalize fr keyword v = normalize_schema fr v"
      by (simp add: normalize.simps [of fr keyword] schema(1,3) nomap)
    have "normalize_schema fr v = Inr n" using "1.prems" unfolding v .
    with "1.IH"(2) [OF schema(1,2)] schema(3) have again: "normalize_schema fr n = Inr n" by blast
    then show ?thesis by (simp add: normalize.simps [of fr keyword] schema(1,3) nomap)
  qed
next
  case (2 fr v)
  show ?case
  proof (cases v)
    case (JObj kvs)
    let ?g = "\<lambda>m. normalize fr (fst m) (snd m)"
    let ?xs = "filter (\<lambda>m. \<not> presentation (fst m)) (sort_key fst kvs)"
    obtain ms where ms: "mapR (\<lambda>m. bindR (?g m) (\<lambda>y. Inr (fst m, y))) ?xs = Inr ms"
      and n: "n = JObj ms"
      using "2.prems" JObj by (auto simp: normalize_schema.simps bindR_Inr)
    have IH: "?g (fst m, y) = Inr y" if "m \<in> set ?xs" "?g m = Inr y" for m y
      using "2.IH"(2) [OF JObj that(1)] that(2) by simp
    have kept: "filter (\<lambda>m. \<not> presentation (fst m)) (sort_key fst ms) = ms"
      using members_again(1) [of ?g, OF ms IH] by (rule sorted_filtered_members)
    have "mapR (\<lambda>m. bindR (?g m) (\<lambda>y. Inr (fst m, y))) ms = Inr ms"
      using ms IH by (rule members_again(2))
    then show ?thesis
      unfolding n normalize_schema.simps json.case kept by (simp only: bindR_simps)
  next
    case (JArr xs)
    obtain ys where ys: "mapR (normalize fr '''') xs = Inr ys" and n: "n = JArr ys"
      using "2.prems" JArr by (auto simp: normalize_schema.simps bindR_Inr)
    have "normalize fr '''' y = Inr y" if "y \<in> set ys" for y
    proof -
      obtain x where "x \<in> set xs" "normalize fr '''' x = Inr y"
        using list_all2_source [OF ys [unfolded mapR_Inr_iff] \<open>y \<in> set ys\<close>] by blast
      then show ?thesis using "2.IH"(1) [OF JArr] by blast
    qed
    then have "mapR (normalize fr '''') ys = Inr (map (\<lambda>y. y) ys)"
      by (intro mapR_fixed) simp
    then show ?thesis by (simp add: n normalize_schema.simps)
  qed (use "2.prems" in \<open>auto simp: normalize_schema.simps\<close>)
qed

text \<open>
  Property C14. Normalizing is idempotent, so a contract built from a mapping, whose text the
  model's validator normalizes a second time, is the contract of the mapping itself, and
  validating the schema of a contract again gives the same contract.
\<close>

theorem contract_normal_form:
  "from_schema fr schema ids = contract_new fr (JObj schema) ids
   \<and> (case contract_new fr parsed ids of
        Inl _ \<Rightarrow> True
      | Inr c \<Rightarrow> contract_new fr (contract_schema c) (contract_identifiers c) = Inr c)"
proof (intro conjI)
  have ids: "identifier_set (identifier_set ids) = identifier_set ids"
    by (simp add: identifier_set_def remdups_id_iff_distinct sorted_sort_id)
  have obj: "\<exists>kvs. n = JObj kvs" if "normalize fr '''' (JObj schema) = Inr n" for n schema
    using that by (auto simp: normalize.simps [of fr "[]"] normalize_schema.simps semantic_set_def
        schema_map_def schema_value_def bindR_Inr)
  show "from_schema fr schema ids = contract_new fr (JObj schema) ids"
  proof (cases "normalize fr '''' (JObj schema)")
    case (Inr n)
    moreover obtain kvs where "n = JObj kvs" using obj [OF Inr] by blast
    ultimately show ?thesis
      using normalize_again(1) [OF Inr]
      by (cases "schema_json fr n") (simp_all add: from_schema_def contract_new_def ids)
  qed (simp add: from_schema_def contract_new_def)
  show "case contract_new fr parsed ids of
        Inl _ \<Rightarrow> True
      | Inr c \<Rightarrow> contract_new fr (contract_schema c) (contract_identifiers c) = Inr c"
  proof (cases "contract_new fr parsed ids")
    case (Inl e)
    then show ?thesis by simp
  next
    case (Inr c)
    then obtain kvs n e where parsed: "parsed = JObj kvs" and n: "normalize fr '''' parsed = Inr n"
      and json: "schema_json fr n = Inr e"
      and c: "c = \<lparr>contract_schema = n, contract_identifiers = identifier_set ids\<rparr>"
      by (auto simp: contract_new_def bindR_Inr split: json.splits)
    obtain ms where "n = JObj ms" using obj n parsed by blast
    then have "contract_new fr n (identifier_set ids) = Inr c"
      using normalize_again(1) [OF n] json by (simp add: c contract_new_def ids)
    then show ?thesis unfolding Inr by (simp add: c)
  qed
qed

section \<open>Changes and their levels\<close>

datatype drift = Compatible | RequiresReview | Breaking

datatype evolution_policy = ReviewPolicy | OptionalFields

text \<open>Severity orders the classifications.\<close>

primrec severity :: "drift \<Rightarrow> nat" where
  "severity Compatible = 0"
| "severity RequiresReview = 1"
| "severity Breaking = 2"

lemma severity_inject [simp]: "severity x = severity y \<longleftrightarrow> x = y"
  by (cases x; cases y) simp_all

instantiation drift :: linorder
begin

definition less_eq_drift :: "drift \<Rightarrow> drift \<Rightarrow> bool" where
  "less_eq_drift x y \<longleftrightarrow> severity x \<le> severity y"

definition less_drift :: "drift \<Rightarrow> drift \<Rightarrow> bool" where
  "less_drift x y \<longleftrightarrow> severity x < severity y"

instance
  by standard (auto simp: less_eq_drift_def less_drift_def)

end

lemma compatible_least [simp]: "Compatible \<le> x" "x \<le> Compatible \<longleftrightarrow> x = Compatible"
  by (cases x; simp add: less_eq_drift_def)+

lemma breaking_greatest [simp]: "x \<le> Breaking" "Breaking \<le> x \<longleftrightarrow> x = Breaking"
  by (cases x; simp add: less_eq_drift_def)+

type_synonym change = "string \<times> string \<times> drift"

definition addition_level :: "bool \<Rightarrow> evolution_policy \<Rightarrow> drift" where
  "addition_level required policy =
     (if \<not> required \<and> policy = OptionalFields then Compatible else RequiresReview)"

text \<open>
  \<^verbatim>\<open>_semantic_value\<close>: numbers by value, Booleans apart from them, objects as frozen sets of
  members and arrays as tuples; equality of the results is Python's \<^theory_text>\<open>==\<close>. A
  \<^verbatim>\<open>NaN\<close> never reaches it, since no contract text spells one.
\<close>

datatype sem =
    SNull
  | SBool bool
  | SNum pyfloat
  | SStr string
  | SArr "sem list"
  | SObj "(string \<times> sem) fset"

primrec sem_of :: "json \<Rightarrow> sem" where
  "sem_of JNull = SNull"
| "sem_of (JBool b) = SBool b"
| "sem_of (JInt i) = SNum (Fin (of_int i))"
| "sem_of (JFloat f) = SNum f"
| "sem_of (JStr s) = SStr s"
| "sem_of (JArr xs) = SArr (map sem_of xs)"
| "sem_of (JObj kvs) = SObj (fset_of_list (map (map_prod (\<lambda>k. k) sem_of) kvs))"

text \<open>An enumeration is the frozen set of its values, which equals no other value.\<close>

definition keyword_value :: "json \<Rightarrow> string \<Rightarrow> sem fset + sem" where
  "keyword_value v key =
     (case v of
        JArr xs \<Rightarrow> if key = ''enum'' then Inl (fset_of_list (map sem_of xs)) else Inr (sem_of v)
      | _ \<Rightarrow> Inr (sem_of v))"

definition same_keyword ::
  "(string \<times> json) list \<Rightarrow> (string \<times> json) list \<Rightarrow> string \<Rightarrow> bool" where
  "same_keyword old new key =
     (case (map_of old key, map_of new key) of
        (Some v, Some w) \<Rightarrow> keyword_value v key = keyword_value w key
      | _ \<Rightarrow> False)"

text \<open>\<^theory_text>\<open>set(old.get("required", []))\<close>, restricted to the strings it can hold.\<close>

definition required_names :: "(string \<times> json) list \<Rightarrow> drift_error + string set" where
  "required_names obj =
     (case map_of obj ''required'' of
        None \<Rightarrow> Inr {}
      | Some (JArr xs) \<Rightarrow>
          if list_ex (\<lambda>x. case x of JArr _ \<Rightarrow> True | JObj _ \<Rightarrow> True | _ \<Rightarrow> False) xs
          then Inl TypeErr
          else Inr (set (concat (map (\<lambda>x. case x of JStr s \<Rightarrow> [s] | _ \<Rightarrow> []) xs)))
      | Some (JStr s) \<Rightarrow> Inr (set (map (\<lambda>c. [c]) s))
      | Some (JObj kvs) \<Rightarrow> Inr (set (map fst kvs))
      | Some _ \<Rightarrow> Inl TypeErr)"

definition properties_value :: "(string \<times> json) list \<Rightarrow> json" where
  "properties_value obj = (case map_of obj ''properties'' of None \<Rightarrow> JObj [] | Some v \<Rightarrow> v)"

text \<open>\<^theory_text>\<open>sorted(old.keys() | new.keys())\<close>.\<close>

definition all_keys :: "(string \<times> 'v) list \<Rightarrow> (string \<times> 'v) list \<Rightarrow> string list" where
  "all_keys old new = sort (remdups (map fst old @ map fst new))"

definition keyword_reason :: "string \<Rightarrow> string" where
  "keyword_reason key =
     (if key = ''required'' then ''REQUIREDNESS_CHANGED''
      else if key = ''enum'' \<or> key = ''const'' then ''ENUM_CHANGED''
      else ''UNKNOWN_SCHEMA_CHANGE'')"

definition both_items ::
  "string \<Rightarrow> (string \<times> json) list \<Rightarrow> (string \<times> json) list \<Rightarrow> (json \<times> json) option" where
  "both_items key old new =
     (if key = ''items''
      then (case (map_of old key, map_of new key) of (Some v, Some w) \<Rightarrow> Some (v, w) | _ \<Rightarrow> None)
      else None)"

lemma properties_size:
  "properties_value obj = JObj before \<Longrightarrow> map_of before name = Some v \<Longrightarrow>
     size v < size (JObj obj)"
  using lookup_size [of before name v] lookup_size [of obj "''properties''" "JObj before"]
  by (auto simp: properties_value_def split: option.splits)

lemma items_size: "both_items key old new = Some (v, w) \<Longrightarrow> size v < size (JObj old)"
  using lookup_size [of old key v] by (auto simp: both_items_def split: option.splits if_splits)

lemma keyword_reason_other: "keyword_reason key \<noteq> ''TYPE_CHANGED''"
  by (simp add: keyword_reason_def)

function changes ::
  "evolution_policy \<Rightarrow> json \<Rightarrow> json \<Rightarrow> string \<Rightarrow> drift_error + change list"
and property_changes ::
  "evolution_policy \<Rightarrow> (string \<times> json) list \<Rightarrow> (string \<times> json) list \<Rightarrow> string \<Rightarrow>
     drift_error + change list"
and keyword_changes ::
  "evolution_policy \<Rightarrow> (string \<times> json) list \<Rightarrow> (string \<times> json) list \<Rightarrow> string \<Rightarrow> string \<Rightarrow>
     drift_error + change list"
where
  "changes policy old new path =
     (if sem_of old = sem_of new then Inr []
      else case old of
          JObj o1 \<Rightarrow> (case new of
              JObj n1 \<Rightarrow>
                bindR (property_changes policy o1 n1 path) (\<lambda>ps.
                bindR (mapR (\<lambda>key. keyword_changes policy o1 n1 key path)
                    (filter (\<lambda>key. \<not> (key = ''properties'' \<or> same_keyword o1 n1 key))
                      (all_keys o1 n1))) (\<lambda>kss.
                Inr (ps @ concat kss)))
            | _ \<Rightarrow> Inr [(path, ''UNKNOWN_SCHEMA_CHANGE'', RequiresReview)])
        | _ \<Rightarrow> Inr [(path, ''UNKNOWN_SCHEMA_CHANGE'', RequiresReview)])"
| "property_changes policy old new path =
     (case properties_value old of
        JObj before \<Rightarrow> (case properties_value new of
            JObj after \<Rightarrow>
              bindR (required_names old) (\<lambda>r1.
              bindR (required_names new) (\<lambda>r2.
              bindR (mapR (\<lambda>name.
                  let field = path @ ''/properties/'' @ name in
                  case map_of after name of
                    None \<Rightarrow> Inr [(field, ''FIELD_REMOVED'',
                      if name \<in> r1 \<union> r2 then Breaking else RequiresReview)]
                  | Some w \<Rightarrow> (case map_of before name of
                      None \<Rightarrow> Inr [(field, ''FIELD_ADDED'', addition_level (name \<in> r1 \<union> r2) policy)]
                    | Some v \<Rightarrow> changes policy v w field))
                (all_keys before after)) (\<lambda>css.
              Inr (concat css))))
          | _ \<Rightarrow> Inr [(path, ''UNKNOWN_PROPERTIES'', RequiresReview)])
      | _ \<Rightarrow> Inr [(path, ''UNKNOWN_PROPERTIES'', RequiresReview)])"
| "keyword_changes policy old new key path =
     (let field = path @ ''/'' @ key in
      case both_items key old new of
        Some (v, w) \<Rightarrow> changes policy v w field
      | None \<Rightarrow>
          if key = ''type'' then Inr [(field, ''TYPE_CHANGED'', Breaking)]
          else Inr [(field, keyword_reason key, RequiresReview)])"
  by pat_completeness auto

termination
  by (relation "measure (\<lambda>x. case x of
      Inl (_, old, _, _) \<Rightarrow> 2 * size old
    | Inr (Inl (_, old, _, _)) \<Rightarrow> 2 * size (JObj old) - 1
    | Inr (Inr (_, old, _, _, _)) \<Rightarrow> 2 * size (JObj old) - 1)")
    (auto dest!: properties_size items_size)

declare changes.simps [simp del] property_changes.simps [simp del] keyword_changes.simps [simp del]

section \<open>The classification\<close>

definition contract_changes ::
  "schema_contract option \<Rightarrow> schema_contract option \<Rightarrow> evolution_policy \<Rightarrow>
     drift_error + change list" where
  "contract_changes prior current policy =
     (case (prior, current) of
        (Some p, Some c) \<Rightarrow>
          bindR (changes policy (contract_schema p) (contract_schema c) '''') (\<lambda>cs.
          Inr (if contract_identifiers p \<noteq> contract_identifiers c
               then cs @ [(''/'', ''IDENTIFIER_CHANGED'', Breaking)] else cs))
      | _ \<Rightarrow> Inr [(''/'', ''MISSING_SCHEMA'', RequiresReview)])"

definition change_levels :: "change list \<Rightarrow> drift list" where
  "change_levels cs = map (\<lambda>(_, _, level). level) cs"

definition classification :: "change list \<Rightarrow> drift" where
  "classification cs =
     (if Breaking \<in> set (change_levels cs) then Breaking
      else if RequiresReview \<in> set (change_levels cs) then RequiresReview
      else Compatible)"

record drift_report =
  drift_source :: string
  drift_stream :: string
  drift_tenant :: "string option"
  old_schema_digest :: "string option"
  new_schema_digest :: "string option"
  affected_fields :: "string list"
  drift_class :: drift
  observed_sample :: string
  reason_codes :: "string list"

definition classify_schema_drift ::
  "(schema_contract \<Rightarrow> string) \<Rightarrow> schema_contract option \<Rightarrow> schema_contract option \<Rightarrow>
     string \<Rightarrow> string \<Rightarrow> string option \<Rightarrow> string \<Rightarrow> evolution_policy \<Rightarrow> drift_error + drift_report" where
  "classify_schema_drift dg prior current source stream tenant sample policy =
     bindR (contract_changes prior current policy) (\<lambda>cs.
     Inr \<lparr>drift_source = source, drift_stream = stream, drift_tenant = tenant,
       old_schema_digest = map_option dg prior,
       new_schema_digest = map_option dg current,
       affected_fields = sort (remdups (map (\<lambda>(f, _, _). f) cs)),
       drift_class = classification cs,
       observed_sample = sample,
       reason_codes = sort (remdups (map (\<lambda>(_, r, _). r) cs))\<rparr>)"

section \<open>What a compatible change is\<close>

text \<open>
  The declared meaning: a schema may stay as it is, enumerations compared as sets; each
  property keeps its name and evolves in turn, as an array's item schema does; a new property
  must be optional and the policy must admit it; every other keyword keeps its value.
\<close>

inductive evolves :: "evolution_policy \<Rightarrow> json \<Rightarrow> json \<Rightarrow> bool" for policy where
  unchanged: "sem_of old = sem_of new \<Longrightarrow> evolves policy old new"
| object: "evolves policy (JObj old) (JObj new)"
  if "properties_value old = JObj before" "properties_value new = JObj after"
    and "required_names old = Inr r1" "required_names new = Inr r2"
    and "\<And>name v. map_of before name = Some v \<Longrightarrow>
           \<exists>w. map_of after name = Some w \<and> evolves policy v w"
    and "\<And>name w. map_of after name = Some w \<Longrightarrow> map_of before name = None \<Longrightarrow>
           policy = OptionalFields \<and> name \<notin> r1 \<union> r2"
    and "\<And>key. key \<in> fst ` set old \<union> fst ` set new \<Longrightarrow> key \<noteq> ''properties'' \<Longrightarrow>
           same_keyword old new key
           \<or> (\<exists>v w. both_items key old new = Some (v, w) \<and> evolves policy v w)"

inductive_cases evolves_objectE: "evolves policy (JObj old) (JObj new)"
inductive_cases evolvesE: "evolves policy old new"

definition harmless :: "change list \<Rightarrow> bool" where
  "harmless cs \<longleftrightarrow> (\<forall>c \<in> set cs. snd (snd c) = Compatible)"

lemma harmless_simps [simp]:
  "harmless []"
  "harmless (c # cs) \<longleftrightarrow> snd (snd c) = Compatible \<and> harmless cs"
  "harmless (cs @ ds) \<longleftrightarrow> harmless cs \<and> harmless ds"
  "harmless (concat css) \<longleftrightarrow> (\<forall>cs \<in> set css. harmless cs)"
  by (auto simp: harmless_def)

lemma classification_Compatible: "classification cs = Compatible \<longleftrightarrow> harmless cs"
proof
  assume "classification cs = Compatible"
  then have no: "Breaking \<notin> set (change_levels cs)" "RequiresReview \<notin> set (change_levels cs)"
    by (auto simp: classification_def split: if_splits)
  have "snd (snd c) = Compatible" if "c \<in> set cs" for c
  proof -
    have "snd (snd c) \<in> set (change_levels cs)"
      using that by (force simp: change_levels_def image_iff split_beta)
    with no show ?thesis by (cases "snd (snd c)") auto
  qed
  then show "harmless cs" by (simp add: harmless_def)
qed (force simp: classification_def harmless_def change_levels_def)

text \<open>Every change is at most as severe as the classification, which some change reaches.\<close>

lemma classification_Max:
  "classification cs = Max (insert Compatible (set (change_levels cs)))"
proof (rule sym, rule Max_eqI)
  fix level assume "level \<in> insert Compatible (set (change_levels cs))"
  then show "level \<le> classification cs"
    by (cases level) (auto simp: classification_def)
next
  have "Compatible \<in> set (change_levels cs) \<or> classification cs \<in> insert Compatible (set (change_levels cs))"
    by (auto simp: classification_def)
  then show "classification cs \<in> insert Compatible (set (change_levels cs))"
    by (auto simp: classification_def)
qed simp

lemma all_keys_set [simp]: "set (all_keys old new) = fst ` set old \<union> fst ` set new"
  by (auto simp: all_keys_def)

lemma mapR_harmless:
  assumes "mapR f xs = Inr css"
  shows "(\<forall>cs \<in> set css. harmless cs) \<longleftrightarrow> (\<forall>x \<in> set xs. \<forall>cs. f x = Inr cs \<longrightarrow> harmless cs)"
  using assms unfolding mapR_Inr_iff by (induction rule: list_all2_induct) auto

text \<open>The three functions list only compatible changes exactly when the relation holds.\<close>

definition props_evolve ::
  "evolution_policy \<Rightarrow> (string \<times> json) list \<Rightarrow> (string \<times> json) list \<Rightarrow> bool" where
  "props_evolve policy old new \<longleftrightarrow>
     (\<exists>before after r1 r2. properties_value old = JObj before \<and> properties_value new = JObj after
        \<and> required_names old = Inr r1 \<and> required_names new = Inr r2
        \<and> (\<forall>name v. map_of before name = Some v \<longrightarrow>
             (\<exists>w. map_of after name = Some w \<and> evolves policy v w))
        \<and> (\<forall>name w. map_of after name = Some w \<longrightarrow> map_of before name = None \<longrightarrow>
             policy = OptionalFields \<and> name \<notin> r1 \<union> r2))"

definition keyword_evolves ::
  "evolution_policy \<Rightarrow> (string \<times> json) list \<Rightarrow> (string \<times> json) list \<Rightarrow> string \<Rightarrow> bool" where
  "keyword_evolves policy old new key \<longleftrightarrow>
     (\<exists>v w. both_items key old new = Some (v, w) \<and> evolves policy v w)"

lemma evolves_JObj:
  "evolves policy (JObj old) (JObj new) \<longleftrightarrow>
     sem_of (JObj old) = sem_of (JObj new)
     \<or> props_evolve policy old new
       \<and> (\<forall>key \<in> fst ` set old \<union> fst ` set new. key \<noteq> ''properties'' \<longrightarrow>
            same_keyword old new key \<or> keyword_evolves policy old new key)"
    (is "?evolves \<longleftrightarrow> ?same \<or> ?props")
proof
  assume ?evolves
  then show "?same \<or> ?props"
    unfolding props_evolve_def keyword_evolves_def by (rule evolves_objectE) blast+
next
  assume "?same \<or> ?props"
  then show ?evolves
    unfolding props_evolve_def keyword_evolves_def
    by (elim disjE exE conjE) (rule evolves.unchanged, assumption, rule evolves.object, auto)
qed

lemma evolves_not_object:
  "(\<forall>o1 n1. \<not> (old = JObj o1 \<and> new = JObj n1)) \<Longrightarrow>
     evolves policy old new \<longleftrightarrow> sem_of old = sem_of new"
  by (auto intro: evolves.unchanged elim: evolvesE)

lemma both_keys: "name \<in> fst ` set kvs \<longleftrightarrow> (\<exists>v. map_of kvs name = Some v)"
  by (metis domD domI dom_map_of_conv_image_fst)

lemma changes_decide:
  "changes policy old new path = Inr cs \<Longrightarrow> harmless cs \<longleftrightarrow> evolves policy old new"
  "property_changes policy oo nn path = Inr cs \<Longrightarrow> harmless cs \<longleftrightarrow> props_evolve policy oo nn"
  "keyword_changes policy oo nn key path = Inr cs \<Longrightarrow>
     harmless cs \<longleftrightarrow> keyword_evolves policy oo nn key"
proof (induction policy old new path and policy oo nn path and policy oo nn key path
    arbitrary: cs and cs and cs rule: changes_property_changes_keyword_changes.induct)
  case (1 policy old new path)
  show ?case
  proof (cases "sem_of old = sem_of new")
    case True
    with "1.prems" show ?thesis by (simp add: changes.simps evolves.unchanged)
  next
    case differ: False
    show ?thesis
    proof (cases "\<exists>o1 n1. old = JObj o1 \<and> new = JObj n1")
      case False
      with differ "1.prems" show ?thesis
        by (auto simp: changes.simps evolves_not_object split: json.splits)
    next
      case True
      then obtain o1 n1 where objs: "old = JObj o1" "new = JObj n1" by blast
      let ?keys = "filter (\<lambda>key. \<not> (key = ''properties'' \<or> same_keyword o1 n1 key))
        (all_keys o1 n1)"
      obtain ps kss where ps: "property_changes policy o1 n1 path = Inr ps"
        and kss: "mapR (\<lambda>key. keyword_changes policy o1 n1 key path) ?keys = Inr kss"
        and cs: "cs = ps @ concat kss"
        using "1.prems" differ unfolding objs by (auto simp: changes.simps bindR_Inr)
      have "harmless ps \<longleftrightarrow> props_evolve policy o1 n1"
        by (rule "1.IH"(1) [OF differ objs ps])
      moreover have "(\<forall>ks \<in> set kss. harmless ks) \<longleftrightarrow>
          (\<forall>key \<in> set ?keys. keyword_evolves policy o1 n1 key)"
      proof -
        have "(\<forall>ks. keyword_changes policy o1 n1 key path = Inr ks \<longrightarrow> harmless ks) \<longleftrightarrow>
            keyword_evolves policy o1 n1 key" if "key \<in> set ?keys" for key
        proof -
          obtain ks where "keyword_changes policy o1 n1 key path = Inr ks"
            using mapR_defined [OF kss \<open>key \<in> set ?keys\<close>] by blast
          with "1.IH"(2) [OF differ objs ps that] show ?thesis by auto
        qed
        then show ?thesis unfolding mapR_harmless [OF kss] by (rule ball_cong [OF refl])
      qed
      ultimately show ?thesis
        using differ unfolding cs objs evolves_JObj by auto
    qed
  qed
next
  case (2 policy old new path)
  show ?case
  proof (cases "\<exists>before after. properties_value old = JObj before
      \<and> properties_value new = JObj after")
    case False
    with "2.prems" show ?thesis
      by (auto simp: property_changes.simps [of policy old] props_evolve_def split: json.splits)
  next
    case True
    then obtain before after where objs: "properties_value old = JObj before"
        "properties_value new = JObj after"
      by blast
    let ?field = "\<lambda>name. path @ ''/properties/'' @ name"
    obtain r1 r2 css where r: "required_names old = Inr r1" "required_names new = Inr r2"
      and css: "mapR (\<lambda>name. case map_of after name of
          None \<Rightarrow> Inr [(?field name, ''FIELD_REMOVED'',
            if name \<in> r1 \<union> r2 then Breaking else RequiresReview)]
        | Some w \<Rightarrow> (case map_of before name of
            None \<Rightarrow> Inr [(?field name, ''FIELD_ADDED'', addition_level (name \<in> r1 \<union> r2) policy)]
          | Some v \<Rightarrow> changes policy v w (?field name))) (all_keys before after) = Inr css"
        (is "mapR ?f _ = _")
      and cs: "cs = concat css"
      using "2.prems" unfolding property_changes.simps [of policy old] objs json.case Let_def
      by (auto simp: bindR_Inr)
    have IH: "harmless ds \<longleftrightarrow> evolves policy v w"
      if "name \<in> set (all_keys before after)" "map_of after name = Some w"
        "map_of before name = Some v" "changes policy v w (?field name) = Inr ds" for name v w ds
      using "2.IH" [OF objs r that(1) refl that(2,3)] that(4) by blast
    have step: "(\<forall>ds. ?f name = Inr ds \<longrightarrow> harmless ds) \<longleftrightarrow>
        (\<forall>v. map_of before name = Some v \<longrightarrow> (\<exists>w. map_of after name = Some w \<and> evolves policy v w))
        \<and> (\<forall>w. map_of after name = Some w \<longrightarrow> map_of before name = None \<longrightarrow>
             policy = OptionalFields \<and> name \<notin> r1 \<union> r2)"
      if name: "name \<in> set (all_keys before after)" for name
    proof -
      obtain ds where ds: "?f name = Inr ds" using mapR_defined [OF css name] by blast
      show ?thesis
      proof (cases "map_of after name")
        case None
        with name obtain v where "map_of before name = Some v" by (auto simp: both_keys)
        with None show ?thesis by simp
      next
        case w: (Some w)
        show ?thesis
        proof (cases "map_of before name")
          case None
          with w show ?thesis by (simp add: addition_level_def)
        next
          case (Some v)
          with IH [OF name w Some] ds w show ?thesis by auto
        qed
      qed
    qed
    have "harmless cs \<longleftrightarrow> (\<forall>name \<in> set (all_keys before after).
        (\<forall>v. map_of before name = Some v \<longrightarrow> (\<exists>w. map_of after name = Some w \<and> evolves policy v w))
        \<and> (\<forall>w. map_of after name = Some w \<longrightarrow> map_of before name = None \<longrightarrow>
             policy = OptionalFields \<and> name \<notin> r1 \<union> r2))"
      unfolding cs harmless_simps mapR_harmless [OF css] by (rule ball_cong [OF refl step])
    also have "\<dots> \<longleftrightarrow> props_evolve policy old new"
      unfolding props_evolve_def objs r by (auto simp: both_keys)
    finally show ?thesis .
  qed
next
  case (3 policy old new key path)
  then show ?case
    by (auto simp: keyword_changes.simps [of policy old] keyword_evolves_def Let_def
        split: option.splits if_splits)
qed

text \<open>
  Property C15. A page's drift is classified compatible exactly when both contracts are
  declared, with the same identifiers, and the new schema evolves from the old one as the
  policy admits; contracts that are equal are compatible with no reason, and the
  classification can only raise on two declared contracts that differ.
\<close>

theorem drift_compatible_iff:
  "(case classify_schema_drift dg prior current source stream tenant sample policy of
      Inl _ \<Rightarrow> prior \<noteq> None \<and> current \<noteq> None \<and> prior \<noteq> current
    | Inr r \<Rightarrow> drift_class r = Compatible \<longleftrightarrow>
        (\<exists>p c. prior = Some p \<and> current = Some c
           \<and> contract_identifiers p = contract_identifiers c
           \<and> evolves policy (contract_schema p) (contract_schema c)))
   \<and> map_sum (\<lambda>_. ()) (\<lambda>r. (drift_class r, reason_codes r))
       (classify_schema_drift dg (Some same) (Some same) source stream tenant sample policy)
     = Inr (Compatible, [])"
proof (intro conjI)
  have equal: "changes policy v v path = Inr []" for v path by (simp add: changes.simps)
  show "map_sum (\<lambda>_. ()) (\<lambda>r. (drift_class r, reason_codes r))
       (classify_schema_drift dg (Some same) (Some same) source stream tenant sample policy)
     = Inr (Compatible, [])"
    by (simp add: classify_schema_drift_def contract_changes_def equal classification_def
        change_levels_def)
  show "case classify_schema_drift dg prior current source stream tenant sample policy of
      Inl _ \<Rightarrow> prior \<noteq> None \<and> current \<noteq> None \<and> prior \<noteq> current
    | Inr r \<Rightarrow> drift_class r = Compatible \<longleftrightarrow>
        (\<exists>p c. prior = Some p \<and> current = Some c
           \<and> contract_identifiers p = contract_identifiers c
           \<and> evolves policy (contract_schema p) (contract_schema c))"
  proof (cases "\<exists>p c. prior = Some p \<and> current = Some c")
    case False
    then show ?thesis
      by (auto simp: classify_schema_drift_def contract_changes_def classification_Compatible
          split: option.splits)
  next
    case True
    then obtain p c where pc: "prior = Some p" "current = Some c" by blast
    show ?thesis
    proof (cases "changes policy (contract_schema p) (contract_schema c) ''''")
      case (Inl e)
      then have "p \<noteq> c" using equal by auto
      with Inl show ?thesis by (simp add: classify_schema_drift_def contract_changes_def pc)
    next
      case (Inr cs)
      then show ?thesis
        using changes_decide(1) [OF Inr]
        by (simp add: classify_schema_drift_def contract_changes_def pc classification_Compatible)
    qed
  qed
qed

section \<open>What breaks\<close>

lemma sem_members:
  assumes "sem_of (JObj old) = sem_of (JObj new)"
  shows "(\<lambda>(k, v). (k, sem_of v)) ` set old = (\<lambda>(k, v). (k, sem_of v)) ` set new"
proof -
  have "fset (fset_of_list (map (map_prod (\<lambda>k. k) sem_of) old)) =
      fset (fset_of_list (map (map_prod (\<lambda>k. k) sem_of) new))"
    using assms by simp
  then show ?thesis by (simp add: fset_of_list.rep_eq map_prod_def)
qed

lemma sem_lookup:
  assumes "well_keyed old" "well_keyed new" "sem_of (JObj old) = sem_of (JObj new)"
  shows "map_option sem_of (map_of old k) = map_option sem_of (map_of new k)"
proof -
  have same: "\<exists>w. map_of ys k = Some w \<and> sem_of v = sem_of w"
    if "well_keyed ys" "map_of xs k = Some v"
      "(\<lambda>(k, v). (k, sem_of v)) ` set xs = (\<lambda>(k, v). (k, sem_of v)) ` set ys"
    for xs ys :: "(string \<times> json) list" and v
  proof -
    have "(k, sem_of v) \<in> (\<lambda>(k, v). (k, sem_of v)) ` set ys"
      using map_of_SomeD [OF that(2)] that(3) by (metis (mono_tags, lifting) case_prod_conv image_eqI)
    then obtain w where "(k, w) \<in> set ys" "sem_of v = sem_of w" by auto
    then show ?thesis using that(1) by (auto simp: well_keyed_def)
  qed
  note sets = sem_members [OF assms(3)]
  show ?thesis
  proof (cases "map_of old k")
    case (Some v)
    with same [OF assms(2) _ sets] show ?thesis by fastforce
  next
    case None
    then have "map_of new k = None"
      using same [OF assms(1) _ sets [symmetric]] by (cases "map_of new k") fastforce+
    with None show ?thesis by simp
  qed
qed

text \<open>A change of the declared type, or the loss of a property that either side requires.\<close>

definition breaks :: "(string \<times> json) list \<Rightarrow> (string \<times> json) list \<Rightarrow> bool" where
  "breaks old new \<longleftrightarrow>
     map_option sem_of (map_of old ''type'') \<noteq> map_option sem_of (map_of new ''type'')
     \<or> (\<exists>before after name r1 r2.
          map_of old ''properties'' = Some (JObj before)
          \<and> map_of new ''properties'' = Some (JObj after)
          \<and> required_names old = Inr r1 \<and> required_names new = Inr r2
          \<and> name \<in> fst ` set before \<and> name \<notin> fst ` set after \<and> name \<in> r1 \<union> r2)"

lemma breaking_change:
  assumes "mapR f xs = Inr css" "x \<in> set xs" "f x = Inr [(field, reason, Breaking)]"
  shows "\<exists>c \<in> set (concat css). snd (snd c) = Breaking"
proof -
  obtain cs where "cs \<in> set css" "f x = Inr cs" using mapR_defined [OF assms(1,2)] by blast
  then have "[(field, reason, Breaking)] \<in> set css" using assms(3) by simp
  then show ?thesis by force
qed

lemma breaks_changes:
  assumes keyed: "well_keyed old" "well_keyed new"
    and cs: "changes policy (JObj old) (JObj new) path = Inr cs"
    and "breaks old new"
  shows "\<exists>c \<in> set cs. snd (snd c) = Breaking"
proof -
  have differ: "sem_of (JObj old) \<noteq> sem_of (JObj new)"
  proof
    assume eq: "sem_of (JObj old) = sem_of (JObj new)"
    note look = sem_lookup [OF keyed eq]
    from \<open>breaks old new\<close> obtain before after name where
      "map_of old ''properties'' = Some (JObj before)"
      "map_of new ''properties'' = Some (JObj after)"
      and name: "name \<in> fst ` set before" "name \<notin> fst ` set after"
      using look by (auto simp: breaks_def)
    then have "sem_of (JObj before) = sem_of (JObj after)"
      using look [of "''properties''"] by simp
    from sem_members [OF this] have "fst ` set before = fst ` set after"
      by (metis (mono_tags, lifting) case_prod_beta' fst_conv image_cong image_image)
    with name show False by simp
  qed
  let ?keys = "filter (\<lambda>key. \<not> (key = ''properties'' \<or> same_keyword old new key))
    (all_keys old new)"
  obtain ps kss where ps: "property_changes policy old new path = Inr ps"
    and kss: "mapR (\<lambda>key. keyword_changes policy old new key path) ?keys = Inr kss"
    and cs: "cs = ps @ concat kss"
    using cs differ by (auto simp: changes.simps bindR_Inr)
  from \<open>breaks old new\<close> consider
      (type) "map_option sem_of (map_of old ''type'') \<noteq> map_option sem_of (map_of new ''type'')"
    | (removed) before after name r1 r2 where
        "map_of old ''properties'' = Some (JObj before)"
        "map_of new ''properties'' = Some (JObj after)"
        "required_names old = Inr r1" "required_names new = Inr r2"
        "name \<in> fst ` set before" "name \<notin> fst ` set after" "name \<in> r1 \<union> r2"
    unfolding breaks_def by blast
  then show ?thesis
  proof cases
    case type
    have "\<not> same_keyword old new ''type''"
      using type by (auto simp: same_keyword_def keyword_value_def split: option.splits json.splits)
    moreover have "''type'' \<in> set (all_keys old new)"
      using type by (auto simp: both_keys)
    ultimately have "''type'' \<in> set ?keys" by simp
    moreover have "keyword_changes policy old new ''type'' path =
        Inr [(path @ ''/'' @ ''type'', ''TYPE_CHANGED'', Breaking)]"
      by (simp add: keyword_changes.simps [of policy old] both_items_def Let_def)
    ultimately show ?thesis
      using breaking_change [OF kss, of "''type''"] unfolding cs by auto
  next
    case removed
    have props: "properties_value old = JObj before" "properties_value new = JObj after"
      using removed by (simp_all add: properties_value_def)
    have "name \<in> set (all_keys before after)" using removed by simp
    moreover have "map_of after name = None" using removed by (simp add: map_of_eq_None_iff)
    ultimately show ?thesis
      using ps removed(7) unfolding cs property_changes.simps [of policy old] props removed(3,4)
      by (auto simp: bindR_Inr Let_def dest!: breaking_change)
  qed
qed

text \<open>
  Changing the declared root type, dropping a root property that either side
  requires, or changing the record identifiers is classified breaking under either policy,
  whatever else changed.
\<close>

theorem drift_breaking:
  assumes "classify_schema_drift dg (Some p) (Some c) source stream tenant sample policy = Inr r"
    and "contract_schema p = JObj old" "contract_schema c = JObj new"
    and "well_keyed old" "well_keyed new"
    and "breaks old new \<or> contract_identifiers p \<noteq> contract_identifiers c"
  shows "drift_class r = Breaking"
proof -
  obtain cs where cs: "contract_changes (Some p) (Some c) policy = Inr cs"
    and r: "drift_class r = classification cs"
    using assms(1) by (auto simp: classify_schema_drift_def bindR_Inr)
  then have "\<exists>c \<in> set cs. snd (snd c) = Breaking"
    using breaks_changes [OF assms(4,5)] assms(2,3,6)
    by (auto simp: contract_changes_def bindR_Inr split: if_splits)
  then have "Breaking \<in> set (change_levels cs)"
    by (force simp: change_levels_def)
  then show ?thesis by (simp add: r classification_def)
qed

text \<open>An issue schema that drops its required state, under the lenient policy.\<close>

definition demo_schema :: "string list \<Rightarrow> (string \<times> json) list" where
  "demo_schema names =
     [(''type'', JStr ''object''),
      (''required'', JArr [JStr ''id'', JStr ''state'']),
      (''properties'', JObj (map (\<lambda>n. (n, JObj [(''type'', JStr ''string'')])) names))]"

definition demo_contract :: "string list \<Rightarrow> schema_contract" where
  "demo_contract names =
     \<lparr>contract_schema = JObj (demo_schema names), contract_identifiers = [''id'']\<rparr>"

lemma demo_breaks: "breaks (demo_schema [''id'', ''state'']) (demo_schema [''id''])"
  unfolding breaks_def
  by (intro disjI2 exI [of _ "[(''id'', JObj [(''type'', JStr ''string'')]),
        (''state'', JObj [(''type'', JStr ''string'')])]"]
      exI [of _ "[(''id'', JObj [(''type'', JStr ''string'')])]"] exI [of _ "''state''"])
    (simp add: demo_schema_def required_names_def)

lemma Inr_if_not_Inl: "(case m of Inl _ \<Rightarrow> False | Inr _ \<Rightarrow> True) \<Longrightarrow> \<exists>r. m = Inr r"
  by (cases m) simp_all

theorem drift_breaking_witness:
  "map_sum (\<lambda>_. ()) drift_class (classify_schema_drift (\<lambda>_. ''d'')
     (Some (demo_contract [''id'', ''state''])) (Some (demo_contract [''id'']))
     ''jira'' ''issues'' None ''s'' OptionalFields) = Inr Breaking"
proof -
  have "\<exists>r. classify_schema_drift (\<lambda>_. ''d'') (Some (demo_contract [''id'', ''state'']))
     (Some (demo_contract [''id''])) ''jira'' ''issues'' None ''s'' OptionalFields = Inr r"
    by (rule Inr_if_not_Inl) code_simp
  then obtain r where r: "classify_schema_drift (\<lambda>_. ''d'') (Some (demo_contract [''id'', ''state'']))
     (Some (demo_contract [''id''])) ''jira'' ''issues'' None ''s'' OptionalFields = Inr r"
    by blast
  from drift_breaking [OF r, of "demo_schema [''id'', ''state'']" "demo_schema [''id'']"]
  show ?thesis
    by (simp add: r demo_breaks) (simp add: demo_contract_def demo_schema_def well_keyed_def)
qed

end
