(* ===== verification/Runner_Sync.thy ===== *)
theory Runner_Sync
  imports Stages Schema_Drift
begin

text \<open>
  One sync pass over a stream: \<^verbatim>\<open>runner/syncing.py\<close> with its page checks
  (\<^verbatim>\<open>runner/_page_checks.py\<close>), the completion callback of an adapter
  (\<^verbatim>\<open>ports/page_completion.py\<close>) and the types of \<^verbatim>\<open>contracts.py\<close> it uses. Records,
  relationships, references, withdrawals and checkpoints are values of a generated package, taken
  here as the JSON they stand for. The adapter, the sink and the proposal store are ports on a
  world of any type; the log records every call that a claim speaks of.
\<close>

section \<open>Pages, requests and receipts\<close>

datatype ingestion_mode = FullMode | DeltaMode | ReconcileMode

record stream_descriptor =
  sd_stream :: string
  sd_contract :: "schema_contract option"
  sd_policy :: evolution_policy

record record_page =
  pg_records :: "json list"
  pg_mode :: ingestion_mode
  pg_strict :: bool
  pg_checkpoint :: json
  pg_exhausted :: bool
  pg_contract :: "schema_contract option"
  pg_relationships :: "json list"
  pg_live_ids :: "json list option"
  pg_withdrawals :: "json list"

record ingestion_request =
  rq_connector :: string
  rq_mode :: ingestion_mode
  rq_strict :: bool
  rq_records :: "json list"
  rq_relationships :: "json list"
  rq_checkpoint :: json
  rq_previous :: "json option"
  rq_live_ids :: "json list option"
  rq_approval :: "string option"
  rq_withdrawals :: "json list"

record ingestion_receipt =
  rc_digest :: string
  rc_accepted :: json
  rc_mode :: ingestion_mode
  rc_affected :: nat

record sync_target =
  tg_connector :: string
  tg_max_pages :: int
  tg_approval :: "string option"
  tg_contract :: "schema_contract option"
  tg_policy :: evolution_policy
  tg_tenant :: "string option"
  tg_repairs :: bool
  tg_stages :: "stage_descriptor list"

record sync_outcome =
  oc_stream :: string
  oc_pages :: nat
  oc_records :: nat
  oc_accepted :: nat
  oc_exhausted :: bool
  oc_checkpoint :: "json option"

definition target_new :: "sync_target \<Rightarrow> stage_error + sync_target" where
  "target_new t =
     andR (validate_stage_graph (tg_stages t) (tg_connector t) (tg_tenant t)) (Inr t)"

definition target_configured :: "string \<Rightarrow> int \<Rightarrow> string \<Rightarrow> stage_error + sync_target" where
  "target_configured connector max_pages approval =
     target_new \<lparr>tg_connector = connector, tg_max_pages = max_pages,
       tg_approval = (if approval = [] then None else Some approval), tg_contract = None,
       tg_policy = ReviewPolicy, tg_tenant = None, tg_repairs = False, tg_stages = []\<rparr>"

section \<open>Packs\<close>

text \<open>
  What the runner reads of a captured content pack and of the answer to its import: \<open>PackImported\<close>
  carries the digest and the counts of published, republished and revised entries.
\<close>

record captured_pack =
  pk_connector :: string
  pk_entries :: "json list"
  pk_uris :: "string list"

datatype pack_result =
    PackUnchanged string
  | PackImported string nat nat nat
  | PackRejected

section \<open>Page checks\<close>

definition is_delta_noop :: "record_page \<Rightarrow> json option \<Rightarrow> bool" where
  "is_delta_noop page cp \<longleftrightarrow>
     (case cp of None \<Rightarrow> False | Some c \<Rightarrow>
        pg_exhausted page \<and> pg_mode page = DeltaMode \<and> pg_checkpoint page = c
        \<and> pg_records page = [] \<and> pg_relationships page = [] \<and> pg_withdrawals page = [])"

definition receipt_binds :: "(ingestion_request \<Rightarrow> string) \<Rightarrow> ingestion_request \<Rightarrow>
    ingestion_receipt \<Rightarrow> bool" where
  "receipt_binds canon req rc \<longleftrightarrow>
     \<not> (rc_digest rc \<noteq> canon req \<or> rc_accepted rc \<noteq> rq_checkpoint req
        \<or> rc_mode rc \<noteq> rq_mode req)"

definition empty_approval :: "record_page \<Rightarrow> sync_target \<Rightarrow> string option" where
  "empty_approval page t =
     (let full = pg_mode page = FullMode \<and> pg_records page = [];
          reconcile = pg_mode page = ReconcileMode \<and> pg_records page = []
            \<and> pg_live_ids page = Some []
      in if full \<or> reconcile then tg_approval t else None)"

definition source_request :: "record_page \<Rightarrow> sync_target \<Rightarrow> json option \<Rightarrow> ingestion_request" where
  "source_request page t previous =
     \<lparr>rq_connector = tg_connector t, rq_mode = pg_mode page, rq_strict = pg_strict page,
       rq_records = pg_records page, rq_relationships = pg_relationships page,
       rq_checkpoint = pg_checkpoint page, rq_previous = previous,
       rq_live_ids = pg_live_ids page, rq_approval = empty_approval page t,
       rq_withdrawals = pg_withdrawals page\<rparr>"

section \<open>Ports, exceptions and the log\<close>

datatype runner_exc =
    ConfigurationError string
  | DriftQuarantined drift_report
  | DriftRaised drift_error
  | ReceiptUnbound
  | StreamPaused string string
  | RunnerForeign string

datatype page_event =
    EvPaused bool
  | EvStatus "json option"
  | EvExtract "json option" record_page
  | EvSubmitPage ingestion_request
  | EvReceipt ingestion_receipt
  | EvSettle record_page bool

record 'w runner_state =
  rs_world :: 'w
  rs_log :: "page_event list"

type_synonym ('w, 'a) runner_port = "'w \<Rightarrow> (runner_exc + 'a) \<times> 'w"
type_synonym ('w, 'a) runner_prog = "('w runner_state, runner_exc, 'a) prog"

text \<open>
  \<open>ad_completes\<close> says whether the adapter has the optional callback. \<open>canon\<close> is the request's
  own digest and \<open>ck_stream\<close> the stream its checkpoint names, both of the generated package.
\<close>

record 'w runner_ports =
  ad_discover :: "('w, stream_descriptor) runner_port"
  ad_extract :: "json option \<Rightarrow> ('w, record_page) runner_port"
  ad_completes :: bool
  ad_finish :: "record_page \<Rightarrow> bool \<Rightarrow> ('w, unit) runner_port"
  sk_status :: "string \<Rightarrow> string \<Rightarrow> ('w, json option) runner_port"
  sk_submit :: "ingestion_request \<Rightarrow> ('w, ingestion_receipt) runner_port"
  rp_paused :: "string \<Rightarrow> string \<Rightarrow> ('w, bool) runner_port"
  canon :: "ingestion_request \<Rightarrow> string"
  ck_stream :: "json \<Rightarrow> string"
  contract_dig :: "schema_contract \<Rightarrow> string"

definition runner_port :: "('w, 'a) runner_port \<Rightarrow> ('w, 'a) runner_prog" where
  "runner_port p = (\<lambda>s. case p (rs_world s) of (r, w) \<Rightarrow> (r, s\<lparr>rs_world := w\<rparr>))"

definition note_event :: "page_event \<Rightarrow> ('w, unit) runner_prog" where
  "note_event ev = modifyP (\<lambda>s. s\<lparr>rs_log := rs_log s @ [ev]\<rparr>)"

section \<open>Committing one page\<close>

definition check_drift ::
  "'w runner_ports \<Rightarrow> record_page \<Rightarrow> sync_target \<Rightarrow> ingestion_request \<Rightarrow> runner_exc + unit" where
  "check_drift P page t req =
     (case classify_schema_drift (contract_dig P) (tg_contract t) (pg_contract page)
         (tg_connector t) (ck_stream P (pg_checkpoint page)) (tg_tenant t) (canon P req)
         (tg_policy t) of
        Inl e \<Rightarrow> Inl (DriftRaised e)
      | Inr r \<Rightarrow> refuse_if (drift_class r \<noteq> Compatible) (DriftQuarantined r))"

definition commit_page ::
  "'w runner_ports \<Rightarrow> record_page \<Rightarrow> sync_target \<Rightarrow> json option \<Rightarrow>
     ('w, ingestion_receipt) runner_prog" where
  "commit_page P page t previous =
     (let req = source_request page t previous in
      thenP (liftP (check_drift P page t req))
     (thenP (note_event (EvSubmitPage req))
     (bindP (runner_port (sk_submit P req)) (\<lambda>rc.
      thenP (note_event (EvReceipt rc))
     (thenP (liftP (refuse_if (\<not> receipt_binds (canon P) req rc) ReceiptUnbound))
      (returnP rc))))))"

definition accept_page ::
  "'w runner_ports \<Rightarrow> record_page \<Rightarrow> sync_target \<Rightarrow> json option \<Rightarrow>
     ('w, json \<times> nat) runner_prog" where
  "accept_page P page t cp =
     (if is_delta_noop page cp
      then thenP (liftP (check_drift P page t (source_request page t cp)))
             (returnP (pg_checkpoint page, 0))
      else bindP (commit_page P page t cp)
             (\<lambda>rc. returnP (rc_accepted rc, rc_affected rc)))"

text \<open>
  The outcome of a page is noted whether or not the adapter has the callback that is told of it.
\<close>

definition finish_page ::
  "'w runner_ports \<Rightarrow> record_page \<Rightarrow> bool \<Rightarrow> ('w, unit) runner_prog" where
  "finish_page P page accepted =
     thenP (note_event (EvSettle page accepted))
       (if ad_completes P then runner_port (ad_finish P page accepted) else returnP ())"

definition accept_adapter_page ::
  "'w runner_ports \<Rightarrow> record_page \<Rightarrow> ('w, 'a) runner_prog \<Rightarrow> ('w, 'a) runner_prog" where
  "accept_adapter_page P page accept =
     bindP (catchP accept (\<lambda>e. Some (thenP (finish_page P page False) (raiseP e))))
       (\<lambda>x. thenP (finish_page P page True) (returnP x))"

section \<open>The pass\<close>

definition discovered_target :: "sync_target \<Rightarrow> stream_descriptor \<Rightarrow> sync_target" where
  "discovered_target t d =
     (if tg_contract t = None then t\<lparr>tg_contract := sd_contract d, tg_policy := sd_policy d\<rparr> else t)"

text \<open>
  The loop \<^theory_text>\<open>while pages < target.max_pages and not exhausted\<close>: the first argument counts
  the pages still allowed, so the loop is structural.
\<close>

primrec sync_pages ::
  "nat \<Rightarrow> 'w runner_ports \<Rightarrow> sync_target \<Rightarrow> sync_outcome \<Rightarrow> ('w, sync_outcome) runner_prog" where
  "sync_pages 0 P t oc = returnP oc"
| "sync_pages (Suc n) P t oc =
     (if oc_exhausted oc then returnP oc
      else
        bindP (runner_port (ad_extract P (oc_checkpoint oc))) (\<lambda>page.
        thenP (note_event (EvExtract (oc_checkpoint oc) page))
       (bindP (accept_adapter_page P page (accept_page P page t (oc_checkpoint oc))) (\<lambda>(cp, n_new).
          sync_pages n P t
            (oc\<lparr>oc_checkpoint := Some cp, oc_exhausted := pg_exhausted page,
               oc_pages := oc_pages oc + 1,
               oc_records := oc_records oc + length (pg_records page),
               oc_accepted := oc_accepted oc + n_new\<rparr>)))))"

text \<open>The question put to the proposal store, when the target has one.\<close>

definition ask_paused :: "'w runner_ports \<Rightarrow> sync_target \<Rightarrow> string \<Rightarrow> ('w, unit) runner_prog" where
  "ask_paused P t stream =
     (if tg_repairs t
      then bindP (runner_port (rp_paused P (tg_connector t) stream)) (\<lambda>paused.
           thenP (note_event (EvPaused paused))
             (liftP (refuse_if paused (StreamPaused (tg_connector t) stream))))
      else returnP ())"

definition resume_stream ::
  "'w runner_ports \<Rightarrow> sync_target \<Rightarrow> string \<Rightarrow> ('w, sync_outcome) runner_prog" where
  "resume_stream P t stream =
     thenP (ask_paused P t stream)
    (bindP (runner_port (sk_status P (tg_connector t) stream)) (\<lambda>cp.
     thenP (note_event (EvStatus cp))
       (sync_pages (nat (tg_max_pages t)) P t
         \<lparr>oc_stream = stream, oc_pages = 0, oc_records = 0, oc_accepted = 0,
          oc_exhausted = False, oc_checkpoint = cp\<rparr>)))"

definition sync_stream ::
  "'w runner_ports \<Rightarrow> sync_target \<Rightarrow> ('w, sync_outcome) runner_prog" where
  "sync_stream P t0 =
     thenP (liftP (refuse_if (tg_stages t0 \<noteq> [])
         (ConfigurationError ''concurrent stage execution is unavailable'')))
    (bindP (runner_port (ad_discover P)) (\<lambda>d.
     resume_stream P (discovered_target t0 d) (sd_stream d)))"

end
