(* ===== verification/Runner_Protocol.thy ===== *)
theory Runner_Protocol
  imports Runner_Sync
begin

text \<open>
  What one sync pass promises: the order of its calls as a step relation on phases, the counts it
  reports, and that it acts on a paused stream not at all.
\<close>

section \<open>The protocol of a pass\<close>

datatype phase =
    Fresh
  | Unpaused
  | Stopped
  | Idle "json option"
  | Holding "json option" record_page
  | Sent record_page ingestion_request
  | Answered record_page ingestion_request ingestion_receipt
  | Refused

text \<open>
  A page is extracted only from the checkpoint the sink last accepted; it is submitted only when
  its drift is compatible, as the request the page and that checkpoint make; it is settled as
  accepted only on a receipt that binds the request, whose accepted checkpoint the next
  extraction uses, or without a submission when it carries nothing new; and after a refused page
  nothing more is done.
\<close>

inductive page_step ::
  "'w runner_ports \<Rightarrow> sync_target \<Rightarrow> phase \<Rightarrow> page_event \<Rightarrow> phase \<Rightarrow> bool"
  for P :: "'w runner_ports" and t :: sync_target where
  paused: "tg_repairs t \<Longrightarrow> page_step P t Fresh (EvPaused b) (if b then Stopped else Unpaused)"
| status: "page_step P t (if tg_repairs t then Unpaused else Fresh) (EvStatus cp) (Idle cp)"
| extracted: "page_step P t (Idle cp) (EvExtract cp page) (Holding cp page)"
| submitted: "req = source_request page t cp \<Longrightarrow> check_drift P page t req = Inr () \<Longrightarrow>
     \<not> is_delta_noop page cp \<Longrightarrow> page_step P t (Holding cp page) (EvSubmitPage req) (Sent page req)"
| answered: "page_step P t (Sent page req) (EvReceipt rc) (Answered page req rc)"
| accepted: "receipt_binds (canon P) req rc \<Longrightarrow>
     page_step P t (Answered page req rc) (EvSettle page True) (Idle (Some (rc_accepted rc)))"
| nothing_new: "is_delta_noop page cp \<Longrightarrow>
     check_drift P page t (source_request page t cp) = Inr () \<Longrightarrow>
     page_step P t (Holding cp page) (EvSettle page True) (Idle (Some (pg_checkpoint page)))"
| refused: "ph \<in> {Holding cp page, Sent page req, Answered page req rc} \<Longrightarrow>
     page_step P t ph (EvSettle page False) Refused"

inductive page_run ::
  "'w runner_ports \<Rightarrow> sync_target \<Rightarrow> phase \<Rightarrow> page_event list \<Rightarrow> phase \<Rightarrow> bool"
  for P :: "'w runner_ports" and t :: sync_target where
  run_nil: "page_run P t ph [] ph"
| run_snoc: "page_run P t ph evs ph' \<Longrightarrow> page_step P t ph' ev ph'' \<Longrightarrow>
     page_run P t ph (evs @ [ev]) ph''"

inductive_cases idle_stepE: "page_step P t (Idle cp) ev ph"
inductive_cases sent_stepE: "page_step P t (Sent page req) ev ph"

text \<open>Between two pages, or after a page was refused: no page is left unsettled.\<close>

fun settled_phase :: "phase \<Rightarrow> bool" where
  "settled_phase (Holding _ _) = False"
| "settled_phase (Sent _ _) = False"
| "settled_phase (Answered _ _ _) = False"
| "settled_phase _ = True"

abbreviation at_phase ::
  "'w runner_ports \<Rightarrow> sync_target \<Rightarrow> phase \<Rightarrow> 'w runner_state \<Rightarrow> bool" where
  "at_phase P t ph s \<equiv> page_run P t Fresh (rs_log s) ph"

definition between_pages :: "'w runner_ports \<Rightarrow> sync_target \<Rightarrow> 'w runner_state \<Rightarrow> bool" where
  "between_pages P t s \<longleftrightarrow> (\<exists>ph. at_phase P t ph s \<and> settled_phase ph)"

lemma between_pagesI [intro]: "at_phase P t ph s \<Longrightarrow> settled_phase ph \<Longrightarrow> between_pages P t s"
  by (auto simp: between_pages_def)

lemma wp_runner_port [wp_simps]:
  "wp (runner_port p) Q E s =
     (case p (rs_world s) of
        (Inl e, w) \<Rightarrow> E e (s\<lparr>rs_world := w\<rparr>) | (Inr x, w) \<Rightarrow> Q x (s\<lparr>rs_world := w\<rparr>))"
  by (simp add: wp_def runner_port_def split: prod.splits sum.splits)

lemma wp_note_event [wp_simps]:
  "wp (note_event ev) Q E s = Q () (s\<lparr>rs_log := rs_log s @ [ev]\<rparr>)"
  by (simp add: note_event_def wp_simps)

text \<open>A port leaves the log, whatever it answers.\<close>

lemma wp_runner_portI:
  "(\<And>x w. Q x (s\<lparr>rs_world := w\<rparr>)) \<Longrightarrow> (\<And>e w. E e (s\<lparr>rs_world := w\<rparr>)) \<Longrightarrow>
     wp (runner_port p) Q E s"
  by (simp add: wp_runner_port split: prod.splits sum.splits)

lemma wp_finish_page:
  assumes "\<And>w. Q () (s\<lparr>rs_log := rs_log s @ [EvSettle page b], rs_world := w\<rparr>)"
    and "\<And>e w. E e (s\<lparr>rs_log := rs_log s @ [EvSettle page b], rs_world := w\<rparr>)"
  shows "wp (finish_page P page b) Q E s"
proof -
  have "s\<lparr>rs_log := l, rs_world := rs_world s\<rparr> = s\<lparr>rs_log := l\<rparr>" for l by (cases s) simp
  with assms(1) [of "rs_world s"] assms show ?thesis
    by (auto simp: finish_page_def wp_then wp_note_event wp_return intro!: wp_runner_portI)
qed

lemma commit_page_protocol:
  assumes "at_phase P t (Holding cp page) s" "\<not> is_delta_noop page cp"
  shows "wp (commit_page P page t cp)
     (\<lambda>rc s'. \<exists>req. at_phase P t (Answered page req rc) s' \<and> receipt_binds (canon P) req rc)
     (\<lambda>_ s'. \<exists>ph req rc. at_phase P t ph s'
        \<and> ph \<in> {Holding cp page, Sent page req, Answered page req rc}) s"
proof (cases "check_drift P page t (source_request page t cp)")
  case (Inl e)
  with assms show ?thesis by (auto simp: commit_page_def wp_simps Let_def)
next
  case (Inr u)
  let ?req = "source_request page t cp"
  have sent: "page_run P t Fresh (rs_log s @ [EvSubmitPage ?req]) (Sent page ?req)"
    using assms Inr by (auto intro: run_snoc page_step.submitted)
  then have answered: "page_run P t Fresh (rs_log s @ [EvSubmitPage ?req, EvReceipt rc])
      (Answered page ?req rc)" for rc
    using run_snoc [OF sent page_step.answered] by simp
  show ?thesis
    unfolding commit_page_def Let_def wp_simps Inr
    using sent answered
    by (auto simp: refuse_if_def split: prod.splits sum.splits)
qed

lemma settle_refused:
  assumes "at_phase P t ph s" "ph \<in> {Holding cp page, Sent page req, Answered page req rc}"
  shows "wp (finish_page P page False) (\<lambda>_. between_pages P t) (\<lambda>_. between_pages P t) s"
proof -
  have "page_run P t Fresh (rs_log s @ [EvSettle page False]) Refused"
    using assms by (blast intro: run_snoc page_step.refused)
  then show ?thesis by (auto intro!: wp_finish_page)
qed

text \<open>
  A page that was extracted is settled on every way out: as accepted with the checkpoint the
  next page starts from, or refused.
\<close>

lemma accept_page_protocol:
  assumes "at_phase P t (Holding cp page) s"
  shows "wp (accept_adapter_page P page (accept_page P page t cp))
     (\<lambda>(cp', _) s'. at_phase P t (Idle (Some cp')) s') (\<lambda>_. between_pages P t) s"
proof -
  let ?accepted = "\<lambda>x s'. \<exists>ph. at_phase P t ph s'
    \<and> page_step P t ph (EvSettle page True) (Idle (Some (fst x)))"
  let ?refused = "\<lambda>s'. \<exists>ph req rc. at_phase P t ph s'
    \<and> ph \<in> {Holding cp page, Sent page req, Answered page req rc}"
  have "wp (accept_page P page t cp) ?accepted (\<lambda>_. ?refused) s"
  proof (cases "is_delta_noop page cp")
    case True
    with assms show ?thesis
      by (cases "check_drift P page t (source_request page t cp)")
        (auto simp: accept_page_def wp_simps intro: page_step.nothing_new)
  next
    case False
    have "wp (commit_page P page t cp) (\<lambda>rc. ?accepted (rc_accepted rc, rc_affected rc))
        (\<lambda>_. ?refused) s"
      by (rule wp_mono [OF commit_page_protocol [OF assms False]])
        (auto intro: page_step.accepted)
    then show ?thesis
      using False unfolding accept_page_def by (auto simp: wp_simps elim!: wp_mono)
  qed
  then have "wp (accept_page P page t cp)
      (\<lambda>x s'. wp (finish_page P page True)
        (\<lambda>_. at_phase P t (Idle (Some (fst x)))) (\<lambda>_. between_pages P t) s')
      (\<lambda>e s'. wp (thenP (finish_page P page False) (raiseP e))
        (\<lambda>_ _. False) (\<lambda>_. between_pages P t) s') s"
  proof (rule wp_mono)
    fix x s' assume "?accepted x s'"
    then have "page_run P t Fresh (rs_log s' @ [EvSettle page True]) (Idle (Some (fst x)))"
      by (blast intro: run_snoc)
    then show "wp (finish_page P page True)
        (\<lambda>_. at_phase P t (Idle (Some (fst x)))) (\<lambda>_. between_pages P t) s'"
      by (auto intro!: wp_finish_page)
  next
    fix e s' assume "?refused s'"
    then show "wp (thenP (finish_page P page False) (raiseP e)) (\<lambda>_ _. False)
        (\<lambda>_. between_pages P t) s'"
      unfolding wp_simps by (auto dest: settle_refused elim!: wp_mono)
  qed
  then show ?thesis
    unfolding accept_adapter_page_def wp_simps option.case
    by (rule wp_mono) (auto elim!: wp_mono simp: wp_simps split_beta)
qed

lemma sync_pages_protocol:
  assumes "at_phase P t (Idle (oc_checkpoint oc)) s"
  shows "wp (sync_pages n P t oc) (\<lambda>oc'. at_phase P t (Idle (oc_checkpoint oc')))
     (\<lambda>_. between_pages P t) s"
  using assms
proof (induction n arbitrary: oc s)
  case (Suc n)
  show ?case
  proof (cases "oc_exhausted oc")
    case False
    have page: "wp (accept_adapter_page P page (accept_page P page t (oc_checkpoint oc)))
        (\<lambda>x s'. wp (case x of (cp, k) \<Rightarrow> sync_pages n P t (f page cp k))
           (\<lambda>oc'. at_phase P t (Idle (oc_checkpoint oc'))) (\<lambda>_. between_pages P t) s')
        (\<lambda>_. between_pages P t)
        (s\<lparr>rs_world := w, rs_log := rs_log s @ [EvExtract (oc_checkpoint oc) page]\<rparr>)"
      if "\<And>page cp k. oc_checkpoint (f page cp k) = Some cp" for f page w
      by (rule wp_mono [OF accept_page_protocol])
        (use Suc.prems in \<open>auto simp: that intro: run_snoc page_step.extracted intro!: Suc.IH\<close>)
    show ?thesis
      unfolding sync_pages.simps wp_simps using False Suc.prems
      by (auto intro!: wp_runner_portI page simp: wp_note_event wp_then wp_bind)
  qed (use Suc.prems in \<open>simp add: wp_simps\<close>)
qed (simp add: wp_simps)

lemma ask_paused_protocol:
  assumes "rs_log s = []"
  shows "wp (ask_paused P t stream)
     (\<lambda>_. at_phase P t (if tg_repairs t then Unpaused else Fresh)) (\<lambda>_. between_pages P t) s"
proof (cases "tg_repairs t")
  case True
  have asked: "page_run P t Fresh [EvPaused b] (if b then Stopped else Unpaused)" for b
    using run_snoc [OF run_nil page_step.paused [OF True, of P b]] by simp
  have "between_pages P t (s\<lparr>rs_world := w\<rparr>)"
    and "between_pages P t (s\<lparr>rs_world := w, rs_log := [EvPaused True]\<rparr>)" for w
    using assms asked [of True] by (auto simp: between_pages_def intro: run_nil exI [of _ Fresh])
  with asked [of False] True assms show ?thesis
    by (auto simp: ask_paused_def wp_bind wp_then wp_note_event wp_lift refuse_if_def
        intro!: wp_runner_portI)
next
  case False
  with assms show ?thesis by (simp add: ask_paused_def wp_return run_nil)
qed

lemma resume_stream_protocol:
  assumes "rs_log s = []"
  shows "wp (resume_stream P t stream) (\<lambda>oc. at_phase P t (Idle (oc_checkpoint oc)))
     (\<lambda>_. between_pages P t) s"
  unfolding resume_stream_def wp_then
proof (rule wp_mono [OF ask_paused_protocol [OF assms]])
  fix s' :: "'a runner_state"
  assume start: "at_phase P t (if tg_repairs t then Unpaused else Fresh) s'"
  have read: "at_phase P t (Idle cp) (s'\<lparr>rs_world := w, rs_log := rs_log s' @ [EvStatus cp]\<rparr>)"
    for cp w
    using run_snoc [OF start page_step.status, of cp] by simp
  have "between_pages P t (s'\<lparr>rs_world := w\<rparr>)" for w
    using start by (intro between_pagesI [where ph = "if tg_repairs t then Unpaused else Fresh"]) simp_all
  then show "wp (bindP (runner_port (sk_status P (tg_connector t) stream)) (\<lambda>cp.
      thenP (note_event (EvStatus cp)) (sync_pages (nat (tg_max_pages t)) P t
         \<lparr>oc_stream = stream, oc_pages = 0, oc_records = 0, oc_accepted = 0,
          oc_exhausted = False, oc_checkpoint = cp\<rparr>)))
      (\<lambda>oc. at_phase P t (Idle (oc_checkpoint oc))) (\<lambda>_. between_pages P t) s'"
    using read
    by (auto simp: wp_bind wp_then wp_note_event intro!: wp_runner_portI sync_pages_protocol)
qed

section \<open>What a pass promises\<close>

text \<open>
  A pass either raises before it knows its target, with nothing noted, or its log is a run of the
  protocol of its discovered target.
\<close>

definition pass_start :: "'w \<Rightarrow> 'w runner_state" where
  "pass_start w = \<lparr>rs_world = w, rs_log = []\<rparr>"

definition pass_follows ::
  "'w runner_ports \<Rightarrow> sync_target \<Rightarrow> runner_exc + sync_outcome \<Rightarrow> page_event list \<Rightarrow> bool" where
  "pass_follows P t0 r evs \<longleftrightarrow>
     (\<exists>d ph. page_run P (discovered_target t0 d) Fresh evs ph \<and> settled_phase ph
        \<and> (case r of Inl _ \<Rightarrow> True | Inr oc \<Rightarrow> ph = Idle (oc_checkpoint oc)))"

lemma sync_stream_follows:
  "case sync_stream P t0 (pass_start w) of (r, s') \<Rightarrow> pass_follows P t0 r (rs_log s')"
proof -
  have empty: "pass_follows P t0 (Inl e) []" for e
    by (auto simp: pass_follows_def intro!: exI [of _ Fresh] run_nil)
  have "wp (resume_stream P (discovered_target t0 d) (sd_stream d))
      (\<lambda>oc s'. pass_follows P t0 (Inr oc) (rs_log s'))
      (\<lambda>e s'. pass_follows P t0 (Inl e) (rs_log s')) (pass_start w')" for d w'
    by (rule wp_mono [OF resume_stream_protocol [of "pass_start w'" P]])
      (fastforce simp: pass_start_def pass_follows_def between_pages_def)+
  then have "wp (sync_stream P t0) (\<lambda>oc s'. pass_follows P t0 (Inr oc) (rs_log s'))
      (\<lambda>e s'. pass_follows P t0 (Inl e) (rs_log s')) (pass_start w)"
    using empty
    by (auto simp: sync_stream_def wp_then wp_bind wp_lift pass_start_def refuse_if_def
        intro!: wp_runner_portI)
  then show ?thesis
    by (simp add: wp_def split: prod.splits sum.splits)
qed

text \<open>
  Property C16. Whatever the adapter, the sink and the proposal store answer, the calls of a
  sync pass follow the protocol: extraction starts from the checkpoint last accepted, only a page
  whose drift is compatible is submitted, as the request that checkpoint makes, a page counts as
  accepted only on a receipt that binds its request, every extracted page is settled exactly
  once, nothing follows a refused page, and the checkpoint returned is the last one accepted.
\<close>

theorem sync_stream_protocol:
  "case sync_stream P t0 (pass_start w) of (r, s') \<Rightarrow> pass_follows P t0 r (rs_log s')"
  by (rule sync_stream_follows)

section \<open>What a pass reports\<close>

fun event_page :: "page_event \<Rightarrow> record_page option" where
  "event_page (EvExtract _ page) = Some page"
| "event_page _ = None"

fun event_affected :: "page_event \<Rightarrow> nat" where
  "event_affected (EvReceipt rc) = rc_affected rc"
| "event_affected _ = 0"

definition pages_of :: "page_event list \<Rightarrow> record_page list" where
  "pages_of evs = List.map_filter event_page evs"

definition affected_of :: "page_event list \<Rightarrow> nat" where
  "affected_of evs = sum_list (map event_affected evs)"

lemma log_simps [simp]:
  "pages_of [] = []" "affected_of [] = 0"
  "pages_of (evs @ evs') = pages_of evs @ pages_of evs'"
  "affected_of (evs @ evs') = affected_of evs + affected_of evs'"
  "pages_of (ev # evs) = (case event_page ev of None \<Rightarrow> pages_of evs | Some p \<Rightarrow> p # pages_of evs)"
  "affected_of (ev # evs) = event_affected ev + affected_of evs"
  by (simp_all add: pages_of_def affected_of_def List.map_filter_def split: option.splits)

text \<open>The counts of an outcome against the log they are of.\<close>

definition counts_agree :: "sync_outcome \<Rightarrow> page_event list \<Rightarrow> bool" where
  "counts_agree oc evs \<longleftrightarrow>
     oc_pages oc = length (pages_of evs)
     \<and> oc_records oc = sum_list (map (\<lambda>p. length (pg_records p)) (pages_of evs))
     \<and> oc_accepted oc = affected_of evs
     \<and> oc_exhausted oc = (pages_of evs \<noteq> [] \<and> pg_exhausted (last (pages_of evs)))"

definition grown :: "'w runner_state \<Rightarrow> nat \<Rightarrow> 'w runner_state \<Rightarrow> bool" where
  "grown s k s' \<longleftrightarrow> pages_of (rs_log s') = pages_of (rs_log s)
     \<and> affected_of (rs_log s') = affected_of (rs_log s) + k"

lemma accept_page_grows:
  "wp (accept_adapter_page P page (accept_page P page t cp))
     (\<lambda>(_, k) s'. grown s k s') (\<lambda>_ s'. \<exists>k. grown s k s') s"
proof -
  have "wp (accept_page P page t cp) (\<lambda>(_, k) s'. grown s k s') (\<lambda>_ s'. \<exists>k. grown s k s') s"
    by (auto simp: accept_page_def commit_page_def Let_def wp_simps grown_def refuse_if_def
        split: prod.splits sum.splits)
  then show ?thesis
    unfolding accept_adapter_page_def wp_bind wp_catch option.case
    by (rule wp_mono)
      (auto simp: wp_then wp_return wp_raise grown_def intro!: wp_finish_page)
qed

lemma sync_pages_counts:
  assumes "counts_agree oc (rs_log s)"
  shows "wp (sync_pages n P t oc)
     (\<lambda>oc' s'. counts_agree oc' (rs_log s') \<and> oc_pages oc' \<le> oc_pages oc + n
        \<and> (oc_exhausted oc' \<or> oc_pages oc' = oc_pages oc + n))
     (\<lambda>_ s'. length (pages_of (rs_log s')) \<le> oc_pages oc + n) s"
  using assms
proof (induction n arbitrary: oc s)
  case (Suc n)
  show ?case
  proof (cases "oc_exhausted oc")
    case False
    let ?next = "\<lambda>page (cp, k). oc\<lparr>oc_checkpoint := Some cp, oc_exhausted := pg_exhausted page,
      oc_pages := oc_pages oc + 1, oc_records := oc_records oc + length (pg_records page),
      oc_accepted := oc_accepted oc + k\<rparr>"
    have page: "wp (accept_adapter_page P page (accept_page P page t (oc_checkpoint oc)))
        (\<lambda>x s'. wp (sync_pages n P t (?next page x))
           (\<lambda>oc' s'. counts_agree oc' (rs_log s') \<and> oc_pages oc' \<le> oc_pages oc + Suc n
              \<and> (oc_exhausted oc' \<or> oc_pages oc' = oc_pages oc + Suc n))
           (\<lambda>_ s'. length (pages_of (rs_log s')) \<le> oc_pages oc + Suc n) s')
        (\<lambda>_ s'. length (pages_of (rs_log s')) \<le> oc_pages oc + Suc n)
        (s\<lparr>rs_world := w, rs_log := rs_log s @ [EvExtract (oc_checkpoint oc) page]\<rparr>)"
        (is "wp _ _ _ ?s") for page w
    proof (rule wp_mono [OF accept_page_grows [of P page t "oc_checkpoint oc" ?s]])
      fix x :: "json \<times> nat" and s' :: "'a runner_state"
      assume "(case x of (_, k) \<Rightarrow> \<lambda>s'. grown ?s k s') s'"
      then have "counts_agree (?next page x) (rs_log s')"
        using Suc.prems by (auto simp: counts_agree_def grown_def)
      from Suc.IH [OF this]
      show "wp (sync_pages n P t (?next page x))
           (\<lambda>oc' s'. counts_agree oc' (rs_log s') \<and> oc_pages oc' \<le> oc_pages oc + Suc n
              \<and> (oc_exhausted oc' \<or> oc_pages oc' = oc_pages oc + Suc n))
           (\<lambda>_ s'. length (pages_of (rs_log s')) \<le> oc_pages oc + Suc n) s'"
        by (rule wp_mono) (auto split: prod.splits)
    next
      fix e :: runner_exc and s' :: "'a runner_state" assume "\<exists>k. grown ?s k s'"
      then show "length (pages_of (rs_log s')) \<le> oc_pages oc + Suc n"
        using Suc.prems by (auto simp: counts_agree_def grown_def)
    qed
    have "length (pages_of (rs_log s)) \<le> oc_pages oc + Suc n"
      using Suc.prems by (simp add: counts_agree_def)
    with False page show ?thesis
      by (auto simp: wp_bind wp_then wp_note_event split_beta intro!: wp_runner_portI)
  qed (use Suc.prems in \<open>simp add: wp_return\<close>)
qed (simp add: wp_return)

lemma sync_stream_counted:
  "case sync_stream P t0 (pass_start w) of (r, s') \<Rightarrow>
     length (pages_of (rs_log s')) \<le> nat (tg_max_pages t0)
     \<and> (case r of Inl _ \<Rightarrow> True | Inr oc \<Rightarrow>
          counts_agree oc (rs_log s')
          \<and> (oc_exhausted oc \<or> oc_pages oc = nat (tg_max_pages t0)))"
proof -
  have max: "tg_max_pages (discovered_target t0 d) = tg_max_pages t0" for d
    by (simp add: discovered_target_def)
  have "wp (sync_stream P t0)
      (\<lambda>oc s'. counts_agree oc (rs_log s') \<and> oc_pages oc \<le> nat (tg_max_pages t0)
         \<and> (oc_exhausted oc \<or> oc_pages oc = nat (tg_max_pages t0)))
      (\<lambda>_ s'. length (pages_of (rs_log s')) \<le> nat (tg_max_pages t0)) (pass_start w)"
    unfolding sync_stream_def resume_stream_def ask_paused_def
    by (auto simp: wp_then wp_bind wp_lift wp_return wp_note_event pass_start_def refuse_if_def max
        counts_agree_def intro!: wp_runner_portI wp_mono [OF sync_pages_counts])
  then show ?thesis
    by (auto simp: wp_def counts_agree_def split: prod.splits sum.splits)
qed

text \<open>
  A pass extracts at most the configured number of pages on every way out, and when
  it returns, its report counts exactly what happened: the pages extracted, their records, the
  records the binding receipts say were affected, and whether the last page said it was the last;
  it stops early only for such a page.
\<close>

theorem sync_stream_counts:
  "case sync_stream P t0 (pass_start w) of (r, s') \<Rightarrow>
     length (pages_of (rs_log s')) \<le> nat (tg_max_pages t0)
     \<and> (case r of Inl _ \<Rightarrow> True | Inr oc \<Rightarrow>
          counts_agree oc (rs_log s')
          \<and> (oc_exhausted oc \<or> oc_pages oc = nat (tg_max_pages t0)))"
  by (rule sync_stream_counted)

section \<open>What the ports keep, a pass keeps\<close>

text \<open>The contract of a set of ports with an invariant of their world.\<close>

locale steady_ports =
  fixes P :: "'w runner_ports" and I :: "'w \<Rightarrow> bool"
  assumes discover_keeps: "I w \<Longrightarrow> I (snd (ad_discover P w))"
    and extract_keeps: "I w \<Longrightarrow> I (snd (ad_extract P cp w))"
    and finish_keeps: "I w \<Longrightarrow> I (snd (ad_finish P page b w))"
    and status_keeps: "I w \<Longrightarrow> I (snd (sk_status P connector stream w))"
    and submit_keeps: "I w \<Longrightarrow> I (snd (sk_submit P req w))"
    and paused_keeps: "I w \<Longrightarrow> I (snd (rp_paused P connector stream w))"
begin

definition kept :: "('w, 'a) runner_prog \<Rightarrow> bool" where
  "kept m \<longleftrightarrow> inv_prog (\<lambda>s. I (rs_world s)) (\<lambda>_ s. I (rs_world s)) m"

lemma kept_port: "(\<And>w. I w \<Longrightarrow> I (snd (p w))) \<Longrightarrow> kept (runner_port p)"
  unfolding kept_def
proof (rule inv_progI)
  fix s :: "'w runner_state"
  assume "\<And>w. I w \<Longrightarrow> I (snd (p w))" "I (rs_world s)"
  then have "I (snd (p (rs_world s)))" by blast
  then show "wp (runner_port p) (\<lambda>_ s. I (rs_world s)) (\<lambda>_ s. I (rs_world s)) s"
    by (cases "p (rs_world s)") (simp add: wp_runner_port split: sum.splits)
qed

lemma kept_ports:
  "kept (runner_port (ad_discover P))" "kept (runner_port (ad_extract P cp))"
  "kept (runner_port (ad_finish P page b))" "kept (runner_port (sk_status P connector stream))"
  "kept (runner_port (sk_submit P req))" "kept (runner_port (rp_paused P connector stream))"
  by (auto intro: kept_port discover_keeps extract_keeps finish_keeps status_keeps submit_keeps
      paused_keeps)

lemma kept_note: "kept (note_event ev)"
  by (simp add: kept_def note_event_def inv_modify)

lemma kept_bind: "kept m \<Longrightarrow> (\<And>x. kept (f x)) \<Longrightarrow> kept (bindP m f)"
  unfolding kept_def by (rule inv_bind)

lemma kept_then: "kept m \<Longrightarrow> kept n \<Longrightarrow> kept (thenP m n)"
  unfolding kept_def by (rule inv_then)

lemma kept_pure: "kept (returnP x)" "kept (raiseP e)" "kept (liftP r)"
  by (simp_all add: kept_def inv_return inv_raise inv_lift)

lemma kept_catch: "kept m \<Longrightarrow> (\<And>e p. h e = Some p \<Longrightarrow> kept p) \<Longrightarrow> kept (catchP m h)"
  by (fastforce simp: kept_def inv_prog_def wp_catch split: option.splits elim!: wp_mono)

lemmas kept_rules = kept_ports kept_note kept_bind kept_then kept_pure

lemma kept_accept: "kept (accept_adapter_page P page (accept_page P page t cp))"
  by (auto simp: accept_adapter_page_def accept_page_def commit_page_def finish_page_def Let_def
      intro!: kept_rules kept_catch)

lemma kept_pages: "kept (sync_pages n P t oc)"
proof (induction n arbitrary: oc)
  case (Suc n)
  then show ?case
    unfolding sync_pages.simps by (auto intro!: kept_rules kept_accept split: prod.splits)
qed (simp add: kept_pure)

lemma pass_keeps: "I w \<Longrightarrow> I (rs_world (snd (sync_stream P t (pass_start w))))"
proof -
  assume start: "I w"
  have "kept (sync_stream P t)"
    unfolding sync_stream_def resume_stream_def ask_paused_def
    by (auto intro!: kept_rules kept_pages)
  with start have "wp (sync_stream P t) (\<lambda>_ s. I (rs_world s)) (\<lambda>_ s. I (rs_world s)) (pass_start w)"
    by (simp add: kept_def inv_prog_def pass_start_def)
  then show ?thesis by (simp add: wp_both)
qed

end

end
