(* ===== verification/Memory_Sink.thy ===== *)
theory Memory_Sink
  imports Runner_Protocol
begin

text \<open>
  \<open>InMemorySink\<close> of \<^verbatim>\<open>testing/sinks.py\<close>, the sink the runner's own tests and the conformance
  suite use: committed batches by digest, compare-and-swap on the previous checkpoint, replay of a
  known digest, and imported packs. The accessors of the generated request types are parameters.
\<close>

section \<open>The sink\<close>

record request_codec =
  rc_ck_stream :: "json \<Rightarrow> string"
  rec_stream :: "json \<Rightarrow> string"
  rec_id :: "json \<Rightarrow> string"
  rec_connector :: "json \<Rightarrow> string"
  rc_canon :: "ingestion_request \<Rightarrow> string"


record memory_sink =
  ms_batches :: "(string, ingestion_request) dict"
  ms_packs :: "(string, captured_pack) dict"
  ms_statuses :: "(string \<times> string, json) dict"

definition memory_sink_new :: memory_sink where
  "memory_sink_new = \<lparr>ms_batches = [], ms_packs = [], ms_statuses = []\<rparr>"

fun validate_records ::
  "request_codec \<Rightarrow> ingestion_request \<Rightarrow> (string \<times> string) set \<Rightarrow> json list \<Rightarrow> runner_exc + unit" where
  "validate_records C batch seen [] = Inr ()"
| "validate_records C batch seen (r # rs) =
     andR (refuse_if (rec_stream C r \<noteq> rc_ck_stream C (rq_checkpoint batch))
         (RunnerForeign ''every record must belong to the checkpoint stream''))
    (andR (refuse_if (rec_connector C r \<noteq> rq_connector batch)
         (RunnerForeign ''record provenance must name the batch connector''))
    (andR (refuse_if ((rec_stream C r, rec_id C r) \<in> seen)
         (RunnerForeign ''record identities must be unique within a batch''))
       (validate_records C batch (insert (rec_stream C r, rec_id C r) seen) rs)))"

definition validate_source_batch :: "request_codec \<Rightarrow> ingestion_request \<Rightarrow> runner_exc + unit" where
  "validate_source_batch C batch =
     andR (refuse_if (case rq_previous batch of None \<Rightarrow> False
           | Some p \<Rightarrow> rc_ck_stream C p \<noteq> rc_ck_stream C (rq_checkpoint batch))
         (RunnerForeign ''expected and candidate checkpoints must name one stream''))
       (validate_records C batch {} (rq_records batch))"

text \<open>The fields of a receipt that the runner reads.\<close>

definition ingestion_receipt_of ::
  "request_codec \<Rightarrow> ingestion_request \<Rightarrow> nat \<Rightarrow> ingestion_receipt" where
  "ingestion_receipt_of C batch affected =
     \<lparr>rc_digest = rc_canon C batch, rc_accepted = rq_checkpoint batch, rc_mode = rq_mode batch,
       rc_affected = affected\<rparr>"

definition source_status :: "memory_sink \<Rightarrow> string \<Rightarrow> string \<Rightarrow> json option" where
  "source_status m connector stream = map_of (ms_statuses m) (connector, stream)"

definition status_key :: "request_codec \<Rightarrow> ingestion_request \<Rightarrow> string \<times> string" where
  "status_key C batch = (rq_connector batch, rc_ck_stream C (rq_checkpoint batch))"

definition sink_submit ::
  "request_codec \<Rightarrow> ingestion_request \<Rightarrow> memory_sink \<Rightarrow>
     (runner_exc + ingestion_receipt) \<times> memory_sink" where
  "sink_submit C batch m =
     (case validate_source_batch C batch of
        Inl e \<Rightarrow> (Inl e, m)
      | Inr _ \<Rightarrow>
          (let dg = rc_canon C batch; key = status_key C batch in
           case map_of (ms_batches m) dg of
             Some known \<Rightarrow> (Inr (ingestion_receipt_of C known 0), m)
           | None \<Rightarrow>
               if source_status m (fst key) (snd key) \<noteq> rq_previous batch
               then (Inl (RunnerForeign ''expected previous checkpoint is stale''), m)
               else (Inr (ingestion_receipt_of C batch (length (rq_records batch))),
                 m\<lparr>ms_batches := dict_set dg batch (ms_batches m),
                   ms_statuses := dict_set key (rq_checkpoint batch) (ms_statuses m)\<rparr>)))"

definition sink_import ::
  "(captured_pack \<Rightarrow> string) \<Rightarrow> captured_pack \<Rightarrow> memory_sink \<Rightarrow> pack_result \<times> memory_sink" where
  "sink_import pack_digest pack m =
     (let dg = pack_digest pack in
      case map_of (ms_packs m) dg of
        Some _ \<Rightarrow> (PackUnchanged dg, m)
      | None \<Rightarrow> (PackImported dg (length (pk_entries pack) + 1) 0 0,
          m\<lparr>ms_packs := dict_set dg pack (ms_packs m)\<rparr>))"

section \<open>One stream's history\<close>

text \<open>
  The committed batches of a key, in the order they were committed, each starting from the
  checkpoint the one before it reached; the status is the last one's checkpoint.
\<close>

definition key_batches :: "request_codec \<Rightarrow> memory_sink \<Rightarrow> string \<times> string \<Rightarrow> ingestion_request list" where
  "key_batches C m key = filter (\<lambda>b. status_key C b = key) (map snd (ms_batches m))"

fun chain_end :: "json option \<Rightarrow> ingestion_request list \<Rightarrow> json option option" where
  "chain_end cp [] = Some cp"
| "chain_end cp (b # bs) =
     (if rq_previous b = cp then chain_end (Some (rq_checkpoint b)) bs else None)"

definition sink_chained :: "request_codec \<Rightarrow> memory_sink \<Rightarrow> bool" where
  "sink_chained C m \<longleftrightarrow>
     (\<forall>(dg, b) \<in> set (ms_batches m). dg = rc_canon C b)
     \<and> (\<forall>key. chain_end None (key_batches C m key) = Some (source_status m (fst key) (snd key)))"

lemma chain_end_snoc:
  "chain_end cp bs = Some e \<Longrightarrow> rq_previous b = e \<Longrightarrow>
     chain_end cp (bs @ [b]) = Some (Some (rq_checkpoint b))"
  by (induction cp bs rule: chain_end.induct) (auto split: if_splits)

lemma dict_set_fresh: "map_of d k = None \<Longrightarrow> dict_set k v d = d @ [(k, v)]"
  by (induction k v d rule: dict_set.induct) (auto split: if_splits)

lemma sink_new_chained: "sink_chained C memory_sink_new"
  by (simp add: sink_chained_def memory_sink_new_def key_batches_def source_status_def)

lemma sink_submit_chained:
  assumes "sink_chained C m"
  shows "sink_chained C (snd (sink_submit C batch m))"
proof (cases "validate_source_batch C batch = Inr () \<and> map_of (ms_batches m) (rc_canon C batch) = None
    \<and> source_status m (fst (status_key C batch)) (snd (status_key C batch)) = rq_previous batch")
  case False
  then have "snd (sink_submit C batch m) = m"
    by (auto simp: sink_submit_def Let_def split: sum.splits option.splits)
  with assms show ?thesis by simp
next
  case True
  let ?m = "snd (sink_submit C batch m)"
  have m: "ms_batches ?m = ms_batches m @ [(rc_canon C batch, batch)]"
    "ms_statuses ?m = dict_set (status_key C batch) (rq_checkpoint batch) (ms_statuses m)"
    using True by (auto simp: sink_submit_def Let_def dict_set_fresh)
  have "chain_end None (key_batches C ?m key) = Some (source_status ?m (fst key) (snd key))" for key
  proof (cases "status_key C batch = key")
    case same: True
    have "chain_end None (key_batches C m key) = Some (rq_previous batch)"
      using assms True unfolding same [symmetric] sink_chained_def by (metis prod.collapse)
    from chain_end_snoc [OF this refl] show ?thesis
      using same by (auto simp: key_batches_def source_status_def m)
  next
    case False
    with assms show ?thesis
      by (cases key) (auto simp: key_batches_def source_status_def m sink_chained_def)
  qed
  moreover have "\<forall>(dg, b) \<in> set (ms_batches ?m). dg = rc_canon C b"
    using assms by (auto simp: m sink_chained_def)
  ultimately show ?thesis by (simp add: sink_chained_def)
qed

section \<open>A pass over the sink\<close>

text \<open>
  The ports of a pass over this sink with any adapter and proposal store of a world \<open>'a\<close> of
  their own.
\<close>

definition beside :: "('a, 'x) runner_port \<Rightarrow> (memory_sink \<times> 'a, 'x) runner_port" where
  "beside p = (\<lambda>(m, a). case p a of (r, a') \<Rightarrow> (r, (m, a')))"

definition memory_ports ::
  "request_codec \<Rightarrow> 'a runner_ports \<Rightarrow> (memory_sink \<times> 'a) runner_ports" where
  "memory_ports C A =
     \<lparr>ad_discover = beside (ad_discover A), ad_extract = (\<lambda>cp. beside (ad_extract A cp)),
       ad_completes = ad_completes A, ad_finish = (\<lambda>page b. beside (ad_finish A page b)),
       sk_status = (\<lambda>connector stream (m, a). (Inr (source_status m connector stream), (m, a))),
       sk_submit = (\<lambda>req (m, a). case sink_submit C req m of (r, m') \<Rightarrow> (r, (m', a))),
       rp_paused = (\<lambda>connector stream. beside (rp_paused A connector stream)),
       canon = rc_canon C, ck_stream = rc_ck_stream C, contract_dig = contract_dig A\<rparr>"

lemma beside_keeps: "fst (snd (beside p w)) = fst w"
  by (simp add: beside_def split: prod.splits)

interpretation memory_sink: steady_ports "memory_ports C A" "\<lambda>w. sink_chained C (fst w)"
  by unfold_locales (simp_all add: memory_ports_def beside_keeps split_beta sink_submit_chained)

text \<open>
  Property C17. Started on a sink whose committed batches form, for every stream, an unbroken
  chain of checkpoints that ends in the stream's status, as the empty sink is, a sync pass with
  any adapter leaves such a sink: no committed page is skipped, repeated or overwritten.
\<close>

theorem pass_keeps_chain:
  "sink_chained C memory_sink_new
   \<and> (sink_chained C m \<longrightarrow>
        sink_chained C (fst (rs_world (snd
          (sync_stream (memory_ports C A) t (pass_start (m, a)))))))"
  using memory_sink.pass_keeps [of C "(m, a)" A t] sink_new_chained by simp

text \<open>One page of an issue stream over the empty sink.\<close>

definition demo_schema_contract :: schema_contract where
  "demo_schema_contract = \<lparr>contract_schema = JObj [], contract_identifiers = []\<rparr>"

definition demo_page :: record_page where
  "demo_page = \<lparr>pg_records = [JInt 7], pg_mode = DeltaMode, pg_strict = False,
     pg_checkpoint = JInt 1, pg_exhausted = True, pg_contract = Some demo_schema_contract,
     pg_relationships = [], pg_live_ids = None, pg_withdrawals = []\<rparr>"

definition demo_codec :: request_codec where
  "demo_codec = \<lparr>rc_ck_stream = (\<lambda>_. ''issues''), rec_stream = (\<lambda>_. ''issues''),
     rec_id = (\<lambda>_. ''r1''), rec_connector = (\<lambda>_. ''jira''), rc_canon = (\<lambda>_. ''sha'')\<rparr>"

definition demo_adapter :: "unit runner_ports" where
  "demo_adapter =
     \<lparr>ad_discover = (\<lambda>u. (Inr \<lparr>sd_stream = ''issues'', sd_contract = Some demo_schema_contract,
          sd_policy = ReviewPolicy\<rparr>, u)),
       ad_extract = (\<lambda>_ u. (Inr demo_page, u)), ad_completes = True,
       ad_finish = (\<lambda>_ _ u. (Inr (), u)), sk_status = (\<lambda>_ _ u. (Inr None, u)),
       sk_submit = (\<lambda>_ u. (Inl ReceiptUnbound, u)), rp_paused = (\<lambda>_ _ u. (Inr False, u)),
       canon = (\<lambda>_. ''sha''), ck_stream = (\<lambda>_. ''issues''), contract_dig = (\<lambda>_. ''d'')\<rparr>"

definition demo_target :: sync_target where
  "demo_target = \<lparr>tg_connector = ''jira'', tg_max_pages = 5, tg_approval = None,
     tg_contract = None, tg_policy = ReviewPolicy, tg_tenant = None, tg_repairs = True,
     tg_stages = []\<rparr>"

abbreviation demo_pass :: "(runner_exc + sync_outcome) \<times> (memory_sink \<times> unit) runner_state" where
  "demo_pass \<equiv> sync_stream (memory_ports demo_codec demo_adapter) demo_target
     (pass_start (memory_sink_new, ()))"

lemma demo_pass_runs:
  "fst demo_pass = Inr \<lparr>oc_stream = ''issues'', oc_pages = 1, oc_records = 1, oc_accepted = 1,
     oc_exhausted = True, oc_checkpoint = Some (JInt 1)\<rparr>"
  "length (rs_log (snd demo_pass)) = 6"
  by code_simp+

theorem pass_keeps_chain_witness: "sink_chained demo_codec (fst (rs_world (snd demo_pass)))"
  using pass_keeps_chain [of demo_codec memory_sink_new demo_adapter demo_target "()"]
    sink_new_chained [of demo_codec]
  by blast

end
