(* ===== verification/Runner_Plans.thy ===== *)
theory Runner_Plans
  imports Json_Value
begin

text \<open>
  What a cycle does: the selection of a connector's presets, the checks that precede building its
  adapters, and the plans of full and change-driven cycles (\<^verbatim>\<open>runner/plans.py\<close>,
  \<^verbatim>\<open>runner/event_adapters.py\<close>, with the descriptors of \<^verbatim>\<open>runner/descriptors.py\<close> and the change
  events of \<^verbatim>\<open>ports/change_source.py\<close>). The declaration a server makes, its presets and the
  adapters built from them are parameters.
\<close>

section \<open>Descriptors and declarations\<close>

record connector_descriptor =
  cd_name :: string
  cd_presets :: "string list"
  cd_provision :: bool
  cd_interval :: rat
  cd_data_resources :: "(string, string list) dict"
  cd_mapping_reference :: string
  cd_approval :: string
  cd_max_pages :: int

datatype feed_kind = Rum | SecurityAudit | CiCd

record sync_spec =
  sp_preset :: string
  sp_feed :: "feed_kind option"
  sp_raw :: json

record sync_contract =
  ct_connector :: string
  ct_sync :: "sync_spec list"
  ct_mappings :: "string list"

text \<open>The field constraints of a descriptor.\<close>

definition name_char :: "char \<Rightarrow> bool" where
  "name_char c = (let n = (of_char c :: nat) in 97 \<le> n \<and> n \<le> 122 \<or> 48 \<le> n \<and> n \<le> 57)"

definition connector_name_ok :: "string \<Rightarrow> bool" where
  "connector_name_ok s =
     (case s of [] \<Rightarrow> False | c # cs \<Rightarrow> name_char c \<and> length cs \<le> 127
        \<and> list_all (\<lambda>c. name_char c \<or> c \<in> {CHR ''.'', CHR ''_'', CHR ''-''}) cs)"

definition descriptor_ok :: "connector_descriptor \<Rightarrow> bool" where
  "descriptor_ok d \<longleftrightarrow> connector_name_ok (cd_name d) \<and> 0 < cd_interval d
     \<and> 1 \<le> cd_max_pages d \<and> cd_max_pages d \<le> 1000000"

definition resolved_mapping_reference :: "connector_descriptor \<Rightarrow> string" where
  "resolved_mapping_reference d =
     (if cd_mapping_reference d = [] then ''connector:'' @ cd_name d else cd_mapping_reference d)"

definition unique_connectors :: "connector_descriptor list \<Rightarrow> bool" where
  "unique_connectors ds \<longleftrightarrow> distinct (map cd_name ds)"

section \<open>Selection\<close>

datatype plan_problem =
    PresetUndeclared string
  | DataPresetUnselected string
  | MappingNotStrict
  | MappingForeign
  | MappingUnknown string
  | OtherConnector string

datatype plan_exc =
    PlanProblems "plan_problem list"
  | NothingDeclared
  | DeclarationRefused string
  | EventPolicyMissing
  | PlanForeign string

definition raise_problems :: "plan_problem list \<Rightarrow> plan_exc + unit" where
  "raise_problems ps = refuse_if (ps \<noteq> []) (PlanProblems ps)"

definition selected_presets :: "connector_descriptor \<Rightarrow> string list \<Rightarrow> string list" where
  "selected_presets d declared = (if cd_presets d = [] then declared else cd_presets d)"

definition triggered_presets :: "connector_descriptor \<Rightarrow> string list" where
  "triggered_presets d = concat (map snd (cd_data_resources d))"

definition selection_problems :: "connector_descriptor \<Rightarrow> string list \<Rightarrow> plan_problem list" where
  "selection_problems d declared =
     (let selected = selected_presets d declared in
      map PresetUndeclared (filter (\<lambda>n. n \<notin> set declared) selected)
      @ map DataPresetUnselected
          (sort (remdups (filter (\<lambda>n. n \<notin> set selected) (triggered_presets d)))))"

text \<open>\<open>strict p\<close> parses a preset and says whether it is a strict typed-entities one.\<close>

fun all_strict :: "(sync_spec \<Rightarrow> plan_exc + bool) \<Rightarrow> sync_spec list \<Rightarrow> plan_exc + bool" where
  "all_strict strict [] = Inr True"
| "all_strict strict (p # ps) =
     bindR (strict p) (\<lambda>ok. if ok then all_strict strict ps else Inr False)"

definition whole_mapping_problems ::
  "(sync_spec \<Rightarrow> plan_exc + bool) \<Rightarrow> sync_contract \<Rightarrow> sync_spec list \<Rightarrow>
     plan_exc + plan_problem list" where
  "whole_mapping_problems strict m specs =
     (if length (ct_mappings m) = 1 then Inr []
      else bindR (all_strict strict specs) (\<lambda>ok. Inr (if ok then [] else [MappingNotStrict])))"

definition strip_prefix :: "string \<Rightarrow> string \<Rightarrow> string option" where
  "strip_prefix pre s = (if take (length pre) s = pre then Some (drop (length pre) s) else None)"

definition explicit_mapping_problems ::
  "string \<Rightarrow> string \<Rightarrow> sync_contract \<Rightarrow> plan_problem list" where
  "explicit_mapping_problems reference manifest_reference m =
     (case strip_prefix (manifest_reference @ ''#mappings/'') reference of
        None \<Rightarrow> [MappingForeign]
      | Some key \<Rightarrow> if key \<noteq> [] \<and> key \<in> set (ct_mappings m) then [] else [MappingUnknown reference])"

definition mapping_reference_problems ::
  "(sync_spec \<Rightarrow> plan_exc + bool) \<Rightarrow> connector_descriptor \<Rightarrow> sync_contract \<Rightarrow> sync_spec list \<Rightarrow>
     plan_exc + plan_problem list" where
  "mapping_reference_problems strict d m specs =
     (let reference = resolved_mapping_reference d;
          manifest_reference = ''connector:'' @ cd_name d in
      if reference = manifest_reference then whole_mapping_problems strict m specs
      else Inr (explicit_mapping_problems reference manifest_reference m))"

section \<open>Adapters\<close>

text \<open>
  \<open>{spec.preset: spec for spec in manifest.sync}\<close>: a repeated preset keeps its first place and
  its last declaration.
\<close>

definition spec_table :: "sync_contract \<Rightarrow> (string, sync_spec) dict" where
  "spec_table m = fold (\<lambda>sp d. dict_set (sp_preset sp) sp d) (ct_sync m) []"

text \<open>\<open>None\<close> is the \<^theory_text>\<open>KeyError\<close> of \<^theory_text>\<open>specs[name]\<close>.\<close>

fun ordinary_names :: "(string, sync_spec) dict \<Rightarrow> string list \<Rightarrow> string list option" where
  "ordinary_names specs [] = Some []"
| "ordinary_names specs (n # ns) =
     (case map_of specs n of
        None \<Rightarrow> None
      | Some sp \<Rightarrow> map_option (\<lambda>rest. if sp_feed sp = None then n # rest else rest)
          (ordinary_names specs ns))"

text \<open>
  The parameters: \<open>ab_build\<close> makes the adapter of an ordinary preset, \<open>ab_event\<close> that of an event
  preset once the tools are listed.
\<close>

record 'a adapter_build =
  ab_strict :: "sync_spec \<Rightarrow> plan_exc + bool"
  ab_build :: "sync_spec \<Rightarrow> plan_exc + 'a"
  ab_tools :: "plan_exc + unit"
  ab_event :: "sync_spec \<Rightarrow> plan_exc + 'a"
  ab_policy :: bool

definition build_event_adapters ::
  "'a adapter_build \<Rightarrow> connector_descriptor \<Rightarrow> sync_contract \<Rightarrow> plan_exc + (string, 'a) dict" where
  "build_event_adapters B d m =
     (let selected = selected_presets d (map sp_preset (ct_sync m));
          events = filter (\<lambda>sp. sp_preset sp \<in> set selected \<and> sp_feed sp \<noteq> None) (ct_sync m) in
      if events = [] then Inr []
      else andR (refuse_if (\<not> ab_policy B) EventPolicyMissing)
          (andR (ab_tools B)
          (bindR (mapR (\<lambda>sp. bindR (ab_event B sp) (\<lambda>a. Inr (sp_preset sp, a))) events) (\<lambda>kvs.
           Inr (dict_update [] kvs)))))"

definition build_sync_adapters ::
  "'a adapter_build \<Rightarrow> connector_descriptor \<Rightarrow> sync_contract \<Rightarrow> plan_exc + (string, 'a) dict" where
  "build_sync_adapters B d m =
     (let specs = spec_table m; declared = dict_keys specs;
          selected = selected_presets d declared;
          chosen = List.map_filter (map_of specs) selected in
      bindR (mapping_reference_problems (ab_strict B) d m chosen) (\<lambda>mapping.
      andR (raise_problems (selection_problems d declared @ mapping))
        (case ordinary_names specs selected of
           None \<Rightarrow> Inl (PlanForeign ''KeyError'')
         | Some names \<Rightarrow>
             bindR (mapR (\<lambda>n. case map_of specs n of
                 None \<Rightarrow> Inl (PlanForeign ''KeyError'')
               | Some sp \<Rightarrow> bindR (ab_build B sp) (\<lambda>a. Inr (n, a))) names) (\<lambda>kvs.
             Inr (dict_update [] kvs)))))"

text \<open>\<open>declared\<close> is what the server's declaration document parses to.\<close>

definition load_sync_adapters ::
  "'a adapter_build \<Rightarrow> connector_descriptor \<Rightarrow> (plan_exc + sync_contract option) \<Rightarrow>
     plan_exc + (string, 'a) dict" where
  "load_sync_adapters B d declared =
     bindR declared (\<lambda>contract.
       case contract of
         None \<Rightarrow> Inl NothingDeclared
       | Some m \<Rightarrow>
           andR (if ct_connector m \<noteq> cd_name d then raise_problems [OtherConnector (ct_connector m)]
                 else Inr ())
          (bindR (build_sync_adapters B d m) (\<lambda>adapters.
           bindR (build_event_adapters B d m) (\<lambda>events.
           Inr (dict_update adapters events)))))"

section \<open>Plans\<close>

record cycle_plan =
  cp_provision :: bool
  cp_presets :: "string set"

datatype change_kind = ToolsChanged | PromptsChanged | ResourcesChanged | ResourceUpdated

record change_event =
  ce_kind :: change_kind
  ce_uri :: string

definition full_plan :: "connector_descriptor \<Rightarrow> string list \<Rightarrow> cycle_plan" where
  "full_plan d presets = \<lparr>cp_provision = cd_provision d, cp_presets = set presets\<rparr>"

definition change_plan ::
  "connector_descriptor \<Rightarrow> change_event list \<Rightarrow> string set \<Rightarrow> cycle_plan" where
  "change_plan d evs uris =
     \<lparr>cp_provision = (cd_provision d \<and>
        list_ex (\<lambda>ev. ce_kind ev \<in> {ToolsChanged, PromptsChanged, ResourcesChanged}
           \<or> ce_uri ev \<in> uris) evs),
      cp_presets = set (concat (map (\<lambda>ev.
        if ce_kind ev = ResourceUpdated
        then case map_of (cd_data_resources d) (ce_uri ev) of None \<Rightarrow> [] | Some ns \<Rightarrow> ns
        else []) evs))\<rparr>"

section \<open>Plans name loaded adapters only\<close>

lemma dict_update_keys: "fst ` set (dict_update d e) = fst ` set d \<union> fst ` set e"
  by (induction d e rule: dict_update.induct) (auto simp: dict_set_keys)

lemma spec_table_keys: "fst ` set (spec_table m) = sp_preset ` set (ct_sync m)"
proof -
  have "fst ` set (fold (\<lambda>sp d. dict_set (sp_preset sp) sp d) sps d) =
      fst ` set d \<union> sp_preset ` set sps" for sps d
    by (induction sps arbitrary: d) (auto simp: dict_set_keys)
  from this [of "ct_sync m" "[]"] show ?thesis by (simp add: spec_table_def)
qed

lemma sort_empty [simp]: "sort xs = [] \<longleftrightarrow> xs = []"
  by (metis length_0_conv length_sort)

lemma spec_table_lookup:
  "map_of (spec_table m) n = Some sp \<Longrightarrow> sp \<in> set (ct_sync m) \<and> sp_preset sp = n"
proof -
  have "map_of (fold (\<lambda>sp d. dict_set (sp_preset sp) sp d) sps d) n = Some sp \<Longrightarrow>
      sp \<in> set sps \<and> sp_preset sp = n \<or> map_of d n = Some sp" for sps d
    by (induction sps arbitrary: d) (fastforce split: if_splits)+
  from this [of "ct_sync m" "[]"] show "map_of (spec_table m) n = Some sp \<Longrightarrow> ?thesis"
    by (simp add: spec_table_def)
qed

lemma ordinary_names_set:
  "ordinary_names specs ns = Some rest \<Longrightarrow>
     set rest = {n \<in> set ns. \<exists>sp. map_of specs n = Some sp \<and> sp_feed sp = None}"
  by (induction specs ns arbitrary: rest rule: ordinary_names.induct)
    (auto split: option.splits if_splits)

lemma mapR_keys:
  assumes "mapR f xs = Inr kvs" "\<And>x kv. x \<in> set xs \<Longrightarrow> f x = Inr kv \<Longrightarrow> fst kv = key x"
  shows "fst ` set kvs = key ` set xs"
proof -
  have "list_all2 (\<lambda>x kv. x \<in> set xs \<and> f x = Inr kv) xs kvs"
    using assms(1) unfolding mapR_Inr_iff by (simp add: list_all2_conv_all_nth)
  then have "list_all2 (\<lambda>x kv. fst kv = key x) xs kvs"
    by (rule list_all2_mono) (use assms(2) in blast)
  then show ?thesis by (induction rule: list_all2_induct) auto
qed

text \<open>Every selected preset has an adapter, ordinary or event.\<close>

lemma loaded_keys:
  assumes "load_sync_adapters B d (Inr (Some m)) = Inr adapters"
  shows "fst ` set adapters = set (selected_presets d (dict_keys (spec_table m)))"
    and "set (triggered_presets d) \<subseteq> set (selected_presets d (dict_keys (spec_table m)))"
proof -
  let ?specs = "spec_table m"
  let ?selected = "selected_presets d (dict_keys ?specs)"
  obtain ordinary events names okvs where ord: "build_sync_adapters B d m = Inr ordinary"
    and ev: "build_event_adapters B d m = Inr events"
    and adapters: "adapters = dict_update ordinary events"
    and problems: "selection_problems d (dict_keys ?specs) = []"
    and names: "ordinary_names ?specs ?selected = Some names"
    and okvs: "mapR (\<lambda>n. case map_of ?specs n of
        None \<Rightarrow> Inl (PlanForeign ''KeyError'')
      | Some sp \<Rightarrow> bindR (ab_build B sp) (\<lambda>a. Inr (n, a))) names = Inr okvs"
    and ordinary: "ordinary = dict_update [] okvs"
    using assms
    by (auto simp: load_sync_adapters_def build_sync_adapters_def raise_problems_def Let_def
        result_iff split: option.splits)
  have selected: "set ?selected \<subseteq> fst ` set ?specs"
    using problems
    by (auto simp: selection_problems_def Let_def dict_keys_def filter_empty_conv)
  show "set (triggered_presets d) \<subseteq> set ?selected"
    using problems by (auto simp: selection_problems_def Let_def filter_empty_conv)
  have okeys: "fst ` set ordinary =
      {n \<in> set ?selected. \<exists>sp. map_of ?specs n = Some sp \<and> sp_feed sp = None}"
  proof -
    have "fst ` set okvs = (\<lambda>n. n) ` set names"
      by (rule mapR_keys [OF okvs]) (auto simp: bindR_Inr split: option.splits)
    then show ?thesis
      by (simp add: ordinary dict_update_keys ordinary_names_set [OF names])
  qed
  have same: "set (selected_presets d (map sp_preset (ct_sync m))) = set ?selected"
    by (simp add: selected_presets_def dict_keys_def spec_table_keys)
  have ekeys: "fst ` set events =
      {n \<in> set ?selected. \<exists>sp \<in> set (ct_sync m). sp_preset sp = n \<and> sp_feed sp \<noteq> None}"
  proof -
    let ?events = "filter (\<lambda>sp. sp_preset sp \<in> set ?selected \<and> sp_feed sp \<noteq> None) (ct_sync m)"
    have "fst ` set events = sp_preset ` set ?events"
    proof (cases "?events = []")
      case True
      with ev show ?thesis by (simp add: build_event_adapters_def Let_def same)
    next
      case False
      with ev obtain kvs where
        "mapR (\<lambda>sp. bindR (ab_event B sp) (\<lambda>a. Inr (sp_preset sp, a))) ?events = Inr kvs"
        "events = dict_update [] kvs"
        by (auto simp: build_event_adapters_def Let_def same result_iff split: if_splits)
      moreover have "fst ` set kvs = sp_preset ` set ?events"
        by (rule mapR_keys [OF calculation(1)]) (auto simp: bindR_Inr)
      ultimately show ?thesis by (simp add: dict_update_keys)
    qed
    then show ?thesis by auto
  qed
  show "fst ` set adapters = set ?selected"
  proof
    show "fst ` set adapters \<subseteq> set ?selected"
      by (auto simp: adapters dict_update_keys okeys ekeys)
    show "set ?selected \<subseteq> fst ` set adapters"
    proof
      fix n assume n: "n \<in> set ?selected"
      with selected obtain sp where sp: "map_of ?specs n = Some sp"
        by (metis domD dom_map_of_conv_image_fst subsetD)
      with spec_table_lookup [OF sp] n show "n \<in> fst ` set adapters"
        unfolding adapters dict_update_keys okeys ekeys by (cases "sp_feed sp") auto
    qed
  qed
qed

text \<open>
  Once a connector's adapters are loaded, exactly the selected presets have one,
  and every preset that a full cycle or any change-driven cycle names has one, so a cycle never
  looks up an adapter that is missing.
\<close>

theorem plans_name_adapters:
  "case load_sync_adapters B d declared of
     Inl _ \<Rightarrow> True
   | Inr adapters \<Rightarrow>
       (\<exists>m. declared = Inr (Some m) \<and> ct_connector m = cd_name d
          \<and> fst ` set adapters = set (selected_presets d (dict_keys (spec_table m))))
       \<and> cp_presets (full_plan d (dict_keys adapters)) = fst ` set adapters
       \<and> cp_presets (change_plan d evs uris) \<subseteq> fst ` set adapters"
proof (cases "load_sync_adapters B d declared")
  case (Inr adapters)
  then obtain m where m: "declared = Inr (Some m)" "ct_connector m = cd_name d"
    by (auto simp: load_sync_adapters_def raise_problems_def result_iff split: option.splits if_splits)
  note keys = loaded_keys [OF Inr [unfolded m(1)]]
  have "cp_presets (change_plan d evs uris) \<subseteq> set (triggered_presets d)"
    unfolding change_plan_def triggered_presets_def
    by (auto split: option.splits if_splits)
      (metis map_of_SomeD snd_conv)
  with keys m Inr show ?thesis by (auto simp: full_plan_def dict_keys_def)
qed simp

end
