(* ===== verification/Runner_Health.thy ===== *)
theory Runner_Health
  imports Json_Value
begin

text \<open>
  The runner's health state: \<^verbatim>\<open>runner/health_state.py\<close>, its optional call sites
  \<^verbatim>\<open>runner/health_reporting.py\<close> and the bounded sink probe \<^verbatim>\<open>runner/sink_probe.py\<close>. Times are
  readings of a monotonic clock, given as rationals; the lock makes each operation one step.
\<close>

section \<open>State and operations\<close>

record connector_health =
  ch_last_success :: "rat option"
  ch_failures :: nat
  ch_retry :: "rat option"
  ch_credentials :: "bool option"
  ch_error :: string

definition unproven :: connector_health where
  "unproven = \<lparr>ch_last_success = None, ch_failures = 0, ch_retry = None, ch_credentials = None,
     ch_error = ''''\<rparr>"

record runner_health =
  rh_window :: rat
  rh_heartbeat :: rat
  rh_loaded :: bool
  rh_connectors :: "(string, connector_health) dict"

definition health_new :: "rat \<Rightarrow> rat \<Rightarrow> runner_health" where
  "health_new window now =
     \<lparr>rh_window = window, rh_heartbeat = now, rh_loaded = False, rh_connectors = []\<rparr>"

definition heartbeat :: "rat \<Rightarrow> runner_health \<Rightarrow> runner_health" where
  "heartbeat now h = h\<lparr>rh_heartbeat := now\<rparr>"

definition set_default :: "'k \<Rightarrow> 'v \<Rightarrow> ('k, 'v) dict \<Rightarrow> ('k, 'v) dict" where
  "set_default k v d = (case map_of d k of None \<Rightarrow> dict_set k v d | Some _ \<Rightarrow> d)"

definition sync_registry :: "string list \<Rightarrow> runner_health \<Rightarrow> runner_health" where
  "sync_registry names h =
     h\<lparr>rh_loaded := True,
       rh_connectors := fold (\<lambda>n d. set_default n unproven d) names (rh_connectors h)\<rparr>"

definition health_of :: "runner_health \<Rightarrow> string \<Rightarrow> connector_health" where
  "health_of h name = (case map_of (rh_connectors h) name of None \<Rightarrow> unproven | Some c \<Rightarrow> c)"

definition put_health :: "string \<Rightarrow> connector_health \<Rightarrow> runner_health \<Rightarrow> runner_health" where
  "put_health name c h = h\<lparr>rh_connectors := dict_set name c (rh_connectors h)\<rparr>"

definition record_credentials :: "string \<Rightarrow> bool \<Rightarrow> string \<Rightarrow> runner_health \<Rightarrow> runner_health" where
  "record_credentials name ok err h =
     put_health name ((health_of h name)\<lparr>ch_credentials := Some ok,
       ch_error := if ok then '''' else err\<rparr>) h"

definition record_cycle_success :: "string \<Rightarrow> rat \<Rightarrow> runner_health \<Rightarrow> runner_health" where
  "record_cycle_success name now h =
     put_health name ((health_of h name)\<lparr>ch_last_success := Some now, ch_failures := 0,
       ch_retry := None\<rparr>) h"

definition record_cycle_failure :: "string \<Rightarrow> rat option \<Rightarrow> runner_health \<Rightarrow> runner_health" where
  "record_cycle_failure name retry h =
     put_health name ((health_of h name)\<lparr>ch_failures := ch_failures (health_of h name) + 1,
       ch_retry := retry\<rparr>) h"

text \<open>The call sites that do nothing when health is not tracked.\<close>

definition note_heartbeat :: "rat \<Rightarrow> runner_health option \<Rightarrow> runner_health option" where
  "note_heartbeat now = map_option (heartbeat now)"

definition note_registry_loaded :: "string list \<Rightarrow> runner_health option \<Rightarrow> runner_health option" where
  "note_registry_loaded names = map_option (sync_registry names)"

definition note_credentials ::
  "string \<Rightarrow> bool \<Rightarrow> string \<Rightarrow> runner_health option \<Rightarrow> runner_health option" where
  "note_credentials name ok err = map_option (record_credentials name ok err)"

definition note_cycle_success :: "string \<Rightarrow> rat \<Rightarrow> runner_health option \<Rightarrow> runner_health option" where
  "note_cycle_success name now = map_option (record_cycle_success name now)"

definition note_cycle_failure ::
  "string \<Rightarrow> rat option \<Rightarrow> runner_health option \<Rightarrow> runner_health option" where
  "note_cycle_failure name retry = map_option (record_cycle_failure name retry)"

section \<open>Reports\<close>

record health_report =
  hr_ok :: bool
  hr_status :: int
  hr_body :: json

definition json_opt :: "('a \<Rightarrow> json) \<Rightarrow> 'a option \<Rightarrow> json" where
  "json_opt f x = (case x of None \<Rightarrow> JNull | Some v \<Rightarrow> f v)"

definition json_rat :: "rat \<Rightarrow> json" where
  "json_rat r = JFloat (Fin r)"

definition snapshot :: "rat \<Rightarrow> connector_health \<Rightarrow> json" where
  "snapshot now c =
     JObj [(''last_success_seconds_ago'', json_opt (\<lambda>t. json_rat (now - t)) (ch_last_success c)),
       (''consecutive_failures'', JInt (int (ch_failures c))),
       (''next_retry_seconds'', json_opt json_rat (ch_retry c)),
       (''credentials_ok'', json_opt JBool (ch_credentials c)),
       (''credential_error'', JStr (ch_error c))]"

definition liveness :: "rat \<Rightarrow> runner_health \<Rightarrow> health_report" where
  "liveness now h =
     (let age = now - rh_heartbeat h in
      if age \<le> rh_window h
      then \<lparr>hr_ok = True, hr_status = 200,
            hr_body = JObj [(''status'', JStr ''ok''), (''heartbeat_age_seconds'', json_rat age)]\<rparr>
      else \<lparr>hr_ok = False, hr_status = 503,
            hr_body = JObj [(''status'', JStr ''error''), (''component'', JStr ''scheduler_loop''),
              (''age_seconds'', json_rat age), (''max_age_seconds'', json_rat (rh_window h))]\<rparr>)"

text \<open>
  The sink's answer, \<open>None\<close> when the bound on the probe passed first; \<open>timeout\<close> is how that bound
  is spelled.
\<close>

record sink_readiness =
  sr_ready :: bool
  sr_reason_text :: "string option"

definition probe_sink_readiness :: "string \<Rightarrow> sink_readiness option \<Rightarrow> sink_readiness" where
  "probe_sink_readiness timeout answer =
     (case answer of
        Some r \<Rightarrow> r
      | None \<Rightarrow> \<lparr>sr_ready = False,
          sr_reason_text = Some (''sink readiness timed out after '' @ timeout @ ''s'')\<rparr>)"

definition sink_reason :: "sink_readiness \<Rightarrow> string" where
  "sink_reason r = (case sr_reason_text r of None \<Rightarrow> ''sink not ready'' | Some t \<Rightarrow> t)"

definition unresolved_connectors :: "runner_health \<Rightarrow> string list" where
  "unresolved_connectors h =
     sort (map fst (filter (\<lambda>(_, c). ch_credentials c \<noteq> Some True) (rh_connectors h)))"

definition readiness_reasons :: "runner_health \<Rightarrow> sink_readiness \<Rightarrow> string list" where
  "readiness_reasons h sink =
     (if rh_loaded h then [] else [''registry not loaded''])
     @ (if unresolved_connectors h = [] then []
        else [''credentials unresolved: '' @ join_with '', '' (unresolved_connectors h)])
     @ (if sr_ready sink then [] else [sink_reason sink])"

definition readiness :: "rat \<Rightarrow> sink_readiness \<Rightarrow> runner_health \<Rightarrow> health_report" where
  "readiness now sink h =
     (let reasons = readiness_reasons h sink in
      \<lparr>hr_ok = (reasons = []), hr_status = (if reasons = [] then 200 else 503),
        hr_body = JObj [(''status'', JStr (if reasons = [] then ''ready'' else ''not_ready'')),
          (''reasons'', JArr (map JStr reasons)),
          (''connectors'', JObj (map (\<lambda>(n, c). (n, snapshot now c)) (rh_connectors h)))]\<rparr>)"

section \<open>Histories\<close>

text \<open>What the scheduler and the workers may do to the state, one step each.\<close>

datatype health_step =
    StBeat rat
  | StRegistry "string list"
  | StCredentials string bool string
  | StSuccess string rat
  | StFailure string "rat option"

fun apply_step :: "health_step \<Rightarrow> runner_health \<Rightarrow> runner_health" where
  "apply_step (StBeat now) h = heartbeat now h"
| "apply_step (StRegistry names) h = sync_registry names h"
| "apply_step (StCredentials n ok err) h = record_credentials n ok err h"
| "apply_step (StSuccess n now) h = record_cycle_success n now h"
| "apply_step (StFailure n retry) h = record_cycle_failure n retry h"

definition health_after :: "rat \<Rightarrow> rat \<Rightarrow> health_step list \<Rightarrow> runner_health" where
  "health_after window start steps = fold apply_step steps (health_new window start)"

lemmas health_ops = heartbeat_def sync_registry_def record_credentials_def
  record_cycle_success_def record_cycle_failure_def put_health_def

text \<open>What a history says by itself, without the state.\<close>

fun beat_of :: "rat \<Rightarrow> health_step list \<Rightarrow> rat" where
  "beat_of t [] = t"
| "beat_of t (StBeat now # sts) = beat_of now sts"
| "beat_of t (_ # sts) = beat_of t sts"

fun step_names :: "health_step \<Rightarrow> string set" where
  "step_names (StBeat _) = {}"
| "step_names (StRegistry names) = set names"
| "step_names (StCredentials n _ _) = {n}"
| "step_names (StSuccess n _) = {n}"
| "step_names (StFailure n _) = {n}"

fun credentials_after :: "string \<Rightarrow> bool option \<Rightarrow> health_step list \<Rightarrow> bool option" where
  "credentials_after n c [] = c"
| "credentials_after n c (StCredentials k ok _ # sts) =
     credentials_after n (if k = n then Some ok else c) sts"
| "credentials_after n c (_ # sts) = credentials_after n c sts"

fun failures_after :: "string \<Rightarrow> nat \<Rightarrow> health_step list \<Rightarrow> nat" where
  "failures_after n k [] = k"
| "failures_after n k (StSuccess m _ # sts) = failures_after n (if m = n then 0 else k) sts"
| "failures_after n k (StFailure m _ # sts) = failures_after n (if m = n then k + 1 else k) sts"
| "failures_after n k (_ # sts) = failures_after n k sts"

lemma set_default_facts:
  "fst ` set (set_default k v d) = insert k (fst ` set d)"
  "well_keyed d \<Longrightarrow> well_keyed (set_default k v d)"
  "map_of (set_default k v d) n = (if n = k \<and> map_of d k = None then Some v else map_of d n)"
  by (auto simp: set_default_def dict_set_keys split: option.splits)
    (force dest: map_of_SomeD)

lemma registry_facts:
  "fst ` set (fold (\<lambda>n d. set_default n unproven d) names d) = fst ` set d \<union> set names"
  "well_keyed d \<Longrightarrow> well_keyed (fold (\<lambda>n d. set_default n unproven d) names d)"
  "(case map_of (fold (\<lambda>n d. set_default n unproven d) names d) n of None \<Rightarrow> unproven | Some c \<Rightarrow> c)
     = (case map_of d n of None \<Rightarrow> unproven | Some c \<Rightarrow> c)"
  by (induction names arbitrary: d)
    (auto simp: set_default_facts split: option.splits if_splits)

lemma health_step_window [simp]: "rh_window (apply_step st h) = rh_window h"
  by (cases st) (simp_all add: health_ops)

lemma health_step_keyed:
  "well_keyed (rh_connectors h) \<Longrightarrow> well_keyed (rh_connectors (apply_step st h))"
  by (cases st) (simp_all add: health_ops registry_facts)

lemma health_step_names:
  "fst ` set (rh_connectors (apply_step st h)) = fst ` set (rh_connectors h) \<union> step_names st"
  by (cases st) (auto simp: health_ops registry_facts dict_set_keys)

lemma health_of_step:
  "ch_credentials (health_of (apply_step st h) n) =
     credentials_after n (ch_credentials (health_of h n)) [st]"
  "ch_failures (health_of (apply_step st h) n) = failures_after n (ch_failures (health_of h n)) [st]"
  by (cases st; simp add: health_ops health_of_def registry_facts)+

lemma history_split:
  "beat_of t (st # sts) = beat_of (beat_of t [st]) sts"
  "credentials_after n c (st # sts) = credentials_after n (credentials_after n c [st]) sts"
  "failures_after n k (st # sts) = failures_after n (failures_after n k [st]) sts"
  by (cases st; simp)+

lemma health_fold:
  assumes "well_keyed (rh_connectors h)"
  shows "rh_window (fold apply_step sts h) = rh_window h
    \<and> rh_heartbeat (fold apply_step sts h) = beat_of (rh_heartbeat h) sts
    \<and> rh_loaded (fold apply_step sts h) = (rh_loaded h \<or> (\<exists>ns. StRegistry ns \<in> set sts))
    \<and> well_keyed (rh_connectors (fold apply_step sts h))
    \<and> fst ` set (rh_connectors (fold apply_step sts h)) =
        fst ` set (rh_connectors h) \<union> \<Union> (step_names ` set sts)
    \<and> ch_credentials (health_of (fold apply_step sts h) n) =
        credentials_after n (ch_credentials (health_of h n)) sts
    \<and> ch_failures (health_of (fold apply_step sts h) n) =
        failures_after n (ch_failures (health_of h n)) sts"
  using assms
proof (induction sts arbitrary: h)
  case (Cons st sts)
  have "rh_heartbeat (apply_step st h) = beat_of (rh_heartbeat h) [st]"
    and "rh_loaded (apply_step st h) = (rh_loaded h \<or> (\<exists>ns. st = StRegistry ns))"
    by (cases st; simp add: health_ops)+
  with Cons.IH [OF health_step_keyed [OF Cons.prems, of st]] show ?case
    by (auto simp: health_step_names health_of_step history_split(1) [of "rh_heartbeat h" st sts]
        history_split(2) [of n "ch_credentials (health_of h n)" st sts]
        history_split(3) [of n "ch_failures (health_of h n)" st sts])
qed simp

lemma unresolved_empty:
  "well_keyed (rh_connectors h) \<Longrightarrow>
     unresolved_connectors h = [] \<longleftrightarrow>
       (\<forall>n \<in> fst ` set (rh_connectors h). ch_credentials (health_of h n) = Some True)"
proof -
  assume "well_keyed (rh_connectors h)"
  then have "health_of h n = c" if "(n, c) \<in> set (rh_connectors h)" for n c
    using that by (simp add: health_of_def well_keyed_def)
  moreover have "sort xs = [] \<longleftrightarrow> xs = []" for xs :: "string list"
    by (metis length_0_conv length_sort)
  ultimately show ?thesis
    by (force simp: unresolved_connectors_def filter_empty_conv)
qed

text \<open>
  After any history of the scheduler and the workers, liveness answers 200 exactly
  while the last heartbeat is within the window, and readiness answers 200 exactly when a registry
  was loaded, the last credential outcome of every connector seen so far is a success, and the
  probed sink is ready; a connector's failure count is the number of failures since its last
  success.
\<close>

theorem health_reports:
  "let h = health_after window start steps;
       seen = \<Union> (step_names ` set steps);
       sink = probe_sink_readiness timeout answer in
     (hr_status (liveness now h) = 200) = (now - beat_of start steps \<le> window)
     \<and> (hr_status (readiness now sink h) = 200) =
         ((\<exists>names. StRegistry names \<in> set steps)
          \<and> seen \<subseteq> {n. credentials_after n None steps = Some True}
          \<and> (\<exists>r. answer = Some r \<and> sr_ready r))
     \<and> hr_ok (readiness now sink h) = (hr_status (readiness now sink h) = 200)
     \<and> ch_failures (health_of h n) = failures_after n 0 steps"
proof -
  let ?h = "health_after window start steps"
  have start: "well_keyed (rh_connectors (health_new window start))"
    by (simp add: health_new_def well_keyed_def)
  note facts = health_fold [OF start, of steps]
  have h: "rh_window ?h = window" "rh_heartbeat ?h = beat_of start steps"
    "rh_loaded ?h = (\<exists>names. StRegistry names \<in> set steps)" "well_keyed (rh_connectors ?h)"
    "fst ` set (rh_connectors ?h) = \<Union> (step_names ` set steps)"
    "ch_credentials (health_of ?h n) = credentials_after n None steps"
    "ch_failures (health_of ?h n) = failures_after n 0 steps" for n
    using facts [of n] by (auto simp: health_after_def health_new_def health_of_def unproven_def)
  have "readiness_reasons ?h (probe_sink_readiness timeout answer) = [] \<longleftrightarrow>
      rh_loaded ?h \<and> unresolved_connectors ?h = []
      \<and> (\<exists>r. answer = Some r \<and> sr_ready r)"
    by (auto simp: readiness_reasons_def probe_sink_readiness_def split: option.splits)
  then show ?thesis
    by (auto simp: Let_def liveness_def readiness_def h unresolved_empty)
qed

end
