(* ===== verification/Runner_Worker.thy ===== *)
theory Runner_Worker
  imports Backoff Runner_Plans Runner_Health Runner_Protocol
begin

text \<open>
  One connector's supervised loop: \<^verbatim>\<open>runner/worker.py\<close> with the endpoint resolution of
  \<^verbatim>\<open>runner/credentialed_endpoint.py\<close> and the provisioning pass of \<^verbatim>\<open>runner/provisioning.py\<close>,
  composed with the backoff, the health state, the cycle plans and the sync pass. The endpoint
  factory, the transport's session, the content capture, the clock and the sleep are ports. The
  limiter only delays a cycle and is left out. Two numbers bound a run: the connections made and
  the cycles followed in each; \<open>WkRunning\<close> marks a run that either bound cut short.
\<close>

section \<open>State and ports\<close>

datatype worker_exc =
    WkCancelled
  | WkRunning
  | WkCredential string
  | WkPlan plan_exc
  | WkRunner runner_exc
  | WkReceipt
  | WkForeign string

text \<open>What \<^theory_text>\<open>except Exception\<close> catches: cancellation is no \<^verbatim>\<open>Exception\<close>.\<close>

definition caught :: "worker_exc \<Rightarrow> bool" where
  "caught e \<longleftrightarrow> e \<noteq> WkCancelled \<and> e \<noteq> WkRunning"

datatype worker_event =
    WvProvision string bool nat
  | WvSync string "page_event list" "runner_exc + sync_outcome"
  | WvRetry rat

record 'w worker_state =
  wk_world :: 'w
  wk_health :: "runner_health option"
  wk_backoff :: backoff
  wk_uris :: "string set"
  wk_trace :: "worker_event list"

type_synonym ('w, 'a) worker_port = "'w \<Rightarrow> (worker_exc + 'a) \<times> 'w"
type_synonym ('w, 'a) worker_prog = "('w worker_state, worker_exc, 'a) prog"

record 'w worker_ports =
  wp_endpoint :: "connector_descriptor \<Rightarrow> ('w, string) worker_port"
  wp_open :: "string \<Rightarrow> ('w, unit) worker_port"
  wp_close :: "('w, unit) worker_port"
  wp_declared :: "'w \<Rightarrow> (plan_exc + sync_contract option) \<times> 'w"
  wp_adapters :: "'w runner_ports adapter_build"
  wp_capture :: "string \<Rightarrow> ('w, captured_pack) worker_port"
  wp_import :: "captured_pack \<Rightarrow> ('w, pack_result) worker_port"
  wp_follows :: bool
  wp_watch :: "string list \<Rightarrow> ('w, bool) worker_port"
  wp_changes :: "rat \<Rightarrow> ('w, change_event list option) worker_port"
  wp_sleep :: "rat \<Rightarrow> ('w, unit) worker_port"
  wp_clock :: "'w \<Rightarrow> rat \<times> 'w"

definition worker_port :: "('w, 'a) worker_port \<Rightarrow> ('w, 'a) worker_prog" where
  "worker_port p = (\<lambda>s. case p (wk_world s) of (r, w) \<Rightarrow> (r, s\<lparr>wk_world := w\<rparr>))"

definition trace_event :: "worker_event \<Rightarrow> ('w, unit) worker_prog" where
  "trace_event ev = modifyP (\<lambda>s. s\<lparr>wk_trace := wk_trace s @ [ev]\<rparr>)"

definition with_health :: "(runner_health option \<Rightarrow> runner_health option) \<Rightarrow> ('w, unit) worker_prog" where
  "with_health f = modifyP (\<lambda>s. s\<lparr>wk_health := f (wk_health s)\<rparr>)"

section \<open>One connection\<close>

definition resolve_endpoint ::
  "'w worker_ports \<Rightarrow> connector_descriptor \<Rightarrow> ('w, string) worker_prog" where
  "resolve_endpoint P d =
     bindP (catchP (worker_port (wp_endpoint P d)) (\<lambda>e.
         case e of
           WkCredential msg \<Rightarrow>
             Some (thenP (with_health (note_credentials (cd_name d) False msg)) (raiseP e))
         | _ \<Rightarrow> None)) (\<lambda>ep.
     thenP (with_health (note_credentials (cd_name d) True '''')) (returnP ep))"

text \<open>
  \<^theory_text>\<open>async with transport.session(endpoint)\<close>: the session closes on every way out, and
  an exception of the close replaces the outcome.
\<close>

definition in_session ::
  "'w worker_ports \<Rightarrow> string \<Rightarrow> ('w, 'a) worker_prog \<Rightarrow> ('w, 'a) worker_prog" where
  "in_session P ep m =
     thenP (worker_port (wp_open P ep)) (\<lambda>s.
       case m s of (r, s') \<Rightarrow>
         (case worker_port (wp_close P) s' of
            (Inl e, s'') \<Rightarrow> (Inl e, s'')
          | (Inr _, s'') \<Rightarrow> (r, s'')))"

record provision_outcome =
  po_digest :: string
  po_changed :: bool
  po_imported :: nat
  po_uris :: "string set"

definition import_outcome :: "captured_pack \<Rightarrow> pack_result \<Rightarrow> worker_exc + provision_outcome" where
  "import_outcome pack r =
     (case r of
        PackRejected \<Rightarrow> Inl WkReceipt
      | PackImported dg published republished revised \<Rightarrow>
          Inr \<lparr>po_digest = dg, po_changed = True,
            po_imported = published + republished + revised, po_uris = set (pk_uris pack)\<rparr>
      | PackUnchanged dg \<Rightarrow>
          Inr \<lparr>po_digest = dg, po_changed = False, po_imported = 0, po_uris = set (pk_uris pack)\<rparr>)"

definition provision_content ::
  "'w worker_ports \<Rightarrow> string \<Rightarrow> ('w, provision_outcome) worker_prog" where
  "provision_content P connector =
     bindP (worker_port (wp_capture P connector)) (\<lambda>pack.
     bindP (worker_port (wp_import P pack)) (\<lambda>r. liftP (import_outcome pack r)))"

definition worker_provision ::
  "'w worker_ports \<Rightarrow> connector_descriptor \<Rightarrow> ('w, unit) worker_prog" where
  "worker_provision P d =
     bindP (provision_content P (cd_name d)) (\<lambda>oc.
     thenP (modifyP (\<lambda>s. s\<lparr>wk_uris := po_uris oc\<rparr>))
       (trace_event (WvProvision (po_digest oc) (po_changed oc) (po_imported oc))))"

text \<open>One pass of a preset, on the worker's world, with the target the descriptor configures.\<close>

definition worker_sync ::
  "connector_descriptor \<Rightarrow> string \<Rightarrow> 'w runner_ports \<Rightarrow> ('w, unit) worker_prog" where
  "worker_sync d preset A =
     (\<lambda>s. case target_configured (cd_name d) (cd_max_pages d) (cd_approval d) of
        Inl _ \<Rightarrow> (Inl (WkForeign ''ValueError''), s)
      | Inr t \<Rightarrow>
          (case sync_stream A t (pass_start (wk_world s)) of (r, s') \<Rightarrow>
             (map_sum WkRunner (\<lambda>_. ()) r,
              s\<lparr>wk_world := rs_world s', wk_trace := wk_trace s @ [WvSync preset (rs_log s') r]\<rparr>)))"

primrec sync_presets ::
  "connector_descriptor \<Rightarrow> (string, 'w runner_ports) dict \<Rightarrow> string list \<Rightarrow> ('w, unit) worker_prog" where
  "sync_presets d adapters [] = returnP ()"
| "sync_presets d adapters (n # ns) =
     (case map_of adapters n of
        None \<Rightarrow> raiseP (WkForeign ''KeyError'')
      | Some A \<Rightarrow> thenP (worker_sync d n A) (sync_presets d adapters ns))"

definition cycle_success :: "'w worker_ports \<Rightarrow> connector_descriptor \<Rightarrow> ('w, unit) worker_prog" where
  "cycle_success P d =
     modifyP (\<lambda>s. case wk_health s of
        None \<Rightarrow> s
      | Some h \<Rightarrow> (case wp_clock P (wk_world s) of (now, w) \<Rightarrow>
          s\<lparr>wk_world := w, wk_health := note_cycle_success (cd_name d) now (Some h)\<rparr>))"

definition worker_cycle ::
  "'w worker_ports \<Rightarrow> connector_descriptor \<Rightarrow> (string, 'w runner_ports) dict \<Rightarrow> cycle_plan \<Rightarrow>
     ('w, unit) worker_prog" where
  "worker_cycle P d adapters plan =
     thenP (if cp_provision plan then worker_provision P d else returnP ())
    (thenP (sync_presets d adapters (sorted_list_of_set (cp_presets plan)))
       (cycle_success P d))"

section \<open>Following changes\<close>

definition worker_watch ::
  "'w worker_ports \<Rightarrow> connector_descriptor \<Rightarrow> string set option \<Rightarrow> ('w, string set option) worker_prog"
  where
  "worker_watch P d watched =
     bindP (getsP wk_uris) (\<lambda>uris.
       let wanted = uris \<union> set (map fst (cd_data_resources d)) in
       if \<not> wp_follows P \<or> watched = Some wanted then returnP watched
       else thenP (bindP (worker_port (wp_watch P (sorted_list_of_set wanted))) (\<lambda>_. returnP ()))
              (returnP (Some wanted)))"

definition worker_wait ::
  "'w worker_ports \<Rightarrow> connector_descriptor \<Rightarrow> ('w, change_event list) worker_prog" where
  "worker_wait P d =
     (if \<not> wp_follows P
      then thenP (worker_port (wp_sleep P (cd_interval d))) (returnP [])
      else bindP (worker_port (wp_changes P (cd_interval d)))
             (\<lambda>c. returnP (case c of None \<Rightarrow> [] | Some evs \<Rightarrow> evs)))"

primrec worker_follow ::
  "nat \<Rightarrow> 'w worker_ports \<Rightarrow> connector_descriptor \<Rightarrow> (string, 'w runner_ports) dict \<Rightarrow>
     string set option \<Rightarrow> ('w, unit) worker_prog" where
  "worker_follow 0 P d adapters watched = raiseP WkRunning"
| "worker_follow (Suc n) P d adapters watched =
     bindP (worker_wait P d) (\<lambda>evs.
     bindP (getsP wk_uris) (\<lambda>uris.
     thenP (worker_cycle P d adapters
         (if evs \<noteq> [] then change_plan d evs uris else full_plan d (dict_keys adapters)))
    (bindP (worker_watch P d watched) (\<lambda>watched'.
     worker_follow n P d adapters watched'))))"

definition load_adapters ::
  "'w worker_ports \<Rightarrow> connector_descriptor \<Rightarrow> ('w, (string, 'w runner_ports) dict) worker_prog" where
  "load_adapters P d =
     bindP (worker_port (\<lambda>w. case wp_declared P w of (r, w') \<Rightarrow> (Inr r, w'))) (\<lambda>declared.
     liftP (map_sum WkPlan (\<lambda>x. x) (load_sync_adapters (wp_adapters P) d declared)))"

text \<open>The part of a connection that runs inside its session.\<close>

definition connected ::
  "nat \<Rightarrow> bool \<Rightarrow> 'w worker_ports \<Rightarrow> connector_descriptor \<Rightarrow> ('w, unit) worker_prog" where
  "connected n follow P d =
     bindP (load_adapters P d) (\<lambda>adapters.
     thenP (worker_cycle P d adapters (full_plan d (dict_keys adapters)))
    (thenP (modifyP (\<lambda>s. s\<lparr>wk_backoff := backoff_reset (wk_backoff s)\<rparr>))
     (if follow
      then bindP (worker_watch P d None) (\<lambda>watched. worker_follow n P d adapters watched)
      else returnP ())))"

definition worker_connect ::
  "nat \<Rightarrow> bool \<Rightarrow> 'w worker_ports \<Rightarrow> connector_descriptor \<Rightarrow> ('w, unit) worker_prog" where
  "worker_connect n follow P d =
     bindP (resolve_endpoint P d) (\<lambda>ep. in_session P ep (connected n follow P d))"

section \<open>The loops\<close>

definition run_once :: "'w worker_ports \<Rightarrow> connector_descriptor \<Rightarrow> ('w, bool) worker_prog" where
  "run_once P d =
     catchP (thenP (worker_connect 0 False P d) (returnP True)) (\<lambda>e.
       if caught e
       then Some (thenP (with_health (note_cycle_failure (cd_name d) None)) (returnP False))
       else None)"

definition retry_later :: "'w worker_ports \<Rightarrow> connector_descriptor \<Rightarrow> ('w, unit) worker_prog" where
  "retry_later P d =
     bindP (getsP (\<lambda>s. fst (next_delay (wk_backoff s)))) (\<lambda>delay.
     thenP (modifyP (\<lambda>s. s\<lparr>wk_backoff := snd (next_delay (wk_backoff s))\<rparr>))
    (thenP (with_health (note_cycle_failure (cd_name d) (Some delay)))
    (thenP (trace_event (WvRetry delay))
       (worker_port (wp_sleep P delay)))))"

primrec serve :: "nat \<Rightarrow> nat \<Rightarrow> 'w worker_ports \<Rightarrow> connector_descriptor \<Rightarrow> ('w, unit) worker_prog" where
  "serve 0 n P d = raiseP WkRunning"
| "serve (Suc m) n P d =
     thenP (catchP (worker_connect n True P d)
         (\<lambda>e. if caught e then Some (retry_later P d) else None))
       (serve m n P d)"

definition worker_new ::
  "backoff \<Rightarrow> runner_health option \<Rightarrow> 'w \<Rightarrow> 'w worker_state" where
  "worker_new b h w =
     \<lparr>wk_world = w, wk_health = h, wk_backoff = b, wk_uris = {}, wk_trace = []\<rparr>"

end
