(* ===== verification/Runner_Supervision.thy ===== *)
theory Runner_Supervision
  imports Runner_Worker
begin

text \<open>
  What a connector's loop promises: the retry delay it reports and sleeps follows from the number
  of failures it reports, and every pass it makes follows the sync protocol.
\<close>

section \<open>What a retry depends on\<close>

type_synonym retry_view = "backoff \<times> (nat \<times> rat option) option"

definition health_view :: "string \<Rightarrow> runner_health \<Rightarrow> nat \<times> rat option" where
  "health_view name h = (ch_failures (health_of h name), ch_retry (health_of h name))"

definition retry_view :: "string \<Rightarrow> 'w worker_state \<Rightarrow> retry_view" where
  "retry_view name s = (wk_backoff s, map_option (health_view name) (wk_health s))"

lemma retry_view_updates [simp]:
  "retry_view name (s\<lparr>wk_world := w\<rparr>) = retry_view name s"
  "retry_view name (s\<lparr>wk_trace := tr\<rparr>) = retry_view name s"
  "retry_view name (s\<lparr>wk_uris := u\<rparr>) = retry_view name s"
  by (simp_all add: retry_view_def)

lemma health_view_steps [simp]:
  "health_view name (record_credentials name ok err h) = health_view name h"
  "health_view name (record_cycle_success name now h) = (0, None)"
  "health_view name (record_cycle_failure name r h) = (fst (health_view name h) + 1, r)"
  by (simp_all add: health_view_def health_ops health_of_def)

text \<open>A program that touches neither the backoff nor the failure counts keeps what is said of them.\<close>

abbreviation calm :: "string \<Rightarrow> ('w, 'a) worker_prog \<Rightarrow> bool" where
  "calm name m \<equiv> \<forall>R. preserves (\<lambda>s. R (retry_view name s)) m"

lemma port_keeps [preserves_rules]: "(\<And>s w. I s \<Longrightarrow> I (s\<lparr>wk_world := w\<rparr>)) \<Longrightarrow> preserves I (worker_port p)"
  by (rule preservesI) (simp add: worker_port_def split: prod.splits)

lemma wp_worker_portI:
  "(\<And>x w. Q x (s\<lparr>wk_world := w\<rparr>)) \<Longrightarrow> (\<And>e w. E e (s\<lparr>wk_world := w\<rparr>)) \<Longrightarrow>
     wp (worker_port p) Q E s"
  by (simp add: wp_def worker_port_def split: prod.splits sum.splits)

lemma in_session_keeps [preserves_rules]:
  assumes "\<And>s w. I s \<Longrightarrow> I (s\<lparr>wk_world := w\<rparr>)" "preserves I m"
  shows "preserves I (in_session P ep m)"
  unfolding in_session_def
proof (rule preserves_then)
  show "preserves I (worker_port (wp_open P ep))" by (rule port_keeps) (rule assms(1))
  have close: "preserves I (worker_port (wp_close P))" by (rule port_keeps) (rule assms(1))
  show "preserves I (\<lambda>s. case m s of (r, s') \<Rightarrow>
      case worker_port (wp_close P) s' of (Inl e, s'') \<Rightarrow> (Inl e, s'') | (Inr x, s'') \<Rightarrow> (r, s''))"
  proof (rule preservesI)
    fix s assume "I s"
    obtain r s' where m: "m s = (r, s')" by fastforce
    with assms(2) \<open>I s\<close> have "I s'" by (auto simp: preserves_def dest: spec [of _ s])
    with close have "I (snd (worker_port (wp_close P) s'))" by (simp add: preserves_def)
    then show "I (snd (case m s of (r, s') \<Rightarrow>
        case worker_port (wp_close P) s' of (Inl e, s'') \<Rightarrow> (Inl e, s'') | (Inr x, s'') \<Rightarrow> (r, s'')))"
      by (cases "worker_port (wp_close P) s'") (simp add: m split: sum.splits)
  qed
qed

lemma worker_sync_keeps:
  assumes "\<And>s w evs r. I s \<Longrightarrow> I (s\<lparr>wk_world := w, wk_trace := wk_trace s @ [WvSync n evs r]\<rparr>)"
  shows "preserves I (worker_sync d n A)"
  using assms
  by (intro preservesI) (auto simp: worker_sync_def split: sum.splits prod.splits)

lemma sync_presets_keeps:
  assumes "\<And>n A. preserves I (worker_sync d n A)"
  shows "preserves I (sync_presets d adapters ns)"
  by (induction ns) (auto intro!: preserves_rules assms split: option.splits)

lemma calm_parts:
  "calm name (worker_port p)"
  "calm name (trace_event ev)"
  "calm name (sync_presets d adapters ns)"
  "calm name (worker_provision P d)"
  "calm name (worker_watch P d watched)"
  "calm name (worker_wait P d)"
  "calm name (load_adapters P d)"
  by (auto simp: trace_event_def worker_provision_def provision_content_def worker_watch_def Let_def
      worker_wait_def load_adapters_def
      intro!: preserves_rules sync_presets_keeps worker_sync_keeps)

lemma calm_endpoint: "calm (cd_name d) (resolve_endpoint P d)"
proof -
  have creds: "calm (cd_name d) (with_health (note_credentials (cd_name d) ok err))" for ok err
    by (auto simp: with_health_def note_credentials_def retry_view_def option.map_comp o_def
        intro!: preserves_modify)
  then show ?thesis
    unfolding resolve_endpoint_def
    by (auto intro!: preserves_rules split: worker_exc.splits if_splits)
qed

lemma calm_wp:
  "calm name m \<Longrightarrow> retry_view name s = v \<Longrightarrow>
     wp m (\<lambda>_ s'. retry_view name s' = v) (\<lambda>_ s'. retry_view name s' = v) s"
  by (rule preserves_wp [where I = "\<lambda>s. retry_view name s = v"]) (auto dest: spec [of _ "\<lambda>x. x = v"])

section \<open>A cycle\<close>

definition cleared :: "retry_view \<Rightarrow> bool" where
  "cleared v \<longleftrightarrow> (case snd v of None \<Rightarrow> True | Some x \<Rightarrow> x = (0, None))"

lemma worker_cycle_view:
  assumes "retry_view (cd_name d) s = v"
  shows "wp (worker_cycle P d adapters plan)
     (\<lambda>_ s'. fst (retry_view (cd_name d) s') = fst v \<and> cleared (retry_view (cd_name d) s'))
     (\<lambda>_ s'. retry_view (cd_name d) s' = v) s"
proof -
  have success: "wp (cycle_success P d)
      (\<lambda>_ s'. fst (retry_view (cd_name d) s') = fst v \<and> cleared (retry_view (cd_name d) s'))
      (\<lambda>_ s'. retry_view (cd_name d) s' = v) s'" if "retry_view (cd_name d) s' = v" for s'
    using that
    by (auto simp: cycle_success_def wp_modify retry_view_def cleared_def note_cycle_success_def
        split: option.splits prod.splits)
  have "wp (sync_presets d adapters ns) (\<lambda>_. wp (cycle_success P d)
      (\<lambda>_ s'. fst (retry_view (cd_name d) s') = fst v \<and> cleared (retry_view (cd_name d) s'))
      (\<lambda>_ s'. retry_view (cd_name d) s' = v)) (\<lambda>_ s'. retry_view (cd_name d) s' = v) s'"
    if "retry_view (cd_name d) s' = v" for ns s'
    by (rule wp_mono [OF calm_wp [OF calm_parts(3) that]]) (simp_all add: success)
  with assms show ?thesis
    unfolding worker_cycle_def wp_then
    by (auto simp: wp_return intro!: wp_mono [OF calm_wp [OF calm_parts(4)]])
qed

section \<open>Backoff and failure count\<close>

text \<open>
  A reported failure count \<open>k\<close> and the backoff belong together: the next delay is the initial one
  doubled \<open>k\<close> times, and the delay reported with the last failure the one before it.
\<close>

definition agrees :: "retry_view \<Rightarrow> bool" where
  "agrees v \<longleftrightarrow> backoff_ok (fst v) \<and>
     (case snd v of
        None \<Rightarrow> True
      | Some (k, r) \<Rightarrow>
          bo_current (fst v) = min (bo_initial (fst v) * 2 ^ k) (bo_maximum (fst v))
          \<and> r = (if k = 0 then None
                 else Some (min (bo_initial (fst v) * 2 ^ (k - 1)) (bo_maximum (fst v)))))"

definition rested :: "retry_view \<Rightarrow> bool" where
  "rested v \<longleftrightarrow> agrees v \<and> bo_current (fst v) = bo_initial (fst v)"

lemma cleared_rested:
  "backoff_ok (fst v) \<Longrightarrow> bo_current (fst v) = bo_initial (fst v) \<Longrightarrow> cleared v \<Longrightarrow> rested v"
  by (auto simp: rested_def agrees_def cleared_def backoff_ok_def split: option.splits)

lemma worker_follow_agrees:
  assumes "rested (retry_view (cd_name d) s)"
  shows "wp (worker_follow n P d adapters watched) (\<lambda>_ _. False)
     (\<lambda>_ s'. agrees (retry_view (cd_name d) s')) s"
  using assms
proof (induction n arbitrary: s watched)
  case 0
  then show ?case by (simp add: wp_raise rested_def)
next
  case (Suc n)
  let ?v = "retry_view (cd_name d)"
  have ok: "agrees (?v s)" "backoff_ok (fst (?v s))" "bo_current (fst (?v s)) = bo_initial (fst (?v s))"
    using Suc.prems by (auto simp: rested_def agrees_def)
  have cycle: "wp (worker_cycle P d adapters plan)
      (\<lambda>_ s'. rested (?v s')) (\<lambda>_ s'. agrees (?v s')) s'" if "?v s' = ?v s" for plan s'
    by (rule wp_mono [OF worker_cycle_view [OF that]]) (use ok in \<open>auto intro: cleared_rested\<close>)
  have watch: "wp (worker_watch P d watched) (\<lambda>w s'. wp (worker_follow n P d adapters w) (\<lambda>_ _. False)
      (\<lambda>_ s'. agrees (?v s')) s') (\<lambda>_ s'. agrees (?v s')) s'" if "rested (?v s')" for s'
    by (rule wp_mono [OF calm_wp [where name = "cd_name d", OF calm_parts(5) refl]])
      (use that Suc.IH in \<open>auto simp: rested_def\<close>)
  show ?case
    unfolding worker_follow.simps wp_bind wp_then wp_gets
    by (rule wp_mono [OF calm_wp [where name = "cd_name d", OF calm_parts(6) refl]])
      (auto intro!: wp_mono [OF cycle] watch simp: ok)
qed

lemma connected_agrees:
  assumes "agrees (retry_view (cd_name d) s)"
  shows "wp (connected n follow P d) (\<lambda>_ s'. rested (retry_view (cd_name d) s'))
     (\<lambda>_ s'. agrees (retry_view (cd_name d) s')) s"
proof -
  let ?v = "retry_view (cd_name d)"
  have reset: "rested (?v (s'\<lparr>wk_backoff := backoff_reset (wk_backoff s')\<rparr>))"
    if "fst (?v s') = fst (?v s)" "cleared (?v s')" for s'
    using that assms
    by (intro cleared_rested) (auto simp: retry_view_def agrees_def backoff_reset_def backoff_ok_def
        cleared_def)
  have tail: "wp (if follow then bindP (worker_watch P d None)
        (\<lambda>watched. worker_follow n P d adapters watched) else returnP ())
      (\<lambda>_ s'. rested (?v s')) (\<lambda>_ s'. agrees (?v s')) s'" if "rested (?v s')" for s' adapters
  proof (cases follow)
    case True
    have "wp (worker_watch P d None) (\<lambda>w s'. wp (worker_follow n P d adapters w)
        (\<lambda>_ s'. rested (?v s')) (\<lambda>_ s'. agrees (?v s')) s') (\<lambda>_ s'. agrees (?v s')) s'"
      by (rule wp_mono [OF calm_wp [where name = "cd_name d", OF calm_parts(5) refl]])
        (use that in \<open>auto simp: rested_def intro!: wp_mono [OF worker_follow_agrees]\<close>)
    with True show ?thesis by (simp add: wp_bind)
  qed (use that in \<open>simp add: wp_return\<close>)
  have cycle: "wp (worker_cycle P d adapters plan)
      (\<lambda>_ s'. wp (if follow then bindP (worker_watch P d None)
          (\<lambda>watched. worker_follow n P d adapters watched) else returnP ())
        (\<lambda>_ s'. rested (?v s')) (\<lambda>_ s'. agrees (?v s'))
        (s'\<lparr>wk_backoff := backoff_reset (wk_backoff s')\<rparr>))
      (\<lambda>_ s'. agrees (?v s')) s'" if "?v s' = ?v s" for plan adapters s'
  proof (rule wp_mono [OF worker_cycle_view [OF that]])
    fix x :: unit and s'' :: "'a worker_state" assume "fst (?v s'') = fst (?v s) \<and> cleared (?v s'')"
    then show "wp (if follow then bindP (worker_watch P d None)
          (\<lambda>watched. worker_follow n P d adapters watched) else returnP ())
        (\<lambda>_ s'. rested (?v s')) (\<lambda>_ s'. agrees (?v s'))
        (s''\<lparr>wk_backoff := backoff_reset (wk_backoff s'')\<rparr>)"
      by (intro tail reset) simp_all
  qed (use assms in simp)
  show ?thesis
    unfolding connected_def wp_bind wp_then wp_modify
    by (rule wp_mono [OF calm_wp [where name = "cd_name d", OF calm_parts(7) refl]])
      (use assms in \<open>simp_all add: cycle\<close>)
qed

lemma worker_connect_agrees:
  assumes "agrees (retry_view (cd_name d) s)"
  shows "wp (worker_connect n follow P d) (\<lambda>_ s'. rested (retry_view (cd_name d) s'))
     (\<lambda>_ s'. agrees (retry_view (cd_name d) s')) s"
proof -
  let ?v = "retry_view (cd_name d)"
  have session: "wp (in_session P ep (connected n follow P d)) (\<lambda>_ s'. rested (?v s'))
      (\<lambda>_ s'. agrees (?v s')) s'" if "agrees (?v s')" for ep s'
  proof -
    obtain r s'' where opened: "worker_port (wp_open P ep) s' = (r, s'')" by fastforce
    then have v: "?v s'' = ?v s'" by (auto simp: worker_port_def split: prod.splits)
    obtain r' s3 where run: "connected n follow P d s'' = (r', s3)" by fastforce
    obtain c s4 where closed: "worker_port (wp_close P) s3 = (c, s4)" by fastforce
    then have "?v s4 = ?v s3" by (auto simp: worker_port_def split: prod.splits)
    with connected_agrees [of d s'' n follow P] run that v show ?thesis
      by (auto simp: wp_def in_session_def thenP_def bindP_def opened run closed rested_def
          split: sum.splits)
  qed
  show ?thesis
    unfolding worker_connect_def wp_bind
    by (rule wp_mono [OF calm_wp [OF calm_endpoint refl]]) (use assms in \<open>simp_all add: session\<close>)
qed

lemma retry_later_agrees:
  assumes "agrees (retry_view (cd_name d) s)"
  shows "wp (retry_later P d) (\<lambda>_ s'. agrees (retry_view (cd_name d) s'))
     (\<lambda>_ s'. agrees (retry_view (cd_name d) s')) s"
proof -
  let ?b = "wk_backoff s" and ?b' = "snd (next_delay (wk_backoff s))"
  have ok: "backoff_ok ?b" using assms by (simp add: agrees_def retry_view_def)
  then have ok': "backoff_ok ?b'" by (rule next_delay_ok)
  have "agrees (?b', map_option (health_view (cd_name d))
      (note_cycle_failure (cd_name d) (Some (bo_current ?b)) (wk_health s)))"
  proof (cases "wk_health s")
    case (Some h)
    obtain k r where view: "health_view (cd_name d) h = (k, r)" by fastforce
    with assms Some have cur: "bo_current ?b = min (bo_initial ?b * 2 ^ k) (bo_maximum ?b)"
      by (simp add: agrees_def retry_view_def)
    have "min (bo_current ?b * 2) (bo_maximum ?b) = min (bo_initial ?b * 2 ^ (k + 1)) (bo_maximum ?b)"
      using ok double_min [of "bo_maximum ?b" "bo_initial ?b * 2 ^ k"] unfolding cur
      by (simp add: backoff_ok_def mult.assoc)
    with ok' cur show ?thesis
      by (simp add: Some agrees_def note_cycle_failure_def view next_delay_def)
  qed (use ok' in \<open>simp add: agrees_def note_cycle_failure_def\<close>)
  then show ?thesis
    unfolding retry_later_def trace_event_def with_health_def wp_simps
    by (intro wp_worker_portI) (simp_all add: retry_view_def next_delay_def)
qed

section \<open>What every step of a worker keeps\<close>

text \<open>The contract of a predicate that each kind of update of the worker's state respects.\<close>

locale worker_invariant =
  fixes d :: connector_descriptor and I :: "'w worker_state \<Rightarrow> bool"
  assumes world: "I s \<Longrightarrow> I (s\<lparr>wk_world := w\<rparr>)"
    and uris: "I s \<Longrightarrow> I (s\<lparr>wk_uris := u\<rparr>)"
    and backoff: "I s \<Longrightarrow> I (s\<lparr>wk_backoff := backoff_reset (wk_backoff s)\<rparr>)"
      "I s \<Longrightarrow> I (s\<lparr>wk_backoff := snd (next_delay (wk_backoff s))\<rparr>)"
    and health: "I s \<Longrightarrow> I (s\<lparr>wk_health := map_option f (wk_health s)\<rparr>)"
    and provisions: "I s \<Longrightarrow> I (s\<lparr>wk_trace := wk_trace s @ [WvProvision dg b n]\<rparr>)"
    and retries: "I s \<Longrightarrow> I (s\<lparr>wk_trace := wk_trace s @ [WvRetry r]\<rparr>)"
    and syncs: "preserves I (worker_sync d preset A)"
begin

lemma health_notes:
  "I s \<Longrightarrow> I (s\<lparr>wk_health := note_credentials n ok err (wk_health s)\<rparr>)"
  "I s \<Longrightarrow> I (s\<lparr>wk_health := note_cycle_success n now (wk_health s)\<rparr>)"
  "I s \<Longrightarrow> I (s\<lparr>wk_health := note_cycle_failure n retry (wk_health s)\<rparr>)"
  unfolding note_credentials_def note_cycle_success_def note_cycle_failure_def
  by (erule health)+

lemma cycle_success_keeps: "preserves I (cycle_success P d)"
  unfolding cycle_success_def
proof (rule preserves_modify)
  fix s assume "I s"
  then have "I (s\<lparr>wk_world := w, wk_health := note_cycle_success (cd_name d) now (wk_health s)\<rparr>)"
    for w now
    using health_notes(2) [OF world [OF \<open>I s\<close>, of w], of "cd_name d" now] by simp
  then show "I (case wk_health s of None \<Rightarrow> s | Some h \<Rightarrow>
      (case wp_clock P (wk_world s) of (now, w) \<Rightarrow>
        s\<lparr>wk_world := w, wk_health := note_cycle_success (cd_name d) now (Some h)\<rparr>))"
    using \<open>I s\<close> by (auto split: option.splits prod.splits)
qed

lemma worker_cycle_keeps: "preserves I (worker_cycle P d adapters plan)"
  unfolding worker_cycle_def worker_provision_def provision_content_def trace_event_def
  by (intro preserves_rules sync_presets_keeps syncs cycle_success_keeps world uris provisions)

lemma worker_watch_keeps: "preserves I (worker_watch P d watched)"
  unfolding worker_watch_def Let_def by (intro preserves_rules world)

lemma worker_follow_keeps: "preserves I (worker_follow n P d adapters watched)"
proof (induction n arbitrary: watched)
  case (Suc n)
  then show ?case
    unfolding worker_follow.simps worker_wait_def
    by (intro preserves_rules world worker_cycle_keeps worker_watch_keeps)
qed (simp add: preserves_basic)

lemma worker_connect_keeps: "preserves I (worker_connect n follow P d)"
proof -
  have "preserves I (resolve_endpoint P d)"
    unfolding resolve_endpoint_def with_health_def
    by (auto intro!: preserves_rules world health_notes split: worker_exc.splits)
  moreover have "preserves I (connected n follow P d)"
    unfolding connected_def load_adapters_def
    by (intro preserves_rules world worker_cycle_keeps worker_watch_keeps worker_follow_keeps backoff)
  ultimately show ?thesis
    unfolding worker_connect_def by (intro preserves_rules world)
qed

lemma serve_keeps: "preserves I (serve m n P d)"
proof (induction m)
  case (Suc m)
  have "preserves I (retry_later P d)"
    unfolding retry_later_def with_health_def trace_event_def
    by (intro preserves_rules world backoff health_notes retries)
  with Suc show ?case
    unfolding serve.simps
    by (intro preserves_then preserves_catch worker_connect_keeps) (auto split: if_splits)
qed (simp add: preserves_basic)

lemma run_once_keeps: "preserves I (run_once P d)"
  unfolding run_once_def with_health_def
  by (rule preserves_catch [OF preserves_then [OF worker_connect_keeps preserves_basic(1)]])
    (auto intro!: preserves_rules health_notes split: if_splits)

end

text \<open>A worker never changes the bounds of its backoff, nor drops its health record.\<close>

definition fixed_bounds :: "rat \<times> rat \<Rightarrow> 'w worker_state \<Rightarrow> bool" where
  "fixed_bounds b s \<longleftrightarrow>
     (bo_initial (wk_backoff s), bo_maximum (wk_backoff s)) = b \<and> wk_health s \<noteq> None"

interpretation bounds: worker_invariant d "fixed_bounds b"
  by unfold_locales
    (auto simp: fixed_bounds_def backoff_reset_def next_delay_def intro!: worker_sync_keeps)

lemma serve_agrees: "preserves (\<lambda>s. agrees (retry_view (cd_name d) s)) (serve m n P d)"
proof (induction m)
  case (Suc m)
  have connect: "preserves (\<lambda>s. agrees (retry_view (cd_name d) s)) (worker_connect n True P d)"
    by (rule preserves_if_wp, rule wp_mono [OF worker_connect_agrees]) (auto simp: rested_def)
  have retry: "preserves (\<lambda>s. agrees (retry_view (cd_name d) s)) (retry_later P d)"
    by (rule preserves_if_wp) (rule retry_later_agrees)
  show ?case
    unfolding serve.simps
    by (rule preserves_then [OF preserves_catch [OF connect] Suc]) (auto simp: retry split: if_splits)
qed (simp add: preserves_basic)


section \<open>A single cycle\<close>

lemma run_once_view:
  "wp (run_once P d)
     (\<lambda>ok s'. snd (retry_view (cd_name d) s') = None
        \<or> (\<exists>k. snd (retry_view (cd_name d) s') = Some (k, None) \<and> ok = (k = 0)))
     (\<lambda>e _. \<not> caught e) s"
proof -
  let ?v = "retry_view (cd_name d)"
  have cycle: "wp (connected 0 False P d) (\<lambda>_ s'. cleared (?v s')) (\<lambda>_ _. True) s'" for s'
  proof -
    have "wp (worker_cycle P d adapters plan) (\<lambda>_ s'. cleared (?v s')) (\<lambda>_ _. True) s''"
      for adapters plan s''
      by (rule wp_mono [OF worker_cycle_view [OF refl]]) simp_all
    then show ?thesis
      unfolding connected_def wp_bind wp_then wp_modify
      by (intro wp_mono [OF calm_wp [where name = "cd_name d", OF calm_parts(7) refl]])
        (auto simp: wp_return retry_view_def cleared_def elim!: wp_mono)
  qed
  have session: "wp (in_session P ep (connected 0 False P d)) (\<lambda>_ s'. cleared (?v s'))
      (\<lambda>_ _. True) s'" for ep s'
  proof -
    obtain r s'' where opened: "worker_port (wp_open P ep) s' = (r, s'')" by fastforce
    obtain r' s3 where run: "connected 0 False P d s'' = (r', s3)" by fastforce
    obtain c s4 where closed: "worker_port (wp_close P) s3 = (c, s4)" by fastforce
    then have "?v s4 = ?v s3" by (auto simp: worker_port_def split: prod.splits)
    with cycle [of s''] run show ?thesis
      by (auto simp: wp_def in_session_def thenP_def bindP_def opened run closed
          split: sum.splits)
  qed
  have failed: "wp (with_health (note_cycle_failure (cd_name d) None))
      (\<lambda>_ s'. snd (?v s') = None \<or> (\<exists>k. snd (?v s') = Some (k, None) \<and> k \<noteq> 0)) (\<lambda>_ _. False) s'"
    for s'
    by (cases "wk_health s'")
      (simp_all add: with_health_def wp_modify retry_view_def note_cycle_failure_def)
  have "wp (worker_connect 0 False P d) (\<lambda>_ s'. cleared (?v s')) (\<lambda>_ _. True) s"
    unfolding worker_connect_def wp_bind
    by (rule wp_mono [OF calm_wp [OF calm_endpoint refl]]) (simp_all add: session)
  then show ?thesis
    unfolding run_once_def wp_catch wp_then wp_return
    by (rule wp_mono)
      (auto simp: cleared_def wp_then wp_return intro!: wp_mono [OF failed] split: option.splits)
qed

text \<open>
  A single cycle answers whether it succeeded, and with health tracked the failure
  count agrees: it is zero exactly after a success and no retry is reported; only cancellation
  escapes, every other exception is turned into the answer.
\<close>

theorem run_once_reports:
  "case run_once P d (worker_new b (Some h) w) of (r, s') \<Rightarrow>
     (case r of
        Inl e \<Rightarrow> \<not> caught e
      | Inr ok \<Rightarrow> (case wk_health s' of
            None \<Rightarrow> False
          | Some h' \<Rightarrow> (ch_failures (health_of h' (cd_name d)) = 0) = ok
              \<and> ch_retry (health_of h' (cd_name d)) = None))"
proof -
  let ?start = "worker_new b (Some h) w"
  obtain r s' where run: "run_once P d ?start = (r, s')" by fastforce
  have "fixed_bounds (bo_initial b, bo_maximum b) (snd (run_once P d ?start))"
    using bounds.run_once_keeps [of "(bo_initial b, bo_maximum b)" P d]
    unfolding preserves_def by (auto simp: fixed_bounds_def worker_new_def)
  then obtain h' where "wk_health s' = Some h'" by (auto simp: run fixed_bounds_def)
  with run_once_view [of P d ?start] show ?thesis
    by (auto simp: wp_def run retry_view_def health_view_def split: sum.splits)
qed

section \<open>Every pass of a worker\<close>

text \<open>What one pass in a worker's trace has to be, for the target its descriptor configures.\<close>

definition pass_ok :: "'w itself \<Rightarrow> connector_descriptor \<Rightarrow> worker_event \<Rightarrow> bool" where
  "pass_ok w d ev \<longleftrightarrow>
     (case ev of
        WvSync preset evs r \<Rightarrow>
          length (pages_of evs) \<le> nat (cd_max_pages d)
          \<and> (\<exists>(A :: 'w runner_ports) t.
               target_configured (cd_name d) (cd_max_pages d) (cd_approval d) = Inr t
               \<and> pass_follows A t r evs)
          \<and> (case r of Inl _ \<Rightarrow> True | Inr oc \<Rightarrow> counts_agree oc evs
               \<and> (oc_exhausted oc \<or> oc_pages oc = nat (cd_max_pages d)))
      | _ \<Rightarrow> True)"

definition passes_ok :: "connector_descriptor \<Rightarrow> 'w worker_state \<Rightarrow> bool" where
  "passes_ok d s \<longleftrightarrow> list_all (pass_ok TYPE('w) d) (wk_trace s)"

lemma sync_pass:
  assumes "sync_stream A t (pass_start w) = (r, s')"
  shows "length (pages_of (rs_log s')) \<le> nat (tg_max_pages t)" "pass_follows A t r (rs_log s')"
    and "case r of Inl _ \<Rightarrow> True | Inr oc \<Rightarrow> counts_agree oc (rs_log s')
      \<and> (oc_exhausted oc \<or> oc_pages oc = nat (tg_max_pages t))"
  using sync_stream_follows [where P = A and ?t0.0 = t and w = w]
    sync_stream_counted [where P = A and ?t0.0 = t and w = w]
  by (simp_all add: assms)

lemma target_configured_max:
  "target_configured c m a = Inr t \<Longrightarrow> tg_max_pages t = m"
  by (auto simp: target_configured_def target_new_def result_iff)

lemma worker_sync_passes: "preserves (passes_ok d) (worker_sync d preset A)"
proof (rule preservesI)
  fix s :: "'a worker_state"
  assume ok: "passes_ok d s"
  show "passes_ok d (snd (worker_sync d preset A s))"
  proof (cases "target_configured (cd_name d) (cd_max_pages d) (cd_approval d)")
    case (Inl e)
    with ok show ?thesis by (simp add: worker_sync_def)
  next
    case (Inr t)
    obtain r s' where run: "sync_stream A t (pass_start (wk_world s)) = (r, s')" by fastforce
    have "pass_ok TYPE('a) d (WvSync preset (rs_log s') r)"
      using sync_pass [OF run] target_configured_max [OF Inr] Inr
      unfolding pass_ok_def by (auto split: sum.splits)
    with ok show ?thesis
      by (simp add: worker_sync_def Inr run passes_ok_def)
  qed
qed

interpretation passes: worker_invariant d "passes_ok d"
  by unfold_locales (simp_all add: passes_ok_def pass_ok_def worker_sync_passes)

text \<open>
  Every pass a worker makes, in its first cycle, on a change or on its schedule,
  across reconnections and whatever fails in between, follows the sync protocol for the target its
  descriptor configures, extracts at most the descriptor's pages, and reports what it did.
\<close>

theorem worker_passes_follow:
  "passes_ok d (snd (serve m n P d (worker_new b h w)))
   \<and> passes_ok d (snd (run_once P d (worker_new b h w)))"
proof -
  have "passes_ok d (worker_new b h w)" by (simp add: passes_ok_def worker_new_def)
  then show ?thesis
    using passes.serve_keeps [of d m n P] passes.run_once_keeps [of d P]
    unfolding preserves_def by blast
qed

end
