(* ===== verification/Runner_Supervisor.thy ===== *)
theory Runner_Supervisor
  imports Runner_Plans Runner_Health
begin

text \<open>
  The scheduler of \<^verbatim>\<open>runner/supervisor.py\<close>: one worker per registered connector, restarted when
  its descriptor changes. The registry's answers are given; a worker's own loop is the theory
  \<open>Runner_Worker\<close>, here it is only started and stopped.
\<close>

section \<open>The scheduler\<close>

datatype supervisor_event =
    WorkerStopped string
  | WorkerStarted string connector_descriptor

record supervisor =
  sv_running :: "(string, connector_descriptor) dict"
  sv_health :: "runner_health option"
  sv_log :: "supervisor_event list"

text \<open>An answer of the registry: its connectors, unreadable, or another exception.\<close>

datatype registry_answer =
    Registered "connector_descriptor list"
  | Unreadable
  | RegistryForeign string

definition wanted_of :: "connector_descriptor list \<Rightarrow> (string, connector_descriptor) dict" where
  "wanted_of ds = fold (\<lambda>d acc. dict_set (cd_name d) d acc) ds []"

definition to_stop ::
  "(string, connector_descriptor) dict \<Rightarrow> (string, connector_descriptor) dict \<Rightarrow> string list" where
  "to_stop running wanted =
     map fst (filter (\<lambda>(n, d). map_of wanted n \<noteq> Some d) running)"

definition stop_worker :: "string \<Rightarrow> supervisor \<Rightarrow> supervisor" where
  "stop_worker n s =
     s\<lparr>sv_running := filter (\<lambda>(k, _). k \<noteq> n) (sv_running s),
       sv_log := sv_log s @ [WorkerStopped n]\<rparr>"

definition start_worker :: "string \<times> connector_descriptor \<Rightarrow> supervisor \<Rightarrow> supervisor" where
  "start_worker nd s =
     (if fst nd \<in> fst ` set (sv_running s) then s
      else s\<lparr>sv_running := dict_set (fst nd) (snd nd) (sv_running s),
             sv_log := sv_log s @ [WorkerStarted (fst nd) (snd nd)]\<rparr>)"

definition reconcile_with :: "connector_descriptor list \<Rightarrow> supervisor \<Rightarrow> supervisor" where
  "reconcile_with registered s =
     (let wanted = wanted_of registered;
          s1 = s\<lparr>sv_health := note_registry_loaded (dict_keys wanted) (sv_health s)\<rparr>;
          s2 = fold stop_worker (to_stop (sv_running s1) wanted) s1
      in fold start_worker wanted s2)"

definition reconcile :: "registry_answer \<Rightarrow> supervisor \<Rightarrow> (string + unit) \<times> supervisor" where
  "reconcile answer s =
     (case answer of
        Unreadable \<Rightarrow> (Inr (), s)
      | RegistryForeign msg \<Rightarrow> (Inl msg, s)
      | Registered ds \<Rightarrow> (Inr (), reconcile_with ds s))"

text \<open>
  The endless loop on the answers it gets, each with the clock's reading after it: the heartbeat
  follows a reconciliation that returned, and an exception ends the loop.
\<close>

fun run_forever ::
  "(registry_answer \<times> rat) list \<Rightarrow> supervisor \<Rightarrow> (string + unit) \<times> supervisor" where
  "run_forever [] s = (Inr (), s)"
| "run_forever ((answer, now) # rest) s =
     (case reconcile answer s of
        (Inl e, s') \<Rightarrow> (Inl e, s')
      | (Inr _, s') \<Rightarrow> run_forever rest (s'\<lparr>sv_health := note_heartbeat now (sv_health s')\<rparr>))"

definition supervisor_new :: "runner_health option \<Rightarrow> supervisor" where
  "supervisor_new h = \<lparr>sv_running = [], sv_health = h, sv_log = []\<rparr>"

section \<open>What the log says\<close>

text \<open>The workers alive after a log; \<open>None\<close> when it stops a dead one or starts a live one.\<close>

fun alive_after ::
  "(string \<rightharpoonup> connector_descriptor) \<Rightarrow> supervisor_event list \<Rightarrow> (string \<rightharpoonup> connector_descriptor) option"
  where
  "alive_after m [] = Some m"
| "alive_after m (WorkerStopped n # evs) = (if m n = None then None else alive_after (m(n := None)) evs)"
| "alive_after m (WorkerStarted n d # evs) =
     (if m n \<noteq> None then None else alive_after (m(n \<mapsto> d)) evs)"

lemma alive_append:
  "alive_after m (evs @ evs') =
     (case alive_after m evs of None \<Rightarrow> None | Some m' \<Rightarrow> alive_after m' evs')"
  by (induction m evs rule: alive_after.induct) (simp_all del: fun_upd_apply)

definition log_agrees :: "supervisor \<Rightarrow> bool" where
  "log_agrees s \<longleftrightarrow> well_keyed (sv_running s) \<and> alive_after Map.empty (sv_log s) = Some (map_of (sv_running s))"

lemma map_of_without: "map_of (filter (\<lambda>(k, _). k \<noteq> n) d) = (map_of d)(n := None)"
  by (induction d) (auto simp: fun_eq_iff)

lemma well_keyed_filter: "well_keyed d \<Longrightarrow> well_keyed (filter p d)"
  by (auto simp: well_keyed_def distinct_map_filter)

lemma stop_worker_facts:
  assumes "log_agrees s" "n \<in> fst ` set (sv_running s)"
  shows "log_agrees (stop_worker n s)"
    and "map_of (sv_running (stop_worker n s)) = (map_of (sv_running s))(n := None)"
  using assms
  by (auto simp: log_agrees_def stop_worker_def alive_append map_of_without well_keyed_filter
      map_of_eq_None_iff)

lemma start_worker_facts:
  assumes "log_agrees s"
  shows "log_agrees (start_worker (n, d) s)"
    and "map_of (sv_running (start_worker (n, d) s)) =
      (map_of (sv_running s))(n \<mapsto> (case map_of (sv_running s) n of None \<Rightarrow> d | Some d' \<Rightarrow> d'))"
  using assms
  by (auto simp: log_agrees_def start_worker_def alive_append map_of_eq_None_iff fun_eq_iff
      split: option.splits) (metis domI dom_map_of_conv_image_fst option.simps(3))+

lemma stop_workers_facts:
  assumes "log_agrees s" "set ns \<subseteq> fst ` set (sv_running s)" "distinct ns"
  shows "log_agrees (fold stop_worker ns s)
    \<and> map_of (sv_running (fold stop_worker ns s)) = map_of (sv_running s) |` (- set ns)"
  using assms
proof (induction ns arbitrary: s)
  case (Cons n ns)
  note step = stop_worker_facts [OF Cons.prems(1), of n]
  have "fst ` set (sv_running (stop_worker n s)) = fst ` set (sv_running s) - {n}"
    by (auto simp: stop_worker_def image_iff)
  with Cons have "log_agrees (fold stop_worker ns (stop_worker n s))
      \<and> map_of (sv_running (fold stop_worker ns (stop_worker n s))) =
          map_of (sv_running (stop_worker n s)) |` (- set ns)"
    by (intro Cons.IH step) auto
  with step(2) Cons.prems(2) show ?case
    by (auto simp: fun_eq_iff restrict_map_def)
qed (simp add: restrict_map_def)

lemma start_workers_facts:
  assumes "log_agrees s"
  shows "log_agrees (fold start_worker nds s)
    \<and> map_of (sv_running (fold start_worker nds s)) = map_of nds ++ map_of (sv_running s)"
  using assms
proof (induction nds arbitrary: s)
  case (Cons nd nds)
  obtain n d where nd: "nd = (n, d)" by fastforce
  note step = start_worker_facts [OF Cons.prems, of n d]
  from Cons.IH [OF step(1)] step(2) show ?case
    by (auto simp: nd fun_eq_iff map_add_def split: option.splits)
qed simp

lemma wanted_keyed: "well_keyed (wanted_of ds)"
proof -
  have "well_keyed acc \<Longrightarrow> well_keyed (fold (\<lambda>d acc. dict_set (cd_name d) d acc) ds acc)" for acc
    by (induction ds arbitrary: acc) auto
  then show ?thesis by (simp add: wanted_of_def well_keyed_def)
qed

text \<open>
  A reconciliation leaves exactly the wanted workers; those it stopped or started are those whose
  descriptor is new, changed or gone.
\<close>

lemma reconcile_with_facts:
  assumes "log_agrees s"
  shows "log_agrees (reconcile_with ds s)"
    and "map_of (sv_running (reconcile_with ds s)) = map_of (wanted_of ds)"
proof -
  let ?wanted = "wanted_of ds"
  let ?s1 = "s\<lparr>sv_health := note_registry_loaded (dict_keys ?wanted) (sv_health s)\<rparr>"
  let ?stops = "to_stop (sv_running s) ?wanted"
  let ?s2 = "fold stop_worker ?stops ?s1"
  have keyed: "distinct (map fst (sv_running s))"
    using assms by (simp add: log_agrees_def well_keyed_def)
  have s1: "log_agrees ?s1" using assms by (simp add: log_agrees_def)
  have stops: "set ?stops = {n. \<exists>d. map_of (sv_running s) n = Some d \<and> map_of ?wanted n \<noteq> Some d}"
    using keyed by (force simp: to_stop_def)
  have s2: "log_agrees ?s2" "map_of (sv_running ?s2) = map_of (sv_running s) |` (- set ?stops)"
    using stop_workers_facts [OF s1, of ?stops] keyed
    by (auto simp: to_stop_def distinct_map_filter)
  have eq: "reconcile_with ds s = fold start_worker ?wanted ?s2"
    by (simp add: reconcile_with_def Let_def)
  show "log_agrees (reconcile_with ds s)"
    unfolding eq using start_workers_facts [OF s2(1)] by blast
  have "map_of ?wanted ++ (map_of (sv_running s) |` (- set ?stops)) = map_of ?wanted"
    by (auto simp: fun_eq_iff map_add_def restrict_map_def stops split: option.splits)
  then show "map_of (sv_running (reconcile_with ds s)) = map_of ?wanted"
    unfolding eq using start_workers_facts [OF s2(1)] s2(2) by simp
qed

text \<open>
  What the answers ask for by themselves: the last readable list, and whether some answer raised.
\<close>

fun last_wanted ::
  "(string \<rightharpoonup> connector_descriptor) \<Rightarrow> (registry_answer \<times> rat) list \<Rightarrow>
     (string \<rightharpoonup> connector_descriptor)" where
  "last_wanted m [] = m"
| "last_wanted m ((Registered ds, _) # rest) = last_wanted (map_of (wanted_of ds)) rest"
| "last_wanted m ((Unreadable, _) # rest) = last_wanted m rest"
| "last_wanted m ((RegistryForeign _, _) # rest) = m"

fun last_beat :: "rat \<Rightarrow> (registry_answer \<times> rat) list \<Rightarrow> rat" where
  "last_beat t [] = t"
| "last_beat t ((RegistryForeign _, _) # rest) = t"
| "last_beat t ((_, now) # rest) = last_beat now rest"

lemma reconcile_health:
  "sv_health (reconcile_with ds s) = note_registry_loaded (dict_keys (wanted_of ds)) (sv_health s)"
proof -
  have "sv_health (fold stop_worker ns s) = sv_health s" for ns s
    by (induction ns arbitrary: s) (simp_all add: stop_worker_def)
  moreover have "sv_health (fold start_worker nds s) = sv_health s" for nds s
    by (induction nds arbitrary: s) (simp_all add: start_worker_def)
  ultimately show ?thesis by (simp add: reconcile_with_def Let_def)
qed

lemma run_forever_facts:
  assumes "log_agrees s" "sv_health s = Some h"
  shows "log_agrees (snd (run_forever answers s))
    \<and> map_of (sv_running (snd (run_forever answers s))) = last_wanted (map_of (sv_running s)) answers
    \<and> map_option rh_heartbeat (sv_health (snd (run_forever answers s))) =
        Some (last_beat (rh_heartbeat h) answers)"
  using assms
proof (induction answers arbitrary: s h)
  case (Cons a rest)
  obtain answer now where a: "a = (answer, now)" by fastforce
  have beat: "log_agrees (s'\<lparr>sv_health := hh\<rparr>) = log_agrees s'" for s' hh
    by (simp add: log_agrees_def)
  show ?case
  proof (cases answer)
    case (Registered ds)
    note facts = reconcile_with_facts [OF Cons.prems(1), of ds]
    let ?s = "(reconcile_with ds s)\<lparr>sv_health := note_heartbeat now (sv_health (reconcile_with ds s))\<rparr>"
    have "log_agrees ?s" "map_of (sv_running ?s) = map_of (wanted_of ds)"
      using facts by (simp_all add: beat)
    moreover have "sv_health ?s =
        Some (heartbeat now (sync_registry (dict_keys (wanted_of ds)) h))"
      using Cons.prems(2) by (simp add: reconcile_health note_registry_loaded_def note_heartbeat_def)
    ultimately show ?thesis
      using Cons.IH [of ?s "heartbeat now (sync_registry (dict_keys (wanted_of ds)) h)"]
      by (simp add: a Registered reconcile_def) (simp add: heartbeat_def)
  next
    case Unreadable
    with Cons.IH [of "s\<lparr>sv_health := note_heartbeat now (sv_health s)\<rparr>" "heartbeat now h"] Cons.prems
    show ?thesis
      by (simp add: a reconcile_def beat note_heartbeat_def heartbeat_def)
  next
    case (RegistryForeign e)
    with Cons.prems show ?thesis by (simp add: a reconcile_def)
  qed
qed simp


end
