(* ===== verification/Ingest_Model.thy ===== *)
theory Ingest_Model
  imports Sync_Records Runner_Sync
begin

text \<open>
  The data of the knowledge-ingest facade: bindings and change sets (\<^verbatim>\<open>ingest/model.py\<close>), its
  exceptions (\<^verbatim>\<open>ingest/errors.py\<close>), the entities made of documents and media
  (\<^verbatim>\<open>ingest/records.py\<close>), and the generated request types the facade builds. Property values are
  JSON, and so are the optional texts, which are not checked before a request is built. Of an interpolated message only the literal text is kept.
\<close>

section \<open>Exceptions\<close>

text \<open>
  The first five are \<open>IngestError\<close> and its subclasses. \<open>IngestForeign\<close> is any other exception, by
  whether it is a \<^theory_text>\<open>RuntimeError\<close>, the name of its class and its text; \<open>IngestInterrupt\<close> is
  one that \<^theory_text>\<open>except Exception\<close> does not catch.
\<close>

datatype ingest_exc =
    IngestFailed string
  | IngestUnavailable string
  | IngestConflict string
  | ContractNotAccepted string
  | UndeclaredNested string
  | IngestForeign bool string string
  | IngestInterrupt

fun is_ingest_error :: "ingest_exc \<Rightarrow> bool" where
  "is_ingest_error (IngestForeign _ _ _) = False"
| "is_ingest_error IngestInterrupt = False"
| "is_ingest_error _ = True"

text \<open>Where \<^theory_text>\<open>str.splitlines\<close> breaks a text, and the head of what it gives.\<close>

definition line_break :: "char \<Rightarrow> bool" where
  "line_break c =
     (let n = (of_char c :: nat) in 10 \<le> n \<and> n \<le> 13 \<or> 28 \<le> n \<and> n \<le> 30 \<or> n = 133)"

definition message_limit :: nat where
  "message_limit = 300"

text \<open>\<open>_guard\<close>: any exception that is no \<open>IngestError\<close> becomes one.\<close>

fun guard_exc :: "ingest_exc \<Rightarrow> ingest_exc" where
  "guard_exc (IngestForeign runtime name txt) =
     IngestFailed (''epistemic-graph did not commit the change set: ''
       @ take message_limit (if txt = [] then name else takeWhile (\<lambda>c. \<not> line_break c) txt))"
| "guard_exc e = e"

lemma guard_exc_kind: "guard_exc e = IngestInterrupt \<longleftrightarrow> e = IngestInterrupt"
  "guard_exc e = IngestConflict m \<longleftrightarrow> e = IngestConflict m"
  by (cases e; simp)+

section \<open>Bindings and change sets\<close>

record nested_mapping =
  nm_node_type :: string
  nm_relationship :: string

record ingest_binding =
  ib_connector :: string
  ib_stream :: string
  ib_server :: string
  ib_tool :: string
  ib_document_type :: string
  ib_media_type :: string
  ib_strict :: bool
  ib_sanitize :: bool
  ib_citable :: "string set"
  ib_contract_iri :: string
  ib_contract_revision :: string
  ib_contract_digest :: string
  ib_cursor_policy :: string
  ib_nested :: "(string, nested_mapping) dict"

definition ingest_binding_new :: "ingest_binding \<Rightarrow> ingest_exc + ingest_binding" where
  "ingest_binding_new b =
     andR (refuse_if (list_ex blank
              [ib_connector b, ib_stream b, ib_tool b, ib_document_type b, ib_media_type b])
            (IngestForeign False ''ValueError'' ''ingest binding is required''))
    (if ib_contract_iri b = [] then Inr b
     else andR (refuse_if (ib_contract_iri b \<noteq> ''contract:'' @ ib_connector b)
                (IngestForeign False ''ValueError'' ''contract_iri must be contract:<connector>''))
         (andR (refuse_if (ib_contract_digest b = [])
                (IngestForeign False ''ValueError'' ''a contract binding needs its contract_digest''))
           (Inr b)))"

definition ib_mapping_reference :: "ingest_binding \<Rightarrow> string \<Rightarrow> string" where
  "ib_mapping_reference b node_type =
     (if ib_contract_iri b \<noteq> [] then ib_contract_iri b @ ''#'' @ node_type
      else ''connector:'' @ ib_connector b @ ''#mappings/'' @ node_type)"

definition ib_server_name :: "ingest_binding \<Rightarrow> string" where
  "ib_server_name b = (if ib_server b \<noteq> [] then ib_server b else ib_connector b)"

definition adapter_kind :: string where
  "adapter_kind = ''connector_push''"

definition identity_digest :: "pyenv \<Rightarrow> ingest_binding \<Rightarrow> string" where
  "identity_digest py b =
     digest (py_sha256 py) (py_float_repr py)
       (JObj [(''adapter_kind'', JStr adapter_kind), (''connector'', JStr (ib_connector b)),
         (''server'', JStr (ib_server_name b)), (''tool'', JStr (ib_tool b))])"

record ingest_entity =
  iy_id :: string
  iy_node_type :: string
  iy_properties :: "(string, json) dict"
  iy_updated_at :: json
  iy_source_uri :: json

record ingest_edge = relationship +
  rl_properties :: "(string, json) dict option"

record document =
  do_id :: string
  do_text :: string
  do_title :: json
  do_source_uri :: json
  do_properties :: "(string, json) dict"
  do_updated_at :: json

record media_asset =
  ma_data :: string
  ma_mime_type :: string
  ma_id :: "string option"
  ma_name :: string
  ma_properties :: "(string, json) dict"

record withdrawal =
  wd_id :: string
  wd_reason :: string

record ingest_set =
  ic_entities :: "ingest_entity list"
  ic_documents :: "document list"
  ic_relationships :: "ingest_edge list"
  ic_media :: "media_asset list"
  ic_withdrawals :: "withdrawal list"
  ic_mode :: ingestion_mode
  ic_live_ids :: "string list option"
  ic_approval :: "string option"
  ic_cursor :: "string option"
  ic_preserve :: bool
  ic_source_page :: bool

text \<open>The defaults of the class.\<close>

definition no_changes :: ingest_set where
  "no_changes =
     \<lparr>ic_entities = [], ic_documents = [], ic_relationships = [], ic_media = [],
       ic_withdrawals = [], ic_mode = DeltaMode, ic_live_ids = None, ic_approval = None,
       ic_cursor = None, ic_preserve = False, ic_source_page = False\<rparr>"

definition ingest_set_new :: "ingest_set \<Rightarrow> ingest_exc + ingest_set" where
  "ingest_set_new cs =
     andR (refuse_if (ic_preserve cs \<and> ic_cursor cs \<noteq> None)
            (IngestForeign False ''ValueError'' ''cannot set and preserve the cursor together''))
    (andR (refuse_if (ic_mode cs = ReconcileMode \<and> ic_live_ids cs = None)
            (IngestForeign False ''ValueError'' ''a reconcile change set needs its complete live_ids''))
    (andR (refuse_if (ic_mode cs \<noteq> ReconcileMode \<and> ic_live_ids cs \<notin> {None, Some []})
            (IngestForeign False ''ValueError'' ''live_ids apply only to a reconcile change set''))
      (Inr cs)))"

section \<open>Documents and media as entities\<close>

definition document_entity :: "pyenv \<Rightarrow> ingest_binding \<Rightarrow> document \<Rightarrow> ingest_exc + ingest_entity" where
  "document_entity py b d =
     andR (refuse_if (do_text d = []) (IngestFailed ''document has no text''))
       (Inr \<lparr>iy_id = do_id d, iy_node_type = ib_document_type b,
         iy_properties = dict_update (do_properties d)
           [(''text'', JStr (do_text d)), (''title'', do_title d),
            (''source_uri'', do_source_uri d),
            (''content_hash'', JStr (py_sha256 py (utf8 (do_text d))))],
         iy_updated_at = do_updated_at d, iy_source_uri = do_source_uri d\<rparr>)"

definition media_entity :: "ingest_binding \<Rightarrow> media_asset \<Rightarrow> string \<Rightarrow> ingest_entity" where
  "media_entity b a dg =
     \<lparr>iy_id = (case named (ma_id a) of None \<Rightarrow> ''blob:'' @ dg | Some i \<Rightarrow> i),
       iy_node_type = ib_media_type b,
       iy_properties = dict_update (ma_properties a)
         [(''blob_digest'', JStr dg), (''mime_type'', JStr (ma_mime_type a)),
          (''size_bytes'', JInt (int (length (ma_data a)))),
          (''name'', if ma_name a = [] then JNull else JStr (ma_name a))],
       iy_updated_at = JNull, iy_source_uri = JNull\<rparr>"

section \<open>The generated request\<close>

record src_provenance =
  pv_connector :: string
  pv_adapter_kind :: string
  pv_server :: string
  pv_tool :: string
  pv_schema_digest :: string
  pv_source_uri :: json

record src_ref =
  xr_stream :: string
  xr_record :: string

record src_record =
  xd_stream :: string
  xd_record_id :: string
  xd_mapping :: string
  xd_payload :: "(string, json) dict"
  xd_updated_at :: json
  xd_provenance :: src_provenance

record src_edge =
  xe_source :: src_ref
  xe_target :: src_ref
  xe_relation :: string
  xe_properties :: "(string, json) dict option"
  xe_provenance :: src_provenance

record src_checkpoint =
  xc_stream :: string
  xc_position :: json

record src_withdrawal =
  xw_entity :: src_ref
  xw_reason :: string

record src_request =
  xq_connector :: string
  xq_mode :: ingestion_mode
  xq_strict :: bool
  xq_records :: "src_record list"
  xq_relationships :: "src_edge list"
  xq_checkpoint :: src_checkpoint
  xq_previous :: "src_checkpoint option"
  xq_live_ids :: "src_ref list option"
  xq_approval :: "string option"
  xq_withdrawals :: "src_withdrawal list"

text \<open>
  Building a generated object validates it; \<open>ie_valid\<close> says which objects pass. \<open>ie_json_object\<close>
  is the validation of a JSON object, \<open>ie_guard\<close> the privacy guard of \<^verbatim>\<open>privacy.py\<close> for a set of
  citable fields, and \<open>ie_dump_record\<close> and \<open>ie_dump_edge\<close> the generated dumps.
\<close>

datatype generated =
    GenProvenance src_provenance
  | GenRef src_ref
  | GenRecord src_record
  | GenEdge src_edge
  | GenCheckpoint src_checkpoint
  | GenWithdrawal src_withdrawal
  | GenRequest src_request

record ingest_env = pyenv +
  ie_valid :: "generated \<Rightarrow> bool"
  ie_json_object :: "(string, json) dict \<Rightarrow> bool"
  ie_guard :: "string set \<Rightarrow> (string, json) dict \<Rightarrow> (string, json) dict"
  ie_dump_record :: "src_record \<Rightarrow> json"
  ie_dump_edge :: "src_edge \<Rightarrow> json"

definition validation_error :: ingest_exc where
  "validation_error = IngestForeign False ''ValidationError'' []"

definition validated :: "ingest_env \<Rightarrow> ('a \<Rightarrow> generated) \<Rightarrow> 'a \<Rightarrow> ingest_exc + 'a" where
  "validated E gen v = (if ie_valid E (gen v) then Inr v else Inl validation_error)"

lemma validated_Inr [result_iff]: "validated E gen v = Inr w \<longleftrightarrow> ie_valid E (gen v) \<and> w = v"
  by (auto simp: validated_def)

end
