(* ===== verification/Ingest_Mapping.thy ===== *)
theory Ingest_Mapping
  imports Ingest_Model
begin

text \<open>
  Declarative record mapping: \<^verbatim>\<open>ingest/mapping.py\<close> with the record readers of
  \<^verbatim>\<open>ingest/_mapping_records.py\<close>. A record is a JSON object. \<open>mi_compound\<close> is what the interpreter
  does with a template field that is no plain name (an attribute, an index, a conversion or a
  format), which the mappings of the SDK do not use.
\<close>

record map_env = pyenv +
  mi_compound :: "(string, json) dict \<Rightarrow> string \<Rightarrow> ingest_exc + string"

section \<open>Reading a record\<close>

definition empty_value :: "json \<Rightarrow> bool" where
  "empty_value v \<longleftrightarrow> v = JNull \<or> v = JStr []"

text \<open>\<open>read_field\<close> for text, which is what the module's own readers ask for.\<close>

definition read_text :: "(string, json) dict \<Rightarrow> string \<Rightarrow> bool \<Rightarrow> ingest_exc + string option" where
  "read_text r key required =
     (let v = get r key in
      if empty_value v then
        (if required then Inl (IngestFailed ''record is missing required field'') else Inr None)
      else case v of
        JInt i \<Rightarrow> Inr (Some (show_int i))
      | JStr s \<Rightarrow> Inr (Some s)
      | _ \<Rightarrow> Inl (IngestFailed ''record field must be a str''))"

definition required_text :: "(string, json) dict \<Rightarrow> string \<Rightarrow> ingest_exc + string" where
  "required_text r key = map_sum id the (read_text r key True)"

definition without :: "string set \<Rightarrow> (string, json) dict \<Rightarrow> (string, json) dict" where
  "without reserved r = filter (\<lambda>(k, _). k \<notin> reserved) r"

definition some_properties :: "(string, json) dict \<Rightarrow> (string, json) dict option" where
  "some_properties ps = (if ps = [] then None else Some ps)"

definition entity_from_record :: "(string, json) dict \<Rightarrow> ingest_exc + ingest_entity" where
  "entity_from_record r =
     bindR (required_text r ''id'') (\<lambda>i.
     bindR (required_text r ''node_type'') (\<lambda>t.
       Inr \<lparr>iy_id = i, iy_node_type = t, iy_properties = without {''id'', ''node_type''} r,
         iy_updated_at = JNull, iy_source_uri = JNull\<rparr>))"

definition relationship_from_record :: "(string, json) dict \<Rightarrow> ingest_exc + ingest_edge" where
  "relationship_from_record r =
     bindR (required_text r ''source'') (\<lambda>src.
     bindR (required_text r ''target'') (\<lambda>tgt.
     bindR (required_text r ''relationship'') (\<lambda>rel.
       Inr \<lparr>rl_source = EndId src, rl_target = EndId tgt, rl_relationship = rel,
         rl_properties = some_properties (without {''source'', ''target'', ''relationship''} r)\<rparr>)))"

definition document_from_record :: "(string, json) dict \<Rightarrow> ingest_exc + document" where
  "document_from_record r =
     bindR (required_text r ''id'') (\<lambda>i.
     bindR (required_text r ''text'') (\<lambda>t.
       Inr \<lparr>do_id = i, do_text = t, do_title = get r ''title'', do_source_uri = get r ''source_uri'',
         do_properties = without {''id'', ''text'', ''title'', ''source_uri'', ''updated_at''} r,
         do_updated_at = get r ''updated_at''\<rparr>))"

text \<open>\<open>records_of\<close>, \<open>ext_id\<close> and \<open>slug\<close>.\<close>

definition objects_in :: "json list \<Rightarrow> (string, json) dict list" where
  "objects_in xs = List.map_filter (\<lambda>x. case x of JObj kvs \<Rightarrow> Some kvs | _ \<Rightarrow> None) xs"

definition records_of :: "json \<Rightarrow> string \<Rightarrow> (string, json) dict list" where
  "records_of v key =
     (case (case v of JObj kvs \<Rightarrow> get kvs key | _ \<Rightarrow> v) of
        JArr xs \<Rightarrow> objects_in xs
      | _ \<Rightarrow> [])"

fun ext_id :: "pyenv \<Rightarrow> (string, json) dict \<Rightarrow> string list \<Rightarrow> string option" where
  "ext_id py r [] = None"
| "ext_id py r (k # ks) =
     (if empty_value (get r k) then ext_id py r ks else Some (py_str py (get r k)))"

definition slug_char :: "char \<Rightarrow> bool" where
  "slug_char c = (let n = (of_char c :: nat) in 97 \<le> n \<and> n \<le> 122 \<or> 48 \<le> n \<and> n \<le> 57)"

fun slug_words :: "string \<Rightarrow> string list" where
  "slug_words [] = [[]]"
| "slug_words (c # cs) =
     (if slug_char c then (case slug_words cs of w # ws \<Rightarrow> (c # w) # ws | [] \<Rightarrow> [[c]])
      else [] # slug_words cs)"

definition slug :: "pyenv \<Rightarrow> json \<Rightarrow> string \<Rightarrow> string" where
  "slug py v fallback =
     (let txt = map ascii_lower (if truthy v then py_str py v else []);
          s = join_with ''-'' (filter (\<lambda>w. w \<noteq> []) (slug_words txt))
      in if s = [] then fallback else s)"

section \<open>What a mapper produced\<close>

record mapped =
  md_entities :: "ingest_entity list"
  md_relationships :: "ingest_edge list"
  md_documents :: "document list"
  md_seen :: "string set"

definition mapped_new :: mapped where
  "mapped_new = \<lparr>md_entities = [], md_relationships = [], md_documents = [], md_seen = {}\<rparr>"

text \<open>
  Properties are keyword arguments: one named like a parameter of the method is a
  \<^theory_text>\<open>TypeError\<close>.
\<close>

definition keyword_clash :: "string set \<Rightarrow> (string, json) dict \<Rightarrow> ingest_exc + unit" where
  "keyword_clash params ps =
     refuse_if (\<not> list_all (\<lambda>(k, _). k \<notin> params) ps)
       (IngestForeign False ''TypeError'' ''got multiple values for argument'')"

definition mapped_entity ::
  "string \<Rightarrow> string \<Rightarrow> (string, json) dict \<Rightarrow> mapped \<Rightarrow> ingest_exc + mapped" where
  "mapped_entity i t ps m =
     andR (keyword_clash {''self'', ''id'', ''node_type''} ps)
     (Inr (if i \<in> md_seen m then m
       else m\<lparr>md_seen := insert i (md_seen m),
              md_entities := md_entities m @ [\<lparr>iy_id = i, iy_node_type = t, iy_properties = ps,
                iy_updated_at = JNull, iy_source_uri = JNull\<rparr>]\<rparr>))"

definition mapped_edge ::
  "string \<Rightarrow> string \<Rightarrow> string \<Rightarrow> (string, json) dict \<Rightarrow> mapped \<Rightarrow> ingest_exc + mapped" where
  "mapped_edge src tgt rel ps m =
     andR (keyword_clash {''self'', ''source'', ''target'', ''relationship''} ps)
     (Inr (m\<lparr>md_relationships := md_relationships m @
        [\<lparr>rl_source = EndId src, rl_target = EndId tgt, rl_relationship = rel,
          rl_properties = some_properties ps\<rparr>]\<rparr>))"

definition mapped_document ::
  "string \<Rightarrow> string \<Rightarrow> json \<Rightarrow> json \<Rightarrow> (string, json) dict \<Rightarrow> mapped \<Rightarrow> ingest_exc + mapped" where
  "mapped_document i txt title uri ps m =
     andR (keyword_clash {''self'', ''id'', ''text''} ps)
     (Inr (m\<lparr>md_documents := md_documents m @
        [\<lparr>do_id = i, do_text = txt, do_title = title, do_source_uri = uri, do_properties = ps,
          do_updated_at = JNull\<rparr>]\<rparr>))"

fun foldR :: "('a \<Rightarrow> 'b \<Rightarrow> 'e + 'b) \<Rightarrow> 'a list \<Rightarrow> 'b \<Rightarrow> 'e + 'b" where
  "foldR f [] acc = Inr acc"
| "foldR f (x # xs) acc = bindR (f x acc) (foldR f xs)"

text \<open>A loop that keeps an invariant at every step keeps it to its end.\<close>

lemma foldR_invariant:
  assumes "foldR f xs acc = Inr acc'" "P acc"
    and "\<And>x a a'. x \<in> set xs \<Longrightarrow> P a \<Longrightarrow> f x a = Inr a' \<Longrightarrow> P a'"
  shows "P acc'"
  using assms
proof (induction xs arbitrary: acc)
  case (Cons x xs)
  then obtain a where "f x acc = Inr a" "foldR f xs a = Inr acc'"
    by (auto simp: bindR_Inr)
  with Cons show ?case by (metis list.set_intros)
qed simp

definition mapped_extend :: "mapped \<Rightarrow> mapped \<Rightarrow> ingest_exc + mapped" where
  "mapped_extend other m =
     bindR (foldR (\<lambda>e. mapped_entity (iy_id e) (iy_node_type e) (iy_properties e)) (md_entities other) m)
       (\<lambda>m'. Inr (m'\<lparr>md_relationships := md_relationships m' @ md_relationships other,
                     md_documents := md_documents m' @ md_documents other\<rparr>))"

section \<open>Record maps\<close>

record edge_map =
  em_relationship :: string
  em_target_field :: string
  em_target_template :: string
  em_target_type :: "string option"
  em_target_fields :: "(string, string) dict"
  em_properties :: "(string, json) dict"

record record_map =
  rp_node_type :: string
  rp_id_template :: string
  rp_id_keys :: "string list"
  rp_fields :: "(string, string) dict"
  rp_external_id :: "string option"
  rp_constants :: "(string, json) dict"
  rp_edges :: "edge_map list"
  rp_strict :: bool

definition dig_key :: "(string, json) dict \<Rightarrow> string \<Rightarrow> json" where
  "dig_key r key = dig (JObj r) (py_split CHR ''.'' key)"

text \<open>\<^theory_text>\<open>str.format_map\<close>.\<close>

definition template_field :: "map_env \<Rightarrow> (string, json) dict \<Rightarrow> string \<Rightarrow> ingest_exc + string" where
  "template_field M r name =
     (if list_all (\<lambda>c. digit_value c \<noteq> None) name then
        Inl (IngestForeign False ''ValueError'' ''Format string contains positional fields'')
      else if list_ex (\<lambda>c. c \<in> set ''.[!:'') name then mi_compound M r name
      else case map_of r name of
        None \<Rightarrow> Inl (IngestForeign False ''KeyError'' name)
      | Some v \<Rightarrow> Inr (py_str (pyenv.truncate M) v))"

fun format_template ::
  "(string \<Rightarrow> ingest_exc + string) \<Rightarrow> string option \<Rightarrow> string \<Rightarrow> ingest_exc + string" where
  "format_template look None [] = Inr []"
| "format_template look (Some name) [] =
     Inl (IngestForeign False ''ValueError'' ''expected '}' before end of string'')"
| "format_template look None (c # cs) =
     (if c = CHR ''{'' then
        (if take 1 cs = ''{'' then map_sum id (\<lambda>r. c # r) (format_template look None (drop 1 cs))
         else format_template look (Some []) cs)
      else if c = CHR ''}'' then
        (if take 1 cs = ''}'' then map_sum id (\<lambda>r. c # r) (format_template look None (drop 1 cs))
         else Inl (IngestForeign False ''ValueError'' ''Single '}' encountered in format string''))
      else map_sum id (\<lambda>r. c # r) (format_template look None cs))"
| "format_template look (Some name) (c # cs) =
     (if c = CHR ''}'' then
        bindR (look name) (\<lambda>t. map_sum id (\<lambda>r. t @ r) (format_template look None cs))
      else format_template look (Some (name @ [c])) cs)"

definition format_map :: "map_env \<Rightarrow> string \<Rightarrow> (string, json) dict \<Rightarrow> ingest_exc + string" where
  "format_map M template r = format_template (template_field M r) None template"

definition dig_fields :: "(string, json) dict \<Rightarrow> (string, string) dict \<Rightarrow> (string, json) dict" where
  "dig_fields r fs = map (\<lambda>(name, key). (name, dig_key r key)) fs"

definition edge_apply ::
  "map_env \<Rightarrow> (string, json) dict \<Rightarrow> (string, json) dict \<Rightarrow> string \<Rightarrow> edge_map \<Rightarrow> mapped \<Rightarrow>
     ingest_exc + mapped" where
  "edge_apply M r ctx node_id e m =
     (let target = get r (em_target_field e) in
      if empty_value target then Inr m
      else bindR (format_map M (em_target_template e) (dict_set (em_target_field e) target ctx))
        (\<lambda>target_id.
         bindR (case em_target_type e of
                  None \<Rightarrow> Inr m
                | Some t \<Rightarrow> mapped_entity target_id t (dig_fields r (em_target_fields e)) m)
           (mapped_edge node_id target_id (em_relationship e) (em_properties e))))"

definition record_apply ::
  "map_env \<Rightarrow> record_map \<Rightarrow> (string, json) dict \<Rightarrow> mapped \<Rightarrow> ingest_exc + mapped" where
  "record_apply M P r m =
     (case ext_id (pyenv.truncate M) r (rp_id_keys P) of
        None \<Rightarrow>
          (if rp_strict P then Inl (IngestFailed ''record has none of its id keys'') else Inr m)
      | Some source_id \<Rightarrow>
          (let ctx = dict_set ''_id'' (JStr source_id) r in
           bindR (format_map M (rp_id_template P) ctx) (\<lambda>node_id.
           let props = dict_update (dig_fields r (rp_fields P)) (rp_constants P);
               props' = (case rp_external_id P of
                  None \<Rightarrow> props
                | Some key \<Rightarrow> dict_set ''externalToolId''
                    (JStr (py_str (pyenv.truncate M)
                       (if truthy (dig_key r key) then dig_key r key else JStr source_id))) props)
           in bindR (mapped_entity node_id (rp_node_type P) props' m)
                (foldR (edge_apply M r ctx node_id) (rp_edges P)))))"

type_synonym mapper = "(string, json) dict list \<Rightarrow> ingest_exc + mapped"

definition record_mapper :: "map_env \<Rightarrow> record_map \<Rightarrow> mapper" where
  "record_mapper M P records = foldR (record_apply M P) records mapped_new"

datatype mapping = OneMapper mapper | Mappers "mapper list"

definition apply_mapper :: "mapping \<Rightarrow> (string, json) dict list \<Rightarrow> ingest_exc + mapped" where
  "apply_mapper mp records =
     (case mp of
        OneMapper f \<Rightarrow> f records
      | Mappers fs \<Rightarrow> foldR (\<lambda>f m. bindR (f records) (\<lambda>each. mapped_extend each m)) fs mapped_new)"

section \<open>Every mapped edge has its source\<close>

text \<open>
  Entity identifiers are those that were seen, each once; an edge starts at one of them, and so
  ends if its map emits the target.
\<close>

definition mapped_ids :: "mapped \<Rightarrow> string list" where
  "mapped_ids m = map iy_id (md_entities m)"

definition well_mapped :: "mapped \<Rightarrow> bool" where
  "well_mapped m \<longleftrightarrow>
     distinct (mapped_ids m) \<and> md_seen m = set (mapped_ids m)
     \<and> (\<forall>r \<in> set (md_relationships m). \<exists>i \<in> md_seen m. rl_source r = EndId i)"

lemma well_mapped_new: "well_mapped mapped_new"
  by (simp add: well_mapped_def mapped_new_def mapped_ids_def)

lemma keyword_clash_Inr [result_iff]:
  "keyword_clash params ps = Inr u \<longleftrightarrow> list_all (\<lambda>(k, _). k \<notin> params) ps"
  by (auto simp: keyword_clash_def result_iff)

text \<open>Entities only grow, and the identifier is in them afterwards.\<close>

definition grows :: "mapped \<Rightarrow> mapped \<Rightarrow> bool" where
  "grows m m' \<longleftrightarrow> (\<exists>es. md_entities m' = md_entities m @ es) \<and> md_seen m \<subseteq> md_seen m'"

lemma grows_refl [simp]: "grows m m"
  by (simp add: grows_def)

lemma grows_trans: "grows m m' \<Longrightarrow> grows m' m'' \<Longrightarrow> grows m m''"
  by (auto simp: grows_def)

lemma mapped_entity_well:
  assumes "mapped_entity i t ps m = Inr m'" "well_mapped m"
  shows "well_mapped m'" and "grows m m'" and "i \<in> md_seen m'"
  using assms by (auto simp: mapped_entity_def result_iff well_mapped_def mapped_ids_def grows_def)

lemma mapped_edge_well:
  assumes "mapped_edge src tgt rel ps m = Inr m'" "well_mapped m" "src \<in> md_seen m"
  shows "well_mapped m'" and "grows m m'"
  using assms by (fastforce simp: mapped_edge_def result_iff well_mapped_def mapped_ids_def grows_def)+

lemma edge_apply_well:
  assumes "edge_apply M r ctx node_id e m = Inr m'" "well_mapped m" "node_id \<in> md_seen m"
  shows "well_mapped m' \<and> node_id \<in> md_seen m' \<and> grows m m'"
proof (cases "empty_value (get r (em_target_field e))")
  case True
  with assms show ?thesis by (simp add: edge_apply_def)
next
  case False
  then obtain target_id m1 where
    m1: "(case em_target_type e of None \<Rightarrow> Inr m
          | Some t \<Rightarrow> mapped_entity target_id t (dig_fields r (em_target_fields e)) m) = Inr m1"
    and m': "mapped_edge node_id target_id (em_relationship e) (em_properties e) m1 = Inr m'"
    using assms(1) by (auto simp: edge_apply_def Let_def bindR_Inr)
  from m1 have "well_mapped m1 \<and> grows m m1"
    using assms(2) mapped_entity_well by (auto split: option.splits)
  with mapped_edge_well [OF m'] assms(3) show ?thesis
    by (metis grows_def grows_trans subsetD)
qed

lemma record_apply_well:
  assumes "record_apply M P r m = Inr m'" "well_mapped m"
  shows "well_mapped m' \<and> grows m m'"
proof (cases "ext_id (pyenv.truncate M) r (rp_id_keys P)")
  case None
  with assms show ?thesis by (auto simp: record_apply_def split: if_splits)
next
  case (Some source_id)
  then obtain ctx node_id props m1 where
    m1: "mapped_entity node_id (rp_node_type P) props m = Inr m1"
    and m': "foldR (edge_apply M r ctx node_id) (rp_edges P) m1 = Inr m'"
    using assms(1) by (auto simp: record_apply_def Let_def bindR_Inr)
  have "well_mapped m' \<and> node_id \<in> md_seen m' \<and> grows m m'"
    by (rule foldR_invariant [OF m'])
      (use mapped_entity_well [OF m1 assms(2)] edge_apply_well grows_trans in blast)+
  then show ?thesis by simp
qed

lemma record_mapper_well: "record_mapper M P rs = Inr m \<Longrightarrow> well_mapped m"
  unfolding record_mapper_def
  by (erule foldR_invariant) (auto simp: well_mapped_new dest: record_apply_well)

end
