(* ===== verification/Ingest_Request.thy ===== *)
theory Ingest_Request
  imports Ingest_Model
begin

text \<open>
  \<open>build_request\<close> of \<^verbatim>\<open>ingest/request.py\<close>: one change set as one generated request that expects
  a given checkpoint, with the next checkpoint of \<^verbatim>\<open>ingest/_request_checkpoint.py\<close>.
\<close>

section \<open>Uniform resource names\<close>

definition unreserved :: "char \<Rightarrow> bool" where
  "unreserved c =
     (let n = (of_char c :: nat) in
      48 \<le> n \<and> n \<le> 57 \<or> 65 \<le> n \<and> n \<le> 90 \<or> 97 \<le> n \<and> n \<le> 122 \<or> n \<in> {45, 46, 95, 126})"

definition upper_hex :: "nat \<Rightarrow> char" where
  "upper_hex n = (if n < 10 then char_of (48 + n) else char_of (55 + n))"

text \<open>\<^theory_text>\<open>quote(part, safe="")\<close>: every other byte of the UTF-8 text is escaped.\<close>

definition quote_part :: "string \<Rightarrow> string" where
  "quote_part s = concat (map (\<lambda>c.
     if unreserved c then [c]
     else let n = (of_char c :: nat) in [CHR ''%'', upper_hex (n div 16), upper_hex (n mod 16)]) (utf8 s))"

definition ingest_uri :: "ingest_binding \<Rightarrow> string list \<Rightarrow> string" where
  "ingest_uri b parts =
     ''connector://'' @ quote_part (ib_connector b) @ ''/'' @ join_with ''/'' (map quote_part parts)"

section \<open>Records and relationships\<close>

definition json_object ::
  "ingest_env \<Rightarrow> ingest_binding \<Rightarrow> (string, json) dict \<Rightarrow> ingest_exc + (string, json) dict" where
  "json_object E b value =
     (let present = filter (\<lambda>(_, v). v \<noteq> JNull) value;
          kept = (if ib_sanitize b then ie_guard E (ib_citable b) present else present)
      in andR (refuse_if (\<not> ie_json_object E kept) (IngestFailed '' is not JSON data'')) (Inr kept))"

definition provenance_of ::
  "ingest_env \<Rightarrow> ingest_binding \<Rightarrow> json \<Rightarrow> ingest_exc + src_provenance" where
  "provenance_of E b uri =
     validated E GenProvenance
       \<lparr>pv_connector = ib_connector b, pv_adapter_kind = adapter_kind, pv_server = ib_server_name b,
         pv_tool = ib_tool b, pv_schema_digest = identity_digest (pyenv.truncate E) b,
         pv_source_uri = uri\<rparr>"

definition record_request ::
  "ingest_env \<Rightarrow> ingest_binding \<Rightarrow> ingest_entity \<Rightarrow> ingest_exc + src_record" where
  "record_request E b e =
     andR (refuse_if (iy_id e = [] \<or> iy_node_type e = [])
            (IngestFailed ''every entity needs an id and a node_type''))
    (let uri = (if truthy (iy_source_uri e) then iy_source_uri e
                else JStr (ingest_uri b [ib_stream b, iy_id e]))
     in bindR (json_object E b (iy_properties e)) (\<lambda>payload.
        bindR (provenance_of E b uri) (\<lambda>pv.
        validated E GenRecord
          \<lparr>xd_stream = ib_stream b, xd_record_id = iy_id e,
            xd_mapping = ib_mapping_reference b (iy_node_type e), xd_payload = payload,
            xd_updated_at = iy_updated_at e, xd_provenance = pv\<rparr>)))"

definition as_ref :: "endpoint \<Rightarrow> entity_ref" where
  "as_ref p = (case p of EndRef r \<Rightarrow> r
     | EndId i \<Rightarrow> \<lparr>er_id = i, er_node_type = None, er_stream = None\<rparr>)"

definition endpoint_request ::
  "ingest_env \<Rightarrow> ingest_binding \<Rightarrow> (string \<rightharpoonup> string) \<Rightarrow> endpoint \<Rightarrow>
     ingest_exc + src_ref \<times> string option" where
  "endpoint_request E b types p =
     (let r = as_ref p;
          node_type = (case named (er_node_type r) of None \<Rightarrow> types (er_id r) | Some t \<Rightarrow> Some t)
      in bindR (validated E GenRef
                 \<lparr>xr_stream = (case named (er_stream r) of None \<Rightarrow> ib_stream b | Some t \<Rightarrow> t),
                   xr_record = er_id r\<rparr>)
           (\<lambda>q. Inr (q, node_type)))"

definition relationship_request ::
  "ingest_env \<Rightarrow> ingest_binding \<Rightarrow> (string \<rightharpoonup> string) \<Rightarrow> ingest_edge \<Rightarrow> ingest_exc + src_edge" where
  "relationship_request E b types r =
     bindR (endpoint_request E b types (rl_source r)) (\<lambda>(src, source_type).
     bindR (endpoint_request E b types (rl_target r)) (\<lambda>(tgt, _).
     case named source_type of
       None \<Rightarrow> Inl (IngestFailed ''relationship source has no node_type'')
     | Some t \<Rightarrow>
         bindR (case rl_properties r of
                  None \<Rightarrow> Inr None
                | Some ps \<Rightarrow> map_sum id Some (json_object E b ps)) (\<lambda>props.
         bindR (provenance_of E b (JStr (ingest_uri b
                 [xr_stream src, xr_record src, rl_relationship r, xr_record tgt]))) (\<lambda>pv.
         validated E GenEdge
           \<lparr>xe_source = src, xe_target = tgt,
             xe_relation = ''connector:'' @ ib_connector b @ ''#relations/'' @ t @ ''/'' @ rl_relationship r,
             xe_properties = props, xe_provenance = pv\<rparr>))))"

section \<open>Nested values\<close>

text \<open>
  One entity: the properties it keeps, the entities its nested values become and their edges.
\<close>

fun expand_properties ::
  "ingest_binding \<Rightarrow> ingest_entity \<Rightarrow> (string, json) dict \<Rightarrow>
     ingest_exc + (string, json) dict \<times> ingest_entity list \<times> ingest_edge list" where
  "expand_properties b e [] = Inr ([], [], [])"
| "expand_properties b e ((name, JObj value) # ps) =
     (case map_of (ib_nested b) (iy_node_type e @ ''.'' @ name) of
        None \<Rightarrow> Inl (UndeclaredNested (''undeclared_nested_value: '' @ iy_node_type e @ ''.'' @ name))
      | Some declared \<Rightarrow>
          bindR (expand_properties b e ps) (\<lambda>(kept, children, edges).
            let child = iy_id e @ ''/'' @ name in
            Inr (kept,
              \<lparr>iy_id = child, iy_node_type = nm_node_type declared, iy_properties = value,
                iy_updated_at = iy_updated_at e, iy_source_uri = iy_source_uri e\<rparr> # children,
              \<lparr>rl_source = EndId (iy_id e), rl_target = EndId child,
                rl_relationship = nm_relationship declared, rl_properties = None\<rparr> # edges)))"
| "expand_properties b e ((name, v) # ps) =
     bindR (expand_properties b e ps) (\<lambda>(kept, children, edges). Inr ((name, v) # kept, children, edges))"

fun expand_entities ::
  "ingest_binding \<Rightarrow> ingest_entity list \<Rightarrow> ingest_exc + ingest_entity list \<times> ingest_edge list" where
  "expand_entities b [] = Inr ([], [])"
| "expand_entities b (e # es) =
     bindR (expand_properties b e (iy_properties e)) (\<lambda>(kept, children, edges).
     bindR (expand_entities b es) (\<lambda>(es', edges').
       Inr (children @ e\<lparr>iy_properties := kept\<rparr> # es', edges @ edges')))"

definition expand_nested ::
  "ingest_binding \<Rightarrow> ingest_entity list \<Rightarrow> ingest_exc + ingest_entity list \<times> ingest_edge list" where
  "expand_nested b es = (if ib_contract_iri b = [] then Inr (es, []) else expand_entities b es)"

section \<open>The next checkpoint\<close>

definition prior_sequence :: "json option \<Rightarrow> ingest_exc + int" where
  "prior_sequence position =
     (case position of
        Some (JObj kvs) \<Rightarrow>
          (case map_of kvs ''sequence'' of
             None \<Rightarrow> Inr 0
           | Some (JInt n) \<Rightarrow>
               andR (refuse_if (n < 0)
                 (IngestFailed ''accepted checkpoint sequence must be a non-negative integer'')) (Inr n)
           | Some _ \<Rightarrow>
               Inl (IngestFailed ''accepted checkpoint sequence must be a non-negative integer''))
      | _ \<Rightarrow> Inr 0)"

definition position_cursor :: "string \<Rightarrow> json \<Rightarrow> ingest_exc + string option" where
  "position_cursor not_object position =
     (case position of
        JObj kvs \<Rightarrow>
          (case get kvs ''cursor'' of
             JNull \<Rightarrow> Inr None
           | JStr c \<Rightarrow> Inr (Some c)
           | _ \<Rightarrow> Inl (IngestFailed ''accepted checkpoint cursor must be a string''))
      | _ \<Rightarrow> Inl (IngestFailed not_object))"

definition preserved_cursor :: "json \<Rightarrow> ingest_exc + string option" where
  "preserved_cursor = position_cursor ''accepted checkpoint position must be an object''"

definition next_position :: "int \<Rightarrow> string \<Rightarrow> string option \<Rightarrow> string \<Rightarrow> json" where
  "next_position n batch cursor policy =
     JObj ([(''sequence'', JInt n), (''batch'', JStr batch)]
       @ (case cursor of None \<Rightarrow> [] | Some c \<Rightarrow> [(''cursor'', JStr c)])
       @ (if policy = [] then [] else [(''cursor_policy'', JStr policy)]))"

definition next_checkpoint ::
  "ingest_env \<Rightarrow> ingest_binding \<Rightarrow> src_checkpoint option \<Rightarrow> json list \<Rightarrow> string option \<Rightarrow> bool \<Rightarrow>
     ingest_exc + src_checkpoint" where
  "next_checkpoint E b previous content cursor preserve =
     bindR (prior_sequence (map_option xc_position previous)) (\<lambda>n.
     let batch = digest (py_sha256 E) (py_float_repr E) (JArr content) in
     bindR (case previous of
              Some p \<Rightarrow> if preserve then preserved_cursor (xc_position p) else Inr cursor
            | None \<Rightarrow> Inr cursor) (\<lambda>cursor'.
     validated E GenCheckpoint
       \<lparr>xc_stream = ib_stream b,
         xc_position = next_position (n + 1) batch cursor' (ib_cursor_policy b)\<rparr>))"

section \<open>The request\<close>

definition types_of :: "ingest_entity list \<Rightarrow> string \<rightharpoonup> string" where
  "types_of es = map_of (rev (map (\<lambda>e. (iy_id e, iy_node_type e)) es))"

definition preserves_cursor :: "ingest_set \<Rightarrow> bool" where
  "preserves_cursor cs \<longleftrightarrow> ic_preserve cs \<or> (ic_cursor cs = None \<and> \<not> ic_source_page cs)"

definition stream_refs :: "ingest_env \<Rightarrow> ingest_binding \<Rightarrow> string list \<Rightarrow> ingest_exc + src_ref list" where
  "stream_refs E b ids =
     mapR (\<lambda>i. validated E GenRef \<lparr>xr_stream = ib_stream b, xr_record = i\<rparr>) ids"

definition live_refs :: "ingest_env \<Rightarrow> ingest_binding \<Rightarrow> ingest_set \<Rightarrow> ingest_exc + src_ref list option" where
  "live_refs E b cs =
     (if ic_mode cs \<noteq> ReconcileMode then Inr None
      else map_sum id Some (stream_refs E b (case ic_live_ids cs of None \<Rightarrow> [] | Some ids \<Rightarrow> ids)))"

definition withdrawal_request ::
  "ingest_env \<Rightarrow> ingest_binding \<Rightarrow> withdrawal \<Rightarrow> ingest_exc + src_withdrawal" where
  "withdrawal_request E b w =
     bindR (validated E GenRef \<lparr>xr_stream = ib_stream b, xr_record = wd_id w\<rparr>) (\<lambda>r.
     validated E GenWithdrawal \<lparr>xw_entity = r, xw_reason = wd_reason w\<rparr>)"

text \<open>The part inside the handler of the validation errors.\<close>

definition assemble_request ::
  "ingest_env \<Rightarrow> ingest_binding \<Rightarrow> ingest_set \<Rightarrow> src_checkpoint option \<Rightarrow> ingest_entity list \<Rightarrow>
     ingest_edge list \<Rightarrow> ingest_exc + src_request" where
  "assemble_request E b cs previous es nested =
     bindR (mapR (record_request E b) es) (\<lambda>records.
     bindR (mapR (relationship_request E b (types_of es)) (ic_relationships cs @ nested)) (\<lambda>edges.
     bindR (next_checkpoint E b previous (map (ie_dump_record E) records @ map (ie_dump_edge E) edges)
              (ic_cursor cs) (preserves_cursor cs)) (\<lambda>ck.
     bindR (live_refs E b cs) (\<lambda>live.
     bindR (mapR (withdrawal_request E b) (ic_withdrawals cs)) (\<lambda>ws.
     validated E GenRequest
       \<lparr>xq_connector = ib_connector b, xq_mode = ic_mode cs, xq_strict = ib_strict b,
         xq_records = records, xq_relationships = edges, xq_checkpoint = ck,
         xq_previous = previous, xq_live_ids = live, xq_approval = ic_approval cs,
         xq_withdrawals = ws\<rparr>)))))"

definition as_contract_error :: "ingest_exc \<Rightarrow> ingest_exc" where
  "as_contract_error e =
     (if e = validation_error
      then IngestFailed ''change set violates the SourceIngest contract'' else e)"

definition build_request ::
  "ingest_env \<Rightarrow> ingest_binding \<Rightarrow> ingest_set \<Rightarrow> src_checkpoint option \<Rightarrow> ingest_entity list \<Rightarrow>
     ingest_exc + src_request" where
  "build_request E b cs previous extra =
     bindR (mapR (document_entity (pyenv.truncate E) b) (ic_documents cs)) (\<lambda>docs.
     bindR (expand_nested b (ic_entities cs @ docs @ extra)) (\<lambda>(es, nested).
       map_sum as_contract_error id (assemble_request E b cs previous es nested)))"

end
