(* ===== verification/Ingest_Service.thy ===== *)
theory Ingest_Service
  imports Ingest_Request
begin

text \<open>
  \<open>KnowledgeIngest\<close> of \<^verbatim>\<open>ingest/service.py\<close> with its helpers (\<^verbatim>\<open>ingest/_service_support.py\<close>), the
  contract check (\<^verbatim>\<open>ingest/contract.py\<close>), and the transport over the generated client
  (\<^verbatim>\<open>ingest/transport.py\<close>, \<^verbatim>\<open>ingest/channel.py\<close>). The transport is a record of ports on a world of
  any type; every call is logged with its answer. The per-stream lock makes a commit one run;
  the event loops and the synchronous entry point are not modelled.
\<close>

section \<open>Statuses, receipts and transports\<close>

record accepted_contract =
  ac_digest :: string
  ac_revision :: string

record src_status =
  st_connector :: string
  st_stream :: string
  st_accepted :: "src_checkpoint option"

record src_mapping =
  mp_pack_digest :: string
  mp_reference :: string
  mp_digest :: string

record src_receipt =
  re_id :: string
  re_batch_digest :: string
  re_accepted :: src_checkpoint
  re_mode :: ingestion_mode
  re_content_hash :: string
  re_affected :: nat
  re_relationships :: nat
  re_mappings :: "src_mapping list"

datatype ingest_event =
    IvContract "ingest_exc + accepted_contract option"
  | IvStatus "ingest_exc + src_status"
  | IvSubmit src_request "ingest_exc + src_receipt"
  | IvBlob string "ingest_exc + string"
  | IvCommit ingest_binding ingest_set "ingest_exc + src_receipt"
  | IvFetch "string option" "ingest_exc + (string, json) dict list \<times> json"

record 'w ingest_state =
  is_world :: 'w
  is_log :: "ingest_event list"

type_synonym ('w, 'a) ingest_port = "'w \<Rightarrow> (ingest_exc + 'a) \<times> 'w"
type_synonym ('w, 'a) ingest_prog = "('w ingest_state, ingest_exc, 'a) prog"

text \<open>
  \<open>it_contract\<close> is there when the transport is a \<open>ContractTransport\<close>.
\<close>

record 'w ingest_transport =
  it_submit :: "src_request \<Rightarrow> ('w, src_receipt) ingest_port"
  it_status :: "string \<Rightarrow> string \<Rightarrow> ('w, src_status) ingest_port"
  it_blob :: "string \<Rightarrow> ('w, string) ingest_port"
  it_contract :: "(string \<Rightarrow> ('w, accepted_contract option) ingest_port) option"

definition ingest_call ::
  "(ingest_exc + 'a \<Rightarrow> ingest_event) \<Rightarrow> ('w, 'a) ingest_port \<Rightarrow> ('w, 'a) ingest_prog" where
  "ingest_call ev p =
     (\<lambda>s. case p (is_world s) of (r, w) \<Rightarrow> (r, s\<lparr>is_world := w, is_log := is_log s @ [ev r]\<rparr>))"

definition log_ingest :: "ingest_event \<Rightarrow> ('w, unit) ingest_prog" where
  "log_ingest ev = modifyP (\<lambda>s. s\<lparr>is_log := is_log s @ [ev]\<rparr>)"

text \<open>\<open>_guard\<close> around a call.\<close>

definition guarded :: "('w, 'a) ingest_prog \<Rightarrow> ('w, 'a) ingest_prog" where
  "guarded m = catchP m (\<lambda>e. Some (raiseP (guard_exc e)))"

section \<open>The channel over the generated client\<close>

record 'w graph_client =
  gc_send :: "src_request \<Rightarrow> string \<Rightarrow> ('w, src_receipt) ingest_port"
  gc_status :: "string \<Rightarrow> string \<Rightarrow> ('w, src_status) ingest_port"
  gc_store :: "string \<Rightarrow> ('w, string) ingest_port"
  gc_head :: "string \<Rightarrow> string \<Rightarrow> ('w, accepted_contract option) ingest_port"

text \<open>The generated digests of a request and of a checkpoint.\<close>

record src_digests =
  dg_request :: "src_request \<Rightarrow> string"
  dg_checkpoint :: "src_checkpoint \<Rightarrow> string"

definition src_receipt_bound :: "src_digests \<Rightarrow> src_request \<Rightarrow> src_receipt \<Rightarrow> bool" where
  "src_receipt_bound D req rc \<longleftrightarrow>
     re_batch_digest rc = dg_request D req \<and> re_accepted rc = xq_checkpoint req
     \<and> re_mode rc = xq_mode req \<and> re_content_hash rc = dg_checkpoint D (xq_checkpoint req)"

definition validate_source_receipt ::
  "src_digests \<Rightarrow> src_request \<Rightarrow> src_receipt \<Rightarrow> ingest_exc + unit" where
  "validate_source_receipt D req rc =
     refuse_if (re_batch_digest rc \<noteq> dg_request D req \<or> re_accepted rc \<noteq> xq_checkpoint req
         \<or> re_mode rc \<noteq> xq_mode req \<or> re_content_hash rc \<noteq> dg_checkpoint D (xq_checkpoint req))
       (IngestForeign False ''ValueError'' ''SourceIngest receipt does not bind the request'')"

lemma validate_source_receipt_iff [result_iff]:
  "validate_source_receipt D req rc = Inr u \<longleftrightarrow> src_receipt_bound D req rc"
  by (auto simp: validate_source_receipt_def src_receipt_bound_def result_iff)

text \<open>
  The snapshot that \<open>submit\<close> takes of the request is the request itself: requests are values here.
\<close>

definition channel_submit ::
  "src_digests \<Rightarrow> 'w graph_client \<Rightarrow> src_request \<Rightarrow> ('w, src_receipt) ingest_port" where
  "channel_submit D G req w =
     (let dg = dg_request D req in
      case gc_send G req (''source-ingest:'' @ xq_connector req @ '':'' @ dg) w of
        (Inl e, w') \<Rightarrow> (Inl e, w')
      | (Inr rc, w') \<Rightarrow> (andR (validate_source_receipt D req rc) (Inr rc), w'))"

definition channel_status ::
  "'w graph_client \<Rightarrow> string \<Rightarrow> string \<Rightarrow> ('w, src_status) ingest_port" where
  "channel_status G connector stream w =
     (case gc_status G connector stream w of
        (Inl e, w') \<Rightarrow> (Inl e, w')
      | (Inr st, w') \<Rightarrow>
          (andR (refuse_if (st_connector st \<noteq> connector \<or> st_stream st \<noteq> stream)
             (IngestForeign False ''ValueError''
               ''SourceIngest status does not bind the requested stream''))
          (andR (refuse_if (case st_accepted st of None \<Rightarrow> False | Some ck \<Rightarrow> xc_stream ck \<noteq> stream)
             (IngestForeign False ''ValueError''
               ''SourceIngest checkpoint does not bind the requested stream''))
            (Inr st)), w'))"

text \<open>\<^theory_text>\<open>"CONFLICT" in str(exc).upper()\<close>: only the ASCII letters bear on it.\<close>

definition ascii_upper :: "char \<Rightarrow> char" where
  "ascii_upper c = (let n = (of_char c :: nat) in if 97 \<le> n \<and> n \<le> 122 then char_of (n - 32) else c)"

fun is_conflict :: "ingest_exc \<Rightarrow> bool" where
  "is_conflict (IngestForeign runtime name txt) = (runtime \<and> occurs_in ''CONFLICT'' (map ascii_upper txt))"
| "is_conflict IngestInterrupt = False"
| "is_conflict (IngestFailed txt) = occurs_in ''CONFLICT'' (map ascii_upper txt)"
| "is_conflict (IngestUnavailable txt) = occurs_in ''CONFLICT'' (map ascii_upper txt)"
| "is_conflict (IngestConflict txt) = occurs_in ''CONFLICT'' (map ascii_upper txt)"
| "is_conflict (ContractNotAccepted txt) = occurs_in ''CONFLICT'' (map ascii_upper txt)"
| "is_conflict (UndeclaredNested txt) = occurs_in ''CONFLICT'' (map ascii_upper txt)"

definition transport_submit ::
  "src_digests \<Rightarrow> 'w graph_client \<Rightarrow> src_request \<Rightarrow> ('w, src_receipt) ingest_port" where
  "transport_submit D G req w =
     (case channel_submit D G req w of
        (Inl e, w') \<Rightarrow>
          (Inl (if is_conflict e then IngestConflict ''the stream checkpoint moved'' else e), w')
      | (Inr rc, w') \<Rightarrow> (Inr rc, w'))"

definition transport_contract ::
  "'w graph_client \<Rightarrow> string \<Rightarrow> string \<Rightarrow> ('w, accepted_contract option) ingest_port" where
  "transport_contract G tenant connector w =
     (if tenant = [] then
        (Inl (IngestFailed ''a contract check needs the transport's tenant_id''), w)
      else gc_head G tenant connector w)"

definition graph_transport :: "src_digests \<Rightarrow> 'w graph_client \<Rightarrow> string \<Rightarrow> 'w ingest_transport" where
  "graph_transport D G tenant =
     \<lparr>it_submit = transport_submit D G, it_status = channel_status G, it_blob = gc_store G,
       it_contract = Some (transport_contract G tenant)\<rparr>"

section \<open>The contract check\<close>

definition contract_matches :: "ingest_binding \<Rightarrow> accepted_contract option \<Rightarrow> ingest_exc + unit" where
  "contract_matches b reply =
     (case reply of
        None \<Rightarrow> Inl (ContractNotAccepted ''contract_not_accepted: not the engine's accepted contract'')
      | Some a \<Rightarrow>
          andR (refuse_if (ac_digest a \<noteq> ib_contract_digest b)
            (ContractNotAccepted ''contract_not_accepted: not the engine's accepted contract''))
          (refuse_if (ib_contract_revision b \<noteq> [] \<and> ac_revision a \<noteq> []
               \<and> ac_revision a \<noteq> ib_contract_revision b)
            (ContractNotAccepted ''contract_not_accepted: revision is not accepted'')))"

definition require_accepted :: "'w ingest_transport \<Rightarrow> ingest_binding \<Rightarrow> ('w, unit) ingest_prog" where
  "require_accepted T b =
     (if ib_contract_iri b = [] then returnP ()
      else case it_contract T of
        None \<Rightarrow> raiseP (ContractNotAccepted
                  ''contract_not_accepted: the transport cannot read the accepted contract'')
      | Some read \<Rightarrow>
          bindP (ingest_call IvContract (read (ib_connector b))) (\<lambda>reply. liftP (contract_matches b reply)))"

record contract_evidence =
  ce_iri :: string
  ce_revision :: string
  ce_digest :: string
  ce_mapping_digests :: "string list"
  ce_receipt_id :: string

definition mapping_evidence :: "ingest_binding \<Rightarrow> src_mapping \<Rightarrow> ingest_exc + string" where
  "mapping_evidence b m =
     (let prefix = ib_contract_iri b @ ''#'' in
      andR (refuse_if (mp_pack_digest m \<noteq> ib_contract_digest b)
             (IngestFailed ''receipt mapping names a different contract digest''))
      (andR (refuse_if (take (length prefix) (mp_reference m) \<noteq> prefix)
             (IngestFailed ''receipt mapping is outside the bound contract''))
        (Inr (mp_digest m))))"

definition contract_evidence_of ::
  "ingest_binding \<Rightarrow> src_receipt \<Rightarrow> ingest_exc + contract_evidence" where
  "contract_evidence_of b rc =
     bindR (mapR (mapping_evidence b) (re_mappings rc)) (\<lambda>digs.
       Inr \<lparr>ce_iri = ib_contract_iri b, ce_revision = ib_contract_revision b,
         ce_digest = ib_contract_digest b, ce_mapping_digests = digs, ce_receipt_id = re_id rc\<rparr>)"

section \<open>The service\<close>

record 'w knowledge =
  kn_env :: ingest_env
  kn_transport :: "'w ingest_transport"
  kn_attempts :: nat

definition knowledge_new :: "ingest_env \<Rightarrow> 'w ingest_transport \<Rightarrow> int \<Rightarrow> ingest_exc + 'w knowledge" where
  "knowledge_new E T n =
     andR (refuse_if (n < 1) (IngestForeign False ''ValueError'' ''attempts must be at least 1''))
       (Inr \<lparr>kn_env = E, kn_transport = T, kn_attempts = nat n\<rparr>)"

definition validate_status :: "ingest_binding \<Rightarrow> src_status \<Rightarrow> ingest_exc + unit" where
  "validate_status b st =
     andR (refuse_if (st_connector st \<noteq> ib_connector b \<or> st_stream st \<noteq> ib_stream b)
            (IngestFailed ''source status does not match the requested stream''))
       (refuse_if (case st_accepted st of None \<Rightarrow> False | Some ck \<Rightarrow> xc_stream ck \<noteq> ib_stream b)
            (IngestFailed ''accepted checkpoint does not match the requested stream''))"

text \<open>A status that was read and checked, as \<open>source_status\<close> and a commit's attempt read it.\<close>

definition kn_source_status :: "'w knowledge \<Rightarrow> ingest_binding \<Rightarrow> ('w, src_status) ingest_prog" where
  "kn_source_status K b =
     bindP (guarded (ingest_call IvStatus (it_status (kn_transport K) (ib_connector b) (ib_stream b))))
       (\<lambda>st. thenP (liftP (validate_status b st)) (returnP st))"

definition accepted_cursor :: "'w knowledge \<Rightarrow> ingest_binding \<Rightarrow> ('w, string option) ingest_prog" where
  "accepted_cursor K b =
     bindP (kn_source_status K b) (\<lambda>st.
       case st_accepted st of
         None \<Rightarrow> returnP None
       | Some ck \<Rightarrow> liftP (position_cursor
           ''accepted checkpoint does not match the requested stream'' (xc_position ck)))"

definition kn_attempt ::
  "'w knowledge \<Rightarrow> ingest_binding \<Rightarrow> ingest_set \<Rightarrow> ingest_entity list \<Rightarrow> ('w, src_receipt) ingest_prog" where
  "kn_attempt K b cs media =
     thenP (guarded (require_accepted (kn_transport K) b))
     (bindP (kn_source_status K b) (\<lambda>st.
      bindP (liftP (build_request (kn_env K) b cs (st_accepted st) media)) (\<lambda>req.
        guarded (ingest_call (IvSubmit req) (it_submit (kn_transport K) req)))))"

text \<open>\<open>_require_rebuildable\<close>: whether a conflict is raised instead of retried.\<close>

definition page_work :: "ingest_set \<Rightarrow> bool" where
  "page_work cs \<longleftrightarrow> ic_cursor cs \<noteq> None \<or> ic_source_page cs"

primrec kn_retrying ::
  "nat \<Rightarrow> 'w knowledge \<Rightarrow> ingest_binding \<Rightarrow> ingest_set \<Rightarrow> ingest_entity list \<Rightarrow>
     ('w, src_receipt) ingest_prog" where
  "kn_retrying 0 K b cs media = raiseP (IngestConflict ''stream checkpoint moved'')"
| "kn_retrying (Suc n) K b cs media =
     catchP (kn_attempt K b cs media)
       (\<lambda>e. case e of
          IngestConflict m \<Rightarrow> Some (if page_work cs then raiseP e else kn_retrying n K b cs media)
        | _ \<Rightarrow> None)"

primrec store_media ::
  "'w knowledge \<Rightarrow> ingest_binding \<Rightarrow> media_asset list \<Rightarrow> ('w, ingest_entity list) ingest_prog" where
  "store_media K b [] = returnP []"
| "store_media K b (a # as) =
     thenP (liftP (refuse_if (ma_data a = []) (IngestFailed ''a media asset has no bytes'')))
     (bindP (ingest_call (IvBlob (ma_data a)) (it_blob (kn_transport K) (ma_data a))) (\<lambda>dg.
      bindP (store_media K b as) (\<lambda>es. returnP (media_entity b a dg # es))))"

definition kn_commit ::
  "'w knowledge \<Rightarrow> ingest_binding \<Rightarrow> ingest_set \<Rightarrow> ('w, src_receipt) ingest_prog" where
  "kn_commit K b cs =
     bindP (guarded (store_media K b (ic_media cs))) (kn_retrying (kn_attempts K) K b cs)"

text \<open>\<open>submit\<close>, whose answer is noted in the log.\<close>

definition kn_submit ::
  "'w knowledge \<Rightarrow> ingest_binding \<Rightarrow> ingest_set \<Rightarrow> ('w, src_receipt) ingest_prog" where
  "kn_submit K b cs =
     (\<lambda>s. case kn_commit K b cs s of
        (r, s') \<Rightarrow> (r, s'\<lparr>is_log := is_log s' @ [IvCommit b cs r]\<rparr>))"

end
