(* ===== verification/Ingest_Protocol.thy ===== *)
theory Ingest_Protocol
  imports Ingest_Service
begin

text \<open>
  What a commit of \<open>KnowledgeIngest\<close> does with its transport, as a relation on its calls, and what
  the transport over the generated client adds: an answer binds the request.
\<close>

section \<open>What a built request says\<close>

definition checkpoint_number :: "src_checkpoint option \<Rightarrow> int" where
  "checkpoint_number ck =
     (case ck of
        Some c \<Rightarrow> (case xc_position c of
            JObj kvs \<Rightarrow> (case map_of kvs ''sequence'' of Some (JInt n) \<Rightarrow> n | _ \<Rightarrow> 0)
          | _ \<Rightarrow> 0)
      | None \<Rightarrow> 0)"

definition checkpoint_cursor :: "src_checkpoint option \<Rightarrow> string option" where
  "checkpoint_cursor ck =
     (case ck of
        Some c \<Rightarrow> (case xc_position c of
            JObj kvs \<Rightarrow> (case get kvs ''cursor'' of JStr x \<Rightarrow> Some x | _ \<Rightarrow> None)
          | _ \<Rightarrow> None)
      | None \<Rightarrow> None)"

text \<open>
  The request expects the checkpoint that was read, its checkpoint is of the binding's stream and
  numbered one above, and the cursor moves only for a change set that does not preserve it.
\<close>

definition request_follows ::
  "ingest_binding \<Rightarrow> ingest_set \<Rightarrow> src_checkpoint option \<Rightarrow> src_request \<Rightarrow> bool" where
  "request_follows b cs accepted req \<longleftrightarrow>
     xq_previous req = accepted \<and> xq_connector req = ib_connector b \<and> xq_mode req = ic_mode cs
     \<and> xc_stream (xq_checkpoint req) = ib_stream b
     \<and> checkpoint_number (Some (xq_checkpoint req)) = checkpoint_number accepted + 1
     \<and> 1 \<le> checkpoint_number (Some (xq_checkpoint req))
     \<and> checkpoint_cursor (Some (xq_checkpoint req)) =
         (if preserves_cursor cs then
            (case accepted of None \<Rightarrow> ic_cursor cs | Some _ \<Rightarrow> checkpoint_cursor accepted)
          else ic_cursor cs)
     \<and> (\<forall>r \<in> set (xq_records req). xd_stream r = ib_stream b)"

lemma prior_sequence_Inr:
  "prior_sequence (map_option xc_position previous) = Inr n \<Longrightarrow> n = checkpoint_number previous \<and> 0 \<le> n"
  by (auto simp: prior_sequence_def checkpoint_number_def result_iff
      split: option.splits json.splits if_splits)

lemma position_cursor_Inr:
  "position_cursor m position = Inr c \<Longrightarrow> checkpoint_cursor (Some ck) = c"
  if "xc_position ck = position"
  using that by (auto simp: position_cursor_def checkpoint_cursor_def split: json.splits)

lemma next_position_reads:
  "xc_position ck = next_position n batch cursor policy \<Longrightarrow>
     checkpoint_number (Some ck) = n \<and> checkpoint_cursor (Some ck) = cursor"
  by (auto simp: next_position_def checkpoint_number_def checkpoint_cursor_def get_def
      split: option.splits)

lemma next_checkpoint_Inr:
  assumes "next_checkpoint E b previous content cursor preserve = Inr ck"
  shows "xc_stream ck = ib_stream b"
    and "checkpoint_number (Some ck) = checkpoint_number previous + 1"
    and "1 \<le> checkpoint_number (Some ck)"
    and "checkpoint_cursor (Some ck) =
      (if preserve then (case previous of None \<Rightarrow> cursor | Some _ \<Rightarrow> checkpoint_cursor previous)
       else cursor)"
proof -
  obtain n cursor' where n: "prior_sequence (map_option xc_position previous) = Inr n"
    and c: "(case previous of
              Some p \<Rightarrow> if preserve then preserved_cursor (xc_position p) else Inr cursor
            | None \<Rightarrow> Inr cursor) = Inr cursor'"
    and ck: "ck = \<lparr>xc_stream = ib_stream b, xc_position =
        next_position (n + 1) (digest (py_sha256 E) (py_float_repr E) (JArr content))
          cursor' (ib_cursor_policy b)\<rparr>"
    using assms by (auto simp: next_checkpoint_def result_iff Let_def)
  from ck have reads: "checkpoint_number (Some ck) = n + 1" "checkpoint_cursor (Some ck) = cursor'"
    using next_position_reads [of ck] by auto
  from c have "cursor' = (if preserve then (case previous of None \<Rightarrow> cursor | Some _ \<Rightarrow> checkpoint_cursor previous)
       else cursor)"
    using position_cursor_Inr [OF refl] by (auto simp: preserved_cursor_def split: option.splits if_splits)
  with reads prior_sequence_Inr [OF n] ck
  show "xc_stream ck = ib_stream b"
    "checkpoint_number (Some ck) = checkpoint_number previous + 1"
    "1 \<le> checkpoint_number (Some ck)"
    "checkpoint_cursor (Some ck) =
      (if preserve then (case previous of None \<Rightarrow> cursor | Some _ \<Rightarrow> checkpoint_cursor previous)
       else cursor)"
    by simp_all
qed

lemma mapR_all: "mapR f xs = Inr ys \<Longrightarrow> (\<And>x y. f x = Inr y \<Longrightarrow> P y) \<Longrightarrow> \<forall>y \<in> set ys. P y"
  by (induction xs arbitrary: ys) (auto simp: bindR_Inr)

lemma record_request_stream: "record_request E b e = Inr r \<Longrightarrow> xd_stream r = ib_stream b"
  by (auto simp: record_request_def result_iff Let_def)

lemma assemble_request_follows:
  assumes "assemble_request E b cs previous es nested = Inr req"
  shows "request_follows b cs previous req"
proof -
  obtain records edges ck live ws where
    rs: "mapR (record_request E b) es = Inr records"
    and ck: "next_checkpoint E b previous (map (ie_dump_record E) records @ map (ie_dump_edge E) edges)
              (ic_cursor cs) (preserves_cursor cs) = Inr ck"
    and req: "req = \<lparr>xq_connector = ib_connector b, xq_mode = ic_mode cs, xq_strict = ib_strict b,
         xq_records = records, xq_relationships = edges, xq_checkpoint = ck,
         xq_previous = previous, xq_live_ids = live, xq_approval = ic_approval cs,
         xq_withdrawals = ws\<rparr>"
    using assms by (auto simp: assemble_request_def result_iff)
  from rs have "\<forall>r \<in> set records. xd_stream r = ib_stream b"
    by (rule mapR_all) (rule record_request_stream)
  with next_checkpoint_Inr [OF ck] req show ?thesis by (simp add: request_follows_def)
qed

lemma map_sum_Inr: "map_sum f g x = Inr y \<longleftrightarrow> (\<exists>z. x = Inr z \<and> y = g z)"
  by (cases x) auto

lemma build_request_follows:
  "build_request E b cs previous extra = Inr req \<Longrightarrow> request_follows b cs previous req"
  by (auto simp: build_request_def result_iff map_sum_Inr dest: assemble_request_follows)

section \<open>The calls of a commit\<close>

text \<open>The contract check passed, with its call.\<close>

definition contract_passed :: "ingest_binding \<Rightarrow> ingest_event list \<Rightarrow> bool" where
  "contract_passed b evs \<longleftrightarrow>
     ib_contract_iri b = [] \<and> evs = []
     \<or> (\<exists>reply. evs = [IvContract (Inr reply)] \<and> contract_matches b reply = Inr ())"

fun reads_only :: "ingest_event list \<Rightarrow> bool" where
  "reads_only [] = True"
| "reads_only (IvContract _ # evs) = reads_only evs"
| "reads_only (IvStatus _ # evs) = reads_only evs"
| "reads_only _ = False"

lemma contract_passed_reads: "contract_passed b evs \<Longrightarrow> reads_only evs"
  by (auto simp: contract_passed_def)

inductive attempt_calls ::
  "ingest_binding \<Rightarrow> ingest_set \<Rightarrow> ingest_event list \<Rightarrow> ingest_exc + src_receipt \<Rightarrow> bool"
  for b cs where
  submitted: "contract_passed b evs \<Longrightarrow> validate_status b st = Inr () \<Longrightarrow>
     request_follows b cs (st_accepted st) req \<Longrightarrow>
     attempt_calls b cs (evs @ [IvStatus (Inr st), IvSubmit req a]) (map_sum guard_exc id a)"
| unsent: "reads_only evs \<Longrightarrow> attempt_calls b cs evs (Inl e)"

inductive commit_calls ::
  "ingest_binding \<Rightarrow> ingest_set \<Rightarrow> nat \<Rightarrow> ingest_event list \<Rightarrow> ingest_exc + src_receipt \<Rightarrow> bool"
  for b cs where
  spent: "commit_calls b cs 0 [] (Inl (IngestConflict ''stream checkpoint moved''))"
| settled: "attempt_calls b cs evs r \<Longrightarrow> page_work cs \<or> (\<nexists>m. r = Inl (IngestConflict m)) \<Longrightarrow>
     commit_calls b cs (Suc n) evs r"
| again: "attempt_calls b cs evs (Inl (IngestConflict m)) \<Longrightarrow> \<not> page_work cs \<Longrightarrow>
     commit_calls b cs n evs' r \<Longrightarrow> commit_calls b cs (Suc n) (evs @ evs') r"

text \<open>\<open>logs s P r s'\<close>: the log of \<open>s'\<close> is that of \<open>s\<close> followed by events and an answer in \<open>P\<close>.\<close>

definition logs ::
  "'w ingest_state \<Rightarrow> (ingest_event list \<Rightarrow> 'r \<Rightarrow> bool) \<Rightarrow> 'r \<Rightarrow> 'w ingest_state \<Rightarrow> bool" where
  "logs s P r s' \<longleftrightarrow> (\<exists>evs. is_log s' = is_log s @ evs \<and> P evs r)"

abbreviation wp_logs ::
  "'w ingest_state \<Rightarrow> ('w, 'a) ingest_prog \<Rightarrow> (ingest_event list \<Rightarrow> ingest_exc + 'a \<Rightarrow> bool) \<Rightarrow>
     'w ingest_state \<Rightarrow> bool" where
  "wp_logs s0 m P s \<equiv> wp m (\<lambda>x. logs s0 P (Inr x)) (\<lambda>e. logs s0 P (Inl e)) s"

lemma wp_ingest_call [wp_simps]:
  "wp (ingest_call ev p) Q E s =
     (case p (is_world s) of (r, w) \<Rightarrow>
        (let s' = s\<lparr>is_world := w, is_log := is_log s @ [ev r]\<rparr> in
         case r of Inl e \<Rightarrow> E e s' | Inr x \<Rightarrow> Q x s'))"
  by (simp add: wp_def ingest_call_def Let_def split: prod.splits sum.splits)

lemma wp_guarded [wp_simps]: "wp (guarded m) Q E s = wp m Q (\<lambda>e. E (guard_exc e)) s"
  by (simp add: guarded_def wp_simps)

text \<open>A port answers: the claim is about each answer.\<close>

lemma wp_ingest_callI:
  assumes "\<And>x w. Q x (s\<lparr>is_world := w, is_log := is_log s @ [ev (Inr x)]\<rparr>)"
    and "\<And>e w. E e (s\<lparr>is_world := w, is_log := is_log s @ [ev (Inl e)]\<rparr>)"
  shows "wp (ingest_call ev p) Q E s"
  using assms by (simp add: wp_ingest_call Let_def split: prod.splits sum.splits)

lemma wp_require_accepted:
  assumes "\<And>evs s'. contract_passed b evs \<Longrightarrow> is_log s' = is_log s @ evs \<Longrightarrow> Q () s'"
    and "\<And>evs e s'. reads_only evs \<Longrightarrow> is_log s' = is_log s @ evs \<Longrightarrow> E e s'"
  shows "wp (require_accepted T b) Q E s"
proof (cases "ib_contract_iri b = []")
  case True
  then show ?thesis using assms(1) [of "[]" s]
    by (simp add: require_accepted_def wp_simps contract_passed_def)
next
  case False
  show ?thesis
  proof (cases "it_contract T")
    case None
    with False show ?thesis using assms(2) [of "[]" s] by (simp add: require_accepted_def wp_simps)
  next
    case (Some read)
    have "wp (bindP (ingest_call IvContract (read (ib_connector b)))
            (\<lambda>reply. liftP (contract_matches b reply))) Q E s"
      unfolding wp_bind
    proof (rule wp_ingest_callI)
      fix reply w
      show "wp (liftP (contract_matches b reply)) Q E
          (s\<lparr>is_world := w, is_log := is_log s @ [IvContract (Inr reply)]\<rparr>)"
        using assms(1) [of "[IvContract (Inr reply)]"] assms(2) [of "[IvContract (Inr reply)]"]
        by (auto simp: wp_lift contract_passed_def split: sum.splits)
    qed (rule assms(2) [of "[IvContract (Inl e)]" for e], simp_all)
    with False Some show ?thesis by (simp add: require_accepted_def)
  qed
qed

lemma kn_attempt_calls: "wp_logs s (kn_attempt K b cs media) (attempt_calls b cs) s"
proof -
  have "wp (bindP (kn_source_status K b) (\<lambda>st.
      bindP (liftP (build_request (kn_env K) b cs (st_accepted st) media)) (\<lambda>req.
        guarded (ingest_call (IvSubmit req) (it_submit (kn_transport K) req)))))
      (\<lambda>x. logs s (attempt_calls b cs) (Inr x)) (\<lambda>e. logs s (attempt_calls b cs) (Inl e)) s'"
    if "contract_passed b evs" "is_log s' = is_log s @ evs" for evs s'
    unfolding kn_source_status_def wp_simps
  proof (goal_cases)
    case 1
    have sent: "attempt_calls b cs (evs @ [IvStatus (Inr st), IvSubmit req (Inl e)]) (Inl (guard_exc e))"
        "attempt_calls b cs (evs @ [IvStatus (Inr st), IvSubmit req (Inr rc)]) (Inr rc)"
      if "validate_status b st = Inr ()" "build_request (kn_env K) b cs (st_accepted st) media = Inr req"
      for st req e rc
      using attempt_calls.submitted [OF \<open>contract_passed b evs\<close> that(1) build_request_follows [OF that(2)],
          of "Inl e"]
        attempt_calls.submitted [OF \<open>contract_passed b evs\<close> that(1) build_request_follows [OF that(2)],
          of "Inr rc"] by simp_all
    have unsent: "attempt_calls b cs (evs @ [IvStatus a]) (Inl e)" for a e
    proof -
      have "reads_only (evs @ [IvStatus a])" if "reads_only evs" for evs
        using that by (induction evs rule: reads_only.induct) simp_all
      then show ?thesis
        using contract_passed_reads [OF \<open>contract_passed b evs\<close>] by (blast intro: attempt_calls.unsent)
    qed
    show ?case
      using that(2) sent unsent
      by (auto simp: Let_def logs_def split: prod.splits sum.splits)
  qed
  then show ?thesis
    unfolding kn_attempt_def wp_then wp_guarded
    by (intro wp_require_accepted) (auto simp: logs_def intro: attempt_calls.unsent)
qed

lemma kn_retrying_calls: "wp_logs s (kn_retrying n K b cs media) (commit_calls b cs n) s"
proof (induction n arbitrary: s)
  case 0
  then show ?case by (auto simp: wp_simps logs_def intro: commit_calls.spent)
next
  case (Suc n)
  show ?case
    unfolding kn_retrying.simps wp_catch
  proof (rule wp_mono [OF kn_attempt_calls], goal_cases)
    case (1 x s')
    then show ?case by (auto simp: logs_def intro: commit_calls.settled)
  next
    case (2 e s')
    then obtain evs where evs: "is_log s' = is_log s @ evs" "attempt_calls b cs evs (Inl e)"
      by (auto simp: logs_def)
    show ?case
    proof (cases "\<exists>m. e = IngestConflict m \<and> \<not> page_work cs")
      case True
      then obtain m where m: "e = IngestConflict m" "\<not> page_work cs" by blast
      have "wp_logs s (kn_retrying n K b cs media) (commit_calls b cs (Suc n)) s'"
        by (rule wp_mono [OF Suc.IH])
          (use evs m in \<open>auto simp: logs_def intro: commit_calls.again\<close>)
      with m show ?thesis by simp
    next
      case False
      with evs have "logs s (commit_calls b cs (Suc n)) (Inl e) s'"
        by (auto simp: logs_def intro: commit_calls.settled)
      with False show ?thesis by (auto simp: wp_simps split: ingest_exc.splits)
    qed
  qed
qed

section \<open>What a commit amounts to\<close>

fun is_submit :: "ingest_event \<Rightarrow> bool" where
  "is_submit (IvSubmit _ _) = True"
| "is_submit _ = False"

definition submits :: "ingest_event list \<Rightarrow> ingest_event list" where
  "submits evs = filter is_submit evs"

lemma submits_simps [simp]:
  "submits [] = []" "submits (evs @ evs') = submits evs @ submits evs'"
  "submits (ev # evs) = (if is_submit ev then ev # submits evs else submits evs)"
  by (simp_all add: submits_def)

lemma submits_reads: "reads_only evs \<Longrightarrow> submits evs = []"
  by (induction evs rule: reads_only.induct) simp_all

text \<open>An attempt submits at most once, and returns only what its submission answered.\<close>

lemma attempt_submits:
  assumes "attempt_calls b cs evs r"
  shows "length (submits evs) \<le> 1"
    and "r = Inr rc \<Longrightarrow> \<exists>req. request_follows b cs (xq_previous req) req \<and> evs \<noteq> [] \<and> last evs = IvSubmit req (Inr rc)"
proof -
  show "length (submits evs) \<le> 1"
    using assms by cases (simp_all add: submits_reads contract_passed_reads)
  show "\<exists>req. request_follows b cs (xq_previous req) req \<and> evs \<noteq> [] \<and> last evs = IvSubmit req (Inr rc)" if "r = Inr rc"
    using assms
  proof cases
    case (submitted evs' st req a)
    then have "request_follows b cs (xq_previous req) req"
      by (auto simp: request_follows_def)
    with submitted that show ?thesis by (cases a) auto
  qed (simp add: that)
qed

lemma commit_submits:
  assumes "commit_calls b cs n evs r"
  shows "length (submits evs) \<le> (if page_work cs then min n 1 else n)"
    and "r = Inr rc \<Longrightarrow> \<exists>req. request_follows b cs (xq_previous req) req \<and> evs \<noteq> [] \<and> last evs = IvSubmit req (Inr rc)"
  using assms
proof (induction rule: commit_calls.induct)
  case (settled evs r n)
  { case 1 from attempt_submits(1) [OF settled(1)] show ?case by simp
  next
    case 2 with attempt_submits(2) [OF settled(1)] show ?case by simp }
next
  case (again evs m n evs' r)
  { case 1 with attempt_submits(1) [OF again(1)] again show ?case by simp
  next
    case 2 with again show ?case by (auto simp: last_append) }
qed simp_all

section \<open>The whole commit\<close>

fun is_blob :: "ingest_event \<Rightarrow> bool" where
  "is_blob (IvBlob _ _) = True"
| "is_blob _ = False"

lemma store_media_blobs:
  "wp_logs s (store_media K b as) (\<lambda>evs r. list_all is_blob evs) s"
proof (induction "as" arbitrary: s)
  case (Cons a as)
  show ?case
    unfolding store_media.simps wp_then wp_lift wp_bind
  proof (simp add: refuse_if_def, intro conjI impI, simp add: logs_def)
    show "wp (ingest_call (IvBlob (ma_data a)) (it_blob (kn_transport K) (ma_data a)))
       (\<lambda>x. wp (store_media K b as)
          (\<lambda>y. wp (returnP (media_entity b a x # y)) (\<lambda>x. logs s (\<lambda>evs r. list_all is_blob evs) (Inr x))
             (\<lambda>e. logs s (\<lambda>evs r. list_all is_blob evs) (Inl e)))
          (\<lambda>e. logs s (\<lambda>evs r. list_all is_blob evs) (Inl e)))
       (\<lambda>e. logs s (\<lambda>evs r. list_all is_blob evs) (Inl e)) s"
      by (rule wp_ingest_callI, rule wp_mono [OF Cons.IH]) (auto simp: logs_def wp_simps)
  qed
qed (simp add: wp_simps logs_def)

definition commit_log ::
  "ingest_binding \<Rightarrow> ingest_set \<Rightarrow> nat \<Rightarrow> ingest_event list \<Rightarrow> ingest_exc + src_receipt \<Rightarrow> bool" where
  "commit_log b cs n evs r \<longleftrightarrow>
     (\<exists>blobs calls. evs = blobs @ calls \<and> list_all is_blob blobs
        \<and> (commit_calls b cs n calls r \<or> calls = [] \<and> (\<exists>e. r = Inl e)))"

lemma kn_commit_calls: "wp_logs s (kn_commit K b cs) (commit_log b cs (kn_attempts K)) s"
  unfolding kn_commit_def wp_bind wp_guarded
proof (rule wp_mono [OF store_media_blobs], goal_cases)
  case (1 media s')
  show ?case
    by (rule wp_mono [OF kn_retrying_calls]) (use 1 in \<open>force simp: logs_def commit_log_def\<close>)+
qed (force simp: logs_def commit_log_def)

lemma kn_submit_calls:
  "case kn_submit K b cs s of (r, s') \<Rightarrow>
     \<exists>evs. is_log s' = is_log s @ evs @ [IvCommit b cs r] \<and> commit_log b cs (kn_attempts K) evs r"
  using kn_commit_calls [where K = K and b = b and cs = cs and s = s]
  by (auto simp: kn_submit_def wp_def logs_def split: prod.splits sum.splits)

lemma submits_blobs: "list_all is_blob evs \<Longrightarrow> submits evs = []"
  by (induction evs) (auto elim: is_blob.elims)

lemma commit_log_submits:
  assumes "commit_log b cs n evs r"
  shows "length (submits evs) \<le> (if page_work cs then min n 1 else n)"
    and "r = Inr rc \<Longrightarrow> \<exists>req. request_follows b cs (xq_previous req) req \<and> last evs = IvSubmit req (Inr rc) \<and> evs \<noteq> []"
  using assms commit_submits by (fastforce simp: commit_log_def submits_blobs)+

text \<open>
  Property C22. A commit stores its media, then tries at most the configured number of times, and
  only once for a source page: an attempt passes the contract check, reads a status of the
  binding's stream and submits the one request that expects the checkpoint it read, numbered one
  above it, whose cursor moves only for a change set that does not preserve it; it is tried again
  only after a conflict. A receipt is the answer of the last submission.
\<close>

theorem commit_follows_protocol:
  "case kn_submit K b cs s of (r, s') \<Rightarrow>
     \<exists>evs. is_log s' = is_log s @ evs @ [IvCommit b cs r]
       \<and> commit_log b cs (kn_attempts K) evs r
       \<and> length (submits evs) \<le> (if page_work cs then min (kn_attempts K) 1 else kn_attempts K)
       \<and> (case r of Inr rc \<Rightarrow> \<exists>req. last evs = IvSubmit req (Inr rc) | Inl _ \<Rightarrow> True)"
  using kn_submit_calls [where K = K and b = b and cs = cs and s = s] commit_log_submits [of b cs "kn_attempts K"]
  by (fastforce split: prod.splits sum.splits)

section \<open>Transports whose receipts bind the request\<close>

locale receipt_checked =
  fixes T :: "'w ingest_transport" and D :: src_digests
  assumes answers_bind: "it_submit T req w = (Inr rc, w') \<Longrightarrow> src_receipt_bound D req rc"
begin

definition bound_since :: "ingest_event list \<Rightarrow> 'w ingest_state \<Rightarrow> bool" where
  "bound_since l s \<longleftrightarrow> (\<exists>evs. is_log s = l @ evs
     \<and> (\<forall>req rc. IvSubmit req (Inr rc) \<in> set evs \<longrightarrow> src_receipt_bound D req rc))"

lemma bound_submit: "preserves (bound_since l) (ingest_call (IvSubmit req) (it_submit T req))"
proof (rule preservesI)
  fix s :: "'w ingest_state"
  assume "bound_since l s"
  moreover obtain r w where "it_submit T req (is_world s) = (r, w)" by fastforce
  ultimately show "bound_since l (snd (ingest_call (IvSubmit req) (it_submit T req) s))"
    using answers_bind [of req "is_world s"] by (auto simp: ingest_call_def bound_since_def)
qed

lemma bound_other:
  assumes "\<And>a req rc. ev a \<noteq> IvSubmit req rc"
  shows "preserves (bound_since l) (ingest_call ev p)"
proof (rule preservesI)
  fix s :: "'w ingest_state"
  assume "bound_since l s"
  moreover obtain r w where "p (is_world s) = (r, w)" by fastforce
  ultimately show "bound_since l (snd (ingest_call ev p s))"
    using assms by (auto simp: ingest_call_def bound_since_def) (metis assms)+
qed

lemma bound_guarded: "preserves (bound_since l) m \<Longrightarrow> preserves (bound_since l) (guarded m)"
  unfolding guarded_def by (intro preserves_rules) (auto intro!: preserves_basic)

lemma bound_attempt:
  assumes "kn_transport K = T"
  shows "preserves (bound_since l) (kn_attempt K b cs media)"
  unfolding kn_attempt_def kn_source_status_def require_accepted_def assms
  by (intro preserves_rules bound_guarded bound_submit bound_other)
    (auto intro!: preserves_rules bound_other split: option.splits)

lemma bound_retrying:
  "kn_transport K = T \<Longrightarrow> preserves (bound_since l) (kn_retrying n K b cs media)"
proof (induction n)
  case (Suc n)
  then show ?case
    unfolding kn_retrying.simps
    by (intro preserves_catch bound_attempt)
      (auto intro!: preserves_rules split: ingest_exc.splits if_splits)
qed (simp add: preserves_rules)

lemma bound_media: "preserves (bound_since l) (store_media K b as)"
  by (induction "as") (auto intro!: preserves_rules bound_other)

lemma commit_bound:
  "kn_transport K = T \<Longrightarrow> preserves (bound_since l) (kn_commit K b cs)"
  unfolding kn_commit_def by (intro preserves_rules bound_guarded bound_media bound_retrying)

text \<open>A receipt that a commit returns binds the request that was submitted last.\<close>

lemma receipt_binds_last:
  assumes "kn_transport K = T" "kn_submit K b cs s = (Inr rc, s')"
  shows "\<exists>evs req. is_log s' = is_log s @ evs @ [IvSubmit req (Inr rc), IvCommit b cs (Inr rc)]
     \<and> src_receipt_bound D req rc \<and> request_follows b cs (xq_previous req) req"
proof -
  obtain s1 where s1: "kn_commit K b cs s = (Inr rc, s1)"
    "is_log s' = is_log s1 @ [IvCommit b cs (Inr rc)]"
    using assms(2) by (auto simp: kn_submit_def split: prod.splits)
  have "bound_since (is_log s) s" by (simp add: bound_since_def)
  with commit_bound [OF assms(1), of "is_log s"] s1(1) have "bound_since (is_log s) s1"
    by (metis preserves_def snd_conv)
  then obtain evs where evs: "is_log s1 = is_log s @ evs"
    "\<And>req rc. IvSubmit req (Inr rc) \<in> set evs \<Longrightarrow> src_receipt_bound D req rc"
    by (auto simp: bound_since_def)
  moreover from kn_commit_calls [where K = K and b = b and cs = cs and s = s] s1(1) evs(1) have "commit_log b cs (kn_attempts K) evs (Inr rc)"
    by (simp add: wp_def logs_def)
  then obtain req where req: "request_follows b cs (xq_previous req) req" "last evs = IvSubmit req (Inr rc)"
      "evs \<noteq> []"
    using commit_log_submits(2) by fastforce
  moreover have "src_receipt_bound D req rc"
    using evs(2) req(2,3) last_in_set by metis
  moreover have "evs = butlast evs @ [IvSubmit req (Inr rc)]"
    using req(2,3) by (metis append_butlast_last_id)
  ultimately show ?thesis using s1(2)
    by (intro exI [of _ "butlast evs"] exI [of _ req]) (metis append.assoc append_Cons append_Nil)
qed

end

interpretation graph_receipts: receipt_checked "graph_transport D G tenant" D
  by unfold_locales
    (auto simp: graph_transport_def transport_submit_def channel_submit_def Let_def result_iff
      split: prod.splits sum.splits)

section \<open>A contract check without a tenant\<close>

text \<open>
  \<open>connect_ingest\<close> of \<^verbatim>\<open>ingest/engine.py\<close> builds the service of the process on a transport that it
  gives no tenant. No change set of a contract binding is ever submitted over it.
\<close>

definition default_attempts :: nat where
  "default_attempts = 3"

definition connected_knowledge :: "ingest_env \<Rightarrow> src_digests \<Rightarrow> 'w graph_client \<Rightarrow> 'w knowledge" where
  "connected_knowledge E D G =
     \<lparr>kn_env = E, kn_transport = graph_transport D G [], kn_attempts = default_attempts\<rparr>"

lemma contract_needs_tenant:
  assumes "ib_contract_iri b \<noteq> []" "ic_media cs = []"
  shows "fst (kn_submit (connected_knowledge E D G) b cs s) =
     Inl (IngestFailed ''a contract check needs the transport's tenant_id'')"
  using assms
  by (simp add: kn_submit_def kn_commit_def connected_knowledge_def default_attempts_def
      eval_nat_numeral kn_attempt_def require_accepted_def graph_transport_def
      transport_contract_def prog_defs guarded_def ingest_call_def)

end
