(* ===== verification/Ingest_Stream.thy ===== *)
theory Ingest_Stream
  imports Ingest_Mapping Ingest_Protocol
begin

text \<open>
  A connector's stream: \<^verbatim>\<open>ingest/stream.py\<close> with the submit path (\<^verbatim>\<open>ingest/_stream_base.py\<close>), the
  record writers (\<^verbatim>\<open>ingest/_stream_writes.py\<close>), mapped results and paging
  (\<^verbatim>\<open>ingest/_stream_paging.py\<close>) and the cursor strategies (\<^verbatim>\<open>ingest/paging.py\<close>,
  \<^verbatim>\<open>ingest/_paging_windows.py\<close>). The process's installed service, with which a method falls back
  when it is given none, is the argument \<open>cur\<close>: a service or the exception of getting one.
\<close>

section \<open>The stream and its submit path\<close>

record source_stream =
  ss_binding :: ingest_binding
  ss_mappers :: "(string, mapping) dict"
  ss_documents :: "ingest_binding option"
  ss_best_effort :: bool
  ss_projection :: "(ingest_set \<Rightarrow> ingest_exc + ingest_set) option"
  ss_before :: "(ingest_binding \<Rightarrow> ingest_set \<Rightarrow> ingest_exc + unit) option"
  ss_max_records :: "int option"
  ss_batch_size :: "int option"

definition positive_or_none :: "int option \<Rightarrow> bool" where
  "positive_or_none v \<longleftrightarrow> (case v of None \<Rightarrow> True | Some n \<Rightarrow> 1 \<le> n)"

definition source_stream_new :: "source_stream \<Rightarrow> ingest_exc + source_stream" where
  "source_stream_new S =
     andR (refuse_if (\<not> positive_or_none (ss_max_records S))
            (IngestFailed ''max_records must be a positive integer''))
    (andR (refuse_if (\<not> positive_or_none (ss_batch_size S))
            (IngestFailed ''batch_size must be a positive integer''))
      (Inr S))"

definition scoped :: "string \<Rightarrow> source_stream \<Rightarrow> source_stream" where
  "scoped suffix S =
     S\<lparr>ss_binding := (ss_binding S)\<lparr>ib_stream := ib_stream (ss_binding S) @ '':'' @ suffix\<rparr>\<rparr>"

definition check_size :: "source_stream \<Rightarrow> ingest_set \<Rightarrow> ingest_exc + unit" where
  "check_size S cs =
     refuse_if (case ss_max_records S of None \<Rightarrow> False
                | Some n \<Rightarrow> n < int (length (ic_entities cs) + length (ic_documents cs)))
       (IngestFailed ''at most max_records records per change set'')"

definition projected :: "source_stream \<Rightarrow> ingest_set \<Rightarrow> ingest_exc + ingest_set" where
  "projected S cs = (case ss_projection S of None \<Rightarrow> Inr cs | Some f \<Rightarrow> f cs)"

definition target_binding :: "source_stream \<Rightarrow> ingest_binding option \<Rightarrow> ingest_binding" where
  "target_binding S b = (case b of None \<Rightarrow> ss_binding S | Some x \<Rightarrow> x)"

definition before_submit :: "source_stream \<Rightarrow> ingest_binding \<Rightarrow> ingest_set \<Rightarrow> ingest_exc + unit" where
  "before_submit S b cs = (case ss_before S of None \<Rightarrow> Inr () | Some f \<Rightarrow> f b cs)"

definition resolve_ingest :: "ingest_exc + 'w knowledge \<Rightarrow> 'w knowledge option \<Rightarrow> ingest_exc + 'w knowledge" where
  "resolve_ingest cur ingest = (case ingest of Some K \<Rightarrow> Inr K | None \<Rightarrow> cur)"

definition stream_commit ::
  "ingest_exc + 'w knowledge \<Rightarrow> source_stream \<Rightarrow> ingest_set \<Rightarrow> ingest_binding option \<Rightarrow>
     'w knowledge option \<Rightarrow> ('w, src_receipt) ingest_prog" where
  "stream_commit cur S cs b ingest =
     thenP (liftP (check_size S cs))
     (bindP (liftP (projected S cs)) (\<lambda>cs'.
      thenP (liftP (before_submit S (target_binding S b) cs'))
      (bindP (liftP (resolve_ingest cur ingest)) (\<lambda>K. kn_submit K (target_binding S b) cs'))))"

definition submit_receipt ::
  "ingest_exc + 'w knowledge \<Rightarrow> source_stream \<Rightarrow> ingest_set \<Rightarrow> ingest_binding option \<Rightarrow>
     'w knowledge option \<Rightarrow> ('w, src_receipt option) ingest_prog" where
  "submit_receipt cur S cs b ingest =
     catchP (bindP (stream_commit cur S cs b ingest) (\<lambda>rc. returnP (Some rc)))
       (\<lambda>e. if is_ingest_error e \<and> ss_best_effort S then Some (returnP None) else None)"

text \<open>The counts of nodes and edges.\<close>

type_synonym counts = "nat \<times> nat"

definition stream_submit ::
  "ingest_exc + 'w knowledge \<Rightarrow> source_stream \<Rightarrow> ingest_set \<Rightarrow> ingest_binding option \<Rightarrow>
     'w knowledge option \<Rightarrow> ('w, counts option) ingest_prog" where
  "stream_submit cur S cs b ingest =
     bindP (submit_receipt cur S cs b ingest) (\<lambda>r.
       returnP (map_option (\<lambda>rc. (re_affected rc, re_relationships rc)) r))"

definition stream_refuse :: "source_stream \<Rightarrow> string \<Rightarrow> ('w, unit) ingest_prog" where
  "stream_refuse S m = (if ss_best_effort S then returnP () else raiseP (IngestFailed m))"

text \<open>An \<open>IngestError\<close> of a pure step: raised, or skipped with \<open>None\<close> on a best-effort stream.\<close>

definition skipping :: "source_stream \<Rightarrow> ingest_exc + 'a \<Rightarrow> ('w, 'a option) ingest_prog" where
  "skipping S r =
     (case r of
        Inr x \<Rightarrow> returnP (Some x)
      | Inl e \<Rightarrow> if is_ingest_error e \<and> ss_best_effort S then returnP None else raiseP e)"

section \<open>Writing records, documents and media\<close>

definition record_change_set ::
  "(string, json) dict list \<Rightarrow> (string, json) dict list \<Rightarrow> (string, json) dict list \<Rightarrow>
     ingest_exc + ingest_set" where
  "record_change_set es rs ds =
     bindR (mapR entity_from_record es) (\<lambda>entities.
     bindR (mapR relationship_from_record rs) (\<lambda>relationships.
     bindR (mapR document_from_record ds) (\<lambda>documents.
       ingest_set_new (no_changes\<lparr>ic_entities := entities, ic_relationships := relationships,
         ic_documents := documents\<rparr>))))"

definition stream_batch ::
  "ingest_exc + 'w knowledge \<Rightarrow> source_stream \<Rightarrow> (string, json) dict list \<Rightarrow>
     (string, json) dict list \<Rightarrow> (string, json) dict list \<Rightarrow> 'w knowledge option \<Rightarrow>
     ('w, counts option) ingest_prog" where
  "stream_batch cur S entities relationships documents ingest =
     (let es = (if ss_best_effort S then filter (\<lambda>e. truthy (get e ''id'')) entities else entities);
          ds = (if ss_best_effort S
                then filter (\<lambda>d. truthy (get d ''id'') \<and> truthy (get d ''text'')) documents
                else documents)
      in if es = [] \<and> ds = [] then
           thenP (stream_refuse S ''ingest needs at least one entity or document'') (returnP None)
         else bindP (skipping S (record_change_set es relationships ds)) (\<lambda>cs.
           case cs of
             None \<Rightarrow> returnP None
           | Some c \<Rightarrow> stream_submit cur S c (if es = [] then ss_documents S else None) ingest))"

definition stream_media ::
  "ingest_exc + 'w knowledge \<Rightarrow> source_stream \<Rightarrow> media_asset \<Rightarrow> 'w knowledge option \<Rightarrow>
     ('w, counts option) ingest_prog" where
  "stream_media cur S a ingest =
     (if ma_data a = [] then
        thenP (stream_refuse S ''ingest requires non-empty bytes'') (returnP None)
      else bindP (liftP (ingest_set_new (no_changes\<lparr>ic_media := [a]\<rparr>)))
             (\<lambda>cs. stream_submit cur S cs None ingest))"

section \<open>Committing a mapped result\<close>

definition add_counts :: "counts \<Rightarrow> counts \<Rightarrow> counts" where
  "add_counts a b = (fst a + fst b, snd a + snd b)"

text \<open>\<^theory_text>\<open>range(0, len(xs), n)\<close> and the slices it names.\<close>

function chunks :: "nat \<Rightarrow> 'a list \<Rightarrow> 'a list list" where
  "chunks n xs = (if n = 0 \<or> xs = [] then [] else take n xs # chunks n (drop n xs))"
  by auto
termination by (relation "measure (\<lambda>(n, xs). length xs)") auto

declare chunks.simps [simp del]

text \<open>
  A loop over change sets that stops at the first that is skipped; \<open>add\<close> says what counts.
\<close>

primrec commit_sets ::
  "(counts \<Rightarrow> counts \<Rightarrow> counts) \<Rightarrow> ingest_exc + 'w knowledge \<Rightarrow> source_stream \<Rightarrow>
     'w knowledge option \<Rightarrow> ingest_set list \<Rightarrow> counts \<Rightarrow> ('w, counts option) ingest_prog" where
  "commit_sets add cur S ingest [] totals = returnP (Some totals)"
| "commit_sets add cur S ingest (cs # css) totals =
     bindP (stream_submit cur S cs None ingest) (\<lambda>c.
       case c of
         None \<Rightarrow> returnP None
       | Some counts \<Rightarrow> commit_sets add cur S ingest css (add totals counts))"

definition entity_sets :: "nat \<Rightarrow> bool \<Rightarrow> mapped \<Rightarrow> ingest_set list" where
  "entity_sets n page m =
     map (\<lambda>es. no_changes\<lparr>ic_entities := es, ic_preserve := True, ic_source_page := page\<rparr>)
       (chunks n (md_entities m))"

definition edge_sets :: "nat \<Rightarrow> bool \<Rightarrow> mapped \<Rightarrow> ingest_set list" where
  "edge_sets n page m =
     map (\<lambda>rs. no_changes\<lparr>ic_entities := [hd (md_entities m)], ic_relationships := rs,
                  ic_preserve := True, ic_source_page := page\<rparr>)
       (chunks n (md_relationships m))"

definition last_set :: "bool \<Rightarrow> mapped \<Rightarrow> document list \<Rightarrow> string option \<Rightarrow> ingest_set" where
  "last_set page m documents cursor =
     no_changes\<lparr>ic_documents := documents, ic_cursor := cursor,
       ic_entities := [hd (md_entities m)], ic_source_page := page\<rparr>"

definition whole_set :: "bool \<Rightarrow> mapped \<Rightarrow> document list \<Rightarrow> string option \<Rightarrow> ingest_set" where
  "whole_set page m documents cursor =
     no_changes\<lparr>ic_entities := md_entities m, ic_documents := documents,
       ic_relationships := md_relationships m, ic_cursor := cursor, ic_source_page := page\<rparr>"

definition commit_entities ::
  "ingest_exc + 'w knowledge \<Rightarrow> source_stream \<Rightarrow> mapped \<Rightarrow> document list \<Rightarrow> string option \<Rightarrow>
     'w knowledge option \<Rightarrow> bool \<Rightarrow> ('w, counts option) ingest_prog" where
  "commit_entities cur S m documents cursor ingest page =
     (case (ss_batch_size S, md_entities m) of
        (Some n, _ # _) \<Rightarrow>
          bindP (commit_sets add_counts cur S ingest (entity_sets (nat n) page m) (0, 0)) (\<lambda>c1.
          case c1 of None \<Rightarrow> returnP None | Some t1 \<Rightarrow>
          bindP (commit_sets (\<lambda>t c. (fst t, snd t + snd c)) cur S ingest (edge_sets (nat n) page m) t1) (\<lambda>c2.
          case c2 of None \<Rightarrow> returnP None | Some t2 \<Rightarrow>
          (let split = (md_documents m \<noteq> [] \<and> documents = []) in
           if documents \<noteq> [] \<or> named cursor \<noteq> None \<or> (page \<and> \<not> split)
           then bindP (stream_submit cur S (last_set page m documents cursor) None ingest)
                  (\<lambda>c3. returnP (case c3 of None \<Rightarrow> None | Some _ \<Rightarrow> Some t2))
           else returnP (Some t2))))
      | _ \<Rightarrow> stream_submit cur S (whole_set page m documents cursor) None ingest)"

definition stream_mapped ::
  "ingest_exc + 'w knowledge \<Rightarrow> source_stream \<Rightarrow> mapped \<Rightarrow> string option \<Rightarrow> 'w knowledge option \<Rightarrow>
     bool \<Rightarrow> ('w, counts option) ingest_prog" where
  "stream_mapped cur S m cursor ingest page =
     (if md_entities m = [] \<and> md_documents m = [] then
        thenP (stream_refuse S ''mapping produced nothing to ingest'') (returnP None)
      else
        (let split = (ss_documents S \<noteq> None \<and> md_documents m \<noteq> []) in
         bindP (if md_entities m \<noteq> [] \<or> \<not> split
                then commit_entities cur S m (if split then [] else md_documents m) cursor ingest page
                else returnP (Some (0, 0))) (\<lambda>c1.
         case c1 of
           None \<Rightarrow> returnP None
         | Some t1 \<Rightarrow>
             if split then
               bindP (stream_submit cur S
                        (no_changes\<lparr>ic_documents := md_documents m, ic_cursor := cursor\<rparr>)
                        (ss_documents S) ingest)
                 (\<lambda>c2. returnP (map_option (add_counts t1) c2))
             else returnP (Some t1))))"

definition stream_mapper ::
  "source_stream \<Rightarrow> string \<Rightarrow> (string, json) dict list \<Rightarrow> ingest_exc + mapped" where
  "stream_mapper S kind records =
     (case map_of (ss_mappers S) kind of
        None \<Rightarrow> Inl (IngestFailed ''unsupported record kind'')
      | Some mp \<Rightarrow> apply_mapper mp records)"

definition stream_records ::
  "ingest_exc + 'w knowledge \<Rightarrow> source_stream \<Rightarrow> string \<Rightarrow> (string, json) dict list \<Rightarrow>
     'w knowledge option \<Rightarrow> ('w, counts option) ingest_prog" where
  "stream_records cur S kind records ingest =
     bindP (skipping S (stream_mapper S kind records)) (\<lambda>r.
       case r of
         None \<Rightarrow> returnP None
       | Some m \<Rightarrow> stream_mapped cur S m None ingest False)"

end
