(* ===== verification/Ingest_Paging.thy ===== *)
theory Ingest_Paging
  imports Ingest_Stream
begin

text \<open>
  Paging through a source: the cursor strategies (\<^verbatim>\<open>ingest/paging.py\<close>,
  \<^verbatim>\<open>ingest/_paging_windows.py\<close>) and \<open>sync\<close> of \<^verbatim>\<open>ingest/_stream_paging.py\<close>. The time windows, which
  compute with dates, are any other strategy here.
\<close>

section \<open>Cursor strategies\<close>

text \<open>\<open>None\<close> is the end of the walk.\<close>

record strategy =
  sg_first :: "string option"
  sg_advance :: "(string, json) dict list \<Rightarrow> string option \<Rightarrow> ingest_exc + string option"

definition page_size_ok :: "int \<Rightarrow> ingest_exc + nat" where
  "page_size_ok n =
     andR (refuse_if (n < 1) (IngestFailed ''page_size must be a positive integer'')) (Inr (nat n))"

text \<open>\<^theory_text>\<open>cursor or 0\<close>: no cursor and an empty one count from the start.\<close>

definition offset_advance ::
  "nat \<Rightarrow> (string, json) dict list \<Rightarrow> string option \<Rightarrow> ingest_exc + string option" where
  "offset_advance limit records cursor =
     (if length records < limit then Inr None
      else case (case named cursor of None \<Rightarrow> Some 0 | Some c \<Rightarrow> py_int c) of
        None \<Rightarrow> Inl (IngestForeign False ''ValueError'' ''invalid literal for int() with base 10'')
      | Some n \<Rightarrow> Inr (Some (show_int (n + int (length records)))))"

definition offset_cursor :: "nat \<Rightarrow> strategy" where
  "offset_cursor limit = \<lparr>sg_first = Some ''0'', sg_advance = offset_advance limit\<rparr>"

definition keyset_advance ::
  "pyenv \<Rightarrow> string \<Rightarrow> nat \<Rightarrow> (string, json) dict list \<Rightarrow> string option \<Rightarrow> ingest_exc + string option" where
  "keyset_advance py key limit records cursor =
     (if length records < limit then Inr None
      else let v = get (last records) key in
        if empty_value v then Inl (IngestFailed ''last record has no key to continue from'')
        else Inr (Some (py_str py v)))"

definition keyset_cursor :: "pyenv \<Rightarrow> string \<Rightarrow> nat \<Rightarrow> strategy" where
  "keyset_cursor py key limit = \<lparr>sg_first = None, sg_advance = keyset_advance py key limit\<rparr>"

definition marks_of :: "pyenv \<Rightarrow> string \<Rightarrow> (string, json) dict list \<Rightarrow> string list" where
  "marks_of py key records =
     map (\<lambda>r. py_str py (get r key)) (filter (\<lambda>r. \<not> empty_value (get r key)) records)"

definition high_water_advance ::
  "pyenv \<Rightarrow> string \<Rightarrow> (string, json) dict list \<Rightarrow> string option \<Rightarrow> ingest_exc + string option" where
  "high_water_advance py key records cursor =
     (case marks_of py key records of
        [] \<Rightarrow> Inr None
      | m # ms \<Rightarrow>
          Inr (Some (fold max (ms @ (case named cursor of None \<Rightarrow> [] | Some c \<Rightarrow> [c])) m)))"

definition high_water_cursor :: "pyenv \<Rightarrow> string \<Rightarrow> strategy" where
  "high_water_cursor py key = \<lparr>sg_first = None, sg_advance = high_water_advance py key\<rparr>"

section \<open>The walk\<close>

text \<open>
  A fetch gives the records of a page, and the next cursor where no strategy decides it
  (\<open>JNull\<close> where one does).
\<close>

type_synonym 'w fetch_page = "string option \<Rightarrow> ('w, (string, json) dict list \<times> json) ingest_port"

definition max_cursor_history :: int where
  "max_cursor_history = 100000"

abbreviation history_limit :: nat where
  "history_limit \<equiv> nat max_cursor_history"

definition next_of ::
  "strategy option \<Rightarrow> string option \<Rightarrow> (string, json) dict list \<times> json \<Rightarrow> ingest_exc + json" where
  "next_of st cursor fetched =
     (case st of
        None \<Rightarrow> Inr (snd fetched)
      | Some g \<Rightarrow> map_sum id (\<lambda>n. case n of None \<Rightarrow> JNull | Some c \<Rightarrow> JStr c)
                    (sg_advance g (fst fetched) cursor))"

definition fingerprint :: "pyenv \<Rightarrow> string \<Rightarrow> string" where
  "fingerprint py c = py_sha256 py (utf8 c)"

text \<open>The fingerprints seen, without repetition, and the next cursor as text.\<close>

definition remember_cursor ::
  "pyenv \<Rightarrow> string list \<Rightarrow> json \<Rightarrow> ingest_exc + string list \<times> string option" where
  "remember_cursor py seen next =
     (case next of
        JNull \<Rightarrow> Inr (seen, None)
      | JStr c \<Rightarrow>
          andR (refuse_if (fingerprint py c \<in> set seen) (IngestFailed ''source continuation repeated''))
          (andR (refuse_if (max_cursor_history \<le> int (length seen))
                  (IngestFailed ''source continuation history limit exceeded''))
            (Inr (fingerprint py c # seen, Some c)))
      | _ \<Rightarrow> Inl (IngestFailed ''source continuation must be a string''))"

definition sync_page ::
  "ingest_exc + 'w knowledge \<Rightarrow> source_stream \<Rightarrow> string \<Rightarrow> (string, json) dict list \<Rightarrow>
     string option \<Rightarrow> 'w knowledge \<Rightarrow> ('w, counts option) ingest_prog" where
  "sync_page cur S kind records next K =
     bindP (liftP (stream_mapper S kind records)) (\<lambda>m.
     if ss_documents S \<noteq> None \<and> md_documents m \<noteq> [] then
       raiseP (IngestFailed ''source sync cannot checkpoint split document streams'')
     else if md_entities m \<noteq> [] \<or> md_documents m \<noteq> [] then
       bindP (stream_mapped cur S m next (Some K) True) (\<lambda>c.
         case c of
           None \<Rightarrow> raiseP (IngestFailed ''source page was not accepted'')
         | Some counts \<Rightarrow> returnP (Some counts))
     else if records \<noteq> [] then raiseP (IngestFailed ''source page mapping produced no records'')
     else if next \<noteq> None then
       bindP (stream_submit cur S (no_changes\<lparr>ic_cursor := next, ic_source_page := True\<rparr>) None (Some K)) (\<lambda>c.
         case c of
           None \<Rightarrow> raiseP (IngestFailed ''source page was not accepted'')
         | Some _ \<Rightarrow> returnP None)
     else returnP None)"

text \<open>
  At most \<open>n\<close> pages. A walk without a page bound is given one above the cursor history; \<open>bounded\<close>
  says that the caller gave the bound, and \<open>WalkCut\<close> marks a walk that ran out of the other.
\<close>

abbreviation WalkCut :: ingest_exc where
  "WalkCut \<equiv> IngestForeign False ''WalkCut'' []"

primrec sync_walk ::
  "nat \<Rightarrow> bool \<Rightarrow> ingest_exc + 'w knowledge \<Rightarrow> source_stream \<Rightarrow> string \<Rightarrow> strategy option \<Rightarrow>
     'w fetch_page \<Rightarrow> 'w knowledge \<Rightarrow> string list \<Rightarrow> string option \<Rightarrow> counts \<Rightarrow>
     ('w, counts) ingest_prog" where
  "sync_walk 0 bounded cur S kind st fetch K seen cursor totals =
     (if bounded then returnP totals else raiseP WalkCut)"
| "sync_walk (Suc n) bounded cur S kind st fetch K seen cursor totals =
     bindP (ingest_call (IvFetch cursor) (fetch cursor)) (\<lambda>fetched.
     bindP (liftP (next_of st cursor fetched)) (\<lambda>next.
     bindP (liftP (remember_cursor (pyenv.truncate (kn_env K)) seen next)) (\<lambda>(seen', next').
     bindP (sync_page cur S kind (fst fetched) next' K) (\<lambda>c.
     let totals' = (case c of None \<Rightarrow> totals | Some counts \<Rightarrow> add_counts totals counts) in
     case next' of
       None \<Rightarrow> returnP totals'
     | Some _ \<Rightarrow> sync_walk n bounded cur S kind st fetch K seen' next' totals'))))"

definition walk_bound :: "int option \<Rightarrow> nat" where
  "walk_bound pages = (case pages of None \<Rightarrow> history_limit + 2 | Some n \<Rightarrow> nat n)"

text \<open>The cursor a walk starts at.\<close>

definition sync_start ::
  "source_stream \<Rightarrow> bool \<Rightarrow> strategy option \<Rightarrow> 'w knowledge \<Rightarrow> ('w, string option) ingest_prog" where
  "sync_start S resume st K =
     bindP (if resume then accepted_cursor K (ss_binding S) else returnP None) (\<lambda>accepted.
       returnP (case (accepted, st) of
          (None, Some g) \<Rightarrow> sg_first g
        | _ \<Rightarrow> accepted))"

definition sync_stream_pages ::
  "ingest_exc + 'w knowledge \<Rightarrow> source_stream \<Rightarrow> string \<Rightarrow> 'w fetch_page \<Rightarrow> 'w knowledge option \<Rightarrow>
     bool \<Rightarrow> int option \<Rightarrow> strategy option \<Rightarrow> ('w, counts) ingest_prog" where
  "sync_stream_pages cur S kind fetch ingest resume pages st =
     thenP (liftP (refuse_if (\<not> positive_or_none pages)
              (IngestFailed ''max_pages must be a positive integer'')))
     (bindP (liftP (resolve_ingest cur ingest)) (\<lambda>K.
      bindP (sync_start S resume st K) (\<lambda>cursor.
        sync_walk (walk_bound pages) (pages \<noteq> None) cur S kind st fetch K
          (case cursor of None \<Rightarrow> [] | Some c \<Rightarrow> [fingerprint (pyenv.truncate (kn_env K)) c])
          cursor (0, 0))))"

end
