(* ===== verification/Ingest_Walk.thy ===== *)
theory Ingest_Walk
  imports Ingest_Paging
begin

text \<open>
  What a walk through a source commits, page by page, and that it ends: the commits of a page
  against the list of change sets a page is, the walk as a relation on its fetches and commits,
  and the cursors it fetches at.
\<close>

section \<open>The commits and fetches of a log\<close>

fun is_walk :: "ingest_event \<Rightarrow> bool" where
  "is_walk (IvCommit _ _ _) = True"
| "is_walk (IvFetch _ _) = True"
| "is_walk _ = False"

definition view :: "'w ingest_state \<Rightarrow> ingest_event list" where
  "view s = filter is_walk (is_log s)"

lemma reads_hidden: "reads_only evs \<Longrightarrow> filter is_walk evs = []"
  by (induction evs rule: reads_only.induct) simp_all

lemma attempt_hidden: "attempt_calls b cs evs r \<Longrightarrow> filter is_walk evs = []"
  by (erule attempt_calls.cases) (simp_all add: reads_hidden contract_passed_reads)

lemma commit_hidden: "commit_log b cs n evs r \<Longrightarrow> filter is_walk evs = []"
proof -
  have "commit_calls b cs n evs r \<Longrightarrow> filter is_walk evs = []" for evs
    by (induction rule: commit_calls.induct) (simp_all add: attempt_hidden)
  moreover have "list_all is_blob evs \<Longrightarrow> filter is_walk evs = []" for evs
    by (induction evs) (auto elim: is_blob.elims)
  ultimately show "commit_log b cs n evs r \<Longrightarrow> filter is_walk evs = []"
    by (auto simp: commit_log_def)
qed

text \<open>\<open>shows s P s'\<close>: the view of \<open>s'\<close> is that of \<open>s\<close> followed by events in \<open>P\<close>.\<close>

definition shown :: "'w ingest_state \<Rightarrow> (ingest_event list \<Rightarrow> bool) \<Rightarrow> 'w ingest_state \<Rightarrow> bool" where
  "shown s P s' \<longleftrightarrow> (\<exists>evs. view s' = view s @ evs \<and> P evs)"

lemma shown_refl [simp]: "P [] \<Longrightarrow> shown s P s"
  by (simp add: shown_def)

lemma shown_mono: "shown s P s' \<Longrightarrow> (\<And>evs. P evs \<Longrightarrow> Q evs) \<Longrightarrow> shown s Q s'"
  by (auto simp: shown_def)

lemma shown_trans: "shown s P s' \<Longrightarrow> shown s' Q s'' \<Longrightarrow>
    (\<And>evs evs'. P evs \<Longrightarrow> Q evs' \<Longrightarrow> R (evs @ evs')) \<Longrightarrow> shown s R s''"
  by (fastforce simp: shown_def)

lemma wp_kn_submit:
  "wp (kn_submit K b cs) (\<lambda>rc. shown s (\<lambda>evs. evs = [IvCommit b cs (Inr rc)]))
     (\<lambda>e. shown s (\<lambda>evs. evs = [IvCommit b cs (Inl e)])) s"
  using kn_submit_calls [where K = K and b = b and cs = cs and s = s]
  by (auto simp: wp_def shown_def view_def commit_hidden split: prod.splits sum.splits)

section \<open>One change set\<close>

definition accepted_set :: "source_stream \<Rightarrow> ingest_set \<Rightarrow> ingest_event \<Rightarrow> bool" where
  "accepted_set S cs ev \<longleftrightarrow>
     (\<exists>cs' rc. projected S cs = Inr cs' \<and> ev = IvCommit (ss_binding S) cs' (Inr rc))"

definition refused_set :: "source_stream \<Rightarrow> ingest_set \<Rightarrow> ingest_event list \<Rightarrow> bool" where
  "refused_set S cs evs \<longleftrightarrow>
     evs = [] \<or> (\<exists>cs' e. projected S cs = Inr cs' \<and> evs = [IvCommit (ss_binding S) cs' (Inl e)])"

lemma wp_lift_split:
  "(\<And>x. r = Inr x \<Longrightarrow> Q x s) \<Longrightarrow> (\<And>e. r = Inl e \<Longrightarrow> E e s) \<Longrightarrow> wp (liftP r) Q E s"
  by (simp add: wp_lift split: sum.splits)

lemma wp_stream_commit:
  "wp (stream_commit cur S cs None ingest) (\<lambda>rc. shown s (\<lambda>evs. \<exists>ev. evs = [ev] \<and> accepted_set S cs ev))
     (\<lambda>e. shown s (refused_set S cs)) s"
  unfolding stream_commit_def wp_then wp_bind
  by (intro wp_lift_split; (rule wp_mono [OF wp_kn_submit])?)
    (auto simp: shown_def accepted_set_def refused_set_def target_binding_def)

lemma wp_stream_submit:
  "wp (stream_submit cur S cs None ingest)
     (\<lambda>c. shown s (\<lambda>evs. case c of Some _ \<Rightarrow> \<exists>ev. evs = [ev] \<and> accepted_set S cs ev
                                   | None \<Rightarrow> refused_set S cs evs))
     (\<lambda>e. shown s (refused_set S cs)) s"
  unfolding stream_submit_def submit_receipt_def wp_bind wp_catch
  by (rule wp_mono [OF wp_stream_commit]) (auto simp: wp_simps)

section \<open>A list of change sets\<close>

text \<open>
  Every set was accepted, or the first so many were and the next was refused.
\<close>

definition all_accepted :: "source_stream \<Rightarrow> ingest_set list \<Rightarrow> ingest_event list \<Rightarrow> bool" where
  "all_accepted S css evs \<longleftrightarrow> list_all2 (accepted_set S) css evs"

definition cut_short :: "source_stream \<Rightarrow> ingest_set list \<Rightarrow> ingest_event list \<Rightarrow> bool" where
  "cut_short S css evs \<longleftrightarrow>
     (\<exists>ok cs rest evs1 evs2. css = ok @ cs # rest \<and> evs = evs1 @ evs2
        \<and> all_accepted S ok evs1 \<and> refused_set S cs evs2)"

lemma all_accepted_append:
  "all_accepted S css evs \<Longrightarrow> all_accepted S css' evs' \<Longrightarrow> all_accepted S (css @ css') (evs @ evs')"
  by (simp add: all_accepted_def list_all2_appendI)

lemma all_accepted_Nil [simp]: "all_accepted S [] evs \<longleftrightarrow> evs = []"
  by (simp add: all_accepted_def)

lemma all_accepted_one: "accepted_set S cs ev \<Longrightarrow> all_accepted S [cs] [ev]"
  by (simp add: all_accepted_def)

lemma cut_short_one: "refused_set S cs evs \<Longrightarrow> cut_short S (cs # css) evs"
  unfolding cut_short_def by (rule exI [of _ "[]"]) auto

lemma cut_short_more: "cut_short S css evs \<Longrightarrow> cut_short S (css @ css') evs"
  unfolding cut_short_def by fastforce

lemma cut_short_after:
  assumes "all_accepted S css evs" "cut_short S css' evs'"
  shows "cut_short S (css @ css') (evs @ evs')"
proof -
  obtain ok cs rest evs1 evs2 where "css' = ok @ cs # rest" "evs' = evs1 @ evs2"
    "all_accepted S ok evs1" "refused_set S cs evs2"
    using assms(2) by (auto simp: cut_short_def)
  with all_accepted_append [OF assms(1)] show ?thesis
    unfolding cut_short_def by (metis append.assoc)
qed

definition sets_outcome :: "source_stream \<Rightarrow> ingest_set list \<Rightarrow> 'a option \<Rightarrow> ingest_event list \<Rightarrow> bool" where
  "sets_outcome S css c evs \<longleftrightarrow>
     (case c of Some _ \<Rightarrow> all_accepted S css evs | None \<Rightarrow> cut_short S css evs)"

lemma sets_outcome_simps [simp]:
  "sets_outcome S css (Some x) = all_accepted S css"
  "sets_outcome S css None = cut_short S css"
  by (simp_all add: sets_outcome_def fun_eq_iff)

text \<open>A program that submits these sets in order and answers \<open>None\<close> where one is skipped.\<close>

definition commits :: "source_stream \<Rightarrow> ingest_set list \<Rightarrow> ('w, 'a option) ingest_prog \<Rightarrow> bool" where
  "commits S css m \<longleftrightarrow>
     (\<forall>s. wp m (\<lambda>c. shown s (sets_outcome S css c)) (\<lambda>e. shown s (cut_short S css)) s)"

named_theorems commits_rules \<open>programs that submit a list of change sets\<close>

lemma commitsD: "commits S css m \<Longrightarrow>
    wp m (\<lambda>c. shown s (sets_outcome S css c)) (\<lambda>e. shown s (cut_short S css)) s"
  by (simp add: commits_def)

lemma commits_return [commits_rules]: "commits S [] (returnP (Some x))"
  by (simp add: commits_def wp_simps)

lemma commits_submit [commits_rules]: "commits S [cs] (stream_submit cur S cs None ingest)"
  unfolding commits_def
proof (intro allI wp_mono [OF wp_stream_submit], goal_cases)
  case (1 s c s1)
  then show ?case by (cases c) (auto intro: cut_short_one all_accepted_one elim!: shown_mono)
qed (auto intro: cut_short_one elim!: shown_mono)

lemma commits_seq [commits_rules]:
  assumes "commits S css m" "\<And>x. commits S css' (f x)"
  shows "commits S (css @ css') (bindP m (\<lambda>c. case c of None \<Rightarrow> returnP None | Some x \<Rightarrow> f x))"
  unfolding commits_def wp_bind
proof (intro allI wp_mono [OF commitsD [OF assms(1)]], goal_cases)
  case (1 s c s1)
  show ?case
  proof (cases c)
    case None
    with 1 show ?thesis
      by (auto simp: wp_simps intro: cut_short_more elim!: shown_mono)
  next
    case (Some x)
    with 1 have ok: "shown s (all_accepted S css) s1" by simp
    have "wp (f x) (\<lambda>c. shown s (sets_outcome S (css @ css') c))
        (\<lambda>e. shown s (cut_short S (css @ css'))) s1"
    proof (rule wp_mono [OF commitsD [OF assms(2)]])
      show "shown s1 (sets_outcome S css' c') s2 \<Longrightarrow> shown s (sets_outcome S (css @ css') c') s2" for c' s2
        by (cases c')
          (auto elim!: shown_trans [OF ok] intro: all_accepted_append cut_short_after)
      show "shown s1 (cut_short S css') s2 \<Longrightarrow> shown s (cut_short S (css @ css')) s2" for s2
        by (erule shown_trans [OF ok]) (rule cut_short_after)
    qed
    with Some show ?thesis by simp
  qed
qed (auto intro: cut_short_more elim!: shown_mono)

lemma commits_map:
  assumes "commits S css m" "\<And>c. g c = None \<longleftrightarrow> c = None"
  shows "commits S css (bindP m (\<lambda>c. returnP (g c)))"
  unfolding commits_def wp_bind wp_return
proof (intro allI wp_mono [OF commitsD [OF assms(1)]], goal_cases)
  case (1 s c s1)
  with assms(2) [of c] show ?case
    by (cases "g c"; cases c) auto
qed

lemma commits_sets [commits_rules]: "commits S css (commit_sets add cur S ingest css t)"
proof (induction css arbitrary: t)
  case (Cons cs css)
  from commits_seq [OF commits_submit Cons.IH] show ?case by simp
qed (simp add: commits_return)

section \<open>The change sets of a page\<close>

definition page_sets :: "source_stream \<Rightarrow> mapped \<Rightarrow> string option \<Rightarrow> ingest_set list" where
  "page_sets S m cursor =
     (if md_entities m = [] \<and> md_documents m = [] then
        (if cursor = None then [] else [no_changes\<lparr>ic_cursor := cursor, ic_source_page := True\<rparr>])
      else case (ss_batch_size S, md_entities m) of
        (Some n, _ # _) \<Rightarrow>
          entity_sets (nat n) True m @ edge_sets (nat n) True m
            @ [last_set True m (md_documents m) cursor]
      | _ \<Rightarrow> [whole_set True m (md_documents m) cursor])"

definition page_mapped ::
  "source_stream \<Rightarrow> string \<Rightarrow> (string, json) dict list \<Rightarrow> mapped \<Rightarrow> bool" where
  "page_mapped S kind records m \<longleftrightarrow>
     stream_mapper S kind records = Inr m
     \<and> (ss_documents S = None \<or> md_documents m = [])
     \<and> (md_entities m = [] \<and> md_documents m = [] \<longrightarrow> records = [])"

lemma commits_batches:
  assumes "ss_batch_size S = Some n" "md_entities m \<noteq> []"
  shows "commits S (entity_sets (nat n) True m @ edge_sets (nat n) True m
            @ [last_set True m (md_documents m) cursor])
     (commit_entities cur S m (md_documents m) cursor ingest True)"
proof -
  obtain e es where "md_entities m = e # es" using assms(2) by (cases "md_entities m") auto
  with assms(1) show ?thesis
    unfolding commit_entities_def
    by (auto simp: Let_def intro!: commits_rules commits_map split: option.splits)
qed

lemma commits_mapped:
  assumes "ss_documents S = None \<or> md_documents m = []"
    and "md_entities m \<noteq> [] \<or> md_documents m \<noteq> []"
  shows "commits S (page_sets S m cursor) (stream_mapped cur S m cursor ingest True)"
proof -
  have "commits S (page_sets S m cursor) (commit_entities cur S m (md_documents m) cursor ingest True)"
  proof (cases "ss_batch_size S = None \<or> md_entities m = []")
    case True
    then show ?thesis using assms(2)
      by (cases "md_entities m"; cases "ss_batch_size S")
        (auto simp: commit_entities_def page_sets_def intro: commits_submit)
  next
    case False
    then obtain n e es where "ss_batch_size S = Some n" "md_entities m = e # es"
      by (cases "md_entities m") auto
    then show ?thesis using commits_batches [of S n m] by (simp add: page_sets_def)
  qed
  from commits_seq [OF this commits_return] have
    "commits S (page_sets S m cursor)
      (bindP (commit_entities cur S m (md_documents m) cursor ingest True)
        (\<lambda>c. case c of None \<Rightarrow> returnP None | Some t \<Rightarrow> returnP (Some t)))" by simp
  with assms show ?thesis
    by (auto simp: stream_mapped_def Let_def cong: option.case_cong)
qed

text \<open>The commits of a page, whether the method returns or raises.\<close>

definition page_accepted ::
  "source_stream \<Rightarrow> string \<Rightarrow> (string, json) dict list \<Rightarrow> string option \<Rightarrow> ingest_event list \<Rightarrow> bool" where
  "page_accepted S kind records cursor evs \<longleftrightarrow>
     (\<exists>m. page_mapped S kind records m \<and> all_accepted S (page_sets S m cursor) evs)"

definition page_refused ::
  "source_stream \<Rightarrow> string \<Rightarrow> (string, json) dict list \<Rightarrow> string option \<Rightarrow> ingest_event list \<Rightarrow> bool" where
  "page_refused S kind records cursor evs \<longleftrightarrow>
     evs = [] \<or> (\<exists>m. page_mapped S kind records m \<and> cut_short S (page_sets S m cursor) evs)"

lemma commits_raising:
  assumes "commits S css m"
  shows "wp (bindP m (\<lambda>c. case c of None \<Rightarrow> raiseP e | Some x \<Rightarrow> returnP (g x)))
     (\<lambda>_. shown s (all_accepted S css)) (\<lambda>_. shown s (cut_short S css)) s"
  unfolding wp_bind
proof (rule wp_mono [OF commitsD [OF assms]], goal_cases)
  case (1 c s1)
  then show ?case by (cases c) (auto simp: wp_simps)
qed

lemma wp_page_commits:
  assumes "commits S (page_sets S m cursor) p" "page_mapped S kind records m"
  shows "wp (bindP p (\<lambda>c. case c of None \<Rightarrow> raiseP e | Some x \<Rightarrow> returnP (g x)))
     (\<lambda>_. shown s (page_accepted S kind records cursor))
     (\<lambda>_. shown s (page_refused S kind records cursor)) s"
  by (rule wp_mono [OF commits_raising [OF assms(1)]])
    (use assms(2) in \<open>auto simp: page_accepted_def page_refused_def elim!: shown_mono\<close>)

lemma wp_sync_page:
  "wp (sync_page cur S kind records cursor K) (\<lambda>_. shown s (page_accepted S kind records cursor))
     (\<lambda>_. shown s (page_refused S kind records cursor)) s"
proof (cases "stream_mapper S kind records")
  case (Inl e)
  then show ?thesis by (simp add: sync_page_def wp_simps page_refused_def)
next
  case (Inr m)
  consider (split) "ss_documents S \<noteq> None \<and> md_documents m \<noteq> []"
    | (content) "ss_documents S = None \<or> md_documents m = []" "md_entities m \<noteq> [] \<or> md_documents m \<noteq> []"
    | (lost) "md_entities m = []" "md_documents m = []" "records \<noteq> []"
    | (idle) "md_entities m = []" "md_documents m = []" "records = []"
    by metis
  then show ?thesis
  proof cases
    case split
    with Inr show ?thesis by (simp add: sync_page_def wp_simps page_refused_def)
  next
    case content
    then have mapped: "page_mapped S kind records m" using Inr by (auto simp: page_mapped_def)
    from wp_page_commits [OF commits_mapped [OF content] this, where g = Some] Inr content
    show ?thesis by (auto simp: sync_page_def wp_lift wp_bind [of "liftP _"])
  next
    case lost
    with Inr show ?thesis by (simp add: sync_page_def wp_simps page_refused_def)
  next
    case idle
    then have mapped: "page_mapped S kind records m" using Inr by (auto simp: page_mapped_def)
    show ?thesis
    proof (cases cursor)
      case None
      have "page_accepted S kind records None []"
        unfolding page_accepted_def using idle mapped by (auto simp: page_sets_def intro!: exI [of _ m])
      with idle Inr None show ?thesis by (simp add: sync_page_def wp_simps)
    next
      case (Some c)
      let ?cs = "no_changes\<lparr>ic_cursor := cursor, ic_source_page := True\<rparr>"
      have sets: "page_sets S m cursor = [?cs]" using idle Some by (simp add: page_sets_def)
      have "commits S (page_sets S m cursor) (stream_submit cur S ?cs None (Some K))"
        unfolding sets by (rule commits_submit)
      from wp_page_commits [OF this mapped, where g = "\<lambda>_. None"] Inr idle Some
      show ?thesis by (simp add: sync_page_def wp_lift wp_bind [of "liftP _"])
    qed
  qed
qed

section \<open>The walk as a relation\<close>

text \<open>
  \<open>walk S kind st py bounded n seen c evs ok\<close>: with at most \<open>n\<close> pages left and the fingerprints \<open>seen\<close>,
  a walk at the cursor \<open>c\<close> shows the fetches and commits \<open>evs\<close>, and returns or raises. Only a
  bounded walk stops because its pages are spent.
\<close>

inductive walk ::
  "source_stream \<Rightarrow> string \<Rightarrow> strategy option \<Rightarrow> pyenv \<Rightarrow> bool \<Rightarrow>
     nat \<Rightarrow> string list \<Rightarrow> string option \<Rightarrow> ingest_event list \<Rightarrow> bool \<Rightarrow> bool"
  for S kind st py bounded where
  spent: "bounded \<Longrightarrow> walk S kind st py bounded 0 seen c [] True"
| fetch_failed: "walk S kind st py bounded (Suc n) seen c [IvFetch c (Inl e)] False"
| no_cursor: "walk S kind st py bounded (Suc n) seen c [IvFetch c (Inr page)] False"
| refused: "next_of st c page = Inr j \<Longrightarrow> remember_cursor py seen j = Inr (seen', c') \<Longrightarrow>
     page_refused S kind (fst page) c' evs \<Longrightarrow>
     walk S kind st py bounded (Suc n) seen c (IvFetch c (Inr page) # evs) False"
| ended: "next_of st c page = Inr j \<Longrightarrow> remember_cursor py seen j = Inr (seen', None) \<Longrightarrow>
     page_accepted S kind (fst page) None evs \<Longrightarrow>
     walk S kind st py bounded (Suc n) seen c (IvFetch c (Inr page) # evs) True"
| onward: "next_of st c page = Inr j \<Longrightarrow> remember_cursor py seen j = Inr (seen', Some c') \<Longrightarrow>
     page_accepted S kind (fst page) (Some c') evs \<Longrightarrow>
     walk S kind st py bounded n seen' (Some c') evs' ok \<Longrightarrow>
     walk S kind st py bounded (Suc n) seen c (IvFetch c (Inr page) # evs @ evs') ok"

lemma remember_cursor_Some:
  "remember_cursor py seen j = Inr (seen', Some c) \<longleftrightarrow>
     j = JStr c \<and> fingerprint py c \<notin> set seen \<and> length seen < history_limit
     \<and> seen' = fingerprint py c # seen"
  by (auto simp: remember_cursor_def result_iff split: json.splits)

text \<open>
  The loop follows the relation; a walk without a bound of its own is given enough pages.
\<close>

lemma sync_walk_walks:
  assumes "bounded \<or> history_limit + 1 < n + length seen" "length seen \<le> history_limit"
  shows "wp (sync_walk n bounded cur S kind st fetch K seen c totals)
     (\<lambda>_. shown s (\<lambda>evs. walk S kind st (pyenv.truncate (kn_env K)) bounded n seen c evs True))
     (\<lambda>_. shown s (\<lambda>evs. walk S kind st (pyenv.truncate (kn_env K)) bounded n seen c evs False)) s"
  using assms
proof (induction n arbitrary: seen c totals s)
  case 0
  then show ?case by (auto simp: wp_simps walk.spent)
next
  case (Suc n)
  let ?py = "pyenv.truncate (kn_env K)"
  let ?W = "walk S kind st ?py bounded"
  show ?case
    unfolding sync_walk.simps wp_bind
  proof (rule wp_ingest_callI, goal_cases)
    case (1 page w)
    let ?s1 = "s\<lparr>is_world := w, is_log := is_log s @ [IvFetch c (Inr page)]\<rparr>"
    have fetched: "shown s (\<lambda>evs. evs = [IvFetch c (Inr page)]) ?s1"
      by (simp add: shown_def view_def)
    have failed: "shown s (\<lambda>evs. ?W (Suc n) seen c evs False) ?s1"
      using fetched by (auto elim!: shown_mono intro: walk.no_cursor)
    show ?case
    proof (rule wp_lift_split)
      fix j assume j: "next_of st c page = Inr j"
      show "wp (liftP (remember_cursor ?py seen j))
          (\<lambda>x. wp (case x of (seen', next') \<Rightarrow>
             bindP (sync_page cur S kind (fst page) next' K) (\<lambda>c.
               let totals' = (case c of None \<Rightarrow> totals | Some counts \<Rightarrow> add_counts totals counts) in
               case next' of None \<Rightarrow> returnP totals'
               | Some _ \<Rightarrow> sync_walk n bounded cur S kind st fetch K seen' next' totals'))
            (\<lambda>_. shown s (\<lambda>evs. ?W (Suc n) seen c evs True))
            (\<lambda>_. shown s (\<lambda>evs. ?W (Suc n) seen c evs False)))
          (\<lambda>_. shown s (\<lambda>evs. ?W (Suc n) seen c evs False)) ?s1"
      proof (rule wp_lift_split)
        fix x assume x: "remember_cursor ?py seen j = Inr x"
        obtain seen' c' where xs: "x = (seen', c')" by (cases x)
        note j_x = j x [unfolded xs]
        have "wp (sync_page cur S kind (fst page) c' K)
            (\<lambda>y. wp (let totals' = (case y of None \<Rightarrow> totals | Some counts \<Rightarrow> add_counts totals counts) in
               case c' of None \<Rightarrow> returnP totals'
               | Some _ \<Rightarrow> sync_walk n bounded cur S kind st fetch K seen' c' totals')
              (\<lambda>_. shown s (\<lambda>evs. ?W (Suc n) seen c evs True))
              (\<lambda>_. shown s (\<lambda>evs. ?W (Suc n) seen c evs False)))
            (\<lambda>_. shown s (\<lambda>evs. ?W (Suc n) seen c evs False)) ?s1"
        proof (rule wp_mono [OF wp_sync_page], goal_cases)
          case (1 y s2)
          from shown_trans [OF fetched 1] have page: "shown s (\<lambda>evs. \<exists>evs'. evs = IvFetch c (Inr page) # evs'
              \<and> page_accepted S kind (fst page) c' evs') s2" by simp
          show ?case
          proof (cases c')
            case None
            with page j_x show ?thesis
              by (auto simp: Let_def wp_return elim!: shown_mono intro: walk.ended)
          next
            case (Some d)
            with j_x have seen': "seen' = fingerprint ?py d # seen" "length seen < history_limit"
              by (simp_all add: remember_cursor_Some)
            with Suc.prems have "bounded \<or> history_limit + 1 < n + length seen'"
                "length seen' \<le> history_limit" by auto
            from Suc.IH [OF this] have IH: "wp (sync_walk n bounded cur S kind st fetch K seen' c' t)
               (\<lambda>_. shown s2 (\<lambda>evs. ?W n seen' c' evs True))
               (\<lambda>_. shown s2 (\<lambda>evs. ?W n seen' c' evs False)) s2" for t .
            have on: "shown s (\<lambda>evs. ?W (Suc n) seen c evs ok) s3"
              if "shown s2 (\<lambda>evs. ?W n seen' c' evs ok) s3" for ok s3
              using page that by (rule shown_trans) (use j_x Some in \<open>auto intro: walk.onward\<close>)
            have "wp (sync_walk n bounded cur S kind st fetch K seen' c' t)
               (\<lambda>_. shown s (\<lambda>evs. ?W (Suc n) seen c evs True))
               (\<lambda>_. shown s (\<lambda>evs. ?W (Suc n) seen c evs False)) s2" for t
              by (rule wp_mono [OF IH]) (rule on, assumption)+
            with Some show ?thesis by (simp add: Let_def)
          qed
        next
          case (2 e s2)
          from fetched 2 show ?case
            by (rule shown_trans) (use j_x in \<open>auto intro: walk.refused\<close>)
        qed
        then show "wp (case x of (seen', next') \<Rightarrow>
             bindP (sync_page cur S kind (fst page) next' K) (\<lambda>c.
               let totals' = (case c of None \<Rightarrow> totals | Some counts \<Rightarrow> add_counts totals counts) in
               case next' of None \<Rightarrow> returnP totals'
               | Some _ \<Rightarrow> sync_walk n bounded cur S kind st fetch K seen' next' totals'))
            (\<lambda>_. shown s (\<lambda>evs. ?W (Suc n) seen c evs True))
            (\<lambda>_. shown s (\<lambda>evs. ?W (Suc n) seen c evs False)) ?s1"
          by (simp add: xs wp_bind)
      qed (rule failed)
    qed (rule failed)
  next
    case (2 e w)
    then show ?case by (auto simp: shown_def view_def intro: walk.fetch_failed)
  qed
qed

section \<open>The cursors of a walk\<close>

fun fetch_cursor :: "ingest_event \<Rightarrow> string option option" where
  "fetch_cursor (IvFetch c _) = Some c"
| "fetch_cursor _ = None"

definition fetched_at :: "ingest_event list \<Rightarrow> string option list" where
  "fetched_at evs = List.map_filter fetch_cursor evs"

lemma fetched_at_simps [simp]:
  "fetched_at [] = []"
  "fetched_at (IvFetch c p # evs) = c # fetched_at evs"
  "fetched_at (IvCommit b cs r # evs) = fetched_at evs"
  "fetched_at (evs @ evs') = fetched_at evs @ fetched_at evs'"
  by (simp_all add: fetched_at_def List.map_filter_def)

lemma accepted_fetches: "all_accepted S css evs \<Longrightarrow> fetched_at evs = []"
  unfolding all_accepted_def
  by (induction rule: list_all2_induct) (auto simp: accepted_set_def)

lemma cut_fetches: "cut_short S css evs \<Longrightarrow> fetched_at evs = []"
  by (auto simp: cut_short_def refused_set_def accepted_fetches)

lemma page_fetches:
  "page_accepted S kind records c evs \<Longrightarrow> fetched_at evs = []"
  "page_refused S kind records c evs \<Longrightarrow> fetched_at evs = []"
  by (auto simp: page_accepted_def page_refused_def accepted_fetches cut_fetches)

text \<open>No more fetches than pages, nor than the history admits.\<close>

lemma walk_fetches:
  "walk S kind st py bounded n seen c evs ok \<Longrightarrow> length (fetched_at evs) \<le> n"
  by (induction rule: walk.induct) (simp_all add: page_fetches)

lemma walk_history:
  "walk S kind st py bounded n seen c evs ok \<Longrightarrow> length seen \<le> history_limit \<Longrightarrow>
     length (fetched_at evs) + length seen \<le> history_limit + 1"
  by (induction rule: walk.induct) (auto simp: page_fetches remember_cursor_Some)

text \<open>No cursor is fetched twice.\<close>

lemma walk_distinct:
  assumes "walk S kind st py bounded n seen c evs ok" "\<And>x. c = Some x \<Longrightarrow> fingerprint py x \<in> set seen"
  shows "distinct (fetched_at evs)
     \<and> (\<forall>d \<in> set (tl (fetched_at evs)). \<exists>x. d = Some x \<and> fingerprint py x \<notin> set seen)
     \<and> (fetched_at evs = [] \<or> hd (fetched_at evs) = c)"
  using assms
proof (induction rule: walk.induct)
  case (onward c page j seen seen' c' evs n evs' ok)
  from onward.hyps(2) have seen': "fingerprint py c' \<notin> set seen" "seen' = fingerprint py c' # seen"
    by (simp_all add: remember_cursor_Some)
  with onward.IH have IH: "distinct (fetched_at evs')"
    "\<forall>d \<in> set (tl (fetched_at evs')). \<exists>x. d = Some x \<and> fingerprint py x \<notin> set seen'"
    "fetched_at evs' = [] \<or> hd (fetched_at evs') = Some c'" by simp_all
  have fresh: "\<exists>x. d = Some x \<and> fingerprint py x \<notin> set seen" if "d \<in> set (fetched_at evs')" for d
    using that IH(2,3) seen' by (cases "fetched_at evs'") auto
  with onward.prems have "c \<notin> set (fetched_at evs')" by blast
  with fresh IH(1) onward.hyps(3) show ?case by (simp add: page_fetches)
qed (simp_all add: page_fetches)

text \<open>
  \<open>follows c evs\<close>: every fetch is at the cursor that the stream's checkpoint carries, which is \<open>c\<close>
  at first and changes with the accepted change sets that do not preserve it.
\<close>

fun follows :: "string option \<Rightarrow> ingest_event list \<Rightarrow> bool" where
  "follows c [] = True"
| "follows c (IvFetch d _ # evs) = (d = c \<and> follows c evs)"
| "follows c (IvCommit b cs (Inr rc) # evs) = follows (if preserves_cursor cs then c else ic_cursor cs) evs"
| "follows c (_ # evs) = follows c evs"

text \<open>A projection that leaves the cursor of a change set alone.\<close>

definition keeps_cursor :: "source_stream \<Rightarrow> bool" where
  "keeps_cursor S \<longleftrightarrow>
     (\<forall>cs cs'. projected S cs = Inr cs' \<longrightarrow>
        ic_cursor cs' = ic_cursor cs \<and> preserves_cursor cs' = preserves_cursor cs)"

definition cursor_after :: "ingest_set \<Rightarrow> string option \<Rightarrow> string option" where
  "cursor_after cs c = (if preserves_cursor cs then c else ic_cursor cs)"

lemma follows_accepted:
  assumes "all_accepted S css evs" "keeps_cursor S"
  shows "follows c (evs @ evs') = follows (fold cursor_after css c) evs'"
  using assms(1) unfolding all_accepted_def
proof (induction css evs arbitrary: c rule: list_all2_induct)
  case (Cons cs css ev evs)
  then obtain cs' rc where "projected S cs = Inr cs'" "ev = IvCommit (ss_binding S) cs' (Inr rc)"
    by (auto simp: accepted_set_def)
  with assms(2) Cons.IH show ?case
    by (simp add: keeps_cursor_def cursor_after_def)
qed simp

lemma follows_no_fetch:
  assumes "fetched_at evs = []"
  shows "follows c evs"
  using assms
proof (induction c evs rule: follows.induct)
qed (simp_all add: fetched_at_def List.map_filter_def split: option.splits)

lemma fold_preserving:
  "list_all preserves_cursor css \<Longrightarrow> fold cursor_after css c = c"
  by (induction css) (simp_all add: cursor_after_def)

lemma page_sets_cursor: "fold cursor_after (page_sets S m (Some c')) c = Some c'"
proof -
  have "list_all preserves_cursor (entity_sets n True m @ edge_sets n True m)" for n
    by (auto simp: entity_sets_def edge_sets_def preserves_cursor_def no_changes_def list_all_iff)
  from fold_preserving [OF this] show ?thesis
    by (auto simp: page_sets_def cursor_after_def preserves_cursor_def last_set_def whole_set_def
        no_changes_def split: option.splits list.splits)
qed

lemma walk_follows:
  assumes "walk S kind st py bounded n seen c evs ok" "keeps_cursor S"
  shows "follows c evs"
  using assms(1)
proof (induction rule: walk.induct)
  case (onward c page j seen seen' c' evs n evs' ok)
  then obtain m where "all_accepted S (page_sets S m (Some c')) evs"
    by (auto simp: page_accepted_def)
  from follows_accepted [OF this assms(2)] onward.IH show ?case by (simp add: page_sets_cursor)
qed (simp_all add: follows_no_fetch page_fetches)

section \<open>A whole synchronization\<close>

lemma wp_sync_start: "wp (sync_start S resume st K) (\<lambda>_. shown s (\<lambda>evs. evs = []))
    (\<lambda>_. shown s (\<lambda>evs. evs = [])) s"
  unfolding sync_start_def accepted_cursor_def kn_source_status_def
  by (auto simp: wp_simps shown_def view_def Let_def split: prod.splits sum.splits option.splits)

definition page_limit :: "int option \<Rightarrow> nat" where
  "page_limit pages =
     (case pages of None \<Rightarrow> history_limit + 1 | Some n \<Rightarrow> min (nat n) (history_limit + 1))"

definition first_seen :: "pyenv \<Rightarrow> string option \<Rightarrow> string list" where
  "first_seen py c = (case c of None \<Rightarrow> [] | Some x \<Rightarrow> [fingerprint py x])"

text \<open>What the relation gives for a walk from a fresh history.\<close>

lemma walk_facts:
  assumes "walk S kind st py (pages \<noteq> None) (walk_bound pages) (first_seen py c) c evs ok"
    and "keeps_cursor S" "positive_or_none pages"
  shows "follows c evs" and "evs \<noteq> []"
    and "length (fetched_at evs) \<le> page_limit pages" and "distinct (fetched_at evs)"
proof -
  have seen: "length (first_seen py c) \<le> history_limit"
    by (simp add: first_seen_def max_cursor_history_def split: option.splits)
  show "follows c evs" by (rule walk_follows [OF assms(1,2)])
  have "walk_bound pages \<noteq> 0"
    using assms(3) by (auto simp: walk_bound_def positive_or_none_def split: option.splits)
  with assms(1) show "evs \<noteq> []" by (auto elim: walk.cases)
  show "length (fetched_at evs) \<le> page_limit pages"
    using walk_fetches [OF assms(1)] walk_history [OF assms(1) seen]
    by (auto simp: page_limit_def walk_bound_def split: option.splits)
  show "distinct (fetched_at evs)"
    using walk_distinct [OF assms(1)] by (simp add: first_seen_def)
qed

text \<open>
  Property C23. \<open>sync\<close> walks a source page by page: a page's change sets are committed in order and
  the next page is fetched only when all of them were accepted, at the cursor the stream's
  checkpoint then carries; no cursor is fetched twice; and the walk ends, with no page bound as
  with one, within the cursor history. When it returns, every page it fetched was accepted.
\<close>

theorem sync_walks_pages:
  assumes "keeps_cursor S"
  shows "case sync_stream_pages cur S kind fetch ingest resume pages st s of (r, s') \<Rightarrow>
     \<exists>evs. view s' = view s @ evs
       \<and> (evs = [] \<or> (\<exists>K c s1. resolve_ingest cur ingest = Inr K \<and> sync_start S resume st K s = (Inr c, s1)
            \<and> walk S kind st (pyenv.truncate (kn_env K)) (pages \<noteq> None) (walk_bound pages)
                (first_seen (pyenv.truncate (kn_env K)) c) c evs (\<not> isl r)
            \<and> follows c evs))
       \<and> (isl r \<or> evs \<noteq> [])
       \<and> length (fetched_at evs) \<le> page_limit pages \<and> distinct (fetched_at evs)"
proof -
  let ?goal = "\<lambda>ok evs. (evs = [] \<or> (\<exists>K c s1. resolve_ingest cur ingest = Inr K
            \<and> sync_start S resume st K s = (Inr c, s1)
            \<and> walk S kind st (pyenv.truncate (kn_env K)) (pages \<noteq> None) (walk_bound pages)
                (first_seen (pyenv.truncate (kn_env K)) c) c evs ok
            \<and> follows c evs))
       \<and> (\<not> ok \<or> evs \<noteq> []) \<and> length (fetched_at evs) \<le> page_limit pages \<and> distinct (fetched_at evs)"
  have walked: "wp (sync_walk (walk_bound pages) (pages \<noteq> None) cur S kind st fetch K
        (first_seen (pyenv.truncate (kn_env K)) c) c (0, 0))
      (\<lambda>_. shown s (?goal True)) (\<lambda>_. shown s (?goal False)) s1"
    if start: "resolve_ingest cur ingest = Inr K" "sync_start S resume st K s = (Inr c, s1)"
      and pos: "positive_or_none pages" for K c s1
  proof -
    have same: "view s1 = view s"
      using wp_sync_start [of S resume st K s] start(2) by (simp add: wp_def shown_def)
    have goal: "?goal ok evs"
      if "walk S kind st (pyenv.truncate (kn_env K)) (pages \<noteq> None) (walk_bound pages)
            (first_seen (pyenv.truncate (kn_env K)) c) c evs ok" for ok evs
      using start walk_facts [OF that assms pos] that by blast
    have "pages \<noteq> None \<or> history_limit + 1 < walk_bound pages + length (first_seen (pyenv.truncate (kn_env K)) c)"
      "length (first_seen (pyenv.truncate (kn_env K)) c) \<le> history_limit"
      by (auto simp: walk_bound_def first_seen_def max_cursor_history_def split: option.splits)
    from sync_walk_walks [OF this, where s = s1] show ?thesis
      by (rule wp_mono) (simp only: shown_def same, use goal in blast)+
  qed
  have "wp (sync_stream_pages cur S kind fetch ingest resume pages st)
     (\<lambda>_. shown s (?goal True)) (\<lambda>_. shown s (?goal False)) s"
    unfolding sync_stream_pages_def wp_then wp_bind first_seen_def [symmetric]
  proof (intro wp_lift_split, goal_cases)
    case (1 u K)
    then have pos: "positive_or_none pages" by (simp add: result_iff)
    show ?case
    proof (cases "sync_start S resume st K s")
      case (Pair r s1)
      show ?thesis
      proof (cases r)
        case (Inl e)
        with Pair wp_sync_start [of S resume st K s] have "view s1 = view s"
          by (simp add: wp_def shown_def)
        with Inl Pair show ?thesis by (simp add: wp_def shown_def)
      next
        case (Inr c)
        with Pair walked [OF 1(2) _ pos] show ?thesis by (simp add: wp_def)
      qed
    qed
  qed (simp_all add: shown_def)
  then show ?thesis
    by (auto simp: wp_def shown_def split: prod.splits sum.splits)
qed

end
