(* ===== verification/Ingest_Privacy.thy ===== *)
theory Ingest_Privacy
  imports Ingest_Walk
begin

text \<open>
  The keyed projection of \<^verbatim>\<open>ingest/privacy.py\<close>, what a stream relies on of any projection, and the
  commit of a mapped result in batches. The keyed digest (\<^verbatim>\<open>hmac\<close> with SHA-256, as hex) is the
  parameter \<open>hm\<close>.
\<close>

section \<open>The pseudonymizer\<close>

record pseudonymizer =
  pz_connector :: string
  pz_prefix :: string
  pz_key :: string
  pz_redact :: "string set"

definition min_key_bytes :: nat where
  "min_key_bytes = 32"

definition pseudonymizer_new :: "pseudonymizer \<Rightarrow> ingest_exc + pseudonymizer" where
  "pseudonymizer_new P =
     andR (refuse_if (length (pz_key P) < min_key_bytes)
            (IngestFailed ''ingestion needs a pseudonymization key of at least 32 bytes''))
       (Inr P)"

definition opaque_id ::
  "(string \<Rightarrow> string \<Rightarrow> string) \<Rightarrow> pseudonymizer \<Rightarrow> string \<Rightarrow> string \<Rightarrow> ingest_exc + string" where
  "opaque_id hm P node_type provider_id =
     andR (refuse_if (provider_id = []) (IngestFailed ''record has no identifier''))
       (Inr (pz_prefix P @ '':'' @ node_type @ '':''
          @ hm (pz_key P)
              (utf8 (pz_connector P @ [CHR 0x00] @ node_type @ [CHR 0x00] @ provider_id))))"

definition clean :: "pseudonymizer \<Rightarrow> (string, json) dict \<Rightarrow> (string, json) dict" where
  "clean P ps = filter (\<lambda>(k, _). k \<notin> pz_redact P) ps"

fun project_entities ::
  "(string \<Rightarrow> string \<Rightarrow> string) \<Rightarrow> pseudonymizer \<Rightarrow> ingest_entity list \<Rightarrow> (string, string) dict \<Rightarrow>
     ingest_exc + ingest_entity list \<times> (string, string) dict" where
  "project_entities hm P [] renamed = Inr ([], renamed)"
| "project_entities hm P (e # es) renamed =
     bindR (opaque_id hm P (iy_node_type e) (iy_id e)) (\<lambda>i.
     bindR (project_entities hm P es (dict_set (iy_id e) i renamed)) (\<lambda>(es', renamed').
       Inr (e\<lparr>iy_id := i, iy_properties := clean P (iy_properties e)\<rparr> # es', renamed')))"

fun project_documents ::
  "(string \<Rightarrow> string \<Rightarrow> string) \<Rightarrow> pseudonymizer \<Rightarrow> document list \<Rightarrow> (string, string) dict \<Rightarrow>
     ingest_exc + document list \<times> (string, string) dict" where
  "project_documents hm P [] renamed = Inr ([], renamed)"
| "project_documents hm P (d # ds) renamed =
     bindR (opaque_id hm P ''Document'' (do_id d)) (\<lambda>i.
     bindR (project_documents hm P ds (dict_set (do_id d) i renamed)) (\<lambda>(ds', renamed').
       Inr (d\<lparr>do_id := i, do_properties := clean P (do_properties d)\<rparr> # ds', renamed')))"

definition renamed_id :: "(string, string) dict \<Rightarrow> string \<Rightarrow> string" where
  "renamed_id renamed i = (case map_of renamed i of None \<Rightarrow> i | Some j \<Rightarrow> j)"

definition project_endpoint :: "(string, string) dict \<Rightarrow> endpoint \<Rightarrow> endpoint" where
  "project_endpoint renamed p =
     (case p of
        EndRef r \<Rightarrow> EndRef (r\<lparr>er_id := renamed_id renamed (er_id r)\<rparr>)
      | EndId i \<Rightarrow> EndId (renamed_id renamed i))"

definition project_edge :: "pseudonymizer \<Rightarrow> (string, string) dict \<Rightarrow> ingest_edge \<Rightarrow> ingest_edge" where
  "project_edge P renamed r =
     r\<lparr>rl_source := project_endpoint renamed (rl_source r),
       rl_target := project_endpoint renamed (rl_target r),
       rl_properties := (case rl_properties r of
          None \<Rightarrow> None
        | Some ps \<Rightarrow> some_properties (clean P ps))\<rparr>"

definition project_set ::
  "(string \<Rightarrow> string \<Rightarrow> string) \<Rightarrow> pseudonymizer \<Rightarrow> ingest_set \<Rightarrow> ingest_exc + ingest_set" where
  "project_set hm P cs =
     bindR (project_entities hm P (ic_entities cs) []) (\<lambda>(es, renamed).
     bindR (project_documents hm P (ic_documents cs) renamed) (\<lambda>(ds, renamed').
       Inr (cs\<lparr>ic_entities := es, ic_documents := ds,
         ic_relationships := map (project_edge P renamed') (ic_relationships cs)\<rparr>)))"

section \<open>What a stream relies on\<close>

text \<open>A projection leaves what a checkpoint is made of, and the number of records.\<close>

locale checkpoint_neutral =
  fixes f :: "ingest_set \<Rightarrow> ingest_exc + ingest_set"
  assumes cursor_kept: "f cs = Inr cs' \<Longrightarrow> ic_cursor cs' = ic_cursor cs"
    and preserve_kept: "f cs = Inr cs' \<Longrightarrow> ic_preserve cs' = ic_preserve cs"
    and page_kept: "f cs = Inr cs' \<Longrightarrow> ic_source_page cs' = ic_source_page cs"
begin

lemma projection_keeps_cursor: "ss_projection S = Some f \<Longrightarrow> keeps_cursor S"
  using cursor_kept preserve_kept page_kept
  by (simp add: keeps_cursor_def projected_def preserves_cursor_def)

end

interpretation pseudonymized: checkpoint_neutral "project_set hm P"
  by unfold_locales (auto simp: project_set_def bindR_Inr)

lemma no_projection_keeps_cursor: "ss_projection S = None \<Longrightarrow> keeps_cursor S"
  by (auto simp: keeps_cursor_def projected_def)

text \<open>
  The projection renames entities and documents and the endpoints that name them; withdrawals and
  the identifiers of a reconciliation keep the provider's.
\<close>

lemma projection_keeps_withdrawals:
  "project_set hm P cs = Inr cs' \<Longrightarrow>
     ic_withdrawals cs' = ic_withdrawals cs \<and> ic_live_ids cs' = ic_live_ids cs \<and> ic_media cs' = ic_media cs"
  by (auto simp: project_set_def bindR_Inr)

lemma projected_ids:
  "project_entities hm P es renamed = Inr (es', renamed') \<Longrightarrow>
     list_all2 (\<lambda>e e'. opaque_id hm P (iy_node_type e) (iy_id e) = Inr (iy_id e')) es es'"
  by (induction es arbitrary: renamed es') (auto simp: bindR_Inr)

section \<open>Batches and edges\<close>

lemma chunks_concat: "0 < n \<Longrightarrow> concat (chunks n xs) = xs"
proof (induction n xs rule: chunks.induct)
  case (1 n xs)
  then show ?case by (subst chunks.simps) (cases "xs = []"; simp)
qed

text \<open>A program that never answers a count.\<close>

definition never_counts :: "('w, 'a option) ingest_prog \<Rightarrow> bool" where
  "never_counts m \<longleftrightarrow> (\<forall>s. wp m (\<lambda>c _. c = None) (\<lambda>_ _. True) s)"

lemma never_counts_first:
  "never_counts m \<Longrightarrow> never_counts (bindP m (\<lambda>c. case c of None \<Rightarrow> returnP None | Some x \<Rightarrow> f x))"
  unfolding never_counts_def wp_bind
  by (intro allI, erule allE, erule wp_mono) (simp_all add: wp_return)

lemma wp_true: "wp m (\<lambda>_ _. True) (\<lambda>_ _. True) s"
  by (simp add: wp_def split: prod.splits sum.splits)

lemma never_counts_then:
  assumes "\<And>x. never_counts (f x)"
  shows "never_counts (bindP m (\<lambda>c. case c of None \<Rightarrow> returnP None | Some x \<Rightarrow> f x))"
proof -
  have "wp (case c of None \<Rightarrow> returnP None | Some x \<Rightarrow> f x) (\<lambda>c _. c = None) (\<lambda>_ _. True) s" for c s
    using assms by (cases c) (simp_all add: wp_return never_counts_def)
  then show ?thesis
    unfolding never_counts_def wp_bind by (blast intro: wp_mono [OF wp_true])
qed

lemma never_counts_sets:
  "cs \<in> set css \<Longrightarrow> (\<And>s. never_counts (stream_submit cur S cs None ingest)) \<Longrightarrow>
     never_counts (commit_sets add cur S ingest css t)"
proof (induction css arbitrary: t)
  case (Cons c css)
  show ?case
  proof (cases "cs = c")
    case True
    with Cons.prems(2) show ?thesis by (simp add: never_counts_first)
  next
    case False
    with Cons.prems(1) have "never_counts (commit_sets add cur S ingest css u)" for u
      by (intro Cons.IH Cons.prems(2)) simp
    then show ?thesis by (simp add: never_counts_then)
  qed
qed simp

text \<open>An edge from an untyped record makes no request.\<close>

lemma untyped_source:
  assumes "rl_source r = EndId i" "types i = None"
  shows "relationship_request E b types r \<noteq> Inr x"
  using assms by (auto simp: relationship_request_def endpoint_request_def as_ref_def bindR_Inr)

lemma mapR_refuses: "r \<in> set rs \<Longrightarrow> (\<And>x. f r \<noteq> Inr x) \<Longrightarrow> mapR f rs \<noteq> Inr ys"
  by (induction rs arbitrary: ys) (auto simp: bindR_Inr)

lemma untyped_request:
  assumes "ib_contract_iri b = []" "ic_documents cs = []"
    and "r \<in> set (ic_relationships cs)" "rl_source r = EndId i" "types_of (ic_entities cs) i = None"
  shows "build_request E b cs previous [] \<noteq> Inr req"
proof -
  have "mapR (relationship_request E b (types_of (ic_entities cs))) (ic_relationships cs) \<noteq> Inr ys" for ys
    using assms(3) untyped_source [where types = "types_of (ic_entities cs)", OF assms(4,5)]
    by (rule mapR_refuses)
  with assms(1,2) show ?thesis
    by (auto simp: build_request_def expand_nested_def assemble_request_def bindR_Inr map_sum_Inr)
qed

text \<open>Such a change set is never committed, whatever the engine answers.\<close>

definition always_raises :: "('w, 'a) ingest_prog \<Rightarrow> bool" where
  "always_raises m \<longleftrightarrow> (\<forall>s. wp m (\<lambda>_ _. False) (\<lambda>_ _. True) s)"

lemma always_raises_then:
  assumes "\<And>x. always_raises (f x)"
  shows "always_raises (bindP m f)"
  using assms unfolding always_raises_def wp_bind by (blast intro: wp_mono [OF wp_true])

lemma always_raises_thenP: "always_raises n \<Longrightarrow> always_raises (thenP m n)"
  unfolding thenP_def by (rule always_raises_then)

lemma always_raises_lift: "(\<And>x. r \<noteq> Inr x) \<Longrightarrow> always_raises (bindP (liftP r) f)"
  by (cases r) (auto simp: always_raises_def wp_simps)

lemma attempt_raises:
  assumes "\<And>previous req. build_request (kn_env K) b cs previous media \<noteq> Inr req"
  shows "always_raises (kn_attempt K b cs media)"
  unfolding kn_attempt_def
  by (intro always_raises_thenP always_raises_then always_raises_lift assms)

lemma retrying_raises:
  assumes "\<And>previous req. build_request (kn_env K) b cs previous media \<noteq> Inr req"
  shows "always_raises (kn_retrying n K b cs media)"
proof (induction n)
  case (Suc n)
  show ?case
    unfolding kn_retrying.simps always_raises_def wp_catch
  proof (intro allI wp_mono [OF attempt_raises [OF assms, unfolded always_raises_def, rule_format]])
    show "case (case e of IngestConflict m \<Rightarrow> Some (if page_work cs then raiseP e else kn_retrying n K b cs media)
               | _ \<Rightarrow> None) of None \<Rightarrow> True | Some p \<Rightarrow> wp p (\<lambda>_ _. False) (\<lambda>_ _. True) s'" for e s'
      using Suc.IH by (simp add: always_raises_def wp_raise split: ingest_exc.split)
  qed
qed (simp add: always_raises_def wp_simps)

lemma submit_raises:
  fixes cur :: "ingest_exc + 'w knowledge"
  assumes "ss_projection S = None" "ic_media cs = []"
    and "\<And>E previous req. build_request E (ss_binding S) cs previous [] \<noteq> Inr req"
  shows "always_raises (stream_commit cur S cs None ingest)"
proof -
  have "always_raises (kn_commit K (ss_binding S) cs)" for K :: "'w knowledge"
    using retrying_raises [of K "ss_binding S" cs "[]"] assms(3)
    by (simp add: kn_commit_def guarded_def always_raises_def wp_simps assms(2))
  then have "always_raises (kn_submit K (ss_binding S) cs)" for K :: "'w knowledge"
    by (fastforce simp: always_raises_def kn_submit_def wp_def split: prod.splits sum.splits)
  then show ?thesis
    unfolding stream_commit_def
    by (simp add: projected_def assms(1) target_binding_def always_raises_def wp_simps split: sum.splits)
qed

lemma submit_never:
  assumes "ss_projection S = None" "ic_media cs = []"
    and "\<And>E previous req. build_request E (ss_binding S) cs previous [] \<noteq> Inr req"
  shows "never_counts (stream_submit cur S cs None ingest)"
proof -
  have "wp (submit_receipt cur S cs None ingest) (\<lambda>c _. c = None) (\<lambda>_ _. True) s" for s
    unfolding submit_receipt_def wp_catch wp_bind
    using submit_raises [OF assms]
    by (rule wp_mono [OF always_raises_def [THEN iffD1, rule_format]]) (auto simp: wp_simps)
  then show ?thesis
    unfolding never_counts_def stream_submit_def wp_bind
    by (intro allI) (rule wp_mono, simp_all add: wp_return)
qed

lemma chunk_of: "x \<in> set xs \<Longrightarrow> 0 < n \<Longrightarrow> \<exists>c \<in> set (chunks n xs). x \<in> set c"
  using chunks_concat [of n xs] by (metis UN_iff set_concat)

lemma untyped_edge_set:
  assumes "md_entities m = e # es" "r \<in> set (md_relationships m)" "rl_source r = EndId i"
    and "i \<noteq> iy_id e" "ib_contract_iri b = []" "0 < n"
  shows "\<exists>cs \<in> set (edge_sets n page m). ic_media cs = []
     \<and> (\<forall>E previous req. build_request E b cs previous [] \<noteq> Inr req)"
proof -
  obtain rs where rs: "rs \<in> set (chunks n (md_relationships m))" "r \<in> set rs"
    using chunk_of assms(2,6) by metis
  let ?cs = "no_changes\<lparr>ic_entities := [hd (md_entities m)], ic_relationships := rs,
                  ic_preserve := True, ic_source_page := page\<rparr>"
  have "build_request E b ?cs previous [] \<noteq> Inr req" for E previous req
    by (rule untyped_request [where r = r and i = i])
      (use assms rs in \<open>auto simp: no_changes_def types_of_def\<close>)
  with rs show ?thesis by (auto simp: edge_sets_def no_changes_def)
qed


section \<open>A stream over a small engine\<close>

text \<open>
  An engine that keeps one stream: it takes a request that expects the checkpoint it has and
  answers a conflict to any other.
\<close>

definition demo_env :: ingest_env where
  "demo_env =
     \<lparr>py_sha256 = (\<lambda>s. s), py_float_repr = (\<lambda>_. []), py_container_text = (\<lambda>_. []),
       ie_valid = (\<lambda>_. True), ie_json_object = (\<lambda>_. True), ie_guard = (\<lambda>_ ps. ps),
       ie_dump_record = (\<lambda>_. JNull), ie_dump_edge = (\<lambda>_. JNull)\<rparr>"

definition demo_submit :: "src_request \<Rightarrow> (src_checkpoint option, src_receipt) ingest_port" where
  "demo_submit req w =
     (if xq_previous req \<noteq> w then (Inl (IngestConflict ''the stream checkpoint moved''), w)
      else (Inr \<lparr>re_id = [], re_batch_digest = [], re_accepted = xq_checkpoint req,
              re_mode = xq_mode req, re_content_hash = [], re_affected = length (xq_records req),
              re_relationships = length (xq_relationships req), re_mappings = []\<rparr>,
            Some (xq_checkpoint req)))"

definition demo_transport :: "src_checkpoint option ingest_transport" where
  "demo_transport =
     \<lparr>it_submit = demo_submit,
       it_status = (\<lambda>c st w. (Inr \<lparr>st_connector = c, st_stream = st, st_accepted = w\<rparr>, w)),
       it_blob = (\<lambda>_ w. (Inr [], w)), it_contract = None\<rparr>"

definition demo_knowledge :: "src_checkpoint option knowledge" where
  "demo_knowledge = \<lparr>kn_env = demo_env, kn_transport = demo_transport, kn_attempts = 3\<rparr>"

definition demo_binding :: ingest_binding where
  "demo_binding =
     \<lparr>ib_connector = ''demo'', ib_stream = ''items'', ib_server = [], ib_tool = ''t'',
       ib_document_type = ''Document'', ib_media_type = ''Media'', ib_strict = False,
       ib_sanitize = False, ib_citable = {}, ib_contract_iri = [], ib_contract_revision = [],
       ib_contract_digest = [], ib_cursor_policy = [], ib_nested = []\<rparr>"

definition demo_stream :: "int option \<Rightarrow> source_stream" where
  "demo_stream batch =
     \<lparr>ss_binding = demo_binding,
       ss_mappers = [(''item'', OneMapper (\<lambda>rs. foldR (\<lambda>r. mapped_entity (py_str (pyenv.truncate demo_env)
         (get r ''id'')) ''Item'' []) rs mapped_new))],
       ss_documents = None, ss_best_effort = False, ss_projection = None, ss_before = None,
       ss_max_records = None, ss_batch_size = batch\<rparr>"

definition demo_fetch :: "src_checkpoint option fetch_page" where
  "demo_fetch c w =
     (Inr (if c = None then ([[(''id'', JStr ''1'')]], JStr ''a'') else ([[(''id'', JStr ''2'')]], JNull)), w)"

definition demo_sync :: "(ingest_exc + counts) \<times> src_checkpoint option ingest_state" where
  "demo_sync =
     sync_stream_pages (Inl (IngestUnavailable [])) (demo_stream (Some 1)) ''item'' demo_fetch
       (Some demo_knowledge) True (Some 3) None \<lparr>is_world = None, is_log = []\<rparr>"

lemma demo_sync_counts: "fst demo_sync = Inr (2, 0) \<and> fetched_at (view (snd demo_sync)) = [None, Some ''a'']"
  unfolding demo_sync_def by code_simp

theorem sync_walks_pages_witness:
  "case demo_sync of (r, s') \<Rightarrow> r = Inr (2, 0)
     \<and> (\<exists>c evs. view s' = evs \<and> follows c evs \<and> evs \<noteq> [] \<and> distinct (fetched_at evs))"
proof -
  have "keeps_cursor (demo_stream (Some 1))"
    by (rule no_projection_keeps_cursor) (simp add: demo_stream_def)
  from sync_walks_pages [OF this, where cur = "Inl (IngestUnavailable [])" and kind = "''item''"
      and fetch = demo_fetch and ingest = "Some demo_knowledge" and resume = True and pages = "Some 3"
      and st = None and s = "\<lparr>is_world = None, is_log = []\<rparr>"] demo_sync_counts
  show ?thesis unfolding demo_sync_def
    by (auto simp: view_def split: prod.splits)
qed

definition demo_mapped :: mapped where
  "demo_mapped =
     \<lparr>md_entities = map (\<lambda>i. \<lparr>iy_id = i, iy_node_type = ''Item'', iy_properties = [],
         iy_updated_at = JNull, iy_source_uri = JNull\<rparr>) [''1'', ''2''],
       md_relationships = [\<lparr>rl_source = EndId ''2'', rl_target = EndId ''1'', rl_relationship = ''of'',
         rl_properties = None\<rparr>],
       md_documents = [], md_seen = {''1'', ''2''}\<rparr>"


end
