(* ===== verification/Tool_Preset.thy ===== *)
theory Tool_Preset
  imports Sync_Records Schema_Drift
begin

text \<open>
  The declarative presets of \<^verbatim>\<open>manifest/presets.py\<close> (\<^verbatim>\<open>ToolPreset\<close>): the record
  with the source's field names, the problems that its validators look for, and the separation of
  a JSON object into extraction fields and mapping hints. Parsing the fields themselves is the
  validation library's and a parameter.
\<close>

section \<open>Exceptions of the adapter\<close>

text \<open>
  \<open>ToolSchema\<close> is \<^verbatim>\<open>ToolSchemaContractError\<close>, \<open>SourceContract\<close> and \<open>MalformedSource\<close> the
  errors of \<^verbatim>\<open>ports/errors.py\<close>, \<open>FanOutRefused\<close> is \<^verbatim>\<open>ForEachRefusal\<close> and
  \<open>ToolForeign\<close> any other exception by the name of its class. Messages are abridged.
\<close>

datatype tool_exc =
    ToolSchema string
  | SourceContract string
  | MalformedSource string
  | FanOutRefused fan_out_refusal
  | ToolForeign string

section \<open>Presets\<close>

datatype page_kind = KindNumber | KindOffset

datatype params_style = JsonParams | ArgsParams

datatype result_contract = GenericResult | PlatformContract | EnterpriseContract

datatype record_mode = DocumentRecords | TypedEntities

record tool_preset =
  tp_name :: string
  tp_server :: string
  tp_tool :: string
  tp_action :: string
  tp_action_param :: string
  tp_params :: "(string, json) dict"
  tp_params_style :: params_style
  tp_params_arg :: string
  tp_arguments :: "(string, json) dict"
  tp_records_path :: string
  tp_result_contract :: result_contract
  tp_records_is_mapping :: bool
  tp_mapping_key_field :: string
  tp_id_field :: string
  tp_title_field :: string
  tp_text_field :: string
  tp_updated_field :: string
  tp_doc_type :: string
  tp_pagination :: pagination
  tp_cursor_param :: string
  tp_cursor_path :: string
  tp_cursor_record_field :: string
  tp_more_path :: string
  tp_page_param :: string
  tp_page_size_param :: string
  tp_page_size :: nat
  tp_page_kind :: "page_kind option"
  tp_start_page :: nat
  tp_updated_since_param :: string
  tp_max_pages :: nat
  tp_mode_param :: string
  tp_record_mode :: record_mode
  tp_node_type_field :: string
  tp_checkpoint_path :: string
  tp_content_hash_path :: string
  tp_relationships_path :: string
  tp_relationship_source_field :: string
  tp_relationship_target_field :: string
  tp_relationship_type_field :: string
  tp_relationship_properties_field :: string
  tp_reconcile_path :: string
  tp_authoritative_path :: string
  tp_withdrawals_path :: string
  tp_withdrawal_id_field :: string
  tp_withdrawal_reason_field :: string
  tp_evolution_policy :: evolution_policy
  tp_strict_schema :: bool
  tp_content_fields :: "string list"
  tp_metadata_fields :: "string list"
  tp_mapping_hints :: "(string, json) dict"
  tp_for_each :: "for_each option"

text \<open>
  A declaration of which only the required fields are set takes these. The bounds of the fields
  (\<^theory_text>\<open>ge\<close>, \<^theory_text>\<open>le\<close>, \<^theory_text>\<open>min_length\<close>) belong to their parsing.
\<close>

definition default_preset :: "string \<Rightarrow> string \<Rightarrow> string \<Rightarrow> tool_preset" where
  "default_preset name server tool =
     \<lparr>tp_name = name, tp_server = server, tp_tool = tool, tp_action = [],
       tp_action_param = ''action'', tp_params = [], tp_params_style = JsonParams,
       tp_params_arg = ''params_json'', tp_arguments = [], tp_records_path = [],
       tp_result_contract = GenericResult, tp_records_is_mapping = False,
       tp_mapping_key_field = ''source_key'', tp_id_field = ''id'',
       tp_title_field = ''title'', tp_text_field = ''text'', tp_updated_field = [],
       tp_doc_type = ''document'',
       tp_pagination = PageNone, tp_cursor_param = [], tp_cursor_path = [],
       tp_cursor_record_field = [], tp_more_path = [], tp_page_param = [],
       tp_page_size_param = [], tp_page_size = 100, tp_page_kind = None, tp_start_page = 0,
       tp_updated_since_param = [], tp_max_pages = 100, tp_mode_param = ''mode'',
       tp_record_mode = DocumentRecords, tp_node_type_field = [], tp_checkpoint_path = [],
       tp_content_hash_path = ''content_hash'', tp_relationships_path = [],
       tp_relationship_source_field = ''source'', tp_relationship_target_field = ''target'',
       tp_relationship_type_field = ''relationship'', tp_relationship_properties_field = [],
       tp_reconcile_path = [], tp_authoritative_path = [], tp_withdrawals_path = [],
       tp_withdrawal_id_field = ''id'', tp_withdrawal_reason_field = ''reason'',
       tp_evolution_policy = ReviewPolicy, tp_strict_schema = False, tp_content_fields = [],
       tp_metadata_fields = [], tp_mapping_hints = [], tp_for_each = None\<rparr>"

section \<open>Problems of a declaration\<close>

definition failed_checks :: "(bool \<times> string) list \<Rightarrow> string list" where
  "failed_checks checks = map snd (filter fst checks)"

lemma failed_checks_Nil: "failed_checks checks = [] \<longleftrightarrow> (\<forall>c \<in> set checks. \<not> fst c)"
  by (simp add: failed_checks_def filter_empty_conv)

primrec mode_text :: "pagination \<Rightarrow> string" where
  "mode_text PageNone = ''none''"
| "mode_text PageCursor = ''cursor''"
| "mode_text PagePage = ''page''"
| "mode_text PageOffset = ''offset''"

fun kind_text :: "page_kind option \<Rightarrow> string" where
  "kind_text None = ''None''"
| "kind_text (Some KindNumber) = ''number''"
| "kind_text (Some KindOffset) = ''offset''"

text \<open>\<^verbatim>\<open>_PAGE_KINDS\<close>.\<close>

primrec page_kinds :: "pagination \<Rightarrow> page_kind option set" where
  "page_kinds PageNone = {None}"
| "page_kinds PageCursor = {None}"
| "page_kinds PagePage = {None, Some KindNumber}"
| "page_kinds PageOffset = {None, Some KindOffset}"

definition numbered_mode :: "pagination \<Rightarrow> bool" where
  "numbered_mode mode \<longleftrightarrow> mode \<in> {PagePage, PageOffset}"

definition pagination_problems :: "tool_preset \<Rightarrow> string list" where
  "pagination_problems p =
     (let mode = tp_pagination p in failed_checks
       [(tp_page_kind p \<notin> page_kinds mode,
           ''page_kind '' @ kind_text (tp_page_kind p) @ '' does not apply to '' @ mode_text mode
             @ '' pagination''),
        (mode = PageCursor \<and> tp_cursor_param p = [], ''cursor pagination needs cursor_param''),
        (mode = PageCursor \<and> \<not> (tp_cursor_path p \<noteq> [] \<or> tp_cursor_record_field p \<noteq> []),
           ''cursor pagination needs cursor_path or cursor_record_field''),
        (numbered_mode mode \<and> tp_page_param p = [], mode_text mode @ '' pagination needs page_param''),
        (mode = PageOffset \<and> tp_start_page p \<noteq> 0,
           ''offset pagination starts at offset 0; start_page does not apply'')])"

definition entity_lifecycle_problems :: "tool_preset \<Rightarrow> string list" where
  "entity_lifecycle_problems p =
     (let typed = tp_record_mode p = TypedEntities in failed_checks
       [(typed \<and> tp_node_type_field p = [], ''typed_entities needs node_type_field''),
        (\<not> typed \<and> tp_node_type_field p \<noteq> [], ''node_type_field applies only to typed_entities''),
        (tp_relationships_path p \<noteq> [] \<and> \<not> typed, ''relationships_path requires typed_entities''),
        (tp_relationships_path p \<noteq> []
           \<and> \<not> (tp_relationship_source_field p \<noteq> [] \<and> tp_relationship_target_field p \<noteq> []
                \<and> tp_relationship_type_field p \<noteq> []),
           ''relationships need source, target, and type fields'')])"

definition state_lifecycle_problems :: "tool_preset \<Rightarrow> string list" where
  "state_lifecycle_problems p =
     (let reconciles = tp_reconcile_path p \<noteq> [] \<or> tp_authoritative_path p \<noteq> [] in failed_checks
       [(reconciles \<and> \<not> (tp_reconcile_path p \<noteq> [] \<and> tp_authoritative_path p \<noteq> []),
           ''reconciliation needs reconcile_path and authoritative_path''),
        (tp_strict_schema p \<and> tp_metadata_fields p = [], ''strict_schema needs metadata_fields''),
        (tp_checkpoint_path p \<noteq> [] \<and> tp_updated_since_param p = [],
           ''checkpoint_path requires updated_since_param''),
        (tp_withdrawals_path p \<noteq> []
           \<and> \<not> (tp_withdrawal_id_field p \<noteq> [] \<and> tp_withdrawal_reason_field p \<noteq> []),
           ''withdrawals need id and reason fields'')])"

definition lifecycle_problems :: "tool_preset \<Rightarrow> string list" where
  "lifecycle_problems p = entity_lifecycle_problems p @ state_lifecycle_problems p"

definition preset_new :: "tool_preset \<Rightarrow> string list + tool_preset" where
  "preset_new p =
     (let problems = pagination_problems p @ lifecycle_problems p in
      andR (refuse_if (problems \<noteq> []) problems) (Inr p))"

section \<open>Presets from a mapping\<close>

definition extraction_keys :: "string set" where
  "extraction_keys = set
     [''server'', ''tool'', ''action'', ''action_param'', ''params'', ''params_style'',
      ''params_arg'', ''arguments'', ''records_path'', ''result_contract'',
      ''records_is_mapping'', ''mapping_key_field'', ''id_field'', ''title_field'',
      ''text_field'', ''updated_field'', ''doc_type'', ''pagination'', ''cursor_param'',
      ''cursor_path'', ''cursor_record_field'', ''more_path'', ''page_param'',
      ''page_size_param'', ''page_size'', ''page_kind'', ''start_page'',
      ''updated_since_param'', ''max_pages'', ''mode_param'', ''record_mode'',
      ''node_type_field'', ''checkpoint_path'', ''content_hash_path'',
      ''relationships_path'', ''relationship_source_field'', ''relationship_target_field'',
      ''relationship_type_field'', ''relationship_properties_field'', ''reconcile_path'',
      ''authoritative_path'', ''withdrawals_path'', ''withdrawal_id_field'',
      ''withdrawal_reason_field'', ''strict_schema'', ''evolution_policy'',
      ''content_fields'', ''metadata_fields'', ''for_each'']"

text \<open>\<open>parse name hints extraction\<close> is the library's reading of the fields.\<close>

definition require_record_identity :: "(string, json) dict \<Rightarrow> string list + unit" where
  "require_record_identity d =
     refuse_if (map_of d ''id_field'' = Some (JStr [])) [''preset has an empty id_field'']"

definition preset_from_mapping ::
  "(string \<Rightarrow> (string, json) dict \<Rightarrow> (string, json) dict \<Rightarrow> string list + tool_preset) \<Rightarrow>
     string \<Rightarrow> (string, json) dict \<Rightarrow> string list + tool_preset" where
  "preset_from_mapping parse name raw =
     (let present = filter (\<lambda>(k, v). v \<noteq> JNull) raw;
          extraction = filter (\<lambda>(k, v). k \<in> extraction_keys) present;
          hints = filter (\<lambda>(k, v). k \<notin> extraction_keys) present
      in andR (require_record_identity extraction)
           (bindR (parse name hints extraction) preset_new))"

section \<open>What acceptance gives\<close>

definition preset_ok :: "tool_preset \<Rightarrow> bool" where
  "preset_ok p \<longleftrightarrow> pagination_problems p = [] \<and> lifecycle_problems p = []"

lemma preset_new_Inr [result_iff]: "preset_new p = Inr q \<longleftrightarrow> q = p \<and> preset_ok p"
  by (auto simp: preset_new_def preset_ok_def Let_def result_iff)

lemma preset_ok_cursor:
  "preset_ok p \<Longrightarrow> tp_pagination p = PageCursor \<Longrightarrow>
     tp_cursor_param p \<noteq> [] \<and> (tp_cursor_path p \<noteq> [] \<or> tp_cursor_record_field p \<noteq> [])"
  by (auto simp: preset_ok_def pagination_problems_def Let_def failed_checks_Nil)

lemma preset_ok_numbered: "preset_ok p \<Longrightarrow> numbered_mode (tp_pagination p) \<Longrightarrow> tp_page_param p \<noteq> []"
  by (auto simp: preset_ok_def pagination_problems_def Let_def failed_checks_Nil)

lemma preset_ok_typed:
  "preset_ok p \<Longrightarrow> tp_relationships_path p \<noteq> [] \<Longrightarrow>
     tp_record_mode p = TypedEntities \<and> tp_node_type_field p \<noteq> []"
  by (auto simp: preset_ok_def lifecycle_problems_def entity_lifecycle_problems_def Let_def
      failed_checks_Nil)

lemma preset_ok_reconcile:
  "preset_ok p \<Longrightarrow> tp_authoritative_path p \<noteq> [] \<longleftrightarrow> tp_reconcile_path p \<noteq> []"
  by (auto simp: preset_ok_def lifecycle_problems_def state_lifecycle_problems_def Let_def
      failed_checks_Nil)

end
