(* ===== verification/Tool_Contract.thy ===== *)
theory Tool_Contract
  imports Tool_Preset
begin

text \<open>
  The live contract of a tool: the canonical schemas and fingerprints of
  \<^verbatim>\<open>manifest/tool_schema.py\<close> and the validation of \<^verbatim>\<open>manifest/live_contract.py\<close>.
  A tool is its wire mapping, on which \<^verbatim>\<open>_jsonable\<close> is the identity and
  \<^verbatim>\<open>read_field\<close> a lookup.
\<close>

section \<open>Canonical schemas\<close>

definition read_field :: "json \<Rightarrow> string list \<Rightarrow> json" where
  "read_field v names =
     (case v of
        JObj kvs \<Rightarrow>
          (case filter (\<lambda>n. map_of kvs n \<noteq> None) names of [] \<Rightarrow> JNull | n # _ \<Rightarrow> get kvs n)
      | _ \<Rightarrow> JNull)"

definition keep_key :: "bool \<Rightarrow> string \<Rightarrow> bool" where
  "keep_key inc key \<longleftrightarrow>
     key \<noteq> ''default''
     \<and> (inc \<or> key \<notin> {''$comment'', ''description'', ''examples'', ''title''})"

fun as_text :: "json \<Rightarrow> string option" where
  "as_text (JStr s) = Some s"
| "as_text _ = None"

text \<open>\<^theory_text>\<open>sorted(items)\<close> when every item is text.\<close>

definition sorted_texts :: "json list \<Rightarrow> json list" where
  "sorted_texts items =
     (if list_all (\<lambda>v. as_text v \<noteq> None) items
      then map JStr (sort (map (\<lambda>v. the (as_text v)) items)) else items)"

fun tool_normalize :: "bool \<Rightarrow> json \<Rightarrow> json"
and tool_items :: "bool \<Rightarrow> json list \<Rightarrow> json list"
and tool_members :: "bool \<Rightarrow> (string \<times> json) list \<Rightarrow> (string \<times> json) list" where
  "tool_normalize inc (JObj kvs) = JObj (sort_key fst (tool_members inc kvs))"
| "tool_normalize inc (JArr xs) = JArr (sorted_texts (tool_items inc xs))"
| "tool_normalize inc v = v"
| "tool_items inc [] = []"
| "tool_items inc (x # xs) = tool_normalize inc x # tool_items inc xs"
| "tool_members inc [] = []"
| "tool_members inc ((k, v) # kvs) =
     (if keep_key inc k then (k, tool_normalize inc v) # tool_members inc kvs
      else tool_members inc kvs)"

definition input_names :: "string list" where
  "input_names = [''inputSchema'', ''input_schema'']"

definition output_names :: "string list" where
  "output_names = [''outputSchema'', ''output_schema'']"

definition canonical_input_schema :: "bool \<Rightarrow> json \<Rightarrow> tool_exc + (string, json) dict" where
  "canonical_input_schema inc tool =
     (let raw = read_field tool input_names in
      case tool_normalize inc (if truthy raw then raw else JObj []) of
        JObj kvs \<Rightarrow> Inr kvs
      | _ \<Rightarrow> Inl (ToolSchema ''live MCP tool input schema is not an object''))"

definition canonical_output_schema :: "bool \<Rightarrow> json \<Rightarrow> tool_exc + (string, json) dict option" where
  "canonical_output_schema inc tool =
     (let raw = read_field tool output_names in
      if raw = JNull then Inr None
      else case tool_normalize inc raw of
        JObj kvs \<Rightarrow> Inr (Some kvs)
      | _ \<Rightarrow> Inl (ToolSchema ''live MCP tool output schema is not an object''))"

section \<open>Fingerprints\<close>

definition exact_domain :: string where
  "exact_domain = ''agent-connector-sdk:mcp-tool-contract:v2'' @ [CHR 0x00]"

definition compatibility_domain :: string where
  "compatibility_domain = ''agent-connector-sdk:mcp-tool-contract-compat:v2'' @ [CHR 0x00]"

definition fingerprint_payload ::
  "string \<Rightarrow> (string, json) dict \<Rightarrow> (string, json) dict option \<Rightarrow> json" where
  "fingerprint_payload name input output =
     JObj [(''input_schema'', JObj input), (''name'', JStr name),
       (''output_schema'', case output of None \<Rightarrow> JNull | Some d \<Rightarrow> JObj d)]"

definition tool_fingerprint ::
  "pyenv \<Rightarrow> string \<Rightarrow> string \<Rightarrow> (string, json) dict \<Rightarrow> (string, json) dict option \<Rightarrow> string" where
  "tool_fingerprint py domain name input output =
     digest (\<lambda>e. py_sha256 py (domain @ e)) (py_float_repr py)
       (fingerprint_payload name input output)"

definition schema_fingerprint ::
  "pyenv \<Rightarrow> string \<Rightarrow> (string, json) dict \<Rightarrow> (string, json) dict option \<Rightarrow> string" where
  "schema_fingerprint py = tool_fingerprint py exact_domain"

definition compatibility_fingerprint ::
  "pyenv \<Rightarrow> string \<Rightarrow> (string, json) dict \<Rightarrow> (string, json) dict option \<Rightarrow> string" where
  "compatibility_fingerprint py = tool_fingerprint py compatibility_domain"

text \<open>The exact and the compatibility fingerprint of a tool.\<close>

definition contract_digests :: "pyenv \<Rightarrow> json \<Rightarrow> string \<Rightarrow> tool_exc + string \<times> string" where
  "contract_digests py tool name =
     bindR (canonical_input_schema False tool) (\<lambda>compatible_input.
     andR (refuse_if (compatible_input = []) (ToolSchema ''live MCP tool has an empty input schema''))
    (bindR (canonical_output_schema False tool) (\<lambda>compatible_output.
     bindR (canonical_input_schema True tool) (\<lambda>exact_input.
     bindR (canonical_output_schema True tool) (\<lambda>exact_output.
       Inr (schema_fingerprint py name exact_input exact_output,
            compatibility_fingerprint py name compatible_input compatible_output))))))"

section \<open>The listed tool\<close>

definition tool_name :: "pyenv \<Rightarrow> json \<Rightarrow> string" where
  "tool_name py tool =
     (let n = read_field tool [''name''] in if truthy n then py_str py n else [])"

definition single_tool :: "pyenv \<Rightarrow> json \<Rightarrow> string \<Rightarrow> tool_exc + json" where
  "single_tool py listed name =
     (let tools = read_field listed [''tools''];
          listing = (if tools = JNull then listed else tools)
      in case listing of
        JArr items \<Rightarrow>
          (case filter (\<lambda>t. tool_name py t = name) items of
             [t] \<Rightarrow> Inr t
           | [] \<Rightarrow> Inl (ToolSchema ''live MCP server does not expose pinned tool'')
           | _ \<Rightarrow> Inl (ToolSchema ''live MCP server duplicates pinned tool''))
      | _ \<Rightarrow> Inl (ToolSchema ''MCP list_tools response has no tool list''))"

section \<open>Required arguments\<close>

definition declared_types :: "pyenv \<Rightarrow> (string, json) dict \<Rightarrow> string set" where
  "declared_types py spec =
     (case get spec ''type'' of
        JStr s \<Rightarrow> {s}
      | JArr items \<Rightarrow> set (map (py_str py) (filter (\<lambda>v. v \<noteq> JStr ''null'') items))
      | _ \<Rightarrow>
          (case get spec ''anyOf'' of
             JArr items \<Rightarrow>
               set (concat (map (\<lambda>item. case item of
                   JObj kvs \<Rightarrow> (if get kvs ''type'' \<in> {JNull, JStr ''null''} then []
                                else [py_str py (get kvs ''type'')])
                 | _ \<Rightarrow> []) items))
           | _ \<Rightarrow> {}))"

definition argument_spec :: "(string, json) dict \<Rightarrow> string \<Rightarrow> (string, json) dict option" where
  "argument_spec schema argument =
     (case get schema ''properties'' of
        JObj props \<Rightarrow> (case get props argument of JObj spec \<Rightarrow> Some spec | _ \<Rightarrow> None)
      | _ \<Rightarrow> None)"

fun check_types ::
  "pyenv \<Rightarrow> (string, json) dict \<Rightarrow> (string \<times> string) list \<Rightarrow> tool_exc + unit" where
  "check_types py schema [] = Inr ()"
| "check_types py schema ((argument, expected) # rest) =
     (case argument_spec schema argument of
        None \<Rightarrow> Inl (ToolSchema (''live MCP tool is missing pinned argument '' @ argument))
      | Some spec \<Rightarrow>
          andR (refuse_if (expected \<notin> declared_types py spec)
                 (ToolSchema (''live MCP tool argument '' @ argument @ '' is not '' @ expected)))
            (check_types py schema rest))"

definition check_argument_types ::
  "pyenv \<Rightarrow> (string, json) dict \<Rightarrow> (string, string) dict \<Rightarrow> tool_exc + unit" where
  "check_argument_types py schema required = check_types py schema (sort_key fst required)"

definition enum_of :: "pyenv \<Rightarrow> (string, json) dict option \<Rightarrow> string set" where
  "enum_of py spec =
     (case spec of
        None \<Rightarrow> {}
      | Some kvs \<Rightarrow>
          (case get kvs ''enum'' of
             JArr items \<Rightarrow> set (map (py_str py) items)
           | _ \<Rightarrow> (case map_of kvs ''const'' of None \<Rightarrow> {} | Some c \<Rightarrow> {py_str py c})))"

fun check_enums ::
  "pyenv \<Rightarrow> (string, json) dict \<Rightarrow> (string \<times> string list) list \<Rightarrow> tool_exc + unit" where
  "check_enums py schema [] = Inr ()"
| "check_enums py schema ((argument, actions) # rest) =
     andR (refuse_if (\<not> set actions \<subseteq> enum_of py (argument_spec schema argument))
            (ToolSchema (''live MCP tool argument '' @ argument @ '' does not enumerate actions'')))
       (check_enums py schema rest)"

definition check_argument_enums ::
  "pyenv \<Rightarrow> (string, json) dict \<Rightarrow> (string, string list) dict \<Rightarrow> tool_exc + unit" where
  "check_argument_enums py schema required = check_enums py schema (sort_key fst required)"

fun preset_requirements ::
  "string \<Rightarrow> tool_preset list \<Rightarrow> (string, string) dict \<Rightarrow> (string, string list) dict \<Rightarrow>
     tool_exc + (string, string) dict \<times> (string, string list) dict" where
  "preset_requirements name [] required enums = Inr (required, enums)"
| "preset_requirements name (p # ps) required enums =
     andR (refuse_if (tp_tool p \<noteq> name) (ToolSchema ''preset names another tool''))
       (let acts = tp_action p \<noteq> [];
            required1 = (if acts then dict_set (tp_action_param p) ''string'' required else required);
            known = (case map_of enums (tp_action_param p) of None \<Rightarrow> [] | Some vs \<Rightarrow> vs);
            enums1 = (if acts
              then dict_set (tp_action_param p) (List.insert (tp_action p) known) enums else enums);
            required2 = (if tp_params_style p = JsonParams
              then dict_set (tp_params_arg p) ''string'' required1 else required1)
        in preset_requirements name ps required2 enums1)"

section \<open>The validated contract\<close>

record live_contract =
  lc_name :: string
  lc_exact :: string
  lc_compatible :: string
  lc_contract :: schema_contract

definition tool_schema_contract :: "pyenv \<Rightarrow> json \<Rightarrow> tool_exc + schema_contract" where
  "tool_schema_contract py tool =
     map_sum (\<lambda>e. ToolForeign (case e of ValueErr \<Rightarrow> ''ValueError'' | TypeErr \<Rightarrow> ''TypeError'')) id
       (from_schema (py_float_repr py)
         [(''type'', JStr ''object''),
          (''properties'', JObj [(''input'', read_field tool input_names),
            (''output'', read_field tool output_names)])] [])"

definition validate_live_tool_contract ::
  "pyenv \<Rightarrow> json \<Rightarrow> string \<Rightarrow> string \<Rightarrow> (string, string) dict \<Rightarrow> (string, string list) dict \<Rightarrow>
     tool_exc + live_contract" where
  "validate_live_tool_contract py listed name pin types enums =
     bindR (single_tool py listed name) (\<lambda>tool.
     bindR (canonical_input_schema False tool) (\<lambda>schema.
     bindR (contract_digests py tool name) (\<lambda>(exact, compatible).
     andR (check_argument_types py schema types)
    (andR (check_argument_enums py schema enums)
    (let expected = map lower_char (py_strip pin) in
     andR (refuse_if (expected \<noteq> [] \<and> compatible \<noteq> expected)
            (ToolSchema ''live MCP tool schema fingerprint differs''))
    (bindR (tool_schema_contract py tool) (\<lambda>c.
       Inr \<lparr>lc_name = name, lc_exact = exact, lc_compatible = compatible, lc_contract = c\<rparr>)))))))"

definition validate_preset_tool_contract ::
  "pyenv \<Rightarrow> json \<Rightarrow> string \<Rightarrow> tool_preset list \<Rightarrow> string \<Rightarrow> tool_exc + live_contract" where
  "validate_preset_tool_contract py listed name presets pin =
     bindR (preset_requirements name presets [] []) (\<lambda>(types, enums).
       validate_live_tool_contract py listed name pin types enums)"

section \<open>What a validated contract says\<close>

lemma single_tool_Inr:
  "single_tool py listed name = Inr tool \<Longrightarrow>
     \<exists>items. (listed = JArr items \<or> read_field listed [''tools''] = JArr items)
       \<and> filter (\<lambda>t. tool_name py t = name) items = [tool]"
  by (auto simp: single_tool_def Let_def split: json.splits list.splits if_splits)

lemma validated_contract:
  assumes "validate_live_tool_contract py listed name pin types enums = Inr c"
  obtains tool input outs where
    "single_tool py listed name = Inr tool"
    "canonical_input_schema False tool = Inr input" "input \<noteq> []"
    "canonical_output_schema False tool = Inr outs"
    "lc_compatible c = compatibility_fingerprint py name input outs"
    "check_argument_types py input types = Inr ()"
    "check_argument_enums py input enums = Inr ()"
    "map lower_char (py_strip pin) \<in> {[], lc_compatible c}"
  using assms
  by (auto simp: validate_live_tool_contract_def contract_digests_def Let_def result_iff
      split: prod.splits)

section \<open>What the fingerprints leave out\<close>

definition object_tool :: "string \<Rightarrow> (string, json) dict \<Rightarrow> json" where
  "object_tool name props =
     JObj [(''name'', JStr name),
       (''inputSchema'', JObj [(''properties'', JObj props), (''type'', JStr ''object'')])]"

lemma tool_members_drop:
  "\<not> keep_key inc k \<Longrightarrow> tool_members inc (props @ (k, v) # rest) = tool_members inc (props @ rest)"
  by (induction props) auto

lemma object_tool_input:
  "read_field (object_tool name props) input_names
     = JObj [(''properties'', JObj props), (''type'', JStr ''object'')]"
  "read_field (object_tool name props) output_names = JNull"
  by (simp_all add: read_field_def object_tool_def input_names_def output_names_def get_def)

lemma object_tool_canonical:
  "canonical_input_schema inc (object_tool name props) =
     Inr (sort_key fst [(''properties'', JObj (sort_key fst (tool_members inc props))),
       (''type'', JStr ''object'')])"
  "canonical_output_schema inc (object_tool name props) = Inr None"
  unfolding canonical_input_schema_def canonical_output_schema_def object_tool_input
  by (simp_all add: keep_key_def)

lemma object_tool_listed:
  "single_tool py (JArr [object_tool name props]) name = Inr (object_tool name props)"
  by (auto simp: single_tool_def tool_name_def read_field_def object_tool_def get_def)

lemma hidden_argument_refused:
  assumes "\<not> keep_key False key"
  shows "validate_live_tool_contract py (JArr [object_tool name [(key, a)]]) name pin
           [(key, kind)] enums
         = Inl (ToolSchema (''live MCP tool is missing pinned argument '' @ key))"
  using assms
  by (simp add: validate_live_tool_contract_def object_tool_listed contract_digests_def
      object_tool_canonical check_argument_types_def argument_spec_def get_def)

text \<open>
  The normal form drops the keys \<^verbatim>\<open>title\<close>, \<^verbatim>\<open>description\<close>, \<^verbatim>\<open>examples\<close>, \<^verbatim>\<open>$comment\<close> and
  \<^verbatim>\<open>default\<close> wherever they stand, so also the arguments of a tool that have these names: the
  compatibility fingerprint is the one of the tool without the argument, an argument named
  \<^verbatim>\<open>default\<close> is in neither fingerprint, and a pinned argument with such a name is reported missing
  from a tool that has it.
\<close>

theorem fingerprint_ignores_named_arguments:
  "list_all (\<lambda>key.
        map_sum id snd (contract_digests py (object_tool name (props @ (key, a) # rest)) name)
          = map_sum id snd (contract_digests py (object_tool name (props @ rest)) name)
      \<and> validate_live_tool_contract py (JArr [object_tool name [(key, a)]]) name pin
          [(key, ''string'')] enums
          = Inl (ToolSchema (''live MCP tool is missing pinned argument '' @ key)))
      [''title'', ''description'', ''examples'', ''$comment'', ''default'']
   \<and> contract_digests py (object_tool name (props @ (''default'', a) # rest)) name
        = contract_digests py (object_tool name (props @ rest)) name"
  by (simp add: contract_digests_def object_tool_canonical tool_members_drop keep_key_def
      hidden_argument_refused)

end
