(* ===== verification/Tool_Paging.thy ===== *)
theory Tool_Paging
  imports Tool_Contract "HOL-Library.Option_ord"
begin

text \<open>
  Argument assembly, pagination and the advance of the checkpoint:
  \<^verbatim>\<open>adapters/mcp_tool_paging.py\<close> and \<^verbatim>\<open>adapters/mcp_cursor.py\<close>. Checkpoints and
  records are values of a generated package, taken as the records of their fields.
\<close>

section \<open>Generated values\<close>

record source_checkpoint =
  sc_stream :: string
  sc_position :: json
  sc_hash :: "string option"
  sc_watermark :: "string option"
  sc_pending :: "string option"

record tool_provenance =
  pv_connector :: string
  pv_server :: string
  pv_tool :: string
  pv_schema :: string
  pv_uri :: string

record source_record =
  sr_stream :: string
  sr_id :: string
  sr_mapping :: string
  sr_payload :: "(string, json) dict"
  sr_updated :: "string option"
  sr_provenance :: tool_provenance

section \<open>Dotted paths\<close>

definition dig_path :: "json \<Rightarrow> string \<Rightarrow> tool_exc + json" where
  "dig_path v dotted =
     map_sum (\<lambda>_. ToolForeign ''ValueError'') id (path_steps v (py_split CHR ''.'' dotted))"

text \<open>\<open>set_parts\<close> is the walk of \<^verbatim>\<open>set_path\<close>, which makes the dictionaries on the way.\<close>

fun set_parts :: "(string, json) dict \<Rightarrow> string list \<Rightarrow> json \<Rightarrow> (string, json) dict" where
  "set_parts node [] v = node"
| "set_parts node [leaf] v = dict_set leaf v node"
| "set_parts node (part # next_part # parts) v =
     dict_set part
       (JObj (set_parts (case map_of node part of Some (JObj child) \<Rightarrow> child | _ \<Rightarrow> [])
         (next_part # parts) v)) node"

definition set_path :: "(string, json) dict \<Rightarrow> string \<Rightarrow> json \<Rightarrow> (string, json) dict" where
  "set_path target dotted v = set_parts target (py_split CHR ''.'' dotted) v"

section \<open>Arguments\<close>

text \<open>\<^theory_text>\<open>json.dumps(value, sort_keys=True)\<close>, with its default separators.\<close>

fun dumps :: "(rat \<Rightarrow> string) \<Rightarrow> json \<Rightarrow> string"
and dumps_list :: "(rat \<Rightarrow> string) \<Rightarrow> json list \<Rightarrow> string list"
and dumps_members :: "(rat \<Rightarrow> string) \<Rightarrow> (string \<times> json) list \<Rightarrow> (string \<times> string) list" where
  "dumps fr JNull = ''null''"
| "dumps fr (JBool b) = (if b then ''true'' else ''false'')"
| "dumps fr (JInt i) = show_int i"
| "dumps fr (JFloat f) = (case encode_float True fr f of None \<Rightarrow> [] | Some e \<Rightarrow> e)"
| "dumps fr (JStr s) = encode_string s"
| "dumps fr (JArr xs) = ''['' @ join_with '', '' (dumps_list fr xs) @ '']''"
| "dumps fr (JObj kvs) =
     ''{'' @ join_with '', ''
       (map (\<lambda>(k, e). encode_string k @ '': '' @ e) (sort_key fst (dumps_members fr kvs))) @ ''}''"
| "dumps_list fr [] = []"
| "dumps_list fr (x # xs) = dumps fr x # dumps_list fr xs"
| "dumps_members fr [] = []"
| "dumps_members fr ((k, v) # kvs) = (k, dumps fr v) # dumps_members fr kvs"

function merge_arguments ::
  "(string, json) dict \<Rightarrow> (string, json) dict \<Rightarrow> (string, json) dict" where
  "merge_arguments target [] = target"
| "merge_arguments target ((key, value) # rest) =
     merge_arguments
       (dict_set key
         (case map_of target key of
            Some (JObj current) \<Rightarrow>
              (case value of JObj inner \<Rightarrow> JObj (merge_arguments current inner) | _ \<Rightarrow> value)
          | _ \<Rightarrow> value) target) rest"
  by pat_completeness auto

termination
  by (relation "measure (\<lambda>(_, values). size (JObj values))") auto

definition tool_arguments ::
  "pyenv \<Rightarrow> tool_preset \<Rightarrow> (string, json) dict \<Rightarrow> (string, json) dict" where
  "tool_arguments py p params =
     (let arguments = (if tp_action p \<noteq> []
        then dict_set (tp_action_param p) (JStr (tp_action p)) (tp_arguments p)
        else tp_arguments p)
      in if tp_params_style p = JsonParams
         then dict_set (tp_params_arg p) (JStr (dumps (py_float_repr py) (JObj params))) arguments
         else if tp_result_contract p \<in> {PlatformContract, EnterpriseContract}
         then merge_arguments arguments params
         else dict_update arguments params)"

text \<open>\<^theory_text>\<open>int(value)\<close>.\<close>

fun int_of_json :: "json \<Rightarrow> tool_exc + int" where
  "int_of_json (JInt i) = Inr i"
| "int_of_json (JBool b) = Inr (if b then 1 else 0)"
| "int_of_json (JFloat (Fin r)) = Inr (if r < 0 then ceiling r else floor r)"
| "int_of_json (JFloat NaN) = Inl (ToolForeign ''ValueError'')"
| "int_of_json (JFloat PosInf) = Inl (ToolForeign ''OverflowError'')"
| "int_of_json (JFloat NegInf) = Inl (ToolForeign ''OverflowError'')"
| "int_of_json (JStr s) =
     (case py_int s of None \<Rightarrow> Inl (ToolForeign ''ValueError'') | Some i \<Rightarrow> Inr i)"
| "int_of_json _ = Inl (ToolForeign ''TypeError'')"

text \<open>\<^theory_text>\<open>int(position.get(key, start))\<close>.\<close>

definition position_number :: "(string, json) dict \<Rightarrow> string \<Rightarrow> nat \<Rightarrow> tool_exc + int" where
  "position_number position key start =
     (case map_of position key of None \<Rightarrow> Inr (int start) | Some v \<Rightarrow> int_of_json v)"

definition page_value :: "tool_preset \<Rightarrow> (string, json) dict \<Rightarrow> tool_exc + int" where
  "page_value p position =
     (if tp_pagination p = PageOffset then position_number position ''offset'' 0
      else position_number position ''page'' (tp_start_page p))"

definition apply_page_position ::
  "tool_preset \<Rightarrow> (string, json) dict \<Rightarrow> (string, json) dict \<Rightarrow> tool_exc + (string, json) dict" where
  "apply_page_position p position params =
     (let params1 = (if tp_pagination p = PageCursor \<and> get position ''cursor'' \<noteq> JNull
        then set_path params (tp_cursor_param p) (get position ''cursor'') else params)
      in if numbered_mode (tp_pagination p)
         then bindR (page_value p position) (\<lambda>n.
           let params2 = set_path params1 (tp_page_param p) (JInt n)
           in Inr (if tp_page_size_param p \<noteq> []
             then set_path params2 (tp_page_size_param p) (JInt (int (tp_page_size p))) else params2))
         else Inr params1)"

definition position_of :: "json \<Rightarrow> (string, json) dict" where
  "position_of v = (case v of JObj kvs \<Rightarrow> kvs | _ \<Rightarrow> [])"

definition page_params ::
  "tool_preset \<Rightarrow> json \<Rightarrow> json \<Rightarrow> string option \<Rightarrow> tool_exc + (string, json) dict" where
  "page_params p position since mode =
     (let params1 = (case mode of None \<Rightarrow> tp_params p
        | Some m \<Rightarrow> set_path (tp_params p) (tp_mode_param p) (JStr m));
          params2 = (if since \<notin> {JNull, JObj [], JStr []} \<and> tp_updated_since_param p \<noteq> []
            then set_path params1 (tp_updated_since_param p) since else params1)
      in apply_page_position p (position_of position) params2)"

section \<open>The next page\<close>

definition require_cursor_progress :: "json \<Rightarrow> (string, json) dict \<Rightarrow> tool_exc + json" where
  "require_cursor_progress token position =
     andR (refuse_if (py_eq token (get position ''cursor''))
            (SourceContract ''provider cursor did not advance'')) (Inr token)"

text \<open>\<open>dig_if path v d\<close> is \<^theory_text>\<open>dig_path(v, path) if path else d\<close>.\<close>

definition dig_if :: "string \<Rightarrow> json \<Rightarrow> json \<Rightarrow> tool_exc + json" where
  "dig_if path v d = (if path = [] then Inr d else dig_path v path)"

definition next_cursor ::
  "tool_preset \<Rightarrow> (string, json) dict \<Rightarrow> json \<Rightarrow> (string, json) dict list \<Rightarrow>
     tool_exc + (string, json) dict option" where
  "next_cursor p position result raw =
     bindR (dig_if (tp_more_path p) result (JBool True)) (\<lambda>more.
     if \<not> truthy more then Inr None
     else bindR (dig_if (tp_cursor_path p) result JNull) (\<lambda>token.
       bindR (if token = JNull \<and> tp_cursor_record_field p \<noteq> [] \<and> raw \<noteq> []
              then dig_path (JObj (last raw)) (tp_cursor_record_field p) else Inr token) (\<lambda>token1.
         if token1 = JNull then Inr None
         else bindR (require_cursor_progress token1 position)
                (\<lambda>t. Inr (Some [(''cursor'', t)])))))"

definition next_numbered ::
  "tool_preset \<Rightarrow> (string, json) dict \<Rightarrow> (string, json) dict list \<Rightarrow>
     tool_exc + (string, json) dict option" where
  "next_numbered p position raw =
     (if length raw < tp_page_size p then Inr None
      else if tp_pagination p = PageOffset
      then bindR (position_number position ''offset'' 0)
             (\<lambda>n. Inr (Some [(''offset'', JInt (n + int (length raw)))]))
      else bindR (position_number position ''page'' (tp_start_page p))
             (\<lambda>n. Inr (Some [(''page'', JInt (n + 1))])))"

definition next_page ::
  "tool_preset \<Rightarrow> (string, json) dict \<Rightarrow> json \<Rightarrow> (string, json) dict list \<Rightarrow>
     tool_exc + (string, json) dict option" where
  "next_page p position result raw =
     (if tp_pagination p = PageNone then Inr None
      else if tp_pagination p = PageCursor then next_cursor p position result raw
      else if raw = [] then Inr None
      else next_numbered p position raw)"

section \<open>The checkpoint after a page\<close>

definition present_marks :: "string option list \<Rightarrow> string list" where
  "present_marks marks = concat (map (\<lambda>m. case named m of None \<Rightarrow> [] | Some s \<Rightarrow> [s]) marks)"

definition max_mark :: "string option list \<Rightarrow> string option" where
  "max_mark marks =
     (case present_marks marks of [] \<Rightarrow> None | s # ss \<Rightarrow> Some (fold max ss s))"

definition checkpoint_after_page ::
  "source_checkpoint \<Rightarrow> source_record list \<Rightarrow> json option \<Rightarrow> string option \<Rightarrow> source_checkpoint" where
  "checkpoint_after_page current records position content_hash =
     (let high_water = max_mark (sc_pending current # map sr_updated records) in
      case position of
        Some pos \<Rightarrow>
          \<lparr>sc_stream = sc_stream current, sc_position = pos, sc_hash = content_hash,
            sc_watermark = sc_watermark current, sc_pending = high_water\<rparr>
      | None \<Rightarrow>
          \<lparr>sc_stream = sc_stream current, sc_position = JObj [], sc_hash = content_hash,
            sc_watermark = max_mark [high_water, sc_watermark current], sc_pending = None\<rparr>)"

section \<open>Writing and reading a dotted path\<close>

lemma get_dict_set: "get (dict_set k v d) k' = (if k' = k then v else get d k')"
  by (simp add: get_def)

lemma steps_from_null: "path_steps JNull ps = Inr JNull"
  by (induction ps) simp_all

lemma steps_of_set_parts: "ps \<noteq> [] \<Longrightarrow> path_steps (JObj (set_parts d ps v)) ps = Inr v"
  by (induction d ps v rule: set_parts.induct) (simp_all add: get_dict_set)

text \<open>Another path keeps its value unless the two part inside something that is no object.\<close>

lemma steps_of_set_other:
  "ps \<noteq> [] \<Longrightarrow> qs \<noteq> [] \<Longrightarrow> hd ps \<noteq> hd qs \<Longrightarrow>
     path_steps (JObj (set_parts d ps v)) qs = path_steps (JObj d) qs"
  by (cases qs; induction d ps v rule: set_parts.induct) (simp_all add: get_dict_set)

lemma dig_set_path: "dig_path (JObj (set_path d dotted v)) dotted = Inr v"
  by (simp add: dig_path_def set_path_def steps_of_set_parts)

lemma set_path_other:
  "hd (py_split CHR ''.'' a) \<noteq> hd (py_split CHR ''.'' b) \<Longrightarrow>
     dig_path (JObj (set_path d a v)) b = dig_path (JObj d) b"
  by (simp add: dig_path_def set_path_def steps_of_set_other)

text \<open>
  Writing a value under a dotted path and reading the path gives the value back,
  whatever was there, and a path that starts elsewhere reads what it read before.
\<close>

theorem set_path_round_trip:
  "dig_path (JObj (set_path d path v)) path = Inr v
   \<and> (hd (py_split CHR ''.'' path) = hd (py_split CHR ''.'' other)
      \<or> dig_path (JObj (set_path d path v)) other = dig_path (JObj d) other)"
  using dig_set_path set_path_other by blast

section \<open>Marks\<close>

lemma present_marks_Cons:
  "present_marks (m # ms) = (case named m of None \<Rightarrow> [] | Some s \<Rightarrow> [s]) @ present_marks ms"
  by (simp add: present_marks_def)

lemma max_mark_Nil [simp]: "max_mark [] = None"
  by (simp add: max_mark_def present_marks_def)

lemma fold_max_comm: "fold max ss (max a b) = max (a::'a::linorder) (fold max ss b)"
  by (induction ss arbitrary: b) (simp, metis fold_simps(2) max.left_commute)

lemma max_none [simp]: "max None m = m" "max m None = (m :: 'a::linorder option)"
  by (cases m; simp add: max_def)+

lemma max_mark_Cons: "max_mark (m # ms) = max (named m) (max_mark ms)"
proof (cases "named m")
  case None
  then show ?thesis
    by (cases "max_mark ms") (simp_all add: max_mark_def present_marks_Cons max_def)
next
  case (Some s)
  then show ?thesis
  proof (cases "present_marks ms")
    case Nil
    with Some show ?thesis by (simp add: max_mark_def present_marks_Cons max_def)
  next
    case (Cons x xs)
    have "fold max xs (max x s) = max s (fold max xs x)"
      using fold_max_comm [of xs s x] by (simp add: max.commute)
    with Some Cons show ?thesis
      by (simp add: max_mark_def present_marks_Cons max_def)
  qed
qed

lemma max_mark_append: "max_mark (ms @ ns) = max (max_mark ms) (max_mark ns)"
  by (induction ms) (simp_all add: max_mark_Cons max.assoc)

lemma named_named [simp]: "named (named m) = named m"
  by (cases m) simp_all

lemma named_max: "named (max (named a) (named b)) = max (named a) (named b)"
  by (auto simp: max_def)

lemma named_max_mark [simp]: "named (max_mark ms) = max_mark ms"
proof (induction ms)
  case (Cons m ms)
  then show ?case by (metis max_mark_Cons named_max named_named)
qed simp

end
