(* ===== verification/Tool_Records.thy ===== *)
theory Tool_Records
  imports Tool_Paging Runner_Sync
begin

text \<open>
  What one tool result becomes: the selection and validation of raw records, the mapped records,
  relationships, live identifiers and withdrawals, the ingestion mode and the checkpoint of the
  page. \<^verbatim>\<open>adapters/mcp_tool_records.py\<close>, \<^verbatim>\<open>adapters/mcp_tool_lifecycle.py\<close> and
  \<^verbatim>\<open>adapters/mcp_tool_extract.py\<close>.
\<close>

section \<open>Generated values and parameters\<close>

record source_ref =
  rf_stream :: string
  rf_id :: string

record source_relationship =
  se_source :: source_ref
  se_target :: source_ref
  se_reference :: string
  se_properties :: "(string, json) dict option"
  se_provenance :: tool_provenance

record source_withdrawal =
  sw_entity :: source_ref
  sw_reason :: string

text \<open>The part of a manifest that edges and records are mapped by.\<close>

record schema_mapping =
  sm_class :: "string option"

record resource_spec =
  rd_name :: string
  rd_relations :: "string list"

text \<open>
  What the platform and enterprise models read of a result. Their parsers and the comparison of a
  result with its request are parameters, as are the spellings of the generated ingestion modes
  and the validation of a generated record.
\<close>

record platform_view =
  vw_outcome :: string
  vw_reason :: "string option"
  vw_tenant :: "string option"
  vw_policy :: "string option"

record enterprise_view =
  ew_outcome :: string
  ew_reason :: "string option"
  ew_digest :: "string option"
  ew_receipt :: "string option"

record tool_lib =
  tl_py :: pyenv
  tl_platform :: "json \<Rightarrow> platform_view option"
  tl_enterprise :: "json \<Rightarrow> enterprise_view option"
  tl_platform_binds :: "(string, json) dict \<Rightarrow> json \<Rightarrow> bool"
  tl_enterprise_binds :: "tool_preset \<Rightarrow> (string, json) dict \<Rightarrow> json \<Rightarrow> bool"
  tl_mode :: "string \<Rightarrow> ingestion_mode option"
  tl_accepts :: "source_record \<Rightarrow> bool"

definition text_or_none :: "string option \<Rightarrow> string" where
  "text_or_none t = (case t of None \<Rightarrow> ''None'' | Some s \<Rightarrow> s)"

section \<open>Raw records\<close>

definition validate_platform_binding ::
  "tool_lib \<Rightarrow> tool_preset \<Rightarrow> (string, json) dict \<Rightarrow> json \<Rightarrow> tool_exc + unit" where
  "validate_platform_binding L p arguments result =
     (case tp_result_contract p of
        EnterpriseContract \<Rightarrow>
          refuse_if (\<not> tl_enterprise_binds L p arguments result)
            (SourceContract ''enterprise result does not match the source request'')
      | PlatformContract \<Rightarrow>
          refuse_if (\<not> tl_platform_binds L arguments result)
            (SourceContract ''platform result does not match the source request'')
      | GenericResult \<Rightarrow> Inr ())"

definition platform_gate :: "tool_lib \<Rightarrow> json \<Rightarrow> tool_exc + unit" where
  "platform_gate L result =
     (case tl_platform L result of
        None \<Rightarrow> Inl (MalformedSource ''platform result is malformed'')
      | Some v \<Rightarrow>
          andR (refuse_if (vw_outcome v = ''refused'')
                 (SourceContract (''platform result refused: '' @ text_or_none (vw_reason v))))
            (refuse_if (vw_tenant v = None \<or> vw_policy v = None)
              (MalformedSource ''platform result is missing authority or policy binding'')))"

definition enterprise_gate :: "tool_lib \<Rightarrow> json \<Rightarrow> tool_exc + unit" where
  "enterprise_gate L result =
     (case tl_enterprise L result of
        None \<Rightarrow> Inl (MalformedSource ''enterprise result is malformed'')
      | Some v \<Rightarrow>
          andR (refuse_if (ew_outcome v \<noteq> ''ok'')
                 (SourceContract (''enterprise result refused: '' @ text_or_none (ew_reason v))))
            (refuse_if (named (ew_digest v) = None \<or> named (ew_receipt v) = None)
              (MalformedSource ''enterprise result lacks source evidence'')))"

fun objects :: "json list \<Rightarrow> (string, json) dict list option" where
  "objects [] = Some []"
| "objects (JObj kvs # rest) = map_option (\<lambda>os. kvs # os) (objects rest)"
| "objects (_ # rest) = None"

definition mapping_records ::
  "tool_preset \<Rightarrow> (string, json) dict \<Rightarrow> tool_exc + (string, json) dict list" where
  "mapping_records p data =
     (case objects (map snd data) of
        None \<Rightarrow> Inl (MalformedSource ''mapping holds a non-object record'')
      | Some vs \<Rightarrow>
          Inr (map (\<lambda>(k, v). dict_update [(tp_mapping_key_field p, JStr k)] v)
            (zip (map fst data) vs)))"

definition raw_records ::
  "tool_lib \<Rightarrow> tool_preset \<Rightarrow> json \<Rightarrow> tool_exc + (string, json) dict list" where
  "raw_records L p result =
     andR (if tp_result_contract p = PlatformContract then platform_gate L result else Inr ())
    (andR (if tp_result_contract p = EnterpriseContract then enterprise_gate L result else Inr ())
    (bindR (dig_if (tp_records_path p) result result) (\<lambda>data.
       case data of
         JObj kvs \<Rightarrow>
           if tp_records_is_mapping p then mapping_records p kvs
           else Inl (MalformedSource ''response does not match records_path'')
       | JArr items \<Rightarrow>
           (case objects items of
              None \<Rightarrow> Inl (MalformedSource ''response holds a non-object record'')
            | Some rs \<Rightarrow> Inr rs)
       | _ \<Rightarrow> Inl (MalformedSource ''response does not match records_path''))))"

section \<open>Records\<close>

text \<open>\<^theory_text>\<open>value in (None, "") or isinstance(value, dict | list)\<close> makes a value unusable.\<close>

definition usable :: "json \<Rightarrow> bool" where
  "usable v \<longleftrightarrow> v \<noteq> JNull \<and> v \<noteq> JStr [] \<and> \<not> is_container v"

definition tool_record_id :: "tool_preset \<Rightarrow> (string, json) dict \<Rightarrow> tool_exc + json" where
  "tool_record_id p raw =
     bindR (dig_path (JObj raw) (tp_id_field p)) (\<lambda>v.
       andR (refuse_if (\<not> usable v) (MalformedSource ''record has no usable id'')) (Inr v))"

definition validate_strict_fields :: "tool_preset \<Rightarrow> (string, json) dict \<Rightarrow> tool_exc + unit" where
  "validate_strict_fields p raw =
     refuse_if (tp_strict_schema p
         \<and> \<not> set (map fst raw) \<subseteq> set (tp_metadata_fields p) \<union> set (tp_content_fields p))
       (MalformedSource ''record has fields outside its strict schema'')"

definition validate_node_type :: "tool_preset \<Rightarrow> (string, json) dict \<Rightarrow> tool_exc + unit" where
  "validate_node_type p raw =
     (if tp_record_mode p \<noteq> TypedEntities then Inr ()
      else bindR (dig_path (JObj raw) (tp_node_type_field p)) (\<lambda>v.
        refuse_if (\<not> usable v) (MalformedSource ''record has no usable node type'')))"

definition tool_uri :: "tool_preset \<Rightarrow> string \<Rightarrow> string" where
  "tool_uri p tail = ''mcp-tool://'' @ tp_server p @ ''/'' @ tp_tool p @ ''/'' @ tail"

definition updated_text :: "pyenv \<Rightarrow> json \<Rightarrow> string option" where
  "updated_text py v = (if v = JNull then None else Some (py_str py v))"

definition source_record_of ::
  "tool_lib \<Rightarrow> string \<Rightarrow> tool_preset \<Rightarrow> string \<Rightarrow> string \<Rightarrow> (string, json) dict \<Rightarrow>
     tool_exc + source_record" where
  "source_record_of L connector p schema mapping_ref raw =
     bindR (tool_record_id p raw) (\<lambda>id.
     andR (validate_strict_fields p raw)
    (andR (validate_node_type p raw)
    (bindR (dig_if (tp_updated_field p) (JObj raw) JNull) (\<lambda>updated.
     let r = \<lparr>sr_stream = tp_name p, sr_id = py_str (tl_py L) id, sr_mapping = mapping_ref,
           sr_payload = raw, sr_updated = updated_text (tl_py L) updated,
           sr_provenance = \<lparr>pv_connector = connector, pv_server = tp_server p, pv_tool = tp_tool p,
             pv_schema = schema, pv_uri = tool_uri p (py_str (tl_py L) id)\<rparr>\<rparr>
     in andR (refuse_if (\<not> tl_accepts L r) (MalformedSource ''record payload is not JSON data''))
          (Inr r)))))"

definition mapping_prefix :: "string \<Rightarrow> string" where
  "mapping_prefix connector = ''connector:'' @ connector @ ''#mappings/''"

definition starts_with :: "string \<Rightarrow> string \<Rightarrow> bool" where
  "starts_with prefix s \<longleftrightarrow> take (length prefix) s = prefix"

definition record_mapping ::
  "string \<Rightarrow> string \<Rightarrow> (string, schema_mapping) dict \<Rightarrow> tool_preset \<Rightarrow> (string, json) dict \<Rightarrow>
     tool_exc + string" where
  "record_mapping connector configured mappings p raw =
     (if starts_with (mapping_prefix connector) configured then Inr configured
      else andR (refuse_if (configured \<noteq> ''connector:'' @ connector)
             (SourceContract ''mapping_reference is not an exact declared mapping''))
        (bindR (case mappings of [m] \<Rightarrow> Inr (JStr (fst m))
                | _ \<Rightarrow> dig_path (JObj raw) (tp_node_type_field p)) (\<lambda>key.
           case key of
             JStr k \<Rightarrow>
               andR (refuse_if (map_of mappings k = None)
                      (SourceContract ''record type has no exact manifest mapping''))
                 (Inr (mapping_prefix connector @ k))
           | _ \<Rightarrow> Inl (SourceContract ''record type has no exact manifest mapping''))))"

text \<open>What an adapter is built with.\<close>

record tool_adapter =
  ta_preset :: tool_preset
  ta_connector :: string
  ta_pinned :: string
  ta_mapping :: string
  ta_schema_mappings :: "(string, schema_mapping) dict"
  ta_resources :: "(string, resource_spec) dict"
  ta_parents :: "(string, tool_preset) dict"
  ta_max_fan_out :: nat

definition record_reference ::
  "tool_lib \<Rightarrow> tool_adapter \<Rightarrow> tool_preset \<Rightarrow> (string, json) dict \<Rightarrow> tool_exc + string \<times> string" where
  "record_reference L A p raw =
     bindR (dig_path (JObj raw) (tp_id_field p)) (\<lambda>id.
     bindR (record_mapping (ta_connector A) (ta_mapping A) (ta_schema_mappings A) p raw) (\<lambda>ref.
       Inr (py_str (tl_py L) id, ref)))"

text \<open>Whether the watermark leaves the record out: \<open>since\<close> is falsy, or its text is not above.\<close>

definition is_older ::
  "tool_lib \<Rightarrow> tool_preset \<Rightarrow> string option \<Rightarrow> (string, json) dict \<Rightarrow> tool_exc + bool" where
  "is_older L p since raw =
     (case named since of
        None \<Rightarrow> Inr False
      | Some mark \<Rightarrow>
          bindR (dig_path (JObj raw) (tp_updated_field p)) (\<lambda>updated.
            Inr (updated \<noteq> JNull \<and> py_str (tl_py L) updated \<le> mark)))"

definition taken_record ::
  "tool_lib \<Rightarrow> tool_adapter \<Rightarrow> tool_preset \<Rightarrow> string \<Rightarrow> string option \<Rightarrow> (string, string) dict \<Rightarrow>
     (string, json) dict \<Rightarrow> tool_exc + source_record list" where
  "taken_record L A p schema since refs raw =
     bindR (is_older L p since raw) (\<lambda>older.
       if older then Inr []
       else bindR (dig_path (JObj raw) (tp_id_field p)) (\<lambda>id.
         case map_of refs (py_str (tl_py L) id) of
           None \<Rightarrow> Inl (ToolForeign ''KeyError'')
         | Some ref \<Rightarrow>
             bindR (source_record_of L (ta_connector A) p schema ref raw) (\<lambda>r. Inr [r])))"

definition mapped_records ::
  "tool_lib \<Rightarrow> tool_adapter \<Rightarrow> tool_preset \<Rightarrow> string \<Rightarrow> string option \<Rightarrow> (string, json) dict list \<Rightarrow>
     tool_exc + source_record list \<times> (string, string) dict" where
  "mapped_records L A p schema since raw =
     bindR (mapR (record_reference L A p) raw) (\<lambda>pairs.
     let refs = dict_update [] pairs in
     bindR (mapR (taken_record L A p schema since refs) raw) (\<lambda>taken.
       Inr (concat taken, refs)))"

section \<open>Entities, relationships and withdrawals\<close>

definition entity_ref_of :: "pyenv \<Rightarrow> json \<Rightarrow> string \<Rightarrow> string \<Rightarrow> tool_exc + source_ref" where
  "entity_ref_of py v stream label =
     (let (ref_stream, record_id) = (case v of
            JObj kvs \<Rightarrow>
              (case map_of kvs ''stream'' of None \<Rightarrow> JStr stream | Some s \<Rightarrow> s,
               case map_of kvs ''record_id'' of None \<Rightarrow> get kvs ''id'' | Some r \<Rightarrow> r)
          | _ \<Rightarrow> (JStr stream, v))
      in andR (refuse_if (\<not> usable ref_stream \<or> \<not> usable record_id)
               (MalformedSource (''relationship has no usable '' @ label)))
           (Inr \<lparr>rf_stream = py_str py ref_stream, rf_id = py_str py record_id\<rparr>))"

definition usable_relationship :: "tool_preset \<Rightarrow> (string, json) dict \<Rightarrow> tool_exc + (string, json) dict" where
  "usable_relationship p edge =
     bindR (mapR (\<lambda>path. bindR (dig_path (JObj edge) path) (\<lambda>v.
         refuse_if (\<not> usable v) (MalformedSource ''relationship has no usable field'')))
       [tp_relationship_source_field p, tp_relationship_target_field p,
        tp_relationship_type_field p]) (\<lambda>_. Inr edge)"

definition raw_relationships ::
  "tool_preset \<Rightarrow> json \<Rightarrow> tool_exc + (string, json) dict list" where
  "raw_relationships p result =
     (if tp_relationships_path p = [] then Inr []
      else bindR (dig_path result (tp_relationships_path p)) (\<lambda>data.
        case (case data of JArr items \<Rightarrow> objects items | _ \<Rightarrow> None) of
          None \<Rightarrow> Inl (MalformedSource ''response does not match relationships_path'')
        | Some edges \<Rightarrow> mapR (usable_relationship p) edges))"

definition edge_properties ::
  "tool_preset \<Rightarrow> (string, json) dict \<Rightarrow> tool_exc + (string, json) dict option" where
  "edge_properties p edge =
     (if tp_relationship_properties_field p = [] then Inr None
      else bindR (dig_path (JObj edge) (tp_relationship_properties_field p)) (\<lambda>v.
        case v of
          JObj kvs \<Rightarrow> Inr (Some kvs)
        | _ \<Rightarrow> Inl (MalformedSource ''relationship properties are not a JSON object'')))"

definition source_relationship_of ::
  "pyenv \<Rightarrow> string \<Rightarrow> tool_preset \<Rightarrow> string \<Rightarrow> string \<Rightarrow> (string, json) dict \<Rightarrow>
     tool_exc + source_relationship" where
  "source_relationship_of py connector p schema reference edge =
     bindR (dig_path (JObj edge) (tp_relationship_source_field p)) (\<lambda>s.
     bindR (entity_ref_of py s (tp_name p) ''source'') (\<lambda>src.
     bindR (dig_path (JObj edge) (tp_relationship_target_field p)) (\<lambda>t.
     bindR (entity_ref_of py t (tp_name p) ''target'') (\<lambda>tgt.
     bindR (edge_properties p edge) (\<lambda>props.
       Inr \<lparr>se_source = src, se_target = tgt, se_reference = reference, se_properties = props,
         se_provenance = \<lparr>pv_connector = connector, pv_server = tp_server p, pv_tool = tp_tool p,
           pv_schema = schema,
           pv_uri = tool_uri p (''relationships/'' @ rf_id src @ ''/'' @ rf_id tgt)\<rparr>\<rparr>)))))"

definition relation_resource ::
  "(string, schema_mapping) dict \<Rightarrow> (string, resource_spec) dict \<Rightarrow> string \<Rightarrow> resource_spec option" where
  "relation_resource mappings resources key =
     (case (case map_of mappings key of None \<Rightarrow> Some key | Some m \<Rightarrow> sm_class m) of
        None \<Rightarrow> None
      | Some name \<Rightarrow> map_of resources name)"

definition relation_reference ::
  "pyenv \<Rightarrow> tool_adapter \<Rightarrow> tool_preset \<Rightarrow> (string, string) dict \<Rightarrow> (string, json) dict \<Rightarrow>
     tool_exc + string" where
  "relation_reference py A p refs edge =
     bindR (dig_path (JObj edge) (tp_relationship_source_field p)) (\<lambda>found.
     let source_id = (case found of
           JObj kvs \<Rightarrow> (case map_of kvs ''record_id'' of None \<Rightarrow> get kvs ''id'' | Some r \<Rightarrow> r)
         | _ \<Rightarrow> found);
         prefix = mapping_prefix (ta_connector A)
     in case map_of refs (py_str py source_id) of
          None \<Rightarrow> Inl (SourceContract ''relationship source has no manifest mapping in this page'')
        | Some ref \<Rightarrow>
            if \<not> starts_with prefix ref
            then Inl (SourceContract ''relationship source has no manifest mapping in this page'')
            else bindR (dig_path (JObj edge) (tp_relationship_type_field p)) (\<lambda>relation.
              case (relation_resource (ta_schema_mappings A) (ta_resources A)
                      (drop (length prefix) ref), relation) of
                (Some resource, JStr name) \<Rightarrow>
                  andR (refuse_if (name \<notin> set (rd_relations resource))
                         (SourceContract ''relationship predicate is not declared''))
                    (Inr (''connector:'' @ ta_connector A @ ''#relations/'' @ rd_name resource
                      @ ''/'' @ name))
              | _ \<Rightarrow> Inl (SourceContract ''relationship predicate is not declared'')))"

definition mapped_relationships ::
  "pyenv \<Rightarrow> tool_adapter \<Rightarrow> tool_preset \<Rightarrow> string \<Rightarrow> (string, string) dict \<Rightarrow>
     (string, json) dict list \<Rightarrow> tool_exc + source_relationship list" where
  "mapped_relationships py A p schema refs edges =
     mapR (\<lambda>edge. bindR (relation_reference py A p refs edge) (\<lambda>reference.
       source_relationship_of py (ta_connector A) p schema reference edge)) edges"

definition authoritative_live_ids ::
  "pyenv \<Rightarrow> tool_preset \<Rightarrow> json \<Rightarrow> tool_exc + source_ref list option" where
  "authoritative_live_ids py p result =
     (if tp_authoritative_path p = [] then Inr None
      else bindR (dig_path result (tp_authoritative_path p)) (\<lambda>flag.
        if flag \<noteq> JBool True then Inr None
        else bindR (dig_path result (tp_reconcile_path p)) (\<lambda>found.
          case found of
            JArr items \<Rightarrow>
              bindR (mapR (\<lambda>v. entity_ref_of py v (tp_name p) ''live id'') items)
                (\<lambda>ids. Inr (Some ids))
          | _ \<Rightarrow> Inl (MalformedSource ''authoritative live ids are not a list''))))"

definition source_withdrawal_of ::
  "pyenv \<Rightarrow> tool_preset \<Rightarrow> (string, json) dict \<Rightarrow> tool_exc + source_withdrawal" where
  "source_withdrawal_of py p d =
     bindR (dig_path (JObj d) (tp_withdrawal_id_field p)) (\<lambda>v.
     bindR (entity_ref_of py v (tp_name p) ''withdrawal id'') (\<lambda>entity.
     bindR (dig_path (JObj d) (tp_withdrawal_reason_field p)) (\<lambda>reason.
       case reason of
         JStr txt \<Rightarrow>
           andR (refuse_if (blank txt) (MalformedSource ''withdrawal has no usable reason''))
             (Inr \<lparr>sw_entity = entity, sw_reason = txt\<rparr>)
       | _ \<Rightarrow> Inl (MalformedSource ''withdrawal has no usable reason''))))"

definition source_withdrawals ::
  "pyenv \<Rightarrow> tool_preset \<Rightarrow> json \<Rightarrow> tool_exc + source_withdrawal list" where
  "source_withdrawals py p result =
     (if tp_withdrawals_path p = [] then Inr []
      else bindR (dig_path result (tp_withdrawals_path p)) (\<lambda>found.
        case (case found of JArr items \<Rightarrow> objects items | _ \<Rightarrow> None) of
          None \<Rightarrow> Inl (MalformedSource ''withdrawals are not a list of objects'')
        | Some ds \<Rightarrow> mapR (source_withdrawal_of py p) ds))"

section \<open>Mode and checkpoint\<close>

definition ingestion_mode_of ::
  "tool_lib \<Rightarrow> tool_preset \<Rightarrow> source_ref list option \<Rightarrow> source_checkpoint option \<Rightarrow>
     tool_exc + ingestion_mode" where
  "ingestion_mode_of L p live_ids checkpoint =
     (if live_ids \<noteq> None then Inr ReconcileMode
      else bindR (dig_path (JObj (tp_params p)) (tp_mode_param p)) (\<lambda>configured.
        if configured = JNull
        then Inr (if checkpoint \<noteq> None \<and> tp_updated_since_param p \<noteq> [] then DeltaMode else FullMode)
        else case tl_mode L (py_str (tl_py L) configured) of
            None \<Rightarrow> Inl (SourceContract ''provider configured unsupported ingestion mode'')
          | Some ReconcileMode \<Rightarrow>
              Inl (SourceContract ''reconcile response did not declare an authoritative live set'')
          | Some mode \<Rightarrow> Inr mode))"

definition content_hash_of :: "tool_preset \<Rightarrow> json \<Rightarrow> tool_exc + string option" where
  "content_hash_of p result =
     bindR (dig_if (tp_content_hash_path p) result JNull) (\<lambda>h.
       case h of JNull \<Rightarrow> Inr None | JStr s \<Rightarrow> Inr (Some s)
       | _ \<Rightarrow> Inl (SourceContract ''provider content_hash is not a string''))"

definition page_checkpoint ::
  "tool_preset \<Rightarrow> source_checkpoint \<Rightarrow> source_record list \<Rightarrow> json \<Rightarrow> (string, json) dict list \<Rightarrow>
     tool_exc + source_checkpoint \<times> bool" where
  "page_checkpoint p current records result raw =
     bindR (next_page p (position_of (sc_position current)) result raw) (\<lambda>following.
     bindR (if tp_checkpoint_path p = [] then Inr (map_option JObj following)
            else bindR (dig_path result (tp_checkpoint_path p)) (\<lambda>v.
              andR (refuse_if (v = JNull) (SourceContract ''provider response omitted its checkpoint''))
                (Inr (Some v)))) (\<lambda>position.
     bindR (content_hash_of p result) (\<lambda>h.
       Inr (checkpoint_after_page current records position h, following = None))))"

end
