(* ===== verification/Tool_Adapter.thy ===== *)
theory Tool_Adapter
  imports Tool_Records
begin

text \<open>
  The adapter that extracts one declared stream through an MCP tool: \<^verbatim>\<open>adapters/mcp_tool.py\<close>,
  its per-parent fan-out (\<^verbatim>\<open>adapters/mcp_tool_fanout.py\<close>) and the discovery of
  \<^verbatim>\<open>adapters/tool_contract.py\<close>. The session is a set of ports on a world of any type; the state
  of the adapter object is its verified fingerprint and its cached parent values.
\<close>

section \<open>State, session and pages\<close>

type_synonym ('w, 'a) tool_port = "'w \<Rightarrow> (tool_exc + 'a) \<times> 'w"

record 'w tool_env =
  te_lib :: tool_lib
  te_list_tools :: "('w, json) tool_port"
  te_call_tool :: "string \<Rightarrow> (string, json) dict \<Rightarrow> ('w, json) tool_port"
  te_uuid :: "'w \<Rightarrow> string \<times> 'w"

datatype tool_event = ToolCalled string "(string, json) dict" | ToolsListed

record 'w tool_state =
  ts_world :: 'w
  ts_log :: "tool_event list"
  ts_verified :: string
  ts_fan :: "json list option"

type_synonym ('w, 'a) tool_prog = "('w tool_state, tool_exc, 'a) prog"

record tool_page =
  gp_records :: "source_record list"
  gp_relationships :: "source_relationship list"
  gp_mode :: ingestion_mode
  gp_strict :: bool
  gp_checkpoint :: source_checkpoint
  gp_live_ids :: "source_ref list option"
  gp_withdrawals :: "source_withdrawal list"
  gp_exhausted :: bool
  gp_contract :: "schema_contract option"

abbreviation te_py :: "'w tool_env \<Rightarrow> pyenv" where
  "te_py E \<equiv> tl_py (te_lib E)"

definition tool_port :: "('w, 'a) tool_port \<Rightarrow> ('w, 'a) tool_prog" where
  "tool_port p = (\<lambda>s. case p (ts_world s) of (r, w) \<Rightarrow> (r, s\<lparr>ts_world := w\<rparr>))"

definition note_tool :: "tool_event \<Rightarrow> ('w, unit) tool_prog" where
  "note_tool ev = modifyP (\<lambda>s. s\<lparr>ts_log := ts_log s @ [ev]\<rparr>)"

definition call_tool ::
  "'w tool_env \<Rightarrow> string \<Rightarrow> (string, json) dict \<Rightarrow> ('w, json) tool_prog" where
  "call_tool E name arguments =
     thenP (note_tool (ToolCalled name arguments)) (tool_port (te_call_tool E name arguments))"

definition list_tools :: "'w tool_env \<Rightarrow> ('w, json) tool_prog" where
  "list_tools E = thenP (note_tool ToolsListed) (tool_port (te_list_tools E))"

definition new_uuid :: "'w tool_env \<Rightarrow> ('w, string) tool_prog" where
  "new_uuid E = tool_port (\<lambda>w. case te_uuid E w of (u, w') \<Rightarrow> (Inr u, w'))"

section \<open>Construction and discovery\<close>

definition fan_links :: "(string, tool_preset) dict \<Rightarrow> (string, for_each option) dict" where
  "fan_links parents = map (\<lambda>(name, p). (name, tp_for_each p)) parents"

text \<open>
  The walk follows every parent at most once, so it is over within one step more than there are
  parents: \<open>check_parents\<close> never answers \<open>None\<close> (lemma \<open>check_parents_total\<close>).
\<close>

definition check_parents ::
  "tool_preset \<Rightarrow> (string, tool_preset) dict \<Rightarrow> (fan_out_refusal + unit) option" where
  "check_parents p parents =
     walk_parents (Suc (length parents)) (fan_links parents) [tp_name p] (tp_for_each p)"

definition parents_checked ::
  "tool_preset \<Rightarrow> (string, tool_preset) dict \<Rightarrow> tool_exc + unit" where
  "parents_checked p parents =
     (case check_parents p parents of
        None \<Rightarrow> Inl (ToolForeign ''RecursionError'')
      | Some (Inl e) \<Rightarrow> Inl (FanOutRefused e)
      | Some (Inr u) \<Rightarrow> Inr ())"

definition adapter_new :: "tool_adapter \<Rightarrow> tool_exc + tool_adapter" where
  "adapter_new A =
     andR (refuse_if (\<not> (ta_connector A \<noteq> [] \<and> ta_mapping A \<noteq> [])) (ToolForeign ''ValueError''))
    (andR (if tp_for_each (ta_preset A) = None then Inr ()
           else parents_checked (ta_preset A) (ta_parents A))
     (Inr A))"

definition derive_adapter :: "tool_adapter \<Rightarrow> tool_preset \<Rightarrow> tool_adapter" where
  "derive_adapter A p = A\<lparr>ta_preset := p, ta_parents := [], ta_max_fan_out := 200\<rparr>"

definition with_identifiers :: "tool_preset \<Rightarrow> schema_contract \<Rightarrow> schema_contract" where
  "with_identifiers p c = c\<lparr>contract_identifiers := [tp_id_field p]\<rparr>"

definition as_source_contract :: "tool_exc \<Rightarrow> tool_exc" where
  "as_source_contract e = (case e of ToolSchema m \<Rightarrow> SourceContract m | _ \<Rightarrow> e)"

definition discover_tool ::
  "'w tool_env \<Rightarrow> tool_preset \<Rightarrow> string \<Rightarrow> ('w, string \<times> stream_descriptor) tool_prog" where
  "discover_tool E p pin =
     bindP (catchP (bindP (list_tools E) (\<lambda>listed.
         liftP (validate_preset_tool_contract (te_py E) listed (tp_tool p) [p] pin)))
       (\<lambda>e. Some (raiseP (as_source_contract e)))) (\<lambda>c.
       returnP (lc_compatible c,
         \<lparr>sd_stream = tp_name p, sd_contract = Some (with_identifiers p (lc_contract c)),
           sd_policy = tp_evolution_policy p\<rparr>))"

definition adapter_discover ::
  "'w tool_env \<Rightarrow> tool_adapter \<Rightarrow> ('w, stream_descriptor) tool_prog" where
  "adapter_discover E A =
     bindP (discover_tool E (ta_preset A) (ta_pinned A)) (\<lambda>(fingerprint, d).
       thenP (modifyP (\<lambda>s. s\<lparr>ts_verified := fingerprint\<rparr>)) (returnP d))"

section \<open>One page\<close>

text \<open>What a page is known to hold before its relationships are mapped.\<close>

record page_draft =
  dr_records :: "source_record list"
  dr_references :: "(string, string) dict"
  dr_checkpoint :: source_checkpoint
  dr_exhausted :: bool
  dr_live_ids :: "source_ref list option"
  dr_mode :: ingestion_mode
  dr_withdrawals :: "source_withdrawal list"

definition draft_page ::
  "tool_lib \<Rightarrow> tool_adapter \<Rightarrow> tool_preset \<Rightarrow> string \<Rightarrow> source_checkpoint \<Rightarrow>
     source_checkpoint option \<Rightarrow> json \<Rightarrow> tool_exc + page_draft" where
  "draft_page L A p verified current checkpoint result =
     bindR (raw_records L p result) (\<lambda>raw.
     bindR (mapped_records L A p verified (sc_watermark current) raw) (\<lambda>(records, refs).
     bindR (page_checkpoint p current records result raw) (\<lambda>(candidate, over).
     bindR (authoritative_live_ids (tl_py L) p result) (\<lambda>live.
     bindR (ingestion_mode_of L p live checkpoint) (\<lambda>mode.
     bindR (source_withdrawals (tl_py L) p result) (\<lambda>gone.
     andR (refuse_if (mode \<noteq> DeltaMode \<and> gone \<noteq> [])
            (SourceContract ''only delta ingestion accepts withdrawals''))
       (Inr \<lparr>dr_records = records, dr_references = refs, dr_checkpoint = candidate,
         dr_exhausted = over, dr_live_ids = live, dr_mode = mode, dr_withdrawals = gone\<rparr>)))))))"

text \<open>An unpaged snapshot gets a fresh position.\<close>

definition is_snapshot :: "tool_preset \<Rightarrow> page_draft \<Rightarrow> bool" where
  "is_snapshot p d \<longleftrightarrow>
     dr_mode d \<noteq> DeltaMode \<and> tp_pagination p = PageNone \<and> tp_checkpoint_path p = []"

definition place_snapshot ::
  "'w tool_env \<Rightarrow> tool_preset \<Rightarrow> page_draft \<Rightarrow> ('w, source_checkpoint) tool_prog" where
  "place_snapshot E p d =
     (if is_snapshot p d
      then bindP (new_uuid E) (\<lambda>u.
        returnP ((dr_checkpoint d)\<lparr>sc_position := JObj [(''sdk_snapshot'', JStr u)]\<rparr>))
      else returnP (dr_checkpoint d))"

definition first_checkpoint :: "tool_preset \<Rightarrow> source_checkpoint" where
  "first_checkpoint p =
     \<lparr>sc_stream = tp_name p, sc_position = JObj [], sc_hash = None, sc_watermark = None,
       sc_pending = None\<rparr>"

definition current_checkpoint :: "tool_preset \<Rightarrow> source_checkpoint option \<Rightarrow> source_checkpoint" where
  "current_checkpoint p checkpoint =
     (case checkpoint of None \<Rightarrow> first_checkpoint p | Some c \<Rightarrow> c)"

definition since_value :: "tool_preset \<Rightarrow> source_checkpoint \<Rightarrow> json" where
  "since_value p current =
     (if tp_checkpoint_path p \<noteq> [] then sc_position current
      else case sc_watermark current of None \<Rightarrow> JNull | Some w \<Rightarrow> JStr w)"

definition page_of_draft ::
  "tool_preset \<Rightarrow> page_draft \<Rightarrow> source_checkpoint \<Rightarrow> source_relationship list \<Rightarrow>
     schema_contract \<Rightarrow> tool_page" where
  "page_of_draft p d candidate edges contract =
     \<lparr>gp_records = dr_records d, gp_relationships = edges, gp_mode = dr_mode d,
       gp_strict = tp_strict_schema p, gp_checkpoint = candidate, gp_live_ids = dr_live_ids d,
       gp_withdrawals = dr_withdrawals d, gp_exhausted = dr_exhausted d,
       gp_contract = Some (with_identifiers p contract)\<rparr>"

definition extract_plain ::
  "'w tool_env \<Rightarrow> tool_adapter \<Rightarrow> tool_preset \<Rightarrow> source_checkpoint option \<Rightarrow>
     ('w, tool_page) tool_prog" where
  "extract_plain E A p checkpoint =
     (let current = current_checkpoint p checkpoint in
      bindP (liftP (page_params p (sc_position current) (since_value p current) None)) (\<lambda>params.
      let arguments = tool_arguments (te_py E) p params in
      bindP (call_tool E (tp_tool p) arguments) (\<lambda>result.
      thenP (liftP (validate_platform_binding (te_lib E) p arguments result))
     (bindP (list_tools E) (\<lambda>listed.
      bindP (liftP (validate_preset_tool_contract (te_py E) listed (tp_tool p) [p] [])) (\<lambda>observed.
      bindP (getsP ts_verified) (\<lambda>verified.
      bindP (liftP (draft_page (te_lib E) A p verified current checkpoint result)) (\<lambda>d.
      bindP (place_snapshot E p d) (\<lambda>candidate.
      bindP (liftP (bindR (raw_relationships p result)
          (mapped_relationships (te_py E) A p verified (dr_references d)))) (\<lambda>edges.
      returnP (page_of_draft p d candidate edges (lc_contract observed))))))))))))"

section \<open>Fan-out\<close>

definition fan_key :: string where
  "fan_key = ''__fan''"

definition add_value :: "string \<Rightarrow> (string, json) dict \<Rightarrow> json list \<Rightarrow> json list" where
  "add_value field rec seen =
     (let v = get rec field
      in if v \<noteq> JNull \<and> \<not> list_ex (\<lambda>x. py_eq x v) seen then seen @ [v] else seen)"

definition budget_exhausted :: tool_exc where
  "budget_exhausted = SourceContract ''parent_budget_exhausted''"

text \<open>The first argument counts the pages of the parent that are still allowed.\<close>

primrec parent_sweep_pages ::
  "nat \<Rightarrow> 'w tool_env \<Rightarrow> tool_preset \<Rightarrow> string \<Rightarrow> nat \<Rightarrow> json list \<Rightarrow> (string, json) dict \<Rightarrow>
     ('w, json list) tool_prog" where
  "parent_sweep_pages 0 E p field limit seen position = raiseP budget_exhausted"
| "parent_sweep_pages (Suc n) E p field limit seen position =
     bindP (liftP (page_params p (JObj position) JNull None)) (\<lambda>params.
     let arguments = tool_arguments (te_py E) p params in
     bindP (call_tool E (tp_tool p) arguments) (\<lambda>result.
     thenP (liftP (validate_platform_binding (te_lib E) p arguments result))
    (bindP (liftP (raw_records (te_lib E) p result)) (\<lambda>raw.
     let found = fold (add_value field) raw seen in
     thenP (liftP (refuse_if (limit < length found) (SourceContract ''fan_out_exceeded'')))
    (bindP (liftP (next_page p position result raw)) (\<lambda>following.
       case following of
         None \<Rightarrow> returnP found
       | Some pos \<Rightarrow> parent_sweep_pages n E p field limit found pos))))))"

definition scoped_parent :: "tool_preset \<Rightarrow> (string, json) dict \<Rightarrow> tool_preset" where
  "scoped_parent p scope = p\<lparr>tp_arguments := dict_update (tp_arguments p) scope, tp_for_each := None\<rparr>"

primrec sweep_parent_scopes ::
  "'w tool_env \<Rightarrow> tool_preset \<Rightarrow> string \<Rightarrow> nat \<Rightarrow> json list \<Rightarrow> (string, json) dict list \<Rightarrow>
     ('w, json list) tool_prog" where
  "sweep_parent_scopes E p field limit seen [] = returnP seen"
| "sweep_parent_scopes E p field limit seen (scope # scopes) =
     bindP (parent_sweep_pages (tp_max_pages p) E (scoped_parent p scope) field limit seen [])
       (\<lambda>found. sweep_parent_scopes E p field limit found scopes)"

text \<open>
  The first argument bounds the depth of the chain of parents; the check of the parents has
  refused every chain that is deeper than there are parents.
\<close>

primrec fan_parent_values ::
  "nat \<Rightarrow> 'w tool_env \<Rightarrow> (string, tool_preset) dict \<Rightarrow> nat \<Rightarrow> tool_preset \<Rightarrow>
     ('w, json list) tool_prog" where
  "fan_parent_values 0 E parents limit p = raiseP (ToolForeign ''RecursionError'')"
| "fan_parent_values (Suc n) E parents limit p =
     thenP (liftP (parents_checked p parents))
       (case tp_for_each p of
          None \<Rightarrow> returnP []
        | Some link \<Rightarrow>
            (case map_of parents (fe_source link) of
               None \<Rightarrow> raiseP (ToolForeign ''KeyError'')
             | Some parent \<Rightarrow>
                 bindP (case tp_for_each parent of
                      None \<Rightarrow> returnP [[]]
                    | Some up \<Rightarrow>
                        bindP (fan_parent_values n E parents limit parent)
                          (\<lambda>vs. returnP (map (\<lambda>v. [(fe_argument up, v)]) vs)))
                   (sweep_parent_scopes E parent (fe_field link) limit [])))"

definition fan_out_values :: "'w tool_env \<Rightarrow> tool_adapter \<Rightarrow> ('w, json list) tool_prog" where
  "fan_out_values E A =
     bindP (getsP ts_fan) (\<lambda>cached. case cached of
         Some vs \<Rightarrow> returnP vs
       | None \<Rightarrow>
           bindP (fan_parent_values (length (ta_parents A) + 2) E (ta_parents A)
               (ta_max_fan_out A) (ta_preset A)) (\<lambda>vs.
             thenP (modifyP (\<lambda>s. s\<lparr>ts_fan := Some vs\<rparr>)) (returnP vs)))"

text \<open>\<^theory_text>\<open>values[index]\<close>, which counts from the end below zero.\<close>

definition py_index :: "'a list \<Rightarrow> int \<Rightarrow> tool_exc + 'a" where
  "py_index xs i =
     (let j = (if i < 0 then i + int (length xs) else i)
      in if 0 \<le> j \<and> j < int (length xs) then Inr (xs ! nat j) else Inl (ToolForeign ''IndexError''))"

text \<open>
  \<^theory_text>\<open>dict(value)\<close> of an object, or of a list of two-element items with text keys.
\<close>

fun pair_of :: "json \<Rightarrow> (string \<times> json) option" where
  "pair_of (JArr [JStr k, v]) = Some (k, v)"
| "pair_of (JStr [a, b]) = Some ([a], JStr [b])"
| "pair_of _ = None"

fun dict_of :: "json \<Rightarrow> tool_exc + (string, json) dict" where
  "dict_of (JObj kvs) = Inr kvs"
| "dict_of (JArr items) =
     (if list_all (\<lambda>v. pair_of v \<noteq> None) items
      then Inr (dict_update [] (map (\<lambda>v. the (pair_of v)) items)) else Inl (ToolForeign ''ValueError''))"
| "dict_of (JStr s) = Inl (ToolForeign ''ValueError'')"
| "dict_of _ = Inl (ToolForeign ''TypeError'')"

definition inner_preset :: "tool_preset \<Rightarrow> for_each \<Rightarrow> json \<Rightarrow> tool_preset" where
  "inner_preset p link v =
     p\<lparr>tp_arguments := dict_set (fe_argument link) v (tp_arguments p), tp_for_each := None\<rparr>"

text \<open>\<^theory_text>\<open>a or b\<close> of two marks.\<close>

definition or_mark :: "string option \<Rightarrow> string option \<Rightarrow> string option" where
  "or_mark a b = (if named a = None then b else a)"

definition hold_checkpoint :: "source_checkpoint \<Rightarrow> (string, json) dict \<Rightarrow> string option \<Rightarrow> source_checkpoint" where
  "hold_checkpoint held position pending =
     \<lparr>sc_stream = sc_stream held, sc_position = JObj position, sc_hash = None,
       sc_watermark = sc_watermark held, sc_pending = pending\<rparr>"

definition fan_end_page :: "tool_preset \<Rightarrow> source_checkpoint \<Rightarrow> tool_page" where
  "fan_end_page p c =
     \<lparr>gp_records = [], gp_relationships = [], gp_mode = DeltaMode, gp_strict = tp_strict_schema p,
       gp_checkpoint = \<lparr>sc_stream = sc_stream c, sc_position = JObj [], sc_hash = None,
         sc_watermark = max_mark [sc_pending c, sc_watermark c], sc_pending = None\<rparr>,
       gp_live_ids = None, gp_withdrawals = [], gp_exhausted = True, gp_contract = None\<rparr>"

definition place_inner_page ::
  "source_checkpoint \<Rightarrow> int \<Rightarrow> nat \<Rightarrow> tool_page \<Rightarrow> tool_exc + tool_page" where
  "place_inner_page c index n page =
     (let inner = gp_checkpoint page in
      if \<not> gp_exhausted page
      then bindR (if truthy (sc_position inner) then dict_of (sc_position inner) else Inr []) (\<lambda>pos.
        Inr (page\<lparr>gp_checkpoint := inner\<lparr>sc_position := JObj (dict_update [(fan_key, JInt index)] pos)\<rparr>\<rparr>))
      else if index + 1 < int n
      then Inr (page\<lparr>gp_exhausted := False,
             gp_checkpoint := hold_checkpoint c [(fan_key, JInt (index + 1))]
               (or_mark (sc_watermark inner) (sc_pending c))\<rparr>)
      else Inr page)"

definition extract_fanned ::
  "'w tool_env \<Rightarrow> tool_adapter \<Rightarrow> for_each \<Rightarrow> source_checkpoint \<Rightarrow> json list \<Rightarrow>
     ('w, tool_page) tool_prog" where
  "extract_fanned E A link c vals =
     (let p = ta_preset A; position = position_of (sc_position c) in
      bindP (liftP (position_number position fan_key 0)) (\<lambda>index.
      if int (length vals) \<le> index then returnP (fan_end_page p c)
      else bindP (liftP (py_index vals index)) (\<lambda>v.
        let inner = c\<lparr>sc_position := JObj (filter (\<lambda>m. fst m \<noteq> fan_key) position), sc_hash := None\<rparr> in
        bindP (extract_plain E (derive_adapter A (inner_preset p link v)) (inner_preset p link v)
            (Some inner)) (\<lambda>page.
          liftP (place_inner_page c index (length vals) page)))))"

section \<open>Extraction and reconciliation\<close>

text \<open>A position without the fan key starts a new sweep, which reads the parents again.\<close>

definition starts_sweep :: "source_checkpoint \<Rightarrow> bool" where
  "starts_sweep c \<longleftrightarrow> map_of (position_of (sc_position c)) fan_key = None"

definition adapter_extract ::
  "'w tool_env \<Rightarrow> tool_adapter \<Rightarrow> source_checkpoint option \<Rightarrow> ('w, tool_page) tool_prog" where
  "adapter_extract E A checkpoint =
     (let p = ta_preset A; current = current_checkpoint p checkpoint in
      bindP (getsP ts_verified) (\<lambda>verified.
      if verified = [] \<or> sc_stream current \<noteq> tp_name p
      then raiseP (SourceContract ''extraction needs a verified tool and this stream's checkpoint'')
      else case tp_for_each p of
        None \<Rightarrow> extract_plain E A p checkpoint
      | Some link \<Rightarrow>
          thenP (modifyP (\<lambda>s. if starts_sweep current then s\<lparr>ts_fan := None\<rparr> else s))
         (bindP (fan_out_values E A) (\<lambda>vals. extract_fanned E A link current vals))))"

record reconciliation =
  rn_stream :: string
  rn_missing :: "string list"
  rn_unknown :: "string list"

definition reconciliation_of :: "string \<Rightarrow> string list \<Rightarrow> string list \<Rightarrow> reconciliation" where
  "reconciliation_of stream known seen =
     \<lparr>rn_stream = stream,
       rn_missing = sort (remdups (filter (\<lambda>k. k \<notin> set seen) known)),
       rn_unknown = sort (remdups (filter (\<lambda>k. k \<notin> set known) seen))\<rparr>"

primrec reconcile_pages ::
  "nat \<Rightarrow> 'w tool_env \<Rightarrow> tool_adapter \<Rightarrow> string list \<Rightarrow> string list \<Rightarrow> source_checkpoint option \<Rightarrow>
     ('w, reconciliation) tool_prog" where
  "reconcile_pages 0 E A known seen checkpoint =
     raiseP (SourceContract ''reconciliation sweep exceeded max_pages'')"
| "reconcile_pages (Suc n) E A known seen checkpoint =
     bindP (adapter_extract E A checkpoint) (\<lambda>page.
     let seen1 = seen @ map sr_id (gp_records page) in
     if gp_exhausted page then returnP (reconciliation_of (tp_name (ta_preset A)) known seen1)
     else reconcile_pages n E A known seen1 (Some ((gp_checkpoint page)\<lparr>sc_watermark := None\<rparr>)))"

definition adapter_reconcile ::
  "'w tool_env \<Rightarrow> tool_adapter \<Rightarrow> string list \<Rightarrow> ('w, reconciliation) tool_prog" where
  "adapter_reconcile E A known =
     reconcile_pages (tp_max_pages (ta_preset A)) E A known [] None"

end
