(* ===== verification/Tool_Sweep.thy ===== *)
theory Tool_Sweep
  imports Tool_Adapter
begin

text \<open>
  What a page of the tool adapter promises: the shape of its values, and how far the watermark of
  its checkpoint has moved.
\<close>

section \<open>The checkpoint of a page\<close>

text \<open>How far a checkpoint has read: the later of its watermark and of the marks it holds back.\<close>

definition reach :: "source_checkpoint \<Rightarrow> string option" where
  "reach c = max_mark [sc_watermark c, sc_pending c]"

definition page_marks :: "tool_page \<Rightarrow> string option" where
  "page_marks page = max_mark (map sr_updated (gp_records page))"

text \<open>
  \<open>advances c records c' over\<close>: after a page with these records, the watermark has moved only if
  the sweep is over, and then to everything read.
\<close>

definition advances ::
  "source_checkpoint \<Rightarrow> string option \<Rightarrow> source_checkpoint \<Rightarrow> bool \<Rightarrow> bool" where
  "advances c marks c' over \<longleftrightarrow>
     sc_stream c' = sc_stream c \<and> reach c' = max (reach c) marks
     \<and> (if over then named (sc_watermark c') = reach c' \<and> sc_pending c' = None
        else sc_watermark c' = sc_watermark c)"

lemma reach_simp: "reach c = max (named (sc_watermark c)) (named (sc_pending c))"
  by (simp add: reach_def max_mark_Cons)

lemma named_reach [simp]: "named (reach c) = reach c"
  by (simp add: reach_def)

lemma named_max_fixed [simp]:
  "named x = x \<Longrightarrow> named y = y \<Longrightarrow> named (max x y) = max x y"
  by (auto simp: max_def)

lemma checkpoint_after_page_advances:
  "advances c (max_mark (map sr_updated records)) (checkpoint_after_page c records position h)
     (position = None)"
  by (cases position)
    (simp_all add: checkpoint_after_page_def advances_def reach_simp max_mark_Cons max.assoc
      max.commute max.left_commute)

lemma checkpoint_after_page_stream [simp]:
  "sc_stream (checkpoint_after_page c records position h) = sc_stream c"
  by (simp add: checkpoint_after_page_def Let_def split: option.splits)

lemma advances_from_position [simp]:
  "advances (c\<lparr>sc_position := pos, sc_hash := h\<rparr>) m c' b = advances c m c' b"
  by (simp add: advances_def reach_def)

lemma page_checkpoint_advances:
  assumes "page_checkpoint p c records result raw = Inr (c', over)" "tp_checkpoint_path p = []"
  shows "advances c (max_mark (map sr_updated records)) c' over"
  using assms checkpoint_after_page_advances [of c records None]
    checkpoint_after_page_advances [of c records "Some pos" for pos]
  by (auto simp: page_checkpoint_def result_iff)

lemma page_checkpoint_stream:
  "page_checkpoint p c records result raw = Inr (c', over) \<Longrightarrow> sc_stream c' = sc_stream c"
  by (auto simp: page_checkpoint_def result_iff)

text \<open>A provider that keeps its own checkpoint holds the watermark for ever.\<close>

lemma page_checkpoint_provider:
  assumes "page_checkpoint p c records result raw = Inr (c', over)" "tp_checkpoint_path p \<noteq> []"
  shows "sc_stream c' = sc_stream c \<and> sc_watermark c' = sc_watermark c"
  using assms by (auto simp: page_checkpoint_def result_iff checkpoint_after_page_def Let_def)

section \<open>What an extraction that returns has done\<close>

lemma tool_port_Inr [run_iff]:
  "tool_port p s = (Inr x, t) \<longleftrightarrow> (\<exists>w. p (ts_world s) = (Inr x, w) \<and> t = s\<lparr>ts_world := w\<rparr>)"
  by (auto simp: tool_port_def split: prod.splits)

lemma call_tool_Inr [run_iff]:
  "call_tool E name args s = (Inr x, t) \<longleftrightarrow>
     (\<exists>w. te_call_tool E name args (ts_world s) = (Inr x, w)
        \<and> t = s\<lparr>ts_world := w, ts_log := ts_log s @ [ToolCalled name args]\<rparr>)"
  by (auto simp: call_tool_def note_tool_def run_iff)

lemma list_tools_Inr [run_iff]:
  "list_tools E s = (Inr x, t) \<longleftrightarrow>
     (\<exists>w. te_list_tools E (ts_world s) = (Inr x, w)
        \<and> t = s\<lparr>ts_world := w, ts_log := ts_log s @ [ToolsListed]\<rparr>)"
  by (auto simp: list_tools_def note_tool_def run_iff)

lemma new_uuid_Inr [run_iff]:
  "new_uuid E s = (Inr u, t) \<longleftrightarrow>
     (\<exists>w. te_uuid E (ts_world s) = (u, w) \<and> t = s\<lparr>ts_world := w\<rparr>)"
  by (auto simp: new_uuid_def tool_port_def split: prod.splits)

definition placed :: "tool_preset \<Rightarrow> page_draft \<Rightarrow> source_checkpoint \<Rightarrow> bool" where
  "placed p d c \<longleftrightarrow>
     (if is_snapshot p d then \<exists>pos. c = (dr_checkpoint d)\<lparr>sc_position := pos\<rparr> else c = dr_checkpoint d)"

lemma place_snapshot_Inr:
  "place_snapshot E p d s = (Inr c, t) \<Longrightarrow>
     placed p d c \<and> ts_verified t = ts_verified s \<and> ts_fan t = ts_fan s"
  by (auto simp: place_snapshot_def placed_def run_iff split: if_splits)

text \<open>The pure content of a page, and what it was read from.\<close>

definition page_from ::
  "tool_lib \<Rightarrow> tool_adapter \<Rightarrow> tool_preset \<Rightarrow> string \<Rightarrow> source_checkpoint option \<Rightarrow> json \<Rightarrow>
     tool_page \<Rightarrow> bool" where
  "page_from L A p verified checkpoint result page \<longleftrightarrow>
     (\<exists>d c edges contract.
        draft_page L A p verified (current_checkpoint p checkpoint) checkpoint result = Inr d
        \<and> placed p d c
        \<and> bindR (raw_relationships p result)
            (mapped_relationships (tl_py L) A p verified (dr_references d)) = Inr edges
        \<and> page = page_of_draft p d c edges contract)"

lemma extract_plain_returns:
  assumes "extract_plain E A p checkpoint s = (Inr page, t)"
  shows "(\<exists>result. page_from (te_lib E) A p (ts_verified s) checkpoint result page)
     \<and> ts_verified t = ts_verified s \<and> ts_fan t = ts_fan s"
  using assms
  unfolding extract_plain_def Let_def
  by (clarsimp simp: run_iff page_from_def dest!: place_snapshot_Inr) blast

lemma draft_page_Inr:
  assumes "draft_page L A p verified current checkpoint result = Inr d"
  obtains raw refs where
    "raw_records L p result = Inr raw"
    "mapped_records L A p verified (sc_watermark current) raw = Inr (dr_records d, refs)"
    "dr_references d = refs"
    "page_checkpoint p current (dr_records d) result raw = Inr (dr_checkpoint d, dr_exhausted d)"
    "authoritative_live_ids (tl_py L) p result = Inr (dr_live_ids d)"
    "ingestion_mode_of L p (dr_live_ids d) checkpoint = Inr (dr_mode d)"
    "source_withdrawals (tl_py L) p result = Inr (dr_withdrawals d)"
    "dr_mode d = DeltaMode \<or> dr_withdrawals d = []"
  using assms by (auto simp: draft_page_def result_iff split: prod.splits)

lemma page_from_draft:
  assumes "page_from L A p verified checkpoint result page"
  obtains d where
    "draft_page L A p verified (current_checkpoint p checkpoint) checkpoint result = Inr d"
    "placed p d (gp_checkpoint page)" "gp_records page = dr_records d"
    "gp_exhausted page = dr_exhausted d" "gp_mode page = dr_mode d"
    "gp_live_ids page = dr_live_ids d" "gp_withdrawals page = dr_withdrawals d"
    "bindR (raw_relationships p result)
       (mapped_relationships (tl_py L) A p verified (dr_references d)) = Inr (gp_relationships page)"
  using assms by (auto simp: page_from_def page_of_draft_def)

section \<open>The watermark moves with the sweep\<close>

lemma placed_fields:
  "placed p d c \<Longrightarrow> sc_stream c = sc_stream (dr_checkpoint d)
     \<and> sc_watermark c = sc_watermark (dr_checkpoint d) \<and> sc_pending c = sc_pending (dr_checkpoint d)"
  by (auto simp: placed_def split: if_splits)

lemma page_from_advances:
  assumes "page_from L A p verified checkpoint result page" "tp_checkpoint_path p = []"
  shows "advances (current_checkpoint p checkpoint) (page_marks page) (gp_checkpoint page)
           (gp_exhausted page)"
proof -
  from assms(1) obtain d where d:
    "draft_page L A p verified (current_checkpoint p checkpoint) checkpoint result = Inr d"
    "placed p d (gp_checkpoint page)" "gp_records page = dr_records d"
    "gp_exhausted page = dr_exhausted d"
    by (rule page_from_draft)
  from d(1) obtain raw where
    "page_checkpoint p (current_checkpoint p checkpoint) (dr_records d) result raw
       = Inr (dr_checkpoint d, dr_exhausted d)"
    by (rule draft_page_Inr)
  from page_checkpoint_advances [OF this assms(2)]
  have "advances (current_checkpoint p checkpoint) (page_marks page) (dr_checkpoint d)
      (gp_exhausted page)"
    using d(3,4) by (simp add: page_marks_def)
  then show ?thesis
    using placed_fields [OF d(2)] by (simp add: advances_def reach_def)
qed

text \<open>Two steps of one sweep are one step.\<close>

lemma advances_trans:
  "advances c m c' False \<Longrightarrow> advances c' m' c'' over \<Longrightarrow> advances c (max m m') c'' over"
  by (auto simp: advances_def max.assoc split: if_splits)

lemma advances_refl: "advances c None c False"
  by (simp add: advances_def)

lemma place_inner_advances:
  assumes "place_inner_page c index n page = Inr page'"
    and "advances c (page_marks page) (gp_checkpoint page) (gp_exhausted page)"
  shows "advances c (page_marks page') (gp_checkpoint page') (gp_exhausted page')"
proof (cases "gp_exhausted page \<and> index + 1 < int n")
  case True
  then have page': "gp_records page' = gp_records page" "\<not> gp_exhausted page'"
    "gp_checkpoint page' = hold_checkpoint c [(fan_key, JInt (index + 1))]
       (or_mark (sc_watermark (gp_checkpoint page)) (sc_pending c))"
    using assms(1) by (auto simp: place_inner_page_def Let_def)
  have "named (sc_watermark (gp_checkpoint page)) = max (reach c) (page_marks page)"
    using assms(2) True by (simp add: advances_def)
  moreover have "page_marks page' = page_marks page"
    using page' by (simp add: page_marks_def)
  ultimately show ?thesis
    using page' by (cases "max (reach c) (page_marks page)")
      (auto simp: advances_def hold_checkpoint_def reach_simp or_mark_def max_def
        dest: less_eq_option_None_is_None split: if_splits)
next
  case False
  then have "page_marks page' = page_marks page" "gp_exhausted page' = gp_exhausted page"
    "advances c m (gp_checkpoint page') b = advances c m (gp_checkpoint page) b" for m b
    using assms(1)
    by (auto simp: place_inner_page_def Let_def page_marks_def result_iff advances_def reach_def
        split: if_splits)
  with assms(2) show ?thesis by simp
qed

text \<open>
  \<open>moves p c marks c' over\<close>: the step the checkpoint makes over a page or a sweep of pages. A
  provider that keeps its own checkpoint never has its watermark moved; over the parents of a
  fan-out nothing is claimed for such a provider but that the stream is kept.
\<close>

definition moves ::
  "tool_preset \<Rightarrow> source_checkpoint \<Rightarrow> string option \<Rightarrow> source_checkpoint \<Rightarrow> bool \<Rightarrow> bool" where
  "moves p c marks c' over \<longleftrightarrow>
     sc_stream c' = sc_stream c
     \<and> (if tp_checkpoint_path p = [] then advances c marks c' over
        else tp_for_each p \<noteq> None \<or> sc_watermark c' = sc_watermark c)"

definition page_moves :: "tool_preset \<Rightarrow> source_checkpoint \<Rightarrow> tool_page \<Rightarrow> bool" where
  "page_moves p c page \<longleftrightarrow> moves p c (page_marks page) (gp_checkpoint page) (gp_exhausted page)"

lemma moves_refl: "moves p c None c False"
  by (simp add: moves_def advances_refl)

lemma moves_trans: "moves p c m c' False \<Longrightarrow> moves p c' m' c'' over \<Longrightarrow> moves p c (max m m') c'' over"
  by (auto simp: moves_def intro: advances_trans split: if_splits)

lemma page_from_stream:
  assumes "page_from L A p verified checkpoint result page"
  shows "sc_stream (gp_checkpoint page) = sc_stream (current_checkpoint p checkpoint)
     \<and> (tp_checkpoint_path p = []
        \<or> sc_watermark (gp_checkpoint page) = sc_watermark (current_checkpoint p checkpoint))"
proof -
  from assms obtain d where d:
    "draft_page L A p verified (current_checkpoint p checkpoint) checkpoint result = Inr d"
    "placed p d (gp_checkpoint page)"
    by (rule page_from_draft)
  from d(1) obtain raw where
    "page_checkpoint p (current_checkpoint p checkpoint) (dr_records d) result raw
       = Inr (dr_checkpoint d, dr_exhausted d)"
    by (rule draft_page_Inr)
  then show ?thesis
    using placed_fields [OF d(2)] page_checkpoint_provider page_checkpoint_stream by metis
qed

lemma page_from_moves:
  assumes "page_from L A p verified checkpoint result page"
  shows "page_moves p (current_checkpoint p checkpoint) page"
  using page_from_advances [OF assms] page_from_stream [OF assms]
  by (auto simp: page_moves_def moves_def)

text \<open>The parent's value is one more argument: everything else of the preset stays.\<close>

lemma inner_preset_fields [simp]:
  "tp_checkpoint_path (inner_preset p link v) = tp_checkpoint_path p"
  "tp_name (inner_preset p link v) = tp_name p"
  by (simp_all add: inner_preset_def)

lemma place_inner_page_moves:
  assumes "place_inner_page c index n page = Inr page'"
    and "page_moves (inner_preset p link v) c page" "tp_for_each p \<noteq> None"
  shows "page_moves p c page'"
proof (cases "tp_checkpoint_path p = []")
  case True
  then have "advances c (page_marks page) (gp_checkpoint page) (gp_exhausted page)"
    using assms(2) by (simp add: page_moves_def moves_def inner_preset_def)
  from place_inner_advances [OF assms(1) this] True show ?thesis
    by (simp add: page_moves_def moves_def advances_def)
next
  case False
  with assms show ?thesis
    by (auto simp: page_moves_def moves_def inner_preset_def place_inner_page_def Let_def result_iff
        hold_checkpoint_def split: if_splits)
qed

lemma fan_end_page_moves: "tp_for_each p \<noteq> None \<Longrightarrow> page_moves p c (fan_end_page p c)"
  by (simp add: page_moves_def moves_def fan_end_page_def advances_def reach_simp page_marks_def
      max_mark_Cons max.commute)

lemma inner_page_moves:
  assumes "extract_plain E B (inner_preset p link v)
      (Some (c\<lparr>sc_position := pos, sc_hash := None\<rparr>)) s = (Inr page, t)"
  shows "page_moves (inner_preset p link v) c page"
proof -
  from extract_plain_returns [OF assms] obtain result where
    "page_from (te_lib E) B (inner_preset p link v) (ts_verified s)
       (Some (c\<lparr>sc_position := pos, sc_hash := None\<rparr>)) result page"
    by blast
  from page_from_moves [OF this] show ?thesis
    by (simp add: page_moves_def moves_def current_checkpoint_def split: if_splits)
qed

lemma extract_fanned_moves:
  assumes "extract_fanned E A link c vals s = (Inr page, t)" "tp_for_each (ta_preset A) \<noteq> None"
  shows "page_moves (ta_preset A) c page"
  using assms
  by (auto simp: extract_fanned_def Let_def run_iff fan_end_page_moves
      dest!: inner_page_moves intro: place_inner_page_moves split: if_splits)

lemma extract_moves:
  assumes "adapter_extract E A checkpoint s = (Inr page, t)"
  shows "page_moves (ta_preset A) (current_checkpoint (ta_preset A) checkpoint) page"
  using assms
  by (auto simp: adapter_extract_def Let_def run_iff split: if_splits option.splits
      dest!: extract_plain_returns dest: page_from_moves extract_fanned_moves)

end
