(* ===== verification/Tool_Types.thy ===== *)
theory Tool_Types
  imports Tool_Sweep
begin

text \<open>
  The shape of the pages: whatever the session answers, a page that the adapter returns has the
  form that the sink and the runner rely on.
\<close>

section \<open>Well-formed pages\<close>

definition adapter_provenance :: "tool_adapter \<Rightarrow> string \<Rightarrow> tool_provenance \<Rightarrow> bool" where
  "adapter_provenance A verified pv \<longleftrightarrow>
     pv_connector pv = ta_connector A \<and> pv_server pv = tp_server (ta_preset A)
     \<and> pv_tool pv = tp_tool (ta_preset A) \<and> pv_schema pv = verified"

definition record_well_formed :: "tool_lib \<Rightarrow> tool_adapter \<Rightarrow> string \<Rightarrow> source_record \<Rightarrow> bool" where
  "record_well_formed L A verified r \<longleftrightarrow>
     sr_stream r = tp_name (ta_preset A)
     \<and> starts_with (mapping_prefix (ta_connector A)) (sr_mapping r)
     \<and> adapter_provenance A verified (sr_provenance r) \<and> tl_accepts L r
     \<and> validate_strict_fields (ta_preset A) (sr_payload r) = Inr ()"

definition declared_relation :: "tool_adapter \<Rightarrow> string \<Rightarrow> bool" where
  "declared_relation A reference \<longleftrightarrow>
     (\<exists>resource \<in> ran (map_of (ta_resources A)). \<exists>name \<in> set (rd_relations resource).
        reference = ''connector:'' @ ta_connector A @ ''#relations/'' @ rd_name resource
          @ ''/'' @ name)"

definition edge_well_formed :: "tool_adapter \<Rightarrow> string \<Rightarrow> source_relationship \<Rightarrow> bool" where
  "edge_well_formed A verified e \<longleftrightarrow>
     adapter_provenance A verified (se_provenance e) \<and> declared_relation A (se_reference e)"

text \<open>
  The lifecycle of a page: a reconciliation exactly when there is a live set, withdrawals only in
  a delta and each with a reason, and the checkpoint of the stream.
\<close>

definition lifecycle_well_formed :: "tool_adapter \<Rightarrow> tool_page \<Rightarrow> bool" where
  "lifecycle_well_formed A page \<longleftrightarrow>
     (gp_mode page = ReconcileMode) = (gp_live_ids page \<noteq> None)
     \<and> (gp_mode page = DeltaMode \<or> gp_withdrawals page = [])
     \<and> list_all (\<lambda>w. \<not> blank (sw_reason w)) (gp_withdrawals page)
     \<and> gp_strict page = tp_strict_schema (ta_preset A)
     \<and> sc_stream (gp_checkpoint page) = tp_name (ta_preset A)"

definition page_well_formed :: "tool_lib \<Rightarrow> tool_adapter \<Rightarrow> string \<Rightarrow> tool_page \<Rightarrow> bool" where
  "page_well_formed L A verified page \<longleftrightarrow>
     list_all (record_well_formed L A verified) (gp_records page)
     \<and> list_all (edge_well_formed A verified) (gp_relationships page)
     \<and> lifecycle_well_formed A page"

section \<open>Cases that raise but for one form\<close>

lemma text_case_Inr [result_iff]:
  "(case v of JStr k \<Rightarrow> f k | _ \<Rightarrow> Inl e) = Inr y \<longleftrightarrow> (\<exists>k. v = JStr k \<and> f k = Inr y)"
  by (cases v) auto

lemma option_case_Inr [result_iff]:
  "(case v of None \<Rightarrow> Inl e | Some x \<Rightarrow> f x) = Inr y \<longleftrightarrow> (\<exists>x. v = Some x \<and> f x = Inr y)"
  by (cases v) auto

lemma mode_case_Inr:
  "(case m of ReconcileMode \<Rightarrow> Inl e | FullMode \<Rightarrow> Inr FullMode | DeltaMode \<Rightarrow> Inr DeltaMode)
     = Inr mode \<longleftrightarrow> m = mode \<and> mode \<noteq> ReconcileMode"
  by (cases m) auto

section \<open>Records\<close>

lemma dict_update_in:
  "map_of (dict_update d e) k = Some v \<Longrightarrow> map_of d k = Some v \<or> (k, v) \<in> set e"
  by (induction d e rule: dict_update.induct) (force split: if_splits)+

lemma mapR_in: "mapR f xs = Inr ys \<Longrightarrow> y \<in> set ys \<Longrightarrow> \<exists>x \<in> set xs. f x = Inr y"
  by (auto simp: mapR_Inr_iff dest: list_all2_source)

lemma starts_with_append [simp]: "starts_with prefix (prefix @ s)"
  by (simp add: starts_with_def)

lemma record_mapping_prefix:
  assumes "record_mapping connector configured mappings p raw = Inr ref"
  shows "starts_with (mapping_prefix connector) ref"
  using assms unfolding record_mapping_def
  by (auto simp: result_iff split: if_splits)

lemma source_record_well_formed:
  assumes "source_record_of L (ta_connector A) (ta_preset A) verified ref raw = Inr r"
    and "starts_with (mapping_prefix (ta_connector A)) ref"
  shows "record_well_formed L A verified r"
  using assms
  by (auto simp: source_record_of_def Let_def result_iff record_well_formed_def
      adapter_provenance_def)

lemma mapped_records_well_formed:
  assumes "mapped_records L A (ta_preset A) verified since raw = Inr (records, refs)"
  shows "list_all (record_well_formed L A verified) records"
proof -
  from assms obtain pairs taken where
    pairs: "mapR (record_reference L A (ta_preset A)) raw = Inr pairs" and
    refs: "refs = dict_update [] pairs" and
    taken: "mapR (taken_record L A (ta_preset A) verified since refs) raw = Inr taken" and
    records: "records = concat taken"
    by (auto simp: mapped_records_def Let_def result_iff)
  have prefix: "starts_with (mapping_prefix (ta_connector A)) ref" if "map_of refs id = Some ref" for id ref
  proof -
    have "(id, ref) \<in> set pairs"
      using dict_update_in [of "[]" pairs id ref] that refs by simp
    then show ?thesis
      using mapR_in [OF pairs] by (fastforce simp: record_reference_def result_iff record_mapping_prefix)
  qed
  have "record_well_formed L A verified r"
    if "taken_record L A (ta_preset A) verified since refs x = Inr rs" "r \<in> set rs" for x rs r
  proof -
    from that obtain id ref where "map_of refs id = Some ref"
      "source_record_of L (ta_connector A) (ta_preset A) verified ref x = Inr r"
      by (auto simp: taken_record_def result_iff split: if_splits option.splits)
    then show ?thesis by (blast intro: source_record_well_formed prefix)
  qed
  with mapR_in [OF taken] have "record_well_formed L A verified r"
    if "rs \<in> set taken" "r \<in> set rs" for rs r
    using that by blast
  then show ?thesis by (auto simp: records list_all_iff)
qed

section \<open>Relationships\<close>

lemma relation_reference_declared:
  assumes "relation_reference py A p refs edge = Inr reference"
  shows "declared_relation A reference"
proof -
  from assms obtain key resource name where
    "relation_resource (ta_schema_mappings A) (ta_resources A) key = Some resource"
    "name \<in> set (rd_relations resource)"
    "reference = ''connector:'' @ ta_connector A @ ''#relations/'' @ rd_name resource @ ''/'' @ name"
    unfolding relation_reference_def Let_def
    by (auto simp: result_iff split: if_splits)
  moreover from this(1) have "resource \<in> ran (map_of (ta_resources A))"
    by (auto simp: relation_resource_def ran_def split: option.splits)
  ultimately show ?thesis unfolding declared_relation_def by blast
qed

lemma source_relationship_provenance:
  assumes "source_relationship_of py (ta_connector A) (ta_preset A) verified reference edge = Inr e"
  shows "adapter_provenance A verified (se_provenance e) \<and> se_reference e = reference"
  using assms by (auto simp: source_relationship_of_def result_iff adapter_provenance_def)

lemma mapped_relationships_well_formed:
  assumes "mapped_relationships py A (ta_preset A) verified refs edges = Inr es"
  shows "list_all (edge_well_formed A verified) es"
proof -
  have "edge_well_formed A verified e" if "e \<in> set es" for e
    using mapR_in [OF assms [unfolded mapped_relationships_def] that]
    by (auto simp: result_iff edge_well_formed_def
        dest!: relation_reference_declared source_relationship_provenance)
  then show ?thesis by (simp add: list_all_iff)
qed

section \<open>Lifecycle\<close>

lemma mode_reconciles:
  "ingestion_mode_of L p live checkpoint = Inr mode \<Longrightarrow> (mode = ReconcileMode) = (live \<noteq> None)"
  unfolding ingestion_mode_of_def
  by (auto simp: result_iff mode_case_Inr split: if_splits)

lemma withdrawals_reasoned:
  assumes "source_withdrawals py p result = Inr gone"
  shows "list_all (\<lambda>w. \<not> blank (sw_reason w)) gone"
proof -
  have "\<not> blank (sw_reason w)" if "source_withdrawal_of py p d = Inr w" for d w
    using that by (auto simp: source_withdrawal_of_def result_iff)
  with assms show ?thesis
    by (auto simp: source_withdrawals_def result_iff list_all_iff split: if_splits option.splits
        dest!: mapR_in)
qed

lemma page_from_well_formed:
  assumes "page_from L A (ta_preset A) verified checkpoint result page"
    and "sc_stream (current_checkpoint (ta_preset A) checkpoint) = tp_name (ta_preset A)"
  shows "page_well_formed L A verified page"
proof -
  from assms(1) obtain d where d:
    "draft_page L A (ta_preset A) verified (current_checkpoint (ta_preset A) checkpoint) checkpoint
       result = Inr d"
    "placed (ta_preset A) d (gp_checkpoint page)" "gp_records page = dr_records d"
    "gp_exhausted page = dr_exhausted d" "gp_mode page = dr_mode d"
    "gp_live_ids page = dr_live_ids d" "gp_withdrawals page = dr_withdrawals d"
    "bindR (raw_relationships (ta_preset A) result)
       (mapped_relationships (tl_py L) A (ta_preset A) verified (dr_references d))
       = Inr (gp_relationships page)"
    by (rule page_from_draft)
  from d(1) obtain raw refs where w:
    "mapped_records L A (ta_preset A) verified
       (sc_watermark (current_checkpoint (ta_preset A) checkpoint)) raw = Inr (dr_records d, refs)"
    "ingestion_mode_of L (ta_preset A) (dr_live_ids d) checkpoint = Inr (dr_mode d)"
    "source_withdrawals (tl_py L) (ta_preset A) result = Inr (dr_withdrawals d)"
    "dr_mode d = DeltaMode \<or> dr_withdrawals d = []"
    by (rule draft_page_Inr)
  have strict: "gp_strict page = tp_strict_schema (ta_preset A)"
    using assms(1) by (auto simp: page_from_def page_of_draft_def)
  from d(8) obtain edges where
    "mapped_relationships (tl_py L) A (ta_preset A) verified (dr_references d) edges
       = Inr (gp_relationships page)"
    by (auto simp: result_iff)
  then show ?thesis
    using mapped_records_well_formed [OF w(1)] mapped_relationships_well_formed
      mode_reconciles [OF w(2)] withdrawals_reasoned [OF w(3)] w(4) d strict
      page_from_stream [OF assms(1)] assms(2)
    by (simp add: page_well_formed_def lifecycle_well_formed_def)
qed

section \<open>Fan-out\<close>

lemma derived_well_formed:
  "page_well_formed L (derive_adapter A (inner_preset (ta_preset A) link v)) verified page
     = page_well_formed L A verified page"
proof -
  have "record_well_formed L (derive_adapter A (inner_preset (ta_preset A) link v)) verified
      = record_well_formed L A verified"
    "edge_well_formed (derive_adapter A (inner_preset (ta_preset A) link v)) verified
      = edge_well_formed A verified"
    by (simp_all add: fun_eq_iff record_well_formed_def edge_well_formed_def
        adapter_provenance_def derive_adapter_def inner_preset_def validate_strict_fields_def
        declared_relation_def)
  then show ?thesis
    by (simp add: page_well_formed_def lifecycle_well_formed_def derive_adapter_def
        inner_preset_def)
qed

lemma place_inner_well_formed:
  assumes "place_inner_page c index n page = Inr page'" "page_well_formed L A verified page"
    and "sc_stream c = tp_name (ta_preset A)"
  shows "page_well_formed L A verified page'"
  using assms
  by (auto simp: place_inner_page_def Let_def result_iff page_well_formed_def
      lifecycle_well_formed_def hold_checkpoint_def split: if_splits)

lemma fan_end_well_formed:
  "sc_stream c = tp_name (ta_preset A) \<Longrightarrow> page_well_formed L A verified (fan_end_page (ta_preset A) c)"
  by (simp add: page_well_formed_def lifecycle_well_formed_def fan_end_page_def)

lemma inner_page_well_formed:
  assumes "extract_plain E (derive_adapter A (inner_preset (ta_preset A) link v))
      (inner_preset (ta_preset A) link v) (Some (c\<lparr>sc_position := pos, sc_hash := None\<rparr>)) s
      = (Inr page, t)"
    and "sc_stream c = tp_name (ta_preset A)"
  shows "page_well_formed (te_lib E) A (ts_verified s) page \<and> ts_verified t = ts_verified s"
proof -
  let ?B = "derive_adapter A (inner_preset (ta_preset A) link v)"
  have B: "ta_preset ?B = inner_preset (ta_preset A) link v"
    by (simp add: derive_adapter_def)
  from extract_plain_returns [OF assms(1)] obtain result where
    "page_from (te_lib E) ?B (ta_preset ?B) (ts_verified s)
       (Some (c\<lparr>sc_position := pos, sc_hash := None\<rparr>)) result page" "ts_verified t = ts_verified s"
    by (auto simp: B)
  from page_from_well_formed [OF this(1)] this(2) show ?thesis
    using assms(2) by (simp add: current_checkpoint_def B derived_well_formed)
qed

lemma parent_pages_keep:
  "parent_sweep_pages n E p field limit seen position s = (Inr vs, t) \<Longrightarrow> ts_verified t = ts_verified s"
  by (induction n arbitrary: seen position s)
    (fastforce simp: run_iff Let_def split: option.splits)+

lemma parent_scopes_keep:
  "sweep_parent_scopes E p field limit seen scopes s = (Inr vs, t) \<Longrightarrow> ts_verified t = ts_verified s"
  by (induction scopes arbitrary: seen s) (fastforce simp: run_iff dest: parent_pages_keep)+

lemma fan_parent_values_keep:
  "fan_parent_values n E parents limit p s = (Inr vs, t) \<Longrightarrow> ts_verified t = ts_verified s"
proof (induction n arbitrary: p s vs t)
  case (Suc n)
  then show ?case
    by (auto simp: run_iff split: option.splits dest!: parent_pages_keep parent_scopes_keep Suc.IH)
qed (simp add: run_iff)

lemma fan_out_values_keep:
  "fan_out_values E A s = (Inr vs, t) \<Longrightarrow> ts_verified t = ts_verified s"
  by (auto simp: fan_out_values_def run_iff simp del: fan_parent_values.simps
      split: option.splits dest: fan_parent_values_keep)

lemma extract_fanned_well_formed:
  assumes "extract_fanned E A link c vals s = (Inr page, t)" "sc_stream c = tp_name (ta_preset A)"
  shows "page_well_formed (te_lib E) A (ts_verified s) page"
  using assms
  by (auto simp: extract_fanned_def Let_def run_iff fan_end_well_formed
      dest!: inner_page_well_formed intro: place_inner_well_formed split: if_splits)

lemma extract_well_formed:
  assumes "adapter_extract E A checkpoint s = (Inr page, t)"
  shows "page_well_formed (te_lib E) A (ts_verified s) page"
proof -
  have stream: "sc_stream (current_checkpoint (ta_preset A) checkpoint) = tp_name (ta_preset A)"
    using assms by (auto simp: adapter_extract_def Let_def run_iff split: if_splits)
  with assms show ?thesis
    by (auto simp: adapter_extract_def Let_def run_iff split: if_splits option.splits
        dest!: extract_plain_returns fan_out_values_keep extract_fanned_well_formed
        intro: page_from_well_formed)
qed

text \<open>
  Property C8. Whatever the session answers, a page that the adapter returns is well formed: every
  record is of the preset's stream, under a mapping of the connector, with the provenance of the
  verified tool, inside its strict schema and accepted by the generated type; every relationship
  names a relation that a manifest resource declares; the page reconciles exactly when it carries
  a live set, carries withdrawals only as a delta and each with a reason; and its checkpoint is of
  the stream.
\<close>

theorem extract_typed:
  "wp (adapter_extract E A checkpoint)
     (\<lambda>page _. page_well_formed (te_lib E) A (ts_verified s) page) (\<lambda>_ _. True) s"
  using extract_well_formed [of E A checkpoint s] by (auto simp: wp_def split: prod.splits sum.splits)

section \<open>Endpoints given as objects\<close>

text \<open>
  A relationship whose endpoint is an object, which names a record of another stream, is refused
  before the code that reads such an object is reached.
\<close>

lemma object_endpoint_refused:
  assumes "dig_path (JObj edge) (tp_relationship_source_field p) = Inr (JObj endpoint)"
  shows "usable_relationship p edge = Inl (MalformedSource ''relationship has no usable field'')"
    and "usable (JStr stream) \<Longrightarrow> usable (JStr rid) \<Longrightarrow>
      entity_ref_of py (JObj [(''stream'', JStr stream), (''record_id'', JStr rid)]) own label
        = Inr \<lparr>rf_stream = stream, rf_id = rid\<rparr>"
  using assms
  by (simp_all add: usable_relationship_def usable_def is_container_def entity_ref_of_def get_def)

end
