(* ===== verification/Tool_Pass.thy ===== *)
theory Tool_Pass
  imports Tool_Types Memory_Sink
begin

text \<open>
  A sync pass of the runner over the tool adapter: the adapter as the runner's ports, with the
  values of the generated package as the JSON they stand for, and what a pass does to the
  watermark.
\<close>

section \<open>Values as JSON\<close>

definition text_json :: "string option \<Rightarrow> json" where
  "text_json t = (case t of None \<Rightarrow> JNull | Some s \<Rightarrow> JStr s)"

definition json_text :: "json \<Rightarrow> string option" where
  "json_text v = (case v of JStr s \<Rightarrow> Some s | _ \<Rightarrow> None)"

definition checkpoint_json :: "source_checkpoint \<Rightarrow> json" where
  "checkpoint_json c =
     JObj [(''stream'', JStr (sc_stream c)), (''position'', sc_position c),
       (''content_hash'', text_json (sc_hash c)), (''watermark'', text_json (sc_watermark c)),
       (''pending_watermark'', text_json (sc_pending c))]"

definition checkpoint_of_json :: "json \<Rightarrow> source_checkpoint option" where
  "checkpoint_of_json v =
     (case v of
        JObj kvs \<Rightarrow>
          (case get kvs ''stream'' of
             JStr s \<Rightarrow> Some \<lparr>sc_stream = s, sc_position = get kvs ''position'',
               sc_hash = json_text (get kvs ''content_hash''),
               sc_watermark = json_text (get kvs ''watermark''),
               sc_pending = json_text (get kvs ''pending_watermark'')\<rparr>
           | _ \<Rightarrow> None)
      | _ \<Rightarrow> None)"

definition provenance_json :: "tool_provenance \<Rightarrow> json" where
  "provenance_json pv =
     JObj [(''connector'', JStr (pv_connector pv)), (''adapter_kind'', JStr ''mcp_tool''),
       (''server'', JStr (pv_server pv)), (''tool'', JStr (pv_tool pv)),
       (''tool_schema_sha256'', JStr (pv_schema pv)), (''source_uri'', JStr (pv_uri pv))]"

definition record_json :: "source_record \<Rightarrow> json" where
  "record_json r =
     JObj [(''stream'', JStr (sr_stream r)), (''record_id'', JStr (sr_id r)),
       (''mapping_reference'', JStr (sr_mapping r)), (''payload'', JObj (sr_payload r)),
       (''updated_at'', text_json (sr_updated r)),
       (''provenance'', provenance_json (sr_provenance r))]"

definition ref_json :: "source_ref \<Rightarrow> json" where
  "ref_json r = JObj [(''stream'', JStr (rf_stream r)), (''record_id'', JStr (rf_id r))]"

definition relationship_json :: "source_relationship \<Rightarrow> json" where
  "relationship_json e =
     JObj [(''source'', ref_json (se_source e)), (''target'', ref_json (se_target e)),
       (''relation_reference'', JStr (se_reference e)),
       (''properties'', case se_properties e of None \<Rightarrow> JNull | Some d \<Rightarrow> JObj d),
       (''provenance'', provenance_json (se_provenance e))]"

definition withdrawal_json :: "source_withdrawal \<Rightarrow> json" where
  "withdrawal_json w =
     JObj [(''entity'', ref_json (sw_entity w)), (''reason'', JStr (sw_reason w))]"

definition runner_page :: "tool_page \<Rightarrow> record_page" where
  "runner_page g =
     \<lparr>pg_records = map record_json (gp_records g), pg_mode = gp_mode g, pg_strict = gp_strict g,
       pg_checkpoint = checkpoint_json (gp_checkpoint g), pg_exhausted = gp_exhausted g,
       pg_contract = gp_contract g, pg_relationships = map relationship_json (gp_relationships g),
       pg_live_ids = map_option (map ref_json) (gp_live_ids g),
       pg_withdrawals = map withdrawal_json (gp_withdrawals g)\<rparr>"

lemma checkpoint_round_trip [simp]: "checkpoint_of_json (checkpoint_json c) = Some c"
  by (simp add: checkpoint_of_json_def checkpoint_json_def get_def text_json_def json_text_def
      split: option.splits)

section \<open>The adapter as ports of the runner\<close>

fun runner_exc_of :: "tool_exc \<Rightarrow> runner_exc" where
  "runner_exc_of (ToolSchema m) = RunnerForeign (''ToolSchemaContractError: '' @ m)"
| "runner_exc_of (SourceContract m) = RunnerForeign (''SourceContractError: '' @ m)"
| "runner_exc_of (MalformedSource m) = RunnerForeign (''MalformedSourceDataError: '' @ m)"
| "runner_exc_of (FanOutRefused _) = RunnerForeign ''ForEachRefusal''"
| "runner_exc_of (ToolForeign m) = RunnerForeign m"

definition as_runner_port :: "('a \<Rightarrow> 'b) \<Rightarrow> ('w, 'a) tool_prog \<Rightarrow> ('w tool_state, 'b) runner_port" where
  "as_runner_port f m = (\<lambda>s. case m s of (r, t) \<Rightarrow> (map_sum runner_exc_of f r, t))"

definition extract_port ::
  "'w tool_env \<Rightarrow> tool_adapter \<Rightarrow> json option \<Rightarrow> ('w tool_state, record_page) runner_port" where
  "extract_port E A cp =
     (case cp of
        None \<Rightarrow> as_runner_port runner_page (adapter_extract E A None)
      | Some v \<Rightarrow>
          (case checkpoint_of_json v of
             None \<Rightarrow> (\<lambda>s. (Inl (RunnerForeign ''ValidationError''), s))
           | Some c \<Rightarrow> as_runner_port runner_page (adapter_extract E A (Some c))))"

text \<open>The adapter has no page completion callback. The sink and the store are those of \<open>R\<close>.\<close>

definition tool_runner_ports ::
  "'w tool_env \<Rightarrow> tool_adapter \<Rightarrow> 'w tool_state runner_ports \<Rightarrow> 'w tool_state runner_ports" where
  "tool_runner_ports E A R =
     R\<lparr>ad_discover := as_runner_port id (adapter_discover E A),
       ad_extract := extract_port E A, ad_completes := False\<rparr>"

section \<open>What a pass does to the watermark\<close>

definition decoded :: "tool_preset \<Rightarrow> json option \<Rightarrow> source_checkpoint" where
  "decoded p cp = current_checkpoint p (case cp of None \<Rightarrow> None | Some v \<Rightarrow> checkpoint_of_json v)"

definition record_mark :: "json \<Rightarrow> string option" where
  "record_mark v = (case v of JObj kvs \<Rightarrow> json_text (get kvs ''updated_at'') | _ \<Rightarrow> None)"

definition log_marks :: "page_event list \<Rightarrow> string option" where
  "log_marks evs = max_mark (map record_mark (concat (map pg_records (pages_of evs))))"

text \<open>
  The outcome of a pass against its log: one step of the checkpoint that the sink answered, over
  everything the pass extracted.
\<close>

definition pass_moves :: "tool_preset \<Rightarrow> page_event list \<Rightarrow> sync_outcome \<Rightarrow> bool" where
  "pass_moves p evs oc \<longleftrightarrow>
     (\<exists>cp. EvStatus cp \<in> set evs
        \<and> moves p (decoded p cp) (log_marks evs) (decoded p (oc_checkpoint oc)) (oc_exhausted oc))"

lemma record_mark_json [simp]: "record_mark (record_json r) = sr_updated r"
  by (simp add: record_mark_def record_json_def get_def text_json_def json_text_def
      split: option.splits)

lemma log_marks_snoc:
  "log_marks (evs @ [EvExtract cp page]) =
     max (log_marks evs) (max_mark (map record_mark (pg_records page)))"
  by (simp add: log_marks_def max_mark_append)

lemma log_marks_pages: "pages_of evs = pages_of evs' \<Longrightarrow> log_marks evs = log_marks evs'"
  by (simp add: log_marks_def)

text \<open>The moves of the checkpoint the pass is at, with the pages it has extracted.\<close>

definition moved ::
  "tool_preset \<Rightarrow> json option \<Rightarrow> sync_outcome \<Rightarrow> 'w runner_state \<Rightarrow> bool" where
  "moved p cp oc s \<longleftrightarrow>
     EvStatus cp \<in> set (rs_log s)
     \<and> moves p (decoded p cp) (log_marks (rs_log s)) (decoded p (oc_checkpoint oc))
         (oc_exhausted oc)"

lemma extract_port_moves:
  assumes "extract_port E A cp w = (Inr page, w')"
  shows "moves (ta_preset A) (decoded (ta_preset A) cp) (max_mark (map record_mark (pg_records page)))
           (decoded (ta_preset A) (Some (pg_checkpoint page))) (pg_exhausted page)"
proof -
  have shape: "\<exists>g. r = Inr g \<and> page = runner_page g"
    if "map_sum runner_exc_of runner_page r = Inr page" for r :: "tool_exc + tool_page"
    using that by (cases r) auto
  obtain cp' g t where
    "(case cp of None \<Rightarrow> None | Some v \<Rightarrow> checkpoint_of_json v) = cp'" and
    run: "adapter_extract E A cp' w = (Inr g, t)" and page: "page = runner_page g"
    using assms
    by (auto simp: extract_port_def as_runner_port_def split: option.splits prod.splits dest!: shape)
  then have "decoded (ta_preset A) cp = current_checkpoint (ta_preset A) cp'"
    by (simp add: decoded_def)
  with extract_moves [OF run] show ?thesis
    by (simp add: page page_moves_def runner_page_def page_marks_def decoded_def current_checkpoint_def
        comp_def)
qed

text \<open>An accepted page continues from its own checkpoint, and accepting it extracts nothing.\<close>

lemma accept_page_checkpoint:
  "wp (accept_adapter_page P page (accept_page P page t cp))
     (\<lambda>(cp', _) s'. cp' = pg_checkpoint page \<and> pages_of (rs_log s') = pages_of (rs_log s)
        \<and> set (rs_log s) \<subseteq> set (rs_log s')) (\<lambda>_ _. True) s"
proof -
  have "wp (accept_page P page t cp)
      (\<lambda>(cp', _) s'. cp' = pg_checkpoint page \<and> pages_of (rs_log s') = pages_of (rs_log s)
        \<and> set (rs_log s) \<subseteq> set (rs_log s')) (\<lambda>_ _. True) s"
    by (auto simp: accept_page_def commit_page_def Let_def wp_simps refuse_if_def receipt_binds_def
        source_request_def split: prod.splits sum.splits)
  then show ?thesis
    unfolding accept_adapter_page_def wp_bind wp_catch option.case
    by (rule wp_mono) (auto simp: wp_then wp_return wp_raise intro!: wp_finish_page)
qed

lemma sync_pages_moves:
  fixes E :: "'w tool_env"
  assumes "moved (ta_preset A) cp oc s"
  shows "wp (sync_pages n (tool_runner_ports E A R) t oc)
     (\<lambda>oc' s'. moved (ta_preset A) cp oc' s') (\<lambda>_ _. True) s"
  using assms
proof (induction n arbitrary: oc s)
  case (Suc n)
  let ?P = "tool_runner_ports E A R"
  show ?case
  proof (cases "oc_exhausted oc")
    case False
    let ?next = "\<lambda>page (cp', k). oc\<lparr>oc_checkpoint := Some cp', oc_exhausted := pg_exhausted page,
      oc_pages := oc_pages oc + 1, oc_records := oc_records oc + length (pg_records page),
      oc_accepted := oc_accepted oc + k\<rparr>"
    have page: "wp (accept_adapter_page ?P page (accept_page ?P page t (oc_checkpoint oc)))
        (\<lambda>x s'. wp (sync_pages n ?P t (?next page x)) (moved (ta_preset A) cp) (\<lambda>_ _. True) s')
        (\<lambda>_ _. True) (s\<lparr>rs_world := w, rs_log := rs_log s @ [EvExtract (oc_checkpoint oc) page]\<rparr>)"
      if extracted: "extract_port E A (oc_checkpoint oc) (rs_world s) = (Inr page, w)" for page w
    proof (rule wp_mono [OF accept_page_checkpoint])
      let ?s = "s\<lparr>rs_world := w, rs_log := rs_log s @ [EvExtract (oc_checkpoint oc) page]\<rparr>"
      fix x :: "json \<times> nat" and s' :: "'w tool_state runner_state"
      assume "(case x of (cp', _) \<Rightarrow> \<lambda>s'. cp' = pg_checkpoint page
          \<and> pages_of (rs_log s') = pages_of (rs_log ?s) \<and> set (rs_log ?s) \<subseteq> set (rs_log s')) s'"
      then have "moved (ta_preset A) cp (?next page x) s'"
        using Suc.prems False moves_trans [OF _ extract_port_moves [OF extracted]]
          log_marks_pages [of "rs_log s'" "rs_log s @ [EvExtract (oc_checkpoint oc) page]"]
        by (auto simp: moved_def log_marks_snoc)
      then show "wp (sync_pages n ?P t (?next page x)) (moved (ta_preset A) cp) (\<lambda>_ _. True) s'"
        by (rule Suc.IH)
    qed simp
    have port: "ad_extract ?P = extract_port E A" by (simp add: tool_runner_ports_def)
    show ?thesis
    proof (cases "extract_port E A (oc_checkpoint oc) (rs_world s)")
      case (Pair r w)
      with False page show ?thesis
        by (cases r) (auto simp: wp_bind wp_then wp_note_event wp_runner_port port split_beta)
    qed
  qed (use Suc.prems in \<open>simp add: wp_return\<close>)
qed (simp add: wp_return)

lemma read_status_moves:
  fixes E :: "'w tool_env"
  assumes "pages_of (rs_log s) = []"
  shows "wp (bindP (runner_port p) (\<lambda>cp.
      thenP (note_event (EvStatus cp)) (sync_pages n (tool_runner_ports E A R) t
         \<lparr>oc_stream = stream, oc_pages = 0, oc_records = 0, oc_accepted = 0,
          oc_exhausted = False, oc_checkpoint = cp\<rparr>)))
      (\<lambda>oc s'. pass_moves (ta_preset A) (rs_log s') oc) (\<lambda>_ _. True) s"
proof -
  have "wp (sync_pages n (tool_runner_ports E A R) t
         \<lparr>oc_stream = stream, oc_pages = 0, oc_records = 0, oc_accepted = 0,
          oc_exhausted = False, oc_checkpoint = cp\<rparr>)
      (\<lambda>oc s'. pass_moves (ta_preset A) (rs_log s') oc) (\<lambda>_ _. True)
      (s\<lparr>rs_world := w, rs_log := rs_log s @ [EvStatus cp]\<rparr>)" for cp w
  proof (rule wp_mono [OF sync_pages_moves [where cp = cp]])
    show "moved (ta_preset A) cp \<lparr>oc_stream = stream, oc_pages = 0, oc_records = 0,
        oc_accepted = 0, oc_exhausted = False, oc_checkpoint = cp\<rparr>
        (s\<lparr>rs_world := w, rs_log := rs_log s @ [EvStatus cp]\<rparr>)"
      using assms by (simp add: moved_def moves_refl log_marks_def)
  qed (auto simp: moved_def pass_moves_def)
  then show ?thesis
    by (auto simp: wp_bind wp_then wp_note_event intro!: wp_runner_portI)
qed

lemma sync_stream_moves:
  "wp (sync_stream (tool_runner_ports E A R) t)
     (\<lambda>oc s'. pass_moves (ta_preset A) (rs_log s') oc) (\<lambda>_ _. True) (pass_start w)"
  unfolding sync_stream_def resume_stream_def ask_paused_def
  by (auto simp: wp_then wp_bind [of "runner_port (rp_paused _ _ _)"]
      wp_bind [of "runner_port (ad_discover _)"] wp_lift wp_return wp_note_event pass_start_def
      refuse_if_def intro!: wp_runner_portI read_status_moves)


end
