(* ===== verification/Tool_Reconcile.thy ===== *)
theory Tool_Reconcile
  imports Tool_Types
begin

text \<open>
  A reconciliation sweep over a source that serves its records in numbered slices: the pages
  together are the source's records, and the report is the exact difference of the two id sets.
\<close>

section \<open>A source served in slices\<close>

text \<open>Where the slice of a page number starts: the number itself, or the pages before it.\<close>

definition slice_start :: "tool_preset \<Rightarrow> int \<Rightarrow> nat" where
  "slice_start p k =
     (if tp_pagination p = PageOffset then nat k else nat (k - int (tp_start_page p)) * tp_page_size p)"

definition slice_of :: "tool_preset \<Rightarrow> (string, json) dict list \<Rightarrow> nat \<Rightarrow> (string, json) dict list" where
  "slice_of p items start = take (tp_page_size p) (drop start items)"

definition serve_slice ::
  "tool_preset \<Rightarrow> (string, json) dict list \<Rightarrow> (string, json) dict \<Rightarrow> tool_exc + json" where
  "serve_slice p items args =
     (case dig_path (JObj args) (tp_page_param p) of
        Inr (JInt k) \<Rightarrow> Inr (JArr (map JObj (slice_of p items (slice_start p k))))
      | _ \<Rightarrow> Inl (ToolForeign ''no page number''))"

definition slice_env :: "tool_lib \<Rightarrow> json \<Rightarrow> tool_preset \<Rightarrow> (string, json) dict list \<Rightarrow> unit tool_env" where
  "slice_env L tools p items =
     \<lparr>te_lib = L, te_list_tools = (\<lambda>w. (Inr tools, w)),
       te_call_tool = (\<lambda>_ args w. (serve_slice p items args, w)), te_uuid = (\<lambda>w. ([], w))\<rparr>"

text \<open>The presets whose pages are nothing but records of such a source.\<close>

definition plain_numbered :: "tool_preset \<Rightarrow> bool" where
  "plain_numbered p \<longleftrightarrow>
     numbered_mode (tp_pagination p) \<and> 0 < tp_page_size p \<and> tp_params_style p = ArgsParams
     \<and> tp_result_contract p = GenericResult \<and> tp_records_path p = [] \<and> tp_for_each p = None
     \<and> tp_checkpoint_path p = [] \<and> tp_content_hash_path p = [] \<and> tp_relationships_path p = []
     \<and> tp_authoritative_path p = [] \<and> tp_withdrawals_path p = []
     \<and> dig_path (JObj (tp_params p)) (tp_mode_param p) = Inr JNull \<and> well_keyed (tp_params p)
     \<and> (tp_page_size_param p = []
        \<or> hd (py_split CHR ''.'' (tp_page_size_param p)) \<noteq> hd (py_split CHR ''.'' (tp_page_param p)))"

definition readable_item ::
  "tool_lib \<Rightarrow> tool_adapter \<Rightarrow> string \<Rightarrow> (string, json) dict \<Rightarrow> bool" where
  "readable_item L A verified item \<longleftrightarrow>
     \<not> isl (source_record_of L (ta_connector A) (ta_preset A) verified (ta_mapping A) item)"

definition item_id :: "tool_lib \<Rightarrow> tool_adapter \<Rightarrow> (string, json) dict \<Rightarrow> string" where
  "item_id L A item =
     (case dig_path (JObj item) (tp_id_field (ta_preset A)) of Inr v \<Rightarrow> py_str (tl_py L) v | Inl _ \<Rightarrow> [])"

section \<open>The arguments carry the page number\<close>

lemma set_parts_well_keyed: "well_keyed d \<Longrightarrow> well_keyed (set_parts d ps v)"
  by (induction d ps v rule: set_parts.induct) auto

lemma set_path_well_keyed: "well_keyed d \<Longrightarrow> well_keyed (set_path d dotted v)"
  by (simp add: set_path_def set_parts_well_keyed)

lemma dig_path_head:
  "dig_path (JObj d) dotted
     = map_sum (\<lambda>_. ToolForeign ''ValueError'') id
         (path_steps (get d (hd (py_split CHR ''.'' dotted))) (tl (py_split CHR ''.'' dotted)))"
  by (cases "py_split CHR ''.'' dotted") (simp_all add: dig_path_def)

lemma dig_path_update:
  assumes "well_keyed params" "dig_path (JObj params) dotted = Inr v" "v \<noteq> JNull"
  shows "dig_path (JObj (dict_update arguments params)) dotted = Inr v"
proof -
  let ?k = "hd (py_split CHR ''.'' dotted)"
  have "map_of params ?k \<noteq> None"
    using assms(2,3)
    by (auto simp: dig_path_head get_def steps_from_null split: option.splits)
  then have "get (dict_update arguments params) ?k = get params ?k"
    using assms(1) by (auto simp: get_def dict_update_lookup)
  then show ?thesis using assms(2) by (simp add: dig_path_head)
qed

lemma page_params_number:
  assumes "plain_numbered p" "page_value p (position_of position) = Inr k"
  obtains params where
    "page_params p position JNull None = Inr params"
    "dig_path (JObj (tool_arguments py p params)) (tp_page_param p) = Inr (JInt k)"
proof -
  let ?numbered = "set_path (tp_params p) (tp_page_param p) (JInt k)"
  let ?params = "if tp_page_size_param p \<noteq> []
    then set_path ?numbered (tp_page_size_param p) (JInt (int (tp_page_size p))) else ?numbered"
  have params: "page_params p position JNull None = Inr ?params"
    using assms by (auto simp: page_params_def apply_page_position_def plain_numbered_def numbered_mode_def)
  have "dig_path (JObj ?params) (tp_page_param p) = Inr (JInt k)" "well_keyed ?params"
    using assms(1)
    by (auto simp: plain_numbered_def dig_set_path set_path_other set_path_well_keyed)
  then have "dig_path (JObj (tool_arguments py p ?params)) (tp_page_param p) = Inr (JInt k)"
    using assms(1) by (simp add: tool_arguments_def plain_numbered_def dig_path_update)
  with params that show ?thesis by blast
qed

section \<open>One page of the source\<close>

lemma objects_map [simp]: "objects (map JObj xs) = Some xs"
  by (induction xs) auto

lemma mapR_total: "(\<And>x. x \<in> set xs \<Longrightarrow> f x = Inr (g x)) \<Longrightarrow> mapR f xs = Inr (map g xs)"
  by (rule mapR_fixed)

lemma readable_reference:
  assumes "readable_item L A verified item"
    and "starts_with (mapping_prefix (ta_connector A)) (ta_mapping A)"
  shows "record_reference L A (ta_preset A) item = Inr (item_id L A item, ta_mapping A)"
    and "dig_path (JObj item) (tp_id_field (ta_preset A)) = Inr v \<Longrightarrow> item_id L A item = py_str (tl_py L) v"
proof -
  from assms(1) obtain r where
    "source_record_of L (ta_connector A) (ta_preset A) verified (ta_mapping A) item = Inr r"
    by (cases "source_record_of L (ta_connector A) (ta_preset A) verified (ta_mapping A) item")
      (auto simp: readable_item_def)
  then obtain v where "dig_path (JObj item) (tp_id_field (ta_preset A)) = Inr v"
    by (auto simp: source_record_of_def tool_record_id_def result_iff)
  with assms(2) show "record_reference L A (ta_preset A) item = Inr (item_id L A item, ta_mapping A)"
    by (simp add: record_reference_def record_mapping_def item_id_def)
qed (simp add: item_id_def)

lemma dict_update_constant:
  "map_of (dict_update d (map (\<lambda>x. (f x, m)) xs)) k
     = (if k \<in> f ` set xs then Some m else map_of d k)"
  by (induction xs arbitrary: d) auto

lemma readable_records:
  assumes readable: "\<And>item. item \<in> set items \<Longrightarrow> readable_item L A verified item"
    and mapping: "starts_with (mapping_prefix (ta_connector A)) (ta_mapping A)"
  obtains records refs where
    "mapped_records L A (ta_preset A) verified None items = Inr (records, refs)"
    "map sr_id records = map (item_id L A) items"
proof -
  let ?made = "\<lambda>item. projr (source_record_of L (ta_connector A) (ta_preset A) verified (ta_mapping A) item)"
  have refs: "mapR (record_reference L A (ta_preset A)) items
      = Inr (map (\<lambda>item. (item_id L A item, ta_mapping A)) items)"
    using readable_reference(1) [OF readable mapping] by (intro mapR_total) simp
  have made: "source_record_of L (ta_connector A) (ta_preset A) verified (ta_mapping A) item
      = Inr (?made item) \<and> sr_id (?made item) = item_id L A item" if item: "item \<in> set items" for item
  proof -
    from readable [OF item] obtain r where
      r: "source_record_of L (ta_connector A) (ta_preset A) verified (ta_mapping A) item = Inr r"
      by (cases "source_record_of L (ta_connector A) (ta_preset A) verified (ta_mapping A) item")
        (auto simp: readable_item_def)
    then show ?thesis
      by (auto simp: source_record_of_def tool_record_id_def result_iff Let_def item_id_def)
  qed
  have "mapR (taken_record L A (ta_preset A) verified None
        (dict_update [] (map (\<lambda>item. (item_id L A item, ta_mapping A)) items))) items
      = Inr (map (\<lambda>item. [?made item]) items)"
  proof (rule mapR_total)
    fix item assume item: "item \<in> set items"
    with made obtain r where
      r: "source_record_of L (ta_connector A) (ta_preset A) verified (ta_mapping A) item = Inr r" by blast
    then obtain v where v: "dig_path (JObj item) (tp_id_field (ta_preset A)) = Inr v"
      by (auto simp: source_record_of_def tool_record_id_def result_iff)
    then have "py_str (tl_py L) v \<in> item_id L A ` set items"
      using item by (intro rev_image_eqI [OF item]) (simp add: item_id_def)
    with r v show "taken_record L A (ta_preset A) verified None
        (dict_update [] (map (\<lambda>item. (item_id L A item, ta_mapping A)) items)) item = Inr [?made item]"
      by (simp add: taken_record_def is_older_def dict_update_constant)
  qed
  then have "mapped_records L A (ta_preset A) verified None items
      = Inr (map ?made items, dict_update [] (map (\<lambda>item. (item_id L A item, ta_mapping A)) items))"
    by (simp add: mapped_records_def refs concat_map_singleton)
  moreover have "map sr_id (map ?made items) = map (item_id L A) items"
    using made by simp
  ultimately show ?thesis using that by blast
qed

definition page_number :: "tool_preset \<Rightarrow> nat \<Rightarrow> int" where
  "page_number p j =
     (if tp_pagination p = PageOffset then int (j * tp_page_size p) else int (tp_start_page p + j))"

definition at_page :: "tool_preset \<Rightarrow> nat \<Rightarrow> source_checkpoint \<Rightarrow> bool" where
  "at_page p j c \<longleftrightarrow>
     sc_stream c = tp_name p \<and> sc_watermark c = None
     \<and> page_value p (position_of (sc_position c)) = Inr (page_number p j)"

lemma slice_start_number: "slice_start p (page_number p j) = j * tp_page_size p"
  by (auto simp: slice_start_def page_number_def nat_mult_distrib)

lemma at_first_page: "at_page p 0 (first_checkpoint p)"
  by (simp add: at_page_def first_checkpoint_def page_value_def position_number_def position_of_def
      page_number_def)

lemma next_page_slice:
  assumes "plain_numbered p" "page_value p position = Inr (page_number p j)"
  shows "next_page p position result raw
     = Inr (if length raw < tp_page_size p then None
        else Some [(if tp_pagination p = PageOffset then ''offset'' else ''page'',
          JInt (page_number p j + (if tp_pagination p = PageOffset then int (length raw) else 1)))])"
  using assms
  by (auto simp: next_page_def next_numbered_def page_value_def plain_numbered_def numbered_mode_def
      split: if_splits)

lemma page_checkpoint_slice:
  assumes "plain_numbered p" "at_page p j c" "length raw \<le> tp_page_size p"
  obtains c' where
    "page_checkpoint p c records result raw = Inr (c', length raw < tp_page_size p)"
    "length raw < tp_page_size p \<or> at_page p (Suc j) (c'\<lparr>sc_watermark := None\<rparr>)"
proof -
  have "page_checkpoint p c records result raw
     = Inr (checkpoint_after_page c records
         (if length raw < tp_page_size p then None
          else Some (JObj [(if tp_pagination p = PageOffset then ''offset'' else ''page'',
            JInt (page_number p j + (if tp_pagination p = PageOffset then int (length raw) else 1)))]))
         None, length raw < tp_page_size p)"
    using assms(1) next_page_slice [OF assms(1), of "position_of (sc_position c)" j result raw] assms(2)
    by (simp add: page_checkpoint_def at_page_def plain_numbered_def content_hash_of_def dig_if_def)
  then show ?thesis
    using assms(2,3)
    by (intro that) (auto simp: at_page_def checkpoint_after_page_def Let_def page_value_def
        position_number_def position_of_def page_number_def algebra_simps)
qed

lemma draft_slice:
  assumes p: "plain_numbered (ta_preset A)" and c: "at_page (ta_preset A) j c"
    and raw: "length raw \<le> tp_page_size (ta_preset A)"
    and readable: "\<And>item. item \<in> set raw \<Longrightarrow> readable_item L A verified item"
    and mapping: "starts_with (mapping_prefix (ta_connector A)) (ta_mapping A)"
  obtains d where
    "draft_page L A (ta_preset A) verified c checkpoint (JArr (map JObj raw)) = Inr d"
    "map sr_id (dr_records d) = map (item_id L A) raw"
    "dr_exhausted d = (length raw < tp_page_size (ta_preset A))"
    "dr_exhausted d \<or> at_page (ta_preset A) (Suc j) ((dr_checkpoint d)\<lparr>sc_watermark := None\<rparr>)"
proof -
  obtain records refs where records:
    "mapped_records L A (ta_preset A) verified None raw = Inr (records, refs)"
    "map sr_id records = map (item_id L A) raw"
    using readable_records [OF readable mapping] by blast
  obtain c' where c':
    "page_checkpoint (ta_preset A) c records (JArr (map JObj raw)) raw
       = Inr (c', length raw < tp_page_size (ta_preset A))"
    "length raw < tp_page_size (ta_preset A)
       \<or> at_page (ta_preset A) (Suc j) (c'\<lparr>sc_watermark := None\<rparr>)"
    by (rule page_checkpoint_slice [OF p c raw])
  have "raw_records L (ta_preset A) (JArr (map JObj raw)) = Inr raw"
    using p by (simp add: raw_records_def plain_numbered_def dig_if_def)
  moreover have "sc_watermark c = None" using c by (simp add: at_page_def)
  ultimately show ?thesis
    using p records c'
    by (intro that [of "\<lparr>dr_records = records, dr_references = refs, dr_checkpoint = c',
          dr_exhausted = length raw < tp_page_size (ta_preset A), dr_live_ids = None,
          dr_mode = (if checkpoint \<noteq> None \<and> tp_updated_since_param (ta_preset A) \<noteq> []
            then DeltaMode else FullMode), dr_withdrawals = []\<rparr>"])
      (simp_all add: draft_page_def plain_numbered_def authoritative_live_ids_def
        ingestion_mode_of_def source_withdrawals_def)
qed

text \<open>
  \<open>serves\<close>: the adapter reads a slice source whose items it accepts and whose tool it has verified.
\<close>

definition serves ::
  "tool_lib \<Rightarrow> json \<Rightarrow> tool_adapter \<Rightarrow> string \<Rightarrow> (string, json) dict list \<Rightarrow> bool" where
  "serves L tools A verified items \<longleftrightarrow>
     plain_numbered (ta_preset A) \<and> verified \<noteq> []
     \<and> starts_with (mapping_prefix (ta_connector A)) (ta_mapping A)
     \<and> list_all (readable_item L A verified) items
     \<and> \<not> isl (validate_preset_tool_contract (tl_py L) tools (tp_tool (ta_preset A)) [ta_preset A] [])"

lemma extract_slice:
  assumes served: "serves L tools A (ts_verified s) items"
    and c: "at_page (ta_preset A) j (current_checkpoint (ta_preset A) checkpoint)"
  obtains page t where
    "adapter_extract (slice_env L tools (ta_preset A) items) A checkpoint s = (Inr page, t)"
    "ts_verified t = ts_verified s"
    "map sr_id (gp_records page)
       = map (item_id L A) (slice_of (ta_preset A) items (j * tp_page_size (ta_preset A)))"
    "gp_exhausted page = (length items < Suc j * tp_page_size (ta_preset A))"
    "gp_exhausted page
       \<or> at_page (ta_preset A) (Suc j) ((gp_checkpoint page)\<lparr>sc_watermark := None\<rparr>)"
proof -
  let ?p = "ta_preset A" and ?c = "current_checkpoint (ta_preset A) checkpoint"
  let ?raw = "slice_of ?p items (j * tp_page_size ?p)"
  have p: "plain_numbered ?p" and verified: "ts_verified s \<noteq> []"
    using served by (auto simp: serves_def)
  obtain observed where observed:
    "validate_preset_tool_contract (tl_py L) tools (tp_tool ?p) [?p] [] = Inr observed"
    using served
    by (cases "validate_preset_tool_contract (tl_py L) tools (tp_tool ?p) [?p] []")
      (auto simp: serves_def)
  have number: "page_value ?p (position_of (sc_position ?c)) = Inr (page_number ?p j)"
    using c by (simp add: at_page_def)
  obtain params where params:
    "page_params ?p (sc_position ?c) JNull None = Inr params"
    "dig_path (JObj (tool_arguments (tl_py L) ?p params)) (tp_page_param ?p) = Inr (JInt (page_number ?p j))"
    by (rule page_params_number [OF p number])
  have length: "length ?raw \<le> tp_page_size ?p" by (simp add: slice_of_def)
  have readable: "readable_item L A (ts_verified s) item" if "item \<in> set ?raw" for item
    using served that by (auto simp: serves_def slice_of_def list_all_iff dest: in_set_takeD in_set_dropD)
  obtain d where d:
    "draft_page L A ?p (ts_verified s) ?c checkpoint (JArr (map JObj ?raw)) = Inr d"
    "map sr_id (dr_records d) = map (item_id L A) ?raw"
    "dr_exhausted d = (length ?raw < tp_page_size ?p)"
    "dr_exhausted d \<or> at_page ?p (Suc j) ((dr_checkpoint d)\<lparr>sc_watermark := None\<rparr>)"
    by (rule draft_slice [OF p c length readable]) (use served in \<open>auto simp: serves_def\<close>)
  have since: "since_value ?p ?c = JNull"
    using p c by (simp add: since_value_def plain_numbered_def at_page_def)
  have answer: "serve_slice ?p items (tool_arguments (tl_py L) ?p params) = Inr (JArr (map JObj ?raw))"
    by (simp add: serve_slice_def params slice_start_number)
  have unplaced: "place_snapshot E ?p d = returnP (dr_checkpoint d)" for E :: "unit tool_env"
    using p by (auto simp: place_snapshot_def is_snapshot_def plain_numbered_def numbered_mode_def)
  let ?t = "s\<lparr>ts_log := ts_log s @ [ToolCalled (tp_tool ?p) (tool_arguments (tl_py L) ?p params), ToolsListed]\<rparr>"
  have "adapter_extract (slice_env L tools ?p items) A checkpoint s
      = (Inr (page_of_draft ?p d (dr_checkpoint d) [] (lc_contract observed)), ?t)"
    using p verified c d(1)
    by (simp add: adapter_extract_def extract_plain_def Let_def prog_defs tool_port_def note_tool_def
        call_tool_def list_tools_def slice_env_def params since answer observed plain_numbered_def
        at_page_def validate_platform_binding_def unplaced
        raw_relationships_def mapped_relationships_def)
  moreover have "(length ?raw < tp_page_size ?p) = (length items < Suc j * tp_page_size ?p)"
    using p by (auto simp: slice_of_def plain_numbered_def)
  ultimately show ?thesis
    using d by (intro that [of "page_of_draft ?p d (dr_checkpoint d) [] (lc_contract observed)" ?t])
      (simp_all add: page_of_draft_def)
qed

section \<open>The whole sweep\<close>

lemma drop_slice:
  "drop (j * tp_page_size p) items
     = slice_of p items (j * tp_page_size p) @ drop (Suc j * tp_page_size p) items"
  by (simp add: slice_of_def add.commute flip: drop_drop)

lemma reconcile_pages_slices:
  assumes "serves L tools A (ts_verified s) items"
    and "at_page (ta_preset A) j (current_checkpoint (ta_preset A) checkpoint)"
    and "j * tp_page_size (ta_preset A) \<le> length items"
  shows "fst (reconcile_pages n (slice_env L tools (ta_preset A) items) A known seen checkpoint s)
     = (if length items < (j + n) * tp_page_size (ta_preset A)
        then Inr (reconciliation_of (tp_name (ta_preset A)) known
          (seen @ map (item_id L A) (drop (j * tp_page_size (ta_preset A)) items)))
        else Inl (SourceContract ''reconciliation sweep exceeded max_pages''))"
  using assms
proof (induction n arbitrary: j checkpoint seen s)
  case 0
  then show ?case by (simp add: raiseP_def)
next
  case (Suc n)
  let ?p = "ta_preset A" and ?E = "slice_env L tools (ta_preset A) items"
  obtain page t where page: "adapter_extract ?E A checkpoint s = (Inr page, t)"
    "ts_verified t = ts_verified s"
    "map sr_id (gp_records page) = map (item_id L A) (slice_of ?p items (j * tp_page_size ?p))"
    "gp_exhausted page = (length items < Suc j * tp_page_size ?p)"
    "gp_exhausted page \<or> at_page ?p (Suc j) ((gp_checkpoint page)\<lparr>sc_watermark := None\<rparr>)"
    by (rule extract_slice [OF Suc.prems(1,2)])
  show ?case
  proof (cases "gp_exhausted page")
    case True
    then have "drop (Suc j * tp_page_size ?p) items = []"
      and "length items < (j + Suc n) * tp_page_size ?p"
      using page(4) by (auto simp: algebra_simps)
    with True page show ?thesis
      by (simp add: bindP_def returnP_def drop_slice [of j])
  next
    case False
    with page have "at_page ?p (Suc j)
        (current_checkpoint ?p (Some ((gp_checkpoint page)\<lparr>sc_watermark := None\<rparr>)))"
      "Suc j * tp_page_size ?p \<le> length items"
      by (simp_all add: current_checkpoint_def)
    from Suc.IH [of t, OF _ this] False page Suc.prems(1) show ?thesis
      by (simp add: bindP_def drop_slice [of j])
  qed
qed

text \<open>
  Property C20. Over a source that serves its records in numbered slices, by offset or by page, a
  reconciliation reports exactly the known identities the source no longer has and the ones the
  sink does not know, each sorted and once, as long as the source has fewer records than
  \<open>max_pages\<close> pages hold; otherwise it raises and reports nothing.
\<close>

theorem reconcile_exact:
  assumes "serves L tools A (ts_verified s) items"
  shows "fst (adapter_reconcile (slice_env L tools (ta_preset A) items) A known s)
     = (if length items < tp_max_pages (ta_preset A) * tp_page_size (ta_preset A)
        then Inr \<lparr>rn_stream = tp_name (ta_preset A),
          rn_missing = sorted_list_of_set (set known - item_id L A ` set items),
          rn_unknown = sorted_list_of_set (item_id L A ` set items - set known)\<rparr>
        else Inl (SourceContract ''reconciliation sweep exceeded max_pages''))"
proof -
  have sorted: "sort (remdups (filter (\<lambda>k. k \<notin> Y) xs)) = sorted_list_of_set (set xs - Y)"
    for xs :: "string list" and Y
    by (simp add: sorted_list_of_set_sort_remdups [symmetric] set_diff_eq)
  have "current_checkpoint (ta_preset A) None = first_checkpoint (ta_preset A)"
    by (simp add: current_checkpoint_def)
  with reconcile_pages_slices [OF assms, of 0 None "tp_max_pages (ta_preset A)" known "[]"]
  show ?thesis
    by (simp add: adapter_reconcile_def at_first_page reconciliation_of_def sorted)
qed

section \<open>Three issues in pages of two\<close>

definition demo_lib :: tool_lib where
  "demo_lib =
     \<lparr>tl_py = \<lparr>py_sha256 = (\<lambda>_. ''digest''), py_float_repr = (\<lambda>_. ''0.0''),
         py_container_text = (\<lambda>_. [])\<rparr>,
       tl_platform = (\<lambda>_. None), tl_enterprise = (\<lambda>_. None),
       tl_platform_binds = (\<lambda>_ _. False), tl_enterprise_binds = (\<lambda>_ _ _. False),
       tl_mode = (\<lambda>_. None), tl_accepts = (\<lambda>_. True)\<rparr>"

definition demo_tool :: "string \<Rightarrow> json" where
  "demo_tool name =
     JObj [(''name'', JStr name), (''inputSchema'', JObj [(''type'', JStr ''object'')])]"

definition offset_preset :: tool_preset where
  "offset_preset = (default_preset ''issues'' ''tracker'' ''issues'')\<lparr>
     tp_params_style := ArgsParams, tp_pagination := PageOffset, tp_page_param := ''page.offset'',
     tp_page_size_param := ''limit'', tp_page_size := 2, tp_max_pages := 2,
     tp_content_hash_path := []\<rparr>"

definition offset_adapter :: tool_adapter where
  "offset_adapter =
     \<lparr>ta_preset = offset_preset, ta_connector = ''tracker'', ta_pinned = [],
       ta_mapping = ''connector:tracker#mappings/issue'', ta_schema_mappings = [],
       ta_resources = [], ta_parents = [], ta_max_fan_out = 200\<rparr>"

definition started :: "'w \<Rightarrow> 'w tool_state" where
  "started w = \<lparr>ts_world = w, ts_log = [], ts_verified = ''digest'', ts_fan = None\<rparr>"

definition three_issues :: "(string, json) dict list" where
  "three_issues = [[(''id'', JInt 7)], [(''id'', JStr ''8'')], [(''id'', JInt 9)]]"

definition issue_tools :: json where
  "issue_tools = JArr [demo_tool ''issues'']"

lemma three_issues_served: "serves demo_lib issue_tools offset_adapter (ts_verified (started ())) three_issues"
  by code_simp

lemma three_issues_ids:
  "item_id demo_lib offset_adapter ` set three_issues = {''7'', ''8'', ''9''}"
  by code_simp

theorem reconcile_exact_witness:
  "fst (adapter_reconcile (slice_env demo_lib issue_tools offset_preset three_issues) offset_adapter
      [''9'', ''6''] (started ()))
   = Inr \<lparr>rn_stream = ''issues'', rn_missing = [''6''], rn_unknown = [''7'', ''8'']\<rparr>"
proof -
  have "tp_max_pages offset_preset * tp_page_size offset_preset = 4" "length three_issues = 3"
    "tp_name offset_preset = ''issues''" "ta_preset offset_adapter = offset_preset"
    by (simp_all add: offset_preset_def offset_adapter_def three_issues_def default_preset_def)
  moreover have "sorted_list_of_set ({''9'', ''6''} - {''7'', ''8'', ''9''}) = [''6'' :: string]"
    "sorted_list_of_set ({''7'', ''8'', ''9''} - {''9'', ''6''}) = [''7'', ''8'' :: string]"
    by code_simp+
  ultimately show ?thesis
    using reconcile_exact [OF three_issues_served, of "[''9'', ''6'']"]
    by (simp add: three_issues_ids)
qed

end
