(* ===== verification/Tool_Fan.thy ===== *)
theory Tool_Fan
  imports Tool_Reconcile
begin

text \<open>
  A fan-out over the parents of a running source, and what a restart does to it.
\<close>

section \<open>The bounds of the chain of parents\<close>

text \<open>The check of the parents always answers.\<close>

lemma walk_from_child_total:
  assumes "distinct chain" "set (tl chain) \<subseteq> dom (map_of parents)" "chain \<noteq> []"
    and "Suc (length parents) < n + length chain"
  shows "walk_parents n parents chain link \<noteq> None"
  using assms
proof (induction n parents chain link rule: walk_parents.induct)
  case (2 parents chain link)
  have "card (set (tl chain)) \<le> card (dom (map_of parents))"
    by (intro card_mono 2(2)) (simp add: finite_dom_map_of)
  also have "\<dots> \<le> length parents"
    by (metis card_length dom_map_of_conv_image_fst length_map set_map)
  finally show ?case using 2 by (simp add: distinct_card distinct_tl)
next
  case (3 n parents chain link)
  then show ?case by (auto split: option.splits)
qed simp

lemma check_parents_total: "check_parents p parents \<noteq> None"
  unfolding check_parents_def
  by (rule walk_from_child_total) (simp_all add: fan_links_def)

text \<open>
  Once the check has passed, the depth that \<open>fan_out_values\<close> allows is never used up: any more
  gives the same values.
\<close>

lemma fan_links_lookup:
  "map_of (fan_links parents) k = map_option tp_for_each (map_of parents k)"
  by (induction parents) (auto simp: fan_links_def)

lemma fan_parent_values_depth:
  assumes "walk_parents m (fan_links parents) chain (tp_for_each p) = Some (Inr ())"
    and "m < n" "m < n'"
  shows "fan_parent_values n E parents limit p = fan_parent_values n' E parents limit p"
  using assms
proof (induction m arbitrary: chain p n n')
  case 0
  then have "tp_for_each p = None" by (cases "tp_for_each p") simp_all
  with 0 show ?case by (cases n; cases n') simp_all
next
  case (Suc m)
  then obtain k k' where n: "n = Suc k" "n' = Suc k'" "m < k" "m < k'"
    by (metis Suc_less_eq2)
  show ?case
  proof (cases "tp_for_each p")
    case None
    then show ?thesis by (simp add: n)
  next
    case (Some link)
    with Suc.prems(1) obtain parent where parent: "map_of parents (fe_source link) = Some parent"
      "walk_parents m (fan_links parents) (chain @ [fe_source link]) (tp_for_each parent) = Some (Inr ())"
      by (auto simp: fan_links_lookup split: option.splits if_splits)
    show ?thesis
      unfolding n(1,2) fan_parent_values.simps Some option.case parent(1)
        Suc.IH [OF parent(2) n(3,4)] by (rule refl)
  qed
qed

lemma fan_out_depth:
  assumes "parents_checked p parents = Inr ()" "length parents + 2 \<le> n"
  shows "fan_parent_values n E parents limit p
     = fan_parent_values (length parents + 2) E parents limit p"
proof -
  have "walk_parents (Suc (length parents)) (fan_links parents) [tp_name p] (tp_for_each p) = Some (Inr ())"
    using assms(1) by (auto simp: parents_checked_def check_parents_def split: option.splits sum.splits)
  then show ?thesis by (rule fan_parent_values_depth) (use assms(2) in simp_all)
qed

section \<open>A project source\<close>

text \<open>
  Two tools: one lists the projects, which are the world, and one the issues of a project, one
  issue per project.
\<close>

definition named_object :: "string \<Rightarrow> json" where
  "named_object v = JObj [(''id'', JStr v)]"

definition project_env :: "string list tool_env" where
  "project_env =
     \<lparr>te_lib = demo_lib,
       te_list_tools = (\<lambda>w. (Inr (JArr [demo_tool ''projects'', demo_tool ''issues'']), w)),
       te_call_tool = (\<lambda>name args w.
         if name = ''projects'' then (Inr (JArr (map named_object w)), w)
         else (Inr (JArr [named_object (case get args ''project'' of JStr v \<Rightarrow> v | _ \<Rightarrow> [])]), w)),
       te_uuid = (\<lambda>w. (''uuid'', w))\<rparr>"

definition project_preset :: tool_preset where
  "project_preset = (default_preset ''projects'' ''tracker'' ''projects'')\<lparr>tp_params_style := ArgsParams\<rparr>"

definition issue_preset :: tool_preset where
  "issue_preset = (default_preset ''issues'' ''tracker'' ''issues'')\<lparr>
     tp_params_style := ArgsParams, tp_updated_since_param := ''since'',
     tp_for_each := Some \<lparr>fe_source = ''projects'', fe_argument = ''project'', fe_field = ''id''\<rparr>\<rparr>"

definition issue_adapter :: tool_adapter where
  "issue_adapter =
     \<lparr>ta_preset = issue_preset, ta_connector = ''tracker'', ta_pinned = [],
       ta_mapping = ''connector:tracker#mappings/issue'', ta_schema_mappings = [],
       ta_resources = [], ta_parents = [(''projects'', project_preset)], ta_max_fan_out = 200\<rparr>"

definition page_view :: "(tool_exc + tool_page) \<Rightarrow> (string list \<times> bool \<times> json \<times> string option) option" where
  "page_view r =
     (case r of
        Inl _ \<Rightarrow> None
      | Inr p \<Rightarrow> Some (map sr_id (gp_records p), gp_exhausted p, sc_position (gp_checkpoint p),
          sc_watermark (gp_checkpoint p)))"

definition first_issue_page :: "(tool_exc + tool_page) \<times> string list tool_state" where
  "first_issue_page = adapter_extract project_env issue_adapter None (started [''a'', ''b'', ''c''])"

definition issue_checkpoint :: source_checkpoint where
  "issue_checkpoint =
     \<lparr>sc_stream = ''issues'', sc_position = JObj [(''__fan'', JInt 1)], sc_hash = None,
       sc_watermark = None, sc_pending = None\<rparr>"

lemma first_issue_page_checkpoint:
  "map_sum id gp_checkpoint (fst first_issue_page) = Inr issue_checkpoint"
  by code_simp

lemma restarted_page_view:
  "page_view (fst (adapter_extract project_env issue_adapter (Some issue_checkpoint)
        (started [''b'', ''c'']))) = Some ([''c''], True, JObj [], None)"
  by code_simp

text \<open>
  A checkpoint names a parent by its place in the list of parents, and a restarted process reads the
  list again: when the first of three parents is gone by then, the sweep goes on with the third,
  never reads the second, and ends as a complete one. The process that kept its list reads the
  second.
\<close>

theorem fan_resume_skips_parent:
  "map_sum id gp_checkpoint (fst first_issue_page) = Inr issue_checkpoint
   \<and> page_view (fst (adapter_extract project_env issue_adapter (Some issue_checkpoint)
        ((snd first_issue_page)\<lparr>ts_world := [''b'', ''c'']\<rparr>)))
      = Some ([''b''], False, JObj [(''__fan'', JInt 2)], None)
   \<and> page_view (fst (adapter_extract project_env issue_adapter (Some issue_checkpoint)
        (started [''b'', ''c'']))) = Some ([''c''], True, JObj [], None)"
  using first_issue_page_checkpoint restarted_page_view by (intro conjI) (assumption, code_simp)

end
