(* ===== verification/Http_Url.thy ===== *)
theory Http_Url
  imports Json_Value
begin

text \<open>
  Names and URLs of the governed HTTP client: credential-bearing names and their redaction
  (\<^verbatim>\<open>http/redaction.py\<close>), origins (\<^verbatim>\<open>http/pagination.py\<close>,
  \<^verbatim>\<open>httpsupport/pagination_walk.py\<close>) and the problems an error carries
  (\<^verbatim>\<open>http/problems.py\<close>). The splitting, joining and encoding of URLs are the library's
  \<^theory_text>\<open>urllib.parse\<close>, a parameter of the definitions.
\<close>

section \<open>Split URLs\<close>

text \<open>The port of a split URL is read lazily: reading a malformed one raises.\<close>

datatype url_port = NoPort | PortNumber nat | BadPort

record url_parts =
  up_scheme :: string
  up_netloc :: string
  up_username :: "string option"
  up_password :: "string option"
  up_hostname :: "string option"
  up_port :: url_port
  up_path :: string
  up_query :: string

text \<open>A request's own URL, as the HTTP library holds it: lower-case scheme and host, and the rest.\<close>

record http_url =
  hu_scheme :: string
  hu_host :: string
  hu_port :: "nat option"
  hu_rest :: string

text \<open>\<open>None\<close> is the \<^theory_text>\<open>ValueError\<close> of \<^theory_text>\<open>urlsplit\<close> and \<^theory_text>\<open>urljoin\<close>.\<close>

record url_lib =
  ul_text :: "http_url \<Rightarrow> string"
  ul_netloc :: "http_url \<Rightarrow> string"
  ul_split :: "string \<Rightarrow> url_parts option"
  ul_join :: "string \<Rightarrow> string \<Rightarrow> string option"
  ul_unsplit :: "string \<Rightarrow> string \<Rightarrow> string \<Rightarrow> string \<Rightarrow> string"
  ul_parse_query :: "string \<Rightarrow> (string \<times> string) list"
  ul_encode_query :: "(string \<times> string) list \<Rightarrow> string"

definition or_empty :: "string option \<Rightarrow> string" where
  "or_empty v = (case v of None \<Rightarrow> [] | Some s \<Rightarrow> s)"

section \<open>Sensitive names\<close>

definition sensitive_headers :: "string list" where
  "sensitive_headers = [''authorization'', ''proxy-authorization'', ''cookie'', ''set-cookie'']"

definition sensitive_words :: "string list" where
  "sensitive_words =
     [''token'', ''secret'', ''passw'', ''apikey'', ''api-key'', ''api_key'', ''auth'', ''signature'',
      ''credential'', ''session'']"

definition is_sensitive_name :: "string \<Rightarrow> bool" where
  "is_sensitive_name name =
     (let low = map lower_char (py_strip name) in
      low \<in> set sensitive_headers \<or> list_ex (\<lambda>w. occurs_in w low) sensitive_words
      \<or> ends_text ''sig'' low \<or> low = ''code'' \<or> low = ''key'')"

definition redacted :: string where
  "redacted = ''REDACTED''"

definition redact_headers :: "(string \<times> string) list \<Rightarrow> (string, string) dict" where
  "redact_headers hs =
     dict_update [] (map (\<lambda>(name, v). (name, if is_sensitive_name name then redacted else v)) hs)"

definition bracketed :: "string \<Rightarrow> string" where
  "bracketed host = (if CHR '':'' \<in> set host then ''['' @ host @ '']'' else host)"

definition with_port :: "string \<Rightarrow> nat \<Rightarrow> string" where
  "with_port host p = host @ '':'' @ show_nat p"

text \<open>\<open>None\<close> is the \<^theory_text>\<open>ValueError\<close> of a URL that cannot be split or of its port.\<close>

definition redact_url :: "url_lib \<Rightarrow> string \<Rightarrow> string option" where
  "redact_url U url =
     (case ul_split U url of
        None \<Rightarrow> None
      | Some p \<Rightarrow>
          (let host = bracketed (or_empty (up_hostname p));
               query = ul_encode_query U
                 (map (\<lambda>(name, v). (name, if is_sensitive_name name then redacted else v))
                   (ul_parse_query U (up_query p)))
           in case up_port p of
                BadPort \<Rightarrow> None
              | NoPort \<Rightarrow> Some (ul_unsplit U (up_scheme p) host (up_path p) query)
              | PortNumber n \<Rightarrow> Some (ul_unsplit U (up_scheme p) (with_port host n) (up_path p) query)))"

definition invalid_url :: string where
  "invalid_url = ''<invalid-url>''"

definition redact_origin :: "url_lib \<Rightarrow> string \<Rightarrow> string" where
  "redact_origin U url =
     (case ul_split U url of
        None \<Rightarrow> invalid_url
      | Some p \<Rightarrow>
          (let host = or_empty (up_hostname p) in
           if up_scheme p \<notin> {''http'', ''https''} \<or> host = [] then invalid_url
           else case up_port p of
                  BadPort \<Rightarrow> invalid_url
                | NoPort \<Rightarrow> ul_unsplit U (up_scheme p) (bracketed host) [] []
                | PortNumber n \<Rightarrow> ul_unsplit U (up_scheme p) (with_port (bracketed host) n) [] []))"

text \<open>A header or parameter of a sensitive name never keeps its value.\<close>

lemma redacted_lookup:
  assumes "is_sensitive_name name" "map_of d name \<in> {None, Some redacted}"
  shows "map_of (dict_update d (map (\<lambda>(n, v). (n, if is_sensitive_name n then redacted else v)) hs)) name
    \<in> {None, Some redacted}"
  using assms(2)
proof (induction hs arbitrary: d)
  case (Cons h hs)
  obtain n v where h: "h = (n, v)" by (cases h)
  have "map_of (dict_set n (if is_sensitive_name n then redacted else v) d) name \<in> {None, Some redacted}"
    using Cons.prems assms(1) by auto
  then show ?case using Cons.IH by (simp add: h)
qed simp

lemma redact_headers_hides:
  assumes "map_of (redact_headers hs) name = Some v" "is_sensitive_name name"
  shows "v = redacted"
  using redacted_lookup [OF assms(2), of "[]" hs] assms(1) by (simp add: redact_headers_def)

section \<open>Origins\<close>

type_synonym origin = "string \<times> string \<times> nat option"

definition default_port :: "string \<Rightarrow> nat option" where
  "default_port scheme = map_of [(''http'', 80), (''https'', 443)] scheme"

text \<open>
  \<^verbatim>\<open>http/pagination.py\<close>'s \<open>_origin\<close>: a port of zero is falsy and reads as the default one.
\<close>

definition origin_of :: "url_lib \<Rightarrow> string \<Rightarrow> origin option" where
  "origin_of U url =
     (case ul_split U url of
        None \<Rightarrow> None
      | Some p \<Rightarrow>
          (let scheme = map lower_char (up_scheme p);
               host = map lower_char (or_empty (up_hostname p))
           in case up_port p of
                BadPort \<Rightarrow> None
              | NoPort \<Rightarrow> Some (scheme, host, default_port scheme)
              | PortNumber n \<Rightarrow> Some (scheme, host, if n = 0 then default_port scheme else Some n)))"

text \<open>
  \<open>_safe_origin\<close>: an absolute URL over HTTP or HTTPS, without user information, whose port can
  be read. \<open>None\<close> is \<open>PaginationOriginError\<close>, which never carries the URL.
\<close>

definition safe_origin :: "url_lib \<Rightarrow> string \<Rightarrow> origin option" where
  "safe_origin U url =
     (case ul_split U url of
        None \<Rightarrow> None
      | Some p \<Rightarrow>
          (let refused = up_scheme p \<notin> {''http'', ''https''} \<or> or_empty (up_hostname p) = []
             \<or> up_username p \<noteq> None \<or> up_password p \<noteq> None;
               host = map lower_char (or_empty (up_hostname p));
               default = (if up_scheme p = ''https'' then 443 else 80)
           in case up_port p of
                BadPort \<Rightarrow> None
              | NoPort \<Rightarrow> if refused then None else Some (up_scheme p, host, Some default)
              | PortNumber n \<Rightarrow> if refused then None else Some (up_scheme p, host, Some n)))"

text \<open>A safe origin is of a URL that carries no credentials.\<close>

lemma safe_origin_plain:
  assumes "safe_origin U url = Some (scheme, host, port)"
  obtains p where "ul_split U url = Some p" "up_scheme p = scheme" "scheme \<in> {''http'', ''https''}"
    "up_username p = None" "up_password p = None" "port \<noteq> None"
  using assms by (auto simp: safe_origin_def Let_def split: option.splits url_port.splits if_splits)

section \<open>Problems\<close>

text \<open>
  \<^verbatim>\<open>ProblemDetails\<close>: the members of an RFC 9457 problem with its extension members. The
  model's validator bounds the texts; a problem outside the bounds cannot be built.
\<close>

record problem =
  pb_type :: string
  pb_title :: "string option"
  pb_status :: "int option"
  pb_detail :: "string option"
  pb_instance :: "string option"
  pb_extensions :: "(string, json) dict"

definition max_text :: nat where
  "max_text = 2048"

definition text_ok :: "string option \<Rightarrow> bool" where
  "text_ok v = (case v of None \<Rightarrow> True | Some s \<Rightarrow> length s \<le> max_text)"

definition problem_ok :: "problem \<Rightarrow> bool" where
  "problem_ok p \<longleftrightarrow>
     pb_type p \<noteq> [] \<and> length (pb_type p) \<le> max_text \<and> text_ok (pb_title p) \<and> text_ok (pb_detail p)
     \<and> text_ok (pb_instance p)
     \<and> (case pb_status p of None \<Rightarrow> True | Some s \<Rightarrow> 100 \<le> s \<and> s \<le> 599)"

definition clip :: "string option \<Rightarrow> string option" where
  "clip v = map_option (take max_text) v"

definition blank_problem :: problem where
  "blank_problem =
     \<lparr>pb_type = ''about:blank'', pb_title = None, pb_status = None, pb_detail = None,
      pb_instance = None, pb_extensions = []\<rparr>"

text \<open>The reason phrase of a status is \<^theory_text>\<open>http.HTTPStatus\<close>'s, a parameter.\<close>

definition problem_for_status :: "(int \<Rightarrow> string option) \<Rightarrow> int \<Rightarrow> (string, json) dict \<Rightarrow> problem option" where
  "problem_for_status phrase status ext =
     (let p = blank_problem\<lparr>
        pb_title := Some (case phrase status of None \<Rightarrow> ''HTTP error'' | Some t \<Rightarrow> t),
        pb_status := Some status, pb_extensions := ext\<rparr>
      in if problem_ok p then Some p else None)"

definition sdk_prefix :: string where
  "sdk_prefix = ''urn:agent-connector-sdk:problem:''"

definition sdk_problem :: "string \<Rightarrow> string \<Rightarrow> string option \<Rightarrow> (string, json) dict \<Rightarrow> problem" where
  "sdk_problem kind title detail ext =
     blank_problem\<lparr>pb_type := sdk_prefix @ kind, pb_title := Some title, pb_detail := clip detail,
       pb_extensions := ext\<rparr>"

definition problem_json :: "problem \<Rightarrow> (string, json) dict" where
  "problem_json p =
     dict_update (pb_extensions p)
       ([(''type'', JStr (pb_type p))]
        @ (case pb_title p of None \<Rightarrow> [] | Some t \<Rightarrow> [(''title'', JStr t)])
        @ (case pb_status p of None \<Rightarrow> [] | Some s \<Rightarrow> [(''status'', JInt s)])
        @ (case pb_detail p of None \<Rightarrow> [] | Some t \<Rightarrow> [(''detail'', JStr t)])
        @ (case pb_instance p of None \<Rightarrow> [] | Some t \<Rightarrow> [(''instance'', JStr t)]))"

lemma sdk_problem_ok:
  "length kind \<le> 1000 \<Longrightarrow> length title \<le> max_text \<Longrightarrow> problem_ok (sdk_problem kind title detail ext)"
  by (cases detail)
    (auto simp: problem_ok_def sdk_problem_def blank_problem_def text_ok_def clip_def max_text_def
      sdk_prefix_def)

text \<open>
  \<open>_from_document\<close> and \<open>problem_from_response\<close>: the members of a problem document, its texts
  clipped, under the response's own status. A member of another type than the model's fails its
  validation. The body is what \<^theory_text>\<open>json.loads\<close> made of it, \<open>None\<close> when it raised.
\<close>

definition problem_members :: "string list" where
  "problem_members = [''type'', ''title'', ''detail'', ''instance'']"

definition max_extensions :: nat where
  "max_extensions = 32"

fun optional_text :: "json option \<Rightarrow> string option option" where
  "optional_text None = Some None"
| "optional_text (Some JNull) = Some None"
| "optional_text (Some (JStr s)) = Some (Some s)"
| "optional_text (Some _) = None"

definition problem_from_document :: "(string, json) dict \<Rightarrow> int \<Rightarrow> problem option" where
  "problem_from_document d status =
     (let ext = filter (\<lambda>(k, v). k \<notin> set problem_members \<and> k \<noteq> ''status'') d in
      if max_extensions < length ext then None
      else case (case map_of d ''type'' of None \<Rightarrow> Some ''about:blank'' | Some (JStr s) \<Rightarrow> Some s | _ \<Rightarrow> None,
                 optional_text (map_of d ''title''), optional_text (map_of d ''detail''),
                 optional_text (map_of d ''instance'')) of
             (Some ty, Some title, Some detail, Some inst) \<Rightarrow>
               (let p = \<lparr>pb_type = ty, pb_title = clip title, pb_status = Some status,
                         pb_detail = clip detail, pb_instance = inst, pb_extensions = ext\<rparr>
                in if problem_ok p then Some p else None)
           | _ \<Rightarrow> None)"

definition media_type :: "string \<Rightarrow> string" where
  "media_type ct = py_strip (takeWhile (\<lambda>c. c \<noteq> CHR '';'') ct)"

definition problem_json_type :: string where
  "problem_json_type = ''application/problem+json''"

definition problem_from_response ::
  "(int \<Rightarrow> string option) \<Rightarrow> int \<Rightarrow> string \<Rightarrow> json option \<Rightarrow> problem option" where
  "problem_from_response phrase status content_type body =
     (let malformed = problem_for_status phrase status [(''malformed_problem'', JBool True)] in
      case problem_for_status phrase status [] of
        None \<Rightarrow> None
      | Some fallback \<Rightarrow>
          (if map lower_char (media_type content_type) \<noteq> problem_json_type then Some fallback
           else case body of
                  Some (JObj d) \<Rightarrow>
                    (case problem_from_document d status of None \<Rightarrow> malformed | Some p \<Rightarrow> Some p)
                | _ \<Rightarrow> malformed))"

text \<open>
  A body that is not a problem document is never copied into a problem, and the status of a
  problem is always the response's own.
\<close>

lemma problem_for_status_facts:
  "problem_for_status phrase status ext = Some p \<Longrightarrow>
     pb_status p = Some status \<and> problem_ok p \<and> pb_detail p = None \<and> pb_extensions p = ext"
  by (auto simp: problem_for_status_def Let_def blank_problem_def split: if_splits)

lemma problem_from_document_facts:
  "problem_from_document d status = Some p \<Longrightarrow> pb_status p = Some status \<and> problem_ok p"
  unfolding problem_from_document_def Let_def
  by (auto split: if_splits option.split_asm prod.split_asm)

lemma problem_from_response_status:
  assumes "problem_from_response phrase status ct body = Some p"
  shows "pb_status p = Some status \<and> problem_ok p"
proof -
  consider ext where "problem_for_status phrase status ext = Some p"
    | d where "problem_from_document d status = Some p"
    using assms unfolding problem_from_response_def Let_def
    by (auto split: option.split_asm json.split_asm if_split_asm)
  then show ?thesis
    by cases (blast dest: problem_for_status_facts problem_from_document_facts)+
qed

lemma vendor_body_not_copied:
  assumes "problem_from_response phrase status ct body = Some p"
    and "map lower_char (media_type ct) \<noteq> problem_json_type"
  shows "pb_detail p = None \<and> pb_extensions p = []"
proof -
  have "problem_for_status phrase status [] = Some p"
    using assms by (simp add: problem_from_response_def Let_def split: option.split_asm)
  then show ?thesis by (auto dest: problem_for_status_facts)
qed

end
