(* ===== verification/Http_Retry.thy ===== *)
theory Http_Retry
  imports Backoff Http_Url
begin

text \<open>
  Retries of the governed HTTP client: the policy and its delays (\<^verbatim>\<open>http/retry.py\<close>,
  \<^verbatim>\<open>http/retry_values.py\<close>), the error a failure becomes (\<^verbatim>\<open>http/errors.py\<close>), the attempt
  generator (\<^verbatim>\<open>http/flow.py\<close>) and the two transports that drive it
  (\<^verbatim>\<open>http/transport.py\<close>).

  Durations are exact rationals. The clock, the random source and the parser of HTTP dates are
  parameters; the transport that sends is a parameter too, over a world of its own.
\<close>

section \<open>Failures of a transport\<close>

datatype transport_class =
    ConnectError | ConnectTimeout | PoolTimeout | ReadTimeout | WriteTimeout
  | OtherTransport string

fun class_name :: "transport_class \<Rightarrow> string" where
  "class_name ConnectError = ''ConnectError''"
| "class_name ConnectTimeout = ''ConnectTimeout''"
| "class_name PoolTimeout = ''PoolTimeout''"
| "class_name ReadTimeout = ''ReadTimeout''"
| "class_name WriteTimeout = ''WriteTimeout''"
| "class_name (OtherTransport name) = name"

text \<open>\<open>_NOT_SENT\<close> and \<^theory_text>\<open>httpx.TimeoutException\<close>.\<close>

definition not_sent :: "transport_class list" where
  "not_sent = [ConnectError, ConnectTimeout, PoolTimeout]"

definition timeouts :: "transport_class list" where
  "timeouts = [ConnectTimeout, ReadTimeout, WriteTimeout, PoolTimeout]"

text \<open>
  Exceptions are objects that refer to one another by cause and context, and the references may
  run in a circle; a failure is a transport error among such objects.
\<close>

record exc_object =
  eo_certificate :: bool
  eo_text :: string
  eo_cause :: "nat option"
  eo_context :: "nat option"

record failure =
  fl_class :: transport_class
  fl_objects :: "exc_object list"
  fl_root :: nat

definition chained :: "exc_object \<Rightarrow> nat option" where
  "chained e = (case eo_cause e of None \<Rightarrow> eo_context e | Some i \<Rightarrow> Some i)"

definition shows_certificate :: "exc_object \<Rightarrow> bool" where
  "shows_certificate e \<longleftrightarrow> eo_certificate e \<or> occurs_in ''CERTIFICATE_VERIFY_FAILED'' (eo_text e)"

text \<open>The walk along the chain, which remembers the objects it has seen.\<close>

function certificate_from :: "exc_object list \<Rightarrow> nat list \<Rightarrow> nat option \<Rightarrow> bool" where
  "certificate_from objs seen None = False"
| "certificate_from objs seen (Some i) =
     (if i \<in> set seen \<or> length objs \<le> i then False
      else if shows_certificate (objs ! i) then True
      else certificate_from objs (i # seen) (chained (objs ! i)))"
  by pat_completeness auto
termination
proof (relation "measure (\<lambda>(objs, seen, _). card ({..<length objs} - set seen))")
  fix objs :: "exc_object list" and seen :: "nat list" and i
  assume "\<not> (i \<in> set seen \<or> length objs \<le> i)"
  then have "i \<in> {..<length objs} - set seen" by simp
  then have "card ({..<length objs} - set (i # seen)) < card ({..<length objs} - set seen)"
    unfolding list.set(2) by (subst Diff_insert) (intro card_Diff1_less finite_Diff finite_lessThan)
  then show "((objs, i # seen, chained (objs ! i)), objs, seen, Some i)
      \<in> measure (\<lambda>(objs, seen, _). card ({..<length objs} - set seen))"
    by simp
qed simp

declare certificate_from.simps(2) [simp del]

definition is_tls_failure :: "failure \<Rightarrow> bool" where
  "is_tls_failure f = certificate_from (fl_objects f) [] (Some (fl_root f))"

text \<open>The objects that an error was caused by, directly or not.\<close>

inductive caused_by :: "exc_object list \<Rightarrow> nat \<Rightarrow> nat \<Rightarrow> bool" for objs where
  self: "i < length objs \<Longrightarrow> caused_by objs i i"
| link: "i < length objs \<Longrightarrow> chained (objs ! i) = Some j \<Longrightarrow> caused_by objs j k \<Longrightarrow> caused_by objs i k"

lemma certificate_from_sound:
  "certificate_from objs seen (Some i) \<Longrightarrow> \<exists>k. caused_by objs i k \<and> shows_certificate (objs ! k)"
proof (induction objs seen "Some i" arbitrary: i rule: certificate_from.induct)
  case (2 objs seen i)
  show ?case
  proof (cases "shows_certificate (objs ! i)")
    case True
    have "i < length objs" using 2(2) by (simp add: certificate_from.simps(2) split: if_splits)
    with True show ?thesis by (auto intro: caused_by.self)
  next
    case False
    with 2(2) have i: "\<not> (i \<in> set seen \<or> length objs \<le> i)"
      and next_one: "certificate_from objs (i # seen) (chained (objs ! i))"
      by (simp_all add: certificate_from.simps(2) split: if_splits)
    then obtain j where "chained (objs ! i) = Some j" by (cases "chained (objs ! i)") auto
    moreover have "i < length objs" using i by simp
    ultimately show ?thesis using 2(1) [OF i False \<open>chained (objs ! i) = Some j\<close>] next_one
      by (auto intro: caused_by.link)
  qed
qed

text \<open>A set of objects closed under the chain, none of them a certificate error, leads to none.\<close>

lemma closed_set_shows_none:
  assumes "caused_by objs i k" "i \<in> S"
    and "\<And>x. x \<in> S \<Longrightarrow> x < length objs \<Longrightarrow> \<not> shows_certificate (objs ! x)"
    and "\<And>x j. x \<in> S \<Longrightarrow> x < length objs \<Longrightarrow> chained (objs ! x) = Some j \<Longrightarrow> j \<in> S"
  shows "\<not> shows_certificate (objs ! k)"
  using assms by (induction rule: caused_by.induct) blast+

lemma certificate_from_complete:
  assumes "\<not> certificate_from objs seen c" "caused_by objs x k" "x \<in> set_option c \<union> set seen"
    and "\<And>y. y \<in> set seen \<Longrightarrow> y < length objs \<Longrightarrow> \<not> shows_certificate (objs ! y)"
    and "\<And>y j. y \<in> set seen \<Longrightarrow> y < length objs \<Longrightarrow> chained (objs ! y) = Some j \<Longrightarrow>
      j \<in> set_option c \<union> set seen"
  shows "\<not> shows_certificate (objs ! k)"
  using assms
proof (induction objs seen c rule: certificate_from.induct)
  case (1 objs seen)
  show ?case
    by (rule closed_set_shows_none [OF "1.prems"(2), of "set seen"]) (use 1 in auto)
next
  case (2 objs seen i)
  show ?case
  proof (cases "i \<in> set seen \<or> length objs \<le> i")
    case True
    show ?thesis
      by (rule closed_set_shows_none [OF "2.prems"(2), of "insert i (set seen)"])
        (use 2(3-) True in auto)
  next
    case False
    with "2.prems"(1) have i: "\<not> shows_certificate (objs ! i)"
      and rest: "\<not> certificate_from objs (i # seen) (chained (objs ! i))"
      by (simp_all add: certificate_from.simps(2) split: if_splits)
    show ?thesis
    proof (rule "2.IH" [OF False i rest "2.prems"(2)])
      show "x \<in> set_option (chained (objs ! i)) \<union> set (i # seen)" using "2.prems"(3) by auto
      show "\<And>y. y \<in> set (i # seen) \<Longrightarrow> y < length objs \<Longrightarrow> \<not> shows_certificate (objs ! y)"
        using i "2.prems"(4) by auto
      show "\<And>y j. y \<in> set (i # seen) \<Longrightarrow> y < length objs \<Longrightarrow> chained (objs ! y) = Some j \<Longrightarrow>
          j \<in> set_option (chained (objs ! i)) \<union> set (i # seen)"
        using "2.prems"(5) by auto
    qed
  qed
qed

text \<open>
  The walk along the causes of an error ends although they may run in a circle, and it
  answers whether any object that the error was caused by, directly or not, is a certificate
  verification failure.
\<close>

theorem tls_failure_iff:
  "is_tls_failure f \<longleftrightarrow>
     (\<exists>k. caused_by (fl_objects f) (fl_root f) k \<and> shows_certificate (fl_objects f ! k))"
  using certificate_from_sound [of "fl_objects f" "[]" "fl_root f"]
    certificate_from_complete [of "fl_objects f" "[]" "Some (fl_root f)" "fl_root f"]
  unfolding is_tls_failure_def by auto

section \<open>Retry-After\<close>

text \<open>
  \<^theory_text>\<open>parsedate_to_datetime\<close>, a parameter: text it refuses, a date without a time zone, or
  one that lies so many seconds ahead of the clock.
\<close>

datatype http_date = NotDate | NaiveDate | DateAt rat

definition ascii_decimal :: "string \<Rightarrow> nat option" where
  "ascii_decimal s = (if s = [] then None else read_digits 0 s)"

text \<open>More seconds than a float holds become an infinite wait.\<close>

definition parse_retry_after :: "(string \<Rightarrow> http_date) \<Rightarrow> string option \<Rightarrow> pyfloat option" where
  "parse_retry_after dates v =
     (let rendered = py_strip (or_empty v) in
      case ascii_decimal rendered of
        Some n \<Rightarrow> Some (if float_overflow \<le> int n then PosInf else Fin (of_nat n))
      | None \<Rightarrow>
          (case dates rendered of
             DateAt s \<Rightarrow> Some (Fin (max 0 s))
           | _ \<Rightarrow> None))"

section \<open>The policy\<close>

definition idempotent_methods :: "string list" where
  "idempotent_methods = [''GET'', ''HEAD'', ''OPTIONS'', ''PUT'', ''DELETE'', ''TRACE'']"

definition retryable_statuses :: "int list" where
  "retryable_statuses = [408, 429, 502, 503, 504]"

record retry_policy =
  rp_max_attempts :: nat
  rp_base :: rat
  rp_factor :: rat
  rp_max_backoff :: rat
  rp_max_retry_after :: rat
  rp_exact :: bool
  rp_jitter :: bool
  rp_statuses :: "int list"
  rp_methods :: "string list"

text \<open>
  \<^theory_text>\<open>math.isfinite(number) and number >= 0\<close>, which raises for what is no number and for
  an integer beyond the floats; \<^theory_text>\<open>all\<close> stops at the first number that fails.
\<close>

fun plain_number :: "json \<Rightarrow> string + pyfloat" where
  "plain_number (JBool b) = Inr (Fin (if b then 1 else 0))"
| "plain_number (JInt i) = (if abs i < float_overflow then Inr (Fin (of_int i)) else Inl ''OverflowError'')"
| "plain_number (JFloat f) = Inr f"
| "plain_number _ = Inl ''TypeError''"

fun all_finite :: "json list \<Rightarrow> string + bool" where
  "all_finite [] = Inr True"
| "all_finite (x # xs) =
     bindR (plain_number x) (\<lambda>n. case n of
        Fin r \<Rightarrow> if r < 0 then Inr False else all_finite xs
      | _ \<Rightarrow> Inr False)"

text \<open>\<^theory_text>\<open>factor < 1\<close>: an integer compares exactly, whatever its size.\<close>

fun below_one :: "json \<Rightarrow> string + bool" where
  "below_one (JBool b) = Inr (\<not> b)"
| "below_one (JInt i) = Inr (i < 1)"
| "below_one (JFloat (Fin r)) = Inr (r < 1)"
| "below_one (JFloat NaN) = Inr False"
| "below_one (JFloat PosInf) = Inr False"
| "below_one (JFloat NegInf) = Inr True"
| "below_one _ = Inl ''TypeError''"

fun whole :: "json \<Rightarrow> bool" where
  "whole (JBool b) = True"
| "whole (JInt i) = True"
| "whole _ = False"

definition rat_of :: "json \<Rightarrow> rat" where
  "rat_of v = (case number_of v of None \<Rightarrow> 0 | Some r \<Rightarrow> r)"

text \<open>
  The constructor with \<open>_require_retry_shape\<close> and \<open>_snapshot_set\<close>: the sets are \<open>None\<close> when they
  are not sets.
\<close>

definition retry_policy_new ::
  "json \<Rightarrow> json \<Rightarrow> json \<Rightarrow> json \<Rightarrow> json \<Rightarrow> json \<Rightarrow> int list option \<Rightarrow> string list option \<Rightarrow>
     string + retry_policy" where
  "retry_policy_new attempts base factor max_wait max_after jitter statuses methods =
     (case attempts of
        JInt n \<Rightarrow>
          (case jitter of
             JBool j \<Rightarrow>
               (case (methods, statuses) of
                  (Some ms, Some ss) \<Rightarrow>
                    bindR (all_finite [base, factor, max_wait, max_after]) (\<lambda>finite.
                    bindR (below_one factor) (\<lambda>small.
                    andR (refuse_if (\<not> (1 \<le> n \<and> n \<le> 10) \<or> \<not> finite \<or> small
                        \<or> \<not> list_all (\<lambda>m. m \<in> set idempotent_methods) ms)
                      ''retry policy needs 1-10 attempts, finite non-negative delays, a backoff factor of at least 1 and idempotent retry methods'')
                    (Inr \<lparr>rp_max_attempts = nat n, rp_base = rat_of base, rp_factor = rat_of factor,
                       rp_max_backoff = rat_of max_wait, rp_max_retry_after = rat_of max_after,
                       rp_exact = (whole base \<and> whole factor), rp_jitter = j,
                       rp_statuses = ss, rp_methods = ms\<rparr>)))
                | _ \<Rightarrow> Inl ''retry policy sets must be sets or frozensets'')
           | _ \<Rightarrow> Inl ''retry jitter must be a boolean'')
      | _ \<Rightarrow> Inl ''retry attempts must be an integer'')"

definition policy_ok :: "retry_policy \<Rightarrow> bool" where
  "policy_ok p \<longleftrightarrow> 1 \<le> rp_max_attempts p \<and> rp_max_attempts p \<le> 10
     \<and> 0 \<le> rp_base p \<and> 1 \<le> rp_factor p \<and> 0 \<le> rp_max_backoff p \<and> 0 \<le> rp_max_retry_after p
     \<and> set (rp_methods p) \<subseteq> set idempotent_methods"

lemma all_finite_Cons:
  "all_finite (x # xs) = Inr True \<longleftrightarrow> 0 \<le> rat_of x \<and> (\<exists>r. plain_number x = Inr (Fin r)) \<and> all_finite xs = Inr True"
  by (cases x rule: plain_number.cases) (auto simp: rat_of_def bindR_Inr split: pyfloat.splits)

lemma below_one_finite:
  "below_one x = Inr False \<Longrightarrow> plain_number x = Inr (Fin r) \<Longrightarrow> 1 \<le> rat_of x"
  by (cases x rule: below_one.cases) (auto simp: rat_of_def split: if_splits)

lemma retry_policy_new_ok:
  assumes "retry_policy_new attempts base factor max_wait max_after jitter statuses methods = Inr p"
  shows "policy_ok p"
proof -
  obtain n j ms ss where
    finite: "all_finite [base, factor, max_wait, max_after] = Inr True"
    and small: "below_one factor = Inr False"
    and n: "1 \<le> n" "n \<le> 10" and ms: "list_all (\<lambda>m. m \<in> set idempotent_methods) ms"
    and p: "p = \<lparr>rp_max_attempts = nat n, rp_base = rat_of base, rp_factor = rat_of factor,
                       rp_max_backoff = rat_of max_wait, rp_max_retry_after = rat_of max_after,
                       rp_exact = (whole base \<and> whole factor), rp_jitter = j,
                       rp_statuses = ss, rp_methods = ms\<rparr>"
    using assms unfolding retry_policy_new_def
    by (auto simp: result_iff split: json.split_asm option.split_asm prod.split_asm)
  have "0 \<le> rat_of base" "0 \<le> rat_of max_wait" "0 \<le> rat_of max_after" "1 \<le> rat_of factor"
    using finite below_one_finite [OF small] by (auto simp: all_finite_Cons simp del: all_finite.simps(2))
  with n ms show ?thesis by (auto simp: p policy_ok_def list_all_iff)
qed

text \<open>
  \<open>backoff\<close>: \<open>u\<close> is the random number of \<^theory_text>\<open>uniform\<close>. A power beyond the floats raises
  before the maximum can cut it, unless base and factor are integers.
\<close>

definition rp_backoff :: "retry_policy \<Rightarrow> rat \<Rightarrow> nat \<Rightarrow> string + rat" where
  "rp_backoff p u attempt =
     (let power = rp_factor p ^ (attempt - 1) in
      andR (refuse_if (\<not> rp_exact p \<and> of_int float_overflow \<le> power) ''OverflowError'')
        (let delay = min (rp_max_backoff p) (rp_base p * power)
         in Inr (if rp_jitter p then delay / 2 + u * (delay - delay / 2) else delay)))"

record http_request =
  rq_method :: string
  rq_url :: http_url
  rq_headers :: "(string, string) dict"
  rq_sni :: "string option"

record http_response =
  rs_id :: nat
  rs_status :: int
  rs_headers :: "(string, string) dict"
  rs_chunks :: "string list"
  rs_peer :: "string option option"

definition delay_after_response ::
  "retry_policy \<Rightarrow> (string \<Rightarrow> http_date) \<Rightarrow> rat \<Rightarrow> http_request \<Rightarrow> http_response \<Rightarrow> nat \<Rightarrow> string + rat option" where
  "delay_after_response p dates u q r attempt =
     (if \<not> (attempt < rp_max_attempts p \<and> rq_method q \<in> set (rp_methods p)
          \<and> rs_status r \<in> set (rp_statuses p)) then Inr None
      else case parse_retry_after dates (map_of (rs_headers r) ''retry-after'') of
             None \<Rightarrow> bindR (rp_backoff p u attempt) (\<lambda>d. Inr (Some d))
           | Some (Fin s) \<Rightarrow> Inr (if s \<le> rp_max_retry_after p then Some s else None)
           | Some _ \<Rightarrow> Inr None)"

text \<open>The error is missing when the generator is resumed with nothing.\<close>

definition delay_after_error ::
  "retry_policy \<Rightarrow> rat \<Rightarrow> http_request \<Rightarrow> failure option \<Rightarrow> nat \<Rightarrow> string + rat option" where
  "delay_after_error p u q f attempt =
     (if rp_max_attempts p \<le> attempt \<or> (case f of None \<Rightarrow> False | Some e \<Rightarrow> is_tls_failure e) then Inr None
      else if (case f of None \<Rightarrow> False | Some e \<Rightarrow> fl_class e \<in> set not_sent)
           \<or> rq_method q \<in> set (rp_methods p)
      then bindR (rp_backoff p u attempt) (\<lambda>d. Inr (Some d))
      else Inr None)"

text \<open>Every wait is between nothing and the larger of the two bounds of the policy.\<close>

definition wait_bound :: "retry_policy \<Rightarrow> rat" where
  "wait_bound p = max (rp_max_backoff p) (rp_max_retry_after p)"

lemma jitter_bounds:
  assumes "0 \<le> (x::rat)" "x \<le> m" "0 \<le> u" "u \<le> 1"
  shows "0 \<le> x / 2 + u * (x - x / 2) \<and> x / 2 + u * (x - x / 2) \<le> m"
proof -
  have "u * (x - x / 2) \<le> 1 * (x - x / 2)" "0 \<le> u * (x - x / 2)"
    using assms by (intro mult_right_mono mult_nonneg_nonneg; simp)+
  with assms show ?thesis by simp
qed

lemma rp_backoff_bounds:
  assumes "policy_ok p" "0 \<le> u" "u \<le> 1" "rp_backoff p u a = Inr d"
  shows "0 \<le> d \<and> d \<le> rp_max_backoff p"
proof -
  let ?delay = "min (rp_max_backoff p) (rp_base p * rp_factor p ^ (a - 1))"
  have "0 \<le> rp_base p * rp_factor p ^ (a - 1)"
    using assms(1) by (intro mult_nonneg_nonneg zero_le_power) (auto simp: policy_ok_def)
  then have delay: "0 \<le> ?delay" "?delay \<le> rp_max_backoff p"
    using assms(1) by (auto simp: policy_ok_def)
  have d: "d = (if rp_jitter p then ?delay / 2 + u * (?delay - ?delay / 2) else ?delay)"
    using assms(4) by (auto simp: rp_backoff_def Let_def result_iff)
  with jitter_bounds [OF delay assms(2,3)] delay show ?thesis by presburger
qed

lemma delay_after_response_bounds:
  assumes "policy_ok p" "0 \<le> u" "u \<le> 1" "delay_after_response p dates u q r a = Inr (Some d)"
  shows "0 \<le> d \<and> d \<le> wait_bound p"
proof (cases "parse_retry_after dates (map_of (rs_headers r) ''retry-after'')")
  case None
  then have "rp_backoff p u a = Inr d"
    using assms(4) by (auto simp: delay_after_response_def bindR_Inr split: if_splits)
  then show ?thesis using rp_backoff_bounds [OF assms(1-3)] by (fastforce simp: wait_bound_def)
next
  case (Some v)
  then have v: "v = Fin d" "d \<le> rp_max_retry_after p"
    using assms(4) by (auto simp: delay_after_response_def split: if_splits pyfloat.splits)
  have "0 \<le> d"
    using Some v(1)
    by (auto simp: parse_retry_after_def Let_def split: option.splits http_date.splits if_splits)
  with v show ?thesis by (simp add: wait_bound_def)
qed

lemma delay_after_error_bounds:
  assumes "policy_ok p" "0 \<le> u" "u \<le> 1" "delay_after_error p u q f a = Inr (Some d)"
  shows "0 \<le> d \<and> d \<le> wait_bound p"
proof -
  have "rp_backoff p u a = Inr d"
    using assms(4) unfolding delay_after_error_def by (auto simp: bindR_Inr split: if_split_asm)
  then show ?thesis using rp_backoff_bounds [OF assms(1-3)] by (fastforce simp: wait_bound_def)
qed

end
