(* ===== verification/Http_Flow.thy ===== *)
theory Http_Flow
  imports Http_Retry
begin

text \<open>
  One governed request: the error that a response or a failure becomes
  (\<^verbatim>\<open>http/errors.py\<close>), the attempt generator (\<^verbatim>\<open>http/flow.py\<close>) as a state that is advanced by what
  its driver sends in, and the synchronous and asynchronous transports that drive it
  (\<^verbatim>\<open>http/transport.py\<close>). The transport that sends is a parameter.
\<close>

section \<open>Errors\<close>

datatype http_error_class =
    HttpProblemError | HttpUnauthorizedError | HttpRateLimitedError | UpstreamTimeoutError
  | UpstreamUnavailableError | TlsVerificationError | RetriesExhaustedError | ResponseTooLargeError
  | PaginationOriginError | PaginationPageError

text \<open>What a call of the client raises: a problem, a transport failure or another exception.\<close>

datatype http_exn =
    HttpError http_error_class problem
  | TransportFailure failure
  | AirgapViolation string
  | PlainExn string string

definition request_target :: "url_lib \<Rightarrow> http_request \<Rightarrow> string" where
  "request_target U q = rq_method q @ '' '' @ redact_origin U (ul_text U (rq_url q))"

definition error_for_transport_failure :: "url_lib \<Rightarrow> failure \<Rightarrow> http_request \<Rightarrow> nat \<Rightarrow> http_exn" where
  "error_for_transport_failure U f q attempts =
     (let target = Some (request_target U q);
          cause = [(''cause'', JStr (class_name (fl_class f)))]
      in if is_tls_failure f
         then HttpError TlsVerificationError
           (sdk_problem ''tls-verification-failed'' ''Certificate verification failed'' target [])
         else if 1 < attempts
         then HttpError RetriesExhaustedError
           (sdk_problem ''retries-exhausted'' ''Retries exhausted'' target
             ((''attempts'', JInt (int attempts)) # cause))
         else if fl_class f \<in> set timeouts
         then HttpError UpstreamTimeoutError (sdk_problem ''timeout'' ''Upstream timed out'' target cause)
         else if fl_class f = ConnectError
         then HttpError UpstreamUnavailableError
           (sdk_problem ''unavailable'' ''Upstream unavailable'' target cause)
         else HttpError HttpProblemError
           (sdk_problem ''transport-failed'' ''Upstream transport failed'' target cause))"

text \<open>
  \<open>error_for_response\<close>: the outer \<open>None\<close> is a problem the model's validator refuses, a status
  beyond 599.
\<close>

definition error_for_response ::
  "(int \<Rightarrow> string option) \<Rightarrow> (string \<Rightarrow> http_date) \<Rightarrow> http_response \<Rightarrow> http_exn option option" where
  "error_for_response phrase dates r =
     (if rs_status r < 400 then Some None
      else case problem_for_status phrase (rs_status r) [] of
             None \<Rightarrow> None
           | Some p \<Rightarrow>
               Some (Some
                 (if rs_status r \<in> {401, 403} then HttpError HttpUnauthorizedError p
                  else if rs_status r \<noteq> 429 then HttpError HttpProblemError p
                  else HttpError HttpRateLimitedError
                    (case parse_retry_after dates (map_of (rs_headers r) ''retry-after'') of
                       None \<Rightarrow> p
                     | Some s \<Rightarrow>
                         p\<lparr>pb_extensions := dict_set ''retry_after'' (JFloat s) (pb_extensions p)\<rparr>))))"

section \<open>The attempt generator\<close>

datatype outcome = Response http_response | Failed failure | NoOutcome

datatype http_event =
    Sent http_request "http_exn + outcome"
  | Logged nat "rat option" outcome
  | Closed nat
  | Slept rat

record 'w http_state =
  ht_world :: 'w
  ht_trace :: "http_event list"

type_synonym ('w, 'a) http_prog = "('w http_state, http_exn, 'a) prog"

definition emit :: "http_event \<Rightarrow> ('w, unit) http_prog" where
  "emit e = modifyP (\<lambda>s. s\<lparr>ht_trace := ht_trace s @ [e]\<rparr>)"

text \<open>
  What the environment gives at each attempt: the reading of an HTTP date against the clock and
  the random number of the jitter.
\<close>

record http_env =
  he_lib :: url_lib
  he_policy :: retry_policy
  he_dates :: "nat \<Rightarrow> string \<Rightarrow> http_date"
  he_random :: "nat \<Rightarrow> rat"

datatype step = SendNow | PauseFor rat "http_response option" | Done http_response

datatype flow = NotStarted | AwaitsOutcome nat | AwaitsResume nat | Exhausted

definition judge :: "http_env \<Rightarrow> http_request \<Rightarrow> nat \<Rightarrow> outcome \<Rightarrow> string + rat option" where
  "judge E q attempt oc =
     (case oc of
        Response r \<Rightarrow>
          delay_after_response (he_policy E) (he_dates E attempt) (he_random E attempt) q r attempt
      | Failed f \<Rightarrow> delay_after_error (he_policy E) (he_random E attempt) q (Some f) attempt
      | NoOutcome \<Rightarrow> delay_after_error (he_policy E) (he_random E attempt) q None attempt)"

definition response_of :: "outcome \<Rightarrow> http_response option" where
  "response_of oc = (case oc of Response r \<Rightarrow> Some r | _ \<Rightarrow> None)"

definition resume_outcome :: "http_env \<Rightarrow> http_request \<Rightarrow> nat \<Rightarrow> outcome \<Rightarrow> ('w, step \<times> flow) http_prog" where
  "resume_outcome E q attempt oc =
     (case judge E q attempt oc of
        Inl e \<Rightarrow> raiseP (PlainExn e [])
      | Inr delay \<Rightarrow>
          thenP (emit (Logged attempt delay oc))
            (case (delay, oc) of
               (None, Response r) \<Rightarrow> returnP (Done r, Exhausted)
             | (None, Failed f) \<Rightarrow> raiseP (error_for_transport_failure (he_lib E) f q attempt)
             | _ \<Rightarrow>
                 returnP (PauseFor (case delay of None \<Rightarrow> 0 | Some d \<Rightarrow> d) (response_of oc),
                   AwaitsResume attempt)))"

text \<open>
  \<open>advance\<close>: what is sent in reaches the generator where it stands; it starts with nothing, is
  given an outcome where it asked to send, and ignores what resumes it after a pause.
\<close>

definition advance :: "http_env \<Rightarrow> http_request \<Rightarrow> flow \<Rightarrow> outcome \<Rightarrow> ('w, step \<times> flow) http_prog" where
  "advance E q fl oc =
     (case fl of
        NotStarted \<Rightarrow>
          (if oc = NoOutcome then returnP (SendNow, AwaitsOutcome 1) else raiseP (PlainExn ''TypeError'' []))
      | AwaitsOutcome a \<Rightarrow> resume_outcome E q a oc
      | AwaitsResume a \<Rightarrow> returnP (SendNow, AwaitsOutcome (a + 1))
      | Exhausted \<Rightarrow> raiseP (PlainExn ''StopIteration'' []))"

section \<open>The transports\<close>

type_synonym 'w sender = "http_request \<Rightarrow> 'w \<Rightarrow> (http_exn + http_response) \<times> 'w"

definition without :: "string \<Rightarrow> (string, string) dict \<Rightarrow> (string, string) dict" where
  "without name hs = filter (\<lambda>(n, v). n \<noteq> name) hs"

definition isolated_request :: "bool \<Rightarrow> http_request \<Rightarrow> http_request" where
  "isolated_request apart q = (if apart then q\<lparr>rq_headers := without ''cookie'' (rq_headers q)\<rparr> else q)"

definition isolated_response :: "bool \<Rightarrow> http_response \<Rightarrow> http_response" where
  "isolated_response apart r = (if apart then r\<lparr>rs_headers := without ''set-cookie'' (rs_headers r)\<rparr> else r)"

text \<open>\<open>_send\<close>: a transport failure is an outcome, any other exception leaves the transport.\<close>

definition outcome_of :: "bool \<Rightarrow> http_exn + http_response \<Rightarrow> http_exn + outcome" where
  "outcome_of apart answer =
     (case answer of
        Inr r \<Rightarrow> Inr (Response (isolated_response apart r))
      | Inl (TransportFailure f) \<Rightarrow> Inr (Failed f)
      | Inl e \<Rightarrow> Inl e)"

definition send :: "'w sender \<Rightarrow> bool \<Rightarrow> http_request \<Rightarrow> ('w, outcome) http_prog" where
  "send T apart q = (\<lambda>s.
     (let q' = isolated_request apart q in
      case T q' (ht_world s) of
        (answer, w) \<Rightarrow>
          (outcome_of apart answer,
           s\<lparr>ht_world := w, ht_trace := ht_trace s @ [Sent q' (outcome_of apart answer)]\<rparr>)))"

definition pause :: "rat \<Rightarrow> http_response option \<Rightarrow> ('w, unit) http_prog" where
  "pause d r =
     thenP (case r of None \<Rightarrow> returnP () | Some x \<Rightarrow> emit (Closed (rs_id x))) (emit (Slept d))"

text \<open>The loop of the synchronous transport, from a step the generator gave.\<close>

definition advances_left :: "http_env \<Rightarrow> flow \<Rightarrow> nat" where
  "advances_left E fl =
     (let left = rp_max_attempts (he_policy E) in
      case fl of
        NotStarted \<Rightarrow> 2 * left + 10
      | AwaitsOutcome a \<Rightarrow> if a < left then 2 * (left - a) + 2 else 1
      | AwaitsResume a \<Rightarrow> if a < left then 2 * (left - a) + 1 else 2
      | Exhausted \<Rightarrow> 0)"

definition stage_left :: "http_env \<Rightarrow> step \<times> flow \<Rightarrow> nat" where
  "stage_left E x =
     (case x of
        (PauseFor d r, AwaitsOutcome a) \<Rightarrow> 2 * rp_max_attempts (he_policy E) + 10
      | (st, fl) \<Rightarrow> advances_left E fl)"

lemma judge_in_time:
  "judge E q a oc = Inr (Some d) \<Longrightarrow> a < rp_max_attempts (he_policy E)"
  by (cases oc)
    (auto simp: judge_def delay_after_response_def delay_after_error_def split: if_splits)

lemma advance_progress:
  assumes "advance E q fl oc s = (Inr (st', fl'), s')"
    and "st = SendNow \<Longrightarrow> oc \<noteq> NoOutcome"
    and "\<And>r. st \<noteq> Done r"
  shows "(\<exists>r. st' = Done r) \<or> stage_left E (st', fl') < stage_left E (st, fl)"
proof (cases fl)
  case NotStarted
  with assms(1) show ?thesis
    by (cases st)
      (auto simp: advance_def stage_left_def advances_left_def Let_def run_iff split: if_splits)
next
  case (AwaitsOutcome a)
  then have res: "resume_outcome E q a oc s = (Inr (st', fl'), s')"
    using assms(1) by (simp add: advance_def)
  obtain delay where j: "judge E q a oc = Inr delay"
    using res by (cases "judge E q a oc") (auto simp: resume_outcome_def run_iff)
  show ?thesis
  proof (cases delay)
    case None
    show ?thesis
    proof (cases oc)
      case NoOutcome
      then have "st \<noteq> SendNow" using assms(2) AwaitsOutcome by blast
      then obtain d r where "st = PauseFor d r" using assms(3) by (cases st) auto
      moreover have "fl' = AwaitsResume a"
        using res j None NoOutcome by (auto simp: resume_outcome_def run_iff)
      ultimately show ?thesis
        by (cases st') (auto simp: AwaitsOutcome stage_left_def advances_left_def Let_def)
    qed (use res j None in \<open>auto simp: resume_outcome_def run_iff\<close>)
  next
    case (Some d)
    then have "a < rp_max_attempts (he_policy E)" using j judge_in_time by metis
    moreover have "fl' = AwaitsResume a"
      using res j Some by (cases oc) (auto simp: resume_outcome_def run_iff)
    ultimately show ?thesis
      by (cases st; cases st') (auto simp: AwaitsOutcome stage_left_def advances_left_def Let_def)
  qed
next
  case (AwaitsResume a)
  with assms(1) show ?thesis
    by (cases st) (auto simp: advance_def stage_left_def advances_left_def Let_def run_iff)
next
  case Exhausted
  with assms(1) show ?thesis by (auto simp: advance_def run_iff)
qed

definition work_left :: "http_env \<Rightarrow> step \<times> flow \<Rightarrow> nat" where
  "work_left E x = (case fst x of Done r \<Rightarrow> 0 | _ \<Rightarrow> Suc (stage_left E x))"

lemma advance_works:
  assumes "advance E q fl oc s = (Inr x, s')"
    and "st = SendNow \<Longrightarrow> oc \<noteq> NoOutcome"
    and "\<And>r. st \<noteq> Done r"
  shows "work_left E x < work_left E (st, fl)"
proof -
  obtain st' fl' where x: "x = (st', fl')" by (cases x)
  from advance_progress [OF assms(1) [unfolded x] assms(2,3)]
  show ?thesis using assms(3) by (cases st; cases st') (simp_all add: x work_left_def)
qed

lemma outcome_given: "outcome_of apart answer = Inr oc \<Longrightarrow> oc \<noteq> NoOutcome"
  by (auto simp: outcome_of_def split: sum.splits http_exn.splits)

lemma send_outcome: "send T apart q s = (Inr oc, s') \<Longrightarrow> oc \<noteq> NoOutcome"
  by (auto simp: send_def Let_def split: prod.splits dest: outcome_given)

definition sync_turn ::
  "'w sender \<Rightarrow> http_env \<Rightarrow> bool \<Rightarrow> http_request \<Rightarrow> step \<times> flow \<Rightarrow> ('w, step \<times> flow) http_prog" where
  "sync_turn T E apart q x =
     (case fst x of
        PauseFor d r \<Rightarrow> thenP (pause d r) (advance E q (snd x) NoOutcome)
      | _ \<Rightarrow> bindP (send T apart q) (advance E q (snd x)))"

lemma sync_turn_works:
  assumes "sync_turn T E apart q x s = (Inr y, s')" "\<And>r. fst x \<noteq> Done r"
  shows "work_left E y < work_left E x"
proof -
  obtain st fl where x: "x = (st, fl)" by (cases x)
  show ?thesis
  proof (cases st)
    case SendNow
    then obtain oc t where "send T apart q s = (Inr oc, t)" "advance E q fl oc t = (Inr y, s')"
      using assms(1) by (auto simp: sync_turn_def x run_iff)
    then show ?thesis using advance_works [of E q fl oc t y s' st] send_outcome [of T apart q s oc t] SendNow
      by (simp add: x)
  next
    case (PauseFor d r)
    then obtain t where "advance E q fl NoOutcome t = (Inr y, s')"
      using assms(1) by (auto simp: sync_turn_def x run_iff)
    then show ?thesis using advance_works [of E q fl NoOutcome t y s' st] PauseFor by (simp add: x)
  qed (use assms(2) x in auto)
qed

function drive ::
  "'w sender \<Rightarrow> http_env \<Rightarrow> bool \<Rightarrow> http_request \<Rightarrow> step \<times> flow \<Rightarrow> 'w http_state \<Rightarrow>
     (http_exn + http_response) \<times> 'w http_state" where
  "drive T E apart q x s =
     (case fst x of
        Done r \<Rightarrow> (Inr r, s)
      | _ \<Rightarrow>
          (case sync_turn T E apart q x s of
             (Inl e, s') \<Rightarrow> (Inl e, s')
           | (Inr y, s') \<Rightarrow> drive T E apart q y s'))"
  by auto
termination
  by (relation "measure (\<lambda>(T, E, apart, q, x, s). work_left E x)")
    (auto intro: sync_turn_works dest: sym)

declare drive.simps [simp del]

definition handle_request ::
  "'w sender \<Rightarrow> http_env \<Rightarrow> bool \<Rightarrow> http_request \<Rightarrow> ('w, http_response) http_prog" where
  "handle_request T E apart q = bindP (advance E q NotStarted NoOutcome) (drive T E apart q)"

text \<open>The asynchronous transport: one awaited turn either sends or closes and sleeps.\<close>

definition async_outcome ::
  "'w sender \<Rightarrow> bool \<Rightarrow> http_request \<Rightarrow> step \<Rightarrow> ('w, outcome) http_prog" where
  "async_outcome T apart q st =
     (case st of
        PauseFor d r \<Rightarrow> thenP (pause d r) (returnP NoOutcome)
      | _ \<Rightarrow> send T apart q)"

definition async_turn ::
  "'w sender \<Rightarrow> http_env \<Rightarrow> bool \<Rightarrow> http_request \<Rightarrow> step \<times> flow \<Rightarrow> ('w, step \<times> flow) http_prog" where
  "async_turn T E apart q x = bindP (async_outcome T apart q (fst x)) (advance E q (snd x))"

lemma async_turn_sync: "async_turn T E apart q x = sync_turn T E apart q x"
  by (cases "fst x")
    (auto simp: async_turn_def async_outcome_def sync_turn_def fun_eq_iff thenP_def bindP_def returnP_def
      split: prod.splits sum.splits)

function drive_async ::
  "'w sender \<Rightarrow> http_env \<Rightarrow> bool \<Rightarrow> http_request \<Rightarrow> step \<times> flow \<Rightarrow> 'w http_state \<Rightarrow>
     (http_exn + http_response) \<times> 'w http_state" where
  "drive_async T E apart q x s =
     (case fst x of
        Done r \<Rightarrow> (Inr r, s)
      | _ \<Rightarrow>
          (case async_turn T E apart q x s of
             (Inl e, s') \<Rightarrow> (Inl e, s')
           | (Inr y, s') \<Rightarrow> drive_async T E apart q y s'))"
  by auto
termination
  by (relation "measure (\<lambda>(T, E, apart, q, x, s). work_left E x)")
    (auto simp: async_turn_sync intro: sync_turn_works dest: sym)

declare drive_async.simps [simp del]

definition handle_async_request ::
  "'w sender \<Rightarrow> http_env \<Rightarrow> bool \<Rightarrow> http_request \<Rightarrow> ('w, http_response) http_prog" where
  "handle_async_request T E apart q =
     bindP (advance E q NotStarted NoOutcome) (drive_async T E apart q)"

lemma drive_async_eq: "drive_async T E apart q x s = drive T E apart q x s"
proof (induction T E apart q x s rule: drive.induct)
  case (1 T E apart q x s)
  show ?case
    by (subst drive.simps, subst drive_async.simps)
      (auto simp: async_turn_sync "1.IH" split: step.split prod.split sum.split)
qed

text \<open>Both transports make the same requests, waits and answers.\<close>

lemma transports_agree: "handle_async_request T E apart q = handle_request T E apart q"
  by (simp add: handle_async_request_def handle_request_def drive_async_eq [abs_def])

section \<open>What a request does\<close>

text \<open>The events of one request from attempt \<open>a\<close> on, and what it comes to.\<close>

definition closes :: "outcome \<Rightarrow> http_event list" where
  "closes oc = (case response_of oc of None \<Rightarrow> [] | Some r \<Rightarrow> [Closed (rs_id r)])"

inductive attempt_run ::
  "http_env \<Rightarrow> bool \<Rightarrow> http_request \<Rightarrow> nat \<Rightarrow> http_exn + http_response \<Rightarrow> http_event list \<Rightarrow> bool"
  for E apart q where
  crashed: "attempt_run E apart q a (Inl e) [Sent (isolated_request apart q) (Inl e)]"
| overflow:
    "judge E q a oc = Inl e \<Longrightarrow> oc \<noteq> NoOutcome \<Longrightarrow>
       attempt_run E apart q a (Inl (PlainExn e [])) [Sent (isolated_request apart q) (Inr oc)]"
| answered:
    "judge E q a (Response r) = Inr None \<Longrightarrow>
       attempt_run E apart q a (Inr r)
         [Sent (isolated_request apart q) (Inr (Response r)), Logged a None (Response r)]"
| gave_up:
    "judge E q a (Failed f) = Inr None \<Longrightarrow>
       attempt_run E apart q a (Inl (error_for_transport_failure (he_lib E) f q a))
         [Sent (isolated_request apart q) (Inr (Failed f)), Logged a None (Failed f)]"
| again:
    "judge E q a oc = Inr (Some d) \<Longrightarrow> oc \<noteq> NoOutcome \<Longrightarrow> attempt_run E apart q (a + 1) res t \<Longrightarrow>
       attempt_run E apart q a res
         (Sent (isolated_request apart q) (Inr oc) # Logged a (Some d) oc # closes oc @ Slept d # t)"

lemma drive_pause:
  "drive T E apart q (PauseFor d (response_of oc), AwaitsResume a) s =
     drive T E apart q (SendNow, AwaitsOutcome (a + 1)) (s\<lparr>ht_trace := ht_trace s @ closes oc @ [Slept d]\<rparr>)"
  by (subst drive.simps)
    (simp add: sync_turn_def pause_def advance_def emit_def closes_def prog_defs split: option.split)

lemma drive_resume:
  assumes "oc \<noteq> NoOutcome" "send T apart q s = (Inr oc, s1)"
  shows "drive T E apart q (SendNow, AwaitsOutcome a) s =
    (case judge E q a oc of
       Inl e \<Rightarrow> (Inl (PlainExn e []), s1)
     | Inr delay \<Rightarrow>
         (let s2 = s1\<lparr>ht_trace := ht_trace s1 @ [Logged a delay oc]\<rparr> in
          case (delay, oc) of
            (None, Response r) \<Rightarrow> (Inr r, s2)
          | (None, Failed f) \<Rightarrow> (Inl (error_for_transport_failure (he_lib E) f q a), s2)
          | (Some d, _) \<Rightarrow> drive T E apart q (PauseFor d (response_of oc), AwaitsResume a) s2
          | _ \<Rightarrow> undefined))"
  using assms
  by (subst drive.simps)
    (auto simp: sync_turn_def advance_def resume_outcome_def emit_def prog_defs Let_def drive.simps [of _ _ _ _ "(Done r, Exhausted)" for r]
      split: sum.split option.split outcome.split)

lemma drive_follows:
  "\<exists>t. ht_trace (snd (drive T E apart q (SendNow, AwaitsOutcome a) s)) = ht_trace s @ t
     \<and> attempt_run E apart q a (fst (drive T E apart q (SendNow, AwaitsOutcome a) s)) t"
proof (induction "rp_max_attempts (he_policy E) - a" arbitrary: a s rule: less_induct)
  case less
  obtain answer w where T: "T (isolated_request apart q) (ht_world s) = (answer, w)"
    by (cases "T (isolated_request apart q) (ht_world s)")
  let ?sent = "Sent (isolated_request apart q) (outcome_of apart answer)"
  let ?s1 = "s\<lparr>ht_world := w, ht_trace := ht_trace s @ [?sent]\<rparr>"
  have sent: "send T apart q s = (outcome_of apart answer, ?s1)" by (simp add: send_def Let_def T)
  show ?case
  proof (cases "outcome_of apart answer")
    case (Inl e)
    then have "drive T E apart q (SendNow, AwaitsOutcome a) s = (Inl e, ?s1)"
      by (subst drive.simps) (simp add: sync_turn_def sent bindP_def)
    with Inl show ?thesis by (auto intro: attempt_run.crashed)
  next
    case (Inr oc)
    have oc: "oc \<noteq> NoOutcome" using outcome_given [OF Inr] .
    note run = drive_resume [OF oc sent [unfolded Inr], of E a]
    show ?thesis
    proof (cases "judge E q a oc")
      case (Inl e)
      with Inr run oc show ?thesis by (auto intro: attempt_run.overflow)
    next
      case delay: (Inr delay)
      show ?thesis
      proof (cases delay)
        case None
        show ?thesis
        proof (cases oc)
          case (Response r)
          with Inr run delay None show ?thesis by (auto simp: Let_def intro: attempt_run.answered)
        next
          case (Failed f)
          with Inr run delay None show ?thesis by (auto simp: Let_def intro: attempt_run.gave_up)
        qed (use oc in simp)
      next
        case (Some d)
        let ?s3 = "?s1\<lparr>ht_trace := ht_trace ?s1 @ Logged a (Some d) oc # closes oc @ [Slept d]\<rparr>"
        have eq: "drive T E apart q (SendNow, AwaitsOutcome a) s
            = drive T E apart q (SendNow, AwaitsOutcome (a + 1)) ?s3"
        proof -
          have "drive T E apart q (SendNow, AwaitsOutcome a) s
            = drive T E apart q (PauseFor d (response_of oc), AwaitsResume a)
                (?s1\<lparr>ht_trace := ht_trace ?s1 @ [Logged a (Some d) oc]\<rparr>)"
            unfolding run delay Some Inr by (simp add: Let_def)
          then show ?thesis by (simp add: drive_pause Inr)
        qed
        have "a < rp_max_attempts (he_policy E)" using delay Some judge_in_time by metis
        then have "rp_max_attempts (he_policy E) - (a + 1) < rp_max_attempts (he_policy E) - a" by simp
        from less [OF this, of ?s3] obtain t where
          t: "ht_trace (snd (drive T E apart q (SendNow, AwaitsOutcome (a + 1)) ?s3)) = ht_trace ?s3 @ t"
            "attempt_run E apart q (a + 1) (fst (drive T E apart q (SendNow, AwaitsOutcome (a + 1)) ?s3)) t"
          by blast
        show ?thesis
          unfolding eq using t attempt_run.again [OF delay [unfolded Some] oc t(2)] Inr
          by (intro exI [of _ "?sent # Logged a (Some d) oc # closes oc @ Slept d # t"]) simp
      qed
    qed
  qed
qed

lemma handle_request_follows:
  "\<exists>t. ht_trace (snd (handle_request T E apart q s)) = ht_trace s @ t
     \<and> attempt_run E apart q 1 (fst (handle_request T E apart q s)) t"
  using drive_follows [of T E apart q 1 s]
  by (simp add: handle_request_def advance_def bindP_def returnP_def)

section \<open>The discipline of retries\<close>

definition sends :: "http_event list \<Rightarrow> (http_exn + outcome) list" where
  "sends t = concat (map (\<lambda>e. case e of Sent q x \<Rightarrow> [x] | _ \<Rightarrow> []) t)"

definition sleeps :: "http_event list \<Rightarrow> rat list" where
  "sleeps t = concat (map (\<lambda>e. case e of Slept d \<Rightarrow> [d] | _ \<Rightarrow> []) t)"

definition closed_responses :: "http_event list \<Rightarrow> nat list" where
  "closed_responses t = concat (map (\<lambda>e. case e of Closed i \<Rightarrow> [i] | _ \<Rightarrow> []) t)"

definition discarded :: "(http_exn + outcome) list \<Rightarrow> nat list" where
  "discarded xs = concat (map (\<lambda>x. case x of Inr (Response r) \<Rightarrow> [rs_id r] | _ \<Rightarrow> []) xs)"

text \<open>
  Outcomes that the policy lets a request repeat after: a transient answer to an idempotent
  method, or a failure that is no certificate failure and that the method bears or that came
  before anything was sent.
\<close>

definition repeatable :: "retry_policy \<Rightarrow> http_request \<Rightarrow> http_exn + outcome \<Rightarrow> bool" where
  "repeatable p q x =
     (case x of
        Inr (Response r) \<Rightarrow> rs_status r \<in> set (rp_statuses p) \<and> rq_method q \<in> set (rp_methods p)
      | Inr (Failed f) \<Rightarrow>
          \<not> is_tls_failure f \<and> (fl_class f \<in> set not_sent \<or> rq_method q \<in> set (rp_methods p))
      | _ \<Rightarrow> False)"

text \<open>What the last outcome makes the request return.\<close>

definition comes_to :: "http_env \<Rightarrow> http_request \<Rightarrow> nat \<Rightarrow> http_exn + outcome \<Rightarrow> http_exn + http_response \<Rightarrow> bool" where
  "comes_to E q n x res =
     (case x of
        Inl e \<Rightarrow> res = Inl e
      | Inr (Response r) \<Rightarrow> res = Inr r \<or> res = Inl (PlainExn ''OverflowError'' [])
      | Inr (Failed f) \<Rightarrow>
          res = Inl (error_for_transport_failure (he_lib E) f q n)
          \<or> res = Inl (PlainExn ''OverflowError'' [])
      | Inr NoOutcome \<Rightarrow> False)"

definition env_ok :: "http_env \<Rightarrow> bool" where
  "env_ok E \<longleftrightarrow> policy_ok (he_policy E) \<and> (\<forall>n. 0 \<le> he_random E n \<and> he_random E n \<le> 1)"

lemma trace_simps [simp]:
  "sends [] = []" "sends (Sent q x # t) = x # sends t" "sends (Logged a d oc # t) = sends t"
  "sends (Closed i # t) = sends t" "sends (Slept z # t) = sends t"
  "sleeps [] = []" "sleeps (Sent q x # t) = sleeps t" "sleeps (Logged a d oc # t) = sleeps t"
  "sleeps (Closed i # t) = sleeps t" "sleeps (Slept z # t) = z # sleeps t"
  "closed_responses [] = []" "closed_responses (Sent q x # t) = closed_responses t"
  "closed_responses (Logged a d oc # t) = closed_responses t"
  "closed_responses (Closed i # t) = i # closed_responses t"
  "closed_responses (Slept z # t) = closed_responses t"
  by (simp_all add: sends_def sleeps_def closed_responses_def)

lemma closes_trace [simp]:
  "sends (closes oc @ t) = sends t" "sleeps (closes oc @ t) = sleeps t"
  "closed_responses (closes oc @ t) = discarded [Inr oc] @ closed_responses t"
  by (cases oc; simp add: closes_def response_of_def discarded_def)+

lemma backoff_overflow: "rp_backoff p u a = Inl e \<Longrightarrow> e = ''OverflowError''"
  by (simp add: rp_backoff_def Let_def andR_Inl refuse_if_Inl)

lemma judge_overflow:
  assumes "judge E q a oc = Inl e"
  shows "e = ''OverflowError''"
proof -
  obtain p u where "rp_backoff p u a = Inl e"
    using assms unfolding judge_def delay_after_response_def delay_after_error_def
    by (cases oc) (auto simp: bindR_Inl split: if_split_asm option.split_asm pyfloat.split_asm)
  then show ?thesis by (rule backoff_overflow)
qed

lemma judge_again:
  assumes "judge E q a oc = Inr (Some d)" "oc \<noteq> NoOutcome"
  shows "repeatable (he_policy E) q (Inr oc)"
  using assms
  by (cases oc)
    (auto simp: judge_def delay_after_response_def delay_after_error_def repeatable_def split: if_splits)

lemma judge_waits:
  assumes "env_ok E" "judge E q a oc = Inr (Some d)"
  shows "0 \<le> d \<and> d \<le> wait_bound (he_policy E)"
proof -
  have ok: "policy_ok (he_policy E)" "0 \<le> he_random E a" "he_random E a \<le> 1"
    using assms(1) by (auto simp: env_ok_def)
  show ?thesis
    using assms(2) delay_after_response_bounds [OF ok] delay_after_error_bounds [OF ok]
    by (cases oc) (simp_all add: judge_def)
qed

lemma attempt_run_discipline:
  assumes "attempt_run E apart q a res t" "env_ok E" "a \<le> rp_max_attempts (he_policy E)"
  shows "1 \<le> length (sends t) \<and> a + length (sends t) \<le> rp_max_attempts (he_policy E) + 1
    \<and> list_all (repeatable (he_policy E) q) (butlast (sends t))
    \<and> list_all (\<lambda>d. 0 \<le> d \<and> d \<le> wait_bound (he_policy E)) (sleeps t)
    \<and> Suc (length (sleeps t)) = length (sends t)
    \<and> closed_responses t = discarded (butlast (sends t))
    \<and> comes_to E q (a + length (sends t) - 1) (last (sends t)) res"
  using assms
proof (induction rule: attempt_run.induct)
  case (overflow a oc e)
  then show ?case
    using judge_overflow [OF overflow(1)] by (cases oc) (auto simp: comes_to_def discarded_def)
next
  case (again a oc d res t)
  have "a < rp_max_attempts (he_policy E)" using again(1) judge_in_time by metis
  with again have IH: "1 \<le> length (sends t) \<and> a + 1 + length (sends t) \<le> rp_max_attempts (he_policy E) + 1
    \<and> list_all (repeatable (he_policy E) q) (butlast (sends t))
    \<and> list_all (\<lambda>d. 0 \<le> d \<and> d \<le> wait_bound (he_policy E)) (sleeps t)
    \<and> Suc (length (sleeps t)) = length (sends t)
    \<and> closed_responses t = discarded (butlast (sends t))
    \<and> comes_to E q (a + 1 + length (sends t) - 1) (last (sends t)) res" by simp
  then have "sends t \<noteq> []" by auto
  moreover have "0 \<le> d \<and> d \<le> wait_bound (he_policy E)" using judge_waits [OF \<open>env_ok E\<close> again(1)] .
  moreover have "discarded (butlast (Inr oc # sends t)) = discarded [Inr oc] @ discarded (butlast (sends t))"
    using \<open>sends t \<noteq> []\<close> by (simp add: discarded_def)
  ultimately show ?case using IH judge_again [OF again(1,2)] by simp
qed (auto simp: comes_to_def discarded_def)

text \<open>
  Property C25. Under a validated policy a request is sent at least once and at most
  \<open>max_attempts\<close> times, and it is sent again only after a transient answer to an idempotent method
  or after a failure that is no certificate failure and that either came before the request was
  sent or met an idempotent method: so a request of another method reaches the server at most once.
  Between two sendings it waits once, no longer than the larger bound of the policy, and it closes
  every answer it discards; what it returns or raises is what its last sending came to.
\<close>

theorem retry_discipline:
  assumes "env_ok E"
  shows "case handle_request T E apart q s of (res, s') \<Rightarrow>
    (\<exists>t. ht_trace s' = ht_trace s @ t
      \<and> 1 \<le> length (sends t) \<and> length (sends t) \<le> rp_max_attempts (he_policy E)
      \<and> list_all (repeatable (he_policy E) q) (butlast (sends t))
      \<and> length (sleeps t) + 1 = length (sends t)
      \<and> list_all (\<lambda>d. 0 \<le> d \<and> d \<le> wait_bound (he_policy E)) (sleeps t)
      \<and> closed_responses t = discarded (butlast (sends t))
      \<and> comes_to E q (length (sends t)) (last (sends t)) res)"
proof -
  obtain res s' where run: "handle_request T E apart q s = (res, s')"
    by (cases "handle_request T E apart q s")
  obtain t where t: "ht_trace s' = ht_trace s @ t" "attempt_run E apart q 1 res t"
    using handle_request_follows [of T E apart q s] by (auto simp: run)
  have "1 \<le> rp_max_attempts (he_policy E)" using assms by (simp add: env_ok_def policy_ok_def)
  from attempt_run_discipline [OF t(2) assms this] t(1) show ?thesis
    by (auto simp: run intro!: exI [of _ t])
qed

text \<open>A server that is unavailable once and then answers, under the default policy.\<close>

definition default_policy :: retry_policy where
  "default_policy =
     \<lparr>rp_max_attempts = 3, rp_base = 1 / 2, rp_factor = 2, rp_max_backoff = 30, rp_max_retry_after = 120,
      rp_exact = False, rp_jitter = True, rp_statuses = retryable_statuses,
      rp_methods = idempotent_methods\<rparr>"

definition demo_url_lib :: url_lib where
  "demo_url_lib =
     \<lparr>ul_text = hu_rest, ul_netloc = hu_host, ul_split = (\<lambda>u. None), ul_join = (\<lambda>b u. Some u),
      ul_unsplit = (\<lambda>s n p q. p), ul_parse_query = (\<lambda>q. []), ul_encode_query = (\<lambda>q. [])\<rparr>"

definition demo_http_env :: http_env where
  "demo_http_env =
     \<lparr>he_lib = demo_url_lib, he_policy = default_policy, he_dates = (\<lambda>n s. NotDate),
      he_random = (\<lambda>n. 1 / 2)\<rparr>"

definition demo_request :: "string \<Rightarrow> http_request" where
  "demo_request m =
     \<lparr>rq_method = m, rq_url = \<lparr>hu_scheme = ''https'', hu_host = ''api'', hu_port = None, hu_rest = ''/''\<rparr>,
      rq_headers = [(''cookie'', ''a=b'')], rq_sni = None\<rparr>"

definition demo_response :: "nat \<Rightarrow> int \<Rightarrow> http_response" where
  "demo_response i status =
     \<lparr>rs_id = i, rs_status = status, rs_headers = [], rs_chunks = [], rs_peer = None\<rparr>"

definition demo_sender :: "nat sender" where
  "demo_sender q n = (Inr (demo_response n (if n = 0 then 503 else 200)), n + 1)"

lemma demo_env_ok: "env_ok demo_http_env"
  by (simp add: env_ok_def demo_http_env_def policy_ok_def default_policy_def)

theorem retry_discipline_witness:
  "env_ok demo_http_env \<and>
   (case handle_request demo_sender demo_http_env True (demo_request ''GET'') \<lparr>ht_world = 0, ht_trace = []\<rparr>
    of (res, s') \<Rightarrow>
    (\<exists>t. ht_trace s' = [] @ t
      \<and> 1 \<le> length (sends t) \<and> length (sends t) \<le> rp_max_attempts (he_policy demo_http_env)
      \<and> list_all (repeatable (he_policy demo_http_env) (demo_request ''GET'')) (butlast (sends t))
      \<and> length (sleeps t) + 1 = length (sends t)
      \<and> list_all (\<lambda>d. 0 \<le> d \<and> d \<le> wait_bound (he_policy demo_http_env)) (sleeps t)
      \<and> closed_responses t = discarded (butlast (sends t))
      \<and> comes_to demo_http_env (demo_request ''GET'') (length (sends t)) (last (sends t)) res))"
  using demo_env_ok
    retry_discipline [OF demo_env_ok, where T = demo_sender and apart = True
      and q = "demo_request ''GET''" and s = "\<lparr>ht_world = 0, ht_trace = []\<rparr>"]
  by simp

text \<open>What happens there: one wait of three eighths of a second, and the second answer.\<close>

lemma demo_retry:
  "fst (handle_request demo_sender demo_http_env True (demo_request ''GET'') \<lparr>ht_world = 0, ht_trace = []\<rparr>)
     = Inr (demo_response 1 200)"
  "fst (handle_request demo_sender demo_http_env True (demo_request ''POST'') \<lparr>ht_world = 0, ht_trace = []\<rparr>)
     = Inr (demo_response 0 503)"
  by (code_simp, code_simp)

end
