(* ===== verification/Http_Address.thy ===== *)
theory Http_Address
  imports Json_Value "HOL-Library.Word"
begin

text \<open>
  Internet addresses as the egress policy sees them: the classes that the library's
  \<^theory_text>\<open>ipaddress\<close> assigns, by its tables of networks, and the policy's own networks
  (\<^verbatim>\<open>http/egress_validation.py\<close>, \<^verbatim>\<open>http/egress_resolution.py\<close>, \<^verbatim>\<open>http/client.py\<close>). An address is a
  word of its width; a network is an address and a prefix length.

  From Python 3.13 on, an IPv6 address that maps an IPv4 one is classified as that one in every
  respect, before only as private; the flag \<open>mapped\<close> tells them apart.
\<close>

unbundle bit_operations_syntax

datatype ip = IP4 "32 word" | IP6 "128 word"

type_synonym network = "ip \<times> nat"

definition quad :: "int \<Rightarrow> int \<Rightarrow> int \<Rightarrow> int \<Rightarrow> ip" where
  "quad a b c d = IP4 (word_of_int (((a * 256 + b) * 256 + c) * 256 + d))"

text \<open>An IPv6 address by its first three groups and the number that the other five make.\<close>

definition groups :: "int \<Rightarrow> int \<Rightarrow> int \<Rightarrow> int \<Rightarrow> ip" where
  "groups a b c z = IP6 (word_of_int (((a * 65536 + b) * 65536 + c) * 65536 ^ 5 + z))"

fun in_network :: "ip \<Rightarrow> network \<Rightarrow> bool" where
  "in_network (IP4 a) (IP4 b, len) = (drop_bit (32 - len) a = drop_bit (32 - len) b)"
| "in_network (IP6 a) (IP6 b, len) = (drop_bit (128 - len) a = drop_bit (128 - len) b)"
| "in_network _ _ = False"

definition in_any :: "network list \<Rightarrow> ip \<Rightarrow> bool" where
  "in_any nets a = list_ex (in_network a) nets"

fun ipv4_mapped :: "ip \<Rightarrow> ip option" where
  "ipv4_mapped (IP4 a) = None"
| "ipv4_mapped (IP6 a) = (if drop_bit 32 a = 65535 then Some (IP4 (ucast a)) else None)"

text \<open>The IPv4 address that a check falls to, when it looks through a mapping.\<close>

definition looked_through :: "bool \<Rightarrow> ip \<Rightarrow> ip" where
  "looked_through mapped a = (case ipv4_mapped a of Some b \<Rightarrow> if mapped then b else a | None \<Rightarrow> a)"

section \<open>The classes of the library\<close>

definition loopback_networks :: "network list" where
  "loopback_networks = [(quad 127 0 0 0, 8), (groups 0 0 0 1, 128)]"

definition private_networks :: "network list" where
  "private_networks =
     [(quad 0 0 0 0, 8), (quad 10 0 0 0, 8), (quad 127 0 0 0, 8), (quad 169 254 0 0, 16),
      (quad 172 16 0 0, 12), (quad 192 0 0 0, 24), (quad 192 0 0 170, 31), (quad 192 0 2 0, 24),
      (quad 192 168 0 0, 16), (quad 198 18 0 0, 15), (quad 198 51 100 0, 24), (quad 203 0 113 0, 24),
      (quad 240 0 0 0, 4), (quad 255 255 255 255, 32),
      (groups 0 0 0 1, 128), (groups 0 0 0 0, 128), (groups 0 0 0 0xFFFF00000000, 96),
      (groups 0x64 0xFF9B 1 0, 48), (groups 0x100 0 0 0, 64), (groups 0x2001 0 0 0, 23),
      (groups 0x2001 0xDB8 0 0, 32), (groups 0x2002 0 0 0, 16), (groups 0xFC00 0 0 0, 7),
      (groups 0xFE80 0 0 0, 10)]"

definition private_exceptions :: "network list" where
  "private_exceptions =
     [(quad 192 0 0 9, 32), (quad 192 0 0 10, 32),
      (groups 0x2001 1 0 1, 128), (groups 0x2001 1 0 2, 128), (groups 0x2001 3 0 0, 32),
      (groups 0x2001 4 0x112 0, 48), (groups 0x2001 0x20 0 0, 28), (groups 0x2001 0x30 0 0, 28)]"

definition link_local_networks :: "network list" where
  "link_local_networks = [(quad 169 254 0 0, 16), (groups 0xFE80 0 0 0, 10)]"

definition multicast_networks :: "network list" where
  "multicast_networks = [(quad 224 0 0 0, 4), (groups 0xFF00 0 0 0, 8)]"

definition reserved_networks :: "network list" where
  "reserved_networks =
     [(quad 240 0 0 0, 4), (groups 0 0 0 0, 8), (groups 0x100 0 0 0, 8), (groups 0x200 0 0 0, 7),
      (groups 0x400 0 0 0, 6), (groups 0x800 0 0 0, 5), (groups 0x1000 0 0 0, 4),
      (groups 0x4000 0 0 0, 3), (groups 0x6000 0 0 0, 3), (groups 0x8000 0 0 0, 3),
      (groups 0xA000 0 0 0, 3), (groups 0xC000 0 0 0, 3), (groups 0xE000 0 0 0, 4),
      (groups 0xF000 0 0 0, 5), (groups 0xF800 0 0 0, 6), (groups 0xFE00 0 0 0, 9)]"

definition unspecified :: "ip list" where
  "unspecified = [quad 0 0 0 0, groups 0 0 0 0]"

definition is_loopback_ip :: "bool \<Rightarrow> ip \<Rightarrow> bool" where
  "is_loopback_ip mapped a = in_any loopback_networks (looked_through mapped a)"

definition is_private_ip :: "ip \<Rightarrow> bool" where
  "is_private_ip a =
     (let b = looked_through True a in in_any private_networks b \<and> \<not> in_any private_exceptions b)"

definition is_link_local_ip :: "bool \<Rightarrow> ip \<Rightarrow> bool" where
  "is_link_local_ip mapped a = in_any link_local_networks (looked_through mapped a)"

definition is_multicast_ip :: "bool \<Rightarrow> ip \<Rightarrow> bool" where
  "is_multicast_ip mapped a = in_any multicast_networks (looked_through mapped a)"

definition is_reserved_ip :: "bool \<Rightarrow> ip \<Rightarrow> bool" where
  "is_reserved_ip mapped a = in_any reserved_networks (looked_through mapped a)"

definition is_unspecified_ip :: "bool \<Rightarrow> ip \<Rightarrow> bool" where
  "is_unspecified_ip mapped a \<longleftrightarrow> looked_through mapped a \<in> set unspecified"

section \<open>The policy's networks\<close>

definition shared_address_space :: network where
  "shared_address_space = (quad 100 64 0 0, 10)"

text \<open>\<open>_is_shared_address\<close> looks through a mapping, membership in the network does not.\<close>

definition is_shared_address :: "ip \<Rightarrow> bool" where
  "is_shared_address a = in_network (looked_through True a) shared_address_space"

definition allowed_private_networks :: "network list" where
  "allowed_private_networks =
     [(quad 10 0 0 0, 8), (quad 172 16 0 0, 12), (quad 192 168 0 0, 16), (quad 100 64 0 0, 10),
      (groups 0xFC00 0 0 0, 7)]"

definition is_allowed_private :: "bool \<Rightarrow> ip \<Rightarrow> bool" where
  "is_allowed_private mapped a \<longleftrightarrow> is_loopback_ip mapped a \<or> in_any allowed_private_networks a"

definition metadata_addresses :: "ip list" where
  "metadata_addresses = [quad 169 254 169 254, groups 0xFD00 0xEC2 0 0x254]"

text \<open>\<open>egress_ip_is_blocked\<close> on a parsed address.\<close>

definition blocked_ip :: "bool \<Rightarrow> bool \<Rightarrow> ip \<Rightarrow> bool" where
  "blocked_ip mapped allow_loopback a =
     (if is_loopback_ip mapped a then \<not> allow_loopback
      else is_shared_address a \<or> is_private_ip a \<or> is_link_local_ip mapped a \<or> is_reserved_ip mapped a
        \<or> is_multicast_ip mapped a \<or> is_unspecified_ip mapped a \<or> a \<in> set metadata_addresses)"

definition local_networks :: "network list" where
  "local_networks =
     [(quad 10 0 0 0, 8), (quad 172 16 0 0, 12), (quad 192 168 0 0, 16), (quad 127 0 0 0, 8),
      (quad 169 254 0 0, 16), (groups 0 0 0 1, 128), (groups 0xFC00 0 0 0, 7), (groups 0xFE80 0 0 0, 10)]"

definition airgap_local_ip :: "ip \<Rightarrow> bool" where
  "airgap_local_ip a = in_any local_networks (looked_through True a)"

section \<open>What the policy keeps out\<close>

text \<open>
  An address in the private ranges is blocked under either reading of mapped addresses, also when
  it hides behind a mapping, unless it is a loopback address that is allowed.
\<close>

lemma blocked_private:
  "is_private_ip a \<Longrightarrow> \<not> is_loopback_ip mapped a \<Longrightarrow> blocked_ip mapped l a"
  by (simp add: blocked_ip_def)

lemma mapped_private: "ipv4_mapped a = Some b \<Longrightarrow> is_private_ip a = is_private_ip b"
  by (cases a; cases b) (auto simp: is_private_ip_def looked_through_def split: if_splits)

text \<open>The metadata service of the clouds is blocked, and an ordinary public address is not.\<close>

lemma metadata_blocked:
  "blocked_ip False l (quad 169 254 169 254)" "blocked_ip True l (quad 169 254 169 254)"
  "blocked_ip False l (groups 0xFD00 0xEC2 0 0x254)"
  by (code_simp, code_simp, code_simp)

lemma public_not_blocked:
  "\<not> blocked_ip False l (quad 93 184 216 34)" "\<not> blocked_ip True l (quad 8 8 8 8)"
  by (code_simp, code_simp)

text \<open>A loopback address behind a mapping is loopback only for the newer library.\<close>

lemma mapped_loopback:
  "blocked_ip False True (groups 0 0 0 0xFFFF7F000001)"
  "\<not> blocked_ip True True (groups 0 0 0 0xFFFF7F000001)"
  by (code_simp, code_simp)

end
