(* ===== verification/Http_Egress.thy ===== *)
theory Http_Egress
  imports Http_Flow Http_Address
begin

text \<open>
  Where a governed client may connect: the policy on hosts (\<^verbatim>\<open>http/egress_policy.py\<close>), the check of
  URLs and of what they resolve to (\<^verbatim>\<open>http/egress_validation.py\<close>,
  \<^verbatim>\<open>http/egress_resolution.py\<close>), the pinned transport, which resolves a request once and dials
  only the address it checked (\<^verbatim>\<open>http/egress.py\<close>), and the air-gap check
  (\<^verbatim>\<open>http/client.py\<close>).

  The reading and writing of address texts is the library's and the resolver is the network's;
  both are parameters. The resolver answers from the world, so it may answer differently each time.
\<close>

record net_lib =
  nl_parse :: "string \<Rightarrow> ip option"
  nl_text :: "ip \<Rightarrow> string"
  nl_urls :: url_lib
  nl_mapped :: bool

definition strip_dots :: "string \<Rightarrow> string" where
  "strip_dots s = rev (dropWhile (\<lambda>c. c = CHR ''.'') (rev s))"

definition host_name :: "string \<Rightarrow> string" where
  "host_name s = strip_dots (map lower_char s)"

section \<open>The policy on hosts\<close>

definition is_alnum :: "char \<Rightarrow> bool" where
  "is_alnum c = (let n = (of_char c :: nat) in 48 \<le> n \<and> n \<le> 57 \<or> 65 \<le> n \<and> n \<le> 90 \<or> 97 \<le> n \<and> n \<le> 122)"

definition label_is_valid :: "string \<Rightarrow> bool" where
  "label_is_valid s \<longleftrightarrow> s \<noteq> [] \<and> length s \<le> 63 \<and> hd s \<noteq> CHR ''-'' \<and> last s \<noteq> CHR ''-''
     \<and> list_all (\<lambda>c. is_alnum c \<or> c = CHR ''-'') s"

definition is_exact_hostname :: "net_lib \<Rightarrow> string \<Rightarrow> bool" where
  "is_exact_hostname L host \<longleftrightarrow>
     host \<noteq> [] \<and> length host \<le> 253 \<and> list_all (\<lambda>c. 33 \<le> (of_char c :: nat)) host
     \<and> list_all (\<lambda>c. c \<notin> set ''/@*?#[]'') host
     \<and> (nl_parse L host \<noteq> None \<or> list_all label_is_valid (py_split CHR ''.'' host))"

definition normalize_private_host :: "net_lib \<Rightarrow> string \<Rightarrow> string + string" where
  "normalize_private_host L raw =
     (let host = host_name (py_strip raw) in
      andR (refuse_if (\<not> list_all (\<lambda>c. (of_char c :: nat) < 128) host) ''private egress hosts must be ASCII'')
      (andR (refuse_if (\<not> is_exact_hostname L host) ''private egress hosts must be exact hostnames'')
        (Inr host)))"

definition normalize_private_hosts :: "net_lib \<Rightarrow> string list \<Rightarrow> string + string list" where
  "normalize_private_hosts L hosts =
     bindR (mapR (normalize_private_host L) hosts) (\<lambda>hs.
       andR (refuse_if (256 < length (remdups hs)) ''private egress host allowlist is too large'')
         (Inr (remdups hs)))"

record egress_options =
  eg_pin :: bool
  eg_private_hosts :: "string list"
  eg_loopback :: bool

definition host_is_loopback :: "net_lib \<Rightarrow> string \<Rightarrow> bool" where
  "host_is_loopback L host =
     (case nl_parse L host of None \<Rightarrow> host = ''localhost'' | Some a \<Rightarrow> is_loopback_ip (nl_mapped L) a)"

definition host_is_private :: "net_lib \<Rightarrow> string \<Rightarrow> bool" where
  "host_is_private L host =
     (case nl_parse L host of
        None \<Rightarrow> False
      | Some a \<Rightarrow> is_private_ip a \<and> \<not> is_loopback_ip (nl_mapped L) a)"

definition check_egress_destination :: "net_lib \<Rightarrow> string \<Rightarrow> egress_options \<Rightarrow> string + unit" where
  "check_egress_destination L raw opts =
     (if \<not> eg_pin opts then Inr ()
      else let host = host_name raw in
        bindR (normalize_private_hosts L (eg_private_hosts opts)) (\<lambda>allowed.
          if host_is_loopback L host
          then refuse_if (\<not> eg_loopback opts \<and> host \<notin> set allowed)
            (''loopback destination is not permitted: '' @ host)
          else refuse_if (host_is_private L host \<and> host \<notin> set allowed)
            (''private-network destination is not permitted: '' @ host)))"

text \<open>\<open>PinnedEgressViolation\<close>, a transport error.\<close>

definition violation :: "string \<Rightarrow> http_exn" where
  "violation msg =
     TransportFailure \<lparr>fl_class = OtherTransport ''PinnedEgressViolation'',
       fl_objects = [\<lparr>eo_certificate = False, eo_text = msg, eo_cause = None, eo_context = None\<rparr>],
       fl_root = 0\<rparr>"

definition rejected :: http_exn where
  "rejected = violation ''outbound destination was rejected''"

text \<open>\<open>_check_pinned_base_host\<close>: the host a client is built for, before anything is resolved.\<close>

definition check_pinned_base_host :: "net_lib \<Rightarrow> string \<Rightarrow> egress_options \<Rightarrow> http_exn + unit" where
  "check_pinned_base_host L host opts =
     (let name = host_name host in
      case normalize_private_hosts L (eg_private_hosts opts) of
        Inl e \<Rightarrow> Inl (PlainExn ''ValueError'' e)
      | Inr allowed \<Rightarrow>
          (case check_egress_destination L name (opts\<lparr>eg_private_hosts := allowed\<rparr>) of
             Inl e \<Rightarrow> Inl rejected
           | Inr u \<Rightarrow>
               (case nl_parse L name of
                  None \<Rightarrow> Inr ()
                | Some a \<Rightarrow>
                    refuse_if
                      (if name \<in> set allowed then \<not> is_allowed_private (nl_mapped L) a
                       else blocked_ip (nl_mapped L) (eg_loopback opts) a \<or> in_network a shared_address_space)
                      rejected)))"

section \<open>URLs and what they resolve to\<close>

record egress_decision =
  ed_allowed :: bool
  ed_reason :: string
  ed_ips :: "string list"

definition denied :: "string \<Rightarrow> egress_decision" where
  "denied why = \<lparr>ed_allowed = False, ed_reason = why, ed_ips = []\<rparr>"

definition granted :: "string \<Rightarrow> string list \<Rightarrow> egress_decision" where
  "granted why ips = \<lparr>ed_allowed = True, ed_reason = why, ed_ips = ips\<rparr>"

definition parsed_rejection :: "url_parts \<Rightarrow> string option" where
  "parsed_rejection p =
     (if up_scheme p \<notin> {''http'', ''https''} then Some ''unsupported scheme''
      else if up_username p \<noteq> None \<or> up_password p \<noteq> None then Some ''embedded URL credentials are not allowed''
      else if or_empty (up_hostname p) = [] then Some ''missing host''
      else if up_port p = BadPort then Some ''invalid port''
      else None)"

text \<open>\<open>egress_ip_is_blocked\<close>: text that is no address is blocked.\<close>

definition text_is_blocked :: "net_lib \<Rightarrow> bool \<Rightarrow> string \<Rightarrow> bool" where
  "text_is_blocked L allow_loopback t =
     (case nl_parse L t of None \<Rightarrow> True | Some a \<Rightarrow> blocked_ip (nl_mapped L) allow_loopback a)"

text \<open>The outer \<open>None\<close> is a URL that cannot be split, whose \<^theory_text>\<open>ValueError\<close> propagates.\<close>

definition validate_base_url :: "net_lib \<Rightarrow> bool \<Rightarrow> string \<Rightarrow> (egress_decision \<times> string) option" where
  "validate_base_url L allow_loopback url =
     (if url = [] then Some (denied ''empty url'', [])
      else case ul_split (nl_urls L) url of
             None \<Rightarrow> None
           | Some p \<Rightarrow>
               (case parsed_rejection p of
                  Some why \<Rightarrow> Some (denied why, [])
                | None \<Rightarrow>
                    (let host = or_empty (up_hostname p) in
                     Some (if nl_parse L host = None then granted ''hostname (resolve to verify)'' []
                           else if text_is_blocked L allow_loopback host then denied ''blocked IP literal''
                           else granted ''allowed IP literal'' [host], host))))"

definition max_resolved :: nat where
  "max_resolved = 64"

text \<open>\<open>_collect_resolved_ips\<close>: an answer without an address is \<open>None\<close>.\<close>

fun collect_ips :: "net_lib \<Rightarrow> nat \<Rightarrow> string list \<Rightarrow> string option list \<Rightarrow> string + string list" where
  "collect_ips L n ips [] = Inr ips"
| "collect_ips L n ips (info # infos) =
     (if max_resolved < n then Inl ''too many addresses resolved''
      else case (case info of None \<Rightarrow> None | Some t \<Rightarrow> nl_parse L t) of
             None \<Rightarrow> Inl ''invalid address resolved''
           | Some a \<Rightarrow>
               collect_ips L (n + 1) (if nl_text L a \<in> set ips then ips else ips @ [nl_text L a]) infos)"

definition decide_resolved :: "net_lib \<Rightarrow> bool \<Rightarrow> string option list \<Rightarrow> egress_decision" where
  "decide_resolved L allow_loopback infos =
     (case collect_ips L 1 [] infos of
        Inl why \<Rightarrow> denied why
      | Inr ips \<Rightarrow>
          (if ips = [] then denied ''no addresses resolved''
           else if list_ex (text_is_blocked L allow_loopback) ips then denied ''resolves to blocked address''
           else granted ''all resolved IPs allowed'' ips))"

text \<open>The resolver: \<open>None\<close> is its \<^theory_text>\<open>OSError\<close>.\<close>

type_synonym 'w resolver = "string \<Rightarrow> nat option \<Rightarrow> 'w \<Rightarrow> string option list option \<times> 'w"

definition resolve :: "'w resolver \<Rightarrow> string \<Rightarrow> nat option \<Rightarrow> ('w, string option list option) http_prog" where
  "resolve R host port =
     (\<lambda>s. case R host port (ht_world s) of (answers, w) \<Rightarrow> (Inr answers, s\<lparr>ht_world := w\<rparr>))"

definition validate_base_url_resolved ::
  "net_lib \<Rightarrow> 'w resolver \<Rightarrow> bool \<Rightarrow> string \<Rightarrow> ('w, egress_decision) http_prog" where
  "validate_base_url_resolved L R allow_loopback url =
     (case validate_base_url L allow_loopback url of
        None \<Rightarrow> raiseP (PlainExn ''ValueError'' [])
      | Some (d, host) \<Rightarrow>
          (if \<not> ed_allowed d \<or> ed_ips d \<noteq> [] then returnP d
           else bindP (resolve R host None) (\<lambda>answers. case answers of
                  None \<Rightarrow> returnP (denied ''DNS resolution failed'')
                | Some infos \<Rightarrow> returnP (decide_resolved L allow_loopback infos))))"

definition resolve_private_host ::
  "net_lib \<Rightarrow> 'w resolver \<Rightarrow> string \<Rightarrow> nat option \<Rightarrow> ('w, string list) http_prog" where
  "resolve_private_host L R host port =
     bindP (resolve R host port) (\<lambda>answers. case answers of
        None \<Rightarrow> raiseP (violation ''outbound DNS resolution failed'')
      | Some infos \<Rightarrow>
          (case collect_ips L 1 [] infos of
             Inl why \<Rightarrow>
               raiseP (violation (if starts_text ''too many'' why
                 then ''outbound DNS result exceeded its boundary'' else ''outbound DNS result was invalid''))
           | Inr ips \<Rightarrow>
               liftP (andR (refuse_if (ips = []) (violation ''outbound DNS resolution returned no address''))
                 (andR (refuse_if
                     (list_ex (\<lambda>t. case nl_parse L t of None \<Rightarrow> True
                        | Some a \<Rightarrow> \<not> is_allowed_private (nl_mapped L) a) ips)
                     (violation ''configured private host resolved outside the private boundary''))
                   (Inr ips)))))"

definition candidate_ips ::
  "net_lib \<Rightarrow> 'w resolver \<Rightarrow> string list \<Rightarrow> bool \<Rightarrow> http_url \<Rightarrow> string \<Rightarrow> ('w, string list) http_prog" where
  "candidate_ips L R allowed allow_loopback u host =
     (if host \<in> set allowed then resolve_private_host L R host (hu_port u)
      else bindP (validate_base_url_resolved L R allow_loopback (ul_text (nl_urls L) u)) (\<lambda>d.
        liftP (andR (refuse_if (\<not> ed_allowed d \<or> ed_ips d = []) rejected)
          (andR (refuse_if
              (list_ex (\<lambda>t. case nl_parse L t of None \<Rightarrow> True
                 | Some a \<Rightarrow> in_network a shared_address_space) (ed_ips d)) rejected)
            (Inr (ed_ips d))))))"

definition max_url_length :: nat where
  "max_url_length = 8192"

definition checked_logical_target :: "net_lib \<Rightarrow> http_url \<Rightarrow> http_exn + (string \<times> string)" where
  "checked_logical_target L u =
     (let scheme = map lower_char (hu_scheme u); host = host_name (hu_host u); t = ul_text (nl_urls L) u in
      andR (refuse_if (max_url_length < length t) (violation ''outbound URL exceeded its security boundary''))
      (andR (refuse_if (scheme \<notin> {''http'', ''https''} \<or> host = []) (violation ''outbound URL was rejected''))
        (case ul_split (nl_urls L) t of
           None \<Rightarrow> Inl (PlainExn ''ValueError'' [])
         | Some p \<Rightarrow>
             andR (refuse_if (up_username p \<noteq> None \<or> up_password p \<noteq> None)
                 (violation ''embedded outbound credentials are not permitted''))
               (Inr (scheme, host)))))"

section \<open>The pinned transport\<close>

type_synonym pin_key = "string \<times> nat"

definition default_of :: "string \<Rightarrow> nat" where
  "default_of scheme = (if scheme = ''https'' then 443 else 80)"

definition pin_port :: "string \<Rightarrow> http_url \<Rightarrow> nat" where
  "pin_port scheme u = (case hu_port u of None \<Rightarrow> default_of scheme | Some p \<Rightarrow> if p = 0 then default_of scheme else p)"

text \<open>The request rewritten to the address, with the name kept in \<^verbatim>\<open>Host\<close> and in SNI.\<close>

definition pinned_to :: "net_lib \<Rightarrow> string \<Rightarrow> string \<Rightarrow> string \<Rightarrow> http_request \<Rightarrow> http_request" where
  "pinned_to L scheme host ip q =
     q\<lparr>rq_headers := dict_set ''host'' (ul_netloc (nl_urls L) (rq_url q)) (rq_headers q),
       rq_url := (rq_url q)\<lparr>hu_host := ip\<rparr>,
       rq_sni := if scheme = ''https'' then Some host else rq_sni q\<rparr>"

definition resolve_pinned_request ::
  "net_lib \<Rightarrow> 'w resolver \<Rightarrow> string list \<Rightarrow> bool \<Rightarrow> http_request \<Rightarrow>
     ('w, (string \<times> string \<times> pin_key) \<times> http_request) http_prog" where
  "resolve_pinned_request L R allowed allow_loopback q =
     bindP (liftP (checked_logical_target L (rq_url q))) (\<lambda>(scheme, host).
     bindP (candidate_ips L R allowed allow_loopback (rq_url q) host) (\<lambda>ips.
       (let ip = hd ips in
        thenP (liftP (refuse_if
            (scheme = ''http'' \<and> \<not> ((case nl_parse L ip of None \<Rightarrow> False
                 | Some a \<Rightarrow> is_loopback_ip (nl_mapped L) a) \<or> host \<in> set allowed))
            (violation ''unencrypted public egress is not permitted'')))
          (returnP ((host, ip, (scheme @ '':'' @ ip, pin_port scheme (rq_url q))),
            pinned_to L scheme host ip q)))))"

type_synonym 'w pin_state = "'w http_state \<times> (pin_key, string) dict"

definition on_http :: "('w, 'a) http_prog \<Rightarrow> ('w pin_state, http_exn, 'a) prog" where
  "on_http m = (\<lambda>(s, pins). case m s of (r, s') \<Rightarrow> (r, (s', pins)))"

text \<open>\<open>bind\<close>: a connection that may be reused belongs to the first host that was pinned to it.\<close>

definition bind_pin :: "string \<Rightarrow> pin_key \<Rightarrow> ('w pin_state, http_exn, unit) prog" where
  "bind_pin host key = (\<lambda>(s, pins).
     (case map_of pins key of
        None \<Rightarrow> (Inr (), (s, dict_set key host pins))
      | Some prior \<Rightarrow>
          (refuse_if (prior \<noteq> host) (violation ''outbound connection reuse crossed origins''), (s, pins))))"

definition peer_check :: "net_lib \<Rightarrow> http_response \<Rightarrow> string \<Rightarrow> http_exn + unit" where
  "peer_check L r ip =
     (case rs_peer r of
        None \<Rightarrow> Inl (violation ''outbound peer identity was unavailable'')
      | Some peer \<Rightarrow>
          (case (case peer of None \<Rightarrow> None | Some t \<Rightarrow> nl_parse L t) of
             None \<Rightarrow> Inl (violation ''outbound peer identity was invalid'')
           | Some a \<Rightarrow> refuse_if (nl_text L a \<noteq> ip) (violation ''outbound peer did not match its DNS pin'')))"

record pin_config =
  pc_allowed :: "string list"
  pc_loopback :: bool
  pc_verify_peer :: bool

definition pinned_request ::
  "net_lib \<Rightarrow> 'w resolver \<Rightarrow> pin_config \<Rightarrow> (http_request \<Rightarrow> ('w, http_response) http_prog) \<Rightarrow> http_request \<Rightarrow>
     ('w pin_state, http_exn, http_response) prog" where
  "pinned_request L R C inner q =
     bindP (on_http (resolve_pinned_request L R (pc_allowed C) (pc_loopback C) q)) (\<lambda>((host, ip, key), q').
     thenP (bind_pin host key)
     (bindP (on_http (inner q')) (\<lambda>r.
        if pc_verify_peer C
        then (case peer_check L r ip of
                Inr u \<Rightarrow> returnP r
              | Inl e \<Rightarrow> thenP (on_http (emit (Closed (rs_id r)))) (raiseP e))
        else returnP r)))"

section \<open>What the pinned transport lets through\<close>

text \<open>The rewritten request goes to an address that the policy admits, and keeps all else.\<close>

definition request_scheme :: "http_request \<Rightarrow> string" where
  "request_scheme q = map lower_char (hu_scheme (rq_url q))"

definition request_host :: "http_request \<Rightarrow> string" where
  "request_host q = host_name (hu_host (rq_url q))"

definition admitted :: "net_lib \<Rightarrow> pin_config \<Rightarrow> http_request \<Rightarrow> http_request \<Rightarrow> bool" where
  "admitted L C q q' \<longleftrightarrow>
     (case nl_parse L (hu_host (rq_url q')) of
        None \<Rightarrow> False
      | Some a \<Rightarrow>
          (if request_host q \<in> set (pc_allowed C) then is_allowed_private (nl_mapped L) a
           else \<not> blocked_ip (nl_mapped L) (pc_loopback C) a \<and> \<not> in_network a shared_address_space)
          \<and> (request_scheme q = ''https''
             \<or> request_scheme q = ''http''
               \<and> (is_loopback_ip (nl_mapped L) a \<or> request_host q \<in> set (pc_allowed C))))
     \<and> q' = pinned_to L (request_scheme q) (request_host q) (hu_host (rq_url q')) q"

definition key_of :: "http_request \<Rightarrow> pin_key" where
  "key_of q = (request_scheme q @ '':'' @ hu_host (rq_url q), pin_port (request_scheme q) (rq_url q))"

lemma checked_logical_target_Inr:
  "checked_logical_target L u = Inr (scheme, host) \<Longrightarrow>
     scheme = map lower_char (hu_scheme u) \<and> host = host_name (hu_host u) \<and> scheme \<in> {''http'', ''https''}"
  by (auto simp: checked_logical_target_def Let_def result_iff split: option.splits)

text \<open>The addresses a request may go to, under the policy that applies to its host.\<close>

definition admits :: "net_lib \<Rightarrow> pin_config \<Rightarrow> string \<Rightarrow> ip \<Rightarrow> bool" where
  "admits L C host a \<longleftrightarrow>
     (if host \<in> set (pc_allowed C) then is_allowed_private (nl_mapped L) a
      else \<not> blocked_ip (nl_mapped L) (pc_loopback C) a \<and> \<not> in_network a shared_address_space)"

lemma private_ips_admitted:
  assumes "resolve_private_host L R host port s = (Inr ips, s')" "t \<in> set ips"
  shows "\<exists>a. nl_parse L t = Some a \<and> is_allowed_private (nl_mapped L) a" and "ips \<noteq> []"
  using assms
  by (fastforce simp: resolve_private_host_def run_iff result_iff list_ex_iff split: option.splits sum.splits)+

lemma validated_ips:
  assumes "validate_base_url_resolved L R allow_loopback url s = (Inr d, s')" "ed_allowed d" "t \<in> set (ed_ips d)"
  shows "\<not> text_is_blocked L allow_loopback t"
proof -
  obtain d0 host where v: "validate_base_url L allow_loopback url = Some (d0, host)"
    using assms(1) by (cases "validate_base_url L allow_loopback url")
      (auto simp: validate_base_url_resolved_def run_iff)
  show ?thesis
  proof (cases "\<not> ed_allowed d0 \<or> ed_ips d0 \<noteq> []")
    case True
    then have "d = d0" using assms(1) v by (simp add: validate_base_url_resolved_def run_iff)
    then show ?thesis
      using v assms(2,3)
      by (auto simp: validate_base_url_def denied_def granted_def Let_def split: if_splits option.splits)
  next
    case False
    then obtain infos where "d = decide_resolved L allow_loopback infos \<or> d = denied ''DNS resolution failed''"
      using assms(1) v by (auto simp: validate_base_url_resolved_def run_iff split: option.splits)
    then show ?thesis
      using assms(2,3)
      by (auto simp: decide_resolved_def denied_def granted_def list_ex_iff split: sum.splits if_splits)
  qed
qed

lemma candidate_ips_admitted:
  assumes "candidate_ips L R (pc_allowed C) (pc_loopback C) u host s = (Inr ips, s')"
  shows "ips \<noteq> [] \<and> list_all (\<lambda>t. case nl_parse L t of None \<Rightarrow> False | Some a \<Rightarrow> admits L C host a) ips"
proof (cases "host \<in> set (pc_allowed C)")
  case True
  then have r: "resolve_private_host L R host (hu_port u) s = (Inr ips, s')"
    using assms by (simp add: candidate_ips_def)
  then have "ips \<noteq> []"
    by (auto simp: resolve_private_host_def run_iff result_iff split: option.splits sum.splits)
  with private_ips_admitted(1) [OF r] True show ?thesis
    by (fastforce simp: list_all_iff admits_def)
next
  case False
  then obtain d where d: "validate_base_url_resolved L R (pc_loopback C) (ul_text (nl_urls L) u) s = (Inr d, s')"
      "ed_allowed d" "ed_ips d \<noteq> []" "ips = ed_ips d"
    and shared: "\<not> list_ex (\<lambda>t. case nl_parse L t of None \<Rightarrow> True
                 | Some a \<Rightarrow> in_network a shared_address_space) (ed_ips d)"
    using assms by (auto simp: candidate_ips_def run_iff result_iff)
  have "case nl_parse L t of None \<Rightarrow> False | Some a \<Rightarrow> admits L C host a" if "t \<in> set ips" for t
    using validated_ips [OF d(1,2)] shared that False
    by (fastforce simp: d(4) admits_def text_is_blocked_def list_ex_iff split: option.splits)
  then show ?thesis using d by (auto simp: list_all_iff)
qed

lemma resolve_pinned_admitted:
  assumes "resolve_pinned_request L R (pc_allowed C) (pc_loopback C) q s = (Inr ((host, ip, key), q'), s')"
  shows "admitted L C q q' \<and> host = request_host q \<and> ip = hu_host (rq_url q') \<and> key = key_of q'
    \<and> (request_scheme q' = ''https'' \<longrightarrow> rq_sni q' = Some host)"
proof -
  obtain scheme ips where
    target: "checked_logical_target L (rq_url q) = Inr (scheme, host)"
    and ips: "candidate_ips L R (pc_allowed C) (pc_loopback C) (rq_url q) host s = (Inr ips, s')"
    and ip: "ip = hd ips" and key: "key = (scheme @ '':'' @ ip, pin_port scheme (rq_url q))"
    and q': "q' = pinned_to L scheme host ip q"
    and plain: "\<not> (scheme = ''http'' \<and> \<not> ((case nl_parse L ip of None \<Rightarrow> False
                 | Some a \<Rightarrow> is_loopback_ip (nl_mapped L) a) \<or> host \<in> set (pc_allowed C)))"
    using assms by (auto simp: resolve_pinned_request_def run_iff result_iff Let_def split: prod.splits)
  from candidate_ips_admitted [OF ips] ip obtain a where
    a: "nl_parse L ip = Some a" "admits L C host a"
    by (cases ips) (auto split: option.splits)
  from checked_logical_target_Inr [OF target]
  have t: "scheme = request_scheme q" "host = request_host q" "scheme \<in> {''http'', ''https''}"
    by (auto simp: request_scheme_def request_host_def)
  have scheme: "request_scheme q' = scheme" and h: "hu_host (rq_url q') = ip"
    using t by (simp_all add: q' pinned_to_def request_scheme_def)
  have "admitted L C q q'"
    using a t plain unfolding admitted_def h by (auto simp: admits_def q')
  then show ?thesis
    using t scheme h by (auto simp: q' pinned_to_def key key_of_def pin_port_def)
qed

text \<open>A governed request sends nothing but the request it was given, without the cookies it drops.\<close>

lemma attempt_run_sends:
  "attempt_run E apart q a res t \<Longrightarrow> Sent q' x \<in> set t \<Longrightarrow> q' = isolated_request apart q"
  by (induction rule: attempt_run.induct) (auto simp: closes_def split: option.splits)

definition sent_requests :: "http_event list \<Rightarrow> http_request list" where
  "sent_requests t = concat (map (\<lambda>e. case e of Sent q x \<Rightarrow> [q] | _ \<Rightarrow> []) t)"

lemma sent_requests_append [simp]: "sent_requests (t @ t') = sent_requests t @ sent_requests t'"
  by (simp add: sent_requests_def)

lemma attempt_run_requests:
  assumes "attempt_run E apart q a res t"
  shows "list_all (\<lambda>x. x = isolated_request apart q) (sent_requests t)"
  using attempt_run_sends [OF assms]
  by (fastforce simp: list_all_iff sent_requests_def split: http_event.splits)

text \<open>Resolving leaves the trace alone.\<close>

lemma resolve_preserves [preserves_rules]: "preserves (\<lambda>s. ht_trace s = tr) (resolve R host port)"
  by (auto simp: preserves_def resolve_def split: prod.splits)

lemma resolving_preserves:
  "preserves (\<lambda>s. ht_trace s = tr) (resolve_pinned_request L R al lo q)"
proof -
  have priv: "preserves (\<lambda>s. ht_trace s = tr) (resolve_private_host L R host port)" for host port
    unfolding resolve_private_host_def
    by (intro preserves_rules) (auto split: option.split sum.split intro: preserves_rules)
  have pub: "preserves (\<lambda>s. ht_trace s = tr) (validate_base_url_resolved L R lo url)" for url
    unfolding validate_base_url_resolved_def
    by (auto split: option.split intro!: preserves_rules)
  have "preserves (\<lambda>s. ht_trace s = tr) (candidate_ips L R al lo u host)" for u host
    unfolding candidate_ips_def by (intro preserves_rules priv pub)
  then show ?thesis
    unfolding resolve_pinned_request_def Let_def
    by (auto split: prod.split intro!: preserves_rules)
qed

text \<open>A pinned request is either refused before anything is sent, or sent to one admitted address.\<close>

lemma pinned_request_cases:
  assumes "pinned_request L R C (handle_request T E apart) q (s, pins) = (res, (s', pins'))"
  obtains (refused) e where "res = Inl e" "ht_trace s' = ht_trace s" "pins' = pins"
  | (sent) q' t where "admitted L C q q'"
      "ht_trace s' = ht_trace s @ t" "list_all (\<lambda>x. x = isolated_request apart q') (sent_requests t)"
      "map_of pins' (key_of q') = Some (request_host q)"
      "request_scheme q' = ''https'' \<longrightarrow> rq_sni q' = Some (request_host q)"
      "pins' = pins \<or> map_of pins (key_of q') = None \<and> pins' = dict_set (key_of q') (request_host q) pins"
      "case res of Inl e \<Rightarrow> True | Inr r \<Rightarrow> pc_verify_peer C \<longrightarrow> peer_check L r (hu_host (rq_url q')) = Inr ()"
proof -
  have keeps: "ht_trace (snd (resolve_pinned_request L R al lo q s)) = ht_trace s" for al lo
    using resolving_preserves [of "ht_trace s" L R al lo q] by (simp add: preserves_def)
  obtain r0 s1 where res: "resolve_pinned_request L R (pc_allowed C) (pc_loopback C) q s = (r0, s1)"
    by (cases "resolve_pinned_request L R (pc_allowed C) (pc_loopback C) q s")
  have s1: "ht_trace s1 = ht_trace s" using keeps [of "pc_allowed C" "pc_loopback C"] by (simp add: res)
  show thesis
  proof (cases r0)
    case (Inl e)
    with assms res s1 show thesis
      by (intro refused [of e]) (auto simp: pinned_request_def on_http_def bindP_def)
  next
    case (Inr y)
    then obtain host ip key q' where y: "y = ((host, ip, key), q')" by (cases y) auto
    note adm = resolve_pinned_admitted [OF res [unfolded Inr y]]
    show thesis
    proof (cases "map_of pins key \<noteq> None \<and> map_of pins key \<noteq> Some host")
      case True
      with assms res s1 show thesis
        by (intro refused)
          (auto simp: pinned_request_def on_http_def bindP_def thenP_def bind_pin_def Inr y)
    next
      case False
      define pins1 where "pins1 = (if map_of pins key = None then dict_set key host pins else pins)"
      have bind: "bind_pin host key (s1, pins) = (Inr (), (s1, pins1))"
        using False by (auto simp: bind_pin_def pins1_def split: option.splits)
      obtain r1 s2 where inner: "handle_request T E apart q' s1 = (r1, s2)"
        by (cases "handle_request T E apart q' s1")
      obtain t where t: "ht_trace s2 = ht_trace s @ t" "attempt_run E apart q' 1 r1 t"
        using handle_request_follows [of T E apart q' s1] by (auto simp: inner s1)
      note sends = attempt_run_requests [OF t(2)]
      have tail: "(case r1 of Inl e \<Rightarrow> (Inl e, (s2, pins1))
         | Inr r \<Rightarrow> (if pc_verify_peer C
             then (case peer_check L r ip of Inr u \<Rightarrow> returnP r
              | Inl e \<Rightarrow> thenP (on_http (emit (Closed (rs_id r)))) (raiseP e))
             else returnP r) (s2, pins1)) = (res, (s', pins'))"
        using assms by (simp add: pinned_request_def on_http_def bindP_def thenP_def res Inr y bind inner
            split: sum.splits)
      have pins': "pins' = pins1"
        using tail by (auto simp: on_http_def emit_def prog_defs split: sum.splits if_splits)
      obtain t' where t': "ht_trace s' = ht_trace s @ t @ t'" "sent_requests t' = []"
        "case res of Inl e \<Rightarrow> True | Inr r \<Rightarrow> pc_verify_peer C \<longrightarrow> peer_check L r ip = Inr ()"
      proof (cases r1)
        case (Inl e)
        with tail t(1) that [of "[]"] show thesis by (auto simp: sent_requests_def)
      next
        case r1: (Inr r)
        show thesis
        proof (cases "pc_verify_peer C \<and> (\<exists>e. peer_check L r ip = Inl e)")
          case True
          with tail t(1) r1 that [of "[Closed (rs_id r)]"] show thesis
            by (auto simp: on_http_def emit_def prog_defs sent_requests_def)
        next
          case False
          with tail t(1) r1 that [of "[]"] show thesis
            by (cases "peer_check L r ip") (auto simp: returnP_def sent_requests_def split: if_splits)
        qed
      qed
      show thesis
      proof (rule sent [of q' "t @ t'"])
        show "pins' = pins \<or> map_of pins (key_of q') = None \<and> pins' = dict_set (key_of q') (request_host q) pins"
          using adm by (auto simp: pins' pins1_def)
        show "map_of pins' (key_of q') = Some (request_host q)"
          using adm False by (auto simp: pins' pins1_def)
      qed (use adm t' sends in auto)
    qed
  qed
qed

section \<open>Connections and the names they belong to\<close>

text \<open>Every request sent so far is pinned, and one sent over TLS names the host its pin belongs to.\<close>

definition pins_cover :: "(pin_key, string) dict \<Rightarrow> http_event list \<Rightarrow> bool" where
  "pins_cover pins t \<longleftrightarrow>
     list_all (\<lambda>q. case map_of pins (key_of q) of
         None \<Rightarrow> False
       | Some h \<Rightarrow> if request_scheme q = ''https'' then rq_sni q = Some h else True) (sent_requests t)"

fun run_requests ::
  "net_lib \<Rightarrow> 'w resolver \<Rightarrow> pin_config \<Rightarrow> (http_request \<Rightarrow> ('w, http_response) http_prog) \<Rightarrow>
     http_request list \<Rightarrow> 'w pin_state \<Rightarrow> 'w pin_state" where
  "run_requests L R C inner [] st = st"
| "run_requests L R C inner (q # qs) st =
     run_requests L R C inner qs (snd (pinned_request L R C inner q st))"

lemma isolated_same [simp]:
  "key_of (isolated_request apart q) = key_of q" "rq_sni (isolated_request apart q) = rq_sni q"
  "request_scheme (isolated_request apart q) = request_scheme q"
  by (simp_all add: isolated_request_def key_of_def request_scheme_def)

lemma pins_cover_more:
  assumes "pins_cover pins t" "pins' = pins \<or> map_of pins k = None \<and> pins' = dict_set k h pins"
  shows "pins_cover pins' t"
  using assms by (fastforce simp: pins_cover_def list_all_iff split: option.splits)

lemma admitted_scheme: "admitted L C q q' \<Longrightarrow> request_scheme q' = request_scheme q"
  by (cases q') (auto simp: admitted_def pinned_to_def request_scheme_def)

lemma pinned_request_keeps_cover:
  assumes "pins_cover pins (ht_trace s)"
    and "pinned_request L R C (handle_request T E apart) q (s, pins) = (res, (s', pins'))"
  shows "pins_cover pins' (ht_trace s')"
  using assms(2)
proof (cases rule: pinned_request_cases)
  case (refused e)
  then show ?thesis using assms(1) by simp
next
  case (sent q' t)
  have "pins_cover pins' t"
    using sent(3-5) by (auto simp: pins_cover_def list_all_iff)
  moreover have "pins_cover pins' (ht_trace s)" using pins_cover_more [OF assms(1) sent(6)] .
  ultimately show ?thesis using sent(2) by (simp add: pins_cover_def)
qed


section \<open>The air gap\<close>

definition off_values :: "string list" where
  "off_values = [[], ''0'', ''false'', ''no'', ''off'', ''n'', ''f'']"

definition on_values :: "string list" where
  "on_values = [''1'', ''true'', ''yes'', ''on'', ''y'', ''t'']"

definition airgap_local :: "net_lib \<Rightarrow> string \<Rightarrow> bool" where
  "airgap_local L host =
     (if map lower_char host = ''localhost'' then True
      else case nl_parse L host of None \<Rightarrow> False | Some a \<Rightarrow> airgap_local_ip a)"

definition check_airgap :: "net_lib \<Rightarrow> string option \<Rightarrow> string option \<Rightarrow> http_request \<Rightarrow> http_exn + unit" where
  "check_airgap L setting proxy q =
     (let mode = map lower_char (py_strip (or_empty setting)) in
      if mode \<in> set off_values then Inr ()
      else if mode \<notin> set on_values then Inl (AirgapViolation ''air-gap mode configuration is invalid'')
      else refuse_if (proxy \<noteq> None \<or> \<not> airgap_local L (hu_host (rq_url q)))
        (AirgapViolation ''air-gap mode refused a non-local destination or proxy''))"

end
