(* ===== verification/Http_Client.thy ===== *)
theory Http_Client
  imports Http_Egress
begin

text \<open>
  The governed client: the options it is built from (\<^verbatim>\<open>http/options.py\<close>), the transports it
  stacks (\<^verbatim>\<open>http/client.py\<close>), the checked POST (\<^verbatim>\<open>http/safe_post.py\<close>) and the payment
  gate (\<^verbatim>\<open>http/payments.py\<close>). What the HTTP library does above the transport, building a request
  from its parts, is not under the model; a request reaches it as the transport gets it.
\<close>

section \<open>Options\<close>

text \<open>
  A timeout is one number or the four of a \<^theory_text>\<open>httpx.Timeout\<close>. A TLS profile counts only by
  the proxy it sets.
\<close>

record client_options =
  co_base_url :: string
  co_timeouts :: "json list"
  co_retry :: retry_policy
  co_tls :: "string option option"
  co_cookies_apart :: bool
  co_header_names :: "string list"
  co_allow_plaintext :: bool
  co_pin :: bool
  co_private_hosts :: "string list"
  co_loopback :: bool
  co_verify_peer :: bool

definition base_url_problem :: "url_parts \<Rightarrow> string option" where
  "base_url_problem p =
     (if up_scheme p \<notin> {''http'', ''https''} \<or> or_empty (up_hostname p) = []
      then Some ''base_url must be an absolute http or https URL''
      else if or_empty (up_username p) \<noteq> [] \<or> or_empty (up_password p) \<noteq> []
      then Some ''base_url must not carry credentials; use auth''
      else None)"

fun timeout_ok :: "json \<Rightarrow> bool" where
  "timeout_ok (JInt i) = (0 < i \<and> i < float_overflow)"
| "timeout_ok (JFloat (Fin r)) = (0 < r)"
| "timeout_ok (JBool b) = b"
| "timeout_ok _ = False"

definition options_loopback :: "net_lib \<Rightarrow> string \<Rightarrow> bool" where
  "options_loopback L host =
     (host = ''localhost'' \<or> (case nl_parse L host of None \<Rightarrow> False | Some a \<Rightarrow> is_loopback_ip (nl_mapped L) a))"

definition plaintext_problem :: "net_lib \<Rightarrow> url_parts \<Rightarrow> bool \<Rightarrow> string option" where
  "plaintext_problem L p allow =
     (if up_scheme p \<noteq> ''http'' \<or> options_loopback L (or_empty (up_hostname p)) \<or> allow then None
      else Some ''plaintext http requires allow_plaintext'')"

definition egress_problem :: "net_lib \<Rightarrow> client_options \<Rightarrow> string option" where
  "egress_problem L opts =
     (case normalize_private_hosts L (co_private_hosts opts) of
        Inl e \<Rightarrow> Some e
      | Inr hs \<Rightarrow>
          (if (co_private_hosts opts \<noteq> [] \<or> co_loopback opts) \<and> \<not> co_pin opts
           then Some ''allowed_private_hosts and allow_loopback require pin_egress''
           else if co_pin opts \<and> (case co_tls opts of Some (Some proxy) \<Rightarrow> True | _ \<Rightarrow> False)
           then Some ''pin_egress does not accept a proxy''
           else None))"

definition first_problem :: "string option list \<Rightarrow> string option" where
  "first_problem ps =
     (case dropWhile (\<lambda>p. or_empty p = []) ps of [] \<Rightarrow> None | p # _ \<Rightarrow> p)"

text \<open>
  The constructor: the first problem is the \<^theory_text>\<open>ValueError\<close>; a base URL that cannot be
  split raises its own.
\<close>

definition client_options_new :: "net_lib \<Rightarrow> client_options \<Rightarrow> string + client_options" where
  "client_options_new L opts =
     (case ul_split (nl_urls L) (co_base_url opts) of
        None \<Rightarrow> Inl ''ValueError''
      | Some p \<Rightarrow>
          (case first_problem
             [base_url_problem p,
              if list_all timeout_ok (co_timeouts opts) then None else Some ''timeout must be finite and positive'',
              if list_ex is_sensitive_name (co_header_names opts)
              then Some ''credential headers are not allowed; use auth'' else None,
              plaintext_problem L p (co_allow_plaintext opts),
              egress_problem L opts] of
             Some e \<Rightarrow> Inl e
           | None \<Rightarrow> Inr opts))"

lemma first_problem_None:
  "first_problem ps = None \<Longrightarrow> p \<in> set ps \<Longrightarrow> or_empty p = []"
proof (induction ps)
  case (Cons x ps)
  then show ?case by (cases x) (auto simp: first_problem_def or_empty_def split: if_splits)
qed simp

text \<open>What the options a client is built from guarantee.\<close>

definition options_safe :: "net_lib \<Rightarrow> client_options \<Rightarrow> bool" where
  "options_safe L opts \<longleftrightarrow>
     (case ul_split (nl_urls L) (co_base_url opts) of
        None \<Rightarrow> False
      | Some p \<Rightarrow>
          or_empty (up_hostname p) \<noteq> [] \<and> or_empty (up_username p) = [] \<and> or_empty (up_password p) = []
          \<and> (up_scheme p = ''https''
             \<or> up_scheme p = ''http''
               \<and> (co_allow_plaintext opts \<or> options_loopback L (or_empty (up_hostname p)))))
     \<and> list_all timeout_ok (co_timeouts opts)
     \<and> list_all (\<lambda>h. \<not> is_sensitive_name h) (co_header_names opts)
     \<and> (if co_pin opts
        then (case co_tls opts of Some (Some proxy) \<Rightarrow> False | _ \<Rightarrow> True)
        else co_private_hosts opts = [] \<and> \<not> co_loopback opts)"

lemma mapR_Inl: "mapR f xs = Inl e \<Longrightarrow> \<exists>x \<in> set xs. f x = Inl e"
  by (induction xs) (auto simp: bindR_Inl)

lemma normalize_refusal: "normalize_private_hosts L hosts = Inl e \<Longrightarrow> e \<noteq> []"
  by (auto simp: normalize_private_hosts_def normalize_private_host_def Let_def result_iff dest!: mapR_Inl)

lemma egress_problem_none:
  "or_empty (egress_problem L opts) = [] \<Longrightarrow>
     (if co_pin opts then (case co_tls opts of Some (Some proxy) \<Rightarrow> False | _ \<Rightarrow> True)
      else co_private_hosts opts = [] \<and> \<not> co_loopback opts)"
  by (cases "normalize_private_hosts L (co_private_hosts opts)")
    (auto simp: egress_problem_def or_empty_def dest: normalize_refusal split: if_splits option.splits)

lemma base_url_problem_none:
  "or_empty (base_url_problem p) = [] \<Longrightarrow>
     up_scheme p \<in> {''http'', ''https''} \<and> or_empty (up_hostname p) \<noteq> []
     \<and> or_empty (up_username p) = [] \<and> or_empty (up_password p) = []"
  unfolding base_url_problem_def by (simp add: or_empty_def [of "Some _"] split: if_split_asm)

lemma plaintext_problem_none:
  "or_empty (plaintext_problem L p allow) = [] \<Longrightarrow>
     up_scheme p \<noteq> ''http'' \<or> options_loopback L (or_empty (up_hostname p)) \<or> allow"
  unfolding plaintext_problem_def by (simp add: or_empty_def [of "Some _"] split: if_split_asm)

lemma client_options_safe:
  assumes "client_options_new L opts = Inr opts'"
  shows "opts' = opts \<and> options_safe L opts"
proof -
  obtain p where p: "ul_split (nl_urls L) (co_base_url opts) = Some p"
    using assms by (cases "ul_split (nl_urls L) (co_base_url opts)") (auto simp: client_options_new_def)
  let ?ps = "[base_url_problem p,
              if list_all timeout_ok (co_timeouts opts) then None else Some ''timeout must be finite and positive'',
              if list_ex is_sensitive_name (co_header_names opts)
              then Some ''credential headers are not allowed; use auth'' else None,
              plaintext_problem L p (co_allow_plaintext opts),
              egress_problem L opts]"
  have none: "first_problem ?ps = None" and same: "opts' = opts"
    using assms by (auto simp: client_options_new_def p split: option.splits)
  note empty = first_problem_None [OF none]
  have "or_empty (base_url_problem p) = []" "or_empty (plaintext_problem L p (co_allow_plaintext opts)) = []"
    "or_empty (egress_problem L opts) = []"
    using empty by simp_all
  moreover have "list_all timeout_ok (co_timeouts opts)"
    using empty [of "if list_all timeout_ok (co_timeouts opts) then None else Some ''timeout must be finite and positive''"]
    by (auto simp: or_empty_def split: if_splits)
  moreover have "\<not> list_ex is_sensitive_name (co_header_names opts)"
    using empty [of "if list_ex is_sensitive_name (co_header_names opts)
              then Some ''credential headers are not allowed; use auth'' else None"]
    by (auto simp: or_empty_def split: if_splits)
  ultimately show ?thesis
    using same base_url_problem_none [of p] plaintext_problem_none [of L p] egress_problem_none [of L opts]
    unfolding options_safe_def p by (auto simp: list_all_iff list_ex_iff)
qed

section \<open>The stack of transports\<close>

text \<open>
  \<open>create_http_client\<close>: the air-gap check comes first, then the pinned transport when the options
  ask for it, then the retrying one, which alone touches the network.
\<close>

definition check_base_host :: "net_lib \<Rightarrow> client_options \<Rightarrow> http_exn + unit" where
  "check_base_host L opts =
     (if co_pin opts
      then (case ul_split (nl_urls L) (co_base_url opts) of
              None \<Rightarrow> Inl (PlainExn ''ValueError'' [])
            | Some p \<Rightarrow>
                check_pinned_base_host L (or_empty (up_hostname p))
                  \<lparr>eg_pin = True, eg_private_hosts = co_private_hosts opts, eg_loopback = co_loopback opts\<rparr>)
      else Inr ())"

definition pin_config_of :: "net_lib \<Rightarrow> client_options \<Rightarrow> http_exn + pin_config" where
  "pin_config_of L opts =
     (case normalize_private_hosts L (co_private_hosts opts) of
        Inl e \<Rightarrow> Inl (PlainExn ''ValueError'' e)
      | Inr hs \<Rightarrow>
          Inr \<lparr>pc_allowed = hs, pc_loopback = co_loopback opts, pc_verify_peer = co_verify_peer opts\<rparr>)"

record http_client =
  hc_options :: client_options
  hc_pin :: "pin_config option"
  hc_proxy :: "string option"

definition create_http_client :: "net_lib \<Rightarrow> client_options \<Rightarrow> http_exn + http_client" where
  "create_http_client L opts =
     andR (check_base_host L opts)
       (bindR (if co_pin opts then bindR (pin_config_of L opts) (\<lambda>c. Inr (Some c)) else Inr None) (\<lambda>pin.
          Inr \<lparr>hc_options = opts, hc_pin = pin,
               hc_proxy = (case co_tls opts of None \<Rightarrow> None | Some proxy \<Rightarrow> proxy)\<rparr>))"

definition client_request ::
  "net_lib \<Rightarrow> 'w resolver \<Rightarrow> 'w sender \<Rightarrow> http_env \<Rightarrow> string option \<Rightarrow> http_client \<Rightarrow> http_request \<Rightarrow>
     ('w pin_state, http_exn, http_response) prog" where
  "client_request L R T E airgap cl q =
     thenP (liftP (check_airgap L airgap (hc_proxy cl) q))
       (let governed = handle_request T E (co_cookies_apart (hc_options cl)) in
        case hc_pin cl of
          None \<Rightarrow> on_http (governed q)
        | Some c \<Rightarrow> pinned_request L R c governed q)"

text \<open>Air-gap mode is on, or its setting cannot be read.\<close>

definition gap_closed :: "string option \<Rightarrow> bool" where
  "gap_closed airgap \<longleftrightarrow> map lower_char (py_strip (or_empty airgap)) \<notin> set off_values"

text \<open>
  Property C27. Whatever the resolver and the network answer, and however often the request is
  retried, everything that a governed client sends for a request is that request: in air-gap mode
  only when it names a local host and no proxy is set; and with a pinned client only to one
  address, which the policy admits: for a host on the allow list an address in the private ranges, for
  any other a public address, or loopback where that is allowed; in the clear only to loopback or an
  allow-listed host, under the original name in the host header and in SNI; an answer is returned
  only when it came from that address.
\<close>

theorem client_sends_guarded:
  "case client_request L R T E airgap cl q (s, pins) of (res, (s', pins')) \<Rightarrow>
    (\<exists>t. ht_trace s' = ht_trace s @ t
      \<and> (sent_requests t = []
         \<or> (if gap_closed airgap then airgap_local L (hu_host (rq_url q)) \<and> hc_proxy cl = None else True)
           \<and> (case hc_pin cl of
                None \<Rightarrow>
                  list_all (\<lambda>x. x = isolated_request (co_cookies_apart (hc_options cl)) q) (sent_requests t)
              | Some c \<Rightarrow>
                  (\<exists>q'. admitted L c q q'
                     \<and> list_all (\<lambda>x. x = isolated_request (co_cookies_apart (hc_options cl)) q')
                         (sent_requests t)
                     \<and> (case res of
                          Inl e \<Rightarrow> True
                        | Inr r \<Rightarrow>
                            if pc_verify_peer c then peer_check L r (hu_host (rq_url q')) = Inr ()
                            else True)))))"
proof (cases "check_airgap L airgap (hc_proxy cl) q")
  case (Inl e)
  then show ?thesis
    by (auto simp: client_request_def prog_defs sent_requests_def intro!: exI [of _ "[]"])
next
  case (Inr u)
  let ?apart = "co_cookies_apart (hc_options cl)"
  have gap: "if gap_closed airgap then airgap_local L (hu_host (rq_url q)) \<and> hc_proxy cl = None else True"
    using Inr by (auto simp: check_airgap_def gap_closed_def Let_def result_iff split: if_splits)
  show ?thesis
  proof (cases "hc_pin cl")
    case None
    obtain res s' where run: "handle_request T E ?apart q s = (res, s')" by (cases "handle_request T E ?apart q s")
    obtain t where t: "ht_trace s' = ht_trace s @ t" "attempt_run E ?apart q 1 res t"
      using handle_request_follows [of T E ?apart q s] by (auto simp: run)
    have "client_request L R T E airgap cl q (s, pins) = (res, (s', pins))"
      using Inr by (simp add: client_request_def None on_http_def thenP_def bindP_def liftP_def run)
    with t attempt_run_requests [OF t(2)] gap show ?thesis by (auto simp: None intro!: exI [of _ t])
  next
    case (Some c)
    obtain res s' pins' where
      run: "pinned_request L R c (handle_request T E ?apart) q (s, pins) = (res, (s', pins'))"
      by (cases "pinned_request L R c (handle_request T E ?apart) q (s, pins)") auto
    have eq: "client_request L R T E airgap cl q (s, pins) = (res, (s', pins'))"
      using Inr by (simp add: client_request_def Some thenP_def bindP_def liftP_def run)
    from run show ?thesis
    proof (cases rule: pinned_request_cases)
      case (refused e)
      then show ?thesis by (auto simp: eq sent_requests_def intro!: exI [of _ "[]"])
    next
      case (sent q' t)
      then show ?thesis
        using gap by (auto simp: eq Some split: sum.splits intro!: exI [of _ t] exI [of _ q'])
    qed
  qed
qed

section \<open>A checked POST\<close>

definition private_or_loopback :: "net_lib \<Rightarrow> string \<Rightarrow> bool" where
  "private_or_loopback L host =
     (if host = ''localhost'' then True
      else case nl_parse L host of
             None \<Rightarrow> False
           | Some a \<Rightarrow> is_private_ip a \<or> is_loopback_ip (nl_mapped L) a \<or> is_link_local_ip (nl_mapped L) a)"

text \<open>
  \<open>safe_post_json\<close> over a client's \<open>post\<close>; \<open>raised\<close> is the error of an unsuccessful status,
  the body is decoded by the library.
\<close>

definition safe_post_json ::
  "net_lib \<Rightarrow> (string \<Rightarrow> json \<Rightarrow> ('w, http_response) http_prog) \<Rightarrow> (http_response \<Rightarrow> http_exn option) \<Rightarrow>
     (string \<Rightarrow> json option) \<Rightarrow> string list \<Rightarrow> string \<Rightarrow> (string, json) dict \<Rightarrow> ('w, json) http_prog" where
  "safe_post_json L post raised decode allowed url body =
     (case ul_split (nl_urls L) url of
        None \<Rightarrow> raiseP (PlainExn ''ValueError'' [])
      | Some p \<Rightarrow>
          (let host = or_empty (up_hostname p) in
           if private_or_loopback L host \<and> host \<notin> set allowed
           then raiseP (PlainExn ''SsrfBlockedError'' (''private/loopback destination is not allowed: '' @ host))
           else bindP (post url (JObj body)) (\<lambda>r.
             case raised r of
               Some e \<Rightarrow> raiseP e
             | None \<Rightarrow>
                 (case decode (concat (rs_chunks r)) of
                    None \<Rightarrow> raiseP (PlainExn ''NonJsonResponseError'' ''response body was not valid JSON'')
                  | Some v \<Rightarrow> returnP v))))"

lemma safe_post_blocked:
  "ul_split (nl_urls L) url = Some p \<Longrightarrow> private_or_loopback L (or_empty (up_hostname p)) \<Longrightarrow>
     or_empty (up_hostname p) \<notin> set allowed \<Longrightarrow>
     \<exists>e. safe_post_json L post raised decode allowed url body s = (Inl e, s)"
  by (simp add: safe_post_json_def raiseP_def Let_def)

section \<open>The payment gate\<close>

text \<open>Amounts are exact decimals; the models' validators keep them finite and within their signs.\<close>

record payment_budget =
  py_per_call :: rat
  py_per_day :: rat
  py_spent_today :: rat

definition budget_ok :: "payment_budget \<Rightarrow> bool" where
  "budget_ok b \<longleftrightarrow> 0 \<le> py_per_call b \<and> 0 \<le> py_per_day b \<and> 0 \<le> py_spent_today b"

definition remaining_today :: "payment_budget \<Rightarrow> rat" where
  "remaining_today b = max (py_per_day b - py_spent_today b) 0"

definition decide_payment :: "rat \<Rightarrow> payment_budget \<Rightarrow> bool \<times> string" where
  "decide_payment amount b =
     (if py_per_call b < amount then (False, ''per_call'')
      else if remaining_today b < amount then (False, ''per_day'')
      else (True, ''per_day''))"

text \<open>A payment that is allowed keeps the day within its limit.\<close>

lemma payment_within_day:
  "0 < amount \<Longrightarrow> fst (decide_payment amount b) \<Longrightarrow>
     amount \<le> py_per_call b \<and> py_spent_today b + amount \<le> py_per_day b"
  by (auto simp: decide_payment_def remaining_today_def max_def split: if_splits)

end
