(* ===== verification/Http_Rate.thy ===== *)
theory Http_Rate
  imports Http_Retry
begin

text \<open>
  Rate limits of a vendor: what its headers say and the wait they ask for
  (\<^verbatim>\<open>httpsupport/rate_limit.py\<close>, \<^verbatim>\<open>http/support_rate.py\<close>), and the limiter that paces
  requests. Reading a float from text is the library's, a parameter; headers are keyed in lower case.
\<close>

section \<open>Floats that need not be finite\<close>

fun float_less :: "pyfloat \<Rightarrow> pyfloat \<Rightarrow> bool" where
  "float_less (Fin a) (Fin b) = (a < b)"
| "float_less NegInf (Fin b) = True"
| "float_less NegInf PosInf = True"
| "float_less (Fin a) PosInf = True"
| "float_less _ _ = False"

text \<open>\<^theory_text>\<open>min(a, b)\<close> and \<^theory_text>\<open>max(a, b)\<close> keep the first unless the second compares past it.\<close>

definition float_min :: "pyfloat \<Rightarrow> pyfloat \<Rightarrow> pyfloat" where
  "float_min a b = (if float_less b a then b else a)"

definition float_max :: "pyfloat \<Rightarrow> pyfloat \<Rightarrow> pyfloat" where
  "float_max a b = (if float_less a b then b else a)"

fun float_minus :: "pyfloat \<Rightarrow> rat \<Rightarrow> pyfloat" where
  "float_minus (Fin a) b = Fin (a - b)"
| "float_minus v b = v"

text \<open>\<^theory_text>\<open>int(v)\<close> cuts towards zero and has nothing for what is not finite.\<close>

fun int_of_float :: "pyfloat \<Rightarrow> string + int" where
  "int_of_float (Fin r) = Inr (if 0 \<le> r then floor r else ceiling r)"
| "int_of_float NaN = Inl ''ValueError''"
| "int_of_float _ = Inl ''OverflowError''"

section \<open>Snapshots\<close>

record rate_snapshot =
  rl_limit :: "int option"
  rl_remaining :: "int option"
  rl_reset :: "pyfloat option"
  rl_retry_after :: "pyfloat option"

type_synonym headers = "(string, string) dict"

text \<open>The reader of floats, of HTTP dates (a naive one read as UTC) and the present time.\<close>

record rate_lib =
  ra_float :: "string \<Rightarrow> pyfloat option"
  ra_date :: "string \<Rightarrow> rat option"
  ra_retry_date :: "string \<Rightarrow> http_date"
  ra_now :: rat

fun first_header :: "headers \<Rightarrow> string list \<Rightarrow> string option" where
  "first_header h [] = None"
| "first_header h (n # ns) = (case map_of h n of Some v \<Rightarrow> Some v | None \<Rightarrow> first_header h ns)"

text \<open>
  \<open>_to_int\<close> catches only \<^theory_text>\<open>ValueError\<close>: an infinite count raises
  \<^theory_text>\<open>OverflowError\<close>.
\<close>

definition to_int :: "rate_lib \<Rightarrow> string option \<Rightarrow> string + int option" where
  "to_int R v =
     (case v of
        None \<Rightarrow> Inr None
      | Some t \<Rightarrow>
          (case ra_float R t of
             None \<Rightarrow> Inr None
           | Some f \<Rightarrow>
               (case int_of_float f of
                  Inr i \<Rightarrow> Inr (Some i)
                | Inl e \<Rightarrow> if e = ''ValueError'' then Inr None else Inl e)))"

definition to_float :: "rate_lib \<Rightarrow> string option \<Rightarrow> pyfloat option" where
  "to_float R v = (case v of None \<Rightarrow> None | Some t \<Rightarrow> ra_float R t)"

definition retry_after_to_seconds :: "rate_lib \<Rightarrow> string \<Rightarrow> pyfloat option" where
  "retry_after_to_seconds R raw =
     (case ra_float R raw of
        Some f \<Rightarrow> Some f
      | None \<Rightarrow> map_option Fin (ra_date R raw))"

definition parse_rate_limit :: "rate_lib \<Rightarrow> headers \<Rightarrow> string + rate_snapshot option" where
  "parse_rate_limit R h =
     bindR (to_int R (first_header h [''x-ratelimit-limit'', ''x-rate-limit-limit''])) (\<lambda>limit.
     bindR (to_int R (first_header h [''x-ratelimit-remaining'', ''x-rate-limit-remaining''])) (\<lambda>remaining.
       (let reset = to_float R (first_header h [''x-ratelimit-reset'', ''x-rate-limit-reset'']);
            after = (case map_of h ''retry-after'' of None \<Rightarrow> None | Some raw \<Rightarrow> retry_after_to_seconds R raw)
        in Inr (if limit = None \<and> remaining = None \<and> reset = None \<and> after = None then None
             else Some \<lparr>rl_limit = limit, rl_remaining = remaining, rl_reset = reset,
               rl_retry_after = after\<rparr>))))"

definition rate_exhausted :: "rate_snapshot \<Rightarrow> bool" where
  "rate_exhausted s \<longleftrightarrow> rl_remaining s = Some 0"

definition epoch_threshold :: rat where
  "epoch_threshold = 100000000"

definition backoff_seconds :: "rate_lib \<Rightarrow> headers \<Rightarrow> rat \<Rightarrow> rat \<Rightarrow> string + pyfloat" where
  "backoff_seconds R h cap fallback =
     bindR (parse_rate_limit R h) (\<lambda>snap. Inr
       (case snap of
          None \<Rightarrow> float_max (Fin 0) (float_min (Fin fallback) (Fin cap))
        | Some s \<Rightarrow>
            (case rl_retry_after s of
               Some after \<Rightarrow> float_max (Fin 0) (float_min after (Fin cap))
             | None \<Rightarrow>
                 (case rl_reset s of
                    Some reset \<Rightarrow>
                      float_max (Fin 1)
                        (float_min
                          (if float_less (Fin epoch_threshold) reset then float_minus reset (ra_now R) else reset)
                          (Fin cap))
                  | None \<Rightarrow> float_max (Fin 0) (float_min (Fin fallback) (Fin cap))))))"

text \<open>\<open>RateLimitCapture.capture\<close>: a response without telemetry keeps the prior snapshot.\<close>

definition capture_rate :: "rate_lib \<Rightarrow> headers \<Rightarrow> rate_snapshot option \<Rightarrow> string + rate_snapshot option" where
  "capture_rate R h prior =
     bindR (parse_rate_limit R h) (\<lambda>snap. Inr (case snap of None \<Rightarrow> prior | Some s \<Rightarrow> Some s))"

lemma capped:
  "\<exists>w. float_max (Fin lo) (float_min v (Fin cap)) = Fin w \<and> lo \<le> w \<and> w \<le> max lo cap"
  by (cases v) (auto simp: float_max_def float_min_def)

text \<open>A server that reports an infinite quota makes every one of these calls raise.\<close>

lemma infinite_quota_raises:
  assumes "ra_float R ''inf'' = Some PosInf" "map_of h ''x-ratelimit-limit'' = Some ''inf''"
  shows "backoff_seconds R h cap fallback = Inl ''OverflowError''"
    and "capture_rate R h prior = Inl ''OverflowError''"
  using assms by (simp_all add: backoff_seconds_def capture_rate_def parse_rate_limit_def to_int_def)

section \<open>The headers as the class-based client reads them\<close>

fun header_number :: "rate_lib \<Rightarrow> headers \<Rightarrow> string list \<Rightarrow> pyfloat option" where
  "header_number R h [] = None"
| "header_number R h (n # ns) =
     (case map_of h n of
        None \<Rightarrow> header_number R h ns
      | Some t \<Rightarrow> (case ra_float R t of Some f \<Rightarrow> Some f | None \<Rightarrow> header_number R h ns))"

definition int_or_none :: "pyfloat option \<Rightarrow> string + int option" where
  "int_or_none v = (case v of None \<Rightarrow> Inr None | Some f \<Rightarrow> bindR (int_of_float f) (\<lambda>i. Inr (Some i)))"

text \<open>Its snapshot has no \<open>retry_after\<close>; a count that is not finite raises.\<close>

definition rate_limit_of :: "rate_lib \<Rightarrow> headers \<Rightarrow> string + rate_snapshot option" where
  "rate_limit_of R h =
     (let limit = header_number R h [''x-ratelimit-limit'', ''x-rate-limit-limit''];
          remaining = header_number R h [''x-ratelimit-remaining'', ''x-rate-limit-remaining''];
          reset = header_number R h [''x-ratelimit-reset'', ''x-rate-limit-reset'']
      in if limit = None \<and> remaining = None \<and> reset = None then Inr None
         else bindR (int_or_none limit) (\<lambda>l. bindR (int_or_none remaining) (\<lambda>m.
           Inr (Some \<lparr>rl_limit = l, rl_remaining = m, rl_reset = reset, rl_retry_after = None\<rparr>))))"

definition epoch_floor :: rat where
  "epoch_floor = 1000000000"

definition support_backoff :: "rate_lib \<Rightarrow> headers \<Rightarrow> rat \<Rightarrow> pyfloat" where
  "support_backoff R h cap =
     (let asked =
        (case parse_retry_after (ra_retry_date R) (map_of h ''retry-after'') of
           Some d \<Rightarrow> Some d
         | None \<Rightarrow>
             (case header_number R h [''x-rate-limit-reset'', ''x-ratelimit-reset''] of
                None \<Rightarrow> None
              | Some reset \<Rightarrow>
                  Some (if float_less (Fin epoch_floor) reset
                    then float_max (Fin 0) (float_minus reset (ra_now R)) else reset)))
      in float_min (float_max (case asked of None \<Rightarrow> Fin 1 | Some d \<Rightarrow> d) (Fin 0)) (Fin cap))"

text \<open>The wait is between nothing and the cap, or no number at all, which is not slept.\<close>

lemma support_backoff_capped:
  "0 \<le> cap \<Longrightarrow> support_backoff R h cap = NaN \<or> (\<exists>w. support_backoff R h cap = Fin w \<and> 0 \<le> w \<and> w \<le> cap)"
proof -
  assume "0 \<le> cap"
  have "float_min (float_max v (Fin 0)) (Fin cap) = NaN
      \<or> (\<exists>w. float_min (float_max v (Fin 0)) (Fin cap) = Fin w \<and> 0 \<le> w \<and> w \<le> cap)" for v
    using \<open>0 \<le> cap\<close> by (cases v) (auto simp: float_min_def float_max_def)
  then show ?thesis by (simp add: support_backoff_def Let_def)
qed

section \<open>The limiter\<close>

text \<open>
  Callers queue on one lock, so waits follow one another. A wait reads the clock, sleeps when the
  interval has not passed, and reads it again; the readings are numbered, and a sleep lies between
  two of them.
\<close>

record limiter =
  lm_interval :: rat
  lm_last :: "rat option"

definition limiter_new :: "rat \<Rightarrow> limiter" where
  "limiter_new seconds = \<lparr>lm_interval = max 0 seconds, lm_last = None\<rparr>"

record pace =
  pc_limiter :: limiter
  pc_readings :: nat
  pc_sleeps :: "(nat \<times> rat) list"

definition limiter_wait :: "(nat \<Rightarrow> rat) \<Rightarrow> pace \<Rightarrow> pace" where
  "limiter_wait clock p =
     (let n = pc_readings p; l = pc_limiter p in
      case lm_last l of
        None \<Rightarrow> p\<lparr>pc_limiter := l\<lparr>lm_last := Some (clock n)\<rparr>, pc_readings := n + 1\<rparr>
      | Some prior \<Rightarrow>
          (let delay = lm_interval l - (clock n - prior);
               sleeps = (if 0 < delay then pc_sleeps p @ [(n, delay)] else pc_sleeps p)
           in p\<lparr>pc_limiter := l\<lparr>lm_last := Some (clock (n + 1))\<rparr>, pc_readings := n + 2,
                pc_sleeps := sleeps\<rparr>))"

text \<open>The departures of a number of waits, in order.\<close>

fun departures :: "(nat \<Rightarrow> rat) \<Rightarrow> nat \<Rightarrow> pace \<Rightarrow> rat list \<times> pace" where
  "departures clock 0 p = ([], p)"
| "departures clock (Suc k) p =
     (let p1 = limiter_wait clock p in
      case departures clock k p1 of
        (ds, p2) \<Rightarrow> ((case lm_last (pc_limiter p1) of None \<Rightarrow> [] | Some d \<Rightarrow> [d]) @ ds, p2))"

text \<open>The clock never goes back, and after a sleep it has advanced by at least what was slept.\<close>

definition clock_honours :: "(nat \<Rightarrow> rat) \<Rightarrow> (nat \<times> rat) list \<Rightarrow> bool" where
  "clock_honours clock sleeps \<longleftrightarrow>
     (\<forall>n. clock n \<le> clock (n + 1)) \<and> (\<forall>(n, d) \<in> set sleeps. clock n + d \<le> clock (n + 1))"

fun spaced :: "rat \<Rightarrow> rat list \<Rightarrow> bool" where
  "spaced gap [] = True"
| "spaced gap [t] = True"
| "spaced gap (t # u # ts) = (t + gap \<le> u \<and> spaced gap (u # ts))"

lemma departures_sleeps:
  "\<exists>more. pc_sleeps (snd (departures clock k p)) = pc_sleeps p @ more"
proof (induction k arbitrary: p)
  case (Suc k)
  have "\<exists>m. pc_sleeps (limiter_wait clock p) = pc_sleeps p @ m"
    by (auto simp: limiter_wait_def Let_def split: option.split)
  then show ?case
    using Suc.IH [of "limiter_wait clock p"] by (auto simp: Let_def case_prod_beta)
qed simp

lemma wait_departs:
  "\<exists>d. lm_last (pc_limiter (limiter_wait clock p)) = Some d
     \<and> lm_interval (pc_limiter (limiter_wait clock p)) = lm_interval (pc_limiter p)"
  by (auto simp: limiter_wait_def Let_def split: option.split)

lemma wait_spaced:
  assumes "lm_last (pc_limiter p) = Some prior" "clock_honours clock (pc_sleeps (limiter_wait clock p))"
    and "lm_last (pc_limiter (limiter_wait clock p)) = Some d"
  shows "prior + lm_interval (pc_limiter p) \<le> d"
proof -
  let ?n = "pc_readings p"
  have d: "d = clock (?n + 1)" using assms(1,3) by (simp add: limiter_wait_def Let_def)
  have mono: "clock ?n \<le> clock (?n + 1)" using assms(2) by (simp add: clock_honours_def)
  show ?thesis
  proof (cases "0 < lm_interval (pc_limiter p) - (clock ?n - prior)")
    case True
    then have "(?n, lm_interval (pc_limiter p) - (clock ?n - prior)) \<in> set (pc_sleeps (limiter_wait clock p))"
      using assms(1) by (simp add: limiter_wait_def Let_def)
    then have "clock ?n + (lm_interval (pc_limiter p) - (clock ?n - prior)) \<le> clock (?n + 1)"
      using assms(2) by (auto simp: clock_honours_def)
    then show ?thesis by (simp add: d)
  next
    case False
    then show ?thesis using mono by (simp add: d)
  qed
qed

lemma clock_honours_prefix: "clock_honours clock (xs @ ys) \<Longrightarrow> clock_honours clock xs"
  by (auto simp: clock_honours_def)

lemma departures_spaced:
  assumes "clock_honours clock (pc_sleeps (snd (departures clock k p)))"
  shows "spaced (lm_interval (pc_limiter p))
    ((case lm_last (pc_limiter p) of None \<Rightarrow> [] | Some d \<Rightarrow> [d]) @ fst (departures clock k p))
    \<and> length (fst (departures clock k p)) = k"
  using assms
proof (induction k arbitrary: p)
  case 0
  then show ?case by (simp split: option.split)
next
  case (Suc k)
  let ?p1 = "limiter_wait clock p"
  obtain d where d: "lm_last (pc_limiter ?p1) = Some d" "lm_interval (pc_limiter ?p1) = lm_interval (pc_limiter p)"
    using wait_departs by blast
  have rest: "clock_honours clock (pc_sleeps (snd (departures clock k ?p1)))"
    using Suc.prems by (simp add: Let_def case_prod_beta)
  from departures_sleeps [of clock k ?p1] rest have first: "clock_honours clock (pc_sleeps ?p1)"
    by (metis clock_honours_prefix)
  from Suc.IH [OF rest] d have IH: "spaced (lm_interval (pc_limiter p)) (d # fst (departures clock k ?p1))"
      "length (fst (departures clock k ?p1)) = k" by simp_all
  have "\<And>prior. lm_last (pc_limiter p) = Some prior \<Longrightarrow> prior + lm_interval (pc_limiter p) \<le> d"
    using wait_spaced first d(1) by blast
  with IH d show ?case by (auto simp: Let_def case_prod_beta split: option.split)
qed

text \<open>
  However many requests queue on a limiter, they leave at least its interval apart, in
  the order they came, and none is left waiting for ever: each wait sleeps at most once, and on a
  clock that does not go back and a sleep that lasts as long as it was asked to, that is enough.
\<close>

theorem limiter_paces:
  assumes "clock_honours clock (pc_sleeps (snd (departures clock k p)))"
    and "pc_limiter p = limiter_new seconds"
  shows "spaced (max 0 seconds) (fst (departures clock k p))
    \<and> length (fst (departures clock k p)) = k
    \<and> length (pc_sleeps (snd (departures clock k p))) \<le> length (pc_sleeps p) + k"
proof -
  have "length (pc_sleeps (snd (departures clock k q))) \<le> length (pc_sleeps q) + k" for q
  proof (induction k arbitrary: q)
    case (Suc k)
    have "length (pc_sleeps (limiter_wait clock q)) \<le> Suc (length (pc_sleeps q))"
      by (simp add: limiter_wait_def Let_def split: option.split)
    with Suc [of "limiter_wait clock q"] show ?case by (simp add: Let_def case_prod_beta)
  qed simp
  with departures_spaced [OF assms(1)] assms(2) show ?thesis by (auto simp: limiter_new_def)
qed

text \<open>Three requests a quarter of a second apart under a limiter of one second.\<close>

definition demo_clock :: "nat \<Rightarrow> rat" where
  "demo_clock n = of_nat n"

definition demo_pace :: pace where
  "demo_pace = \<lparr>pc_limiter = limiter_new 1, pc_readings = 0, pc_sleeps = []\<rparr>"

theorem limiter_paces_witness:
  "spaced (max 0 1) (fst (departures demo_clock 3 demo_pace))
    \<and> length (fst (departures demo_clock 3 demo_pace)) = 3
    \<and> length (pc_sleeps (snd (departures demo_clock 3 demo_pace))) \<le> length (pc_sleeps demo_pace) + 3"
proof (rule limiter_paces)
  show "clock_honours demo_clock (pc_sleeps (snd (departures demo_clock 3 demo_pace)))"
    by (simp add: clock_honours_def demo_clock_def demo_pace_def limiter_new_def limiter_wait_def
        numeral_3_eq_3)
qed (simp add: demo_pace_def)

end
