(* ===== verification/Http_Api.thy ===== *)
theory Http_Api
  imports Http_Flow Http_Rate
begin

text \<open>
  The class-based API client (\<^verbatim>\<open>http/support.py\<close>, \<^verbatim>\<open>http/support_mixins.py\<close>) with the
  authentication strategies (\<^verbatim>\<open>httpsupport/auth.py\<close>): what a request carries, the bounded loop over
  rate limits and refreshed credentials, and the error of an answer with its secrets removed. The
  strategy reads its credentials from the world, so a rotated token is current at every attempt.
\<close>

section \<open>Replacing text\<close>

definition redaction_mark :: string where
  "redaction_mark = ''[REDACTED]''"

text \<open>\<open>_redact\<close>: one secret after the other, the empty ones left out.\<close>

definition redact_secrets :: "string list \<Rightarrow> string \<Rightarrow> string" where
  "redact_secrets secrets t =
     fold (\<lambda>s t. if s = [] then t else replace_all s redaction_mark t) secrets t"

text \<open>A text without brackets that the mark itself does not spell.\<close>

definition plain_secret :: "string \<Rightarrow> bool" where
  "plain_secret p \<longleftrightarrow> p \<noteq> [] \<and> CHR ''['' \<notin> set p \<and> CHR '']'' \<notin> set p \<and> \<not> occurs_in p ''REDACTED''"

lemma starts_text_iff: "starts_text p s \<longleftrightarrow> (\<exists>r. s = p @ r)"
  by (metis append_eq_conv_conj append_take_drop_id starts_text_def)

lemma occurs_in_iff: "occurs_in p s \<longleftrightarrow> (\<exists>a b. s = a @ p @ b)"
proof (induction s)
  case (Cons c s)
  show ?case
  proof
    assume "occurs_in p (c # s)"
    then consider "starts_text p (c # s)" | "occurs_in p s" by (auto simp: starts_text_def)
    then show "\<exists>a b. c # s = a @ p @ b"
    proof cases
      case 1
      then show ?thesis by (auto simp: starts_text_iff intro: exI [of _ "[]"])
    next
      case 2
      then obtain a b where "s = a @ p @ b" using Cons by blast
      then show ?thesis by (intro exI [of _ "c # a"] exI [of _ b]) simp
    qed
  next
    assume "\<exists>a b. c # s = a @ p @ b"
    then obtain a b where ab: "c # s = a @ p @ b" by blast
    show "occurs_in p (c # s)"
    proof (cases a)
      case Nil
      then have "take (length p) (c # s) = p" using ab by simp
      then show ?thesis by simp
    next
      case (Cons x a')
      then have "occurs_in p s" using ab Cons.IH by auto
      then show ?thesis by simp
    qed
  qed
qed auto

lemma replace_keeps_prefix:
  assumes "CHR ''['' \<notin> set p" "starts_text p (replace_all old new t)" "new = redaction_mark"
  shows "starts_text p t"
  using assms
proof (induction old new t arbitrary: p rule: replace_all.induct)
  case (2 old new c cs)
  show ?case
  proof (cases p)
    case Nil
    then show ?thesis by (simp add: starts_text_def)
  next
    case (Cons d p')
    show ?thesis
    proof (cases "old \<noteq> [] \<and> starts_text old (c # cs)")
      case True
      then show ?thesis using "2.prems" by (auto simp: Cons starts_text_iff redaction_mark_def)
    next
      case False
      then have "d = c" "starts_text p' (replace_all old new cs)"
        using "2.prems"(2) by (auto simp: Cons starts_text_def)
      with "2.IH"(2) [OF False, of p'] "2.prems"(1,3) show ?thesis by (simp add: Cons starts_text_def)
    qed
  qed
qed (simp add: starts_text_def)

text \<open>An occurrence of a bracketless text in the mark followed by more lies inside one of the two.\<close>

lemma occurs_after_mark:
  assumes "plain_secret p" "occurs_in p (redaction_mark @ s)"
  shows "occurs_in p s"
proof -
  obtain a b where ab: "redaction_mark @ s = a @ p @ b" using assms(2) by (auto simp: occurs_in_iff)
  have open_mark: "CHR ''['' \<notin> set p" and close: "CHR '']'' \<notin> set p" and "p \<noteq> []"
    using assms(1) by (auto simp: plain_secret_def)
  show ?thesis
  proof (cases "length redaction_mark \<le> length a")
    case True
    then obtain a' where "a = redaction_mark @ a'"
      using ab by (metis append_eq_append_conv_if append_take_drop_id)
    then show ?thesis using ab by (auto simp: occurs_in_iff)
  next
    case False
    show ?thesis
    proof (cases "length a + length p \<le> length redaction_mark - 1")
      case True
      then have "take (length redaction_mark - 1) (redaction_mark @ s) = a @ p @ take (length redaction_mark - 1 - length a - length p) b"
        unfolding ab by simp
      then obtain b' where mark: "''[REDACTED'' = a @ p @ b'"
        by (simp add: redaction_mark_def)
      then obtain a' where "a = CHR ''['' # a'"
        using open_mark \<open>p \<noteq> []\<close> by (cases a; cases p) auto
      with mark have "occurs_in p ''REDACTED''" by (auto simp: occurs_in_iff)
      then show ?thesis using assms(1) by (simp add: plain_secret_def)
    next
      case False
      have "9 < length (a @ p)" "length a \<le> 9"
        using False \<open>\<not> length redaction_mark \<le> length a\<close> by (auto simp: redaction_mark_def)
      then have "9 - length a < length p" by simp
      then have "(a @ p @ b) ! 9 \<in> set p" using \<open>length a \<le> 9\<close> by (simp add: nth_append)
      moreover have "(redaction_mark @ s) ! 9 = CHR '']''" by (simp add: redaction_mark_def)
      ultimately show ?thesis using close ab by simp
    qed
  qed
qed

lemma replace_creates_none:
  assumes "plain_secret p" "occurs_in p (replace_all old new t)" "new = redaction_mark"
  shows "p \<noteq> old \<and> occurs_in p t"
  using assms(2,3)
proof (induction old new t rule: replace_all.induct)
  case (1 old)
  then show ?case using assms(1) by (simp add: plain_secret_def)
next
  case (2 old new c cs)
  show ?case
  proof (cases "old \<noteq> [] \<and> starts_text old (c # cs)")
    case True
    then have "occurs_in p (redaction_mark @ replace_all old new (drop (length old) (c # cs)))"
      using "2.prems" by simp
    then have "p \<noteq> old \<and> occurs_in p (drop (length old) (c # cs))"
      using "2.IH"(1) [OF True _ "2.prems"(2)] occurs_after_mark [OF assms(1)] by blast
    then show ?thesis by (metis append.assoc append_take_drop_id occurs_in_iff)
  next
    case False
    from "2.prems"(1) False consider
      "starts_text p (c # replace_all old new cs)" | "occurs_in p (replace_all old new cs)"
      by (auto simp: starts_text_def)
    then show ?thesis
    proof cases
      case 1
      obtain d p' where p: "p = d # p'" using assms(1) by (cases p) (auto simp: plain_secret_def)
      then have "d = c" "starts_text p' (replace_all old new cs)" using 1 by (auto simp: starts_text_def)
      moreover have "CHR ''['' \<notin> set p'" using assms(1) by (simp add: plain_secret_def p)
      ultimately have "starts_text p (c # cs)"
        using replace_keeps_prefix "2.prems"(2) by (simp add: p starts_text_def)
      then show ?thesis using False assms(1) by (auto simp: plain_secret_def starts_text_def)
    next
      case 2
      then show ?thesis using "2.IH"(2) [OF False _ "2.prems"(2)] by auto
    qed
  qed
qed

lemma redact_creates_none:
  "plain_secret p \<Longrightarrow> occurs_in p (redact_secrets ss t) \<Longrightarrow> p \<notin> set ss \<and> occurs_in p t"
proof (induction ss arbitrary: t)
  case (Cons s ss)
  from Cons.IH [OF Cons.prems(1)] Cons.prems(2)
  have "p \<notin> set ss \<and> occurs_in p (if s = [] then t else replace_all s redaction_mark t)"
    by (simp add: redact_secrets_def)
  with replace_creates_none [OF Cons.prems(1) _ refl, of s t] Cons.prems(1) show ?case
    by (auto simp: plain_secret_def split: if_splits)
qed (simp add: redact_secrets_def)

section \<open>Authentication strategies\<close>

datatype api_exn = ApiExn string string

text \<open>
  A strategy gives headers and query parameters from the world, the literal secrets to remove from
  messages, and, when it has one, the way to drop a rejected credential.
\<close>

record 'w api_auth =
  au_headers :: "'w \<Rightarrow> (api_exn + (string, string) dict) \<times> 'w"
  au_params :: "'w \<Rightarrow> (string, string) dict"
  au_secrets :: "string list"
  au_invalidate :: "('w \<Rightarrow> 'w) option"

definition anonymous :: "'w api_auth" where
  "anonymous =
     \<lparr>au_headers = (\<lambda>w. (Inr [], w)), au_params = (\<lambda>w. []), au_secrets = [], au_invalidate = None\<rparr>"

definition quoted :: "string \<Rightarrow> string" where
  "quoted s = [CHR 0x27] @ s @ [CHR 0x27]"

definition with_prefix :: "string option \<Rightarrow> string \<Rightarrow> string" where
  "with_prefix prefix token = (if or_empty prefix = [] then token else or_empty prefix @ '' '' @ token)"

text \<open>\<open>TokenAuth\<close>: exactly one of a token and a provider, which is asked at every request.\<close>

definition token_auth ::
  "string option \<Rightarrow> ('w \<Rightarrow> (api_exn + string) \<times> 'w) option \<Rightarrow> string \<Rightarrow> string option \<Rightarrow>
     api_exn + 'w api_auth" where
  "token_auth token provider header prefix =
     (case (token, provider) of
        (Some t, None) \<Rightarrow>
          Inr (anonymous\<lparr>au_headers := (\<lambda>w. (Inr [(header, with_prefix prefix t)], w)),
            au_secrets := if t = [] then [] else [t]\<rparr>)
      | (None, Some p) \<Rightarrow>
          Inr (anonymous\<lparr>au_headers := (\<lambda>w. case p w of
              (Inl e, w') \<Rightarrow> (Inl e, w')
            | (Inr t, w') \<Rightarrow> (Inr [(header, with_prefix prefix t)], w'))\<rparr>)
      | _ \<Rightarrow> Inl (ApiExn ''ValueError'' (''TokenAuth requires exactly one of '' @ quoted ''token'' @ '' or '' @ quoted ''token_provider'')))"

definition basic_auth :: "(string \<Rightarrow> string) \<Rightarrow> string \<Rightarrow> string \<Rightarrow> 'w api_auth" where
  "basic_auth b64 user password =
     anonymous\<lparr>au_headers := (\<lambda>w. (Inr [(''Authorization'', ''Basic '' @ b64 (user @ '':'' @ password))], w)),
       au_secrets := if password = [] then [] else [password]\<rparr>"

definition query_key_auth :: "string \<Rightarrow> string \<Rightarrow> api_exn + 'w api_auth" where
  "query_key_auth param key =
     (if param = [] \<or> key = []
      then Inl (ApiExn ''ValueError'' (''QueryApiKeyAuth requires both '' @ quoted ''param'' @ '' and '' @ quoted ''key''))
      else Inr (anonymous\<lparr>au_params := (\<lambda>w. [(param, key)]), au_secrets := [key]\<rparr>))"

section \<open>Requests\<close>

record api_client =
  ap_default_headers :: "(string, string) dict"
  ap_extra_headers :: "(string, string) dict"
  ap_max_retries :: int
  ap_cap :: rat
  ap_error_map :: "(int, string) dict"
  ap_default_error :: string
  ap_destructive :: bool
  ap_with_headers :: bool

record api_call =
  ac_method :: string
  ac_path :: string
  ac_params :: "(string, json) dict"
  ac_headers :: "(string, string) dict"
  ac_content_type :: "string option"
  ac_accept :: "string option"

datatype api_event = ApiSent "(string, string) dict" "int option" | ApiSlept rat | Invalidated

record 'w api_state =
  as_world :: 'w
  as_rate :: "rate_snapshot option"
  as_trace :: "api_event list"

type_synonym 'w api_sender =
  "api_call \<Rightarrow> (string, json) dict option \<Rightarrow> (string, string) dict \<Rightarrow> 'w \<Rightarrow> (api_exn + http_response) \<times> 'w"

definition default_error_map :: "(int, string) dict" where
  "default_error_map =
     [(400, ''ParameterError''), (401, ''AuthError''), (403, ''UnauthorizedError''), (404, ''ParameterError'')]"

definition guard_destructive :: "api_client \<Rightarrow> string \<Rightarrow> api_exn + unit" where
  "guard_destructive K operation =
     refuse_if (\<not> ap_destructive K) (ApiExn ''DestructiveOperationError'' operation)"

definition merged_headers ::
  "api_client \<Rightarrow> api_call \<Rightarrow> (string, string) dict \<Rightarrow> (string, string) dict" where
  "merged_headers K c auth =
     (let base = dict_update (dict_update (dict_update (dict_update [] (ap_default_headers K)) (ap_extra_headers K)) auth)
            (ac_headers c);
          typed = (if or_empty (ac_content_type c) = [] then base
            else dict_set ''Content-Type'' (or_empty (ac_content_type c)) base)
      in if or_empty (ac_accept c) = [] then typed else dict_set ''Accept'' (or_empty (ac_accept c)) typed)"

definition merged_params :: "api_call \<Rightarrow> (string, string) dict \<Rightarrow> (string, json) dict option" where
  "merged_params c auth =
     (let m = dict_update (filter (\<lambda>(k, v). v \<noteq> JNull) (ac_params c)) (map (\<lambda>(k, v). (k, JStr v)) auth)
      in if m = [] then None else Some m)"

text \<open>One attempt: the headers of the moment, the sending and the snapshot of its rate limit.\<close>

definition api_attempt ::
  "api_client \<Rightarrow> rate_lib \<Rightarrow> 'w api_sender \<Rightarrow> 'w api_auth \<Rightarrow> api_call \<Rightarrow> (string, json) dict option \<Rightarrow>
     'w api_state \<Rightarrow> (api_exn + http_response) \<times> 'w api_state" where
  "api_attempt K R T A c params s =
     (case au_headers A (as_world s) of
        (Inl e, w) \<Rightarrow> (Inl e, s\<lparr>as_world := w\<rparr>)
      | (Inr auth, w) \<Rightarrow>
          (let hs = merged_headers K c auth in
           case T c params hs w of
             (Inl e, w') \<Rightarrow> (Inl e, s\<lparr>as_world := w', as_trace := as_trace s @ [ApiSent hs None]\<rparr>)
           | (Inr r, w') \<Rightarrow>
               (let s' = s\<lparr>as_world := w', as_trace := as_trace s @ [ApiSent hs (Some (rs_status r))]\<rparr> in
                case rate_limit_of R (rs_headers r) of
                  Inl e \<Rightarrow> (Inl (ApiExn e []), s')
                | Inr None \<Rightarrow> (Inr r, s')
                | Inr (Some snap) \<Rightarrow> (Inr r, s'\<lparr>as_rate := Some snap\<rparr>))))"

definition api_pause :: "pyfloat \<Rightarrow> 'w api_state \<Rightarrow> 'w api_state" where
  "api_pause d s =
     (case d of
        Fin r \<Rightarrow> if 0 < r then s\<lparr>as_trace := as_trace s @ [ApiSlept r]\<rparr> else s
      | _ \<Rightarrow> s)"

definition api_invalidate :: "('w \<Rightarrow> 'w) \<Rightarrow> 'w api_state \<Rightarrow> 'w api_state" where
  "api_invalidate fresh s = s\<lparr>as_world := fresh (as_world s), as_trace := as_trace s @ [Invalidated]\<rparr>"

function api_loop ::
  "api_client \<Rightarrow> rate_lib \<Rightarrow> 'w api_sender \<Rightarrow> 'w api_auth \<Rightarrow> api_call \<Rightarrow> (string, json) dict option \<Rightarrow>
     nat \<Rightarrow> bool \<Rightarrow> 'w api_state \<Rightarrow> (api_exn + http_response) \<times> 'w api_state" where
  "api_loop K R T A c params attempts refreshed s =
     (case api_attempt K R T A c params s of
        (Inl e, s') \<Rightarrow> (Inl e, s')
      | (Inr r, s') \<Rightarrow>
          (if rs_status r = 429 \<and> int attempts < ap_max_retries K
           then api_loop K R T A c params (attempts + 1) refreshed
             (api_pause (support_backoff R (rs_headers r) (ap_cap K)) s')
           else if rs_status r = 401 \<and> \<not> refreshed \<and> au_invalidate A \<noteq> None
           then api_loop K R T A c params attempts True (api_invalidate (the (au_invalidate A)) s')
           else (Inr r, s')))"
  by pat_completeness auto
termination
  by (relation "measure (\<lambda>(K, R, T, A, c, params, attempts, refreshed, s).
      nat (ap_max_retries K - int attempts) + (if refreshed then 0 else 1))") auto

declare api_loop.simps [simp del]

definition api_send ::
  "api_client \<Rightarrow> rate_lib \<Rightarrow> 'w api_sender \<Rightarrow> 'w api_auth \<Rightarrow> api_call \<Rightarrow> 'w api_state \<Rightarrow>
     (api_exn + http_response) \<times> 'w api_state" where
  "api_send K R T A c s = api_loop K R T A c (merged_params c (au_params A (as_world s))) 0 False s"

section \<open>Answers\<close>

text \<open>\<open>_parse_body\<close>: the body decoded as JSON, or its text.\<close>

definition parse_body :: "(string \<Rightarrow> json option) \<Rightarrow> (string \<Rightarrow> string) \<Rightarrow> http_response \<Rightarrow> json" where
  "parse_body decode text r =
     (let body = concat (rs_chunks r) in
      if rs_status r = 204 \<or> body = [] then JNull
      else if occurs_in ''json'' (or_empty (map_of (rs_headers r) ''content-type''))
      then (case decode body of Some v \<Rightarrow> v | None \<Rightarrow> JStr (text body))
      else JStr (text body))"

definition first_truthy :: "json list \<Rightarrow> json" where
  "first_truthy vs = (case dropWhile (\<lambda>v. \<not> truthy v) vs of [] \<Rightarrow> JStr [] | v # _ \<Rightarrow> v)"

definition error_detail :: "(json \<Rightarrow> string) \<Rightarrow> json \<Rightarrow> string" where
  "error_detail str data =
     (case data of
        JObj d \<Rightarrow>
          str (first_truthy
            [get d ''detail'', get d ''message'', get d ''error'', get d ''errorSummary''])
      | _ \<Rightarrow> [])"

text \<open>\<open>limits\<close> spells the last snapshot; \<open>str\<close> is Python's.\<close>

definition map_error ::
  "api_client \<Rightarrow> (json \<Rightarrow> string) \<Rightarrow> (rate_snapshot option \<Rightarrow> string) \<Rightarrow> string list \<Rightarrow>
     rate_snapshot option \<Rightarrow> api_call \<Rightarrow> http_response \<Rightarrow> json \<Rightarrow> api_exn" where
  "map_error K str limits secrets rate c r data =
     (let head = ''HTTP '' @ show_int (rs_status r) @ '' for '' @ ac_method c @ '' '' @ ac_path c;
          detail = error_detail str data;
          told = (if detail = [] then head else head @ '': '' @ detail);
          message = (if rs_status r = 429
            then told @ '' - rate limited after '' @ show_int (ap_max_retries K) @ '' retries '' @ limits rate
            else told)
      in ApiExn (case map_of (ap_error_map K) (rs_status r) of None \<Rightarrow> ap_default_error K | Some cls \<Rightarrow> cls)
           (redact_secrets secrets message))"

record api_envelope =
  av_status :: int
  av_data :: json
  av_rate :: "rate_snapshot option"
  av_headers :: "(string, string) dict option"

definition api_request ::
  "api_client \<Rightarrow> rate_lib \<Rightarrow> (string \<Rightarrow> json option) \<Rightarrow> (string \<Rightarrow> string) \<Rightarrow> (json \<Rightarrow> string) \<Rightarrow>
     (rate_snapshot option \<Rightarrow> string) \<Rightarrow> 'w api_sender \<Rightarrow> 'w api_auth \<Rightarrow> bool \<Rightarrow> api_call \<Rightarrow> 'w api_state \<Rightarrow>
     (api_exn + api_envelope) \<times> 'w api_state" where
  "api_request K R decode text str limits T A raises c s =
     (case api_send K R T A c s of
        (Inl e, s') \<Rightarrow> (Inl e, s')
      | (Inr r, s') \<Rightarrow>
          (let body = parse_body decode text r in
           if raises \<and> 400 \<le> rs_status r
           then (Inl (map_error K str limits (au_secrets A) (as_rate s') c r body), s')
           else (Inr \<lparr>av_status = rs_status r, av_data = body, av_rate = as_rate s',
                   av_headers = (if ap_with_headers K then Some (rs_headers r) else None)\<rparr>, s')))"

section \<open>What the loop does\<close>

definition statuses :: "api_event list \<Rightarrow> int option list" where
  "statuses t = concat (map (\<lambda>e. case e of ApiSent hs st \<Rightarrow> [st] | _ \<Rightarrow> []) t)"

definition api_sleeps :: "api_event list \<Rightarrow> rat list" where
  "api_sleeps t = concat (map (\<lambda>e. case e of ApiSlept d \<Rightarrow> [d] | _ \<Rightarrow> []) t)"

definition refreshes :: "api_event list \<Rightarrow> nat" where
  "refreshes t = count_list t Invalidated"

lemma api_trace_simps [simp]:
  "statuses [] = []" "statuses (t @ u) = statuses t @ statuses u" "statuses (ApiSent hs st # t) = st # statuses t"
  "statuses (ApiSlept d # t) = statuses t" "statuses (Invalidated # t) = statuses t"
  "api_sleeps [] = []" "api_sleeps (t @ u) = api_sleeps t @ api_sleeps u"
  "api_sleeps (ApiSent hs st # t) = api_sleeps t"
  "api_sleeps (ApiSlept d # t) = d # api_sleeps t" "api_sleeps (Invalidated # t) = api_sleeps t"
  "refreshes [] = 0" "refreshes (t @ u) = refreshes t + refreshes u"
  "refreshes (ApiSent hs st # t) = refreshes t"
  "refreshes (ApiSlept d # t) = refreshes t" "refreshes (Invalidated # t) = Suc (refreshes t)"
  by (simp_all add: statuses_def api_sleeps_def refreshes_def)

lemma api_attempt_trace:
  assumes "api_attempt K R T A c params s = (res, s')"
  obtains t where "as_trace s' = as_trace s @ t" "api_sleeps t = []" "refreshes t = 0"
    "case res of Inl e \<Rightarrow> length (statuses t) \<le> 1 | Inr r \<Rightarrow> statuses t = [Some (rs_status r)]"
proof -
  obtain t where "as_trace s' = as_trace s @ t" "t = [] \<and> isl res \<or>
      (\<exists>hs st. t = [ApiSent hs st] \<and> (case res of Inl e \<Rightarrow> True | Inr r \<Rightarrow> st = Some (rs_status r)))"
    using assms
    by (auto simp: api_attempt_def Let_def split: prod.splits sum.splits option.splits)
  then show thesis by (cases res) (auto intro!: that [of t])
qed

lemma float_min_le: "float_min v (Fin cap) = Fin w \<Longrightarrow> w \<le> cap"
  by (cases v) (auto simp: float_min_def split: if_splits)

lemma pause_trace:
  "\<exists>t. as_trace (api_pause (support_backoff R h cap) s) = as_trace s @ t \<and> statuses t = [] \<and> refreshes t = 0
     \<and> list_all (\<lambda>d. 0 < d \<and> d \<le> cap) (api_sleeps t)"
proof (cases "support_backoff R h cap")
  case (Fin w)
  have "w \<le> cap"
    using Fin unfolding support_backoff_def Let_def by (rule float_min_le)
  with Fin show ?thesis by (auto simp: api_pause_def)
qed (simp_all add: api_pause_def)

lemma api_loop_trace:
  assumes "api_loop K R T A c params attempts refreshed s = (res, s')"
  shows "\<exists>t. as_trace s' = as_trace s @ t
    \<and> length (statuses t) \<le> nat (ap_max_retries K - int attempts) + 1 + refreshes t
    \<and> refreshes t \<le> (if refreshed \<or> au_invalidate A = None then 0 else 1)
    \<and> list_all (\<lambda>d. 0 < d \<and> d \<le> ap_cap K) (api_sleeps t)
    \<and> (case res of
         Inl e \<Rightarrow> True
       | Inr r \<Rightarrow>
           statuses t \<noteq> [] \<and> last (statuses t) = Some (rs_status r)
           \<and> set (butlast (statuses t)) \<subseteq> {Some 429, Some 401}
           \<and> (if rs_status r = 429
              then count_list (statuses t) (Some 429) = nat (ap_max_retries K - int attempts) + 1 else True))"
  using assms
proof (induction K R T A c params attempts refreshed s arbitrary: res s' rule: api_loop.induct)
  case (1 K R T A c params attempts refreshed s)
  obtain res1 s1 where first: "api_attempt K R T A c params s = (res1, s1)"
    by (cases "api_attempt K R T A c params s")
  from first obtain t1 where t1: "as_trace s1 = as_trace s @ t1" "api_sleeps t1 = []" "refreshes t1 = 0"
    "case res1 of Inl e \<Rightarrow> length (statuses t1) \<le> 1 | Inr r \<Rightarrow> statuses t1 = [Some (rs_status r)]"
    by (rule api_attempt_trace)
  show ?case
  proof (cases res1)
    case (Inl e)
    with "1.prems" first t1 show ?thesis
      by (subst (asm) api_loop.simps) (auto intro!: exI [of _ t1])
  next
    case (Inr r)
    have st1: "statuses t1 = [Some (rs_status r)]" using t1(4) Inr by simp
    show ?thesis
    proof (cases "rs_status r = 429 \<and> int attempts < ap_max_retries K")
      case limited: True
      let ?s2 = "api_pause (support_backoff R (rs_headers r) (ap_cap K)) s1"
      have run: "api_loop K R T A c params (attempts + 1) refreshed ?s2 = (res, s')"
        using "1.prems" limited first Inr by (subst (asm) api_loop.simps) simp
      obtain t2 where t2: "as_trace ?s2 = as_trace s1 @ t2" "statuses t2 = []" "refreshes t2 = 0"
        "list_all (\<lambda>d. 0 < d \<and> d \<le> ap_cap K) (api_sleeps t2)"
        using pause_trace by blast
      from "1.IH"(1) [OF first [symmetric] Inr limited run] obtain t3 where
        t3: "as_trace s' = as_trace ?s2 @ t3"
          "length (statuses t3) \<le> nat (ap_max_retries K - int (attempts + 1)) + 1 + refreshes t3"
          "refreshes t3 \<le> (if refreshed \<or> au_invalidate A = None then 0 else 1)"
          "list_all (\<lambda>d. 0 < d \<and> d \<le> ap_cap K) (api_sleeps t3)"
          "case res of
             Inl e \<Rightarrow> True
           | Inr r \<Rightarrow>
               statuses t3 \<noteq> [] \<and> last (statuses t3) = Some (rs_status r)
               \<and> set (butlast (statuses t3)) \<subseteq> {Some 429, Some 401}
               \<and> (if rs_status r = 429
                  then count_list (statuses t3) (Some 429) = nat (ap_max_retries K - int (attempts + 1)) + 1
                  else True)" by blast
      have left: "nat (ap_max_retries K - int attempts) = nat (ap_max_retries K - int (attempts + 1)) + 1"
        using limited by linarith
      show ?thesis
        by (rule exI [of _ "t1 @ t2 @ t3"])
          (use t1 t2 t3 st1 limited left in \<open>auto split: sum.splits if_splits\<close>)
    next
      case unlimited: False
      show ?thesis
      proof (cases "rs_status r = 401 \<and> \<not> refreshed \<and> au_invalidate A \<noteq> None")
        case denied: True
        let ?s2 = "api_invalidate (the (au_invalidate A)) s1"
        have run: "api_loop K R T A c params attempts True ?s2 = (res, s')"
          using "1.prems" denied unlimited first Inr by (subst (asm) api_loop.simps) simp
        have t2: "as_trace ?s2 = as_trace s1 @ [Invalidated]" by (simp add: api_invalidate_def)
        from "1.IH"(2) [OF first [symmetric] Inr unlimited denied run] obtain t3 where
          t3: "as_trace s' = as_trace ?s2 @ t3"
            "length (statuses t3) \<le> nat (ap_max_retries K - int attempts) + 1 + refreshes t3"
            "refreshes t3 \<le> 0" "list_all (\<lambda>d. 0 < d \<and> d \<le> ap_cap K) (api_sleeps t3)"
            "case res of
               Inl e \<Rightarrow> True
             | Inr r \<Rightarrow>
                 statuses t3 \<noteq> [] \<and> last (statuses t3) = Some (rs_status r)
                 \<and> set (butlast (statuses t3)) \<subseteq> {Some 429, Some 401}
                 \<and> (if rs_status r = 429
                    then count_list (statuses t3) (Some 429) = nat (ap_max_retries K - int attempts) + 1
                    else True)" by auto
        show ?thesis
          by (rule exI [of _ "t1 @ [Invalidated] @ t3"])
            (use t1 t2 t3 st1 denied in \<open>auto split: sum.splits if_splits\<close>)
      next
        case False
        have "(res, s') = (Inr r, s1)"
          using "1.prems" unlimited False first Inr by (subst (asm) api_loop.simps) auto
        with t1 st1 unlimited show ?thesis by (auto intro!: exI [of _ t1])
      qed
    qed
  qed
qed

text \<open>
  Property C28. However a vendor answers, a request of the class-based client ends: it is sent at
  most \<open>max_retries_429\<close> times after a 429 and at most once more after the first 401, once the
  strategy has dropped its credential; every wait is within the configured cap, whatever the headers
  ask for; only 429 and 401 are ever repeated; and a 429 that is returned has used up every retry.
\<close>

theorem api_send_bounded:
  "case api_send K R T A c s of (res, s') \<Rightarrow>
    (\<exists>t. as_trace s' = as_trace s @ t
      \<and> length (statuses t) \<le> nat (ap_max_retries K) + 1 + refreshes t
      \<and> refreshes t \<le> (if au_invalidate A = None then 0 else 1)
      \<and> list_all (\<lambda>d. 0 < d \<and> d \<le> ap_cap K) (api_sleeps t)
      \<and> (case res of
           Inl e \<Rightarrow> True
         | Inr r \<Rightarrow>
             statuses t \<noteq> [] \<and> last (statuses t) = Some (rs_status r)
             \<and> set (butlast (statuses t)) \<subseteq> {Some 429, Some 401}
             \<and> (if rs_status r = 429
                then count_list (statuses t) (Some 429) = nat (ap_max_retries K) + 1 else True)))"
proof -
  obtain res s' where run: "api_send K R T A c s = (res, s')" by (cases "api_send K R T A c s")
  from api_loop_trace [OF run [unfolded api_send_def]]
  show ?thesis unfolding run prod.case by (simp only: of_nat_0 diff_zero HOL.simp_thms)
qed

text \<open>
  The message of an error that an answer becomes never contains a secret of the strategy, whatever
  the vendor put in its body, short of secrets that the redaction mark itself spells.
\<close>

lemma errors_hide_secrets:
  assumes "map_error K str limits secrets rate c r data = ApiExn cls message" "p \<in> set secrets" "plain_secret p"
  shows "\<not> occurs_in p message"
  using assms redact_creates_none [OF assms(3)] by (auto simp: map_error_def Let_def)

end
