(* ===== verification/Http_Body.thy ===== *)
theory Http_Body
  imports Http_Flow
begin

text \<open>
  Response bodies within a bound (\<^verbatim>\<open>http/bodies.py\<close>, \<^verbatim>\<open>http/_bounded_provider.py\<close>) and the
  success check and JSON requests over them (\<^verbatim>\<open>http/responses.py\<close>). A body is the list of chunks
  the connection delivers; decoding JSON is the library's, a parameter.
\<close>

section \<open>Bounded reading\<close>

definition too_large :: "url_lib \<Rightarrow> http_request \<Rightarrow> int \<Rightarrow> http_exn" where
  "too_large U q max_bytes =
     HttpError ResponseTooLargeError
       (sdk_problem ''response-too-large'' ''Response body too large'' (Some (request_target U q))
         [(''max_bytes'', JInt max_bytes)])"

text \<open>
  \<^theory_text>\<open>str.isdigit\<close> also takes the superscripts one to three, which
  \<^theory_text>\<open>int\<close> then refuses, as it refuses more than 4300 digits.
\<close>

definition is_digit_char :: "char \<Rightarrow> bool" where
  "is_digit_char c = (digit_value c \<noteq> None \<or> (of_char c :: nat) \<in> {178, 179, 185})"

definition declared_length :: "string \<Rightarrow> http_exn + nat option" where
  "declared_length v =
     (if v = [] \<or> \<not> list_all is_digit_char v then Inr None
      else case read_digits 0 v of
             None \<Rightarrow> Inl (PlainExn ''ValueError'' [])
           | Some n \<Rightarrow> if 4300 < length v then Inl (PlainExn ''ValueError'' []) else Inr (Some n))"

definition header :: "string \<Rightarrow> http_response \<Rightarrow> string" where
  "header name r = or_empty (map_of (rs_headers r) name)"

definition check_declared_length :: "url_lib \<Rightarrow> http_request \<Rightarrow> http_response \<Rightarrow> int \<Rightarrow> http_exn + unit" where
  "check_declared_length U q r max_bytes =
     bindR (declared_length (header ''content-length'' r)) (\<lambda>n.
       refuse_if (case n of None \<Rightarrow> False | Some d \<Rightarrow> max_bytes < int d) (too_large U q max_bytes))"

text \<open>
  The generator: the chunks it yields, and the exception that ends it, if any. The asynchronous
  form differs only in awaiting the chunks.
\<close>

fun bounded_chunks :: "http_exn \<Rightarrow> int \<Rightarrow> int \<Rightarrow> string list \<Rightarrow> string list \<times> http_exn option" where
  "bounded_chunks e max_bytes received [] = ([], None)"
| "bounded_chunks e max_bytes received (c # cs) =
     (let received' = received + int (length c) in
      if max_bytes < received' then ([], Some e)
      else case bounded_chunks e max_bytes received' cs of (ys, x) \<Rightarrow> (c # ys, x))"

definition iter_bounded ::
  "url_lib \<Rightarrow> http_request \<Rightarrow> http_response \<Rightarrow> int \<Rightarrow> string list \<times> http_exn option" where
  "iter_bounded U q r max_bytes =
     (case check_declared_length U q r max_bytes of
        Inl e \<Rightarrow> ([], Some e)
      | Inr u \<Rightarrow> bounded_chunks (too_large U q max_bytes) max_bytes 0 (rs_chunks r))"

definition read_bounded :: "url_lib \<Rightarrow> http_request \<Rightarrow> http_response \<Rightarrow> int \<Rightarrow> http_exn + string" where
  "read_bounded U q r max_bytes =
     (case iter_bounded U q r max_bytes of
        (cs, None) \<Rightarrow> Inr (concat cs)
      | (cs, Some e) \<Rightarrow> Inl e)"

definition default_max_response_bytes :: int where
  "default_max_response_bytes = 16 * 1024 * 1024"

text \<open>What is yielded is a prefix of the body within the bound, the whole of it when nothing is raised.\<close>

lemma bounded_chunks_spec:
  assumes "received \<le> max_bytes"
  shows "case bounded_chunks e max_bytes received cs of (ys, x) \<Rightarrow>
    (\<exists>zs. cs = ys @ zs \<and> (x = None \<longleftrightarrow> zs = [])) \<and> received + int (length (concat ys)) \<le> max_bytes
    \<and> (x = None \<longleftrightarrow> received + int (length (concat cs)) \<le> max_bytes) \<and> (x = None \<or> x = Some e)"
  using assms
proof (induction cs arbitrary: received)
  case (Cons c cs)
  show ?case
  proof (cases "max_bytes < received + int (length c)")
    case False
    obtain ys x where rec: "bounded_chunks e max_bytes (received + int (length c)) cs = (ys, x)"
      by (cases "bounded_chunks e max_bytes (received + int (length c)) cs")
    from Cons.IH [of "received + int (length c)"] False obtain zs where
      "cs = ys @ zs" "x = None \<longleftrightarrow> zs = []"
      "received + int (length c) + int (length (concat ys)) \<le> max_bytes"
      "x = None \<longleftrightarrow> received + int (length c) + int (length (concat cs)) \<le> max_bytes" "x = None \<or> x = Some e"
      by (auto simp: rec)
    moreover have "bounded_chunks e max_bytes received (c # cs) = (c # ys, x)"
      using False by (simp add: rec Let_def)
    ultimately show ?thesis by (simp add: add.assoc)
  qed (use Cons.prems in \<open>auto simp: Let_def\<close>)
qed simp

text \<open>
  A bounded read never hands on more than the bound: whatever the server declares and
  sends, the chunks yielded are a prefix of the body of at most \<open>max_bytes\<close> bytes; and reading
  succeeds, with exactly the body, if and only if the declared length, when it is a number, and the
  body itself are within the bound.
\<close>

theorem bounded_read:
  "0 \<le> max_bytes \<Longrightarrow>
     int (length (concat (fst (iter_bounded U q r max_bytes)))) \<le> max_bytes
     \<and> (\<exists>zs. rs_chunks r = fst (iter_bounded U q r max_bytes) @ zs)
     \<and> (read_bounded U q r max_bytes = Inr body \<longleftrightarrow>
          check_declared_length U q r max_bytes = Inr () \<and> body = concat (rs_chunks r)
          \<and> int (length body) \<le> max_bytes)"
proof (cases "check_declared_length U q r max_bytes")
  case (Inl e)
  assume "0 \<le> max_bytes"
  with Inl show ?thesis by (simp add: iter_bounded_def read_bounded_def)
next
  case (Inr u)
  assume "0 \<le> max_bytes"
  obtain ys x where run: "bounded_chunks (too_large U q max_bytes) max_bytes 0 (rs_chunks r) = (ys, x)"
    by (cases "bounded_chunks (too_large U q max_bytes) max_bytes 0 (rs_chunks r)")
  from bounded_chunks_spec [OF \<open>0 \<le> max_bytes\<close>, where e = "too_large U q max_bytes" and cs = "rs_chunks r"]
  show ?thesis
    by (cases x) (auto simp: iter_bounded_def read_bounded_def Inr run)
qed

section \<open>Success and JSON\<close>

definition error_body_bytes :: nat where
  "error_body_bytes = 64 * 1024"

text \<open>The chunks of an error body that are read: until enough bytes are there.\<close>

fun error_chunks :: "nat \<Rightarrow> string list \<Rightarrow> string list" where
  "error_chunks got [] = []"
| "error_chunks got (c # cs) =
     c # (if error_body_bytes \<le> got + length c then [] else error_chunks (got + length c) cs)"

lemma error_chunks_bounded:
  "error_chunks got cs = xs @ [c] \<Longrightarrow> got < error_body_bytes \<Longrightarrow>
     got + length (concat xs) < error_body_bytes"
proof (induction cs arbitrary: got xs)
  case (Cons d cs)
  show ?case
  proof (cases xs)
    case (Cons x xs')
    then show ?thesis
      using Cons.prems Cons.IH [of "got + length d" xs'] by (auto split: if_splits)
  qed (use Cons.prems in simp)
qed simp

record http_lib =
  hl_urls :: url_lib
  hl_phrase :: "int \<Rightarrow> string option"
  hl_dates :: "string \<Rightarrow> http_date"
  hl_decode :: "string \<Rightarrow> json option"

text \<open>
  \<open>ensure_success\<close>: the error of a status from 400 on; one the problem model refuses, beyond 599,
  is its validation error.
\<close>

definition ensure_success :: "http_lib \<Rightarrow> http_response \<Rightarrow> http_exn + unit" where
  "ensure_success H r =
     (if rs_status r < 400 then Inr ()
      else case error_for_response (hl_phrase H) (hl_dates H) r of
             None \<Rightarrow> Inl (PlainExn ''ValidationError'' [])
           | Some None \<Rightarrow> Inr ()
           | Some (Some e) \<Rightarrow> Inl e)"

definition json_of :: "http_lib \<Rightarrow> http_request \<Rightarrow> string \<Rightarrow> http_exn + json" where
  "json_of H q body =
     (if body = [] then Inr JNull
      else case hl_decode H body of
             None \<Rightarrow>
               Inl (HttpError HttpProblemError
                 (sdk_problem ''invalid-json'' ''Response is not valid JSON''
                   (Some (request_target (hl_urls H) q)) []))
           | Some v \<Rightarrow> Inr v)"

text \<open>\<open>request_json\<close> over a client that sends: the body is read only after the status is checked.\<close>

definition request_json ::
  "http_lib \<Rightarrow> (http_request \<Rightarrow> ('w, http_response) http_prog) \<Rightarrow> int \<Rightarrow> http_request \<Rightarrow> ('w, json) http_prog" where
  "request_json H client max_bytes q =
     bindP (client q) (\<lambda>r.
     thenP (liftP (ensure_success H r))
     (bindP (liftP (read_bounded (hl_urls H) q r max_bytes)) (\<lambda>body.
       liftP (json_of H q body))))"

lemma ensure_success_iff: "ensure_success H r = Inr () \<longleftrightarrow> rs_status r < 400"
  by (auto simp: ensure_success_def error_for_response_def split: option.splits)

text \<open>A JSON value comes only of a response below 400 whose whole body is within the bound.\<close>

lemma request_json_value:
  assumes "request_json H client max_bytes q s = (Inr v, s')" "0 \<le> max_bytes"
  obtains r where "client q s = (Inr r, s')" "rs_status r < 400"
    "int (length (concat (rs_chunks r))) \<le> max_bytes"
    "if concat (rs_chunks r) = [] then v = JNull else hl_decode H (concat (rs_chunks r)) = Some v"
proof -
  obtain r body where r: "client q s = (Inr r, s')" "ensure_success H r = Inr ()"
    and body: "read_bounded (hl_urls H) q r max_bytes = Inr body" "json_of H q body = Inr v"
    using assms(1) by (auto simp: request_json_def run_iff)
  have b: "body = concat (rs_chunks r)" "int (length body) \<le> max_bytes"
  proof -
    from body(1) obtain cs where cs: "iter_bounded (hl_urls H) q r max_bytes = (cs, None)" "body = concat cs"
      by (auto simp: read_bounded_def split: prod.splits option.splits)
    then have "bounded_chunks (too_large (hl_urls H) q max_bytes) max_bytes 0 (rs_chunks r) = (cs, None)"
      by (auto simp: iter_bounded_def split: sum.splits)
    with bounded_chunks_spec [OF assms(2), where e = "too_large (hl_urls H) q max_bytes" and cs = "rs_chunks r"] cs(2)
    show "body = concat (rs_chunks r)" "int (length body) \<le> max_bytes" by auto
  qed
  have "if concat (rs_chunks r) = [] then v = JNull else hl_decode H (concat (rs_chunks r)) = Some v"
    using body(2) b(1) by (auto simp: json_of_def split: if_splits option.splits)
  with r b show thesis using that ensure_success_iff by metis
qed

section \<open>Bounded providers\<close>

definition provider_ok :: "bool \<Rightarrow> retry_policy \<Rightarrow> int \<Rightarrow> string + unit" where
  "provider_ok pin_egress policy max_bytes =
     refuse_if (\<not> pin_egress \<or> rp_max_attempts policy \<noteq> 1 \<or> max_bytes < 1) ''invalid bounded provider policy''"

fun bounded_body :: "int \<Rightarrow> string \<Rightarrow> string list \<Rightarrow> string + string" where
  "bounded_body limit result [] = Inr result"
| "bounded_body limit result (c # cs) =
     (if limit < int (length result + length c) then Inl ''provider response exceeds admitted byte bound''
      else bounded_body limit (result @ c) cs)"

lemma bounded_body_iff:
  "int (length acc) \<le> limit \<Longrightarrow>
     bounded_body limit acc cs = Inr body \<longleftrightarrow> body = acc @ concat cs \<and> int (length body) \<le> limit"
proof (induction cs arbitrary: acc)
  case (Cons c cs)
  then show ?case using Cons.IH [of "acc @ c"] by (auto simp: algebra_simps)
qed auto

end
