(* ===== verification/Http_Links.thy ===== *)
theory Http_Links
  imports Json_Value
begin

text \<open>
  The next target of a \<^verbatim>\<open>Link\<close> header (\<^verbatim>\<open>httpsupport/pagination_link.py\<close>): a scan that walks
  the header once with two cursors, and what it answers: the first target whose parameters, up to
  the next comma, name the relation. Positions are indices into the header.
\<close>

section \<open>Searching\<close>

text \<open>\<^theory_text>\<open>raw.find(c, pos)\<close>.\<close>

fun find_from :: "string \<Rightarrow> char \<Rightarrow> nat \<Rightarrow> nat option" where
  "find_from [] c n = None"
| "find_from (x # xs) c 0 = (if x = c then Some 0 else map_option Suc (find_from xs c 0))"
| "find_from (x # xs) c (Suc n) = map_option Suc (find_from xs c n)"

lemma find_from_bounds: "find_from xs c n = Some i \<Longrightarrow> n \<le> i \<and> i < length xs \<and> xs ! i = c"
  by (induction xs c n arbitrary: i rule: find_from.induct) (auto split: if_splits)

lemma find_from_least: "find_from xs c n = Some i \<Longrightarrow> n \<le> j \<Longrightarrow> j < i \<Longrightarrow> xs ! j \<noteq> c"
proof (induction xs c n arbitrary: i j rule: find_from.induct)
  case (2 x xs c)
  then show ?case by (cases j) (auto split: if_splits)
next
  case (3 x xs c n)
  then show ?case by (cases j) auto
qed simp

lemma find_from_none: "find_from xs c n = None \<Longrightarrow> n \<le> j \<Longrightarrow> j < length xs \<Longrightarrow> xs ! j \<noteq> c"
proof (induction xs c n arbitrary: j rule: find_from.induct)
  case (2 x xs c)
  then show ?case by (cases j) (auto split: if_splits)
next
  case (3 x xs c n)
  then show ?case by (cases j) auto
qed simp

lemma find_from_eqI:
  assumes "find_from xs c n = Some i" "n \<le> m" "m \<le> i"
  shows "find_from xs c m = Some i"
proof (cases "find_from xs c m")
  case None
  with find_from_none [OF None assms(3)] find_from_bounds [OF assms(1)] show ?thesis by auto
next
  case (Some k)
  have "\<not> k < i" using find_from_least [OF assms(1), of k] find_from_bounds [OF Some] assms(2) by auto
  moreover have "\<not> i < k" using find_from_least [OF Some, of i] find_from_bounds [OF assms(1)] assms(3) by auto
  ultimately show ?thesis using Some by simp
qed

lemma find_from_none_mono: "find_from xs c n = None \<Longrightarrow> n \<le> m \<Longrightarrow> find_from xs c m = None"
proof (cases "find_from xs c m")
  case (Some i)
  assume "find_from xs c n = None" "n \<le> m"
  with find_from_bounds [OF Some] find_from_none [of xs c n i] show ?thesis by auto
qed

section \<open>The relation\<close>

text \<open>
  A word character of the pattern, below code point 256, and the matches of
  \<^verbatim>\<open>\brel="?next"?\<close>: the positions where it starts.
\<close>

definition word_char :: "char \<Rightarrow> bool" where
  "word_char c =
     (let n = (of_char c :: nat)
      in 48 \<le> n \<and> n \<le> 57 \<or> 65 \<le> n \<and> n \<le> 90 \<or> 97 \<le> n \<and> n \<le> 122 \<or> n = 95
         \<or> n \<in> {170, 178, 179, 181, 185, 186, 188, 189, 190} \<or> 192 \<le> n \<and> n \<noteq> 215 \<and> n \<noteq> 247)"

definition quote_mark :: char where
  "quote_mark = CHR 0x22"

definition relation_text :: "string \<Rightarrow> bool" where
  "relation_text s \<longleftrightarrow>
     starts_text ''rel='' s
     \<and> (let t = drop 4 s; u = (if take 1 t = [quote_mark] then drop 1 t else t) in starts_text ''next'' u)"

definition relation_at :: "string \<Rightarrow> nat \<Rightarrow> bool" where
  "relation_at raw i \<longleftrightarrow> relation_text (drop i raw) \<and> (i = 0 \<or> \<not> word_char (raw ! (i - 1)))"

definition relations :: "string \<Rightarrow> nat list" where
  "relations raw = filter (relation_at raw) [0..<length raw]"

section \<open>Targets\<close>

definition skip_spaces :: "string \<Rightarrow> nat \<Rightarrow> nat" where
  "skip_spaces raw pos = pos + length (takeWhile py_space (drop pos raw))"

text \<open>\<open>_candidates\<close>: the bounds of each non-empty target and where its parameters start.\<close>

function candidates :: "string \<Rightarrow> nat \<Rightarrow> (nat \<times> nat \<times> nat) list" where
  "candidates raw pos =
     (if length raw \<le> pos then []
      else case find_from raw CHR ''<'' pos of
             None \<Rightarrow> []
           | Some left \<Rightarrow>
               (case find_from raw CHR ''>'' (left + 1) of
                  None \<Rightarrow> []
                | Some right \<Rightarrow>
                    (let end_at = skip_spaces raw (right + 1);
                         rest = candidates raw (right + 1)
                     in if left + 1 < right \<and> end_at < length raw \<and> raw ! end_at = CHR '';''
                        then (left + 1, right, end_at + 1) # rest else rest)))"
  by auto
termination
  by (relation "measure (\<lambda>(raw, pos). length raw - pos)") (auto dest!: find_from_bounds)

declare candidates.simps [simp del]

lemma skip_spaces_ge: "pos \<le> skip_spaces raw pos"
  by (simp add: skip_spaces_def)

lemma skipped_is_space:
  "pos \<le> j \<Longrightarrow> j < skip_spaces raw pos \<Longrightarrow> py_space (raw ! j)"
proof -
  assume j: "pos \<le> j" "j < skip_spaces raw pos"
  then have "j - pos < length (takeWhile py_space (drop pos raw))" by (simp add: skip_spaces_def)
  then have "py_space (takeWhile py_space (drop pos raw) ! (j - pos))"
    by (meson nth_mem set_takeWhileD)
  moreover have "takeWhile py_space (drop pos raw) ! (j - pos) = drop pos raw ! (j - pos)"
    using \<open>j - pos < length (takeWhile py_space (drop pos raw))\<close> by (rule takeWhile_nth)
  moreover have "pos \<le> length raw"
    using \<open>j - pos < _\<close> by (cases "pos \<le> length raw") simp_all
  ultimately show "py_space (raw ! j)" using j by simp
qed

lemma candidates_unfold:
  obtains (none) "candidates raw pos = []"
  | (target) l r where "\<not> length raw \<le> pos" "find_from raw CHR ''<'' pos = Some l"
      "find_from raw CHR ''>'' (l + 1) = Some r" "pos \<le> l" "l < r" "raw ! l = CHR ''<''"
      "candidates raw pos
        = (if l + 1 < r \<and> skip_spaces raw (r + 1) < length raw \<and> raw ! skip_spaces raw (r + 1) = CHR '';''
           then (l + 1, r, skip_spaces raw (r + 1) + 1) # candidates raw (r + 1) else candidates raw (r + 1))"
proof (cases "length raw \<le> pos")
  case True
  then show thesis by (intro none) (simp add: candidates.simps)
next
  case False
  show thesis
  proof (cases "find_from raw CHR ''<'' pos")
    case None
    then show thesis by (intro none) (simp add: candidates.simps)
  next
    case (Some l)
    note l = this
    show thesis
    proof (cases "find_from raw CHR ''>'' (l + 1)")
      case None
      with l show thesis by (intro none) (simp add: candidates.simps)
    next
      case (Some r)
      show thesis
        by (rule target [OF False l Some])
          (use find_from_bounds [OF l] find_from_bounds [OF Some] in
            \<open>auto simp: candidates.simps [of raw pos] False l Some [simplified] Let_def\<close>)
    qed
  qed
qed

text \<open>A target lies behind the position, between its brackets, and its parameters behind it.\<close>

lemma candidates_after:
  "(left, right, start) \<in> set (candidates raw pos) \<Longrightarrow>
     pos < left \<and> left \<le> right \<and> right < start \<and> raw ! (left - 1) = CHR ''<''"
proof (induction raw pos rule: candidates.induct)
  case (1 raw pos)
  show ?case
  proof (cases raw pos rule: candidates_unfold)
    case (target l r)
    then consider "(left, right, start) = (l + 1, r, skip_spaces raw (r + 1) + 1)" "l + 1 < r"
      | "(left, right, start) \<in> set (candidates raw (r + 1))"
      using 1(2) by (auto split: if_splits)
    then show ?thesis
    proof cases
      case 1
      with target skip_spaces_ge [of "r + 1" raw] show ?thesis by auto
    next
      case 2
      with "1.IH" [OF target(1-3)] target(4,5) show ?thesis by fastforce
    qed
  qed (use 1(2) in simp)
qed

text \<open>Parameters start in increasing order.\<close>

lemma candidates_sorted: "sorted (map (\<lambda>(l, r, start). start) (candidates raw pos))"
proof (induction raw pos rule: candidates.induct)
  case (1 raw pos)
  show ?case
  proof (cases raw pos rule: candidates_unfold)
    case (target l r)
    note IH = "1.IH" [OF target(1-3)]
    let ?e = "skip_spaces raw (r + 1)"
    have "?e + 1 \<le> start" if c: "(l', r', start) \<in> set (candidates raw (r + 1))"
      and e: "raw ! ?e = CHR '';''" for l' r' start
    proof -
      from candidates_after [OF c] have
        after: "r + 1 < l'" "l' \<le> r'" "r' < start" "raw ! (l' - 1) = CHR ''<''" by auto
      have "\<not> l' - 1 < ?e"
      proof
        assume "l' - 1 < ?e"
        then have "py_space (raw ! (l' - 1))" using after(1) by (intro skipped_is_space [of "r + 1"]) auto
        then show False using after(4) by (simp add: py_space_def)
      qed
      with after show ?thesis by simp
    qed
    with IH show ?thesis by (auto simp: target(7))
  qed simp
qed

section \<open>The scan\<close>

definition slice :: "nat \<Rightarrow> nat \<Rightarrow> string \<Rightarrow> string" where
  "slice a b s = take (b - a) (drop a s)"

definition comma_after :: "string \<Rightarrow> nat \<Rightarrow> nat" where
  "comma_after raw start = (case find_from raw CHR '','' start of None \<Rightarrow> length raw | Some i \<Rightarrow> i)"

text \<open>The loop of \<open>next_link\<close>: the relations not yet passed and the last comma found, \<open>-1\<close> at first.\<close>

fun scan_link :: "string \<Rightarrow> nat list \<Rightarrow> int \<Rightarrow> (nat \<times> nat \<times> nat) list \<Rightarrow> string option" where
  "scan_link raw rels comma [] = None"
| "scan_link raw rels comma ((left, right, start) # cs) =
     (let comma' = (if comma < int start then int (comma_after raw start) else comma);
          rels' = dropWhile (\<lambda>r. r < start) rels
      in if (case rels' of [] \<Rightarrow> False | r # _ \<Rightarrow> int r < comma') then Some (slice left right raw)
         else scan_link raw rels' comma' cs)"

definition next_link :: "string \<Rightarrow> string option" where
  "next_link raw = scan_link raw (relations raw) (- 1) (candidates raw 0)"

text \<open>\<open>_link_next_url\<close>: the first header of that name, in any case.\<close>

definition link_next_url :: "(string \<times> string) list \<Rightarrow> string option" where
  "link_next_url headers =
     (case filter (\<lambda>(k, v). map lower_char k = ''link'') headers of
        [] \<Rightarrow> None
      | (k, raw) # _ \<Rightarrow> if raw = [] then None else next_link raw)"

section \<open>What the scan answers\<close>

definition names_next :: "string \<Rightarrow> nat \<Rightarrow> bool" where
  "names_next raw start \<longleftrightarrow> list_ex (\<lambda>i. start \<le> i \<and> i < comma_after raw start) (relations raw)"

lemma comma_after_ge: "start \<le> length raw \<Longrightarrow> start \<le> comma_after raw start"
  by (auto simp: comma_after_def split: option.split dest: find_from_bounds)

lemma comma_after_same:
  "s \<le> start \<Longrightarrow> start \<le> comma_after raw s \<Longrightarrow> comma_after raw start = comma_after raw s"
  using find_from_eqI [of raw "CHR '',''" s _ start] find_from_none_mono [of raw "CHR '',''" s start]
  by (auto simp: comma_after_def split: option.splits)

lemma dropWhile_less_twice:
  "s \<le> (t::nat) \<Longrightarrow> dropWhile (\<lambda>r. r < t) (dropWhile (\<lambda>r. r < s) xs) = dropWhile (\<lambda>r. r < t) xs"
  by (induction xs) auto

lemma hd_dropWhile_less:
  "sorted xs \<Longrightarrow>
     (case dropWhile (\<lambda>r. r < t) xs of [] \<Rightarrow> False | r # _ \<Rightarrow> r < c) \<longleftrightarrow> list_ex (\<lambda>i. t \<le> i \<and> i < (c::nat)) xs"
  by (induction xs) (auto simp: list_ex_iff not_less intro: order.strict_trans1)

lemma relations_sorted: "sorted (relations raw)"
  unfolding relations_def by (intro sorted_wrt_filter) simp

lemma scan_link_spec:
  assumes "sorted (map (\<lambda>(l, r, start). start) cs)"
    and "rels = dropWhile (\<lambda>r. r < s) (relations raw)" "\<And>l r start. (l, r, start) \<in> set cs \<Longrightarrow> s \<le> start"
    and "comma = - 1 \<or> comma = int (comma_after raw s)"
  shows "scan_link raw rels comma cs =
    (case find (\<lambda>(l, r, start). names_next raw start) cs of
       None \<Rightarrow> None
     | Some (l, r, start) \<Rightarrow> Some (slice l r raw))"
  using assms
proof (induction cs arbitrary: rels comma s)
  case (Cons c cs)
  obtain l r start where c: "c = (l, r, start)" by (cases c)
  have s: "s \<le> start" using Cons.prems(3) by (auto simp: c)
  have rels: "dropWhile (\<lambda>r. r < start) rels = dropWhile (\<lambda>r. r < start) (relations raw)"
    using Cons.prems(2) dropWhile_less_twice [OF s] by simp
  have comma: "(if comma < int start then int (comma_after raw start) else comma) = int (comma_after raw start)"
    using Cons.prems(4) comma_after_same [OF s] by auto
  have found: "(case dropWhile (\<lambda>r. r < start) (relations raw) of [] \<Rightarrow> False | r # _ \<Rightarrow> int r < int (comma_after raw start))
      = names_next raw start"
    using hd_dropWhile_less [OF relations_sorted [of raw], where t = start and c = "comma_after raw start"]
    by (cases "dropWhile (\<lambda>r. r < start) (relations raw)") (simp_all only: names_next_def list.case of_nat_less_iff)
  have rest: "scan_link raw (dropWhile (\<lambda>r. r < start) (relations raw)) (int (comma_after raw start)) cs =
    (case find (\<lambda>(l, r, start). names_next raw start) cs of
       None \<Rightarrow> None | Some (l, r, start) \<Rightarrow> Some (slice l r raw))"
    by (rule Cons.IH [where s = start]) (use Cons.prems(1) c in auto)
  show ?case
    by (simp add: c Let_def rels comma found rest)
qed simp

text \<open>
  The linear scan of a Link header, with its two cursors that never go back, answers
  what a search from scratch would: the first target, in the order of the header, that has the
  relation next among its parameters before the next comma; and the targets lie within the header.
\<close>

theorem next_link_spec:
  "next_link raw =
    (case find (\<lambda>(l, r, start). names_next raw start) (candidates raw 0) of
       None \<Rightarrow> None
     | Some (l, r, start) \<Rightarrow> Some (slice l r raw))"
proof -
  have "relations raw = dropWhile (\<lambda>r. r < 0) (relations raw)" by (cases "relations raw") simp_all
  then show ?thesis
    unfolding next_link_def by (intro scan_link_spec [where s = 0] candidates_sorted) auto
qed

end
