(* ===== verification/Http_Paging.thy ===== *)
theory Http_Paging
  imports Http_Flow Http_Links Sync_Records
begin

text \<open>
  Pagination over HTTP: the walk that turns a page into the next request
  (\<^verbatim>\<open>httpsupport/pagination_walk.py\<close>, \<^verbatim>\<open>httpsupport/pagination_tokens.py\<close>,
  \<^verbatim>\<open>httpsupport/pagination_page.py\<close>), the iterators with their budgets
  (\<^verbatim>\<open>httpsupport/pagination.py\<close>, \<^verbatim>\<open>httpsupport/pagination_iteration.py\<close>) and the pages and cursors a
  tool returns (\<^verbatim>\<open>http/pagination.py\<close>). The asynchronous iterator differs only in awaiting a page.
\<close>

section \<open>Problems\<close>

definition origin_error :: http_exn where
  "origin_error =
     HttpError PaginationOriginError
       (sdk_problem ''cross-origin-next-url'' ''Pagination URL is outside the permitted origin''
         (Some ''Pagination URL is invalid or not permitted'') [])"

definition page_error :: http_exn where
  "page_error =
     HttpError PaginationPageError
       (sdk_problem ''invalid-pagination-page'' ''Pagination page has no record list''
         (Some ''The response does not match the declared page shape'') [])"

definition page_dig :: "json \<Rightarrow> string \<Rightarrow> json" where
  "page_dig v path = dig v (py_split CHR ''.'' path)"

definition items_at :: "json \<Rightarrow> string \<Rightarrow> http_exn + json list" where
  "items_at data path =
     (case (if path = [] then data else page_dig data path) of
        JArr xs \<Rightarrow> Inr xs
      | _ \<Rightarrow> Inl page_error)"

section \<open>The walk\<close>

datatype page_mode = CursorMode | PageMode | OffsetMode | LinkMode | SinceMode | NextUrlMode

definition page_modes :: "(string \<times> page_mode) list" where
  "page_modes =
     [(''cursor'', CursorMode), (''page'', PageMode), (''offset'', OffsetMode), (''link'', LinkMode),
      (''since_id'', SinceMode), (''next_url'', NextUrlMode)]"

record walk_config =
  wc_endpoint :: string
  wc_mode :: page_mode
  wc_params :: "(string, json) dict"
  wc_items_path :: string
  wc_max_items :: nat
  wc_max_pages :: nat
  wc_cursor_param :: string
  wc_cursor_path :: string
  wc_page_param :: string
  wc_page_size_param :: string
  wc_page_size :: "int option"
  wc_start_page :: int
  wc_offset_param :: string
  wc_limit_param :: string
  wc_since_param :: string
  wc_id_field :: string
  wc_next_path :: string
  wc_base_url :: "string option"

text \<open>The bounds of \<open>_PaginationConfig\<close>: at least one page, no negative number of items.\<close>

definition bounded_config :: "int \<Rightarrow> int \<Rightarrow> walk_config \<Rightarrow> walk_config" where
  "bounded_config items pages c =
     c\<lparr>wc_max_items := nat (max 0 items), wc_max_pages := nat (max 1 pages)\<rparr>"

text \<open>A token is remembered by its type and the digest of its text.\<close>

type_synonym token_key = "string \<times> string"

fun type_name :: "json \<Rightarrow> string" where
  "type_name JNull = ''NoneType''"
| "type_name (JBool b) = ''bool''"
| "type_name (JInt i) = ''int''"
| "type_name (JFloat f) = ''float''"
| "type_name (JStr s) = ''str''"
| "type_name (JArr xs) = ''list''"
| "type_name (JObj kvs) = ''dict''"

record page_lib =
  gl_urls :: url_lib
  gl_py :: pyenv

definition token_key :: "page_lib \<Rightarrow> json \<Rightarrow> token_key" where
  "token_key G v = (type_name v, py_sha256 (gl_py G) (utf8 (py_str (gl_py G) v)))"

record page_walk =
  pw_current_url :: string
  pw_first_origin :: origin
  pw_seen_urls :: "string list"
  pw_tokens :: "token_key list"
  pw_loop :: bool
  pw_page :: int
  pw_offset :: int
  pw_next_cursor :: "string option"

type_synonym page_request = "string \<times> (string, json) dict"

definition follows_urls :: "page_mode \<Rightarrow> bool" where
  "follows_urls m \<longleftrightarrow> m = LinkMode \<or> m = NextUrlMode"

definition token_param :: "walk_config \<Rightarrow> string" where
  "token_param c =
     (case wc_mode c of CursorMode \<Rightarrow> wc_cursor_param c | SinceMode \<Rightarrow> wc_since_param c | _ \<Rightarrow> [])"

definition walk_new :: "page_lib \<Rightarrow> walk_config \<Rightarrow> http_exn + page_walk" where
  "walk_new G c =
     (case ul_join (gl_urls G) (or_empty (wc_base_url c)) (wc_endpoint c) of
        None \<Rightarrow> Inl (if follows_urls (wc_mode c) then origin_error else PlainExn ''ValueError'' [])
      | Some url \<Rightarrow>
          andR (if follows_urls (wc_mode c)
                then (case ul_split (gl_urls G) url of
                        None \<Rightarrow> Inl (PlainExn ''ValueError'' [])
                      | Some p \<Rightarrow>
                          refuse_if (up_scheme p = []) (PlainExn ''ValueError'' ''mode needs an absolute endpoint or base_url''))
                else Inr ())
            (case (if follows_urls (wc_mode c) then safe_origin (gl_urls G) url else origin_of (gl_urls G) url) of
               None \<Rightarrow> Inl (if follows_urls (wc_mode c) then origin_error else PlainExn ''ValueError'' [])
             | Some first \<Rightarrow>
                 Inr \<lparr>pw_current_url = url, pw_first_origin = first, pw_seen_urls = [url],
                   pw_tokens = (case get (wc_params c) (token_param c) of JNull \<Rightarrow> [] | v \<Rightarrow> [token_key G v]),
                   pw_loop = False, pw_page = wc_start_page c, pw_offset = 0, pw_next_cursor = None\<rparr>))"

definition walk_start :: "walk_config \<Rightarrow> page_walk \<Rightarrow> page_request" where
  "walk_start c w =
     (let sized = (\<lambda>name d. case wc_page_size c of None \<Rightarrow> d | Some n \<Rightarrow> dict_set name (JInt n) d) in
      (wc_endpoint c,
       (case wc_mode c of
          PageMode \<Rightarrow> sized (wc_page_size_param c) (dict_set (wc_page_param c) (JInt (pw_page w)) (wc_params c))
        | OffsetMode \<Rightarrow> sized (wc_limit_param c) (dict_set (wc_offset_param c) (JInt (pw_offset w)) (wc_params c))
        | _ \<Rightarrow> wc_params c)))"

text \<open>\<open>_advance_token\<close>: a continuation seen before ends the walk.\<close>

definition advance_token ::
  "page_lib \<Rightarrow> walk_config \<Rightarrow> json \<Rightarrow> string \<Rightarrow> page_walk \<Rightarrow> page_request option \<times> page_walk" where
  "advance_token G c token param w =
     (if token_key G token \<in> set (pw_tokens w)
      then (None, w\<lparr>pw_loop := True, pw_next_cursor := None\<rparr>)
      else (Some (wc_endpoint c, dict_set param token (wc_params c)),
            w\<lparr>pw_tokens := token_key G token # pw_tokens w,
              pw_next_cursor := Some (py_str (gl_py G) token)\<rparr>))"

definition walk_end :: "page_walk \<Rightarrow> page_request option \<times> page_walk" where
  "walk_end w = (None, w\<lparr>pw_next_cursor := None\<rparr>)"

definition advance_cursor ::
  "page_lib \<Rightarrow> walk_config \<Rightarrow> json \<Rightarrow> page_walk \<Rightarrow> page_request option \<times> page_walk" where
  "advance_cursor G c cursor w =
     (if truthy cursor then advance_token G c cursor (wc_cursor_param c) w else walk_end w)"

definition last_id :: "walk_config \<Rightarrow> json list \<Rightarrow> json" where
  "last_id c items =
     (if items = [] then JNull else case last items of JObj kvs \<Rightarrow> get kvs (wc_id_field c) | _ \<Rightarrow> JNull)"

definition advance_since ::
  "page_lib \<Rightarrow> walk_config \<Rightarrow> json list \<Rightarrow> page_walk \<Rightarrow> page_request option \<times> page_walk" where
  "advance_since G c items w =
     (if last_id c items = JNull then walk_end w
      else advance_token G c (last_id c items) (wc_since_param c) w)"

definition advance_numbered ::
  "walk_config \<Rightarrow> json list \<Rightarrow> page_walk \<Rightarrow> page_request option \<times> page_walk" where
  "advance_numbered c items w =
     (if items = [] \<or> (case wc_page_size c of None \<Rightarrow> False | Some n \<Rightarrow> int (length items) < n) then (None, w)
      else let w' = (if wc_mode c = PageMode then w\<lparr>pw_page := pw_page w + 1\<rparr>
                     else w\<lparr>pw_offset := pw_offset w + int (length items)\<rparr>)
           in (Some (walk_start c w'), w'))"

definition follow_url ::
  "page_lib \<Rightarrow> string \<Rightarrow> page_walk \<Rightarrow> http_exn + (page_request option \<times> page_walk)" where
  "follow_url G raw w =
     (case ul_join (gl_urls G) (pw_current_url w) raw of
        None \<Rightarrow> Inl origin_error
      | Some absolute \<Rightarrow>
          andR (refuse_if (safe_origin (gl_urls G) absolute \<noteq> Some (pw_first_origin w)) origin_error)
            (Inr (if absolute \<in> set (pw_seen_urls w)
               then (None, w\<lparr>pw_loop := True, pw_next_cursor := None\<rparr>)
               else (Some (absolute, []),
                 w\<lparr>pw_seen_urls := absolute # pw_seen_urls w, pw_current_url := absolute,
                   pw_next_cursor := Some absolute\<rparr>))))"

type_synonym page_headers = "(string \<times> string) list"

definition walk_advance ::
  "page_lib \<Rightarrow> walk_config \<Rightarrow> json list \<Rightarrow> json \<Rightarrow> page_headers \<Rightarrow> page_walk \<Rightarrow>
     http_exn + (page_request option \<times> page_walk)" where
  "walk_advance G c items data headers w =
     (case wc_mode c of
        CursorMode \<Rightarrow>
          Inr (advance_cursor G c (if wc_cursor_path c = [] then JNull else page_dig data (wc_cursor_path c)) w)
      | LinkMode \<Rightarrow>
          (case link_next_url headers of
             None \<Rightarrow> Inr (walk_end w)
           | Some url \<Rightarrow> if url = [] then Inr (walk_end w) else follow_url G url w)
      | NextUrlMode \<Rightarrow>
          (case page_dig data (wc_next_path c) of
             JStr url \<Rightarrow> if url = [] then Inr (walk_end w) else follow_url G url w
           | _ \<Rightarrow> Inr (walk_end w))
      | SinceMode \<Rightarrow> Inr (advance_since G c items w)
      | _ \<Rightarrow> Inr (advance_numbered c items w))"

section \<open>The iterators\<close>

record pager =
  pg_walk :: page_walk
  pg_truncated :: bool
  pg_pages :: nat
  pg_yielded :: nat
  pg_budget :: nat
  pg_next_cursor :: "string option"

definition pager_new :: "walk_config \<Rightarrow> page_walk \<Rightarrow> pager" where
  "pager_new c w =
     \<lparr>pg_walk = w, pg_truncated = False, pg_pages = 0, pg_yielded = 0, pg_budget = wc_max_items c,
      pg_next_cursor = None\<rparr>"

text \<open>\<open>_consume_page\<close>: a page cut by the budget has no safe cursor to resume from.\<close>

definition consume_page ::
  "page_lib \<Rightarrow> walk_config \<Rightarrow> json list \<Rightarrow> json \<Rightarrow> page_headers \<Rightarrow> pager \<Rightarrow>
     http_exn + (json list \<times> page_request option \<times> pager)" where
  "consume_page G c items data headers p =
     bindR (walk_advance G c items data headers (pg_walk p)) (\<lambda>(request, w).
       (let pages = pg_pages p + 1;
            cut = pg_budget p < length items;
            taken = (if cut then take (pg_budget p) items else items);
            w' = (if cut then w\<lparr>pw_next_cursor := None\<rparr> else w);
            budget = pg_budget p - length taken;
            request1 = (if cut then None else request);
            spent = (request1 \<noteq> None \<and> budget = 0);
            request2 = (if spent then None else request1);
            full = (request2 \<noteq> None \<and> wc_max_pages c \<le> pages)
        in Inr (taken, if full then None else request2,
             \<lparr>pg_walk = w', pg_truncated = (pg_truncated p \<or> cut \<or> spent \<or> full \<or> pw_loop w'),
              pg_pages = pages, pg_yielded = pg_yielded p + length taken, pg_budget = budget,
              pg_next_cursor = pw_next_cursor w'\<rparr>)))"

text \<open>
  A page is fetched from the world; the log keeps the requests made, the pages read and the items
  yielded, which a consumer has even when a later page raises.
\<close>

type_synonym 'w page_fetch = "string \<Rightarrow> (string, json) dict option \<Rightarrow> 'w \<Rightarrow> (http_exn + (json \<times> page_headers)) \<times> 'w"

record page_log =
  lg_requests :: "page_request list"
  lg_pages :: "json list list"
  lg_items :: "json list"

definition params_or_none :: "(string, json) dict \<Rightarrow> (string, json) dict option" where
  "params_or_none d = (if d = [] then None else Some d)"

text \<open>One round of \<open>_iterate\<close>: the exception that ends it, or the next request, if any.\<close>

definition page_round ::
  "page_lib \<Rightarrow> walk_config \<Rightarrow> 'w page_fetch \<Rightarrow> page_request \<Rightarrow> pager \<Rightarrow> page_log \<Rightarrow> 'w \<Rightarrow>
     (http_exn + page_request option) \<times> pager \<times> page_log \<times> 'w" where
  "page_round G c fetch q p lg w =
     (let lg1 = lg\<lparr>lg_requests := lg_requests lg @ [q]\<rparr> in
      case fetch (fst q) (params_or_none (snd q)) w of
        (Inl e, w') \<Rightarrow> (Inl e, p, lg1, w')
      | (Inr (data, headers), w') \<Rightarrow>
          (case items_at data (wc_items_path c) of
             Inl e \<Rightarrow> (Inl e, p, lg1, w')
           | Inr items \<Rightarrow>
               (case consume_page G c items data headers p of
                  Inl e \<Rightarrow> (Inl e, p\<lparr>pg_pages := pg_pages p + 1\<rparr>, lg1, w')
                | Inr (taken, request, p') \<Rightarrow>
                    (Inr request, p',
                     lg1\<lparr>lg_pages := lg_pages lg1 @ [items], lg_items := lg_items lg1 @ taken\<rparr>, w'))))"

lemma page_round_progress:
  "page_round G c fetch q p lg w = (Inr (Some q'), p', lg', w') \<Longrightarrow>
     pg_pages p' = pg_pages p + 1 \<and> pg_pages p' < wc_max_pages c"
  by (cases q')
    (auto simp: page_round_def consume_page_def Let_def result_iff split: prod.splits sum.splits if_splits)

function page_loop ::
  "page_lib \<Rightarrow> walk_config \<Rightarrow> 'w page_fetch \<Rightarrow> page_request \<Rightarrow> pager \<Rightarrow> page_log \<Rightarrow> 'w \<Rightarrow>
     http_exn option \<times> pager \<times> page_log \<times> 'w" where
  "page_loop G c fetch q p lg w =
     (case page_round G c fetch q p lg w of
        (Inl e, p', lg', w') \<Rightarrow> (Some e, p', lg', w')
      | (Inr None, p', lg', w') \<Rightarrow> (None, p', lg', w')
      | (Inr (Some q'), p', lg', w') \<Rightarrow> page_loop G c fetch q' p' lg' w')"
  by auto
termination
  by (relation "measure (\<lambda>(G, c, fetch, q, p, lg, w). wc_max_pages c - pg_pages p)")
    (auto dest!: page_round_progress [OF sym])

declare page_loop.simps [simp del]

text \<open>
  \<open>_iterate\<close>, drained: an iterator that another consumer holds refuses; the walk is built anew.
\<close>

definition iterate ::
  "page_lib \<Rightarrow> walk_config \<Rightarrow> 'w page_fetch \<Rightarrow> bool \<Rightarrow> 'w \<Rightarrow>
     http_exn option \<times> pager option \<times> page_log \<times> 'w" where
  "iterate G c fetch held w =
     (let lg = \<lparr>lg_requests = [], lg_pages = [], lg_items = []\<rparr> in
      if held then (Some (PlainExn ''RuntimeError'' ''pagination iterator already has an active consumer''), None, lg, w)
      else case walk_new G c of
             Inl e \<Rightarrow> (Some e, None, lg, w)
           | Inr start \<Rightarrow>
               (case page_loop G c fetch (walk_start c start) (pager_new c start) lg w of
                  (e, p, lg', w') \<Rightarrow> (e, Some p, lg', w')))"

record page_collection =
  cl_data :: "json list"
  cl_count :: nat
  cl_truncated :: bool
  cl_next_cursor :: "string option"

definition collect_pages ::
  "page_lib \<Rightarrow> walk_config \<Rightarrow> 'w page_fetch \<Rightarrow> bool \<Rightarrow> 'w \<Rightarrow> (http_exn + page_collection) \<times> 'w" where
  "collect_pages G c fetch held w =
     (case iterate G c fetch held w of
        (Some e, p, lg, w') \<Rightarrow> (Inl e, w')
      | (None, None, lg, w') \<Rightarrow> (Inl (PlainExn ''RuntimeError'' []), w')
      | (None, Some p, lg, w') \<Rightarrow>
          (Inr \<lparr>cl_data = lg_items lg, cl_count = length (lg_items lg), cl_truncated = pg_truncated p,
                cl_next_cursor = pg_next_cursor p\<rparr>, w'))"

section \<open>Tool pages and their cursors\<close>

definition page_size_ok :: "json \<Rightarrow> bool" where
  "page_size_ok v = (case v of JInt n \<Rightarrow> 1 \<le> n \<and> n \<le> 10000 | _ \<Rightarrow> False)"

record tool_cursor_page =
  tc_items :: "json list"
  tc_next_cursor :: "string option"
  tc_has_more :: bool
  tc_total :: "int option"

definition page_from_cursor :: "json list \<Rightarrow> string option \<Rightarrow> tool_cursor_page" where
  "page_from_cursor items cursor =
     \<lparr>tc_items = items, tc_next_cursor = cursor, tc_has_more = (cursor \<noteq> None), tc_total = None\<rparr>"

definition page_from_window :: "json list \<Rightarrow> json \<Rightarrow> int option \<Rightarrow> string + tool_cursor_page" where
  "page_from_window items page_size overall =
     andR (refuse_if (\<not> page_size_ok page_size) ''page size must be an integer from 1 to 10000'')
       (andR (refuse_if (case overall of None \<Rightarrow> False | Some n \<Rightarrow> n < 0) ''ValidationError'')
         (Inr \<lparr>tc_items = items, tc_next_cursor = None,
            tc_has_more = (case page_size of JInt n \<Rightarrow> n \<le> int (length items) | _ \<Rightarrow> False), tc_total = overall\<rparr>))"

definition preset_pagination :: "string \<Rightarrow> string \<Rightarrow> string \<Rightarrow> string \<Rightarrow> json \<Rightarrow> string + (string, json) dict" where
  "preset_pagination mode page_param page_size_param cursor_param page_size =
     (let base = [(''records_path'', JStr ''items''), (''pagination'', JStr mode)] in
      if mode = ''cursor''
      then Inr (base @ [(''cursor_param'', JStr cursor_param), (''cursor_path'', JStr ''next_cursor''),
        (''more_path'', JStr ''has_more'')])
      else andR (refuse_if (\<not> page_size_ok page_size) ''page size must be an integer from 1 to 10000'')
        (Inr (base @ [(''page_param'', JStr page_param), (''page_size_param'', JStr page_size_param),
          (''page_size'', page_size),
          (''page_kind'', JStr (if mode = ''offset'' then ''offset'' else ''number''))])))"

definition cross_origin :: http_exn where
  "cross_origin =
     HttpError HttpProblemError
       (sdk_problem ''cross-origin-cursor'' ''Pagination cursor leaves the API origin'' None [])"

text \<open>
  \<open>next_link_cursor\<close> and \<open>cursor_target\<close>; \<^theory_text>\<open>response.links\<close> is the HTTP library's reading
  of the header, a parameter; a URL that cannot be split raises its own \<^theory_text>\<open>ValueError\<close>.
\<close>

definition value_error :: http_exn where
  "value_error = PlainExn ''ValueError'' []"

definition same_origin :: "url_lib \<Rightarrow> string \<Rightarrow> string \<Rightarrow> http_exn + unit" where
  "same_origin U a b =
     (case (origin_of U a, origin_of U b) of
        (Some x, Some y) \<Rightarrow> refuse_if (x \<noteq> y) cross_origin
      | _ \<Rightarrow> Inl value_error)"

definition next_link_cursor :: "url_lib \<Rightarrow> string option \<Rightarrow> string \<Rightarrow> string \<Rightarrow> http_exn + string option" where
  "next_link_cursor U link request_url base_url =
     (if or_empty link = [] then Inr None
      else case ul_join U request_url (or_empty link) of
             None \<Rightarrow> Inl value_error
           | Some absolute \<Rightarrow>
               andR (same_origin U absolute base_url)
                 (case ul_split U absolute of
                    None \<Rightarrow> Inl value_error
                  | Some p \<Rightarrow>
                      (let path = (if up_path p = [] then ''/'' else up_path p) in
                       Inr (Some (if up_query p = [] then path else path @ ''?'' @ up_query p)))))"

definition cursor_target :: "url_lib \<Rightarrow> string \<Rightarrow> string \<Rightarrow> http_exn + string" where
  "cursor_target U cursor base_url =
     (case ul_split U cursor of
        None \<Rightarrow> Inl value_error
      | Some p \<Rightarrow>
          andR (refuse_if (up_scheme p \<noteq> [] \<or> up_netloc p \<noteq> [] \<or> \<not> starts_text ''/'' cursor
              \<or> starts_text ''//'' cursor) cross_origin)
            (case ul_join U base_url cursor of
               None \<Rightarrow> Inl value_error
             | Some absolute \<Rightarrow> andR (same_origin U absolute base_url) (Inr cursor)))"

end
