(* ===== verification/Http_Walk.thy ===== *)
theory Http_Walk
  imports Http_Paging
begin

text \<open>
  What a drained iterator did: its budgets and what they cut off, and where it was led. The round
  that ends a sweep may cut its page; every round before it took its page whole.
\<close>

section \<open>Rounds\<close>

lemma no_pair [simp]: "(\<forall>a b. r \<noteq> Some (a, b)) \<longleftrightarrow> r = None"
  by (cases r) auto

text \<open>A walk that goes on has not seen the continuation before.\<close>

lemma advance_on_no_loop:
  "walk_advance G c items data headers w = Inr (Some q, w') \<Longrightarrow> pw_loop w' = pw_loop w"
  by (auto simp: walk_advance_def advance_cursor_def advance_since_def advance_token_def advance_numbered_def
      follow_url_def walk_end_def Let_def result_iff split: page_mode.splits option.splits json.splits if_splits)

lemma page_round_cases:
  assumes "page_round G c fetch q p lg w = (res, p', lg', w')"
  obtains (failed) e where "res = Inl e" "lg_requests lg' = lg_requests lg @ [q]"
      "lg_pages lg' = lg_pages lg" "lg_items lg' = lg_items lg" "pg_truncated p' = pg_truncated p"
  | (read) items data headers request walk where
      "walk_advance G c items data headers (pg_walk p) = Inr (request, walk)"
      "lg_requests lg' = lg_requests lg @ [q]" "lg_pages lg' = lg_pages lg @ [items]"
      "lg_items lg' = lg_items lg @ take (pg_budget p) items"
      "pg_pages p' = pg_pages p + 1" "pg_budget p' = pg_budget p - length items"
      "pg_walk p' = (if pg_budget p < length items then walk\<lparr>pw_next_cursor := None\<rparr> else walk)"
      "pg_next_cursor p' = pw_next_cursor (pg_walk p')"
      "pg_truncated p' \<longleftrightarrow> pg_truncated p \<or> pg_budget p < length items \<or> pw_loop walk
         \<or> request \<noteq> None \<and> (pg_budget p = length items \<or> wc_max_pages c \<le> pg_pages p + 1)"
      "res = Inr (if pg_budget p \<le> length items \<or> wc_max_pages c \<le> pg_pages p + 1 then None else request)"
proof -
  obtain answer w1 where f: "fetch (fst q) (params_or_none (snd q)) w = (answer, w1)"
    by (cases "fetch (fst q) (params_or_none (snd q)) w")
  show thesis
  proof (cases answer)
    case (Inl e)
    with f assms show thesis by (intro failed [of e]) (auto simp: page_round_def)
  next
    case (Inr y)
    then obtain data headers where answer: "answer = Inr (data, headers)" by (cases y) auto
    show thesis
    proof (cases "items_at data (wc_items_path c)")
      case (Inl e)
      with f assms answer show thesis by (intro failed [of e]) (auto simp: page_round_def)
    next
      case items: (Inr items)
      show thesis
      proof (cases "walk_advance G c items data headers (pg_walk p)")
        case (Inl e)
        with f assms answer items show thesis
          by (intro failed [of e]) (auto simp: page_round_def consume_page_def)
      next
        case (Inr z)
        then obtain request walk where z: "walk_advance G c items data headers (pg_walk p) = Inr (request, walk)"
          by (cases z) auto
        show thesis
          by (rule read [OF z])
            (use f assms answer items z in
              \<open>auto simp: page_round_def consume_page_def Let_def split: if_splits\<close>)
      qed
    qed
  qed
qed

section \<open>Budgets\<close>

text \<open>Before a round every page read was taken whole and the budgets are not used up.\<close>

definition sweep_ok :: "walk_config \<Rightarrow> pager \<Rightarrow> page_log \<Rightarrow> bool" where
  "sweep_ok c p lg \<longleftrightarrow>
     length (lg_requests lg) = pg_pages p \<and> pg_pages p < wc_max_pages c \<and> \<not> pg_truncated p
     \<and> lg_items lg = concat (lg_pages lg) \<and> wc_max_items c = length (concat (lg_pages lg)) + pg_budget p
     \<and> \<not> pw_loop (pg_walk p)"

text \<open>What holds however the sweep ended.\<close>

definition swept :: "walk_config \<Rightarrow> http_exn option \<Rightarrow> pager \<Rightarrow> page_log \<Rightarrow> bool" where
  "swept c e p lg \<longleftrightarrow>
     length (lg_requests lg) \<le> wc_max_pages c
     \<and> lg_items lg = take (wc_max_items c) (concat (lg_pages lg))
     \<and> (if \<not> pg_truncated p \<or> e = None \<and> pg_next_cursor p \<noteq> None
        then lg_items lg = concat (lg_pages lg) else True)
     \<and> (if e = None \<and> \<not> pg_truncated p then pw_loop (pg_walk p) = False else True)"

lemma page_loop_swept:
  "sweep_ok c p lg \<Longrightarrow> page_loop G c fetch q p lg w = (e, p', lg', w') \<Longrightarrow> swept c e p' lg'"
proof (induction "wc_max_pages c - pg_pages p" arbitrary: q p lg w rule: less_induct)
  case (less p q lg w)
  obtain res p1 lg1 w1 where round: "page_round G c fetch q p lg w = (res, p1, lg1, w1)"
    by (cases "page_round G c fetch q p lg w") auto
  note ok = less.prems(1) [unfolded sweep_ok_def]
  from round show ?case
  proof (cases rule: page_round_cases)
    case (failed x)
    then have "(e, p', lg') = (Some x, p1, lg1)"
      using less.prems(2) round by (subst (asm) page_loop.simps) simp
    with failed ok show ?thesis by (auto simp: swept_def)
  next
    case (read items data headers request walk)
    show ?thesis
    proof (cases "if pg_budget p \<le> length items \<or> wc_max_pages c \<le> pg_pages p + 1 then None else request")
      case None
      then have end_now: "(e, p', lg') = (None, p1, lg1)"
        using less.prems(2) round read(10) by (subst (asm) page_loop.simps) simp
      show ?thesis
      proof (cases "pg_budget p < length items")
        case True
        then have "lg_items lg1 = take (wc_max_items c) (concat (lg_pages lg1))"
          using read ok by simp
        with True end_now read ok show ?thesis by (auto simp: swept_def)
      next
        case False
        with end_now read ok show ?thesis by (auto simp: swept_def)
      qed
    next
      case (Some q')
      then have goes: "pg_budget p > length items" "wc_max_pages c > pg_pages p + 1" "request = Some q'"
        by (auto split: if_splits)
      have run: "page_loop G c fetch q' p1 lg1 w1 = (e, p', lg', w')"
        using less.prems(2) round read(10) Some by (subst (asm) page_loop.simps) simp
      have "\<not> pw_loop walk" using advance_on_no_loop [OF read(1) [unfolded goes(3)]] ok by simp
      then have "sweep_ok c p1 lg1" using read ok goes by (auto simp: sweep_ok_def)
      moreover have "wc_max_pages c - pg_pages p1 < wc_max_pages c - pg_pages p" using read(5) goes(2) by simp
      ultimately show ?thesis using less.hyps run by blast
    qed
  qed
qed

text \<open>
  Property C29. Whatever the server answers, a drained pagination sweep ends within its page budget,
  and yields a prefix of the items of the pages it read, of at most the item budget: all of them when
  the sweep is not reported truncated, and also when it is but gives a cursor to resume from, so a
  resumed sweep loses no item of a page that was cut. A sweep that repeats a continuation is reported
  truncated.
\<close>

theorem sweep_within_budgets:
  "case iterate G (bounded_config max_items max_pages c) fetch held w of (e, p, lg, w') \<Rightarrow>
     int (length (lg_requests lg)) \<le> max 1 max_pages
     \<and> lg_items lg = take (nat max_items) (concat (lg_pages lg))
     \<and> (case p of
          None \<Rightarrow> lg_requests lg = [] \<and> e \<noteq> None
        | Some q \<Rightarrow>
            (if pg_truncated q
             then (case (e, pg_next_cursor q) of
                 (None, Some cursor) \<Rightarrow> lg_items lg = concat (lg_pages lg) | _ \<Rightarrow> True)
             else lg_items lg = concat (lg_pages lg))
            \<and> (if e = None \<and> pw_loop (pg_walk q) then pg_truncated q else True))"
proof -
  let ?c = "bounded_config max_items max_pages c"
  have bounds: "wc_max_items ?c = nat max_items" "int (wc_max_pages ?c) = max 1 max_pages"
    by (simp_all add: bounded_config_def)
  show ?thesis
  proof (cases "walk_new G ?c")
    case (Inl e)
    then show ?thesis by (simp add: iterate_def Let_def)
  next
    case (Inr start)
    let ?lg = "\<lparr>lg_requests = [], lg_pages = [], lg_items = []\<rparr>"
    obtain e p lg w' where
      run: "page_loop G ?c fetch (walk_start ?c start) (pager_new ?c start) ?lg w = (e, p, lg, w')"
      by (cases "page_loop G ?c fetch (walk_start ?c start) (pager_new ?c start) ?lg w") auto
    have "\<not> pw_loop start"
      using Inr by (auto simp: walk_new_def result_iff split: option.splits if_splits)
    moreover have "0 < wc_max_pages ?c" using bounds by linarith
    ultimately have "sweep_ok ?c (pager_new ?c start) ?lg"
      by (simp add: sweep_ok_def pager_new_def)
    from page_loop_swept [OF this run] have all_swept: "swept ?c e p lg" .
    then have "int (length (lg_requests lg)) \<le> max 1 max_pages"
      unfolding swept_def bounds(2) [symmetric] by simp
    moreover from all_swept have "if \<not> pg_truncated p \<or> e = None \<and> pg_next_cursor p \<noteq> None
        then lg_items lg = concat (lg_pages lg) else True"
      unfolding swept_def by blast
    then have "if pg_truncated p
        then (case (e, pg_next_cursor p) of
            (None, Some cursor) \<Rightarrow> lg_items lg = concat (lg_pages lg) | _ \<Rightarrow> True)
        else lg_items lg = concat (lg_pages lg)"
      by (cases e; cases "pg_next_cursor p"; cases "pg_truncated p") simp_all
    moreover from all_swept have "lg_items lg = take (nat max_items) (concat (lg_pages lg))"
      and "if e = None \<and> pw_loop (pg_walk p) then pg_truncated p else True"
      unfolding swept_def bounds(1) by (blast | auto split: if_splits)+
    moreover have "iterate G ?c fetch held w =
        (if held then (Some (PlainExn ''RuntimeError'' ''pagination iterator already has an active consumer''), None, ?lg, w)
         else (e, Some p, lg, w'))"
      by (simp add: iterate_def Let_def Inr run)
    ultimately show ?thesis
      by (cases held) (simp_all only: prod.case option.case if_True if_False simp_thms, simp)
  qed
qed

section \<open>Where a sweep is led\<close>

text \<open>The URLs a sweep follows, and the tokens it presents, beyond its first request.\<close>

definition followed :: "page_log \<Rightarrow> string list" where
  "followed lg = map fst (tl (lg_requests lg))"

definition presented :: "page_lib \<Rightarrow> walk_config \<Rightarrow> page_request list \<Rightarrow> token_key list" where
  "presented G c qs = map (\<lambda>q. token_key G (get (snd q) (token_param c))) qs"

definition uses_tokens :: "page_mode \<Rightarrow> bool" where
  "uses_tokens m \<longleftrightarrow> m = CursorMode \<or> m = SinceMode"

definition led_by :: "page_lib \<Rightarrow> walk_config \<Rightarrow> page_walk \<Rightarrow> page_walk \<Rightarrow> page_request list \<Rightarrow> bool" where
  "led_by G c start w qs \<longleftrightarrow>
     (if follows_urls (wc_mode c)
      then pw_seen_urls w = rev (map fst qs) @ pw_seen_urls start \<and> distinct (pw_seen_urls w)
        \<and> pw_first_origin w = pw_first_origin start
        \<and> list_all (\<lambda>q. safe_origin (gl_urls G) (fst q) = Some (pw_first_origin start) \<and> snd q = []) qs
      else True)
     \<and> (if uses_tokens (wc_mode c)
        then pw_tokens w = rev (presented G c qs) @ pw_tokens start \<and> distinct (pw_tokens w)
          \<and> list_all (\<lambda>q. fst q = wc_endpoint c) qs
        else True)"

lemma led_by_urls:
  assumes "led_by G c start w qs" "follows_urls (wc_mode c)"
  shows "pw_seen_urls w = rev (map fst qs) @ pw_seen_urls start" "distinct (pw_seen_urls w)"
    "pw_first_origin w = pw_first_origin start"
    "list_all (\<lambda>q. safe_origin (gl_urls G) (fst q) = Some (pw_first_origin start) \<and> snd q = []) qs"
  using assms(1) unfolding led_by_def if_P [OF assms(2)] by blast+

lemma follow_url_led:
  assumes "follow_url G raw w = Inr (Some q, w')"
  shows "fst q \<notin> set (pw_seen_urls w) \<and> pw_seen_urls w' = fst q # pw_seen_urls w \<and> snd q = []
    \<and> safe_origin (gl_urls G) (fst q) = Some (pw_first_origin w) \<and> pw_first_origin w' = pw_first_origin w
    \<and> pw_tokens w' = pw_tokens w"
  using assms by (auto simp: follow_url_def result_iff split: option.splits if_splits)

lemma advance_token_led:
  assumes "advance_token G c token param w = (Some q, w')"
  shows "token_key G (get (snd q) param) \<notin> set (pw_tokens w)
    \<and> pw_tokens w' = token_key G (get (snd q) param) # pw_tokens w \<and> fst q = wc_endpoint c"
  using assms by (auto simp: advance_token_def get_def split: if_splits)

lemma walk_advance_led:
  assumes "led_by G c start w qs" "walk_advance G c items data headers w = Inr (Some q, w')"
  shows "led_by G c start w' (qs @ [q])"
proof (cases "follows_urls (wc_mode c)")
  case True
  then have "\<exists>raw. follow_url G raw w = Inr (Some q, w')"
    using assms(2)
    by (auto simp: walk_advance_def follows_urls_def walk_end_def split: option.splits json.splits if_splits)
  then obtain raw where "follow_url G raw w = Inr (Some q, w')" by blast
  from follow_url_led [OF this] have
    new: "fst q \<notin> set (pw_seen_urls w)" "pw_seen_urls w' = fst q # pw_seen_urls w" "snd q = []"
      "safe_origin (gl_urls G) (fst q) = Some (pw_first_origin w)" "pw_first_origin w' = pw_first_origin w"
    by simp_all
  have "\<not> uses_tokens (wc_mode c)" using True by (auto simp: follows_urls_def uses_tokens_def)
  moreover have "pw_seen_urls w = rev (map fst qs) @ pw_seen_urls start" "distinct (pw_seen_urls w)"
    "pw_first_origin w = pw_first_origin start"
    "list_all (\<lambda>q. safe_origin (gl_urls G) (fst q) = Some (pw_first_origin start) \<and> snd q = []) qs"
    by (rule led_by_urls [OF assms(1) True])+
  then have "pw_seen_urls w' = rev (map fst (qs @ [q])) @ pw_seen_urls start" "distinct (pw_seen_urls w')"
    "pw_first_origin w' = pw_first_origin start"
    "list_all (\<lambda>q. safe_origin (gl_urls G) (fst q) = Some (pw_first_origin start) \<and> snd q = []) (qs @ [q])"
    using new by simp_all
  ultimately show ?thesis using True by (simp only: led_by_def if_True if_False simp_thms)
next
  case False
  show ?thesis
  proof (cases "uses_tokens (wc_mode c)")
    case True
    have "\<exists>token. advance_token G c token (token_param c) w = (Some q, w')"
    proof (cases "wc_mode c = CursorMode")
      case True
      then show ?thesis
        using assms(2)
        by (simp add: walk_advance_def advance_cursor_def walk_end_def token_param_def split: if_splits) blast+
    next
      case False
      with True have "wc_mode c = SinceMode" by (simp add: uses_tokens_def)
      then show ?thesis
        using assms(2)
        by (simp add: walk_advance_def advance_since_def walk_end_def token_param_def split: if_splits) blast
    qed
    then obtain token where "advance_token G c token (token_param c) w = (Some q, w')" by blast
    note new = advance_token_led [OF this]
    have old: "pw_tokens w = rev (presented G c qs) @ pw_tokens start" "distinct (pw_tokens w)"
      "list_all (\<lambda>q. fst q = wc_endpoint c) qs"
      using assms(1) unfolding led_by_def if_P [OF True] by blast+
    then have "pw_tokens w' = rev (presented G c (qs @ [q])) @ pw_tokens start" "distinct (pw_tokens w')"
      "list_all (\<lambda>q. fst q = wc_endpoint c) (qs @ [q])"
      using new by (simp_all add: presented_def)
    then show ?thesis using True False by (simp only: led_by_def if_True if_False simp_thms)
  qed (use False in \<open>simp add: led_by_def\<close>)
qed

lemma page_loop_led:
  "led_by G c start (pg_walk p) (tl (lg_requests lg @ [q])) \<Longrightarrow>
     page_loop G c fetch q p lg w = (e, p', lg', w') \<Longrightarrow>
     \<exists>v. led_by G c start v (tl (lg_requests lg'))"
proof (induction "wc_max_pages c - pg_pages p" arbitrary: q p lg w rule: less_induct)
  case (less p q lg w)
  obtain res p1 lg1 w1 where round: "page_round G c fetch q p lg w = (res, p1, lg1, w1)"
    by (cases "page_round G c fetch q p lg w") auto
  from round show ?case
  proof (cases rule: page_round_cases)
    case (failed x)
    then have "lg' = lg1" using less.prems(2) round by (subst (asm) page_loop.simps) simp
    with failed less.prems(1) show ?thesis by auto
  next
    case (read items data headers request walk)
    show ?thesis
    proof (cases "if pg_budget p \<le> length items \<or> wc_max_pages c \<le> pg_pages p + 1 then None else request")
      case None
      then have "lg' = lg1" using less.prems(2) round read(10) by (subst (asm) page_loop.simps) simp
      with read less.prems(1) show ?thesis by auto
    next
      case (Some q')
      then have goes: "\<not> pg_budget p < length items" "wc_max_pages c > pg_pages p + 1" "request = Some q'"
        by (auto split: if_splits)
      have run: "page_loop G c fetch q' p1 lg1 w1 = (e, p', lg', w')"
        using less.prems(2) round read(10) Some by (subst (asm) page_loop.simps) simp
      have "led_by G c start (pg_walk p1) (tl (lg_requests lg1 @ [q']))"
        using walk_advance_led [OF less.prems(1) read(1) [unfolded goes(3)]] goes(1) read(2,7)
        by (cases "lg_requests lg") simp_all
      moreover have "wc_max_pages c - pg_pages p1 < wc_max_pages c - pg_pages p" using read(5) goes(2) by simp
      ultimately show ?thesis using less.hyps run by blast
    qed
  qed
qed

text \<open>
  Property C30. Wherever the server points, a sweep that follows links or next URLs stays with the
  scheme, host and port of its first request, over HTTP or HTTPS and without credentials in the
  URL, sends no parameters to what it follows, and requests no URL twice; a sweep by cursor or by
  last id presents no token twice, its caller's first one included, and never leaves its endpoint.
\<close>

theorem sweep_confined:
  "case iterate G c fetch held w of (e, p, lg, w') \<Rightarrow>
    (case walk_new G c of
       Inl x \<Rightarrow> lg_requests lg = []
     | Inr start \<Rightarrow>
         (if follows_urls (wc_mode c)
          then distinct (pw_current_url start # followed lg)
            \<and> list_all (\<lambda>u. safe_origin (gl_urls G) u = safe_origin (gl_urls G) (pw_current_url start)) (followed lg)
            \<and> safe_origin (gl_urls G) (pw_current_url start) \<noteq> None
            \<and> list_all (\<lambda>q. snd q = []) (tl (lg_requests lg))
          else True)
         \<and> (if uses_tokens (wc_mode c)
            then distinct (pw_tokens start @ presented G c (tl (lg_requests lg)))
              \<and> list_all (\<lambda>q. fst q = wc_endpoint c) (tl (lg_requests lg))
            else True))"
proof (cases "walk_new G c")
  case (Inl x)
  then show ?thesis by (simp add: iterate_def Let_def)
next
  case (Inr start)
  let ?lg = "\<lparr>lg_requests = [], lg_pages = [], lg_items = []\<rparr>"
  obtain e p lg w' where
    run: "page_loop G c fetch (walk_start c start) (pager_new c start) ?lg w = (e, p, lg, w')"
    by (cases "page_loop G c fetch (walk_start c start) (pager_new c start) ?lg w") auto
  have start: "pw_seen_urls start = [pw_current_url start]" "length (pw_tokens start) \<le> 1"
    "follows_urls (wc_mode c) \<Longrightarrow> safe_origin (gl_urls G) (pw_current_url start) = Some (pw_first_origin start)"
    using Inr by (auto simp: walk_new_def result_iff split: option.splits if_splits json.splits)
  then have "distinct (pw_tokens start)" by (cases "pw_tokens start") auto
  with start have "led_by G c start (pg_walk (pager_new c start)) (tl (lg_requests ?lg @ [walk_start c start]))"
    by (simp add: led_by_def pager_new_def presented_def)
  from page_loop_led [OF this run] obtain v where led: "led_by G c start v (tl (lg_requests lg))" by blast
  have "distinct (pw_current_url start # followed lg)
            \<and> list_all (\<lambda>u. safe_origin (gl_urls G) u = safe_origin (gl_urls G) (pw_current_url start)) (followed lg)
            \<and> list_all (\<lambda>q. snd q = []) (tl (lg_requests lg))" if urls: "follows_urls (wc_mode c)"
  proof -
    have "distinct (rev (followed lg) @ [pw_current_url start])"
      using led_by_urls(1,2) [OF led urls] start(1) by (simp add: followed_def)
    moreover have "list_all (\<lambda>q. snd q = []) (tl (lg_requests lg))"
      "list_all (\<lambda>u. safe_origin (gl_urls G) u = safe_origin (gl_urls G) (pw_current_url start)) (followed lg)"
      using led_by_urls(4) [OF led urls] start(3) [OF urls] by (auto simp: list_all_iff followed_def)
    ultimately show ?thesis by (simp only: distinct_append distinct_rev set_rev) auto
  qed
  moreover from led have "uses_tokens (wc_mode c) \<Longrightarrow>
      distinct (pw_tokens start @ presented G c (tl (lg_requests lg)))
      \<and> list_all (\<lambda>q. fst q = wc_endpoint c) (tl (lg_requests lg))"
    by (auto simp: led_by_def)
  ultimately show ?thesis
    using start(3) by (cases held) (auto simp: iterate_def Let_def Inr run followed_def presented_def start)
qed

end
