(* ===== verification/Http_Resilience.thy ===== *)
theory Http_Resilience
  imports Http_Retry
begin

text \<open>
  Calls that are repeated only when the caller says they may be
  (\<^verbatim>\<open>resilience.py\<close>): the checks before the first call, the plan of calls and the two
  loops over it. A call is a function on the world; \<^theory_text>\<open>anyio.fail_after\<close> is a parameter
  that turns a call into one with a limit. The log keeps the calls by their place in the plan and the
  sleeps between them.
\<close>

section \<open>Exceptions and checks\<close>

text \<open>An exception as far as it is examined: the names of its classes and the chain behind it.\<close>

record call_exn =
  cx_classes :: "string list"
  cx_objects :: "exc_object list"
  cx_root :: nat

definition raised :: "string \<Rightarrow> string \<Rightarrow> call_exn" where
  "raised cls msg =
     \<lparr>cx_classes = [cls, ''Exception''],
      cx_objects = [\<lparr>eo_certificate = False, eo_text = msg, eo_cause = None, eo_context = None\<rparr>],
      cx_root = 0\<rparr>"

datatype class_arg = ExceptionClass string | OtherArg

definition class_ok :: "class_arg \<Rightarrow> bool" where
  "class_ok a = (case a of ExceptionClass n \<Rightarrow> n \<noteq> ''Exception'' | OtherArg \<Rightarrow> False)"

definition validate_resilience ::
  "retry_policy \<Rightarrow> class_arg list option \<Rightarrow> json \<Rightarrow> nat \<Rightarrow> call_exn + unit" where
  "validate_resilience P retry_on retry_safe fallbacks =
     andR (refuse_if ((1 < rp_max_attempts P \<or> fallbacks \<noteq> 0) \<and> retry_safe \<noteq> JBool True)
       (raised ''ValueError'' ''retries and fallbacks require retry-safe operations''))
     (andR (refuse_if (10 < fallbacks) (raised ''ValueError'' ''at most ten fallbacks are allowed''))
       (refuse_if (case retry_on of None \<Rightarrow> True | Some cs \<Rightarrow> \<not> list_all class_ok cs)
         (raised ''ValueError'' ''retry_on must be a tuple of exception types'')))"

definition never_retried :: "string list" where
  "never_retried = [''TimeoutError'', ''PermissionError'', ''TypeError'', ''ValueError'']"

definition retryable_exn :: "call_exn \<Rightarrow> class_arg list \<Rightarrow> bool" where
  "retryable_exn e retry_on \<longleftrightarrow>
     \<not> list_ex (\<lambda>c. c \<in> set never_retried) (cx_classes e)
     \<and> list_ex (\<lambda>a. case a of ExceptionClass n \<Rightarrow> n \<in> set (cx_classes e) | OtherArg \<Rightarrow> False) retry_on
     \<and> \<not> certificate_from (cx_objects e) [] (Some (cx_root e))"

definition validate_timeout :: "json option \<Rightarrow> call_exn + rat option" where
  "validate_timeout v =
     (let refusal = raised ''ValueError'' ''timeout must be finite and positive'' in
      case v of
        None \<Rightarrow> Inr None
      | Some (JBool b) \<Rightarrow> Inl refusal
      | Some t \<Rightarrow>
          (case plain_number t of
             Inl e \<Rightarrow> Inl (raised e [])
           | Inr (Fin r) \<Rightarrow> if r \<le> 0 then Inl refusal else Inr (Some r)
           | Inr f \<Rightarrow> Inl refusal))"

section \<open>The loop\<close>

type_synonym ('w, 'a) plan_call = "'w \<Rightarrow> (call_exn + 'a) \<times> 'w"

definition call_plan ::
  "('w, 'a) plan_call \<Rightarrow> ('w, 'a) plan_call list \<Rightarrow> retry_policy \<Rightarrow> ('w, 'a) plan_call list" where
  "call_plan primary fallbacks P = replicate (rp_max_attempts P) primary @ fallbacks"

datatype 'a call_event = Called nat "call_exn + 'a" | Waited rat

record ('w, 'a) call_state =
  cs_world :: 'w
  cs_trace :: "'a call_event list"

definition timed_call ::
  "(rat \<Rightarrow> ('w, 'a) plan_call \<Rightarrow> ('w, 'a) plan_call) \<Rightarrow> rat option \<Rightarrow> ('w, 'a) plan_call \<Rightarrow> ('w, 'a) plan_call" where
  "timed_call fail_after limit call = (case limit of None \<Rightarrow> call | Some t \<Rightarrow> fail_after t call)"

definition make_call :: "nat \<Rightarrow> ('w, 'a) plan_call \<Rightarrow> (('w, 'a) call_state, call_exn, call_exn + 'a) prog" where
  "make_call i call s =
     (case call (cs_world s) of
        (r, w) \<Rightarrow> (Inr r, s\<lparr>cs_world := w, cs_trace := cs_trace s @ [Called i r]\<rparr>))"

definition wait_turn ::
  "retry_policy \<Rightarrow> (nat \<Rightarrow> rat) \<Rightarrow> nat \<Rightarrow> (('w, 'a) call_state, call_exn, unit) prog" where
  "wait_turn P u i =
     (if 0 < i \<and> i < rp_max_attempts P
      then (case rp_backoff P (u i) i of
              Inl e \<Rightarrow> raiseP (raised e [])
            | Inr d \<Rightarrow> modifyP (\<lambda>s. s\<lparr>cs_trace := cs_trace s @ [Waited d]\<rparr>))
      else returnP ())"

text \<open>One attempt: a value ends the loop; so does an exception of the last call or of another kind.\<close>

definition one_attempt ::
  "class_arg list \<Rightarrow> bool \<Rightarrow> nat \<Rightarrow> ('w, 'a) plan_call \<Rightarrow> (('w, 'a) call_state, call_exn, 'a option) prog" where
  "one_attempt retry_on final i call =
     bindP (make_call i call) (\<lambda>r. case r of
        Inr v \<Rightarrow> returnP (Some v)
      | Inl e \<Rightarrow> if final \<or> \<not> retryable_exn e retry_on then raiseP e else returnP None)"

fun call_loop ::
  "retry_policy \<Rightarrow> (nat \<Rightarrow> rat) \<Rightarrow> class_arg list \<Rightarrow> nat \<Rightarrow> ('w, 'a) plan_call list \<Rightarrow>
     (('w, 'a) call_state, call_exn, 'a) prog" where
  "call_loop P u retry_on i [] =
     raiseP (raised ''RuntimeError'' ''resilience policy exhausted without a result'')"
| "call_loop P u retry_on i (call # calls) =
     thenP (wait_turn P u i)
     (bindP (one_attempt retry_on (calls = []) i call) (\<lambda>r. case r of
        Some v \<Rightarrow> returnP v
      | None \<Rightarrow> call_loop P u retry_on (i + 1) calls))"

definition single_attempt :: retry_policy where
  "single_attempt =
     \<lparr>rp_max_attempts = 1, rp_base = 1 / 2, rp_factor = 2, rp_max_backoff = 30, rp_max_retry_after = 120,
      rp_exact = False, rp_jitter = True, rp_statuses = retryable_statuses,
      rp_methods = idempotent_methods\<rparr>"

definition selected_policy :: "retry_policy option \<Rightarrow> retry_policy" where
  "selected_policy p = (case p of None \<Rightarrow> single_attempt | Some q \<Rightarrow> q)"

definition run_with_resilience ::
  "(rat \<Rightarrow> ('w, 'a) plan_call \<Rightarrow> ('w, 'a) plan_call) \<Rightarrow> (nat \<Rightarrow> rat) \<Rightarrow> class_arg list option \<Rightarrow> json \<Rightarrow>
     retry_policy option \<Rightarrow> json option \<Rightarrow> ('w, 'a) plan_call \<Rightarrow> ('w, 'a) plan_call list \<Rightarrow>
     (('w, 'a) call_state, call_exn, 'a) prog" where
  "run_with_resilience fail_after u retry_on retry_safe policy timeout primary fallbacks =
     (let P = selected_policy policy in
      thenP (liftP (validate_resilience P retry_on retry_safe (length fallbacks)))
      (bindP (liftP (validate_timeout timeout)) (\<lambda>limit.
        call_loop P u (case retry_on of None \<Rightarrow> [] | Some cs \<Rightarrow> cs) 0
          (map (timed_call fail_after limit) (call_plan primary fallbacks P)))))"

definition run_with_resilience_sync ::
  "(nat \<Rightarrow> rat) \<Rightarrow> class_arg list option \<Rightarrow> json \<Rightarrow> retry_policy option \<Rightarrow> json option \<Rightarrow>
     ('w, 'a) plan_call \<Rightarrow> ('w, 'a) plan_call list \<Rightarrow> (('w, 'a) call_state, call_exn, 'a) prog" where
  "run_with_resilience_sync u retry_on retry_safe policy timeout primary fallbacks =
     (let P = selected_policy policy in
      thenP (liftP (validate_resilience P retry_on retry_safe (length fallbacks)))
      (thenP (liftP (refuse_if (timeout \<noteq> None)
          (raised ''ValueError'' ''timeouts are unavailable for blocking callables'')))
        (call_loop P u (case retry_on of None \<Rightarrow> [] | Some cs \<Rightarrow> cs) 0 (call_plan primary fallbacks P))))"

text \<open>Without a timeout the two runners are the same.\<close>

lemma resilience_runners_agree:
  "run_with_resilience fail_after u retry_on retry_safe policy None primary fallbacks =
     run_with_resilience_sync u retry_on retry_safe policy None primary fallbacks"
proof -
  have "map (timed_call fail_after None) cs = cs" for cs
    by (simp add: timed_call_def map_idI)
  then show ?thesis
    by (simp add: run_with_resilience_def run_with_resilience_sync_def Let_def validate_timeout_def
        refuse_if_def fun_eq_iff bindP_def thenP_def liftP_def returnP_def split: sum.splits)
qed

section \<open>What is called\<close>

definition calls_made :: "'a call_event list \<Rightarrow> (nat \<times> (call_exn + 'a)) list" where
  "calls_made t = concat (map (\<lambda>e. case e of Called i r \<Rightarrow> [(i, r)] | _ \<Rightarrow> []) t)"

definition waits :: "'a call_event list \<Rightarrow> rat list" where
  "waits t = concat (map (\<lambda>e. case e of Waited d \<Rightarrow> [d] | _ \<Rightarrow> []) t)"

definition may_repeat :: "class_arg list \<Rightarrow> nat \<times> (call_exn + 'a) \<Rightarrow> bool" where
  "may_repeat retry_on x = (case snd x of Inl e \<Rightarrow> retryable_exn e retry_on | Inr v \<Rightarrow> False)"

lemma call_trace_simps [simp]:
  "calls_made [] = []" "waits [] = []"
  "calls_made (t @ t') = calls_made t @ calls_made t'" "waits (t @ t') = waits t @ waits t'"
  "calls_made [Called i r] = [(i, r)]" "waits [Called i r] = []"
  "calls_made [Waited d] = []" "waits [Waited d] = [d]"
  by (simp_all add: calls_made_def waits_def)

text \<open>How a run of the loop ends, given what it called: the last call decides, or an overflow of the delay.\<close>

definition ends_with :: "class_arg list \<Rightarrow> nat \<Rightarrow> (nat \<times> (call_exn + 'a)) list \<Rightarrow> call_exn + 'a \<Rightarrow> bool" where
  "ends_with retry_on planned ms res \<longleftrightarrow>
     res = Inl (raised ''OverflowError'' [])
     \<or> ms \<noteq> [] \<and> res = snd (last ms) \<and> (may_repeat retry_on (last ms) \<longrightarrow> length ms = planned)"

text \<open>The delays of a policy that is in order, with a random number in the unit interval.\<close>

definition delays_ok :: "retry_policy \<Rightarrow> (nat \<Rightarrow> rat) \<Rightarrow> rat list \<Rightarrow> bool" where
  "delays_ok P u ws \<longleftrightarrow>
     (if policy_ok P \<and> (\<forall>n. 0 \<le> u n \<and> u n \<le> 1)
      then list_all (\<lambda>d. 0 \<le> d \<and> d \<le> rp_max_backoff P) ws else True)"

lemma wait_turn_cases:
  assumes "wait_turn P u i s = (r, s1)"
  obtains (overflow) "r = Inl (raised ''OverflowError'' [])" "s1 = s"
  | (turn) ws where "r = Inr ()" "calls_made (cs_trace s1) = calls_made (cs_trace s)"
      "waits (cs_trace s1) = waits (cs_trace s) @ ws"
      "length ws \<le> (if 0 < i \<and> i < rp_max_attempts P then 1 else 0)" "delays_ok P u ws"
proof (cases "0 < i \<and> i < rp_max_attempts P")
  case True
  show thesis
  proof (cases "rp_backoff P (u i) i")
    case (Inl e)
    then have "e = ''OverflowError''" by (auto simp: rp_backoff_def Let_def refuse_if_def andR_def split: if_splits)
    with assms True Inl show thesis by (intro overflow) (auto simp: wait_turn_def raiseP_def)
  next
    case (Inr d)
    with assms True show thesis using rp_backoff_bounds [of P "u i" i d]
      by (intro turn [of "[d]"]) (auto simp: wait_turn_def modifyP_def delays_ok_def)
  qed
next
  case False
  with assms show thesis by (intro turn [of "[]"]) (auto simp: wait_turn_def returnP_def delays_ok_def)
qed

lemma one_attempt_cases:
  assumes "one_attempt retry_on final i call s = (r, s1)"
  obtains x where "calls_made (cs_trace s1) = calls_made (cs_trace s) @ [(i, x)]" "waits (cs_trace s1) = waits (cs_trace s)"
    "(\<exists>e. x = Inl e \<and> r = Inl e \<and> (final \<or> \<not> retryable_exn e retry_on))
     \<or> (\<exists>v. x = Inr v \<and> r = Inr (Some v)) \<or> (\<exists>e. x = Inl e \<and> r = Inr None \<and> \<not> final \<and> retryable_exn e retry_on)"
proof -
  obtain x w where "call (cs_world s) = (x, w)" by (cases "call (cs_world s)")
  with assms show thesis
    by (intro that [of x])
      (auto simp: one_attempt_def bindP_def make_call_def returnP_def raiseP_def split: sum.splits if_splits)
qed

lemma call_loop_discipline:
  assumes "call_loop P u retry_on i calls s = (res, s')" "calls \<noteq> []"
  shows "\<exists>ms ws. calls_made (cs_trace s') = calls_made (cs_trace s) @ ms
    \<and> waits (cs_trace s') = waits (cs_trace s) @ ws
    \<and> map fst ms = [i..<i + length ms] \<and> length ms \<le> length calls
    \<and> list_all (may_repeat retry_on) (butlast ms) \<and> ends_with retry_on (length calls) ms res
    \<and> length ws \<le> rp_max_attempts P - max 1 i \<and> delays_ok P u ws"
  using assms
proof (induction calls arbitrary: i s)
  case (Cons call calls)
  obtain r1 s1 where turn: "wait_turn P u i s = (r1, s1)" by (cases "wait_turn P u i s")
  then show ?case
  proof (cases rule: wait_turn_cases)
    case overflow
    with Cons.prems(1) turn show ?thesis
      by (intro exI [of _ "[]"]) (auto simp: thenP_def bindP_def ends_with_def delays_ok_def)
  next
    case (turn ws)
    obtain r2 s2 where attempt: "one_attempt retry_on (calls = []) i call s1 = (r2, s2)"
      by (cases "one_attempt retry_on (calls = []) i call s1")
    from attempt obtain x where x: "calls_made (cs_trace s2) = calls_made (cs_trace s1) @ [(i, x)]"
      "waits (cs_trace s2) = waits (cs_trace s1)"
      "(\<exists>e. x = Inl e \<and> r2 = Inl e \<and> (calls = [] \<or> \<not> retryable_exn e retry_on))
       \<or> (\<exists>v. x = Inr v \<and> r2 = Inr (Some v))
       \<or> (\<exists>e. x = Inl e \<and> r2 = Inr None \<and> calls \<noteq> [] \<and> retryable_exn e retry_on)"
      by (rule one_attempt_cases)
    have run: "(case r2 of Inl e \<Rightarrow> (Inl e, s2) | Inr (Some v) \<Rightarrow> (Inr v, s2)
        | Inr None \<Rightarrow> call_loop P u retry_on (i + 1) calls s2) = (res, s')"
      using Cons.prems(1) \<open>wait_turn P u i s = (r1, s1)\<close> turn(1) attempt
      by (auto simp: thenP_def bindP_def returnP_def split: sum.splits option.splits)
    have few: "length ws \<le> rp_max_attempts P - max 1 i" using turn(4) by (auto split: if_splits)
    from x(3) consider
        (stops) e where "x = Inl e" "r2 = Inl e" "calls = [] \<or> \<not> retryable_exn e retry_on"
      | (answers) v where "x = Inr v" "r2 = Inr (Some v)"
      | (goes_on) e where "x = Inl e" "r2 = Inr None" "calls \<noteq> []" "retryable_exn e retry_on"
      by blast
    then show ?thesis
    proof cases
      case (stops e)
      with run x(1,2) turn few show ?thesis
        by (intro exI [of _ "[(i, x)]"] exI [of _ ws]) (auto simp: ends_with_def may_repeat_def)
    next
      case (answers v)
      with run x(1,2) turn few show ?thesis
        by (intro exI [of _ "[(i, x)]"] exI [of _ ws]) (auto simp: ends_with_def may_repeat_def)
    next
      case again: (goes_on e)
      then have "call_loop P u retry_on (i + 1) calls s2 = (res, s')" using run by simp
      from Cons.IH [OF this again(3)] obtain ms vs where rest:
        "calls_made (cs_trace s') = calls_made (cs_trace s2) @ ms" "waits (cs_trace s') = waits (cs_trace s2) @ vs"
        "map fst ms = [i + 1..<i + 1 + length ms]" "length ms \<le> length calls"
        "list_all (may_repeat retry_on) (butlast ms)" "ends_with retry_on (length calls) ms res"
        "length vs \<le> rp_max_attempts P - max 1 (i + 1)" "delays_ok P u vs"
        by auto
      have "map fst ((i, x) # ms) = [i..<i + length ((i, x) # ms)]"
        using rest(3) by (simp add: upt_conv_Cons del: upt_Suc)
      moreover have "length (ws @ vs) \<le> rp_max_attempts P - max 1 i"
        using turn(4) rest(7) by (auto split: if_splits)
      moreover have "delays_ok P u (ws @ vs)" using turn(5) rest(8) by (simp add: delays_ok_def)
      moreover have "list_all (may_repeat retry_on) (butlast ((i, x) # ms))"
        using rest(5) again(1,4) by (auto simp: may_repeat_def)
      moreover have "ends_with retry_on (length (call # calls)) ((i, x) # ms) res"
        using rest(6) by (auto simp: ends_with_def)
      ultimately show ?thesis
        using rest(1,2,4) x(1,2) turn
        by (intro exI [of _ "(i, x) # ms"] exI [of _ "ws @ vs"]) auto
    qed
  qed
qed simp

text \<open>
  Property C31. Whatever the calls answer, a run under an explicit policy calls at most the attempts
  and the fallbacks, in the order of the plan; every call but the last ended in an exception that
  the caller named, that is not a timeout, a refusal or a failed certificate; the run returns or
  raises what its last call did, and stops early only on a value or another exception; it waits
  only between attempts, within the bounds of the policy. Without the caller's word that repetition
  is safe there is at most one call, and a run that is refused at the checks makes none.
\<close>

theorem resilience_discipline:
  "case run_with_resilience fail_after u retry_on retry_safe policy timeout primary fallbacks
       \<lparr>cs_world = w, cs_trace = []\<rparr> of (res, s) \<Rightarrow>
    (let P = selected_policy policy; ms = calls_made (cs_trace s); named = (case retry_on of None \<Rightarrow> [] | Some cs \<Rightarrow> cs);
         planned = rp_max_attempts P + length fallbacks in
     (if isl (validate_resilience P retry_on retry_safe (length fallbacks)) \<or> isl (validate_timeout timeout)
      then cs_trace s = []
      else if planned = 0 then ms = []
      else map fst ms = [0..<length ms] \<and> length ms \<le> planned
        \<and> list_all (may_repeat named) (butlast ms) \<and> ends_with named planned ms res
        \<and> length (waits (cs_trace s)) \<le> rp_max_attempts P - 1 \<and> delays_ok P u (waits (cs_trace s)))
     \<and> (if retry_safe \<noteq> JBool True then length ms \<le> 1 else True))"
proof -
  let ?P = "selected_policy policy" let ?s = "\<lparr>cs_world = w, cs_trace = []\<rparr>"
  let ?named = "case retry_on of None \<Rightarrow> [] | Some cs \<Rightarrow> cs"
  let ?run = "run_with_resilience fail_after u retry_on retry_safe policy timeout primary fallbacks ?s"
  show ?thesis
  proof (cases "validate_resilience ?P retry_on retry_safe (length fallbacks)")
    case (Inl e)
    then show ?thesis
      by (simp add: run_with_resilience_def Let_def thenP_def bindP_def liftP_def)
  next
    case valid: (Inr unit)
    show ?thesis
    proof (cases "validate_timeout timeout")
      case (Inl e)
      with valid show ?thesis
        by (simp add: run_with_resilience_def Let_def thenP_def bindP_def liftP_def)
    next
      case (Inr limit)
      let ?calls = "map (timed_call fail_after limit) (call_plan primary fallbacks ?P)"
      have planned: "length ?calls = rp_max_attempts ?P + length fallbacks" by (simp add: call_plan_def)
      obtain res s where loop: "call_loop ?P u ?named 0 ?calls ?s = (res, s)"
        by (cases "call_loop ?P u ?named 0 ?calls ?s")
      have run: "?run = (res, s)"
        using valid Inr loop by (simp add: run_with_resilience_def Let_def thenP_def bindP_def liftP_def)
      have once: "retry_safe \<noteq> JBool True \<Longrightarrow> rp_max_attempts ?P + length fallbacks \<le> 1"
        using valid by (auto simp: validate_resilience_def andR_def refuse_if_def split: if_splits)
      show ?thesis
      proof (cases "?calls = []")
        case True
        then have "s = ?s" using loop by (simp add: raiseP_def)
        with run valid Inr planned True show ?thesis by (simp add: Let_def)
      next
        case False
        from call_loop_discipline [OF loop False] show ?thesis
          using run valid Inr planned once False by (auto simp: Let_def)
      qed
    qed
  qed
qed

end
