(* ===== verification/Regex_Match.thy ===== *)
theory Regex_Match
  imports Prelude
begin

text \<open>
  The part of the regular expressions of \<^theory_text>\<open>re\<close> that the package writes its patterns in:
  character classes, greedy repetition, groups, word edges, and assertions on what stands before
  and after. The matcher backtracks, so the matches at a place come in an order and the first one
  counts. Characters are code points below 256, on which \<^theory_text>\<open>IGNORECASE\<close> is \<^const>\<open>lower_char\<close>.
\<close>

section \<open>Patterns and matches\<close>

text \<open>A place is the text before it, reversed, the text after it and the groups so far.\<close>

datatype place = Place (behind: string) (here: string) (groups_of: "(nat \<times> string) list")

datatype regex =
    RxChar "char \<Rightarrow> bool"
  | RxEmpty
  | RxSeq regex regex
  | RxAlt regex regex
  | RxRep nat "nat option" regex
  | RxGroup nat regex
  | RxEdge
  | RxNotBehind "char \<Rightarrow> bool"
  | RxNotAhead regex

text \<open>\<^verbatim>\<open>\w\<close>, \<^verbatim>\<open>\d\<close> and \<^verbatim>\<open>\s\<close> on the code points below 256.\<close>

definition word_char :: "char \<Rightarrow> bool" where
  "word_char c =
     (let n = (of_char c :: nat) in
      48 \<le> n \<and> n \<le> 57 \<or> 65 \<le> n \<and> n \<le> 90 \<or> n = 95 \<or> 97 \<le> n \<and> n \<le> 122
      \<or> n \<in> {170, 178, 179, 181, 185, 186, 188, 189, 190} \<or> 192 \<le> n \<and> n \<noteq> 215 \<and> n \<noteq> 247)"

definition digit_char :: "char \<Rightarrow> bool" where
  "digit_char c = (let n = (of_char c :: nat) in 48 \<le> n \<and> n \<le> 57)"

definition upper_letter :: "char \<Rightarrow> bool" where
  "upper_letter c = (let n = (of_char c :: nat) in 65 \<le> n \<and> n \<le> 90)"

definition lower_letter :: "char \<Rightarrow> bool" where
  "lower_letter c = (let n = (of_char c :: nat) in 97 \<le> n \<and> n \<le> 122)"

definition letter :: "char \<Rightarrow> bool" where
  "letter c \<longleftrightarrow> upper_letter c \<or> lower_letter c"

definition on_edge :: "place \<Rightarrow> bool" where
  "on_edge p \<longleftrightarrow>
     (case behind p of [] \<Rightarrow> False | c # _ \<Rightarrow> word_char c) \<noteq> (case here p of [] \<Rightarrow> False | c # _ \<Rightarrow> word_char c)"

text \<open>
  Greedy repetition: at most \<open>k\<close> more rounds, the longest first, a round that reads nothing is
  not repeated. Without an upper bound the rounds end with the text.
\<close>

primrec greedy :: "(place \<Rightarrow> place list) \<Rightarrow> nat \<Rightarrow> place \<Rightarrow> place list" where
  "greedy m 0 p = [p]"
| "greedy m (Suc k) p =
     concat (map (greedy m k) (filter (\<lambda>q. length (here q) < length (here p)) (m p))) @ [p]"

primrec rounds :: "(place \<Rightarrow> place list) \<Rightarrow> nat \<Rightarrow> (place \<Rightarrow> place list) \<Rightarrow> place \<Rightarrow> place list" where
  "rounds m 0 f p = f p"
| "rounds m (Suc n) f p = concat (map (rounds m n f) (m p))"

definition more_rounds :: "nat \<Rightarrow> nat option \<Rightarrow> place \<Rightarrow> nat" where
  "more_rounds lo hi p = (case hi of None \<Rightarrow> length (here p) | Some h \<Rightarrow> h - lo)"

primrec matches :: "regex \<Rightarrow> place \<Rightarrow> place list" where
  "matches (RxChar P) p =
     (case here p of [] \<Rightarrow> [] | c # s \<Rightarrow> if P c then [Place (c # behind p) s (groups_of p)] else [])"
| "matches RxEmpty p = [p]"
| "matches (RxSeq r q) p = concat (map (matches q) (matches r p))"
| "matches (RxAlt r q) p = matches r p @ matches q p"
| "matches (RxRep lo hi r) p =
     rounds (matches r) lo (\<lambda>q. greedy (matches r) (more_rounds lo hi q) q) p"
| "matches (RxGroup n r) p =
     map (\<lambda>q. Place (behind q) (here q)
         ((n, take (length (here p) - length (here q)) (here p)) # groups_of q))
       (matches r p)"
| "matches RxEdge p = (if on_edge p then [p] else [])"
| "matches (RxNotBehind P) p = (case behind p of [] \<Rightarrow> [p] | c # _ \<Rightarrow> if P c then [] else [p])"
| "matches (RxNotAhead r) p = (case matches r p of [] \<Rightarrow> [p] | _ \<Rightarrow> [])"

text \<open>Shorthands for the patterns: sequences, alternatives, literals and the usual bounds.\<close>

fun rx_all :: "regex list \<Rightarrow> regex" where
  "rx_all [] = RxEmpty"
| "rx_all [r] = r"
| "rx_all (r # q # rs) = RxSeq r (rx_all (q # rs))"

fun rx_any :: "regex list \<Rightarrow> regex" where
  "rx_any [] = RxNotAhead RxEmpty"
| "rx_any [r] = r"
| "rx_any (r # q # rs) = RxAlt r (rx_any (q # rs))"

definition rx_lit :: "string \<Rightarrow> regex" where
  "rx_lit s = rx_all (map (\<lambda>c. RxChar (\<lambda>d. d = c)) s)"

definition rx_lit_ci :: "string \<Rightarrow> regex" where
  "rx_lit_ci s = rx_all (map (\<lambda>c. RxChar (\<lambda>d. lower_char d = lower_char c)) s)"

abbreviation rx_opt :: "regex \<Rightarrow> regex" where "rx_opt r \<equiv> RxRep 0 (Some 1) r"
abbreviation rx_star :: "regex \<Rightarrow> regex" where "rx_star r \<equiv> RxRep 0 None r"
abbreviation rx_plus :: "regex \<Rightarrow> regex" where "rx_plus r \<equiv> RxRep 1 None r"
abbreviation rx_times :: "nat \<Rightarrow> regex \<Rightarrow> regex" where "rx_times n r \<equiv> RxRep n (Some n) r"
abbreviation rx_set :: "string \<Rightarrow> regex" where "rx_set s \<equiv> RxChar (\<lambda>c. c \<in> set s)"

text \<open>\<^theory_text>\<open>search\<close>, \<^theory_text>\<open>fullmatch\<close> and \<^theory_text>\<open>subn\<close>. No pattern of the package matches an empty text.\<close>

definition match_at :: "regex \<Rightarrow> string \<Rightarrow> string \<Rightarrow> place option" where
  "match_at r b s = (case matches r (Place b s []) of [] \<Rightarrow> None | p # _ \<Rightarrow> Some p)"

fun search_from :: "regex \<Rightarrow> string \<Rightarrow> string \<Rightarrow> bool" where
  "search_from r b [] = (match_at r b [] \<noteq> None)"
| "search_from r b (c # s) = (if match_at r b (c # s) \<noteq> None then True else search_from r (c # b) s)"

definition rx_search :: "regex \<Rightarrow> string \<Rightarrow> bool" where
  "rx_search r s = search_from r [] s"

definition rx_fullmatch :: "regex \<Rightarrow> string \<Rightarrow> bool" where
  "rx_fullmatch r s = list_ex (\<lambda>p. here p = []) (matches r (Place [] s []))"

function subn_from ::
  "regex \<Rightarrow> ((nat \<times> string) list \<Rightarrow> string) \<Rightarrow> string \<Rightarrow> string \<Rightarrow> string \<times> nat" where
  "subn_from r f b [] = ([], 0)"
| "subn_from r f b (c # s) =
     (case match_at r b (c # s) of
        None \<Rightarrow> (case subn_from r f (c # b) s of (t, n) \<Rightarrow> (c # t, n))
      | Some p \<Rightarrow>
          (if length (here p) \<le> length s
           then (case subn_from r f (behind p) (here p) of (t, n) \<Rightarrow> (f (groups_of p) @ t, Suc n))
           else (case subn_from r f (c # b) s of (t, n) \<Rightarrow> (c # t, n))))"
  by pat_completeness auto
termination by (relation "measure (\<lambda>(r, f, b, s). length s)") auto

definition rx_subn :: "regex \<Rightarrow> ((nat \<times> string) list \<Rightarrow> string) \<Rightarrow> string \<Rightarrow> string \<times> nat" where
  "rx_subn r f s = subn_from r f [] s"

section \<open>What a match is\<close>

text \<open>A match reads on in the text it started in.\<close>

definition reads_on :: "place \<Rightarrow> place \<Rightarrow> bool" where
  "reads_on p q \<longleftrightarrow> (\<exists>t. here p = t @ here q \<and> behind q = rev t @ behind p)"

lemma reads_on_refl [simp, intro]: "reads_on p p"
  by (auto simp: reads_on_def)

lemma reads_on_trans [trans]: "reads_on p q \<Longrightarrow> reads_on q z \<Longrightarrow> reads_on p z"
  by (force simp: reads_on_def)

lemma reads_on_shorter: "reads_on p q \<Longrightarrow> length (here q) \<le> length (here p)"
  by (auto simp: reads_on_def)

lemma greedy_reads_on:
  "(\<And>p q. q \<in> set (m p) \<Longrightarrow> reads_on p q) \<Longrightarrow> q \<in> set (greedy m k p) \<Longrightarrow> reads_on p q"
  by (induction k arbitrary: p) (auto intro: reads_on_trans)

lemma rounds_reads_on:
  "(\<And>p q. q \<in> set (m p) \<Longrightarrow> reads_on p q) \<Longrightarrow> (\<And>p q. q \<in> set (f p) \<Longrightarrow> reads_on p q) \<Longrightarrow>
     q \<in> set (rounds m n f p) \<Longrightarrow> reads_on p q"
  by (induction n arbitrary: p) (auto intro: reads_on_trans)

lemma matches_reads_on: "q \<in> set (matches r p) \<Longrightarrow> reads_on p q"
proof (induction r arbitrary: p q)
  case (RxRep lo hi r)
  have "q \<in> set (rounds (matches r) lo (\<lambda>q. greedy (matches r) (more_rounds lo hi q) q) p)"
    using RxRep.prems by simp
  then show ?case
    by (rule rounds_reads_on [rotated 2]) (use RxRep.IH greedy_reads_on in blast)+
next
  case (RxSeq r1 r2)
  from RxSeq.prems obtain z where "z \<in> set (matches r1 p)" "q \<in> set (matches r2 z)" by auto
  then show ?case using RxSeq.IH reads_on_trans by blast
next
  case (RxGroup n r)
  then obtain z where "z \<in> set (matches r p)" "behind q = behind z" "here q = here z" by auto
  then show ?case using RxGroup.IH by (simp add: reads_on_def)
next
  case (RxChar P)
  then show ?case by (cases "here p") (auto simp: reads_on_def split: if_splits)
qed (auto split: list.splits if_splits)

lemma match_at_reads_on: "match_at r b s = Some p \<Longrightarrow> reads_on (Place b s []) p"
  using matches_reads_on [of p r "Place b s []"] by (auto simp: match_at_def split: list.splits)

text \<open>Whether a pattern can match at all in a text, and that it reads something when it does.\<close>

definition matches_in :: "regex \<Rightarrow> string \<Rightarrow> bool" where
  "matches_in r s \<longleftrightarrow> (\<exists>a b. s = a @ b \<and> match_at r (rev a) b \<noteq> None)"

lemma split_Cons_iff: "(\<exists>u v. c # s = u @ v \<and> Q u v) \<longleftrightarrow> Q [] (c # s) \<or> (\<exists>u v. s = u @ v \<and> Q (c # u) v)"
  by (auto simp: Cons_eq_append_conv)

lemma search_from_iff:
  "search_from r b s \<longleftrightarrow> (\<exists>u v. s = u @ v \<and> match_at r (rev u @ b) v \<noteq> None)"
proof (induction s arbitrary: b)
  case (Cons c s)
  show ?case
    unfolding split_Cons_iff search_from.simps using Cons.IH [of "c # b"] by simp
qed simp

lemma rx_search_iff: "rx_search r s \<longleftrightarrow> matches_in r s"
  by (simp add: rx_search_def matches_in_def search_from_iff)

definition consuming :: "regex \<Rightarrow> bool" where
  "consuming r \<longleftrightarrow> (\<forall>p. \<forall>q \<in> set (matches r p). length (here q) < length (here p))"

lemma consuming_match: "consuming r \<Longrightarrow> match_at r b s = Some p \<Longrightarrow> length (here p) < length s"
  using bspec [of "set (matches r (Place b s []))" _ p]
  by (auto simp: consuming_def match_at_def split: list.splits) (metis list.set_intros(1) place.sel(2))

lemma consuming_at_end: "consuming r \<Longrightarrow> match_at r b [] = None"
  using consuming_match by (cases "match_at r b []") fastforce+

lemma consuming_char: "consuming (RxChar P)"
  unfolding consuming_def
proof (intro allI ballI)
  fix p q assume "q \<in> set (matches (RxChar P) p)"
  then show "length (here q) < length (here p)" by (cases "here p") (auto split: if_splits)
qed

lemma consuming_seq: "consuming r \<or> consuming q \<Longrightarrow> consuming (RxSeq r q)"
  by (auto simp: consuming_def)
    (metis le_less_trans less_le_trans matches_reads_on reads_on_shorter)+

lemma consuming_alt: "consuming r \<Longrightarrow> consuming q \<Longrightarrow> consuming (RxAlt r q)"
  by (auto simp: consuming_def)

lemma consuming_group: "consuming r \<Longrightarrow> consuming (RxGroup n r)"
  by (auto simp: consuming_def)

lemma consuming_rep: "consuming r \<Longrightarrow> consuming (RxRep (Suc n) hi r)"
  unfolding consuming_def
proof (intro allI ballI)
  fix p q
  assume r: "\<forall>p. \<forall>q \<in> set (matches r p). length (here q) < length (here p)"
    and "q \<in> set (matches (RxRep (Suc n) hi r) p)"
  then obtain z where z: "z \<in> set (matches r p)"
    "q \<in> set (rounds (matches r) n (\<lambda>q. greedy (matches r) (more_rounds (Suc n) hi q) q) z)" by auto
  have "reads_on z q"
    by (rule rounds_reads_on [OF _ _ z(2)]) (use matches_reads_on greedy_reads_on in blast)+
  then show "length (here q) < length (here p)" using r z(1) reads_on_shorter by fastforce
qed

lemmas consuming_rules = consuming_char consuming_alt consuming_group consuming_rep

text \<open>A test on the pattern alone that is enough.\<close>

primrec eats :: "regex \<Rightarrow> bool" where
  "eats (RxChar P) = True"
| "eats RxEmpty = False"
| "eats (RxSeq r q) = (eats r \<or> eats q)"
| "eats (RxAlt r q) = (eats r \<and> eats q)"
| "eats (RxRep lo hi r) = (0 < lo \<and> eats r)"
| "eats (RxGroup n r) = eats r"
| "eats RxEdge = False"
| "eats (RxNotBehind P) = False"
| "eats (RxNotAhead r) = False"

lemma eats_consuming: "eats r \<Longrightarrow> consuming r"
proof (induction r)
  case (RxRep lo hi r)
  then show ?case using consuming_rep by (cases lo) auto
qed (auto intro: consuming_rules consuming_seq)

section \<open>What a substitution does\<close>

text \<open>Without a match nothing changes, and nothing is counted only then.\<close>

lemma subn_from_zero:
  "consuming r \<Longrightarrow> (snd (subn_from r f b s) = 0) = (\<not> search_from r b s)"
  by (induction r f b s rule: subn_from.induct)
    (auto simp: consuming_at_end split: option.splits prod.splits dest: consuming_match)

lemma subn_from_same: "snd (subn_from r f b s) = 0 \<Longrightarrow> fst (subn_from r f b s) = s"
  by (induction r f b s rule: subn_from.induct) (auto split: option.splits prod.splits if_splits)

lemma rx_subn_zero: "consuming r \<Longrightarrow> (snd (rx_subn r f s) = 0) = (\<not> matches_in r s)"
  by (simp add: rx_subn_def subn_from_zero rx_search_def flip: rx_search_iff)

lemma rx_subn_same: "snd (rx_subn r f s) = 0 \<Longrightarrow> fst (rx_subn r f s) = s"
  by (simp add: rx_subn_def subn_from_same)

text \<open>
  The result against the text: the stretches between the matches are kept in order, each match is
  replaced, and no match begins in a stretch that is kept.
\<close>

datatype stretch = Kept char | Replaced string string

definition before_text :: "stretch list \<Rightarrow> string" where
  "before_text xs = concat (map (\<lambda>x. case x of Kept c \<Rightarrow> [c] | Replaced t _ \<Rightarrow> t) xs)"

definition after_text :: "stretch list \<Rightarrow> string" where
  "after_text xs = concat (map (\<lambda>x. case x of Kept c \<Rightarrow> [c] | Replaced _ t \<Rightarrow> t) xs)"

primrec is_cut :: "regex \<Rightarrow> ((nat \<times> string) list \<Rightarrow> string) \<Rightarrow> string \<Rightarrow> stretch list \<Rightarrow> bool" where
  "is_cut r f b [] = True"
| "is_cut r f b (x # xs) =
     (case x of
        Kept c \<Rightarrow> match_at r b (before_text (x # xs)) = None \<and> is_cut r f (c # b) xs
      | Replaced t u \<Rightarrow>
          (case match_at r b (before_text (x # xs)) of
             None \<Rightarrow> False
           | Some p \<Rightarrow> here p = before_text xs \<and> u = f (groups_of p)) \<and> is_cut r f (rev t @ b) xs)"

definition replaced_in :: "stretch list \<Rightarrow> nat" where
  "replaced_in xs = length (filter (\<lambda>x. case x of Kept _ \<Rightarrow> False | Replaced _ _ \<Rightarrow> True) xs)"

lemma stretches_simps [simp]:
  "before_text [] = []" "after_text [] = []" "replaced_in [] = 0"
  "before_text (Kept c # xs) = c # before_text xs" "after_text (Kept c # xs) = c # after_text xs"
  "before_text (Replaced t u # xs) = t @ before_text xs" "after_text (Replaced t u # xs) = u @ after_text xs"
  "replaced_in (Kept c # xs) = replaced_in xs" "replaced_in (Replaced t u # xs) = Suc (replaced_in xs)"
  by (simp_all add: before_text_def after_text_def replaced_in_def)

lemma subn_from_cut:
  assumes "consuming r"
  shows "\<exists>xs. before_text xs = s \<and> subn_from r f b s = (after_text xs, replaced_in xs) \<and> is_cut r f b xs"
  using assms
proof (induction r f b s rule: subn_from.induct)
  case (1 r f b)
  show ?case by (intro exI [of _ "[]"]) simp
next
  case (2 r f b c s)
  show ?case
  proof (cases "match_at r b (c # s)")
    case None
    then obtain xs where "before_text xs = s" "subn_from r f (c # b) s = (after_text xs, replaced_in xs)"
      "is_cut r f (c # b) xs" using 2 by blast
    then show ?thesis using None by (intro exI [of _ "Kept c # xs"]) simp
  next
    case (Some p)
    have le: "length (here p) \<le> length s" using consuming_match [OF 2(4) Some] by simp
    obtain t where t: "c # s = t @ here p" "behind p = rev t @ b"
      using match_at_reads_on [OF Some] by (auto simp: reads_on_def)
    obtain xs where "before_text xs = here p"
      "subn_from r f (behind p) (here p) = (after_text xs, replaced_in xs)" "is_cut r f (behind p) xs"
      using 2(2) [OF Some le 2(4)] by blast
    moreover have "match_at r b (t @ here p) = Some p" using Some t(1) by simp
    moreover have "subn_from r f b (c # s) = (f (groups_of p) @ after_text xs, Suc (replaced_in xs))"
      using Some le calculation by simp
    ultimately show ?thesis using t
      by (intro exI [of _ "Replaced t (f (groups_of p)) # xs"]) simp
  qed
qed

end
