(* ===== verification/Log_Redaction.thy ===== *)
theory Log_Redaction
  imports Regex_Match
begin

text \<open>
  The redaction of secrets from free text (\<^verbatim>\<open>httpsupport/redaction.py\<close>): the four patterns, the text
  without its credentials, the guardrail that asks whether there are any, and the filter that the
  clients put on their loggers.
\<close>

section \<open>The patterns\<close>

definition mask :: string where
  "mask = ''***REDACTED***''"

definition quote_char :: char where
  "quote_char = CHR 0x27"

definition token_char :: "char \<Rightarrow> bool" where
  "token_char c \<longleftrightarrow> letter c \<or> digit_char c \<or> c \<in> set ''._~+/=-''"

definition auth_scheme_re :: regex where
  "auth_scheme_re =
     rx_all [RxEdge,
       RxGroup 1 (rx_any [rx_lit ''Bearer'', rx_lit ''SSWS'', rx_lit ''Basic'', rx_lit ''Token'']),
       rx_plus (RxChar py_space), RxRep 6 None (RxChar token_char)]"

definition dsn_credentials_re :: regex where
  "dsn_credentials_re =
     rx_all [RxEdge,
       RxGroup 1 (rx_all [RxChar letter,
         rx_star (RxChar (\<lambda>c. letter c \<or> digit_char c \<or> c \<in> set ''+.-'')), rx_lit ''://'',
         rx_plus (RxChar (\<lambda>c. \<not> py_space c \<and> c \<notin> set ''/:@''))]),
       rx_lit '':'', RxGroup 2 (rx_plus (RxChar (\<lambda>c. \<not> py_space c \<and> c \<notin> set ''@/''))), rx_lit ''@'']"

definition alnum_char :: "char \<Rightarrow> bool" where
  "alnum_char c \<longleftrightarrow> letter c \<or> digit_char c"

definition token_shapes_re :: regex where
  "token_shapes_re =
     rx_all [RxEdge,
       rx_any [
         rx_all [rx_lit ''ghp_'', RxRep 20 None (RxChar (\<lambda>c. alnum_char c \<or> c = CHR ''_''))],
         rx_all [rx_lit ''github_pat_'', RxRep 20 None (RxChar (\<lambda>c. alnum_char c \<or> c = CHR ''_''))],
         rx_all [rx_lit ''glpat-'', RxRep 10 None (RxChar (\<lambda>c. alnum_char c \<or> c = CHR ''-''))],
         rx_all [rx_lit ''AKIA'', rx_times 16 (RxChar (\<lambda>c. digit_char c \<or> upper_letter c))],
         rx_all [rx_lit ''sk-'', RxRep 20 None (RxChar (\<lambda>c. alnum_char c \<or> c \<in> set ''_-''))],
         rx_all [rx_lit ''xox'', RxChar lower_letter, rx_lit ''-'',
           RxRep 10 None (RxChar (\<lambda>c. alnum_char c \<or> c = CHR ''-''))]]]"

text \<open>The assignments ignore case, in the look-ahead too.\<close>

definition secret_assignment_re :: regex where
  "secret_assignment_re =
     rx_all [
       RxGroup 1 (rx_all [RxEdge,
         rx_any [rx_all [rx_lit_ci ''api'', rx_opt (rx_set ''_-''), rx_lit_ci ''key''], rx_lit_ci ''token'',
           rx_lit_ci ''secret'', rx_lit_ci ''password'', rx_lit_ci ''passwd'', rx_lit_ci ''authorization''],
         RxEdge, rx_opt (rx_set [quote_char, CHR 0x22]), rx_star (RxChar py_space), rx_set '':='',
         rx_star (RxChar py_space), rx_opt (rx_set [quote_char, CHR 0x22])]),
       RxGroup 2 (rx_all [
         RxNotAhead (rx_all [rx_any [rx_lit_ci ''Bearer'', rx_lit_ci ''Basic'', rx_lit_ci ''SSWS'', rx_lit_ci ''Token''],
           RxEdge]),
         RxRep 6 None (RxChar (\<lambda>c. \<not> py_space c \<and> c \<notin> set (quote_char # CHR 0x22 # '',;&'')))])]"

definition group_text :: "nat \<Rightarrow> (nat \<times> string) list \<Rightarrow> string" where
  "group_text n g = (case map_of g n of None \<Rightarrow> [] | Some t \<Rightarrow> t)"

section \<open>Redaction and the guardrail\<close>

definition redact_literals :: "string list \<Rightarrow> string \<Rightarrow> string" where
  "redact_literals secrets t = fold (\<lambda>s t. if s = [] then t else replace_all s mask t) secrets t"

definition redact_text :: "string list \<Rightarrow> string \<Rightarrow> string" where
  "redact_text secrets t =
     (let a = redact_literals secrets t;
          b = fst (rx_subn auth_scheme_re (\<lambda>g. group_text 1 g @ '' '' @ mask) a);
          c = fst (rx_subn dsn_credentials_re (\<lambda>g. group_text 1 g @ '':'' @ mask @ ''@'') b);
          d = fst (rx_subn token_shapes_re (\<lambda>g. mask) c)
      in fst (rx_subn secret_assignment_re (\<lambda>g. group_text 1 g @ mask) d))"

definition contains_secret :: "string \<Rightarrow> bool" where
  "contains_secret t =
     (if t = [] then False
      else rx_search auth_scheme_re t \<or> rx_search dsn_credentials_re t
        \<or> rx_search token_shapes_re t \<or> rx_search secret_assignment_re t)"

section \<open>The log filter\<close>

text \<open>
  A provider answers the live secrets or raises, which counts as none. The set of registered
  secrets is kept in the order of its iteration.
\<close>

record 'w log_redactor =
  lr_secrets :: "string list"
  lr_providers :: "('w \<Rightarrow> string list option) list"

record log_record =
  lg_msg :: string
  lg_has_args :: bool

definition log_redactor :: "string list \<Rightarrow> ('w \<Rightarrow> string list option) option \<Rightarrow> 'w log_redactor" where
  "log_redactor secrets provider =
     \<lparr>lr_secrets = remdups (filter (\<lambda>s. s \<noteq> []) secrets),
      lr_providers = (case provider of None \<Rightarrow> [] | Some p \<Rightarrow> [p])\<rparr>"

definition add_secret :: "string \<Rightarrow> 'w log_redactor \<Rightarrow> 'w log_redactor" where
  "add_secret s r = (if s = [] then r else r\<lparr>lr_secrets := List.insert s (lr_secrets r)\<rparr>)"

definition add_secrets_provider :: "('w \<Rightarrow> string list option) \<Rightarrow> 'w log_redactor \<Rightarrow> 'w log_redactor" where
  "add_secrets_provider p r = r\<lparr>lr_providers := lr_providers r @ [p]\<rparr>"

definition provided :: "'w \<Rightarrow> ('w \<Rightarrow> string list option) \<Rightarrow> string list" where
  "provided w p = (case p w of None \<Rightarrow> [] | Some ss \<Rightarrow> filter (\<lambda>s. s \<noteq> []) ss)"

definition current_secrets :: "'w \<Rightarrow> 'w log_redactor \<Rightarrow> string list" where
  "current_secrets w r = lr_secrets r @ concat (map (provided w) (lr_providers r))"

text \<open>\<open>getMessage\<close> is the message with its arguments formatted in.\<close>

definition filter_record :: "'w \<Rightarrow> 'w log_redactor \<Rightarrow> string \<Rightarrow> log_record \<Rightarrow> log_record" where
  "filter_record w r message rec =
     (let t = redact_text (current_secrets w r) message
      in if t \<noteq> message then rec\<lparr>lg_msg := t, lg_has_args := False\<rparr> else rec)"

section \<open>Clean texts\<close>

lemma eats_lit [simp]: "s \<noteq> [] \<Longrightarrow> eats (rx_lit s)" "s \<noteq> [] \<Longrightarrow> eats (rx_lit_ci s)"
  by (cases s; cases "tl s"; simp add: rx_lit_def rx_lit_ci_def)+

lemma patterns_consume:
  "consuming auth_scheme_re" "consuming dsn_credentials_re" "consuming token_shapes_re"
  "consuming secret_assignment_re"
  by (intro eats_consuming; simp add: auth_scheme_re_def dsn_credentials_re_def token_shapes_re_def
    secret_assignment_re_def)+

lemma redact_no_literals [simp]: "redact_literals [] t = t"
  by (simp add: redact_literals_def)

lemma subn_same_unless_found: "consuming r \<Longrightarrow> \<not> rx_search r t \<Longrightarrow> fst (rx_subn r f t) = t"
  by (simp add: rx_subn_same rx_subn_zero rx_search_iff)


lemma small_scheme_unassigned: "\<not> rx_search secret_assignment_re ''token:ssws abcdef''"
  by code_simp

lemma small_scheme_no_token:
  "\<not> rx_search auth_scheme_re ''token:ssws abcdef''" "\<not> rx_search dsn_credentials_re ''token:ssws abcdef''"
  "\<not> rx_search token_shapes_re ''token:ssws abcdef''"
  by (code_simp, code_simp, code_simp)


end
