(* ===== verification/Privacy_Guard.thy ===== *)
theory Privacy_Guard
  imports Log_Redaction Http_Egress
begin

text \<open>
  The guard on everything that enters a store or a trace: identifier patterns, field rules and
  deny terms (\<^verbatim>\<open>privacy_rules.py\<close>), the deep pass over a value with its report
  (\<^verbatim>\<open>privacy.py\<close>, \<^verbatim>\<open>_privacy_urls.py\<close>), the sanitizer of connector payloads
  (\<^verbatim>\<open>privacy_pii.py\<close>) and the references that stand for identities (\<^verbatim>\<open>privacy_reference.py\<close>). The
  patterns are patterns of \<open>Regex_Match\<close>, so what is redacted is computed here too.
\<close>

section \<open>Values\<close>

text \<open>What can be handed over: plain data with text keys, and objects of other classes.\<close>

datatype content =
    CNone
  | CBool bool
  | CInt int
  | CFloat pyfloat
  | CStr string
  | CDict "(string \<times> content) list"
  | CList "content list"
  | CTuple "content list"
  | CSet "content list"
  | CObject string

section \<open>Patterns\<close>

definition digits_re :: "nat \<Rightarrow> regex" where
  "digits_re n = rx_times n (RxChar digit_char)"

definition not_behind_word :: regex where
  "not_behind_word = RxNotBehind (\<lambda>c. word_char c \<or> c = CHR ''.'')"

definition no_space :: regex where
  "no_space = RxChar (\<lambda>c. \<not> py_space c)"

definition hex_char :: "char \<Rightarrow> bool" where
  "hex_char c \<longleftrightarrow> digit_char c \<or> lower_char c \<in> set ''abcdef''"

definition backslash :: char where
  "backslash = CHR 0x5C"

definition ssn_re :: regex where
  "ssn_re = rx_all [RxEdge, digits_re 3, rx_lit ''-'', digits_re 2, rx_lit ''-'', digits_re 4, RxEdge]"

definition tax_id_re :: regex where
  "tax_id_re = rx_all [RxEdge, digits_re 2, rx_lit ''-'', digits_re 7, RxEdge]"

definition credit_card_re :: regex where
  "credit_card_re =
     rx_all [RxEdge,
       rx_times 3 (rx_all [digits_re 4, rx_opt (RxChar (\<lambda>c. c = CHR ''-'' \<or> py_space c))]), digits_re 4, RxEdge]"

definition email_re :: "(char \<Rightarrow> bool) \<Rightarrow> regex" where
  "email_re top_level =
     rx_all [RxEdge, rx_plus (RxChar (\<lambda>c. alnum_char c \<or> c \<in> set ''._%+-'')), rx_lit ''@'',
       rx_plus (RxChar (\<lambda>c. alnum_char c \<or> c \<in> set ''.-'')), rx_lit ''.'', RxRep 2 None (RxChar top_level), RxEdge]"

definition api_token_re :: regex where
  "api_token_re =
     rx_all [RxEdge,
       rx_any [
         rx_all [rx_lit_ci ''sk-'', rx_opt (rx_lit_ci ''proj-''),
           RxRep 16 None (RxChar (\<lambda>c. alnum_char c \<or> c \<in> set ''_-''))],
         rx_all [rx_lit_ci ''gh'', RxChar (\<lambda>c. lower_char c \<in> set ''pousr''), rx_lit ''_'',
           RxRep 20 None (RxChar alnum_char)]],
       RxEdge]"

definition bearer_token_re :: regex where
  "bearer_token_re =
     rx_all [RxEdge, rx_lit_ci ''Bearer'', rx_plus (RxChar py_space), RxRep 12 None (RxChar token_char)]"

definition phone_sep :: "char \<Rightarrow> bool" where
  "phone_sep c \<longleftrightarrow> c \<in> set ''-.'' \<or> py_space c"

definition phone_re :: regex where
  "phone_re =
     rx_all [RxNotBehind word_char,
       rx_opt (rx_all [rx_opt (rx_lit ''+''), rx_lit ''1'', rx_opt (RxChar phone_sep)]),
       rx_opt (rx_lit ''(''), digits_re 3, rx_opt (rx_lit '')''), rx_opt (RxChar phone_sep),
       digits_re 3, rx_opt (RxChar phone_sep), digits_re 4, RxNotAhead (RxChar word_char)]"

definition any_slash :: regex where
  "any_slash = rx_set [backslash, CHR ''/'']"

definition windows_user_path_re :: regex where
  "windows_user_path_re =
     rx_all [
       rx_any [rx_all [RxChar letter, rx_lit '':'', any_slash], rx_all [rx_lit_ci ''/mnt/'', RxChar letter, rx_lit ''/'']],
       rx_any [rx_lit_ci ''Users'', rx_lit_ci ''Documents and Settings''],
       any_slash, rx_plus (RxChar (\<lambda>c. c \<notin> {backslash, CHR ''/''} \<and> \<not> py_space c)),
       rx_opt (rx_all [any_slash, rx_star no_space])]"

definition windows_absolute_path_re :: regex where
  "windows_absolute_path_re =
     rx_all [RxEdge, RxChar letter, rx_lit '':'', any_slash, rx_plus (RxChar (\<lambda>c. c \<notin> {CHR 13, CHR 10, CHR 9}))]"

definition posix_user_path_re :: regex where
  "posix_user_path_re =
     rx_all [not_behind_word, rx_lit ''/'', rx_any [rx_lit ''home'', rx_lit ''Users''], rx_lit ''/'',
       rx_plus (RxChar (\<lambda>c. c \<noteq> CHR ''/'' \<and> \<not> py_space c)), rx_opt (rx_all [rx_lit ''/'', rx_star no_space])]"

definition posix_local_path_re :: regex where
  "posix_local_path_re =
     rx_all [not_behind_word, rx_lit ''/'',
       rx_any (map rx_lit [''mnt'', ''opt'', ''private/tmp'', ''root'', ''srv'', ''tmp'', ''var/tmp'', ''workspace'', ''workspaces'']),
       rx_opt (rx_all [rx_lit ''/'', rx_star no_space])]"

definition file_uri_re :: regex where
  "file_uri_re = rx_all [RxEdge, rx_lit_ci ''file://'', rx_plus no_space]"

definition octet_re :: regex where
  "octet_re =
     rx_any [
       rx_all [rx_lit ''25'', rx_set ''012345''],
       rx_all [rx_lit ''2'', rx_set ''01234'', RxChar digit_char],
       rx_all [rx_opt (rx_lit ''1''), rx_opt (RxChar digit_char), RxChar digit_char]]"

definition ipv4_re :: regex where
  "ipv4_re =
     rx_all [RxNotBehind (\<lambda>c. digit_char c \<or> c = CHR ''.''), rx_times 3 (rx_all [octet_re, rx_lit ''.'']), octet_re,
       RxNotAhead (RxChar (\<lambda>c. digit_char c \<or> c = CHR ''.''))]"

definition mac_address_re :: regex where
  "mac_address_re =
     rx_all [RxNotBehind hex_char, rx_times 5 (rx_all [rx_times 2 (RxChar hex_char), rx_set '':-'']),
       rx_times 2 (RxChar hex_char), RxNotAhead (RxChar hex_char)]"

definition iban_re :: regex where
  "iban_re =
     rx_all [RxEdge, rx_times 2 (RxChar letter), digits_re 2,
       RxRep 11 (Some 30) (rx_all [rx_opt (rx_lit '' ''), RxChar alnum_char]), RxEdge]"

definition identifier_patterns :: "(string \<times> regex) list" where
  "identifier_patterns =
     [(''ssn'', ssn_re), (''tax_id'', tax_id_re), (''credit_card'', credit_card_re), (''email'', email_re letter),
      (''api_token'', api_token_re), (''bearer_token'', bearer_token_re), (''phone'', phone_re),
      (''windows_user_path'', windows_user_path_re), (''windows_absolute_path'', windows_absolute_path_re),
      (''posix_user_path'', posix_user_path_re), (''posix_local_path'', posix_local_path_re),
      (''file_uri'', file_uri_re), (''ipv4'', ipv4_re), (''mac_address'', mac_address_re), (''iban'', iban_re)]"

section \<open>Field rules\<close>

definition secret_fields :: "string list" where
  "secret_fields =
     [''authorization'', ''api_key'', ''apikey'', ''access_token'', ''refresh_token'', ''client_secret'', ''password'',
      ''secret'', ''token'']"

definition location_fields :: "string list" where
  "location_fields =
     [''base_url'', ''canonical_url'', ''dsn'', ''endpoint'', ''endpoint_url'', ''file_path'', ''home'', ''host'',
      ''hostname'', ''href'', ''html_url'', ''local_path'', ''path'', ''pdf_url'', ''root_path'', ''source_uri'',
      ''source_url'', ''uri'', ''url'', ''web_url'', ''weburl'', ''workspace_path'']"

definition person_fields :: "string list" where
  "person_fields =
     [''assignee'', ''author'', ''author_name'', ''birth_date'', ''created_by'', ''date_of_birth'', ''display_name'',
      ''employee_id'', ''first_name'', ''full_name'', ''ip_address'', ''last_name'', ''owner'', ''owner_name'',
      ''person_name'', ''requester'', ''updated_by'', ''user_email'', ''user_name'', ''username'']"

definition person_context :: "string list" where
  "person_context = [''author'', ''employee'', ''owner'', ''person'', ''user'']"

definition structural_id_fields :: "string list" where
  "structural_id_fields =
     [''id'', ''node_id'', ''source'', ''target'', ''src'', ''dst'', ''parent'', ''agent_id'', ''run_id'', ''trace_id'',
      ''content_hash'', ''blob_digest'', ''digest'']"

definition ignored_terms :: "string list" where
  "ignored_terms =
     [''admin'', ''administrator'', ''cache'', ''config'', ''data'', ''home'', ''root'', ''runner'', ''system'', ''tmp'',
      ''user'', ''workspace'']"

definition field_char :: "char \<Rightarrow> bool" where
  "field_char c \<longleftrightarrow> lower_letter c \<or> digit_char c"

definition strip_char :: "char \<Rightarrow> string \<Rightarrow> string" where
  "strip_char d s = rev (dropWhile (\<lambda>c. c = d) (rev (dropWhile (\<lambda>c. c = d) s)))"

definition field_name :: "string \<Rightarrow> string" where
  "field_name s =
     strip_char CHR ''_''
       (fst (rx_subn (rx_plus (RxChar (\<lambda>c. \<not> field_char c))) (\<lambda>g. ''_'') (map lower_char (py_strip s))))"

fun populated :: "content \<Rightarrow> bool" where
  "populated CNone = False"
| "populated (CStr s) = (s \<noteq> [])"
| "populated (CDict kvs) = (kvs \<noteq> [])"
| "populated (CList xs) = (xs \<noteq> [])"
| "populated (CTuple xs) = (xs \<noteq> [])"
| "populated (CSet xs) = (xs \<noteq> [])"
| "populated _ = True"

definition field_redaction :: "string \<Rightarrow> content \<Rightarrow> string list \<Rightarrow> (string \<times> string) option" where
  "field_redaction f item ctx =
     (if \<not> populated item then None
      else if f \<in> set secret_fields then Some (''secret_field'', ''[REDACTED_SECRET]'')
      else if f \<in> set location_fields then Some (''location_field'', ''[REDACTED_LOCATION]'')
      else if f \<in> set person_fields \<or> f = ''name'' \<and> list_ex (\<lambda>part. part \<in> set person_context) ctx
      then Some (''personal_field'', ''[REDACTED_PERSON]'')
      else None)"

definition usable_terms :: "string list \<Rightarrow> string list" where
  "usable_terms terms =
     sort (remdups (map py_strip (filter (\<lambda>t. 3 \<le> length (py_strip t)
       \<and> map lower_char (py_strip t) \<notin> set ignored_terms) terms)))"

text \<open>
  The terms of the process, computed once: account and host names and the list behind a secret
  reference. The settings, the host, the resolver of references and the JSON reader are parameters;
  the resolver raises on \<open>None\<close>.
\<close>

record identity_env =
  ie_setting :: "string \<Rightarrow> string"
  ie_home_name :: string
  ie_host_name :: string
  ie_resolve :: "string \<Rightarrow> string option"
  ie_json :: "string \<Rightarrow> json option"

definition local_identity_terms :: "identity_env \<Rightarrow> string list" where
  "local_identity_terms E =
     map (\<lambda>n. py_strip (ie_setting E n)) [''LOGNAME'', ''USER'', ''USERNAME'']
     @ [py_strip (ie_home_name E), py_strip (ie_host_name E)]"

definition text_items :: "json list \<Rightarrow> string list" where
  "text_items xs = concat (map (\<lambda>x. case x of JStr s \<Rightarrow> [s] | _ \<Rightarrow> []) xs)"

definition policy_terms :: "identity_env \<Rightarrow> string list option" where
  "policy_terms E =
     (let ref = py_strip (ie_setting E ''PERSISTENCE_PRIVACY_DENY_TERMS_REF'') in
      if ref = [] then Some []
      else case ie_resolve E ref of
             None \<Rightarrow> None
           | Some raw \<Rightarrow>
               Some (case ie_json E raw of
                 None \<Rightarrow> py_split CHR '','' raw
               | Some (JArr xs) \<Rightarrow> text_items xs
               | Some _ \<Rightarrow> []))"

definition runtime_deny_terms :: "identity_env \<Rightarrow> string list option" where
  "runtime_deny_terms E =
     (case policy_terms E of None \<Rightarrow> None | Some ts \<Rightarrow> Some (usable_terms (local_identity_terms E @ ts)))"

section \<open>Public addresses\<close>

definition is_global_ip :: "bool \<Rightarrow> ip \<Rightarrow> bool" where
  "is_global_ip mapped a \<longleftrightarrow> \<not> in_network (looked_through mapped a) shared_address_space \<and> \<not> is_private_ip a"

definition non_public_suffixes :: "string list" where
  "non_public_suffixes = [''.local'', ''.localhost'', ''.internal'', ''.arpa'', ''.lan'', ''.home'']"

definition public_hostname :: "net_lib \<Rightarrow> string \<Rightarrow> bool" where
  "public_hostname L host =
     (case nl_parse L host of
        Some a \<Rightarrow> is_global_ip (nl_mapped L) a
      | None \<Rightarrow> CHR ''.'' \<in> set host \<and> host \<noteq> ''localhost'' \<and> list_all (\<lambda>x. \<not> ends_text x host) non_public_suffixes)"

definition split_http_url :: "net_lib \<Rightarrow> content \<Rightarrow> url_parts option" where
  "split_http_url L v =
     (case v of
        CStr s \<Rightarrow> if list_ex (\<lambda>c. c \<in> {CHR 13, CHR 10, CHR 9, CHR '' ''}) s then None else ul_split (nl_urls L) s
      | _ \<Rightarrow> None)"

definition public_http_url :: "net_lib \<Rightarrow> content \<Rightarrow> bool" where
  "public_http_url L v =
     (case split_http_url L v of
        None \<Rightarrow> False
      | Some p \<Rightarrow>
          (let host = map lower_char (or_empty (up_hostname p)) in
           if up_scheme p \<notin> {''http'', ''https''} then False
           else if host = [] \<or> up_username p \<noteq> None \<or> up_password p \<noteq> None then False
           else public_hostname L host))"

section \<open>The guard\<close>

record privacy_report =
  pr_redactions :: nat
  pr_types :: "string list"

definition report_changed :: "privacy_report \<Rightarrow> bool" where
  "report_changed r \<longleftrightarrow> 0 < pr_redactions r"

record privacy_guard =
  pg_citable :: "string list"
  pg_patterns :: "(string \<times> regex) list"
  pg_lib :: net_lib

definition make_guard :: "net_lib \<Rightarrow> string list \<Rightarrow> string list \<Rightarrow> privacy_guard" where
  "make_guard L terms citable =
     \<lparr>pg_citable = map field_name citable,
      pg_patterns = identifier_patterns @ map (\<lambda>t. (''identity_term'', rx_lit_ci t)) terms,
      pg_lib = L\<rparr>"

text \<open>\<open>deny_terms\<close> given, or the terms of the process, whose secret may not resolve.\<close>

definition persistence_guard ::
  "net_lib \<Rightarrow> identity_env \<Rightarrow> string list option \<Rightarrow> string list \<Rightarrow> privacy_guard option" where
  "persistence_guard L E deny_terms citable =
     (case deny_terms of
        Some ts \<Rightarrow> Some (make_guard L (usable_terms ts) citable)
      | None \<Rightarrow> (case runtime_deny_terms E of None \<Rightarrow> None | Some ts \<Rightarrow> Some (make_guard L ts citable)))"

type_synonym counts = "(string, nat) dict"

definition tally :: "string \<Rightarrow> nat \<Rightarrow> counts \<Rightarrow> counts" where
  "tally label n ks = dict_set label ((case map_of ks label of None \<Rightarrow> 0 | Some m \<Rightarrow> m) + n) ks"

definition upper_char :: "char \<Rightarrow> char" where
  "upper_char c = (if lower_letter c then char_of ((of_char c :: nat) - 32) else c)"

definition redacted_mark :: "string \<Rightarrow> string" where
  "redacted_mark label = ''[REDACTED_'' @ map upper_char label @ '']''"

fun clean_text :: "(string \<times> regex) list \<Rightarrow> string \<Rightarrow> counts \<Rightarrow> string \<times> counts" where
  "clean_text [] t ks = (t, ks)"
| "clean_text ((label, r) # ps) t ks =
     (case rx_subn r (\<lambda>g. redacted_mark label) t of
        (u, n) \<Rightarrow> clean_text ps u (if n = 0 then ks else tally label n ks))"

definition is_text :: "content \<Rightarrow> bool" where
  "is_text v = (case v of CStr s \<Rightarrow> True | _ \<Rightarrow> False)"

fun clean_value :: "privacy_guard \<Rightarrow> string list \<Rightarrow> content \<Rightarrow> counts \<Rightarrow> content \<times> counts"
and clean_items :: "privacy_guard \<Rightarrow> string list \<Rightarrow> content list \<Rightarrow> counts \<Rightarrow> content list \<times> counts"
and clean_entries ::
  "privacy_guard \<Rightarrow> string list \<Rightarrow> (string \<times> content) list \<Rightarrow> counts \<Rightarrow> (string \<times> content) list \<times> counts" where
  "clean_value G ctx (CStr s) ks = (case clean_text (pg_patterns G) s ks of (t, ls) \<Rightarrow> (CStr t, ls))"
| "clean_value G ctx (CDict kvs) ks = (case clean_entries G ctx kvs ks of (xs, ls) \<Rightarrow> (CDict xs, ls))"
| "clean_value G ctx (CList xs) ks = (case clean_items G ctx xs ks of (ys, ls) \<Rightarrow> (CList ys, ls))"
| "clean_value G ctx (CTuple xs) ks = (case clean_items G ctx xs ks of (ys, ls) \<Rightarrow> (CList ys, ls))"
| "clean_value G ctx (CSet xs) ks = (case clean_items G ctx xs ks of (ys, ls) \<Rightarrow> (CList ys, ls))"
| "clean_value G ctx (CObject name) ks = (CStr (''[REDACTED_OBJECT:'' @ name @ '']''), tally ''opaque_object'' 1 ks)"
| "clean_value G ctx v ks = (v, ks)"
| "clean_items G ctx [] ks = ([], ks)"
| "clean_items G ctx (x # xs) ks =
     (case clean_value G ctx x ks of (y, ls) \<Rightarrow>
      case clean_items G ctx xs ls of (ys, ms) \<Rightarrow> (y # ys, ms))"
| "clean_entries G ctx [] ks = ([], ks)"
| "clean_entries G ctx ((k, v) # kvs) ks =
     (case (if field_name k \<in> set (pg_citable G) \<and> public_http_url (pg_lib G) v then (v, ks)
            else case field_redaction (field_name k) v ctx of
                   Some (label, mark) \<Rightarrow> (CStr mark, tally label 1 ks)
                 | None \<Rightarrow>
                     (if field_name k \<in> set structural_id_fields \<and> is_text v then (v, ks)
                      else clean_value G (ctx @ [field_name k]) v ks)) of
        (y, ls) \<Rightarrow> (case clean_entries G ctx kvs ls of (ys, ms) \<Rightarrow> ((k, y) # ys, ms)))"

definition guard_sanitize :: "privacy_guard \<Rightarrow> content \<Rightarrow> content \<times> privacy_report" where
  "guard_sanitize G v =
     (case clean_value G [] v [] of
        (w, ks) \<Rightarrow> (w, \<lparr>pr_redactions = sum_list (map snd ks), pr_types = sort (map fst ks)\<rparr>))"

definition guard_sanitize_text :: "privacy_guard \<Rightarrow> string \<Rightarrow> string \<times> privacy_report" where
  "guard_sanitize_text G s =
     (case guard_sanitize G (CStr s) of (CStr t, r) \<Rightarrow> (t, r) | (_, r) \<Rightarrow> ([], r))"

definition sanitize_for_persistence ::
  "net_lib \<Rightarrow> identity_env \<Rightarrow> string list option \<Rightarrow> content \<Rightarrow> (content \<times> privacy_report) option" where
  "sanitize_for_persistence L E deny_terms v =
     (case persistence_guard L E deny_terms [] of None \<Rightarrow> None | Some G \<Rightarrow> Some (guard_sanitize G v))"

section \<open>Tool responses\<close>

text \<open>Only secrets are taken out, a set stays as it is and a tuple becomes a list.\<close>

fun sanitize_tool_response :: "content \<Rightarrow> content"
and sanitize_tool_items :: "content list \<Rightarrow> content list"
and sanitize_tool_entries :: "(string \<times> content) list \<Rightarrow> (string \<times> content) list" where
  "sanitize_tool_response (CStr s) = CStr (redact_text [] s)"
| "sanitize_tool_response (CDict kvs) = CDict (sanitize_tool_entries kvs)"
| "sanitize_tool_response (CList xs) = CList (sanitize_tool_items xs)"
| "sanitize_tool_response (CTuple xs) = CList (sanitize_tool_items xs)"
| "sanitize_tool_response v = v"
| "sanitize_tool_items [] = []"
| "sanitize_tool_items (x # xs) = sanitize_tool_response x # sanitize_tool_items xs"
| "sanitize_tool_entries [] = []"
| "sanitize_tool_entries ((k, v) # kvs) =
     (k, if field_name k \<in> set secret_fields \<and> v \<notin> {CNone, CStr []} then CStr ''[REDACTED_SECRET]''
         else sanitize_tool_response v) # sanitize_tool_entries kvs"

section \<open>Connector payloads\<close>

text \<open>
  The class of the last part of an address is \<^verbatim>\<open>[A-Z|a-z]\<close> here, with the bar in it. Keys are
  redacted too; tuples and sets are not entered.
\<close>

definition pii_patterns :: "(string \<times> regex) list" where
  "pii_patterns =
     [(''ssn'', ssn_re), (''tax_id'', tax_id_re), (''credit_card'', credit_card_re),
      (''email'', email_re (\<lambda>c. letter c \<or> c = CHR ''|''))]"

definition pii_text :: "(string \<times> regex) list \<Rightarrow> string \<Rightarrow> string" where
  "pii_text ps t = fold (\<lambda>(label, r) u. fst (rx_subn r (\<lambda>g. redacted_mark label) u)) ps t"

fun pii_sanitize :: "(string \<times> regex) list \<Rightarrow> content \<Rightarrow> content"
and pii_items :: "(string \<times> regex) list \<Rightarrow> content list \<Rightarrow> content list"
and pii_entries :: "(string \<times> regex) list \<Rightarrow> (string \<times> content) list \<Rightarrow> (string, content) dict \<Rightarrow> (string, content) dict" where
  "pii_sanitize ps (CStr s) = CStr (pii_text ps s)"
| "pii_sanitize ps (CDict kvs) = CDict (pii_entries ps kvs [])"
| "pii_sanitize ps (CList xs) = CList (pii_items ps xs)"
| "pii_sanitize ps v = v"
| "pii_items ps [] = []"
| "pii_items ps (x # xs) = pii_sanitize ps x # pii_items ps xs"
| "pii_entries ps [] d = d"
| "pii_entries ps ((k, v) # kvs) d = pii_entries ps kvs (dict_set (pii_text ps k) (pii_sanitize ps v) d)"

section \<open>References\<close>

definition reference_re :: regex where
  "reference_re =
     rx_all [rx_lit ''pref_'', rx_plus (RxChar (\<lambda>c. field_char c \<or> c = CHR ''_'')), rx_lit ''_'',
       rx_times 64 (RxChar (\<lambda>c. digit_char c \<or> c \<in> set ''abcdef''))]"

record reference_env =
  rf_key :: "string option"
  rf_sha256 :: "string \<Rightarrow> string"
  rf_hmac :: "string \<Rightarrow> string \<Rightarrow> string"

definition reference_label :: "string \<Rightarrow> string" where
  "reference_label kind =
     (let t = strip_char CHR ''_''
        (fst (rx_subn (rx_plus (RxChar (\<lambda>c. \<not> (field_char c \<or> c = CHR ''_'')))) (\<lambda>g. ''_'') (map lower_char kind)))
      in if t = [] then ''value'' else t)"

text \<open>\<open>str(value or "")\<close> is the text given here.\<close>

definition persistence_reference :: "reference_env \<Rightarrow> string \<Rightarrow> string \<Rightarrow> string \<Rightarrow> string" where
  "persistence_reference E kind namespace text =
     (if text = [] \<or> rx_fullmatch reference_re text then text
      else let label = reference_label kind;
               framed = join_with [CHR 0x00] [''persistence-reference:v1'', utf8 label, utf8 namespace, utf8 text];
               hex = (case rf_key E of None \<Rightarrow> rf_sha256 E framed | Some key \<Rightarrow> rf_hmac E key framed)
           in ''pref_'' @ label @ ''_'' @ hex)"

section \<open>What the guard lets through\<close>

text \<open>A value in which no rule of the guard applies, and the copy a pass makes of it.\<close>

fun untouched :: "privacy_guard \<Rightarrow> string list \<Rightarrow> content \<Rightarrow> bool"
and untouched_items :: "privacy_guard \<Rightarrow> string list \<Rightarrow> content list \<Rightarrow> bool"
and untouched_entries :: "privacy_guard \<Rightarrow> string list \<Rightarrow> (string \<times> content) list \<Rightarrow> bool" where
  "untouched G ctx (CStr s) = list_all (\<lambda>(label, r). \<not> matches_in r s) (pg_patterns G)"
| "untouched G ctx (CDict kvs) = untouched_entries G ctx kvs"
| "untouched G ctx (CList xs) = untouched_items G ctx xs"
| "untouched G ctx (CTuple xs) = untouched_items G ctx xs"
| "untouched G ctx (CSet xs) = untouched_items G ctx xs"
| "untouched G ctx (CObject name) = False"
| "untouched G ctx v = True"
| "untouched_items G ctx [] = True"
| "untouched_items G ctx (x # xs) = (untouched G ctx x \<and> untouched_items G ctx xs)"
| "untouched_entries G ctx [] = True"
| "untouched_entries G ctx ((k, v) # kvs) =
     ((if field_name k \<in> set (pg_citable G) \<and> public_http_url (pg_lib G) v then True
       else field_redaction (field_name k) v ctx = None
         \<and> (if field_name k \<in> set structural_id_fields \<and> is_text v then True
            else untouched G (ctx @ [field_name k]) v))
      \<and> untouched_entries G ctx kvs)"

fun list_copy :: "content \<Rightarrow> content"
and list_copies :: "content list \<Rightarrow> content list"
and list_copy_entries :: "(string \<times> content) list \<Rightarrow> (string \<times> content) list" where
  "list_copy (CDict kvs) = CDict (list_copy_entries kvs)"
| "list_copy (CList xs) = CList (list_copies xs)"
| "list_copy (CTuple xs) = CList (list_copies xs)"
| "list_copy (CSet xs) = CList (list_copies xs)"
| "list_copy v = v"
| "list_copies [] = []"
| "list_copies (x # xs) = list_copy x # list_copies xs"
| "list_copy_entries [] = []"
| "list_copy_entries ((k, v) # kvs) = (k, list_copy v) # list_copy_entries kvs"

abbreviation tallied :: "counts \<Rightarrow> nat" where
  "tallied ks \<equiv> sum_list (map snd ks)"

lemma tallied_dict_set:
  "tallied (dict_set label v ks) + (case map_of ks label of None \<Rightarrow> 0 | Some m \<Rightarrow> m) = tallied ks + v"
  by (induction label v ks rule: dict_set.induct) auto

lemma tallied_tally [simp]: "tallied (tally label n ks) = tallied ks + n"
  using tallied_dict_set [of label "(case map_of ks label of None \<Rightarrow> 0 | Some m \<Rightarrow> m) + n" ks]
  unfolding tally_def by linarith

lemma clean_text_zero:
  assumes "list_all (\<lambda>(label, r). consuming r) ps"
  shows "tallied ks \<le> tallied (snd (clean_text ps t ks))
    \<and> (tallied (snd (clean_text ps t ks)) = tallied ks \<longrightarrow> fst (clean_text ps t ks) = t)
    \<and> (tallied (snd (clean_text ps t ks)) = tallied ks \<longleftrightarrow> list_all (\<lambda>(label, r). \<not> matches_in r t) ps)"
  using assms
proof (induction ps t ks rule: clean_text.induct)
  case (2 label r ps t ks)
  obtain u n where un: "rx_subn r (\<lambda>g. redacted_mark label) t = (u, n)" by fastforce
  have n: "n = 0 \<longleftrightarrow> \<not> matches_in r t" and u: "n = 0 \<Longrightarrow> u = t"
    using rx_subn_zero [of r "\<lambda>g. redacted_mark label" t] rx_subn_same [of r "\<lambda>g. redacted_mark label" t] un 2(2)
    by auto
  show ?case
    using 2(1) [OF un [symmetric]] 2(2) un n u by (cases "n = 0") auto
qed simp

lemma public_url_text: "public_http_url L v \<Longrightarrow> is_text v"
  by (cases v) (auto simp: public_http_url_def split_http_url_def is_text_def)

lemma list_copy_text: "is_text v \<Longrightarrow> list_copy v = v"
  by (cases v) (auto simp: is_text_def)

definition counted :: "counts \<Rightarrow> counts \<Rightarrow> bool \<Rightarrow> bool \<Rightarrow> bool" where
  "counted ks ls free same \<longleftrightarrow> tallied ks \<le> tallied ls \<and> (tallied ls = tallied ks \<longleftrightarrow> free) \<and> (free \<longrightarrow> same)"

lemma counted_step: "counted ks ls f1 s1 \<Longrightarrow> counted ls ms f2 s2 \<Longrightarrow> counted ks ms (f1 \<and> f2) (s1 \<and> s2)"
  unfolding counted_def by auto

lemma clean_pass_counted:
  assumes "list_all (\<lambda>(label, r). consuming r) (pg_patterns G)"
  shows
    "counted ks (snd (clean_value G ctx v ks)) (untouched G ctx v) (fst (clean_value G ctx v ks) = list_copy v)"
    "counted ks (snd (clean_items G ctx xs ks)) (untouched_items G ctx xs)
       (fst (clean_items G ctx xs ks) = list_copies xs)"
    "counted ks (snd (clean_entries G ctx kvs ks)) (untouched_entries G ctx kvs)
       (fst (clean_entries G ctx kvs ks) = list_copy_entries kvs)"
  using assms
proof (induction G ctx v ks and G ctx xs ks and G ctx kvs ks rule: clean_value_clean_items_clean_entries.induct)
  case (1 G ctx s ks)
  then show ?case using clean_text_zero [of "pg_patterns G" ks s] by (auto simp: counted_def split: prod.splits)
next
  case (9 G ctx x xs ks)
  obtain y ls where y: "clean_value G ctx x ks = (y, ls)" by fastforce
  obtain ys ms where ys: "clean_items G ctx xs ls = (ys, ms)" by fastforce
  have "counted ks ls (untouched G ctx x) (y = list_copy x)" using 9 y by simp
  moreover have "counted ls ms (untouched_items G ctx xs) (ys = list_copies xs)" using 9 y ys by simp
  ultimately show ?case using counted_step y ys by fastforce
next
  case (11 G ctx k v kvs ks)
  define first where "first =
      (if field_name k \<in> set (pg_citable G) \<and> public_http_url (pg_lib G) v then (v, ks)
       else case field_redaction (field_name k) v ctx of
              Some (label, mark) \<Rightarrow> (CStr mark, tally label 1 ks)
            | None \<Rightarrow> (if field_name k \<in> set structural_id_fields \<and> is_text v then (v, ks)
                      else clean_value G (ctx @ [field_name k]) v ks))"
  obtain y ls where y: "first = (y, ls)" by fastforce
  obtain ys ms where ys: "clean_entries G ctx kvs ls = (ys, ms)" by fastforce
  have "counted ks ls (untouched_entries G ctx [(k, v)]) (y = list_copy v)"
    using 11(1) 11(3) y unfolding first_def
    by (auto simp: counted_def list_copy_text public_url_text split: if_splits option.splits)
  moreover have "counted ls ms (untouched_entries G ctx kvs) (ys = list_copy_entries kvs)"
    using 11(2) [OF _ 11(3), of y ls] y ys first_def by fastforce
  ultimately show ?case using counted_step [of ks ls] y ys unfolding first_def by fastforce
qed (auto simp: counted_def split: prod.splits)

text \<open>
  What a value looks like after the pass: under every field with a rule there is the mark of the
  rule, nothing at all, or a public address the caller may cite, and no object is left.
\<close>

fun cleared :: "privacy_guard \<Rightarrow> string list \<Rightarrow> content \<Rightarrow> bool"
and cleared_items :: "privacy_guard \<Rightarrow> string list \<Rightarrow> content list \<Rightarrow> bool"
and cleared_entries :: "privacy_guard \<Rightarrow> string list \<Rightarrow> (string \<times> content) list \<Rightarrow> bool" where
  "cleared G ctx (CDict kvs) = cleared_entries G ctx kvs"
| "cleared G ctx (CList xs) = cleared_items G ctx xs"
| "cleared G ctx (CTuple xs) = False"
| "cleared G ctx (CSet xs) = False"
| "cleared G ctx (CObject name) = False"
| "cleared G ctx v = True"
| "cleared_items G ctx [] = True"
| "cleared_items G ctx (x # xs) = (cleared G ctx x \<and> cleared_items G ctx xs)"
| "cleared_entries G ctx [] = True"
| "cleared_entries G ctx ((k, v) # kvs) =
     ((if field_name k \<in> set (pg_citable G) \<and> public_http_url (pg_lib G) v then True
       else case field_redaction (field_name k) v ctx of
              Some (label, mark) \<Rightarrow> v = CStr mark
            | None \<Rightarrow> (if is_text v then True else cleared G (ctx @ [field_name k]) v))
      \<and> cleared_entries G ctx kvs)"

lemma redaction_of_mark:
  "field_redaction f v ctx = Some (label, mark) \<Longrightarrow> field_redaction f (CStr mark) ctx = Some (label, mark)"
  by (auto simp: field_redaction_def split: if_splits)

lemma subn_from_nonempty:
  "(\<And>g. f g \<noteq> []) \<Longrightarrow> fst (subn_from r f b s) = [] \<longleftrightarrow> s = []"
  by (induction r f b s rule: subn_from.induct) (auto split: option.splits prod.splits)

lemma clean_text_empty: "fst (clean_text ps t ks) = [] \<longleftrightarrow> t = []"
proof (induction ps t ks rule: clean_text.induct)
  case (2 label r ps t ks)
  obtain u n where "rx_subn r (\<lambda>g. redacted_mark label) t = (u, n)" by fastforce
  then show ?case
    using 2 subn_from_nonempty [of "\<lambda>g. redacted_mark label" r "[]" t]
    by (simp add: rx_subn_def redacted_mark_def)
qed simp

lemma clean_items_empty: "fst (clean_items G ctx xs ks) = [] \<longleftrightarrow> xs = []"
  by (cases xs) (simp_all split: prod.splits)

lemma clean_entries_empty: "fst (clean_entries G ctx kvs ks) = [] \<longleftrightarrow> kvs = []"
proof (cases kvs)
  case (Cons e es)
  then show ?thesis by (cases e) (simp add: case_prod_beta del: split_paired_All)
qed simp

lemma clean_value_populated: "populated (fst (clean_value G ctx v ks)) = populated v"
proof (cases v)
  case (CStr s)
  then show ?thesis using clean_text_empty [of "pg_patterns G" s ks] by (simp add: case_prod_beta)
next
  case (CDict kvs)
  then show ?thesis using clean_entries_empty [of G ctx kvs ks] by (simp add: case_prod_beta)
qed (simp_all add: clean_items_empty case_prod_beta)

lemma field_redaction_populated:
  "populated v = populated w \<Longrightarrow> field_redaction f v ctx = field_redaction f w ctx"
  by (simp add: field_redaction_def)

lemma clean_pass_cleared:
  "cleared G ctx (fst (clean_value G ctx v ks))"
  "cleared_items G ctx (fst (clean_items G ctx xs ks))"
  "cleared_entries G ctx (fst (clean_entries G ctx kvs ks))"
proof (induction G ctx v ks and G ctx xs ks and G ctx kvs ks rule: clean_value_clean_items_clean_entries.induct)
  case (11 G ctx k v kvs ks)
  define first where "first =
      (if field_name k \<in> set (pg_citable G) \<and> public_http_url (pg_lib G) v then (v, ks)
       else case field_redaction (field_name k) v ctx of
              Some (label, mark) \<Rightarrow> (CStr mark, tally label 1 ks)
            | None \<Rightarrow> (if field_name k \<in> set structural_id_fields \<and> is_text v then (v, ks)
                      else clean_value G (ctx @ [field_name k]) v ks))"
  obtain y ls where y: "first = (y, ls)" by fastforce
  obtain ys ms where ys: "clean_entries G ctx kvs ls = (ys, ms)" by fastforce
  have "cleared_entries G ctx [(k, y)]"
  proof (cases "field_name k \<in> set (pg_citable G) \<and> public_http_url (pg_lib G) v")
    case True
    then show ?thesis using y by (simp add: first_def)
  next
    case rule: False
    show ?thesis
    proof (cases "field_redaction (field_name k) v ctx")
      case (Some r)
      then show ?thesis using y rule redaction_of_mark [of "field_name k" v ctx]
        by (cases r) (auto simp: first_def)
    next
      case None
      have "populated y = populated v \<and> (is_text v \<or> cleared G (ctx @ [field_name k]) y)"
        using 11(1) [OF rule None] y rule None clean_value_populated [of G "ctx @ [field_name k]" v ks]
        by (auto simp: first_def split: if_splits)
      moreover have "is_text v \<Longrightarrow> is_text y"
        using y rule None by (cases v) (auto simp: first_def is_text_def split: if_splits prod.splits)
      ultimately show ?thesis
        using None field_redaction_populated [of y v "field_name k" ctx] by auto
    qed
  qed
  moreover have "cleared_entries G ctx ys"
    using 11(2) [of y ls] y ys first_def by fastforce
  ultimately show ?case using y ys unfolding first_def by fastforce
qed (auto split: prod.splits)

lemma identifier_patterns_consume: "list_all (\<lambda>(label, r). consuming r) identifier_patterns"
proof -
  have "list_all (\<lambda>(label, r). eats r) identifier_patterns"
    by (simp add: identifier_patterns_def ssn_re_def tax_id_re_def credit_card_re_def email_re_def api_token_re_def
        bearer_token_re_def phone_re_def windows_user_path_re_def windows_absolute_path_re_def posix_user_path_re_def
        posix_local_path_re_def file_uri_re_def ipv4_re_def octet_re_def mac_address_re_def iban_re_def digits_re_def)
  then show ?thesis using eats_consuming by (auto simp: list_all_iff)
qed

lemma usable_term_long: "t \<in> set (usable_terms ts) \<Longrightarrow> t \<noteq> []"
  by (auto simp: usable_terms_def)

lemma guard_patterns_consume:
  "list_all (\<lambda>(label, r). consuming r) (pg_patterns (make_guard L (usable_terms ts) cs))"
  using identifier_patterns_consume usable_term_long
  by (auto simp: make_guard_def list_all_iff intro: eats_consuming)

text \<open>
  Property C33. The guard reports no redaction exactly when no rule of it applies anywhere: no field
  rule fires, no object is met, and no identifier pattern and no deny term matches at any place of
  any text that is not a structural identifier or a citable public address. The value is then handed
  on as it is, with tuples and sets as lists.
\<close>

theorem guard_reports_untouched:
  "if untouched (make_guard L (usable_terms terms) citable) [] v
   then pr_redactions (snd (guard_sanitize (make_guard L (usable_terms terms) citable) v)) = 0
     \<and> fst (guard_sanitize (make_guard L (usable_terms terms) citable) v) = list_copy v
   else 0 < pr_redactions (snd (guard_sanitize (make_guard L (usable_terms terms) citable) v))"
  using clean_pass_counted(1) [OF guard_patterns_consume [of L terms citable], of "[]" "[]" v]
  by (simp add: guard_sanitize_def counted_def case_prod_beta del: sum_list_eq_0_iff) linarith

text \<open>
  Property C32. Whatever is handed to the guard, in what it hands on every field that a rule names,
  at any depth, holds the mark of its rule unless it is empty or a public address under a citable
  field; a name below a personal field is among them, and no object and no set is left.
\<close>

theorem guard_clears_fields: "cleared G [] (fst (guard_sanitize G v))"
  using clean_pass_cleared(1) [of G "[]" v "[]"] by (auto simp: guard_sanitize_def split: prod.splits)

end
