(* ===== verification/Graph_Values.thy ===== *)
theory Graph_Values
  imports Privacy_Guard Sync_Records
begin

text \<open>
  The GraphQL document connector, \<^verbatim>\<open>source_connectors/connectors/_graphql_*.py\<close>: its patterns and
  bounds, digests, aliases and governance values, numbers and access read from configuration, dotted
  paths and the allow-lists for partial errors. A profile is the JSON document the code handles;
  nothing is taken out of it before the code takes it out.
\<close>

section \<open>Errors\<close>

text \<open>\<open>GraphQLDocumentError\<close>, \<^theory_text>\<open>ValueError\<close>, and any other exception by its class.\<close>

datatype gql_exn = GqlError string | GqlValue string | GqlOther string

section \<open>Patterns\<close>

abbreviation class_re :: "(char \<Rightarrow> bool) \<Rightarrow> regex" where "class_re P \<equiv> RxChar P"

abbreviation up_to :: "nat \<Rightarrow> nat \<Rightarrow> (char \<Rightarrow> bool) \<Rightarrow> regex" where
  "up_to lo hi P \<equiv> RxRep lo (Some hi) (RxChar P)"

definition alias_re :: regex where
  "alias_re = rx_all [class_re lower_letter, up_to 1 62 (\<lambda>c. lower_letter c \<or> digit_char c \<or> c = CHR ''-'')]"

definition operation_re :: regex where
  "operation_re = rx_all [class_re lower_letter, up_to 1 63 (\<lambda>c. lower_letter c \<or> digit_char c \<or> c = CHR ''_'')]"

definition document_type_re :: regex where
  "document_type_re =
     rx_all [class_re lower_letter, up_to 1 63 (\<lambda>c. lower_letter c \<or> digit_char c \<or> c \<in> set ''_-'')]"

definition entity_type_re :: regex where
  "entity_type_re = rx_all [class_re letter, up_to 1 63 (\<lambda>c. alnum_char c \<or> c \<in> set ''_-'')]"

definition secret_ref_re :: regex where
  "secret_ref_re =
     rx_all [rx_any [rx_lit ''env'', rx_lit ''openbao''], rx_lit ''://'',
       rx_plus (class_re (\<lambda>c. alnum_char c \<or> c \<in> set ''_./#-''))]"

definition error_code_re :: regex where
  "error_code_re = rx_all [class_re upper_letter, up_to 1 63 (\<lambda>c. upper_letter c \<or> digit_char c \<or> c = CHR ''_'')]"

definition name_start :: "char \<Rightarrow> bool" where
  "name_start c \<longleftrightarrow> letter c \<or> c = CHR ''_''"

definition name_rest :: "char \<Rightarrow> bool" where
  "name_rest c \<longleftrightarrow> alnum_char c \<or> c = CHR ''_''"

definition field_name_re :: regex where
  "field_name_re = rx_all [class_re name_start, up_to 0 127 name_rest]"

definition field_path_re :: regex where
  "field_path_re =
     rx_all [class_re name_start, rx_star (class_re name_rest),
       rx_star (rx_all [rx_lit ''.'', class_re name_start, rx_star (class_re name_rest)])]"

definition retention_re :: regex where
  "retention_re =
     rx_any [
       rx_all [rx_lit ''P'', rx_plus (rx_all [rx_plus (class_re digit_char), rx_set ''YMWD'']),
         rx_opt (rx_all [rx_lit ''T'', rx_plus (rx_all [rx_plus (class_re digit_char), rx_set ''HMS''])])],
       rx_all [class_re letter, up_to 1 63 (\<lambda>c. alnum_char c \<or> c \<in> set ''_.:-'')]]"

definition version_label_re :: regex where
  "version_label_re = rx_all [class_re alnum_char, up_to 0 63 (\<lambda>c. alnum_char c \<or> c \<in> set ''_.:-'')]"

definition header_re :: regex where
  "header_re = up_to 1 128 (\<lambda>c. alnum_char c \<or> c = CHR 0x27 \<or> c = CHR 0x60 \<or> c \<in> set ''!#$%&*+.^_|~-'')"

section \<open>Ports\<close>

text \<open>
  The hashes, the text Python gives a float or a container, the models that check an access value,
  the guard a check of access builds for itself, and the guard of the connector.
\<close>

record access =
  ac_public :: bool
  ac_users :: "string list"
  ac_groups :: "string list"
  ac_roles :: "string list"
  ac_markings :: "string list"

record gql_env =
  ge_py :: pyenv
  ge_sha256 :: "string \<Rightarrow> 256 word"
  ge_hmac :: "string \<Rightarrow> string \<Rightarrow> 256 word"
  ge_access :: "json \<Rightarrow> access option"
  ge_access_guard :: privacy_guard
  ge_guard :: privacy_guard

abbreviation pstr :: "gql_env \<Rightarrow> json \<Rightarrow> string" where
  "pstr E v \<equiv> py_str (ge_py E) v"

text \<open>\<^theory_text>\<open>str(value or fallback)\<close>, and the same of a key.\<close>

definition text_or :: "gql_env \<Rightarrow> string \<Rightarrow> json \<Rightarrow> string" where
  "text_or E fallback v = (if truthy v then pstr E v else fallback)"

definition key_text :: "gql_env \<Rightarrow> (string, json) dict \<Rightarrow> string \<Rightarrow> string \<Rightarrow> string" where
  "key_text E d k fallback = text_or E fallback (get d k)"

section \<open>Digests\<close>

definition hexdigest :: "256 word \<Rightarrow> string" where
  "hexdigest w = map (\<lambda>i. hex_digit (unat w div 16 ^ (63 - i) mod 16)) [0..<64]"

definition sha256_text :: "gql_env \<Rightarrow> string \<Rightarrow> string" where
  "sha256_text E t = hexdigest (ge_sha256 E t)"

definition gql_digest :: "gql_env \<Rightarrow> json list \<Rightarrow> string" where
  "gql_digest E parts = digest (sha256_text E) (py_float_repr (ge_py E)) (JArr parts)"

definition private_digest :: "gql_env \<Rightarrow> string \<Rightarrow> json list \<Rightarrow> string" where
  "private_digest E key parts =
     digest (\<lambda>t. hexdigest (ge_hmac E (utf8 key) t)) (py_float_repr (ge_py E)) (JArr parts)"

lemma digests_nonempty [simp]: "gql_digest E parts \<noteq> []" "private_digest E key parts \<noteq> []"
proof -
  have "hexdigest w \<noteq> []" for w by (simp add: hexdigest_def)
  then show "gql_digest E parts \<noteq> []" "private_digest E key parts \<noteq> []"
    unfolding gql_digest_def private_digest_def sha256_text_def
    using digest_encoding [of "\<lambda>t. hexdigest (ge_sha256 E t)" "py_float_repr (ge_py E)" "JArr parts"]
      digest_encoding [of "\<lambda>t. hexdigest (ge_hmac E (utf8 key) t)" "py_float_repr (ge_py E)" "JArr parts"]
    by metis+
qed

section \<open>Governance values\<close>

definition safe_alias :: "string \<Rightarrow> string \<Rightarrow> gql_exn + string" where
  "safe_alias label s =
     (let clean = map lower_char (py_strip s) in
      andR (refuse_if (\<not> rx_fullmatch alias_re clean) (GqlValue (label @ '' must be a neutral lowercase alias'')))
        (Inr clean))"

definition safe_document_type :: "gql_env \<Rightarrow> json \<Rightarrow> string" where
  "safe_document_type E v =
     (let clean = map lower_char (py_strip (text_or E ''external_document'' v))
      in if rx_fullmatch document_type_re clean then clean else ''external_document'')"

definition safe_entity_type :: "gql_env \<Rightarrow> string \<Rightarrow> json \<Rightarrow> string" where
  "safe_entity_type E fallback v =
     (let clean = py_strip (text_or E fallback v) in if rx_fullmatch entity_type_re clean then clean else fallback)"

datatype classification = Public | Internal | Confidential | Restricted

fun classification_text :: "classification \<Rightarrow> string" where
  "classification_text Public = ''public''"
| "classification_text Internal = ''internal''"
| "classification_text Confidential = ''confidential''"
| "classification_text Restricted = ''restricted''"

definition classification_named :: "string \<Rightarrow> classification option" where
  "classification_named s =
     List.find (\<lambda>c. classification_text c = s) [Public, Internal, Confidential, Restricted]"

definition classification_of :: "gql_env \<Rightarrow> json \<Rightarrow> gql_exn + classification" where
  "classification_of E v =
     (case classification_named (text_or E ''internal'' v) of
        None \<Rightarrow> Inl (GqlError ''GraphQL governance classification is invalid'')
      | Some c \<Rightarrow> Inr c)"

definition policy_values :: "gql_env \<Rightarrow> string \<Rightarrow> regex \<Rightarrow> json \<Rightarrow> gql_exn + string list" where
  "policy_values E label pat v =
     (let bad = GqlError (''GraphQL '' @ label @ '' allowlist is invalid'') in
      case v of
        JNull \<Rightarrow> Inr []
      | JArr [] \<Rightarrow> Inr []
      | JArr xs \<Rightarrow>
          (let items = map (\<lambda>x. py_strip (pstr E x)) xs in
           andR (refuse_if (256 < length xs) bad)
           (andR (refuse_if (list_ex (\<lambda>i. 512 < length (utf8 i) \<or> \<not> rx_fullmatch pat i) items) bad)
             (Inr items)))
      | _ \<Rightarrow> Inl bad)"

definition check_public_access :: "classification \<Rightarrow> access \<Rightarrow> gql_exn + unit" where
  "check_public_access c a =
     (if c = Public \<and> \<not> ac_public a
      then Inl (GqlError ''GraphQL public classification requires public source access'')
      else refuse_if (c \<noteq> Public \<and> ac_public a)
        (GqlError ''GraphQL non-public classification cannot use public source access''))"

section \<open>Numbers\<close>

text \<open>\<^theory_text>\<open>int(value)\<close>: the class of the exception or the number.\<close>

fun int_value :: "json \<Rightarrow> string + int" where
  "int_value (JInt i) = Inr i"
| "int_value (JBool b) = Inr (if b then 1 else 0)"
| "int_value (JFloat (Fin r)) = Inr (if r < 0 then ceiling r else floor r)"
| "int_value (JFloat NaN) = Inl ''ValueError''"
| "int_value (JFloat _) = Inl ''OverflowError''"
| "int_value (JStr s) = (case py_int s of None \<Rightarrow> Inl ''ValueError'' | Some i \<Rightarrow> Inr i)"
| "int_value _ = Inl ''TypeError''"

text \<open>\<open>_bounded_int\<close> expects type and value errors only.\<close>

definition bounded_int :: "json \<Rightarrow> int \<Rightarrow> int \<Rightarrow> int \<Rightarrow> gql_exn + int" where
  "bounded_int v dflt lo hi =
     (case int_value v of
        Inr i \<Rightarrow> Inr (max lo (min i hi))
      | Inl cls \<Rightarrow>
          (if cls \<in> {''TypeError'', ''ValueError''} then Inr (max lo (min dflt hi)) else Inl (GqlOther cls)))"

definition raised_class :: "string \<Rightarrow> gql_exn" where
  "raised_class cls = (if cls = ''ValueError'' then GqlValue [] else GqlOther cls)"

definition cfg_int :: "(string, json) dict \<Rightarrow> string \<Rightarrow> int \<Rightarrow> gql_exn + int" where
  "cfg_int config key dflt =
     (if truthy (get config key) then map_sum raised_class id (int_value (get config key)) else Inr dflt)"

section \<open>Access\<close>

definition unconfigured_marking :: string where
  "unconfigured_marking = ''connector-unconfigured-acl''"

definition quarantined :: access where
  "quarantined = \<lparr>ac_public = False, ac_users = [], ac_groups = [], ac_roles = [], ac_markings = [unconfigured_marking]\<rparr>"

definition personal_principal :: "gql_env \<Rightarrow> string \<Rightarrow> bool" where
  "personal_principal E s = report_changed (snd (guard_sanitize_text (ge_access_guard E) s))"

definition access_from_config :: "gql_env \<Rightarrow> json \<Rightarrow> gql_exn + access" where
  "access_from_config E v =
     (if v = JNull then Inr quarantined
      else case ge_access E v of
        None \<Rightarrow> Inl (GqlValue ''validation error'')
      | Some a \<Rightarrow>
          andR (refuse_if (ac_users a \<noteq> [])
            (GqlValue (''GraphQL document ingestion does not persist user-email ACLs; ''
              @ ''use non-personal group aliases or a mandatory marking'')))
          (andR (refuse_if (list_ex (personal_principal E) (ac_groups a @ ac_markings a))
            (GqlValue ''GraphQL ACL aliases must be non-personal and location-free''))
          (Inr (if \<not> ac_public a \<and> ac_groups a = [] \<and> ac_markings a = [] then quarantined else a))))"

text \<open>The value a description gives and its place in a record: \<open>model_dump\<close> and \<open>access_properties\<close>.\<close>

definition strings :: "string list \<Rightarrow> json" where
  "strings xs = JArr (map JStr xs)"

definition access_json :: "access \<Rightarrow> json" where
  "access_json a =
     JObj [(''is_public'', JBool (ac_public a)), (''user_emails'', strings (ac_users a)),
       (''group_ids'', strings (ac_groups a)), (''read_roles'', strings (ac_roles a)),
       (''markings'', strings (ac_markings a))]"

section \<open>Dotted paths\<close>

definition path_parts :: "string \<Rightarrow> string list" where
  "path_parts p = filter (\<lambda>s. s \<noteq> []) (py_split CHR ''.'' p)"

fun dig_parts :: "json \<Rightarrow> json \<Rightarrow> string list \<Rightarrow> json" where
  "dig_parts dflt v [] = v"
| "dig_parts dflt (JObj kvs) (part # parts) =
     (case map_of kvs part of None \<Rightarrow> dflt | Some w \<Rightarrow> dig_parts dflt w parts)"
| "dig_parts dflt v (part # parts) = dflt"

definition dig_default :: "json \<Rightarrow> json \<Rightarrow> string \<Rightarrow> json" where
  "dig_default dflt v path = dig_parts dflt v (path_parts path)"

abbreviation dig_path :: "json \<Rightarrow> string \<Rightarrow> json" where
  "dig_path v path \<equiv> dig_default JNull v path"

definition items_of :: "json \<Rightarrow> json list" where
  "items_of v = (case v of JArr xs \<Rightarrow> xs | _ \<Rightarrow> [v])"

definition members_named :: "string \<Rightarrow> json \<Rightarrow> json list" where
  "members_named part v =
     (case v of JObj kvs \<Rightarrow> (case map_of kvs part of None \<Rightarrow> [] | Some w \<Rightarrow> [w]) | _ \<Rightarrow> [])"

definition dig_segment :: "string \<Rightarrow> json list \<Rightarrow> json list" where
  "dig_segment part current = concat (map (members_named part) (concat (map items_of current)))"

definition dig_many :: "json \<Rightarrow> string \<Rightarrow> json list" where
  "dig_many v path = concat (map items_of (fold dig_segment (path_parts path) [v]))"

definition invalid_next_cursor :: "string \<Rightarrow> string list \<Rightarrow> bool" where
  "invalid_next_cursor c seen \<longleftrightarrow>
     c = [] \<or> c \<noteq> py_strip c \<or> 4096 < length (utf8 c)
     \<or> list_ex (\<lambda>x. (of_char x :: nat) < 32 \<or> (of_char x :: nat) = 127) c \<or> c \<in> set seen"

definition valid_field_path :: "gql_env \<Rightarrow> json \<Rightarrow> bool" where
  "valid_field_path E v =
     (let t = text_or E [] v in length (utf8 t) \<le> 512 \<and> rx_fullmatch field_path_re t)"

definition valid_field_name :: "gql_env \<Rightarrow> json \<Rightarrow> bool" where
  "valid_field_name E v = rx_fullmatch field_name_re (text_or E [] v)"

section \<open>Partial errors\<close>

text \<open>\<^theory_text>\<open>upper\<close> as far as an ASCII result goes: the sharp s becomes two letters.\<close>

definition upper_text :: "string \<Rightarrow> string" where
  "upper_text s = concat (map (\<lambda>c. if c = CHR 0xDF then ''SS'' else [upper_char c]) s)"

definition string_items :: "json list \<Rightarrow> string list" where
  "string_items xs = concat (map (\<lambda>x. case x of JStr s \<Rightarrow> [s] | _ \<Rightarrow> []) xs)"

definition error_signature :: "gql_env \<Rightarrow> json \<Rightarrow> (string \<times> string) option" where
  "error_signature E err =
     (case err of
        JObj e \<Rightarrow>
          (let code = (case get e ''extensions'' of
                 JObj x \<Rightarrow> upper_text (py_strip (key_text E x ''code'' []))
               | _ \<Rightarrow> [])
           in case get e ''path'' of
                JArr xs \<Rightarrow>
                  (let path = join_with ''.'' (string_items xs) in
                   if rx_fullmatch error_code_re code \<and> valid_field_path E (JStr path) then Some (code, path) else None)
              | _ \<Rightarrow> None)
      | _ \<Rightarrow> None)"

definition error_is_allowlisted :: "gql_env \<Rightarrow> string list \<Rightarrow> string list \<Rightarrow> json \<Rightarrow> bool" where
  "error_is_allowlisted E codes paths err =
     (case error_signature E err of
        None \<Rightarrow> False
      | Some (code, path) \<Rightarrow>
          code \<in> set codes \<and> list_ex (\<lambda>a. path = a \<or> starts_text (a @ ''.'') path) paths)"

definition errors_are_allowlisted :: "gql_env \<Rightarrow> string list \<Rightarrow> string list \<Rightarrow> json \<Rightarrow> bool" where
  "errors_are_allowlisted E codes paths errs =
     (case errs of
        JArr xs \<Rightarrow> xs \<noteq> [] \<and> codes \<noteq> [] \<and> paths \<noteq> [] \<and> list_all (error_is_allowlisted E codes paths) xs
      | _ \<Rightarrow> False)"

section \<open>Lemmas\<close>

lemma bounded_int_range: "bounded_int v d lo hi = Inr i \<Longrightarrow> lo \<le> hi \<Longrightarrow> lo \<le> i \<and> i \<le> hi"
  by (auto simp: bounded_int_def split: sum.splits if_splits)

lemma access_is_guarded:
  "access_from_config E v = Inr a \<Longrightarrow>
     ac_users a = [] \<and> (ac_public a \<or> ac_groups a \<noteq> [] \<or> ac_markings a \<noteq> [])"
  by (auto simp: access_from_config_def quarantined_def andR_Inr refuse_if_Inr split: if_splits option.splits)

end
