(* ===== verification/Graph_Query.thy ===== *)
theory Graph_Query
  imports Graph_Values
begin

text \<open>
  Query documents (\<^verbatim>\<open>_graphql_query.py\<close>): the bounds, the check that a document is one read query,
  the search for introspection fields and the search for the argument that bounds the rows. The
  parser is the GraphQL library's; the model keeps of its tree what the code looks at, and of every
  node all children. Both searches work off a stack; they are shown to end and to answer what a
  search by recursion over the tree would.
\<close>

section \<open>Syntax trees\<close>

datatype gnode =
    OperationNode bool gnode "gnode list"
  | FragmentNode gnode "gnode list"
  | SelectionSetNode "gnode list"
  | FieldNode string "gnode option" "gnode list"
  | InlineFragmentNode "gnode option" "gnode list"
  | ArgumentNode string gnode "gnode list"
  | VariableNode string
  | OtherNode "gnode list"

type_synonym query_parser = "string \<Rightarrow> gnode list option"

definition opt_list :: "'a option \<Rightarrow> 'a list" where
  "opt_list x = (case x of None \<Rightarrow> [] | Some y \<Rightarrow> [y])"

fun node_children :: "gnode \<Rightarrow> gnode list" where
  "node_children (OperationNode q s xs) = xs @ [s]"
| "node_children (FragmentNode s xs) = xs @ [s]"
| "node_children (SelectionSetNode xs) = xs"
| "node_children (FieldNode n s xs) = xs @ opt_list s"
| "node_children (InlineFragmentNode s xs) = xs @ opt_list s"
| "node_children (ArgumentNode n v xs) = xs @ [v]"
| "node_children (VariableNode n) = []"
| "node_children (OtherNode xs) = xs"

fun selections_in :: "gnode \<Rightarrow> gnode list" where
  "selections_in (SelectionSetNode xs) = xs"
| "selections_in _ = []"

fun below :: "gnode \<Rightarrow> gnode list" where
  "below (FieldNode n (Some s) xs) = selections_in s"
| "below (InlineFragmentNode (Some s) xs) = selections_in s"
| "below _ = []"

fun is_operation :: "gnode \<Rightarrow> bool" where
  "is_operation (OperationNode q s xs) = True"
| "is_operation _ = False"

fun is_query :: "gnode \<Rightarrow> bool" where
  "is_query (OperationNode q s xs) = q"
| "is_query _ = False"

fun is_executable :: "gnode \<Rightarrow> bool" where
  "is_executable (OperationNode q s xs) = True"
| "is_executable (FragmentNode s xs) = True"
| "is_executable _ = False"

fun definition_selections :: "gnode \<Rightarrow> gnode list" where
  "definition_selections (OperationNode q s xs) = selections_in s"
| "definition_selections (FragmentNode s xs) = selections_in s"
| "definition_selections _ = []"

section \<open>One read query\<close>

definition parse_bounded_query :: "query_parser \<Rightarrow> string \<Rightarrow> gql_exn + gnode list" where
  "parse_bounded_query P q =
     andR (refuse_if (200000 < length (utf8 q)) (GqlError ''GraphQL query exceeds the configured bound''))
     (andR (refuse_if (q = []) (GqlError ''GraphQL operation must be a read query''))
       (case P q of None \<Rightarrow> Inl (GqlError ''GraphQL operation is not a valid document'') | Some d \<Rightarrow> Inr d))"

definition ensure_single_read_query :: "gnode list \<Rightarrow> gql_exn + unit" where
  "ensure_single_read_query d =
     (let ops = filter is_operation d in
      andR (refuse_if (length ops \<noteq> 1 \<or> \<not> is_query (hd ops)) (GqlError ''GraphQL operation must be a read query''))
        (refuse_if (list_ex (\<lambda>x. \<not> is_executable x) d)
          (GqlError ''GraphQL operation contains unsupported definitions'')))"

definition is_introspection :: "gnode \<Rightarrow> bool" where
  "is_introspection x = (case x of FieldNode n s xs \<Rightarrow> n \<in> {''__schema'', ''__type''} | _ \<Rightarrow> False)"

definition weight :: "gnode list \<Rightarrow> nat" where
  "weight xs = size_list size xs"

lemma weight_simps [simp]:
  "weight [] = 0" "weight (x # xs) = Suc (size x + weight xs)" "weight (xs @ ys) = weight xs + weight ys"
  "weight (rev xs) = weight xs"
  by (simp_all add: weight_def size_list_conv_sum_list flip: rev_map)

lemma selections_smaller: "weight (selections_in s) \<le> size s"
  by (cases s) (simp_all add: weight_def)

lemma below_smaller: "weight (below x) < Suc (size x)"
proof (cases x rule: below.cases)
  case (1 n s xs)
  then show ?thesis using selections_smaller [of s] by simp
next
  case (2 s xs)
  then show ?thesis using selections_smaller [of s] by simp
qed auto

lemma children_smaller: "weight (node_children x) < Suc (size x)"
  by (cases x) (auto simp: opt_list_def weight_def split: option.splits)

text \<open>\<open>pop\<close> takes from the end of the list and \<open>extend\<close> appends to it; the stack here begins with its end.\<close>

function introspection_found :: "gnode list \<Rightarrow> bool" where
  "introspection_found [] = False"
| "introspection_found (x # stack) =
     (if is_introspection x then True else introspection_found (rev (below x) @ stack))"
  by pat_completeness auto
termination
  by (relation "measure weight")
    (use below_smaller in \<open>auto intro: less_le_trans simp: less_Suc_eq_le\<close>)

declare introspection_found.simps [simp del]

definition reject_introspection :: "bool \<Rightarrow> gnode list \<Rightarrow> gql_exn + unit" where
  "reject_introspection allow d =
     refuse_if (\<not> allow \<and> introspection_found (rev (concat (map definition_selections d))))
       (GqlError ''GraphQL introspection is not an ingest operation'')"

definition validate_query_document :: "gql_env \<Rightarrow> query_parser \<Rightarrow> bool \<Rightarrow> json \<Rightarrow> gql_exn + string" where
  "validate_query_document E P allow v =
     (let q = py_strip (text_or E [] v) in
      bindR (parse_bounded_query P q) (\<lambda>d.
        andR (ensure_single_read_query d) (andR (reject_introspection allow d) (Inr q))))"

section \<open>The row bound\<close>

definition is_row_bound_argument :: "string \<Rightarrow> gnode \<Rightarrow> bool" where
  "is_row_bound_argument var x =
     (case x of
        ArgumentNode n v xs \<Rightarrow>
          n \<in> {''first'', ''limit''} \<and> (case v of VariableNode w \<Rightarrow> w = var | _ \<Rightarrow> False)
      | _ \<Rightarrow> False)"

function row_bound_found :: "string \<Rightarrow> gnode list \<Rightarrow> bool" where
  "row_bound_found var [] = False"
| "row_bound_found var (x # stack) =
     (if is_row_bound_argument var x then True else row_bound_found var (rev (node_children x) @ stack))"
  by pat_completeness auto
termination
  by (relation "measure (\<lambda>(var, stack). weight stack)")
    (use children_smaller in \<open>auto simp: less_Suc_eq_le\<close>)

declare row_bound_found.simps [simp del]

definition query_binds_row_bound :: "query_parser \<Rightarrow> string \<Rightarrow> string \<Rightarrow> bool" where
  "query_binds_row_bound P q var =
     (case P q of None \<Rightarrow> False | Some d \<Rightarrow> row_bound_found var (rev d))"

section \<open>What the searches find\<close>

text \<open>A field that is selected, directly or below another selection.\<close>

inductive selects :: "gnode \<Rightarrow> gnode \<Rightarrow> bool" where
  selects_self: "selects x x"
| selects_below: "y \<in> set (below x) \<Longrightarrow> selects y z \<Longrightarrow> selects x z"

inductive contains_node :: "gnode \<Rightarrow> gnode \<Rightarrow> bool" where
  contains_self: "contains_node x x"
| contains_child: "y \<in> set (node_children x) \<Longrightarrow> contains_node y z \<Longrightarrow> contains_node x z"

lemma introspection_found_iff:
  "introspection_found stack \<longleftrightarrow> (\<exists>x \<in> set stack. \<exists>y. selects x y \<and> is_introspection y)"
proof (induction stack rule: introspection_found.induct)
  case (2 x stack)
  have step: "(\<exists>y. selects x y \<and> is_introspection y) \<longleftrightarrow>
      is_introspection x \<or> (\<exists>w \<in> set (below x). \<exists>y. selects w y \<and> is_introspection y)"
    by (metis selects.cases selects_below selects_self)
  show ?case
  proof (cases "is_introspection x")
    case True
    then show ?thesis using step by (auto simp: introspection_found.simps(2))
  next
    case False
    then show ?thesis using 2 [OF False] step by (auto simp: introspection_found.simps(2))
  qed
qed (simp add: introspection_found.simps)

lemma row_bound_found_iff:
  "row_bound_found var stack \<longleftrightarrow> (\<exists>x \<in> set stack. \<exists>y. contains_node x y \<and> is_row_bound_argument var y)"
proof (induction var stack rule: row_bound_found.induct)
  case (2 var x stack)
  have step: "(\<exists>y. contains_node x y \<and> is_row_bound_argument var y) \<longleftrightarrow>
      is_row_bound_argument var x \<or> (\<exists>w \<in> set (node_children x). \<exists>y. contains_node w y \<and> is_row_bound_argument var y)"
    by (metis contains_node.cases contains_child contains_self)
  show ?case
  proof (cases "is_row_bound_argument var x")
    case True
    then show ?thesis using step by (auto simp: row_bound_found.simps(2))
  next
    case False
    then show ?thesis using 2 [OF False] step by (auto simp: row_bound_found.simps(2))
  qed
qed (simp add: row_bound_found.simps)

text \<open>Fields a document can select: from the operation and from every fragment, spread or not.\<close>

definition document_selects :: "gnode list \<Rightarrow> gnode \<Rightarrow> bool" where
  "document_selects d y \<longleftrightarrow> (\<exists>x \<in> set d. \<exists>z \<in> set (definition_selections x). selects z y)"

lemma reject_introspection_ok:
  "reject_introspection allow d = Inr () \<longleftrightarrow> allow \<or> (\<forall>y. document_selects d y \<longrightarrow> \<not> is_introspection y)"
  by (auto simp: reject_introspection_def refuse_if_Inr introspection_found_iff document_selects_def)

lemma single_query_iff:
  "ensure_single_read_query d = Inr () \<longleftrightarrow>
     length (filter is_operation d) = 1 \<and> length (filter is_query d) = 1 \<and> list_all is_executable d"
proof -
  have sub: "is_query x \<Longrightarrow> is_operation x" for x by (cases x) auto
  have "filter is_query d = filter is_query (filter is_operation d)"
    using sub by (simp add: filter_filter) (metis (mono_tags, lifting) filter_cong)
  then show ?thesis
    by (cases "filter is_operation d"; cases "tl (filter is_operation d)")
      (auto simp: ensure_single_read_query_def andR_Inr refuse_if_Inr list_all_iff list_ex_iff)
qed

text \<open>
  Property C38. A query document is accepted exactly when it is text within the byte bound that
  parses to one operation, a query, and fragments besides, and, unless introspection is allowed, no
  field that can be selected in it, at any depth and in a fragment that is never spread, is an
  introspection field. What is accepted is the text itself, stripped; the search ends.
\<close>

theorem query_accepted_iff:
  "validate_query_document E P allow v = Inr q \<longleftrightarrow>
     q = py_strip (text_or E [] v) \<and> q \<noteq> [] \<and> length (utf8 q) \<le> 200000
     \<and> (case P q of
          None \<Rightarrow> False
        | Some d \<Rightarrow>
            length (filter is_operation d) = 1 \<and> length (filter is_query d) = 1 \<and> list_all is_executable d
            \<and> (if allow then True else \<not> (\<exists>y. document_selects d y \<and> is_introspection y)))"
  by (auto simp: validate_query_document_def Let_def bindR_Inr andR_Inr parse_bounded_query_def refuse_if_Inr
      reject_introspection_ok single_query_iff split: option.splits)

end
