(* ===== verification/Graph_Profile.thy ===== *)
theory Graph_Profile
  imports Graph_Query
begin

text \<open>
  The validation of a GraphQL source profile (\<^verbatim>\<open>_graphql_profile_*.py\<close>) and the order in which
  \<^verbatim>\<open>_resolve_profile\<close> of \<^verbatim>\<open>graphql_document.py\<close> applies it. The splitting of the endpoint is the URL
  library's.
\<close>

type_synonym fields_dict = "(string, json) dict"

record endpoint_parts =
  ep_scheme :: string
  ep_host :: "string option"
  ep_user :: "string option"
  ep_password :: "string option"
  ep_query :: string
  ep_fragment :: string

type_synonym endpoint_parser = "string \<Rightarrow> endpoint_parts option"

definition unset :: "json \<Rightarrow> bool" where
  "unset v \<longleftrightarrow> v = JNull \<or> v = JStr []"

definition as_object :: "json \<Rightarrow> gql_exn \<Rightarrow> gql_exn + fields_dict" where
  "as_object v e = (case v of JObj d \<Rightarrow> Inr d | _ \<Rightarrow> Inl e)"

text \<open>\<^theory_text>\<open>value or {}\<close>.\<close>

definition or_object :: "json \<Rightarrow> json" where
  "or_object v = (if truthy v then v else JObj [])"

section \<open>Endpoint and headers\<close>

definition validate_endpoint :: "gql_env \<Rightarrow> endpoint_parser \<Rightarrow> fields_dict \<Rightarrow> gql_exn + unit" where
  "validate_endpoint E U profile =
     (case U (key_text E profile ''endpoint'' []) of
        None \<Rightarrow> Inl (GqlValue [])
      | Some p \<Rightarrow>
          refuse_if
            (ep_scheme p \<noteq> ''https'' \<or> ep_host p \<in> {None, Some []} \<or> ep_user p \<noteq> None \<or> ep_password p \<noteq> None
             \<or> ep_query p \<noteq> [] \<or> ep_fragment p \<noteq> [])
            (GqlError ''GraphQL endpoint must use HTTPS''))"

definition validate_profile_shape :: "fields_dict \<Rightarrow> gql_exn + (fields_dict \<times> fields_dict)" where
  "validate_profile_shape profile =
     (case (or_object (get profile ''headers''), or_object (get profile ''operations'')) of
        (JObj headers, JObj operations) \<Rightarrow> Inr (headers, operations)
      | _ \<Rightarrow> Inl (GqlError ''GraphQL profile has an invalid shape''))"

definition blocked_request_headers :: "string list" where
  "blocked_request_headers =
     [''connection'', ''content-length'', ''host'', ''keep-alive'', ''proxy-authenticate'', ''proxy-authorization'',
      ''te'', ''trailer'', ''transfer-encoding'', ''upgrade'']"

definition bad_headers :: gql_exn where
  "bad_headers = GqlError ''GraphQL profile headers are invalid''"

definition validate_header_entry :: "string \<Rightarrow> json \<Rightarrow> string list \<Rightarrow> gql_exn + string list" where
  "validate_header_entry name v seen =
     (case v of
        JStr t \<Rightarrow>
          (let low = map lower_char name in
           andR (refuse_if
             (\<not> rx_fullmatch header_re name \<or> 16384 < length (utf8 t) \<or> CHR 13 \<in> set t \<or> CHR 10 \<in> set t
              \<or> low \<in> set blocked_request_headers \<or> low \<in> set seen) bad_headers)
             (Inr (low # seen)))
      | _ \<Rightarrow> Inl bad_headers)"

fun validate_header_entries :: "fields_dict \<Rightarrow> string list \<Rightarrow> gql_exn + unit" where
  "validate_header_entries [] seen = Inr ()"
| "validate_header_entries ((name, v) # hs) seen =
     bindR (validate_header_entry name v seen) (validate_header_entries hs)"

definition validate_headers :: "fields_dict \<Rightarrow> gql_exn + unit" where
  "validate_headers headers =
     andR (refuse_if (32 < length headers) bad_headers) (validate_header_entries headers [])"

section \<open>Operations\<close>

definition ends_path :: "string \<Rightarrow> bool" where
  "ends_path key \<longleftrightarrow> ends_text ''_path'' key"

definition bad_path_in :: "gql_env \<Rightarrow> fields_dict \<Rightarrow> bool" where
  "bad_path_in E d \<longleftrightarrow> list_ex (\<lambda>(key, v). ends_path key \<and> \<not> unset v \<and> \<not> valid_field_path E v) d"

definition section_fields :: "string list" where
  "section_fields = [''section_content_field'', ''section_level_field'', ''section_title_field'']"

definition has_key :: "fields_dict \<Rightarrow> string \<Rightarrow> bool" where
  "has_key d k \<longleftrightarrow> map_of d k \<noteq> None"

definition validate_operation ::
  "gql_env \<Rightarrow> query_parser \<Rightarrow> fields_dict \<Rightarrow> gql_exn + string" where
  "validate_operation E P operation =
     bindR (validate_query_document E P False (get operation ''query'')) (\<lambda>q.
       andR (refuse_if (\<not> valid_field_path E (get operation ''root_path''))
         (GqlError ''GraphQL operation has no response root mapping''))
       (andR (refuse_if (bad_path_in E operation) (GqlError ''GraphQL operation field path is invalid''))
       (andR (refuse_if
           (list_ex (\<lambda>key. has_key operation key \<and> \<not> valid_field_name E (get operation key)) section_fields)
           (GqlError ''GraphQL operation field name is invalid''))
         (Inr q))))"

definition validate_identity_and_limits :: "gql_env \<Rightarrow> fields_dict \<Rightarrow> gql_exn + unit" where
  "validate_identity_and_limits E profile =
     andR (refuse_if (length (key_text E profile ''identity_hmac_key'' []) < 32)
       (GqlError ''GraphQL profile requires a 32-character identity HMAC key''))
     (map_sum id (\<lambda>_. ())
       (as_object (or_object (get profile ''limits'')) (GqlError ''GraphQL profile limits are invalid'')))"

definition validate_pagination ::
  "gql_env \<Rightarrow> query_parser \<Rightarrow> fields_dict \<Rightarrow> string \<Rightarrow> gql_exn + fields_dict option" where
  "validate_pagination E P operation query =
     (let bad = GqlError ''GraphQL pagination mapping is invalid'' in
      case get operation ''pagination'' of
        JNull \<Rightarrow> Inr None
      | v \<Rightarrow>
          bindR (as_object v bad) (\<lambda>p.
            andR (refuse_if
              (list_ex (\<lambda>k. \<not> valid_field_name E (get p k)) [''cursor_variable'', ''page_size_variable'']
               \<or> list_ex (\<lambda>k. \<not> valid_field_path E (get p k)) [''next_cursor_path'', ''has_more_path'']) bad)
            (andR (refuse_if (\<not> query_binds_row_bound P query (pstr E (get p ''page_size_variable'')))
               (GqlError ''GraphQL pagination query does not enforce its row bound''))
              (Inr (Some p)))))"

definition validate_read_bound ::
  "gql_env \<Rightarrow> query_parser \<Rightarrow> fields_dict \<Rightarrow> string \<Rightarrow> fields_dict option \<Rightarrow> gql_exn + unit" where
  "validate_read_bound E P operation query pagination =
     (let bad = GqlError ''GraphQL read bound is invalid'' in
      case get operation ''read_bound'' of
        JNull \<Rightarrow> Inr ()
      | v \<Rightarrow>
          andR (refuse_if (pagination \<noteq> None) bad)
          (bindR (as_object v bad) (\<lambda>r.
            let var = key_text E r ''variable'' [] in
            refuse_if
              (var \<notin> {''first'', ''limit''}
               \<or> (case get r ''maximum'' of JInt i \<Rightarrow> \<not> (1 \<le> i \<and> i \<le> 1000) | _ \<Rightarrow> True)
               \<or> \<not> query_binds_row_bound P query var) bad)))"

definition validate_policy :: "gql_env \<Rightarrow> string \<Rightarrow> fields_dict \<Rightarrow> gql_exn + unit" where
  "validate_policy E label d =
     bindR (policy_values E (label @ '' code'') error_code_re (get d ''codes'')) (\<lambda>_.
     map_sum id (\<lambda>_. ()) (policy_values E (label @ '' path'') field_path_re (get d ''paths'')))"

definition validate_partial_errors :: "gql_env \<Rightarrow> fields_dict \<Rightarrow> gql_exn + unit" where
  "validate_partial_errors E operation =
     (case get operation ''partial_errors'' of
        JNull \<Rightarrow> Inr ()
      | v \<Rightarrow> bindR (as_object v (GqlError ''GraphQL partial-error policy is invalid'')) (validate_policy E ''partial-error''))"

definition validate_fallback :: "gql_env \<Rightarrow> query_parser \<Rightarrow> json \<Rightarrow> gql_exn + unit" where
  "validate_fallback E P v =
     bindR (as_object v (GqlError ''GraphQL optional-field fallback is invalid'')) (\<lambda>d.
     bindR (validate_query_document E P False (get d ''query'')) (\<lambda>_. validate_policy E ''fallback'' d))"

definition fallbacks_of :: "fields_dict \<Rightarrow> json" where
  "fallbacks_of operation =
     (if truthy (get operation ''optional_field_fallbacks'') then get operation ''optional_field_fallbacks'' else JArr [])"

definition validate_fallbacks :: "gql_env \<Rightarrow> query_parser \<Rightarrow> fields_dict \<Rightarrow> gql_exn + unit" where
  "validate_fallbacks E P operation =
     (let bad = GqlError ''GraphQL optional-field fallbacks are invalid'' in
      case fallbacks_of operation of
        JArr xs \<Rightarrow>
          andR (refuse_if (3 < length xs) bad) (map_sum id (\<lambda>_. ()) (mapR (validate_fallback E P) xs))
      | _ \<Rightarrow> Inl bad)"

section \<open>Mappings\<close>

datatype kind = EntityKind | HierarchyKind | DocumentKind | ApplicationKind | DependencyKind

definition all_kinds :: "kind list" where
  "all_kinds = [EntityKind, HierarchyKind, DocumentKind, ApplicationKind, DependencyKind]"

fun kind_text :: "kind \<Rightarrow> string" where
  "kind_text EntityKind = ''entity''"
| "kind_text HierarchyKind = ''hierarchy''"
| "kind_text DocumentKind = ''document''"
| "kind_text ApplicationKind = ''application''"
| "kind_text DependencyKind = ''dependency''"

fun mapping_keys :: "kind \<Rightarrow> string list" where
  "mapping_keys EntityKind = [''entity'', ''entities'']"
| "mapping_keys HierarchyKind = [''hierarchy'', ''hierarchies'']"
| "mapping_keys DocumentKind = [''document'', ''documents'']"
| "mapping_keys ApplicationKind = [''application'', ''applications'']"
| "mapping_keys DependencyKind = [''dependency'', ''dependencies'']"

definition validate_mapping_paths :: "gql_env \<Rightarrow> fields_dict \<Rightarrow> gql_exn + unit" where
  "validate_mapping_paths E m =
     (let records_path = key_text E m ''records_path'' [] in
      andR (refuse_if (\<not> valid_field_path E (JStr (key_text E m ''id_path'' ''id'')))
        (GqlError ''GraphQL entity identity mapping is invalid''))
      (andR (refuse_if (records_path \<noteq> [] \<and> \<not> valid_field_path E (JStr records_path))
        (GqlError ''GraphQL entity records mapping is invalid''))
        (refuse_if (bad_path_in E m) (GqlError ''GraphQL entity field path is invalid''))))"

definition validate_allowlist :: "gql_env \<Rightarrow> fields_dict \<Rightarrow> gql_exn + unit" where
  "validate_allowlist E m =
     (let required = GqlError ''GraphQL entity property allowlist is required'' in
      case get m ''property_allowlist'' of
        JArr xs \<Rightarrow>
          andR (refuse_if (256 < length xs) required)
            (refuse_if (list_ex (\<lambda>f. \<not> valid_field_path E f) xs)
              (GqlError ''GraphQL entity property allowlist is invalid''))
      | _ \<Rightarrow> Inl required)"

definition validate_children_path :: "gql_env \<Rightarrow> fields_dict \<Rightarrow> gql_exn + unit" where
  "validate_children_path E m =
     (let children_path = key_text E m ''children_path'' [] in
      refuse_if (children_path \<noteq> [] \<and> \<not> valid_field_path E (JStr children_path))
        (GqlError ''GraphQL hierarchy children mapping is invalid''))"

definition validate_entity_mapping :: "gql_env \<Rightarrow> kind \<Rightarrow> json \<Rightarrow> gql_exn + unit" where
  "validate_entity_mapping E k v =
     bindR (as_object v (GqlError ''GraphQL entity mapping is invalid'')) (\<lambda>m.
       andR (validate_mapping_paths E m)
       (andR (validate_allowlist E m)
         (if k = HierarchyKind then validate_children_path E m else Inr ())))"

definition validate_authority_flags :: "fields_dict \<Rightarrow> gql_exn + unit" where
  "validate_authority_flags operation =
     (let is_bool = (\<lambda>v. case v of JBool b \<Rightarrow> True | _ \<Rightarrow> False) in
      andR (refuse_if
        (list_ex (\<lambda>key. has_key operation key \<and> \<not> is_bool (get operation key))
          [''snapshot_authoritative'', ''allow_empty_snapshot''])
        (GqlError ''GraphQL snapshot authority policy is invalid''))
      (refuse_if
        (get operation ''allow_empty_snapshot'' = JBool True \<and> \<not> truthy (get operation ''snapshot_authoritative''))
        (GqlError ''GraphQL empty snapshot approval requires authoritative mode'')))"

text \<open>The mapping of a kind is the value of the first of its two keys that is there.\<close>

definition first_mapping :: "fields_dict \<Rightarrow> kind \<Rightarrow> json" where
  "first_mapping mappings k =
     (case List.find (has_key mappings) (mapping_keys k) of None \<Rightarrow> JNull | Some key \<Rightarrow> get mappings key)"

definition validate_mappings :: "gql_env \<Rightarrow> json \<Rightarrow> gql_exn + unit" where
  "validate_mappings E v =
     bindR (as_object v (GqlError ''GraphQL entity mappings are invalid'')) (\<lambda>mappings.
       let found = filter (\<lambda>k. first_mapping mappings k \<noteq> JNull) all_kinds in
       bindR (mapR (\<lambda>k. validate_entity_mapping E k (first_mapping mappings k)) found) (\<lambda>_.
         refuse_if (found = []) (GqlError ''GraphQL profile has no entity mappings'')))"

definition validate_snapshot_policy :: "gql_env \<Rightarrow> fields_dict \<Rightarrow> gql_exn + json" where
  "validate_snapshot_policy E operation =
     andR (validate_authority_flags operation)
       (andR (if get operation ''mappings'' = JNull then Inr () else validate_mappings E (get operation ''mappings''))
         (Inr (get operation ''mappings'')))"

section \<open>Governance and discovery\<close>

definition bad_flag :: "fields_dict \<Rightarrow> string \<Rightarrow> bool" where
  "bad_flag d key \<longleftrightarrow> has_key d key \<and> (case get d key of JBool b \<Rightarrow> False | _ \<Rightarrow> True)"

definition validate_governance_shape :: "gql_env \<Rightarrow> json \<Rightarrow> gql_exn + fields_dict" where
  "validate_governance_shape E v =
     bindR (as_object v (GqlError ''GraphQL governance mapping is invalid'')) (\<lambda>g.
       bindR (classification_of E (get g ''classification'')) (\<lambda>_.
         andR (refuse_if (bad_flag g ''legal_hold'') (GqlError ''GraphQL governance legal hold is invalid''))
           (Inr g)))"

definition validate_retention :: "gql_env \<Rightarrow> fields_dict \<Rightarrow> json \<Rightarrow> gql_exn + unit" where
  "validate_retention E g mappings =
     (let retention = py_strip (key_text E g ''retention'' []) in
      andR (refuse_if (mappings \<noteq> JNull \<and> retention = [])
        (GqlError ''GraphQL hierarchy governance requires a retention policy''))
      (refuse_if (retention \<noteq> [] \<and> \<not> rx_fullmatch retention_re retention)
        (GqlError ''GraphQL governance retention is invalid'')))"

definition validate_versions :: "gql_env \<Rightarrow> fields_dict \<Rightarrow> gql_exn + unit" where
  "validate_versions E g =
     (let tenant = py_strip (key_text E g ''tenant'' []) in
      andR (if tenant = [] then Inr () else map_sum id (\<lambda>_. ()) (safe_alias ''tenant'' tenant))
      (refuse_if
        (list_ex (\<lambda>key. has_key g key \<and> \<not> rx_fullmatch version_label_re (key_text E g key []))
          [''schema_version'', ''ontology_mapping_version''])
        (GqlError ''GraphQL governance version is invalid'')))"

text \<open>\<^theory_text>\<open>governance.get("access", profile.get("access"))\<close>.\<close>

definition access_value :: "fields_dict \<Rightarrow> fields_dict \<Rightarrow> json" where
  "access_value g profile = (case map_of g ''access'' of None \<Rightarrow> get profile ''access'' | Some v \<Rightarrow> v)"

definition validate_governance :: "gql_env \<Rightarrow> fields_dict \<Rightarrow> json \<Rightarrow> gql_exn + unit" where
  "validate_governance E profile mappings =
     bindR (validate_governance_shape E (or_object (get profile ''governance''))) (\<lambda>g.
       andR (validate_retention E g mappings)
       (andR (validate_versions E g)
         (map_sum id (\<lambda>_. ()) (access_from_config E (access_value g profile)))))"

definition validate_discovery :: "fields_dict \<Rightarrow> gql_exn + unit" where
  "validate_discovery profile =
     (let bad = GqlError ''GraphQL discovery policy is invalid'' in
      case get profile ''discovery'' of
        JNull \<Rightarrow> Inr ()
      | JObj d \<Rightarrow> refuse_if (list_ex (bad_flag d) [''enabled'', ''allow_introspection'']) bad
      | _ \<Rightarrow> Inl bad)"

section \<open>The whole profile\<close>

definition select_operation :: "string \<Rightarrow> fields_dict \<Rightarrow> gql_exn + fields_dict" where
  "select_operation name operations =
     as_object (get operations name) (GqlError ''Requested GraphQL operation is not configured'')"

definition validate_profile ::
  "gql_env \<Rightarrow> query_parser \<Rightarrow> endpoint_parser \<Rightarrow> string \<Rightarrow> fields_dict \<Rightarrow> gql_exn + fields_dict" where
  "validate_profile E P U name profile =
     andR (validate_endpoint E U profile)
     (bindR (validate_profile_shape profile) (\<lambda>(headers, operations).
      andR (validate_headers headers)
      (bindR (select_operation name operations) (\<lambda>operation.
       bindR (validate_operation E P operation) (\<lambda>query.
       andR (validate_identity_and_limits E profile)
       (bindR (validate_pagination E P operation query) (\<lambda>pagination.
        andR (validate_read_bound E P operation query pagination)
        (andR (validate_partial_errors E operation)
        (andR (validate_fallbacks E P operation)
        (bindR (validate_snapshot_policy E operation) (\<lambda>mappings.
         andR (validate_governance E profile mappings)
         (andR (validate_discovery profile) (Inr operation)))))))))))))"

section \<open>Which mapping is read\<close>

text \<open>\<open>_mapping_for\<close>: the first of the two keys whose value is a mapping.\<close>

definition mapping_for :: "fields_dict \<Rightarrow> kind \<Rightarrow> fields_dict option" where
  "mapping_for operation k =
     (case get operation ''mappings'' of
        JObj mappings \<Rightarrow>
          (case List.find (\<lambda>key. case get mappings key of JObj m \<Rightarrow> True | _ \<Rightarrow> False) (mapping_keys k) of
             None \<Rightarrow> None
           | Some key \<Rightarrow> (case get mappings key of JObj m \<Rightarrow> Some m | _ \<Rightarrow> None))
      | _ \<Rightarrow> None)"

end
