(* ===== verification/Graph_Fetch.thy ===== *)
theory Graph_Fetch
  imports Graph_Profile
begin

text \<open>
  How the GraphQL connector reads: resolving its profile, posting one query, reading one page with
  its optional-field fallbacks and allow-listed partial errors, and the loop over the pages
  (\<^verbatim>\<open>graphql_document.py\<close>, \<^verbatim>\<open>_graphql_response.py\<close>, \<^verbatim>\<open>_http_client.py\<close>). The network, the secret
  store, the egress policy and the readers of JSON, which names its exception, and of queries are ports. Posts and pages are
  logged.
\<close>

section \<open>The connector and its ports\<close>

record gql_limits =
  gl_documents :: int
  gl_sections :: int
  gl_content_chars :: int
  gl_response_bytes :: int
  gl_total_bytes :: int
  gl_entities :: int
  gl_pages :: int
  gl_page_size :: int
  gl_depth :: int
  gl_fallbacks :: int

record gql_conn =
  gc_alias :: string
  gc_operation :: string
  gc_profile_ref :: string
  gc_variables :: fields_dict
  gc_access :: access
  gc_limits :: gql_limits
  gc_dry_run :: bool
  gc_inline :: "fields_dict option"
  gc_injected :: bool

record gql_post =
  po_endpoint :: string
  po_headers :: "(string \<times> string) list"
  po_query :: string
  po_variables :: fields_dict

text \<open>
  What a post is answered with: an exception on the way, a body in one piece, a body in chunks,
  with its declared length where the server sent one, or an object without bytes. A chunk that
  cannot be read is the class of its exception.
\<close>

datatype gql_answer =
    PostRaised gql_exn
  | WholeBody string
  | BodyChunks "string option" "(string + string) list"
  | NoBody

text \<open>The resolver raises, or answers something that is no text, or a text.\<close>

record 'w gql_ports =
  gp_env :: gql_env
  gp_json :: "string \<Rightarrow> string + json"
  gp_parser :: query_parser
  gp_urls :: endpoint_parser
  gp_resolver :: "string \<Rightarrow> 'w \<Rightarrow> (string + string option) \<times> 'w"
  gp_policy :: "bool \<Rightarrow> string \<Rightarrow> 'w \<Rightarrow> (string + int) \<times> 'w"
  gp_post :: "gql_post \<Rightarrow> 'w \<Rightarrow> gql_answer \<times> 'w"

record 'w gql_state =
  gs_world :: 'w
  gs_posts :: "gql_post list"
  gs_pages :: "(string option \<times> fields_dict) list"

type_synonym ('w, 'a) gql_prog = "('w gql_state, gql_exn, 'a) prog"

section \<open>Configuration\<close>

definition limits_from_config :: "fields_dict \<Rightarrow> gql_exn + gql_limits" where
  "limits_from_config config =
     bindR (cfg_int config ''max_documents'' 100) (\<lambda>documents.
     bindR (cfg_int config ''max_sections'' 500) (\<lambda>sections.
     bindR (cfg_int config ''max_content_chars'' 2000000) (\<lambda>chars.
     bindR (cfg_int config ''max_response_bytes'' 10000000) (\<lambda>response.
     bindR (cfg_int config ''max_total_response_bytes'' 25000000) (\<lambda>all_bytes.
     bindR (cfg_int config ''max_entities'' 2000) (\<lambda>entities.
     bindR (cfg_int config ''max_pages'' 25) (\<lambda>pages.
     bindR (cfg_int config ''page_size'' 100) (\<lambda>page_size.
     bindR (cfg_int config ''max_hierarchy_depth'' 12) (\<lambda>depth.
     bindR (cfg_int config ''max_fallbacks'' 2) (\<lambda>fallbacks.
       Inr \<lparr>gl_documents = documents, gl_sections = sections, gl_content_chars = chars,
         gl_response_bytes = response, gl_total_bytes = all_bytes, gl_entities = entities, gl_pages = pages,
         gl_page_size = page_size, gl_depth = depth, gl_fallbacks = fallbacks\<rparr>))))))))))"

definition clamp :: "int \<Rightarrow> int \<Rightarrow> int \<Rightarrow> int" where
  "clamp lo hi i = max lo (min i hi)"

definition configure_limits :: "gql_limits \<Rightarrow> gql_limits" where
  "configure_limits l =
     (let response = clamp 1024 50000000 (gl_response_bytes l) in
      \<lparr>gl_documents = clamp 1 10000 (gl_documents l), gl_sections = clamp 1 10000 (gl_sections l),
       gl_content_chars = clamp 1024 20000000 (gl_content_chars l), gl_response_bytes = response,
       gl_total_bytes = max response (min (gl_total_bytes l) 100000000),
       gl_entities = clamp 1 10000 (gl_entities l), gl_pages = clamp 1 100 (gl_pages l),
       gl_page_size = clamp 1 1000 (gl_page_size l), gl_depth = clamp 1 32 (gl_depth l),
       gl_fallbacks = clamp 0 3 (gl_fallbacks l)\<rparr>)"

definition configure_identity ::
  "string \<Rightarrow> string \<Rightarrow> string \<Rightarrow> bool \<Rightarrow> gql_exn + (string \<times> string)" where
  "configure_identity alias operation profile_ref has_inline =
     bindR (safe_alias ''source_alias'' alias) (\<lambda>a.
       let name = map lower_char (py_strip operation) in
       andR (refuse_if (\<not> rx_fullmatch operation_re name)
         (GqlValue ''operation must be a neutral lowercase identifier''))
       (andR (refuse_if (profile_ref = [] \<and> \<not> has_inline)
         (GqlValue (''graphql_document requires a secret-backed profile_ref; ''
           @ ''inline profiles are test-only with an injected transport'')))
       (andR (refuse_if (profile_ref \<noteq> [] \<and> \<not> rx_fullmatch secret_ref_re profile_ref)
         (GqlValue ''profile_ref must use a supported runtime secret-reference scheme''))
         (Inr (a, name)))))"

text \<open>The variables are JSON data here, so only their size and \<^theory_text>\<open>NaN\<close> can be wrong.\<close>

definition configure_variables :: "gql_env \<Rightarrow> fields_dict \<Rightarrow> gql_exn + unit" where
  "configure_variables E vars =
     (case encode_json False (py_float_repr (ge_py E)) (JObj vars) of
        None \<Rightarrow> Inl (GqlValue ''GraphQL variables must be JSON serializable'')
      | Some t \<Rightarrow>
          refuse_if (1000000 < length t) (GqlValue ''GraphQL variables exceed the configured bound''))"

text \<open>
  \<open>configure\<close>: the texts are those of \<^theory_text>\<open>str(config.get(key) or "")\<close>; an inline profile counts only
  with an injected transport. The variables are a mapping of JSON values.
\<close>

definition configure ::
  "gql_env \<Rightarrow> fields_dict \<Rightarrow> fields_dict option \<Rightarrow> bool \<Rightarrow> gql_exn + gql_conn" where
  "configure E config inline injected =
     bindR (limits_from_config config) (\<lambda>limits.
     bindR (configure_identity (key_text E config ''source_alias'' []) (key_text E config ''operation'' [])
       (key_text E config ''profile_ref'' []) (inline \<noteq> None \<and> injected)) (\<lambda>(alias, operation).
     bindR (as_object (or_object (get config ''variables'')) (GqlOther ''TypeError'')) (\<lambda>vars.
     andR (configure_variables E vars)
     (bindR (access_from_config E (get config ''access'')) (\<lambda>a.
       Inr \<lparr>gc_alias = alias, gc_operation = operation,
         gc_profile_ref = key_text E config ''profile_ref'' [], gc_variables = vars, gc_access = a,
         gc_limits = configure_limits limits, gc_dry_run = truthy (get config ''dry_run''),
         gc_inline = inline, gc_injected = injected\<rparr>)))))"

definition conn_ok :: "gql_conn \<Rightarrow> bool" where
  "conn_ok C \<longleftrightarrow> (let l = gc_limits C in
     1 \<le> gl_documents l \<and> gl_documents l \<le> 10000 \<and> 1 \<le> gl_entities l \<and> gl_entities l \<le> 10000
     \<and> 1 \<le> gl_pages l \<and> gl_pages l \<le> 100 \<and> 1 \<le> gl_page_size l \<and> 1 \<le> gl_depth l
     \<and> 0 \<le> gl_fallbacks l \<and> gl_fallbacks l \<le> 3 \<and> 1024 \<le> gl_response_bytes l
     \<and> gl_response_bytes l \<le> gl_total_bytes l \<and> 1 \<le> gl_sections l \<and> 1024 \<le> gl_content_chars l)"

section \<open>The profile\<close>

definition exn_class :: "gql_exn \<Rightarrow> string" where
  "exn_class e = (case e of GqlError m \<Rightarrow> ''GraphQLDocumentError'' | GqlValue m \<Rightarrow> ''ValueError'' | GqlOther c \<Rightarrow> c)"

definition on_world :: "('w \<Rightarrow> 'a \<times> 'w) \<Rightarrow> ('w, 'a) gql_prog" where
  "on_world f s = (case f (gs_world s) of (x, w) \<Rightarrow> (Inr x, s\<lparr>gs_world := w\<rparr>))"

definition max_profile_bytes :: nat where
  "max_profile_bytes = 8 * 1024 * 1024"

definition parse_profile :: "'w gql_ports \<Rightarrow> string option \<Rightarrow> gql_exn + fields_dict" where
  "parse_profile P raw =
     (let missing = GqlError ''GraphQL profile could not be resolved'' in
      case raw of
        None \<Rightarrow> Inl missing
      | Some t \<Rightarrow>
          andR (refuse_if (t = [] \<or> max_profile_bytes < length (utf8 t)) missing)
            (case gp_json P t of
               Inl cls \<Rightarrow> Inl (GqlError ''GraphQL profile is not valid JSON'')
             | Inr v \<Rightarrow> as_object v (GqlError ''GraphQL profile must be a JSON object'')))"

definition load_profile_document :: "'w gql_ports \<Rightarrow> gql_conn \<Rightarrow> ('w, fields_dict) gql_prog" where
  "load_profile_document P C =
     (case gc_inline C of
        Some profile \<Rightarrow> returnP profile
      | None \<Rightarrow>
          bindP (on_world (gp_resolver P (gc_profile_ref C))) (\<lambda>answer. case answer of
            Inl cls \<Rightarrow> raiseP (GqlError (''GraphQL profile resolution failed ('' @ cls @ '')''))
          | Inr raw \<Rightarrow> liftP (parse_profile P raw)))"

definition resolve_profile ::
  "'w gql_ports \<Rightarrow> gql_conn \<Rightarrow> ('w, fields_dict \<times> fields_dict) gql_prog" where
  "resolve_profile P C =
     bindP (load_profile_document P C) (\<lambda>profile.
     bindP (liftP (validate_profile (gp_env P) (gp_parser P) (gp_urls P) (gc_operation C) profile)) (\<lambda>operation.
       returnP (profile, operation)))"

definition limits_of :: "fields_dict \<Rightarrow> fields_dict" where
  "limits_of profile = (case or_object (get profile ''limits'') of JObj d \<Rightarrow> d | _ \<Rightarrow> [])"

definition effective_limit :: "fields_dict \<Rightarrow> string \<Rightarrow> int \<Rightarrow> int \<Rightarrow> int \<Rightarrow> gql_exn + int" where
  "effective_limit profile key configured lo hi =
     bindR (bounded_int (get (limits_of profile) key) configured lo hi) (\<lambda>v. Inr (min configured v))"

section \<open>One post\<close>

definition hard_max_response :: int where
  "hard_max_response = 64 * 1024 * 1024"

text \<open>\<open>_collect_bounded_iterator_bytes\<close>, for an injected transport.\<close>

fun collect_chunks :: "int \<Rightarrow> int \<Rightarrow> (string + string) list \<Rightarrow> gql_exn + string" where
  "collect_chunks limit n [] = Inr []"
| "collect_chunks limit n (Inl cls # cs) = Inl (GqlError ''GraphQL transport byte stream is invalid'')"
| "collect_chunks limit n (Inr b # cs) =
     (if limit < n + int (length b) then Inl (GqlError ''GraphQL response exceeds the configured bound'')
      else bindR (collect_chunks limit (n + int (length b)) cs) (\<lambda>rest. Inr (b @ rest)))"

definition injected_bytes :: "int \<Rightarrow> gql_answer \<Rightarrow> gql_exn + string" where
  "injected_bytes limit answer =
     (case answer of
        PostRaised e \<Rightarrow> Inl e
      | WholeBody b \<Rightarrow>
          andR (refuse_if (limit < int (length b)) (GqlError ''GraphQL response exceeds the configured bound'')) (Inr b)
      | BodyChunks declared cs \<Rightarrow> collect_chunks limit 0 cs
      | NoBody \<Rightarrow> Inl (GqlError ''GraphQL transport must expose a bounded byte response''))"

definition decode_bounded :: "'w gql_ports \<Rightarrow> string \<Rightarrow> gql_exn + fields_dict" where
  "decode_bounded P raw =
     (case gp_json P raw of
        Inl cls \<Rightarrow> Inl (GqlError ''GraphQL response is not valid JSON'')
      | Inr v \<Rightarrow> as_object v (GqlError ''GraphQL response is not an object''))"

text \<open>\<open>_read_bounded\<close>, for the client of the connector itself. An egress error is a \<^theory_text>\<open>ValueError\<close>.\<close>

fun append_chunks :: "int \<Rightarrow> string \<Rightarrow> (string + string) list \<Rightarrow> gql_exn + string" where
  "append_chunks limit body [] = Inr body"
| "append_chunks limit body (Inl cls # cs) = Inl (GqlOther cls)"
| "append_chunks limit body (Inr b # cs) =
     (if limit - int (length body) < int (length b) then Inl (GqlOther ''SourceEgressError'')
      else append_chunks limit (body @ b) cs)"

definition check_declared :: "int \<Rightarrow> string option \<Rightarrow> gql_exn + unit" where
  "check_declared limit declared =
     andR (refuse_if (\<not> (1 \<le> limit \<and> limit \<le> hard_max_response)) (GqlValue []))
       (case declared of
          None \<Rightarrow> Inr ()
        | Some t \<Rightarrow> (case py_int t of None \<Rightarrow> Inr ()
            | Some n \<Rightarrow> refuse_if (limit < n) (GqlOther ''SourceEgressError'')))"

definition streamed_bytes :: "int \<Rightarrow> gql_answer \<Rightarrow> gql_exn + string" where
  "streamed_bytes limit answer =
     (case answer of
        PostRaised e \<Rightarrow> Inl e
      | WholeBody b \<Rightarrow> andR (check_declared limit None) (append_chunks limit [] [Inr b])
      | BodyChunks declared cs \<Rightarrow> andR (check_declared limit declared) (append_chunks limit [] cs)
      | NoBody \<Rightarrow> andR (check_declared limit None) (Inr []))"

definition payload_of ::
  "'w gql_ports \<Rightarrow> bool \<Rightarrow> int \<Rightarrow> gql_answer \<Rightarrow> gql_exn + (fields_dict \<times> int)" where
  "payload_of P injected limit answer =
     (let failed = (\<lambda>e. case e of GqlError m \<Rightarrow> GqlError m
                | _ \<Rightarrow> GqlError (''GraphQL request failed ('' @ exn_class e @ '')'')) in
      if injected
      then bindR (map_sum failed id (injected_bytes limit answer)) (\<lambda>raw.
             bindR (decode_bounded P raw) (\<lambda>d. Inr (d, int (length raw))))
      else bindR (map_sum failed id (streamed_bytes limit answer)) (\<lambda>raw.
             case gp_json P raw of
               Inl cls \<Rightarrow> Inl (failed (GqlOther cls))
             | Inr v \<Rightarrow>
                 bindR (as_object v (GqlError ''GraphQL response is not an object'')) (\<lambda>d.
                   Inr (d, int (length raw)))))"

definition headers_of :: "gql_env \<Rightarrow> fields_dict \<Rightarrow> (string \<times> string) list" where
  "headers_of E profile =
     (case or_object (get profile ''headers'') of JObj d \<Rightarrow> map (\<lambda>(k, v). (k, pstr E v)) d | _ \<Rightarrow> [])"

definition send_post :: "'w gql_ports \<Rightarrow> gql_post \<Rightarrow> ('w, gql_answer) gql_prog" where
  "send_post P q =
     thenP (modifyP (\<lambda>s. s\<lparr>gs_posts := gs_posts s @ [q]\<rparr>)) (on_world (gp_post P q))"

definition post_query ::
  "'w gql_ports \<Rightarrow> gql_conn \<Rightarrow> fields_dict \<Rightarrow> string \<Rightarrow> fields_dict \<Rightarrow> ('w, fields_dict \<times> int) gql_prog" where
  "post_query P C profile query vars =
     (let endpoint = pstr (gp_env P) (get profile ''endpoint'') in
      bindP (on_world (gp_policy P (\<not> gc_injected C) endpoint)) (\<lambda>policy. case policy of
        Inl cls \<Rightarrow> raiseP (GqlError (''GraphQL endpoint is not permitted ('' @ cls @ '')''))
      | Inr max_bytes \<Rightarrow>
          bindP (send_post P \<lparr>po_endpoint = endpoint, po_headers = headers_of (gp_env P) profile,
              po_query = query, po_variables = vars\<rparr>) (\<lambda>answer.
            liftP (payload_of P (gc_injected C) (min (gl_response_bytes (gc_limits C)) max_bytes) answer))))"

section \<open>Discovery\<close>

definition execute ::
  "'w gql_ports \<Rightarrow> gql_conn \<Rightarrow> string \<Rightarrow> fields_dict \<Rightarrow> ('w, json) gql_prog" where
  "execute P C document vars =
     bindP (resolve_profile P C) (\<lambda>(profile, operation).
       case or_object (get profile ''discovery'') of
         JObj policy \<Rightarrow>
           (if \<not> truthy (get policy ''enabled'') then raiseP (GqlError ''GraphQL discovery is not enabled'')
            else bindP (liftP (validate_query_document (gp_env P) (gp_parser P)
                     (truthy (get policy ''allow_introspection'')) (JStr document))) (\<lambda>query.
                 bindP (post_query P C profile query vars) (\<lambda>(payload, n).
                   if truthy (get payload ''errors'')
                   then raiseP (GqlError ''GraphQL discovery source returned an error'')
                   else case get payload ''data'' of
                          JObj d \<Rightarrow> returnP (JObj [(''data'', JObj d)])
                        | _ \<Rightarrow> raiseP (GqlError ''GraphQL discovery response has no data object''))))
       | _ \<Rightarrow> raiseP (GqlError ''GraphQL discovery is not enabled''))"

section \<open>One page\<close>

definition policy_of :: "gql_env \<Rightarrow> string \<Rightarrow> fields_dict \<Rightarrow> gql_exn + (string list \<times> string list)" where
  "policy_of E label d =
     bindR (policy_values E (label @ '' code'') error_code_re (get d ''codes'')) (\<lambda>codes.
     bindR (policy_values E (label @ '' path'') field_path_re (get d ''paths'')) (\<lambda>paths. Inr (codes, paths)))"

record page_read =
  pd_payload :: fields_dict
  pd_size :: int
  pd_fallbacks :: nat

fun try_fallbacks ::
  "'w gql_ports \<Rightarrow> gql_conn \<Rightarrow> fields_dict \<Rightarrow> fields_dict \<Rightarrow> json list \<Rightarrow> page_read \<Rightarrow> ('w, page_read) gql_prog" where
  "try_fallbacks P C profile vars [] r = returnP r"
| "try_fallbacks P C profile vars (f # fs) r =
     (if \<not> truthy (get (pd_payload r) ''errors'') then returnP r
      else bindP (liftP (as_object f (GqlOther ''AttributeError''))) (\<lambda>d.
        bindP (liftP (policy_of (gp_env P) ''fallback'' d)) (\<lambda>(codes, paths).
          if \<not> errors_are_allowlisted (gp_env P) codes paths (get (pd_payload r) ''errors'') then returnP r
          else bindP (liftP (validate_query_document (gp_env P) (gp_parser P) False (get d ''query''))) (\<lambda>query.
            bindP (post_query P C profile query vars) (\<lambda>(payload, size).
              try_fallbacks P C profile vars fs
                \<lparr>pd_payload = payload, pd_size = pd_size r + size, pd_fallbacks = Suc (pd_fallbacks r)\<rparr>)))))"

definition error_list :: "json \<Rightarrow> json list" where
  "error_list v = (case v of JArr xs \<Rightarrow> xs | _ \<Rightarrow> [])"

definition partial_errors_in :: "gql_env \<Rightarrow> fields_dict \<Rightarrow> fields_dict \<Rightarrow> gql_exn + nat" where
  "partial_errors_in E operation payload =
     (let errors = get payload ''errors'' in
      if \<not> truthy errors then Inr 0
      else bindR (as_object (or_object (get operation ''partial_errors'')) (GqlOther ''AttributeError'')) (\<lambda>d.
        bindR (policy_of E ''partial-error'' d) (\<lambda>(codes, paths).
          andR (refuse_if (\<not> errors_are_allowlisted E codes paths errors)
            (GqlError ''GraphQL source returned an error''))
            (Inr (length (error_list errors))))))"

definition page_data ::
  "'w gql_ports \<Rightarrow> gql_conn \<Rightarrow> fields_dict \<Rightarrow> fields_dict \<Rightarrow> fields_dict \<Rightarrow>
     ('w, fields_dict \<times> int \<times> nat \<times> nat) gql_prog" where
  "page_data P C profile operation vars =
     bindP (liftP (validate_query_document (gp_env P) (gp_parser P) False (get operation ''query''))) (\<lambda>query.
     bindP (post_query P C profile query vars) (\<lambda>(payload, size).
     bindP (liftP (case fallbacks_of operation of JArr fs \<Rightarrow> Inr fs | _ \<Rightarrow> Inl (GqlOther ''TypeError''))) (\<lambda>fs.
     bindP (try_fallbacks P C profile vars (take (nat (gl_fallbacks (gc_limits C))) fs)
       \<lparr>pd_payload = payload, pd_size = size, pd_fallbacks = 0\<rparr>) (\<lambda>r.
     bindP (liftP (partial_errors_in (gp_env P) operation (pd_payload r))) (\<lambda>partial.
     bindP (liftP (as_object (get (pd_payload r) ''data'') (GqlError ''GraphQL response has no data object''))) (\<lambda>d.
       returnP (d, pd_size r, pd_fallbacks r, partial)))))))"

section \<open>The pages\<close>

definition pagination_of :: "fields_dict \<Rightarrow> fields_dict option" where
  "pagination_of operation = (case get operation ''pagination'' of JObj p \<Rightarrow> Some p | _ \<Rightarrow> None)"

definition read_bound_of :: "fields_dict \<Rightarrow> fields_dict option" where
  "read_bound_of operation = (case get operation ''read_bound'' of JObj p \<Rightarrow> Some p | _ \<Rightarrow> None)"

definition page_variables ::
  "gql_env \<Rightarrow> gql_conn \<Rightarrow> fields_dict \<Rightarrow> int \<Rightarrow> string option \<Rightarrow> gql_exn + fields_dict" where
  "page_variables E C operation page_size cursor =
     (case pagination_of operation of
        Some p \<Rightarrow>
          Inr (dict_set (pstr E (get p ''cursor_variable'')) (case cursor of None \<Rightarrow> JNull | Some c \<Rightarrow> JStr c)
            (dict_set (pstr E (get p ''page_size_variable'')) (JInt page_size) (gc_variables C)))
      | None \<Rightarrow>
          (case read_bound_of operation of
             None \<Rightarrow> Inr (gc_variables C)
           | Some r \<Rightarrow>
               bindR (map_sum raised_class id (int_value (get r ''maximum''))) (\<lambda>m.
                 Inr (dict_set (pstr E (get r ''variable'')) (JInt (min page_size m)) (gc_variables C)))))"

definition next_page_cursor ::
  "gql_env \<Rightarrow> fields_dict \<Rightarrow> fields_dict \<Rightarrow> string list \<Rightarrow> bool \<Rightarrow> gql_exn + string option" where
  "next_page_cursor E p data seen last_page =
     (case dig_default (JBool False) (JObj data) (pstr E (get p ''has_more_path'')) of
        JBool going_on \<Rightarrow>
          (if \<not> going_on then Inr None
           else case dig_path (JObj data) (pstr E (get p ''next_cursor_path'')) of
                  JStr c \<Rightarrow>
                    andR (refuse_if (invalid_next_cursor c seen)
                      (GqlError ''GraphQL pagination returned an invalid continuation''))
                    (andR (refuse_if last_page (GqlError ''GraphQL pagination exceeds the configured page bound''))
                      (Inr (Some c)))
                | _ \<Rightarrow> Inl (GqlError ''GraphQL pagination returned an invalid continuation''))
      | _ \<Rightarrow> Inl (GqlError ''GraphQL pagination continuation flag is not boolean''))"

record fetch_diag =
  fd_pages :: nat
  fd_bytes :: int
  fd_fallbacks :: nat
  fd_partial :: nat

definition page_step ::
  "'w gql_ports \<Rightarrow> gql_conn \<Rightarrow> fields_dict \<Rightarrow> fields_dict \<Rightarrow> int \<Rightarrow> string option \<Rightarrow>
     ('w, fields_dict \<times> int \<times> nat \<times> nat) gql_prog" where
  "page_step P C profile operation page_size cursor =
     bindP (liftP (page_variables (gp_env P) C operation page_size cursor)) (\<lambda>vars.
     bindP (page_data P C profile operation vars) (\<lambda>(d, size, fb, partial).
       thenP (modifyP (\<lambda>s. s\<lparr>gs_pages := gs_pages s @ [(cursor, d)]\<rparr>)) (returnP (d, size, fb, partial))))"

text \<open>The loop, with the pages that remain; \<open>seen\<close> are the cursors followed.\<close>

fun fetch_pages ::
  "'w gql_ports \<Rightarrow> gql_conn \<Rightarrow> fields_dict \<Rightarrow> fields_dict \<Rightarrow> int \<Rightarrow> int \<Rightarrow> nat \<Rightarrow> string option \<Rightarrow> string list \<Rightarrow>
     json list \<Rightarrow> fetch_diag \<Rightarrow> ('w, json list \<times> fetch_diag) gql_prog" where
  "fetch_pages P C profile operation page_size max_bytes 0 cursor seen roots d = returnP (roots, d)"
| "fetch_pages P C profile operation page_size max_bytes (Suc k) cursor seen roots d =
     bindP (page_step P C profile operation page_size cursor) (\<lambda>(data, size, fb, partial).
       let roots' = roots @ [dig_path (JObj data) (pstr (gp_env P) (get operation ''root_path''))];
           d' = \<lparr>fd_pages = Suc (fd_pages d), fd_bytes = fd_bytes d + size,
                 fd_fallbacks = fd_fallbacks d + fb, fd_partial = fd_partial d + partial\<rparr>
       in if max_bytes < fd_bytes d'
          then raiseP (GqlError ''GraphQL responses exceed the configured total bound'')
          else case pagination_of operation of
                 None \<Rightarrow> returnP (roots', d')
               | Some p \<Rightarrow>
                   bindP (liftP (next_page_cursor (gp_env P) p data seen (k = 0))) (\<lambda>c.
                     case c of
                       None \<Rightarrow> returnP (roots', d')
                     | Some t \<Rightarrow>
                         fetch_pages P C profile operation page_size max_bytes k (Some t) (t # seen) roots' d'))"

definition fetch_limits :: "gql_conn \<Rightarrow> fields_dict \<Rightarrow> gql_exn + (int \<times> int \<times> int)" where
  "fetch_limits C profile =
     (let l = gc_limits C in
      bindR (effective_limit profile ''max_pages'' (gl_pages l) 1 100) (\<lambda>pages.
      bindR (effective_limit profile ''page_size'' (gl_page_size l) 1 1000) (\<lambda>page_size.
      bindR (effective_limit profile ''max_total_response_bytes'' (gl_total_bytes l) 1024 100000000) (\<lambda>all_bytes.
        Inr (pages, page_size, all_bytes)))))"

definition fetch_roots ::
  "'w gql_ports \<Rightarrow> gql_conn \<Rightarrow> fields_dict \<Rightarrow> fields_dict \<Rightarrow> ('w, json list \<times> fetch_diag) gql_prog" where
  "fetch_roots P C profile operation =
     bindP (liftP (fetch_limits C profile)) (\<lambda>(pages, page_size, all_bytes).
       fetch_pages P C profile operation page_size all_bytes (nat pages) None [] []
         \<lparr>fd_pages = 0, fd_bytes = 0, fd_fallbacks = 0, fd_partial = 0\<rparr>)"

end
