(* ===== verification/Graph_Render.thy ===== *)
theory Graph_Render
  imports Graph_Fetch
begin

text \<open>
  Records to documents (\<^verbatim>\<open>_graphql_render.py\<close>): every text and every section passes the privacy guard,
  the body is cut at its bound, and digests of the parts give the identity and the version.
\<close>

section \<open>The guard on JSON values\<close>

fun content_of :: "json \<Rightarrow> content" where
  "content_of JNull = CNone"
| "content_of (JBool b) = CBool b"
| "content_of (JInt i) = CInt i"
| "content_of (JFloat f) = CFloat f"
| "content_of (JStr s) = CStr s"
| "content_of (JArr xs) = CList (map content_of xs)"
| "content_of (JObj kvs) = CDict (map (\<lambda>(k, v). (k, content_of v)) kvs)"

fun json_of :: "content \<Rightarrow> json" where
  "json_of CNone = JNull"
| "json_of (CBool b) = JBool b"
| "json_of (CInt i) = JInt i"
| "json_of (CFloat f) = JFloat f"
| "json_of (CStr s) = JStr s"
| "json_of (CDict kvs) = JObj (map (\<lambda>(k, v). (k, json_of v)) kvs)"
| "json_of (CList xs) = JArr (map json_of xs)"
| "json_of (CTuple xs) = JArr (map json_of xs)"
| "json_of (CSet xs) = JArr (map json_of xs)"
| "json_of (CObject name) = JStr (''[REDACTED_OBJECT:'' @ name @ '']'')"

definition guard_json :: "privacy_guard \<Rightarrow> json \<Rightarrow> json \<times> privacy_report" where
  "guard_json G v = (case guard_sanitize G (content_of v) of (w, r) \<Rightarrow> (json_of w, r))"

section \<open>Text of a value\<close>

definition float_text :: "gql_env \<Rightarrow> pyfloat \<Rightarrow> string" where
  "float_text E f =
     (case f of Fin r \<Rightarrow> py_float_repr (ge_py E) r | NaN \<Rightarrow> ''NaN'' | PosInf \<Rightarrow> ''Infinity'' | NegInf \<Rightarrow> ''-Infinity'')"

text \<open>\<^theory_text>\<open>json.dumps\<close> with sorted keys, its default separators and \<^theory_text>\<open>ensure_ascii=False\<close>.\<close>

fun json_text :: "gql_env \<Rightarrow> json \<Rightarrow> string" where
  "json_text E JNull = ''null''"
| "json_text E (JBool b) = (if b then ''true'' else ''false'')"
| "json_text E (JInt i) = show_int i"
| "json_text E (JFloat f) = float_text E f"
| "json_text E (JStr s) = encode_string_raw s"
| "json_text E (JArr xs) = ''['' @ join_with '', '' (map (json_text E) xs) @ '']''"
| "json_text E (JObj kvs) =
     ''{'' @ join_with '', '' (map (\<lambda>(k, t). encode_string_raw k @ '': '' @ t)
       (sort_key fst (map (\<lambda>(k, v). (k, json_text E v)) kvs))) @ ''}''"

definition no_value :: "json \<Rightarrow> bool" where
  "no_value v \<longleftrightarrow> v \<in> {JNull, JStr [], JObj [], JArr []}"

definition frontmatter_lines :: "gql_env \<Rightarrow> json \<Rightarrow> string list \<times> privacy_report list" where
  "frontmatter_lines E v =
     (if no_value v then ([], [])
      else case guard_json (ge_guard E) v of
             (JStr s, r) \<Rightarrow> ([[], s], [r])
           | (w, r) \<Rightarrow> ([[], json_text E w], [r]))"

section \<open>Sections\<close>

definition section_level :: "fields_dict \<Rightarrow> string \<Rightarrow> gql_exn + nat" where
  "section_level d field =
     (case int_value (if truthy (get d field) then get d field else JInt 2) of
        Inr i \<Rightarrow> Inr (nat (max 2 (min (i + 1) 6)))
      | Inl cls \<Rightarrow> (if cls \<in> {''TypeError'', ''ValueError''} then Inr 2 else Inl (GqlOther cls)))"

definition one_section ::
  "gql_env \<Rightarrow> fields_dict \<Rightarrow> json \<Rightarrow> gql_exn + (string list \<times> privacy_report list)" where
  "one_section E operation v =
     (case v of
        JObj raw \<Rightarrow>
          (case guard_json (ge_guard E) v of
             (JObj clean, r) \<Rightarrow>
               (let title = text_or E ''Section'' (get clean (key_text E operation ''section_title_field'' ''title'')) in
                bindR (section_level clean (key_text E operation ''section_level_field'' ''level'')) (\<lambda>level.
                  let body = py_strip (key_text E clean (key_text E operation ''section_content_field'' ''content'') [])
                  in Inr ([[], replicate level (CHR ''#'') @ '' '' @ title] @ (if body = [] then [] else [[], body]), [r])))
           | (w, r) \<Rightarrow> Inr ([], [r]))
      | _ \<Rightarrow> Inr ([], []))"

definition section_lines ::
  "gql_env \<Rightarrow> gql_conn \<Rightarrow> fields_dict \<Rightarrow> json \<Rightarrow> gql_exn + (string list \<times> privacy_report list)" where
  "section_lines E C operation sections =
     (let xs = (case sections of JArr xs \<Rightarrow> xs | _ \<Rightarrow> []) in
      bindR (mapR (one_section E operation) (take (nat (gl_sections (gc_limits C))) xs)) (\<lambda>ys.
        Inr (concat (map fst ys), concat (map snd ys))))"

section \<open>The body\<close>

definition is_unset_id :: "json \<Rightarrow> bool" where
  "is_unset_id v \<longleftrightarrow> v = JNull \<or> v = JStr []"

definition record_id :: "gql_env \<Rightarrow> fields_dict \<Rightarrow> fields_dict \<Rightarrow> json" where
  "record_id E m rec = dig_path (JObj rec) (key_text E m ''id_path'' ''id'')"

definition title_of :: "gql_env \<Rightarrow> fields_dict \<Rightarrow> fields_dict \<Rightarrow> json \<Rightarrow> string \<times> privacy_report" where
  "title_of E operation rec raw_id =
     guard_sanitize_text (ge_guard E)
       (pstr E (dig_default raw_id (JObj rec) (key_text E operation ''title_path'' ''title'')))"

definition content_lines :: "gql_env \<Rightarrow> fields_dict \<Rightarrow> fields_dict \<Rightarrow> string list \<times> privacy_report list" where
  "content_lines E operation rec =
     (let path = key_text E operation ''content_path'' [] in
      if path = [] then ([], [])
      else case guard_sanitize_text (ge_guard E) (text_or E [] (dig_default (JStr []) (JObj rec) path)) of
             (t, r) \<Rightarrow> (if py_strip t = [] then [] else [[], py_strip t], [r]))"

record rendered_body =
  rb_raw_id :: json
  rb_title :: string
  rb_text :: string
  rb_reports :: "privacy_report list"

definition newline :: string where
  "newline = [CHR 10]"

definition render_body ::
  "gql_env \<Rightarrow> gql_conn \<Rightarrow> fields_dict \<Rightarrow> fields_dict \<Rightarrow> gql_exn + rendered_body option" where
  "render_body E C operation rec =
     (let raw_id = record_id E operation rec in
      if is_unset_id raw_id then Inr None
      else case title_of E operation rec raw_id of
        (title, title_report) \<Rightarrow>
          (case content_lines E operation rec of (clines, creports) \<Rightarrow>
          (case frontmatter_lines E
              (dig_path (JObj rec) (key_text E operation ''frontmatter_path'' ''document.frontmatter'')) of
             (flines, freports) \<Rightarrow>
          bindR (section_lines E C operation
              (dig_default (JArr []) (JObj rec) (key_text E operation ''sections_path'' ''document.sections'')))
            (\<lambda>(slines, sreports).
              let text = py_strip (take (nat (gl_content_chars (gc_limits C)))
                    (join_with newline ([''# '' @ title] @ clines @ flines @ slines)))
              in Inr (if text = [] then None
                 else Some \<lparr>rb_raw_id = raw_id, rb_title = title, rb_text = text,
                   rb_reports = [title_report] @ creports @ freports @ sreports\<rparr>)))))"

section \<open>The document\<close>

record source_document =
  sd_id :: string
  sd_uri :: string
  sd_title :: string
  sd_text :: string
  sd_doc_type :: string
  sd_entity_id :: string
  sd_metadata :: fields_dict
  sd_access :: access
  sd_updated :: string

record governance =
  gv_access :: access
  gv_class :: classification
  gv_retention :: "string option"
  gv_hold :: bool
  gv_tenant :: string
  gv_schema :: string
  gv_mapping :: string

definition opt_text :: "string option \<Rightarrow> json" where
  "opt_text t = (case t of None \<Rightarrow> JNull | Some s \<Rightarrow> JStr s)"

text \<open>
  \<open>render_document\<close> as the connector calls it, with the entity the document belongs to and the
  governance of the profile. The entity is kept beside the metadata, of which it is a member.
\<close>

definition document_digests ::
  "gql_env \<Rightarrow> gql_conn \<Rightarrow> string \<Rightarrow> fields_dict \<Rightarrow> fields_dict \<Rightarrow> rendered_body \<Rightarrow>
     string \<times> string \<times> string \<times> privacy_report list" where
  "document_digests E C key operation rec b =
     (let path = key_text E operation ''updated_path'' [];
          raw_updated = (if path = [] then JNull else dig_path (JObj rec) path);
          scope = [JStr (gc_alias C), JStr (gc_operation C)];
          raw_id = JStr (pstr E (rb_raw_id b));
          content = gql_digest E [JStr (rb_text b)]
      in case guard_sanitize_text (ge_guard E) (text_or E [] raw_updated) of
           (clean_updated, report) \<Rightarrow>
             (private_digest E key (scope @ [JStr ''document'', raw_id]), content,
              private_digest E key (scope @ [JStr ''document-version'', raw_id,
                JStr (if clean_updated = [] then content else clean_updated)]),
              rb_reports b @ [report]))"

definition report_types :: "privacy_report list \<Rightarrow> string list" where
  "report_types rs = sort (remdups (concat (map pr_types rs)))"

definition document_metadata ::
  "gql_conn \<Rightarrow> string \<Rightarrow> string \<Rightarrow> string \<Rightarrow> governance \<Rightarrow> privacy_report list \<Rightarrow> fields_dict" where
  "document_metadata C entity_id profile_digest content_digest gov reports =
     [(''source_alias'', JStr (gc_alias C)), (''source_kind'', JStr ''graphql''),
      (''operation'', JStr (gc_operation C)), (''governed_entity_id'', JStr entity_id),
      (''profile_digest'', JStr profile_digest), (''content_digest'', JStr content_digest),
      (''classification'', JStr (classification_text (gv_class gov))), (''retention'', opt_text (gv_retention gov)),
      (''legal_hold'', JBool (gv_hold gov)), (''embedding_handoff'', JBool True),
      (''privacy'', JObj [(''redactions'', JInt (int (sum_list (map pr_redactions reports)))),
        (''detected_types'', strings (report_types reports))])]"

definition render_document ::
  "gql_env \<Rightarrow> gql_conn \<Rightarrow> string \<Rightarrow> string \<Rightarrow> governance \<Rightarrow> string \<Rightarrow> fields_dict \<Rightarrow> fields_dict \<Rightarrow>
     gql_exn + source_document option" where
  "render_document E C key profile_digest gov entity_id operation rec =
     bindR (render_body E C operation rec) (\<lambda>body. case body of
       None \<Rightarrow> Inr None
     | Some b \<Rightarrow>
         (case document_digests E C key operation rec b of
            (document_id, content_digest, version_digest, reports) \<Rightarrow>
              Inr (Some \<lparr>sd_id = document_id,
                sd_uri = ''external-source://'' @ gc_alias C @ ''/'' @ document_id,
                sd_title = rb_title b, sd_text = rb_text b,
                sd_doc_type = safe_document_type E (get operation ''doc_type''), sd_entity_id = entity_id,
                sd_metadata = document_metadata C entity_id profile_digest content_digest gov reports,
                sd_access = gv_access gov, sd_updated = version_digest\<rparr>)))"

end
