(* ===== verification/Graph_Snapshot.thy ===== *)
theory Graph_Snapshot
  imports Graph_Render
begin

text \<open>
  A fetched snapshot against the checkpoint before it (\<^verbatim>\<open>_graphql_snapshot.py\<close>,
  \<^verbatim>\<open>_graphql_snapshot_state.py\<close>, \<^verbatim>\<open>_graphql_change.py\<close>): what the checkpoint must be, which entities are
  sent again, which are withdrawn, and the checkpoint after it. A checkpoint comes back from its
  keeper as JSON, so nothing is assumed of its content.
\<close>

section \<open>Governed changes\<close>

datatype change =
    Upsert string string fields_dict
  | Withdraw string string

fun change_id :: "change \<Rightarrow> string" where
  "change_id (Upsert i t ps) = i"
| "change_id (Withdraw i r) = i"

definition read_roles :: "access \<Rightarrow> string list" where
  "read_roles a =
     rev (remdups (rev (map (\<lambda>g. ''group:'' @ g) (filter (\<lambda>g. g \<noteq> []) (ac_groups a))
       @ map (\<lambda>u. ''user:'' @ u) (filter (\<lambda>u. u \<noteq> []) (ac_users a))
       @ filter (\<lambda>r. r \<noteq> []) (map py_strip (ac_roles a)))))"

definition access_properties :: "access \<Rightarrow> fields_dict" where
  "access_properties a =
     [(''access_public'', JBool (ac_public a)), (''access_read_roles'', strings (read_roles a)),
      (''access_markings'', strings (filter (\<lambda>m. m \<noteq> []) (ac_markings a)))]"

text \<open>\<open>_governed_change\<close> for an upsert: the governance fields win over the payload.\<close>

definition governed_upsert ::
  "gql_env \<Rightarrow> string \<Rightarrow> governance \<Rightarrow> string \<Rightarrow> string \<Rightarrow> fields_dict \<Rightarrow> fields_dict \<Rightarrow> change" where
  "governed_upsert E alias gov node_id version payload provenance =
     Upsert node_id (text_or E ''Entity'' (get payload ''type''))
       (dict_update payload
         ([(''source_instance'', JStr alias), (''source_version'', JStr version), (''tenant'', JStr (gv_tenant gov)),
           (''schema_version'', JStr (gv_schema gov)), (''ontology_mapping_version'', JStr (gv_mapping gov)),
           (''classification'', JStr (classification_text (gv_class gov))), (''retention'', opt_text (gv_retention gov)),
           (''legal_hold'', JBool (gv_hold gov)), (''provenance'', JObj provenance)]
          @ access_properties (gv_access gov)))"

definition withdrawal :: "string \<Rightarrow> string \<Rightarrow> change" where
  "withdrawal node_id version = Withdraw node_id (''absent at '' @ version)"

section \<open>Snapshots and checkpoints\<close>

record batch_diag =
  bd_fetch :: fetch_diag
  bd_truncated :: nat
  bd_invalid :: nat
  bd_redactions :: nat
  bd_types :: "string list"
  bd_kinds :: "(string \<times> nat) list"

record final_diag =
  dg_batch :: batch_diag
  dg_entities :: nat
  dg_documents :: nat
  dg_changed_entities :: nat
  dg_changed_documents :: nat
  dg_tombstones :: nat

record snapshot =
  sn_documents :: "source_document list"
  sn_changes :: "change list"
  sn_versions :: "(string, string) dict"
  sn_profile :: string
  sn_diag :: batch_diag
  sn_gov :: governance
  sn_authoritative :: bool
  sn_allow_empty :: bool

record checkpoint =
  ck_has_more :: bool
  ck_watermark :: "string option"
  ck_seen :: "string list"
  ck_state :: fields_dict

record graph_batch =
  gb_documents :: "source_document list"
  gb_changes :: "change list"
  gb_checkpoint :: checkpoint
  gb_diag :: "final_diag option"

definition checkpoint_format :: string where
  "checkpoint_format = ''graphql-snapshot-checkpoint/v1''"

definition bad_state :: gql_exn where
  "bad_state = GqlError ''GraphQL checkpoint state is invalid''"

definition prior_state_of :: "checkpoint option \<Rightarrow> fields_dict" where
  "prior_state_of ck = (case ck of None \<Rightarrow> [] | Some c \<Rightarrow> ck_state c)"

definition validate_scope :: "gql_conn \<Rightarrow> fields_dict \<Rightarrow> gql_exn + unit" where
  "validate_scope C prior =
     andR (refuse_if (prior \<noteq> [] \<and> \<not> py_eq (get prior ''checkpoint_format'') (JStr checkpoint_format))
       (GqlError ''GraphQL checkpoint format is invalid''))
     (refuse_if (prior \<noteq> [] \<and> (\<not> py_eq (get prior ''source_alias'') (JStr (gc_alias C))
         \<or> \<not> py_eq (get prior ''operation'') (JStr (gc_operation C))))
       (GqlError ''GraphQL checkpoint scope is invalid''))"

fun version_texts :: "fields_dict \<Rightarrow> gql_exn + (string, string) dict" where
  "version_texts [] = Inr []"
| "version_texts ((i, v) # d) =
     (case v of
        JStr t \<Rightarrow>
          andR (refuse_if (i = [] \<or> t = []) bad_state) (bindR (version_texts d) (\<lambda>rest. Inr ((i, t) # rest)))
      | _ \<Rightarrow> Inl bad_state)"

definition validate_baseline :: "gql_conn \<Rightarrow> fields_dict \<Rightarrow> gql_exn + (string, string) dict" where
  "validate_baseline C prior =
     (let raw = (case get prior ''versions'' of JObj d \<Rightarrow> d | _ \<Rightarrow> []) in
      andR (refuse_if (max (gl_entities (gc_limits C)) (gl_documents (gc_limits C)) < int (length raw)) bad_state)
        (version_texts raw))"

definition validate_sequence :: "fields_dict \<Rightarrow> gql_exn + int" where
  "validate_sequence prior =
     (case int_value (if truthy (get prior ''snapshot_sequence'') then get prior ''snapshot_sequence'' else JInt 0) of
        Inl cls \<Rightarrow> Inl (if cls \<in> {''TypeError'', ''ValueError''} then bad_state else GqlOther cls)
      | Inr i \<Rightarrow> andR (refuse_if (i < 0) bad_state) (Inr i))"

section \<open>The snapshot\<close>

definition incomplete :: gql_exn where
  "incomplete = GqlError ''GraphQL authoritative snapshot did not complete within its bounds''"

definition unapproved_empty :: gql_exn where
  "unapproved_empty = GqlError ''GraphQL empty authoritative snapshot requires explicit approval''"

definition validate_completeness :: "snapshot \<Rightarrow> (string, string) dict \<Rightarrow> gql_exn + unit" where
  "validate_completeness sn baseline =
     andR (refuse_if
       (sn_authoritative sn
        \<and> 0 < bd_truncated (sn_diag sn) + fd_partial (bd_fetch (sn_diag sn)) + bd_invalid (sn_diag sn)) incomplete)
     (refuse_if (sn_authoritative sn \<and> baseline \<noteq> [] \<and> sn_versions sn = [] \<and> \<not> sn_allow_empty sn) unapproved_empty)"

definition governance_state :: "governance \<Rightarrow> json" where
  "governance_state g =
     JObj [(''access'', access_json (gv_access g)), (''classification'', JStr (classification_text (gv_class g))),
       (''retention'', opt_text (gv_retention g)), (''legal_hold'', JBool (gv_hold g)), (''tenant'', JStr (gv_tenant g)),
       (''schema_version'', JStr (gv_schema g)), (''ontology_mapping_version'', JStr (gv_mapping g))]"

text \<open>An entity is sent again when its version is new, or all are when profile or governance changed.\<close>

definition policy_changed :: "snapshot \<Rightarrow> fields_dict \<Rightarrow> bool" where
  "policy_changed sn prior \<longleftrightarrow>
     prior \<noteq> [] \<and> (\<not> py_eq (get prior ''profile_digest'') (JStr (sn_profile sn))
       \<or> \<not> py_eq (get prior ''governance'') (governance_state (sn_gov sn)))"

definition entity_changed :: "snapshot \<Rightarrow> fields_dict \<Rightarrow> (string, string) dict \<Rightarrow> string \<Rightarrow> bool" where
  "entity_changed sn prior baseline i \<longleftrightarrow>
     (case map_of (sn_versions sn) i of
        None \<Rightarrow> False
      | Some v \<Rightarrow> (case map_of baseline i of None \<Rightarrow> [] | Some w \<Rightarrow> w) \<noteq> v \<or> policy_changed sn prior)"

definition changed_ids :: "snapshot \<Rightarrow> fields_dict \<Rightarrow> (string, string) dict \<Rightarrow> string list" where
  "changed_ids sn prior baseline = filter (entity_changed sn prior baseline) (remdups (map fst (sn_versions sn)))"

section \<open>Withdrawals\<close>

definition previous_governance :: "gql_env \<Rightarrow> fields_dict \<Rightarrow> gql_exn + (access \<times> string \<times> string)" where
  "previous_governance E d =
     bindR (access_from_config E (get d ''access'')) (\<lambda>a.
     bindR (classification_of E (get d ''classification'')) (\<lambda>_.
       Inr (a, key_text E d ''tenant'' [], py_strip (key_text E d ''retention'' []))))"

definition resolve_previous_governance :: "gql_env \<Rightarrow> fields_dict \<Rightarrow> gql_exn + unit" where
  "resolve_previous_governance E prior =
     (let bad = GqlError ''GraphQL checkpoint governance state is invalid'' in
      case get prior ''governance'' of
        JObj d \<Rightarrow>
          (case previous_governance E d of
             Inl e \<Rightarrow> Inl bad
           | Inr (a, tenant, retention) \<Rightarrow>
               andR (if tenant = [] then Inr () else map_sum id (\<lambda>_. ()) (safe_alias ''tenant'' tenant))
                 (refuse_if (retention \<noteq> [] \<and> \<not> rx_fullmatch retention_re retention) bad))
      | _ \<Rightarrow> Inl bad)"

definition sorted_versions :: "(string, string) dict \<Rightarrow> (string, string) dict" where
  "sorted_versions d = sort_key fst d"

definition versions_json :: "(string, string) dict \<Rightarrow> json" where
  "versions_json d = JArr (map (\<lambda>(i, v). JArr [JStr i, JStr v]) (sorted_versions d))"

definition missing_ids :: "(string, string) dict \<Rightarrow> (string, string) dict \<Rightarrow> string list" where
  "missing_ids baseline versions = sort (filter (\<lambda>i. map_of versions i = None) (remdups (map fst baseline)))"

definition version_in :: "(string, string) dict \<Rightarrow> string \<Rightarrow> string" where
  "version_in d i = (case map_of d i of None \<Rightarrow> [] | Some v \<Rightarrow> v)"

definition build_tombstones ::
  "gql_env \<Rightarrow> gql_conn \<Rightarrow> snapshot \<Rightarrow> fields_dict \<Rightarrow> (string, string) dict \<Rightarrow> int \<Rightarrow> gql_exn + change list" where
  "build_tombstones E C sn prior baseline sequence =
     (let missing = missing_ids baseline (sn_versions sn) in
      if \<not> sn_authoritative sn \<or> missing = [] then Inr []
      else andR (resolve_previous_governance E prior)
        (let next_digest = gql_digest E [JStr (gc_alias C), JStr (gc_operation C), JInt (sequence + 1),
               versions_json (sn_versions sn)]
         in Inr (map (\<lambda>i. withdrawal i
              (gql_digest E [JStr ''graphql-snapshot-delete'', JStr (version_in baseline i), JStr next_digest])) missing)))"

section \<open>The next checkpoint\<close>

definition checkpoint_changed ::
  "snapshot \<Rightarrow> fields_dict \<Rightarrow> (string, string) dict \<Rightarrow> bool" where
  "checkpoint_changed sn prior baseline \<longleftrightarrow>
     prior = [] \<or> sorted_versions baseline \<noteq> sorted_versions (sn_versions sn) \<or> policy_changed sn prior
     \<or> \<not> py_eq (get prior ''snapshot_authoritative'') (JBool (sn_authoritative sn))
     \<or> \<not> py_eq (get prior ''allow_empty_snapshot'') (JBool (sn_allow_empty sn))"

definition take_end :: "nat \<Rightarrow> 'a list \<Rightarrow> 'a list" where
  "take_end n xs = drop (length xs - n) xs"

definition next_checkpoint ::
  "gql_env \<Rightarrow> gql_conn \<Rightarrow> snapshot \<Rightarrow> fields_dict \<Rightarrow> (string, string) dict \<Rightarrow> int \<Rightarrow> checkpoint" where
  "next_checkpoint E C sn prior baseline sequence =
     (let n = sequence + (if checkpoint_changed sn prior baseline then 1 else 0) in
      \<lparr>ck_has_more = False,
       ck_watermark = Some (gql_digest E [JStr (gc_alias C), JStr (gc_operation C), JInt n, versions_json (sn_versions sn)]),
       ck_seen = take_end (nat (gl_entities (gc_limits C))) (map fst (sorted_versions (sn_versions sn))),
       ck_state =
         [(''checkpoint_format'', JStr checkpoint_format), (''source_alias'', JStr (gc_alias C)),
          (''operation'', JStr (gc_operation C)), (''profile_digest'', JStr (sn_profile sn)),
          (''snapshot_sequence'', JInt n), (''snapshot_authoritative'', JBool (sn_authoritative sn)),
          (''allow_empty_snapshot'', JBool (sn_allow_empty sn)), (''governance'', governance_state (sn_gov sn)),
          (''versions'', JObj (map (\<lambda>(i, v). (i, JStr v)) (sorted_versions (sn_versions sn))))]\<rparr>)"

section \<open>Reconciliation\<close>

definition reconcile ::
  "gql_env \<Rightarrow> gql_conn \<Rightarrow> checkpoint option \<Rightarrow> snapshot \<Rightarrow> gql_exn + graph_batch" where
  "reconcile E C ck sn =
     (let prior = prior_state_of ck in
      andR (validate_scope C prior)
      (bindR (validate_baseline C prior) (\<lambda>baseline.
       bindR (validate_sequence prior) (\<lambda>sequence.
       andR (validate_completeness sn baseline)
       (let changed = changed_ids sn prior baseline;
            documents = filter (\<lambda>d. sd_entity_id d \<in> set changed) (sn_documents sn)
        in bindR (build_tombstones E C sn prior baseline sequence) (\<lambda>tombstones.
          Inr \<lparr>gb_documents = documents,
            gb_changes = filter (\<lambda>c. change_id c \<in> set changed) (sn_changes sn) @ tombstones,
            gb_checkpoint = next_checkpoint E C sn prior baseline sequence,
            gb_diag = Some \<lparr>dg_batch = sn_diag sn, dg_entities = length (sn_versions sn),
              dg_documents = length (sn_documents sn), dg_changed_entities = length changed,
              dg_changed_documents = length documents, dg_tombstones = length tombstones\<rparr>\<rparr>))))))"

end
