(* ===== verification/Graph_Map.thy ===== *)
theory Graph_Map
  imports Graph_Snapshot "HOL-Library.Multiset"
begin

text \<open>
  Responses to entities (\<^verbatim>\<open>graphql_document.py\<close>): the records a mapping selects, flat or down a
  hierarchy, the opaque identity of a record, its selected properties behind the guard, the
  prepared entities with their versions, the links between them, and the snapshots of the two kinds
  of operation, with mappings and without.
\<close>

section \<open>Selecting records\<close>

type_synonym row = "fields_dict \<times> json \<times> nat"

fun flat_rows :: "string \<Rightarrow> int \<Rightarrow> json list \<Rightarrow> row list \<Rightarrow> nat \<Rightarrow> row list \<times> nat" where
  "flat_rows parent_path limit [] rows truncated = (rows, truncated)"
| "flat_rows parent_path limit (seed # seeds) rows truncated =
     (case seed of
        JObj rec \<Rightarrow>
          (if limit \<le> int (length rows) then flat_rows parent_path limit seeds rows (Suc truncated)
           else flat_rows parent_path limit seeds
             (rows @ [(rec, if parent_path = [] then JNull else dig_path seed parent_path, 0)]) truncated)
      | _ \<Rightarrow> flat_rows parent_path limit seeds rows truncated)"

definition objects_in :: "json list \<Rightarrow> fields_dict list" where
  "objects_in xs = concat (map (\<lambda>x. case x of JObj d \<Rightarrow> [d] | _ \<Rightarrow> []) xs)"

definition child_records :: "string \<Rightarrow> fields_dict \<Rightarrow> fields_dict list" where
  "child_records children_path rec = objects_in (dig_many (JObj rec) children_path)"

definition hierarchy_step :: "string \<Rightarrow> string \<Rightarrow> nat \<Rightarrow> row \<Rightarrow> row list \<times> nat" where
  "hierarchy_step children_path id_path max_depth r =
     (case r of (rec, parent, depth) \<Rightarrow>
        (let children = child_records children_path rec in
         if children = [] then ([], 0)
         else if max_depth \<le> depth + 1 then ([], length children)
         else (map (\<lambda>c. (c, dig_path (JObj rec) id_path, depth + 1)) children, 0)))"

definition room :: "nat \<Rightarrow> row \<Rightarrow> nat" where
  "room max_depth r = max_depth - snd (snd r)"

lemma step_has_less_room:
  "x \<in> set (fst (hierarchy_step children_path id_path max_depth r)) \<Longrightarrow> room max_depth x < room max_depth r"
  by (auto simp: hierarchy_step_def room_def Let_def split: prod.splits if_splits)

text \<open>
  The stack of the code ends with the record that comes next; it begins with it here. The walk ends
  on every path, since a child lies deeper and the depth is bounded.
\<close>

function hierarchy_rows ::
  "string \<Rightarrow> string \<Rightarrow> int \<Rightarrow> nat \<Rightarrow> row list \<Rightarrow> row list \<Rightarrow> nat \<Rightarrow> row list \<times> nat" where
  "hierarchy_rows children_path id_path limit max_depth [] rows truncated = (rows, truncated)"
| "hierarchy_rows children_path id_path limit max_depth (r # stack) rows truncated =
     (if limit \<le> int (length rows)
      then hierarchy_rows children_path id_path limit max_depth stack rows (Suc truncated)
      else hierarchy_rows children_path id_path limit max_depth
        (fst (hierarchy_step children_path id_path max_depth r) @ stack) (rows @ [r])
        (truncated + snd (hierarchy_step children_path id_path max_depth r)))"
  by pat_completeness auto
termination
proof (relation "inv_image (mult less_than) (\<lambda>(cp, ip, limit, md, stack, rows, tr). mset (map (room md) stack))")
  show "wf (inv_image (mult less_than) (\<lambda>(cp, ip, limit, md, stack, rows, tr). mset (map (room md) stack)))"
    by (intro wf_inv_image wf_mult wf_less_than)
next
  fix cp ip limit md r stack rows tr
  show "((cp, ip, limit, md, stack, rows, Suc tr), cp, ip, limit, md, r # stack, rows, tr)
      \<in> inv_image (mult less_than) (\<lambda>(cp, ip, limit, md, stack, rows, tr). mset (map (room md) stack))"
    using one_step_implies_mult [of "{#room md r#}" "{#}" less_than "mset (map (room md) stack)"] by simp
next
  fix cp ip limit md r stack rows tr
  show "((cp, ip, limit, md, fst (hierarchy_step cp ip md r) @ stack, rows @ [r],
        tr + snd (hierarchy_step cp ip md r)), cp, ip, limit, md, r # stack, rows, tr)
      \<in> inv_image (mult less_than) (\<lambda>(cp, ip, limit, md, stack, rows, tr). mset (map (room md) stack))"
    using one_step_implies_mult [of "{#room md r#}" "mset (map (room md) (fst (hierarchy_step cp ip md r)))"
        less_than "mset (map (room md) stack)"] step_has_less_room
    by (auto simp: add.commute)
qed

declare hierarchy_rows.simps [simp del]

definition seed_rows :: "json list \<Rightarrow> row list" where
  "seed_rows seeds = map (\<lambda>rec. (rec, JNull, 0)) (objects_in seeds)"

definition rows_of_root ::
  "gql_env \<Rightarrow> kind \<Rightarrow> fields_dict \<Rightarrow> int \<Rightarrow> nat \<Rightarrow> json \<Rightarrow> row list \<times> nat" where
  "rows_of_root E k m limit max_depth found =
     (let seeds = dig_many found (key_text E m ''records_path'' []);
          children_path = key_text E m ''children_path'' [] in
      if k \<noteq> HierarchyKind \<or> children_path = []
      then flat_rows (key_text E m ''parent_id_path'' []) limit seeds [] 0
      else hierarchy_rows children_path (key_text E m ''id_path'' ''id'') limit max_depth (seed_rows seeds) [] 0)"

fun mapping_rows ::
  "gql_env \<Rightarrow> kind \<Rightarrow> fields_dict \<Rightarrow> int \<Rightarrow> nat \<Rightarrow> json list \<Rightarrow> row list \<Rightarrow> nat \<Rightarrow> row list \<times> nat" where
  "mapping_rows E k m limit max_depth [] rows truncated = (rows, truncated)"
| "mapping_rows E k m limit max_depth (found # roots) rows truncated =
     (case rows_of_root E k m (limit - int (length rows)) max_depth found of
        (new_rows, left_out) \<Rightarrow> mapping_rows E k m limit max_depth roots (rows @ new_rows) (truncated + left_out))"

section \<open>Identity and properties\<close>

definition opaque_id :: "gql_env \<Rightarrow> gql_conn \<Rightarrow> string \<Rightarrow> kind \<Rightarrow> json \<Rightarrow> string" where
  "opaque_id E C key k raw_id =
     private_digest E key [JStr (gc_alias C), JStr (gc_operation C), JStr (kind_text k), JStr (pstr E raw_id)]"

definition entity_node_id :: "gql_env \<Rightarrow> gql_conn \<Rightarrow> string \<Rightarrow> kind \<Rightarrow> json \<Rightarrow> string" where
  "entity_node_id E C key k raw_id =
     (let opaque = opaque_id E C key k raw_id in
      if k = DocumentKind then ''doc:graphql_document:'' @ take 24 (sha256_text E (utf8 opaque))
      else ''external:'' @ gc_alias C @ '':'' @ kind_text k @ '':'' @ take 32 opaque)"

definition list_value :: "json \<Rightarrow> json list" where
  "list_value v = (case v of JArr xs \<Rightarrow> xs | _ \<Rightarrow> [])"

definition selected_properties ::
  "gql_env \<Rightarrow> fields_dict \<Rightarrow> fields_dict \<Rightarrow> fields_dict \<times> privacy_report" where
  "selected_properties E m rec =
     (let path = key_text E m ''properties_path'' [];
          src = (case (if path = [] then JObj rec else dig_default (JObj []) (JObj rec) path) of
                   JObj d \<Rightarrow> JObj d | _ \<Rightarrow> JObj []);
          selected = fold (\<lambda>p d. dict_set (pstr E p) (dig_path src (pstr E p)) d) (list_value (get m ''property_allowlist'')) []
      in case guard_json (ge_guard E) (JObj selected) of
           (JObj clean, r) \<Rightarrow> (clean, r)
         | (_, r) \<Rightarrow> ([], r))"

section \<open>Governance and limits\<close>

definition governance_of :: "gql_env \<Rightarrow> gql_conn \<Rightarrow> fields_dict \<Rightarrow> gql_exn + governance" where
  "governance_of E C profile =
     bindR (as_object (or_object (get profile ''governance'')) (GqlOther ''AttributeError'')) (\<lambda>g.
     bindR (access_from_config E (access_value g profile)) (\<lambda>a.
     let acc = (if get g ''access'' = JNull \<and> get profile ''access'' = JNull then gc_access C else a);
         retention = py_strip (key_text E g ''retention'' []) in
     bindR (classification_of E (get g ''classification'')) (\<lambda>cls.
     andR (check_public_access cls acc)
       (Inr \<lparr>gv_access = acc, gv_class = cls, gv_retention = (if retention = [] then None else Some retention),
         gv_hold = (get g ''legal_hold'' = JBool True), gv_tenant = map lower_char (py_strip (key_text E g ''tenant'' [])),
         gv_schema = key_text E g ''schema_version'' ''1'',
         gv_mapping = key_text E g ''ontology_mapping_version'' ''1''\<rparr>))))"

record batch_base =
  bb_key :: string
  bb_gov :: governance
  bb_profile :: string
  bb_gov_digest :: string

definition governance_digest :: "gql_env \<Rightarrow> governance \<Rightarrow> string" where
  "governance_digest E g =
     gql_digest E [access_json (gv_access g), JStr (classification_text (gv_class g)),
       JArr [opt_text (gv_retention g), JBool (gv_hold g), JStr (gv_tenant g), JStr (gv_schema g), JStr (gv_mapping g)]]"

definition batch_base_of :: "gql_env \<Rightarrow> gql_conn \<Rightarrow> fields_dict \<Rightarrow> fields_dict \<Rightarrow> gql_exn + batch_base" where
  "batch_base_of E C profile operation =
     bindR (governance_of E C profile) (\<lambda>g.
       Inr \<lparr>bb_key = pstr E (get profile ''identity_hmac_key''), bb_gov = g,
         bb_profile = gql_digest E [JObj operation], bb_gov_digest = governance_digest E g\<rparr>)"

section \<open>Prepared entities\<close>

record prepared =
  it_kind :: kind
  it_raw_id :: json
  it_node_id :: string
  it_version :: string
  it_record :: fields_dict
  it_mapping :: fields_dict
  it_parent :: json
  it_payload :: fields_dict
  it_document :: "source_document option"

fun default_entity_type :: "kind \<Rightarrow> string" where
  "default_entity_type EntityKind = ''ExternalEntity''"
| "default_entity_type HierarchyKind = ''ExternalHierarchy''"
| "default_entity_type DocumentKind = ''Document''"
| "default_entity_type ApplicationKind = ''Application''"
| "default_entity_type DependencyKind = ''Dependency''"

definition metadata_text :: "source_document \<Rightarrow> json" where
  "metadata_text d = get (sd_metadata d) ''content_digest''"

definition entity_payload ::
  "gql_env \<Rightarrow> gql_conn \<Rightarrow> kind \<Rightarrow> fields_dict \<Rightarrow> string \<Rightarrow> fields_dict \<Rightarrow> source_document option \<Rightarrow> fields_dict" where
  "entity_payload E C k m node_id properties document =
     dict_update
       (dict_update
         [(''id'', JStr node_id), (''type'', JStr (safe_entity_type E (default_entity_type k) (get m ''entity_type''))),
          (''source_alias'', JStr (gc_alias C)), (''source_kind'', JStr ''graphql''), (''entity_kind'', JStr (kind_text k))]
         properties)
       (case document of
          None \<Rightarrow> []
        | Some d \<Rightarrow>
            [(''title'', JStr (sd_title d)), (''doc_type'', JStr (sd_doc_type d)),
             (''content_digest'', metadata_text d), (''embedding_handoff'', JBool True)])"

definition entity_version ::
  "gql_env \<Rightarrow> gql_conn \<Rightarrow> batch_base \<Rightarrow> kind \<Rightarrow> fields_dict \<Rightarrow> fields_dict \<Rightarrow> fields_dict \<Rightarrow> string" where
  "entity_version E C B k m rec payload =
     (let path = key_text E m ''version_path'' [];
          raw_version = (if path = [] then JNull else dig_path (JObj rec) path)
      in private_digest E (bb_key B)
           [JStr (gc_alias C), JStr (gc_operation C), JStr (kind_text k), JStr (pstr E (record_id E m rec)),
            JStr (text_or E [] raw_version), JStr (gql_digest E [JObj payload]), JStr (bb_profile B),
            JStr (bb_gov_digest B)])"

text \<open>What became of one record: a prepared entity, nothing more than it counts, or a repeated identity.\<close>

record prepared_result =
  px_item :: "prepared option"
  px_invalid :: nat
  px_redactions :: nat
  px_types :: "string list"

definition prepare_document ::
  "gql_env \<Rightarrow> gql_conn \<Rightarrow> batch_base \<Rightarrow> kind \<Rightarrow> fields_dict \<Rightarrow> string \<Rightarrow> fields_dict \<Rightarrow> gql_exn + source_document option" where
  "prepare_document E C B k m node_id rec =
     (if k = DocumentKind then render_document E C (bb_key B) (bb_profile B) (bb_gov B) node_id m rec else Inr None)"

definition prepare_one ::
  "gql_env \<Rightarrow> gql_conn \<Rightarrow> batch_base \<Rightarrow> kind \<Rightarrow> fields_dict \<Rightarrow> string list \<Rightarrow> row \<Rightarrow> gql_exn + prepared_result" where
  "prepare_one E C B k m known r =
     (case r of (rec, parent, depth) \<Rightarrow>
        (let raw_id = record_id E m rec; node_id = entity_node_id E C (bb_key B) k raw_id in
         if is_unset_id raw_id then Inr \<lparr>px_item = None, px_invalid = 1, px_redactions = 0, px_types = []\<rparr>
         else if node_id \<in> set known then Inr \<lparr>px_item = None, px_invalid = 0, px_redactions = 0, px_types = []\<rparr>
         else case selected_properties E m rec of
           (properties, report) \<Rightarrow>
             bindR (prepare_document E C B k m node_id rec) (\<lambda>document.
               if k = DocumentKind \<and> document = None
               then Inr \<lparr>px_item = None, px_invalid = 1, px_redactions = pr_redactions report, px_types = pr_types report\<rparr>
               else let payload = entity_payload E C k m node_id properties document;
                        version = entity_version E C B k m rec payload
                    in Inr \<lparr>px_item = Some \<lparr>it_kind = k, it_raw_id = raw_id, it_node_id = node_id, it_version = version,
                         it_record = rec, it_mapping = m, it_parent = parent, it_payload = payload,
                         it_document = map_option (\<lambda>d. d\<lparr>sd_updated := version\<rparr>) document\<rparr>,
                       px_invalid = 0, px_redactions = pr_redactions report, px_types = pr_types report\<rparr>)))"

record preparation =
  pp_items :: "prepared list"
  pp_truncated :: nat
  pp_invalid :: nat
  pp_redactions :: nat
  pp_types :: "string list"

definition known_ids :: "preparation \<Rightarrow> string list" where
  "known_ids p = map it_node_id (pp_items p)"

fun prepare_rows ::
  "gql_env \<Rightarrow> gql_conn \<Rightarrow> batch_base \<Rightarrow> kind \<Rightarrow> fields_dict \<Rightarrow> row list \<Rightarrow> preparation \<Rightarrow> gql_exn + preparation" where
  "prepare_rows E C B k m [] p = Inr p"
| "prepare_rows E C B k m (r # rs) p =
     bindR (prepare_one E C B k m (known_ids p) r) (\<lambda>x.
       prepare_rows E C B k m rs
         (p\<lparr>pp_items := pp_items p @ opt_list (px_item x), pp_invalid := pp_invalid p + px_invalid x,
            pp_redactions := pp_redactions p + px_redactions x, pp_types := pp_types p @ px_types x\<rparr>))"

record entity_limits =
  el_entities :: int
  el_documents :: int
  el_depth :: int

definition entity_limits_of :: "gql_conn \<Rightarrow> fields_dict \<Rightarrow> gql_exn + entity_limits" where
  "entity_limits_of C profile =
     (let l = gc_limits C in
      bindR (effective_limit profile ''max_entities'' (gl_entities l) 1 10000) (\<lambda>entities.
      bindR (effective_limit profile ''max_documents'' (gl_documents l) 1 10000) (\<lambda>documents.
      bindR (effective_limit profile ''max_hierarchy_depth'' (gl_depth l) 1 32) (\<lambda>depth.
        Inr \<lparr>el_entities = entities, el_documents = documents, el_depth = depth\<rparr>))))"

definition prepare_kind ::
  "gql_env \<Rightarrow> gql_conn \<Rightarrow> batch_base \<Rightarrow> entity_limits \<Rightarrow> fields_dict \<Rightarrow> json list \<Rightarrow> kind \<Rightarrow> preparation \<Rightarrow>
     gql_exn + preparation" where
  "prepare_kind E C B L operation roots k p =
     (case mapping_for operation k of
        None \<Rightarrow> Inr p
      | Some m \<Rightarrow>
          (let free = max 0 (el_entities L - int (length (pp_items p)));
               remaining = (if k = DocumentKind then min free (el_documents L) else free) in
           if remaining = 0 then Inr (p\<lparr>pp_truncated := Suc (pp_truncated p)\<rparr>)
           else case mapping_rows E k m remaining (nat (el_depth L)) roots [] 0 of
             (rows, left_out) \<Rightarrow> prepare_rows E C B k m rows (p\<lparr>pp_truncated := pp_truncated p + left_out\<rparr>)))"

fun prepare_kinds ::
  "gql_env \<Rightarrow> gql_conn \<Rightarrow> batch_base \<Rightarrow> entity_limits \<Rightarrow> fields_dict \<Rightarrow> json list \<Rightarrow> kind list \<Rightarrow> preparation \<Rightarrow>
     gql_exn + preparation" where
  "prepare_kinds E C B L operation roots [] p = Inr p"
| "prepare_kinds E C B L operation roots (k # ks) p =
     bindR (prepare_kind E C B L operation roots k p) (prepare_kinds E C B L operation roots ks)"

definition prepare_entities ::
  "gql_env \<Rightarrow> gql_conn \<Rightarrow> batch_base \<Rightarrow> entity_limits \<Rightarrow> fields_dict \<Rightarrow> json list \<Rightarrow> gql_exn + preparation" where
  "prepare_entities E C B L operation roots =
     prepare_kinds E C B L operation roots all_kinds
       \<lparr>pp_items = [], pp_truncated = 0, pp_invalid = 0, pp_redactions = 0, pp_types = []\<rparr>"

section \<open>Links\<close>

record link =
  lk_source :: string
  lk_target :: string
  lk_type :: string
  lk_evidence :: "string option"

definition target_node_id ::
  "gql_env \<Rightarrow> gql_conn \<Rightarrow> string \<Rightarrow> string list \<Rightarrow> kind \<Rightarrow> json \<Rightarrow> string option" where
  "target_node_id E C key known k raw_id =
     (if is_unset_id raw_id then None
      else let t = entity_node_id E C key k raw_id in if t \<in> set known then Some t else None)"

definition kind_named :: "string \<Rightarrow> kind" where
  "kind_named s = (case List.find (\<lambda>k. kind_text k = s) all_kinds of None \<Rightarrow> HierarchyKind | Some k \<Rightarrow> k)"

definition parent_link ::
  "gql_env \<Rightarrow> gql_conn \<Rightarrow> string \<Rightarrow> string list \<Rightarrow> prepared \<Rightarrow> link option" where
  "parent_link E C key known i =
     (let m = it_mapping i;
          path = key_text E m ''parent_id_path'' [];
          raw = (if is_unset_id (it_parent i) \<and> path \<noteq> [] then dig_path (JObj (it_record i)) path else it_parent i);
          k = kind_named (map lower_char (key_text E m ''parent_kind'' ''hierarchy''))
      in map_option (\<lambda>t. \<lparr>lk_source = it_node_id i, lk_target = t,
             lk_type = safe_entity_type E ''PART_OF'' (get m ''parent_relation''), lk_evidence = None\<rparr>)
           (target_node_id E C key known k raw))"

definition application_link ::
  "gql_env \<Rightarrow> gql_conn \<Rightarrow> string \<Rightarrow> string list \<Rightarrow> prepared \<Rightarrow> link option" where
  "application_link E C key known i =
     (let m = it_mapping i; path = key_text E m ''application_id_path'' [] in
      if path = [] then None
      else map_option (\<lambda>t. \<lparr>lk_source = it_node_id i, lk_target = t,
             lk_type = safe_entity_type E ''DESCRIBES_APPLICATION'' (get m ''application_relation''), lk_evidence = None\<rparr>)
           (target_node_id E C key known ApplicationKind (dig_path (JObj (it_record i)) path)))"

definition application_endpoint ::
  "gql_env \<Rightarrow> gql_conn \<Rightarrow> string \<Rightarrow> string list \<Rightarrow> prepared \<Rightarrow> string \<Rightarrow> string option" where
  "application_endpoint E C key known i path_key =
     (let path = key_text E (it_mapping i) path_key [] in
      target_node_id E C key known ApplicationKind
        (if path = [] then JNull else dig_path (JObj (it_record i)) path))"

definition dependency_link ::
  "gql_env \<Rightarrow> gql_conn \<Rightarrow> string \<Rightarrow> string list \<Rightarrow> prepared \<Rightarrow> link option" where
  "dependency_link E C key known i =
     (case (application_endpoint E C key known i ''source_id_path'',
            application_endpoint E C key known i ''target_id_path'') of
        (Some s, Some t) \<Rightarrow>
          Some \<lparr>lk_source = s, lk_target = t,
            lk_type = safe_entity_type E ''DEPENDS_ON'' (get (it_mapping i) ''dependency_relation''),
            lk_evidence = Some (it_node_id i)\<rparr>
      | _ \<Rightarrow> None)"

definition entity_links ::
  "gql_env \<Rightarrow> gql_conn \<Rightarrow> string \<Rightarrow> string list \<Rightarrow> prepared \<Rightarrow> link list" where
  "entity_links E C key known i =
     opt_list (parent_link E C key known i) @ opt_list (application_link E C key known i)
     @ (if it_kind i = DependencyKind then opt_list (dependency_link E C key known i) else [])"

definition link_json :: "link \<Rightarrow> json" where
  "link_json l =
     JObj ([(''source'', JStr (lk_source l)), (''target'', JStr (lk_target l)), (''type'', JStr (lk_type l))]
       @ (case lk_evidence l of None \<Rightarrow> [] | Some e \<Rightarrow> [(''evidence'', JStr e)]))"

section \<open>Snapshots\<close>

definition flag :: "fields_dict \<Rightarrow> string \<Rightarrow> bool" where
  "flag operation key = truthy (get operation key)"

definition entity_provenance :: "string \<Rightarrow> fetch_diag option \<Rightarrow> fields_dict" where
  "entity_provenance profile_digest d =
     [(''profile_digest'', JStr profile_digest), (''privacy_gate'', JBool True), (''identity_scheme'', JStr ''hmac-sha256'')]
     @ (case d of
          None \<Rightarrow> []
        | Some x \<Rightarrow>
            [(''pages'', JInt (int (fd_pages x))), (''fallbacks'', JInt (int (fd_fallbacks x))),
             (''partial_errors'', JInt (int (fd_partial x)))])"

definition build_envelope ::
  "gql_env \<Rightarrow> gql_conn \<Rightarrow> batch_base \<Rightarrow> fetch_diag \<Rightarrow> string list \<Rightarrow> prepared \<Rightarrow> change" where
  "build_envelope E C B d known i =
     (let links = entity_links E C (bb_key B) known i;
          payload = (if links = [] then it_payload i
                     else dict_set ''_links'' (JArr (map link_json links)) (it_payload i))
      in governed_upsert E (gc_alias C) (bb_gov B) (it_node_id i) (it_version i) payload
           (entity_provenance (bb_profile B) (Some d)))"

definition documents_of :: "prepared list \<Rightarrow> source_document list" where
  "documents_of items = concat (map (\<lambda>i. opt_list (it_document i)) items)"

definition kind_counts :: "prepared list \<Rightarrow> (string \<times> nat) list" where
  "kind_counts items =
     filter (\<lambda>(k, n). 0 < n) (map (\<lambda>k. (kind_text k, length (filter (\<lambda>i. it_kind i = k) items))) all_kinds)"

definition hierarchy_snapshot ::
  "gql_env \<Rightarrow> gql_conn \<Rightarrow> fields_dict \<Rightarrow> fields_dict \<Rightarrow> json list \<times> fetch_diag \<Rightarrow> gql_exn + snapshot" where
  "hierarchy_snapshot E C profile operation fetched =
     (case fetched of (roots, d) \<Rightarrow>
        bindR (batch_base_of E C profile operation) (\<lambda>B.
        bindR (entity_limits_of C profile) (\<lambda>L.
        bindR (prepare_entities E C B L operation roots) (\<lambda>p.
          Inr \<lparr>sn_documents = documents_of (pp_items p),
            sn_changes = map (build_envelope E C B d (known_ids p)) (pp_items p),
            sn_versions = map (\<lambda>i. (it_node_id i, it_version i)) (pp_items p),
            sn_profile = bb_profile B,
            sn_diag = \<lparr>bd_fetch = d, bd_truncated = pp_truncated p, bd_invalid = pp_invalid p,
              bd_redactions = pp_redactions p, bd_types = sort (remdups (pp_types p)), bd_kinds = kind_counts (pp_items p)\<rparr>,
            sn_gov = bb_gov B, sn_authoritative = flag operation ''snapshot_authoritative'',
            sn_allow_empty = flag operation ''allow_empty_snapshot''\<rparr>))))"

text \<open>One record of an operation without mappings: the document with its version, or an invalid record.\<close>

definition document_version :: "gql_env \<Rightarrow> batch_base \<Rightarrow> source_document \<Rightarrow> string" where
  "document_version E B d =
     gql_digest E [JStr (if sd_updated d = [] then gql_digest E [JStr (sd_text d)] else sd_updated d),
       JStr (bb_profile B), JStr (bb_gov_digest B)]"

definition document_payload :: "gql_conn \<Rightarrow> source_document \<Rightarrow> fields_dict" where
  "document_payload C d =
     [(''id'', JStr (sd_entity_id d)), (''type'', JStr ''Document''), (''title'', JStr (sd_title d)),
      (''doc_type'', JStr (sd_doc_type d)), (''content_digest'', metadata_text d),
      (''source_alias'', JStr (gc_alias C)), (''source_kind'', JStr ''graphql''), (''embedding_handoff'', JBool True)]"

definition one_document ::
  "gql_env \<Rightarrow> gql_conn \<Rightarrow> batch_base \<Rightarrow> fields_dict \<Rightarrow> fields_dict \<Rightarrow> gql_exn + source_document option" where
  "one_document E C B operation rec =
     (let raw_id = record_id E operation rec in
      if is_unset_id raw_id then Inr None
      else bindR (render_document E C (bb_key B) (bb_profile B) (bb_gov B)
               (entity_node_id E C (bb_key B) DocumentKind raw_id) operation rec) (\<lambda>d.
             Inr (map_option (\<lambda>x. x\<lparr>sd_updated := document_version E B x\<rparr>) d)))"

definition root_records :: "json list \<Rightarrow> fields_dict list" where
  "root_records roots = objects_in (concat (map items_of roots))"

definition document_snapshot ::
  "gql_env \<Rightarrow> gql_conn \<Rightarrow> fields_dict \<Rightarrow> fields_dict \<Rightarrow> json list \<times> fetch_diag \<Rightarrow> gql_exn + snapshot" where
  "document_snapshot E C profile operation fetched =
     (case fetched of (roots, d) \<Rightarrow>
        bindR (batch_base_of E C profile operation) (\<lambda>B.
        bindR (effective_limit profile ''max_documents'' (gl_documents (gc_limits C)) 1 10000) (\<lambda>max_documents.
        let records = root_records roots in
        bindR (mapR (one_document E C B operation) (take (nat max_documents) records)) (\<lambda>rendered.
          let documents = concat (map opt_list rendered) in
          Inr \<lparr>sn_documents = documents,
            sn_changes = map (\<lambda>x. governed_upsert E (gc_alias C) (bb_gov B) (sd_entity_id x) (sd_updated x)
              (document_payload C x) (entity_provenance (bb_profile B) None)) documents,
            sn_versions = fold (\<lambda>x. dict_set (sd_entity_id x) (sd_updated x)) documents [],
            sn_profile = bb_profile B,
            sn_diag = \<lparr>bd_fetch = d, bd_truncated = length records - nat max_documents,
              bd_invalid = length (filter (\<lambda>x. x = None) rendered), bd_redactions = 0, bd_types = [], bd_kinds = []\<rparr>,
            sn_gov = bb_gov B, sn_authoritative = flag operation ''snapshot_authoritative'',
            sn_allow_empty = flag operation ''allow_empty_snapshot''\<rparr>))))"

end
