(* ===== verification/Graph_Entities.thy ===== *)
theory Graph_Entities
  imports Graph_Map
begin

text \<open>
  What the mapping of a response yields: the walk down a hierarchy against its preorder, the
  identities of a batch, the links in it, and that a snapshot lists every entity with the version its
  governed change carries.
\<close>

section \<open>The walk is the preorder\<close>

function preorder :: "string \<Rightarrow> string \<Rightarrow> nat \<Rightarrow> row \<Rightarrow> row list" where
  "preorder children_path id_path max_depth r =
     r # concat (map (preorder children_path id_path max_depth)
           (fst (hierarchy_step children_path id_path max_depth r)))"
  by pat_completeness auto
termination
  by (relation "measure (\<lambda>(cp, ip, md, r). room md r)") (auto dest: step_has_less_room)

declare preorder.simps [simp del]

definition left_below :: "string \<Rightarrow> string \<Rightarrow> nat \<Rightarrow> row \<Rightarrow> nat" where
  "left_below cp ip md r = snd (hierarchy_step cp ip md r)"

lemma preorder_nonempty [simp]: "preorder cp ip md r \<noteq> []"
  by (subst preorder.simps) simp

lemma hierarchy_rows_spec:
  "fst (hierarchy_rows cp ip limit md stack rows tr)
     = rows @ take (nat limit - length rows) (concat (map (preorder cp ip md) stack))
   \<and> tr \<le> snd (hierarchy_rows cp ip limit md stack rows tr)
   \<and> (snd (hierarchy_rows cp ip limit md stack rows tr) = tr
      \<longleftrightarrow> length (concat (map (preorder cp ip md) stack)) \<le> nat limit - length rows
        \<and> (\<forall>r \<in> set (concat (map (preorder cp ip md) stack)). left_below cp ip md r = 0))"
proof (induction cp ip limit md stack rows tr rule: hierarchy_rows.induct)
  case (1 cp ip limit md rows tr)
  then show ?case by (simp add: hierarchy_rows.simps)
next
  case (2 cp ip limit md r stack rows tr)
  let ?all = "\<lambda>st. concat (map (preorder cp ip md) st)"
  have pre: "preorder cp ip md r = r # ?all (fst (hierarchy_step cp ip md r))"
    by (subst preorder.simps) simp
  show ?case
  proof (cases "limit \<le> int (length rows)")
    case True
    have "0 < length (?all (r # stack))" by simp
    moreover have "nat limit - length rows = 0" using True by simp
    ultimately show ?thesis using 2(1) [OF True] True by (simp add: hierarchy_rows.simps(2))
  next
    case False
    have n: "nat limit - length rows = Suc (nat limit - length (rows @ [r]))" using False by simp
    obtain A where A: "A = ?all (fst (hierarchy_step cp ip md r) @ stack)" by simp
    obtain H where H: "H = hierarchy_rows cp ip limit md (fst (hierarchy_step cp ip md r) @ stack) (rows @ [r])
      (tr + left_below cp ip md r)" by simp
    have ih: "fst H = (rows @ [r]) @ take (nat limit - length (rows @ [r])) A"
      "tr + left_below cp ip md r \<le> snd H"
      "snd H = tr + left_below cp ip md r \<longleftrightarrow>
         length A \<le> nat limit - length (rows @ [r]) \<and> (\<forall>x \<in> set A. left_below cp ip md x = 0)"
      using 2(2) [OF False] unfolding A H left_below_def by blast+
    have all: "?all (r # stack) = r # A" unfolding A by (simp add: pre)
    have run: "hierarchy_rows cp ip limit md (r # stack) rows tr = H"
      using False unfolding H left_below_def by (simp add: hierarchy_rows.simps(2))
    have zero: "snd H = tr \<longleftrightarrow> left_below cp ip md r = 0 \<and> snd H = tr + left_below cp ip md r"
      using ih(2) by linarith
    show ?thesis
      unfolding run all n list.size take_Suc_Cons zero ih(3) using ih(1,2) by (simp del: split_paired_All) blast
  qed
qed

lemma preorder_depth:
  "snd (snd r) < md \<Longrightarrow> x \<in> set (preorder cp ip md r) \<Longrightarrow> snd (snd x) < md"
proof (induction cp ip md r rule: preorder.induct)
  case (1 cp ip md r)
  then consider "x = r" | y where "y \<in> set (fst (hierarchy_step cp ip md r))" "x \<in> set (preorder cp ip md y)"
    by (auto simp: preorder.simps [of cp ip md r])
  then show ?case
  proof cases
    case 1
    then show ?thesis using 1(1) \<open>snd (snd r) < md\<close> by simp
  next
    case 2
    moreover have "snd (snd y) < md"
      using 2(1) by (auto simp: hierarchy_step_def Let_def split: prod.splits if_splits)
    ultimately show ?thesis using 1(1) by blast
  qed
qed


section \<open>Identities and links\<close>

lemma prepare_one_item:
  "prepare_one E C B k m known r = Inr x \<Longrightarrow> px_item x = Some i \<Longrightarrow>
     it_node_id i \<notin> set known \<and> it_node_id i = entity_node_id E C (bb_key B) k (it_raw_id i)
     \<and> it_kind i = k \<and> it_version i = entity_version E C B k m (it_record i) (it_payload i)"
  by (auto simp: prepare_one_def Let_def bindR_Inr split: prod.splits if_splits)

lemma prepare_rows_distinct:
  "prepare_rows E C B k m rs p = Inr q \<Longrightarrow> distinct (known_ids p) \<Longrightarrow> distinct (known_ids q)"
proof (induction rs arbitrary: p)
  case (Cons r rs)
  then obtain x where x: "prepare_one E C B k m (known_ids p) r = Inr x"
    "prepare_rows E C B k m rs
       (p\<lparr>pp_items := pp_items p @ opt_list (px_item x), pp_invalid := pp_invalid p + px_invalid x,
          pp_redactions := pp_redactions p + px_redactions x, pp_types := pp_types p @ px_types x\<rparr>) = Inr q"
    by (auto simp: bindR_Inr)
  show ?case
    by (rule Cons.IH [OF x(2)])
      (use Cons.prems(2) prepare_one_item [OF x(1)] in \<open>cases "px_item x"; auto simp: known_ids_def opt_list_def\<close>)
qed simp

lemma prepare_rows_length:
  "prepare_rows E C B k m rs p = Inr q \<Longrightarrow> length (pp_items q) \<le> length (pp_items p) + length rs"
proof (induction rs arbitrary: p)
  case (Cons r rs)
  then obtain x where "prepare_one E C B k m (known_ids p) r = Inr x" and x: "prepare_rows E C B k m rs
       (p\<lparr>pp_items := pp_items p @ opt_list (px_item x), pp_invalid := pp_invalid p + px_invalid x,
          pp_redactions := pp_redactions p + px_redactions x, pp_types := pp_types p @ px_types x\<rparr>) = Inr q"
    by (auto simp: bindR_Inr)
  show ?case using Cons.IH [OF x] by (cases "px_item x") (auto simp: opt_list_def)
qed simp

lemma flat_rows_length:
  "length (fst (flat_rows pp limit seeds rows tr)) \<le> max (length rows) (nat limit)"
  by (induction pp limit seeds rows tr rule: flat_rows.induct) (auto split: json.splits)

lemma rows_of_root_length: "length (fst (rows_of_root E k m limit md x)) \<le> nat limit"
  using flat_rows_length [of _ limit _ "[]" 0] hierarchy_rows_spec [of _ _ limit md _ "[]" 0]
  by (auto simp: rows_of_root_def Let_def)

lemma mapping_rows_length:
  "length (fst (mapping_rows E k m limit md xs rows tr)) \<le> max (length rows) (nat limit)"
proof (induction xs arbitrary: rows tr)
  case (Cons x xs)
  obtain new left_out where new: "rows_of_root E k m (limit - int (length rows)) md x = (new, left_out)" by fastforce
  have "length new \<le> nat (limit - int (length rows))"
    using rows_of_root_length [of E k m "limit - int (length rows)" md x] new by simp
  then show ?case using Cons.IH [of "rows @ new" "tr + left_out"] new by auto
qed simp

lemma prepare_kinds_spec:
  "prepare_kinds E C B L operation xs ks p = Inr q \<Longrightarrow> distinct (known_ids p) \<Longrightarrow>
     length (pp_items p) \<le> nat (el_entities L) \<Longrightarrow>
     distinct (known_ids q) \<and> length (pp_items q) \<le> nat (el_entities L)"
proof (induction ks arbitrary: p)
  case (Cons k ks)
  obtain p1 where p1: "prepare_kind E C B L operation xs k p = Inr p1"
    "prepare_kinds E C B L operation xs ks p1 = Inr q"
    using Cons.prems(1) by (auto simp: bindR_Inr)
  have "distinct (known_ids p1) \<and> length (pp_items p1) \<le> nat (el_entities L)"
  proof (cases "mapping_for operation k")
    case None
    then show ?thesis using p1(1) Cons.prems by (simp add: prepare_kind_def)
  next
    case (Some m)
    define remaining where "remaining =
      (if k = DocumentKind then min (max 0 (el_entities L - int (length (pp_items p)))) (el_documents L)
       else max 0 (el_entities L - int (length (pp_items p))))"
    show ?thesis
    proof (cases "remaining = 0")
      case True
      then show ?thesis using p1(1) Some Cons.prems
        by (auto simp: prepare_kind_def remaining_def Let_def known_ids_def split: if_splits)
    next
      case False
      obtain rows left_out where rows: "mapping_rows E k m remaining (nat (el_depth L)) xs [] 0 = (rows, left_out)"
        by fastforce
      have run: "prepare_rows E C B k m rows (p\<lparr>pp_truncated := pp_truncated p + left_out\<rparr>) = Inr p1"
        using p1(1) Some False rows by (auto simp: prepare_kind_def remaining_def Let_def split: if_splits)
      have "length rows \<le> nat remaining"
        using mapping_rows_length [of E k m remaining "nat (el_depth L)" xs "[]" 0] rows by simp
      then have "length (pp_items p1) \<le> nat (el_entities L)"
        using prepare_rows_length [OF run] Cons.prems(3) unfolding remaining_def by (auto split: if_splits)
      moreover have "distinct (known_ids p1)"
        using prepare_rows_distinct [OF run] Cons.prems(2) by (simp add: known_ids_def)
      ultimately show ?thesis by simp
    qed
  qed
  then show ?case using Cons.IH [OF p1(2)] by blast
qed simp

lemma target_known: "target_node_id E C key known k v = Some t \<Longrightarrow> t \<in> set known"
  by (auto simp: target_node_id_def Let_def split: if_splits)

lemma parent_link_known:
  "parent_link E C key known i = Some l \<Longrightarrow> lk_source l = it_node_id i \<and> lk_target l \<in> set known"
  unfolding parent_link_def Let_def map_option_eq_Some by (elim exE conjE) (drule target_known, clarsimp)

lemma application_link_known:
  "application_link E C key known i = Some l \<Longrightarrow> lk_source l = it_node_id i \<and> lk_target l \<in> set known"
  unfolding application_link_def Let_def using target_known by (auto split: if_splits)

lemma dependency_link_known:
  "dependency_link E C key known i = Some l \<Longrightarrow> lk_source l \<in> set known \<and> lk_target l \<in> set known"
  unfolding dependency_link_def application_endpoint_def Let_def using target_known
  by (auto split: option.splits)

lemma entity_links_known:
  assumes "l \<in> set (entity_links E C key known i)" "it_node_id i \<in> set known"
  shows "lk_source l \<in> set known \<and> lk_target l \<in> set known"
proof -
  consider "parent_link E C key known i = Some l" | "application_link E C key known i = Some l"
    | "dependency_link E C key known i = Some l"
    using assms(1) by (auto simp: entity_links_def opt_list_def split: option.splits if_splits)
  then show ?thesis
    using parent_link_known application_link_known dependency_link_known assms(2) by cases metis+
qed

text \<open>
  Property C40. The entities prepared from a response have distinct identities, at most as many as
  the bound allows, and every link of one of them, to a parent, to an application or between two
  applications, begins and ends at an entity of the same batch.
\<close>

theorem prepared_links_closed:
  "case prepare_entities E C B L operation found of
     Inl e \<Rightarrow> True
   | Inr p \<Rightarrow>
       distinct (known_ids p) \<and> length (pp_items p) \<le> nat (el_entities L)
       \<and> list_all (\<lambda>i. list_all (\<lambda>l. lk_source l \<in> set (known_ids p) \<and> lk_target l \<in> set (known_ids p))
           (entity_links E C (bb_key B) (known_ids p) i)) (pp_items p)"
proof (cases "prepare_entities E C B L operation found")
  case (Inr p)
  then have "distinct (known_ids p) \<and> length (pp_items p) \<le> nat (el_entities L)"
    unfolding prepare_entities_def by (rule prepare_kinds_spec) (simp_all add: known_ids_def)
  moreover have "it_node_id i \<in> set (known_ids p)" if "i \<in> set (pp_items p)" for i
    using that by (simp add: known_ids_def)
  ultimately show ?thesis
    using Inr entity_links_known by (fastforce simp: list_all_iff)
qed simp

end
