(* ===== verification/Graph_Connector.thy ===== *)
theory Graph_Connector
  imports Graph_Map
begin

text \<open>
  The operations of the GraphQL document connector (\<^verbatim>\<open>graphql_document.py\<close>, \<^verbatim>\<open>base.py\<close>): one bounded
  read mapped and reconciled, and the ways to ask for it: a load, a plan, a poll for documents or for
  governed changes, and the drain loop over polls. What the connector remembers of the last call is
  part of its state.
\<close>

record plan_report =
  pl_alias :: string
  pl_operation :: string
  pl_profile :: json
  pl_checkpoint :: "string option"
  pl_diag :: "final_diag option"

record 'w connector_state =
  cs_net :: "'w gql_state"
  cs_last_changes :: "change list"
  cs_last_checkpoint :: "checkpoint option"
  cs_last_plan :: "plan_report option"

type_synonym ('w, 'a) conn_prog = "('w connector_state, gql_exn, 'a) prog"

definition on_net :: "('w, 'a) gql_prog \<Rightarrow> ('w, 'a) conn_prog" where
  "on_net m s = (case m (cs_net s) of (r, n) \<Rightarrow> (r, s\<lparr>cs_net := n\<rparr>))"

definition snapshot_of ::
  "'w gql_ports \<Rightarrow> gql_conn \<Rightarrow> fields_dict \<Rightarrow> fields_dict \<Rightarrow> json list \<times> fetch_diag \<Rightarrow> gql_exn + snapshot" where
  "snapshot_of P C profile operation fetched =
     (case get operation ''mappings'' of
        JObj ms \<Rightarrow> hierarchy_snapshot (gp_env P) C profile operation fetched
      | _ \<Rightarrow> document_snapshot (gp_env P) C profile operation fetched)"

definition read_snapshot :: "'w gql_ports \<Rightarrow> gql_conn \<Rightarrow> ('w, snapshot) gql_prog" where
  "read_snapshot P C =
     bindP (resolve_profile P C) (\<lambda>(profile, operation).
     bindP (fetch_roots P C profile operation) (\<lambda>fetched.
       liftP (snapshot_of P C profile operation fetched)))"

definition build_batch :: "'w gql_ports \<Rightarrow> gql_conn \<Rightarrow> checkpoint option \<Rightarrow> ('w, graph_batch) gql_prog" where
  "build_batch P C ck =
     bindP (read_snapshot P C) (\<lambda>sn. liftP (reconcile (gp_env P) C ck sn))"

definition remember :: "graph_batch \<Rightarrow> change list \<Rightarrow> ('w, unit) conn_prog" where
  "remember b changes =
     modifyP (\<lambda>s. s\<lparr>cs_last_changes := changes, cs_last_checkpoint := Some (gb_checkpoint b)\<rparr>)"

definition plan_report_of :: "gql_conn \<Rightarrow> graph_batch \<Rightarrow> plan_report" where
  "plan_report_of C b =
     \<lparr>pl_alias = gc_alias C, pl_operation = gc_operation C,
      pl_profile = get (ck_state (gb_checkpoint b)) ''profile_digest'',
      pl_checkpoint = ck_watermark (gb_checkpoint b), pl_diag = gb_diag b\<rparr>"

definition report_plan :: "gql_conn \<Rightarrow> graph_batch \<Rightarrow> ('w, plan_report) conn_prog" where
  "report_plan C b =
     thenP (remember b []) (thenP (modifyP (\<lambda>s. s\<lparr>cs_last_plan := Some (plan_report_of C b)\<rparr>))
       (returnP (plan_report_of C b)))"

definition plan_read :: "'w gql_ports \<Rightarrow> gql_conn \<Rightarrow> checkpoint option \<Rightarrow> ('w, plan_report) conn_prog" where
  "plan_read P C ck = bindP (on_net (build_batch P C ck)) (report_plan C)"

definition load_documents :: "'w gql_ports \<Rightarrow> gql_conn \<Rightarrow> ('w, source_document list) conn_prog" where
  "load_documents P C =
     (if gc_dry_run C then bindP (plan_read P C None) (\<lambda>_. returnP [])
      else bindP (on_net (build_batch P C None)) (\<lambda>b.
        thenP (remember b (gb_changes b)) (returnP (gb_documents b))))"

definition load_envelopes :: "'w gql_ports \<Rightarrow> gql_conn \<Rightarrow> ('w, change list) conn_prog" where
  "load_envelopes P C =
     (if gc_dry_run C then bindP (plan_read P C None) (\<lambda>_. returnP [])
      else bindP (on_net (build_batch P C None)) (\<lambda>b.
        thenP (remember b (gb_changes b)) (returnP (gb_changes b))))"

definition poll :: "'w gql_ports \<Rightarrow> gql_conn \<Rightarrow> checkpoint option \<Rightarrow> ('w, source_document list \<times> checkpoint) conn_prog" where
  "poll P C ck =
     bindP (on_net (build_batch P C ck)) (\<lambda>b.
       if gc_dry_run C
       then bindP (report_plan C b) (\<lambda>_. returnP ([], gb_checkpoint b))
       else thenP (remember b (gb_changes b)) (returnP (gb_documents b, gb_checkpoint b)))"

definition poll_envelopes :: "'w gql_ports \<Rightarrow> gql_conn \<Rightarrow> checkpoint option \<Rightarrow> ('w, graph_batch) conn_prog" where
  "poll_envelopes P C ck =
     bindP (on_net (build_batch P C ck)) (\<lambda>b.
       if gc_dry_run C
       then bindP (report_plan C b) (\<lambda>_.
         returnP \<lparr>gb_documents = [], gb_changes = [], gb_checkpoint = gb_checkpoint b, gb_diag = gb_diag b\<rparr>)
       else thenP (remember b (gb_changes b)) (returnP b))"

text \<open>\<open>poll_all\<close>: the drain loop of every polling connector, with its bound on batches.\<close>

fun poll_all ::
  "'w gql_ports \<Rightarrow> gql_conn \<Rightarrow> nat \<Rightarrow> checkpoint option \<Rightarrow> source_document list \<Rightarrow> ('w, source_document list) conn_prog" where
  "poll_all P C 0 ck docs = returnP docs"
| "poll_all P C (Suc n) ck docs =
     bindP (poll P C ck) (\<lambda>(ds, next).
       thenP (modifyP (\<lambda>s. s\<lparr>cs_last_checkpoint := Some next\<rparr>))
         (if ck_has_more next then poll_all P C n (Some next) (docs @ ds) else returnP (docs @ ds)))"

definition health_check :: "'w gql_ports \<Rightarrow> gql_conn \<Rightarrow> ('w, bool) conn_prog" where
  "health_check P C s =
     (case resolve_profile P C (cs_net s) of (r, n) \<Rightarrow>
        (Inr (case r of Inl e \<Rightarrow> False | Inr x \<Rightarrow> True), s\<lparr>cs_net := n\<rparr>))"

end
