(* ===== verification/Graph_Mirror.thy ===== *)
theory Graph_Mirror
  imports Graph_Entities Graph_Connector
begin

text \<open>
  The governed changes of a history of polls against what the source showed: a store that applies
  them has, after every poll, the entities of the snapshot in their present versions. The store is
  the mirror, versions by identity.
\<close>

section \<open>The mirror\<close>

type_synonym mirror = "string \<Rightarrow> string option"

definition property_text :: "fields_dict \<Rightarrow> string \<Rightarrow> string" where
  "property_text ps key = (case get ps key of JStr t \<Rightarrow> t | _ \<Rightarrow> [])"

fun apply_change :: "change \<Rightarrow> mirror \<Rightarrow> mirror" where
  "apply_change (Upsert i t ps) m = m(i \<mapsto> property_text ps ''source_version'')"
| "apply_change (Withdraw i reason) m = m(i := None)"

definition is_upsert :: "change \<Rightarrow> bool" where
  "is_upsert c = (case c of Upsert i t ps \<Rightarrow> True | Withdraw i r \<Rightarrow> False)"

text \<open>A snapshot that lists exactly its upserts, each in the version it carries.\<close>

definition faithful :: "snapshot \<Rightarrow> bool" where
  "faithful sn \<longleftrightarrow>
     list_all is_upsert (sn_changes sn) \<and> well_keyed (sn_versions sn)
     \<and> fold apply_change (sn_changes sn) Map.empty = map_of (sn_versions sn)
     \<and> (\<forall>(i, v) \<in> set (sn_versions sn). i \<noteq> [] \<and> v \<noteq> [])"

lemma fold_apply_other:
  "list_all (\<lambda>c. change_id c \<noteq> i) cs \<Longrightarrow> fold apply_change cs m i = m i"
proof (induction cs arbitrary: m)
  case (Cons c cs)
  then show ?case by (cases c) auto
qed simp

lemma fold_upserts_at:
  "list_all is_upsert cs \<Longrightarrow>
     fold apply_change cs m i = (case fold apply_change cs Map.empty i of None \<Rightarrow> m i | Some v \<Rightarrow> Some v)"
proof (induction cs rule: rev_induct)
  case (snoc c cs)
  then show ?case by (cases c) (auto simp: is_upsert_def)
qed simp

lemma fold_filter_at:
  assumes "list_all is_upsert cs"
  shows "fold apply_change (filter (\<lambda>c. change_id c \<in> S) cs) Map.empty i
    = (if i \<in> S then fold apply_change cs Map.empty i else None)"
  using assms
proof (induction cs rule: rev_induct)
  case (snoc c cs)
  then show ?case by (cases c) (auto simp: is_upsert_def)
qed simp

lemma fold_withdrawals:
  "fold apply_change (map (\<lambda>i. withdrawal i (f i)) xs) m i = (if i \<in> set xs then None else m i)"
  by (induction xs arbitrary: m) (auto simp: withdrawal_def)

lemma map_of_Some_key: "map_of d i = Some v \<Longrightarrow> i \<in> fst ` set d"
  by (metis domI dom_map_of_conv_image_fst)

section \<open>One reconciliation\<close>

lemma version_texts_map:
  "version_texts d = Inr e \<Longrightarrow> map fst e = map fst d \<and> (\<forall>(i, v) \<in> set e. i \<noteq> [] \<and> v \<noteq> [])
     \<and> (\<forall>i v. map_of e i = Some v \<longleftrightarrow> map_of d i = Some (JStr v))"
proof (induction d arbitrary: e rule: version_texts.induct)
  case (2 i v d)
  then obtain t rest where "v = JStr t" "i \<noteq> []" "t \<noteq> []" "version_texts d = Inr rest" "e = (i, t) # rest"
    by (auto simp: bindR_Inr andR_Inr refuse_if_Inr split: json.splits)
  then show ?case using 2(1) by (auto simp: bindR_Inr)
qed simp

lemma version_texts_written:
  "(\<forall>(i, v) \<in> set d. i \<noteq> [] \<and> v \<noteq> []) \<Longrightarrow> version_texts (map (\<lambda>(i, v). (i, JStr v)) d) = Inr d"
  by (induction d) (auto simp: andR_Inr)

lemma sorted_versions_map: "well_keyed d \<Longrightarrow> map_of (sorted_versions d) = map_of d"
  unfolding sorted_versions_def well_keyed_def
  by (rule map_of_eqI) (auto simp: distinct_map inj_on_def)

text \<open>What the keeper of a checkpoint hands back: the versions of the snapshot it was made from.\<close>

definition baseline_of :: "checkpoint option \<Rightarrow> (string, string) dict" where
  "baseline_of ck =
     (case get (prior_state_of ck) ''versions'' of
        JObj d \<Rightarrow> (case version_texts d of Inl e \<Rightarrow> [] | Inr e \<Rightarrow> e)
      | _ \<Rightarrow> [])"

lemma reconcile_parts:
  assumes "reconcile E C ck sn = Inr b"
  obtains sequence tombstones where
    "validate_baseline C (prior_state_of ck) = Inr (baseline_of ck)"
    "validate_sequence (prior_state_of ck) = Inr sequence"
    "validate_completeness sn (baseline_of ck) = Inr ()"
    "build_tombstones E C sn (prior_state_of ck) (baseline_of ck) sequence = Inr tombstones"
    "gb_changes b = filter (\<lambda>c. change_id c \<in> set (changed_ids sn (prior_state_of ck) (baseline_of ck))) (sn_changes sn)
      @ tombstones"
    "gb_documents b =
      filter (\<lambda>d. sd_entity_id d \<in> set (changed_ids sn (prior_state_of ck) (baseline_of ck))) (sn_documents sn)"
    "gb_checkpoint b = next_checkpoint E C sn (prior_state_of ck) (baseline_of ck) sequence"
proof -
  from assms obtain baseline sequence tombstones where parts:
    "validate_baseline C (prior_state_of ck) = Inr baseline"
    "validate_sequence (prior_state_of ck) = Inr sequence"
    "validate_completeness sn baseline = Inr ()"
    "build_tombstones E C sn (prior_state_of ck) baseline sequence = Inr tombstones"
    "gb_changes b = filter (\<lambda>c. change_id c \<in> set (changed_ids sn (prior_state_of ck) baseline)) (sn_changes sn)
      @ tombstones"
    "gb_documents b = filter (\<lambda>d. sd_entity_id d \<in> set (changed_ids sn (prior_state_of ck) baseline)) (sn_documents sn)"
    "gb_checkpoint b = next_checkpoint E C sn (prior_state_of ck) baseline sequence"
    by (auto simp: reconcile_def Let_def bindR_Inr andR_Inr)
  have "baseline_of ck = baseline"
    using parts(1) by (auto simp: validate_baseline_def baseline_of_def Let_def andR_Inr split: json.splits)
  then show thesis using that parts by blast
qed

lemma next_baseline:
  assumes "faithful sn"
  shows "map_of (baseline_of (Some (next_checkpoint E C sn prior baseline sequence))) = map_of (sn_versions sn)"
proof -
  have "\<forall>(i, v) \<in> set (sorted_versions (sn_versions sn)). i \<noteq> [] \<and> v \<noteq> []"
    using assms by (auto simp: faithful_def sorted_versions_def)
  then have "baseline_of (Some (next_checkpoint E C sn prior baseline sequence)) = sorted_versions (sn_versions sn)"
    using version_texts_written
    by (simp add: baseline_of_def prior_state_of_def next_checkpoint_def Let_def get_def)
  then show ?thesis using assms by (simp add: sorted_versions_map faithful_def)
qed

text \<open>
  What a snapshot does to a mirror: what it shows is taken over; what the snapshot \<open>before\<close> it showed
  and it does not goes if it is authoritative; everything else stays.
\<close>

definition taken_over :: "snapshot \<Rightarrow> mirror \<Rightarrow> mirror \<Rightarrow> mirror" where
  "taken_over sn before m i =
     (case map_of (sn_versions sn) i of
        Some v \<Rightarrow> Some v
      | None \<Rightarrow> if sn_authoritative sn \<and> before i \<noteq> None then None else m i)"

lemma reconcile_mirrors:
  assumes "reconcile E C ck sn = Inr b" "faithful sn" "map_of (baseline_of ck) \<subseteq>\<^sub>m m"
  shows "fold apply_change (gb_changes b) m = taken_over sn (map_of (baseline_of ck)) m"
proof -
  obtain sequence tombstones where parts:
    "build_tombstones E C sn (prior_state_of ck) (baseline_of ck) sequence = Inr tombstones"
    "gb_changes b = filter (\<lambda>c. change_id c \<in> set (changed_ids sn (prior_state_of ck) (baseline_of ck))) (sn_changes sn)
      @ tombstones"
    using assms(1) by (rule reconcile_parts)
  let ?S = "set (changed_ids sn (prior_state_of ck) (baseline_of ck))"
  let ?V = "map_of (sn_versions sn)"
  have ups: "list_all is_upsert (sn_changes sn)" and all: "fold apply_change (sn_changes sn) Map.empty = ?V"
    and ne: "\<And>i v. ?V i = Some v \<Longrightarrow> v \<noteq> []"
    using assms(2) by (auto simp: faithful_def dest: map_of_SomeD)
  have S: "i \<in> ?S \<longleftrightarrow> entity_changed sn (prior_state_of ck) (baseline_of ck) i" for i
    unfolding changed_ids_def by (auto simp: entity_changed_def split: option.splits intro: map_of_Some_key)
  have sent: "fold apply_change (filter (\<lambda>c. change_id c \<in> ?S) (sn_changes sn)) m i
      = (if i \<in> ?S then ?V i else m i)" for i
  proof -
    have "list_all is_upsert (filter (\<lambda>c. change_id c \<in> ?S) (sn_changes sn))"
      using ups by (auto simp: list_all_iff)
    then have "fold apply_change (filter (\<lambda>c. change_id c \<in> ?S) (sn_changes sn)) m i
        = (case (if i \<in> ?S then ?V i else None) of None \<Rightarrow> m i | Some v \<Rightarrow> Some v)"
      using fold_upserts_at [of "filter (\<lambda>c. change_id c \<in> ?S) (sn_changes sn)" m i]
        fold_filter_at [OF ups, of ?S i] all by simp
    moreover have "i \<in> ?S \<Longrightarrow> ?V i \<noteq> None" unfolding S by (auto simp: entity_changed_def split: option.splits)
    ultimately show ?thesis by auto
  qed
  have unsent: "m i = ?V i" if "i \<notin> ?S" "?V i \<noteq> None" for i
  proof -
    obtain v where v: "?V i = Some v" using \<open>?V i \<noteq> None\<close> by auto
    then have "map_of (baseline_of ck) i = Some v"
      using \<open>i \<notin> ?S\<close> ne [OF v] unfolding S by (auto simp: entity_changed_def split: option.splits)
    then show ?thesis using assms(3) v by (metis domI map_le_def)
  qed
  have gone: "fold apply_change tombstones m' i
      = (if sn_authoritative sn \<and> i \<in> set (missing_ids (baseline_of ck) (sn_versions sn)) then None else m' i)" for m' i
    using parts(1) by (auto simp: build_tombstones_def Let_def andR_Inr fold_withdrawals split: if_splits)
  have missing: "i \<in> set (missing_ids (baseline_of ck) (sn_versions sn)) \<longleftrightarrow>
      ?V i = None \<and> map_of (baseline_of ck) i \<noteq> None" for i
    by (auto simp: missing_ids_def map_of_eq_None_iff)
  show ?thesis
  proof
    fix i
    have "i \<in> ?S \<Longrightarrow> ?V i \<noteq> None" unfolding S by (auto simp: entity_changed_def split: option.splits)
    then show "fold apply_change (gb_changes b) m i = taken_over sn (map_of (baseline_of ck)) m i"
      using sent [of i] missing [of i] unsent [of i]
      unfolding parts(2) by (auto simp: gone taken_over_def split: option.splits)
  qed
qed

section \<open>The snapshots of the connector are faithful\<close>

lemma node_id_nonempty: "entity_node_id E C key k v \<noteq> []"
  by (simp add: entity_node_id_def Let_def)

lemma upsert_version:
  "apply_change (governed_upsert E alias gov i v payload prov) m = m(i \<mapsto> v)"
  by (simp add: governed_upsert_def property_text_def get_def dict_update_lookup well_keyed_def access_properties_def)

lemma upsert_is_upsert [simp]: "is_upsert (governed_upsert E alias gov i v payload prov)"
  by (simp add: is_upsert_def governed_upsert_def)

lemma fold_upserts:
  "fold apply_change (map (\<lambda>x. governed_upsert E alias gov (f x) (g x) (h x) (p x)) xs) m
     = fold (\<lambda>x m. m(f x \<mapsto> g x)) xs m"
  by (induction xs arbitrary: m) (simp_all add: upsert_version)

lemma fold_dict_set_map: "map_of (fold (\<lambda>x. dict_set (f x) (g x)) xs d) = fold (\<lambda>x m. m(f x \<mapsto> g x)) xs (map_of d)"
  by (induction xs arbitrary: d) simp_all

lemma fold_dict_set_keyed: "well_keyed d \<Longrightarrow> well_keyed (fold (\<lambda>x. dict_set (f x) (g x)) xs d)"
  by (induction xs arbitrary: d) simp_all

lemma fold_dict_set_entries:
  "p \<in> set (fold (\<lambda>x. dict_set (f x) (g x)) xs d) \<Longrightarrow> p \<in> set d \<or> p \<in> (\<lambda>x. (f x, g x)) ` set xs"
proof (induction xs arbitrary: d)
  case (Cons x xs)
  have "p \<in> set (dict_set k v d) \<Longrightarrow> p = (k, v) \<or> p \<in> set d" for k v
    by (induction k v d rule: dict_set.induct) (auto split: if_splits)
  then show ?case using Cons by force
qed simp

lemma fold_updates_map:
  "distinct (map f xs) \<Longrightarrow> fold (\<lambda>x m. m(f x \<mapsto> g x)) xs m = m ++ map_of (map (\<lambda>x. (f x, g x)) xs)"
proof (induction xs arbitrary: m)
  case (Cons x xs)
  then have "map_of (map (\<lambda>x. (f x, g x)) xs) (f x) = None" by (auto simp: map_of_eq_None_iff)
  then show ?case using Cons by (auto simp: map_add_def fun_eq_iff split: option.splits)
qed simp

definition versioned :: "prepared \<Rightarrow> bool" where
  "versioned i \<longleftrightarrow> it_node_id i \<noteq> [] \<and> it_version i \<noteq> []"

lemma prepare_rows_versioned:
  "prepare_rows E C B k m rs p = Inr q \<Longrightarrow> list_all versioned (pp_items p) \<Longrightarrow>
     list_all versioned (pp_items q)"
proof (induction rs arbitrary: p)
  case (Cons r rs)
  then obtain x where x: "prepare_one E C B k m (known_ids p) r = Inr x"
    "prepare_rows E C B k m rs
       (p\<lparr>pp_items := pp_items p @ opt_list (px_item x), pp_invalid := pp_invalid p + px_invalid x,
          pp_redactions := pp_redactions p + px_redactions x, pp_types := pp_types p @ px_types x\<rparr>) = Inr q"
    by (auto simp: bindR_Inr)
  have "versioned i" if "px_item x = Some i" for i
    using prepare_one_item [OF x(1) that] node_id_nonempty 
    by (simp add: versioned_def entity_version_def Let_def)
  then show ?case using Cons.IH [OF x(2)] Cons.prems(2)
    by (cases "px_item x") (auto simp: opt_list_def)
qed simp

lemma prepare_kinds_versioned:
  "prepare_kinds E C B L operation xs ks p = Inr q \<Longrightarrow> list_all versioned (pp_items p) \<Longrightarrow>
     list_all versioned (pp_items q)"
proof (induction ks arbitrary: p)
  case (Cons k ks)
  then obtain p1 where p1: "prepare_kind E C B L operation xs k p = Inr p1"
    "prepare_kinds E C B L operation xs ks p1 = Inr q"
    by (auto simp: bindR_Inr)
  have "list_all versioned (pp_items p1)"
    using p1(1) Cons.prems(2) prepare_rows_versioned
    by (fastforce simp: prepare_kind_def Let_def split: option.splits if_splits prod.splits)
  then show ?case using Cons.IH [OF p1(2)] by blast
qed simp

lemma hierarchy_faithful:
  assumes "hierarchy_snapshot E C profile operation fetched = Inr sn"
  shows "faithful sn"
proof -
  obtain xs d where fetched: "fetched = (xs, d)" by fastforce
  obtain B L p where p: "batch_base_of E C profile operation = Inr B" "entity_limits_of C profile = Inr L"
    "prepare_entities E C B L operation xs = Inr p"
    and sn: "sn_changes sn = map (build_envelope E C B d (known_ids p)) (pp_items p)"
    "sn_versions sn = map (\<lambda>i. (it_node_id i, it_version i)) (pp_items p)"
    using assms fetched by (auto simp: hierarchy_snapshot_def bindR_Inr)
  have "distinct (known_ids p)"
    using p(3) prepare_kinds_spec [of E C B L operation xs all_kinds _ p]
    unfolding prepare_entities_def by (simp add: known_ids_def)
  then have dist: "distinct (map it_node_id (pp_items p))" by (simp add: known_ids_def)
  have all: "list_all versioned (pp_items p)"
    using prepare_kinds_versioned p(3) unfolding prepare_entities_def by fastforce
  have "fold apply_change (sn_changes sn) Map.empty = map_of (sn_versions sn)"
    using fold_updates_map [OF dist, of it_version Map.empty]
    unfolding sn build_envelope_def Let_def fold_upserts by simp
  then show ?thesis
    using all dist unfolding faithful_def sn
    by (auto simp: well_keyed_def list_all_iff build_envelope_def Let_def versioned_def comp_def)
qed

lemma document_rendered:
  assumes "one_document E C B operation rec = Inr (Some d)"
  shows "sd_entity_id d \<noteq> [] \<and> sd_updated d \<noteq> []"
  using assms node_id_nonempty
  by (auto simp: one_document_def Let_def bindR_Inr render_document_def document_version_def
      split: if_splits option.splits prod.splits)

lemma mapR_answers: "mapR f xs = Inr ys \<Longrightarrow> y \<in> set ys \<Longrightarrow> \<exists>x. f x = Inr y"
  unfolding mapR_Inr_iff by (induction rule: list_all2_induct) auto

lemma document_faithful:
  assumes "document_snapshot E C profile operation fetched = Inr sn"
  shows "faithful sn"
proof -
  obtain xs d where fetched: "fetched = (xs, d)" by fastforce
  obtain B n rendered where r: "mapR (one_document E C B operation) (take (nat n) (root_records xs)) = Inr rendered"
    and sn: "sn_changes sn = map (\<lambda>x. governed_upsert E (gc_alias C) (bb_gov B) (sd_entity_id x) (sd_updated x)
        (document_payload C x) (entity_provenance (bb_profile B) None)) (concat (map opt_list rendered))"
      "sn_versions sn = fold (\<lambda>x. dict_set (sd_entity_id x) (sd_updated x)) (concat (map opt_list rendered)) []"
    using assms fetched by (auto simp: document_snapshot_def Let_def bindR_Inr)
  have docs: "sd_entity_id x \<noteq> [] \<and> sd_updated x \<noteq> []" if "x \<in> set (concat (map opt_list rendered))" for x
  proof -
    have "Some x \<in> set rendered" using that by (auto simp: opt_list_def split: option.splits)
    then obtain rec where "one_document E C B operation rec = Inr (Some x)"
      using mapR_answers [OF r] by blast
    then show ?thesis by (rule document_rendered)
  qed
  have "i \<noteq> [] \<and> v \<noteq> []" if "(i, v) \<in> set (sn_versions sn)" for i v
    using fold_dict_set_entries [OF that [unfolded sn]] docs by auto
  moreover have "fold apply_change (sn_changes sn) Map.empty = map_of (sn_versions sn)"
    unfolding sn fold_upserts fold_dict_set_map by simp
  moreover have "well_keyed (sn_versions sn)"
    unfolding sn by (rule fold_dict_set_keyed) (simp add: well_keyed_def)
  moreover have "list_all is_upsert (sn_changes sn)" unfolding sn by (simp add: list_all_iff)
  ultimately show ?thesis by (auto simp: faithful_def)
qed

section \<open>Readers of snapshots\<close>

text \<open>What the reconciliation relies on: a reader lists exactly what it sends.\<close>

locale snapshot_reader =
  fixes snap :: "gql_env \<Rightarrow> gql_conn \<Rightarrow> fields_dict \<Rightarrow> fields_dict \<Rightarrow> json list \<times> fetch_diag \<Rightarrow> gql_exn + snapshot"
  assumes reads_faithfully: "snap E C profile operation fetched = Inr sn \<Longrightarrow> faithful sn"
begin

lemma read_mirrors:
  assumes "snap E C profile operation fetched = Inr sn" "reconcile E C ck sn = Inr b"
    and "map_of (baseline_of ck) \<subseteq>\<^sub>m m"
  shows "fold apply_change (gb_changes b) m = taken_over sn (map_of (baseline_of ck)) m"
    and "map_of (baseline_of (Some (gb_checkpoint b))) = map_of (sn_versions sn)"
proof -
  have f: "faithful sn" by (rule reads_faithfully [OF assms(1)])
  show "fold apply_change (gb_changes b) m = taken_over sn (map_of (baseline_of ck)) m"
    by (rule reconcile_mirrors [OF assms(2) f assms(3)])
  show "map_of (baseline_of (Some (gb_checkpoint b))) = map_of (sn_versions sn)"
    using assms(2) by (rule reconcile_parts) (simp add: next_baseline [OF f])
qed

end

definition read_by_mapping ::
  "gql_env \<Rightarrow> gql_conn \<Rightarrow> fields_dict \<Rightarrow> fields_dict \<Rightarrow> json list \<times> fetch_diag \<Rightarrow> gql_exn + snapshot" where
  "read_by_mapping E C profile operation fetched =
     (case get operation ''mappings'' of
        JObj ms \<Rightarrow> hierarchy_snapshot E C profile operation fetched
      | _ \<Rightarrow> document_snapshot E C profile operation fetched)"

lemma snapshot_of_reads: "snapshot_of P C profile operation fetched = read_by_mapping (gp_env P) C profile operation fetched"
  by (simp add: snapshot_of_def read_by_mapping_def)

interpretation hierarchies: snapshot_reader hierarchy_snapshot
  by unfold_locales (rule hierarchy_faithful)

interpretation documents: snapshot_reader document_snapshot
  by unfold_locales (rule document_faithful)

interpretation mapped: snapshot_reader read_by_mapping
  by unfold_locales
    (auto simp: read_by_mapping_def split: json.splits intro: hierarchies.reads_faithfully documents.reads_faithfully)

section \<open>A history of polls\<close>

record 'w mirror_run =
  mr_net :: "'w gql_state"
  mr_ck :: "checkpoint option"
  mr_mirror :: mirror
  mr_shown :: "snapshot list"

definition mirror_start :: "'w gql_state \<Rightarrow> 'w mirror_run" where
  "mirror_start s = \<lparr>mr_net = s, mr_ck = None, mr_mirror = Map.empty, mr_shown = []\<rparr>"

text \<open>
  The world moves on, the connector polls from its last checkpoint, and what it sends is applied.
  The snapshots that were reconciled are kept, the last one first.
\<close>

definition poll_once :: "'w gql_ports \<Rightarrow> gql_conn \<Rightarrow> ('w \<Rightarrow> 'w) \<Rightarrow> 'w mirror_run \<Rightarrow> 'w mirror_run" where
  "poll_once P C f r =
     (let s = (mr_net r)\<lparr>gs_world := f (gs_world (mr_net r))\<rparr> in
      case read_snapshot P C s of
        (Inl e, t) \<Rightarrow> r\<lparr>mr_net := t\<rparr>
      | (Inr sn, t) \<Rightarrow>
          (case reconcile (gp_env P) C (mr_ck r) sn of
             Inl e \<Rightarrow> r\<lparr>mr_net := t\<rparr>
           | Inr b \<Rightarrow>
               r\<lparr>mr_net := t, mr_ck := Some (gb_checkpoint b),
                 mr_mirror := fold apply_change (gb_changes b) (mr_mirror r), mr_shown := sn # mr_shown r\<rparr>))"

text \<open>What a history of snapshots, the last one first, leaves behind.\<close>

definition shown_in :: "snapshot list \<Rightarrow> mirror" where
  "shown_in sns = (case sns of [] \<Rightarrow> Map.empty | sn # older \<Rightarrow> map_of (sn_versions sn))"

fun left_by :: "snapshot list \<Rightarrow> mirror" where
  "left_by [] = Map.empty"
| "left_by (sn # older) = taken_over sn (shown_in older) (left_by older)"

definition mirrors :: "'w mirror_run \<Rightarrow> bool" where
  "mirrors r \<longleftrightarrow>
     map_of (baseline_of (mr_ck r)) = shown_in (mr_shown r) \<and> mr_mirror r = left_by (mr_shown r)"

lemma shown_is_left: "shown_in sns \<subseteq>\<^sub>m left_by sns"
  by (cases sns) (auto simp: shown_in_def taken_over_def map_le_def dom_def)

lemma authoritative_left: "list_all sn_authoritative sns \<Longrightarrow> left_by sns = shown_in sns"
  by (induction sns) (auto simp: shown_in_def taken_over_def fun_eq_iff split: option.splits)

lemma poll_once_mirrors:
  assumes "mirrors r"
  shows "mirrors (poll_once P C f r)"
proof -
  define s where "s = (mr_net r)\<lparr>gs_world := f (gs_world (mr_net r))\<rparr>"
  obtain q t where q: "read_snapshot P C s = (q, t)" by fastforce
  show ?thesis
  proof (cases q)
    case (Inl e)
    then show ?thesis using q assms by (simp add: poll_once_def s_def [symmetric] mirrors_def)
  next
    case (Inr sn)
    obtain profile operation fetched where read: "snapshot_of P C profile operation fetched = Inr sn"
      using q Inr unfolding read_snapshot_def
      by (auto simp: bindP_def liftP_def split: prod.splits sum.splits)
    have under: "map_of (baseline_of (mr_ck r)) \<subseteq>\<^sub>m mr_mirror r"
      using assms shown_is_left [of "mr_shown r"] by (simp add: mirrors_def)
    show ?thesis
    proof (cases "reconcile (gp_env P) C (mr_ck r) sn")
      case (Inl e)
      then show ?thesis using q Inr assms by (simp add: poll_once_def s_def [symmetric] mirrors_def)
    next
      case b: (Inr b)
      note facts = mapped.read_mirrors [OF read [unfolded snapshot_of_reads] b under]
      show ?thesis
        using facts assms q Inr b by (simp add: poll_once_def s_def [symmetric] mirrors_def shown_in_def)
    qed
  qed
qed


end
