(* ===== verification/Graph_Pages.thy ===== *)
theory Graph_Pages
  imports Graph_Fetch
begin

text \<open>
  What reading the pages of a GraphQL source does, whatever the source answers: which requests it
  makes, how many, which cursors it follows, and when it returns at all.
\<close>

section \<open>The requests of a program\<close>

text \<open>A post goes to the endpoint of the profile, with its headers, and asks an accepted query.\<close>

definition post_ok :: "'w gql_ports \<Rightarrow> fields_dict \<Rightarrow> gql_post \<Rightarrow> bool" where
  "post_ok P profile q \<longleftrightarrow>
     po_endpoint q = pstr (gp_env P) (get profile ''endpoint'') \<and> po_headers q = headers_of (gp_env P) profile
     \<and> (\<exists>v. validate_query_document (gp_env P) (gp_parser P) False v = Inr (po_query q))"

definition grows :: "'w gql_ports \<Rightarrow> fields_dict \<Rightarrow> nat \<Rightarrow> 'w gql_state \<Rightarrow> 'w gql_state \<Rightarrow> bool" where
  "grows P profile n s t \<longleftrightarrow>
     gs_pages t = gs_pages s
     \<and> (\<exists>posts. gs_posts t = gs_posts s @ posts \<and> length posts \<le> n \<and> list_all (post_ok P profile) posts)"

lemma pages_grow_refl [simp]: "grows P profile n s s"
  by (auto simp: grows_def)

lemma pages_grow_trans: "grows P profile m s t \<Longrightarrow> grows P profile n t u \<Longrightarrow> m + n \<le> k \<Longrightarrow> grows P profile k s u"
  unfolding grows_def by force

lemma grows_mono: "grows P profile m s t \<Longrightarrow> m \<le> n \<Longrightarrow> grows P profile n s t"
  unfolding grows_def using le_trans by blast

definition growing :: "'w gql_ports \<Rightarrow> fields_dict \<Rightarrow> nat \<Rightarrow> ('w, 'a) gql_prog \<Rightarrow> bool" where
  "growing P profile n m \<longleftrightarrow> (\<forall>s. grows P profile n s (snd (m s)))"

lemma growing_lift: "growing P profile n (liftP r)" "growing P profile n (returnP x)" "growing P profile n (raiseP e)"
  by (auto simp: growing_def liftP_def returnP_def raiseP_def split: sum.splits)

lemma growing_bind:
  assumes "growing P profile m a" "\<And>x. growing P profile n (f x)" "m + n \<le> k"
  shows "growing P profile k (bindP a f)"
  unfolding growing_def
proof
  fix s
  have a: "grows P profile m s (snd (a s))" using assms(1) by (simp add: growing_def)
  show "grows P profile k s (snd (bindP a f s))"
  proof (cases "a s")
    case (Pair r t)
    then show ?thesis
      using a assms(2) assms(3) pages_grow_trans [of P profile m s t n] grows_mono [of P profile m s t k]
      by (cases r) (auto simp: bindP_def growing_def)
  qed
qed

lemma growing_world: "growing P profile n (on_world f)"
  by (auto simp: growing_def on_world_def grows_def split: prod.splits)

lemma growing_post: "post_ok P profile q \<Longrightarrow> growing P profile (Suc 0) (send_post P q)"
  by (auto simp: growing_def send_post_def thenP_def bindP_def modifyP_def on_world_def grows_def split: prod.splits)

lemma growing_post_query:
  assumes "validate_query_document (gp_env P) (gp_parser P) False v = Inr query"
  shows "growing P profile (Suc 0) (post_query P C profile query vars)"
proof -
  have "post_ok P profile \<lparr>po_endpoint = pstr (gp_env P) (get profile ''endpoint''),
      po_headers = headers_of (gp_env P) profile, po_query = query, po_variables = vars\<rparr>"
    using assms by (auto simp: post_ok_def)
  then show ?thesis
    unfolding post_query_def Let_def
    by (intro growing_bind [where m = 0 and n = "Suc 0"] growing_world)
      (auto intro!: growing_lift growing_bind [where m = "Suc 0" and n = 0] growing_post split: sum.splits)
qed

text \<open>A lifted value is what it is when the rest runs.\<close>

lemma growing_bind_lift:
  "(\<And>x. r = Inr x \<Longrightarrow> growing P profile n (f x)) \<Longrightarrow> growing P profile n (bindP (liftP r) f)"
  by (cases r) (auto simp: growing_def bindP_def liftP_def returnP_def raiseP_def)

lemma growing_fallbacks: "growing P profile (length fs) (try_fallbacks P C profile vars fs r)"
proof (induction fs arbitrary: r)
  case (Cons f fs)
  show ?case
    unfolding try_fallbacks.simps
    by (auto intro!: growing_lift growing_bind_lift
        growing_bind [where m = "Suc 0" and n = "length fs"] growing_post_query Cons.IH split: prod.splits)
qed (simp add: growing_lift)

abbreviation page_posts :: "gql_conn \<Rightarrow> nat" where
  "page_posts C \<equiv> Suc (nat (gl_fallbacks (gc_limits C)))"

lemma growing_page_data: "growing P profile (page_posts C) (page_data P C profile operation vars)"
  unfolding page_data_def
  by (intro growing_bind_lift growing_bind [where m = "Suc 0" and n = "nat (gl_fallbacks (gc_limits C))"])
    (auto intro!: growing_post_query growing_bind_lift growing_lift
      growing_bind [where n = 0, OF growing_fallbacks] split: prod.splits)

section \<open>The pages of a read\<close>

text \<open>What a page says comes after it: the continuation it names, when its flag is set.\<close>

definition continuation :: "gql_env \<Rightarrow> fields_dict \<Rightarrow> fields_dict \<Rightarrow> string option" where
  "continuation E p d =
     (if dig_default (JBool False) (JObj d) (pstr E (get p ''has_more_path'')) = JBool True
      then (case dig_path (JObj d) (pstr E (get p ''next_cursor_path'')) of JStr c \<Rightarrow> Some c | _ \<Rightarrow> None)
      else None)"

definition says_complete :: "gql_env \<Rightarrow> fields_dict option \<Rightarrow> fields_dict \<Rightarrow> bool" where
  "says_complete E pagination d =
     (case pagination of
        None \<Rightarrow> True
      | Some p \<Rightarrow> dig_default (JBool False) (JObj d) (pstr E (get p ''has_more_path'')) = JBool False)"

text \<open>Pages that follow each other: every cursor is the one the page before named, and a new one.\<close>

fun pages_follow ::
  "gql_env \<Rightarrow> fields_dict option \<Rightarrow> string option \<Rightarrow> string list \<Rightarrow> (string option \<times> fields_dict) list \<Rightarrow> bool" where
  "pages_follow E pagination cursor seen [] = True"
| "pages_follow E pagination cursor seen [(c, d)] = (c = cursor)"
| "pages_follow E pagination cursor seen ((c, d) # x # rest) =
     (c = cursor
      \<and> (case pagination of
           None \<Rightarrow> False
         | Some p \<Rightarrow>
             (case continuation E p d of
                None \<Rightarrow> False
              | Some t \<Rightarrow> t \<notin> set seen \<and> pages_follow E pagination (Some t) (t # seen) (x # rest))))"

lemma pages_follow_fresh:
  "pages_follow E pagination cursor seen pages \<Longrightarrow>
     (\<forall>c. Some c \<in> set (map fst (tl pages)) \<longrightarrow> c \<notin> set seen)
     \<and> None \<notin> set (map fst (tl pages)) \<and> distinct (map fst (tl pages))
     \<and> (pages \<noteq> [] \<longrightarrow> fst (hd pages) = cursor)"
proof (induction E pagination cursor seen pages rule: pages_follow.induct)
  case (3 E pagination cursor seen c d x rest)
  then obtain p t where pt: "pagination = Some p" "continuation E p d = Some t" "t \<notin> set seen"
    "pages_follow E pagination (Some t) (t # seen) (x # rest)" "c = cursor"
    by (auto split: option.splits)
  then show ?case using 3(1) [OF pt(1,2)] by (cases x) auto
qed auto

lemma pages_follow_distinct: "pages_follow E pagination None [] pages \<Longrightarrow> distinct (map fst pages)"
  using pages_follow_fresh [of E pagination None "[]" pages] by (cases pages) auto

definition cursor_fresh :: "string option \<Rightarrow> string list \<Rightarrow> bool" where
  "cursor_fresh cursor seen = (case cursor of None \<Rightarrow> seen = [] | Some c \<Rightarrow> c \<in> set seen)"

lemma next_cursor_continues:
  assumes "next_page_cursor E p d seen last_page = Inr (Some t)"
  shows "continuation E p d = Some t \<and> t \<notin> set seen \<and> \<not> last_page"
  using assms
  by (auto simp: next_page_cursor_def continuation_def invalid_next_cursor_def andR_Inr refuse_if_Inr
      split: json.splits if_splits)

lemma next_cursor_ends:
  "next_page_cursor E p d seen last_page = Inr None \<Longrightarrow> says_complete E (Some p) d"
  by (auto simp: next_page_cursor_def says_complete_def andR_Inr split: json.splits if_splits)

lemma page_step_grows:
  assumes "page_step P C profile operation page_size cursor s = (r, t)"
  shows "\<exists>posts. gs_posts t = gs_posts s @ posts \<and> length posts \<le> page_posts C \<and> list_all (post_ok P profile) posts"
    and "gs_pages t = gs_pages s @ (case r of Inl e \<Rightarrow> [] | Inr (d, nbytes, fb, partial) \<Rightarrow> [(cursor, d)])"
proof -
  have "growing P profile (page_posts C) (bindP (liftP (page_variables (gp_env P) C operation page_size cursor))
      (page_data P C profile operation))"
    by (intro growing_bind_lift growing_page_data)
  then have grow: "grows P profile (page_posts C) s (snd (bindP (liftP
      (page_variables (gp_env P) C operation page_size cursor)) (page_data P C profile operation) s))"
    by (simp add: growing_def)
  have eq: "page_step P C profile operation page_size cursor =
      bindP (bindP (liftP (page_variables (gp_env P) C operation page_size cursor)) (page_data P C profile operation))
        (\<lambda>(d, nbytes, fb, partial). thenP (modifyP (\<lambda>s. s\<lparr>gs_pages := gs_pages s @ [(cursor, d)]\<rparr>))
          (returnP (d, nbytes, fb, partial)))"
    by (auto simp: page_step_def bindP_def fun_eq_iff split: prod.splits sum.splits)
  show "\<exists>posts. gs_posts t = gs_posts s @ posts \<and> length posts \<le> page_posts C \<and> list_all (post_ok P profile) posts"
    and "gs_pages t = gs_pages s @ (case r of Inl e \<Rightarrow> [] | Inr (d, nbytes, fb, partial) \<Rightarrow> [(cursor, d)])"
    using assms grow unfolding eq
    by (auto simp: bindP_def thenP_def modifyP_def returnP_def grows_def split: prod.splits sum.splits)
qed

definition root_of :: "gql_env \<Rightarrow> fields_dict \<Rightarrow> fields_dict \<Rightarrow> json" where
  "root_of E operation d = dig_path (JObj d) (pstr E (get operation ''root_path''))"

definition pages_read ::
  "'w gql_ports \<Rightarrow> gql_conn \<Rightarrow> fields_dict \<Rightarrow> fields_dict \<Rightarrow> int \<Rightarrow> nat \<Rightarrow> string option \<Rightarrow> string list \<Rightarrow>
     'w gql_state \<Rightarrow> 'w gql_state \<Rightarrow> (string option \<times> fields_dict) list \<Rightarrow> bool" where
  "pages_read P C profile operation max_bytes k cursor seen s t pages \<longleftrightarrow>
     gs_pages t = gs_pages s @ pages \<and> length pages \<le> k
     \<and> pages_follow (gp_env P) (pagination_of operation) cursor seen pages
     \<and> (\<exists>posts. gs_posts t = gs_posts s @ posts \<and> length posts \<le> k * page_posts C
          \<and> list_all (post_ok P profile) posts)"

definition read_all ::
  "'w gql_ports \<Rightarrow> fields_dict \<Rightarrow> int \<Rightarrow> json list \<Rightarrow> fetch_diag \<Rightarrow> (string option \<times> fields_dict) list \<Rightarrow>
     json list \<times> fetch_diag \<Rightarrow> bool" where
  "read_all P operation max_bytes roots d pages res \<longleftrightarrow>
     (case res of (roots', d') \<Rightarrow>
        roots' = roots @ map (\<lambda>(c, x). root_of (gp_env P) operation x) pages
        \<and> fd_pages d' = fd_pages d + length pages
        \<and> (pages \<noteq> [] \<longrightarrow> fd_bytes d' \<le> max_bytes
            \<and> says_complete (gp_env P) (pagination_of operation) (snd (last pages))))"

lemma fetch_pages_spec:
  assumes "fetch_pages P C profile operation page_size max_bytes k cursor seen roots d s = (r, t)"
  shows "\<exists>pages. pages_read P C profile operation max_bytes k cursor seen s t pages
    \<and> (case r of Inl e \<Rightarrow> True | Inr res \<Rightarrow> read_all P operation max_bytes roots d pages res \<and> (0 < k \<longrightarrow> pages \<noteq> []))"
  using assms
proof (induction k arbitrary: cursor seen roots d s)
  case 0
  then show ?case
    by (intro exI [of _ "[]"]) (auto simp: pages_read_def read_all_def returnP_def)
next
  case (Suc k)
  obtain r1 s1 where step: "page_step P C profile operation page_size cursor s = (r1, s1)" by fastforce
  obtain posts where posts: "gs_posts s1 = gs_posts s @ posts" "length posts \<le> page_posts C"
    "list_all (post_ok P profile) posts" using page_step_grows(1) [OF step] by blast
  note log = page_step_grows(2) [OF step]
  have first: "pages_read P C profile operation max_bytes (Suc k) cursor seen s s1 [(cursor, x)]"
    if "gs_pages s1 = gs_pages s @ [(cursor, x)]" for x
    using posts that unfolding pages_read_def by auto
  show ?case
  proof (cases r1)
    case (Inl e)
    then show ?thesis using Suc.prems step posts log
      by (intro exI [of _ "[]"]) (auto simp: bindP_def pages_read_def)
  next
    case (Inr v)
    obtain x nbytes fb partial where v: "v = (x, nbytes, fb, partial)" by (cases v) auto
    define d' where "d' = \<lparr>fd_pages = Suc (fd_pages d), fd_bytes = fd_bytes d + nbytes,
      fd_fallbacks = fd_fallbacks d + fb, fd_partial = fd_partial d + partial\<rparr>"
    define roots' where "roots' = roots @ [root_of (gp_env P) operation x]"
    define rest where "rest =
      (if max_bytes < fd_bytes d'
       then raiseP (GqlError ''GraphQL responses exceed the configured total bound'')
       else case pagination_of operation of
              None \<Rightarrow> returnP (roots', d')
            | Some p \<Rightarrow>
                bindP (liftP (next_page_cursor (gp_env P) p x seen (k = 0))) (\<lambda>c.
                  case c of
                    None \<Rightarrow> returnP (roots', d')
                  | Some t \<Rightarrow>
                      fetch_pages P C profile operation page_size max_bytes k (Some t) (t # seen) roots' d'))"
    have run: "rest s1 = (r, t)"
      using Suc.prems step Inr v unfolding rest_def d'_def roots'_def root_of_def by (simp add: bindP_def Let_def)
    have log1: "gs_pages s1 = gs_pages s @ [(cursor, x)]" using log Inr v by simp
    have done_here: ?thesis if "(r, t) = (Inr (roots', d'), s1)" "\<not> max_bytes < fd_bytes d'"
        "says_complete (gp_env P) (pagination_of operation) x"
      using that first [OF log1] by (intro exI [of _ "[(cursor, x)]"]) (auto simp: read_all_def roots'_def d'_def)
    have failed: ?thesis if "(r, t) = (Inl e, s1)" for e
      using that first [OF log1] by auto
    show ?thesis
    proof (cases "max_bytes < fd_bytes d'")
      case True
      then show ?thesis using run failed [of "GqlError ''GraphQL responses exceed the configured total bound''"]
        by (auto simp: rest_def raiseP_def)
    next
      case small: False
      show ?thesis
      proof (cases "pagination_of operation")
        case None
        then show ?thesis using run small done_here by (simp add: rest_def returnP_def says_complete_def)
      next
        case (Some p)
        show ?thesis
        proof (cases "next_page_cursor (gp_env P) p x seen (k = 0)")
          case (Inl e)
          then show ?thesis using run small Some failed [of e] by (auto simp: rest_def bindP_def liftP_def)
        next
          case (Inr c)
          show ?thesis
          proof (cases c)
            case None
            then show ?thesis using run small Some Inr done_here next_cursor_ends [of "gp_env P" p x seen "k = 0"]
              by (simp add: rest_def bindP_def liftP_def returnP_def)
          next
            case next_one: (Some n)
            have cont: "continuation (gp_env P) p x = Some n" "n \<notin> set seen" "0 < k"
              using next_cursor_continues [of "gp_env P" p x seen "k = 0" n] Inr next_one by auto
            have "fetch_pages P C profile operation page_size max_bytes k (Some n) (n # seen) roots' d' s1 = (r, t)"
              using run small Some Inr next_one by (simp add: rest_def bindP_def liftP_def)
            from Suc.IH [OF this] obtain pages where pages:
              "pages_read P C profile operation max_bytes k (Some n) (n # seen) s1 t pages"
              "case r of Inl e \<Rightarrow> True | Inr res \<Rightarrow>
                 read_all P operation max_bytes roots' d' pages res \<and> (0 < k \<longrightarrow> pages \<noteq> [])" by blast
            have "pages_follow (gp_env P) (pagination_of operation) cursor seen ((cursor, x) # pages)"
              using pages(1) cont Some unfolding pages_read_def by (cases pages) auto
            then have "pages_read P C profile operation max_bytes (Suc k) cursor seen s t ((cursor, x) # pages)"
              using pages(1) posts log1 unfolding pages_read_def by force
            moreover have "case r of Inl e \<Rightarrow> True | Inr res \<Rightarrow>
                read_all P operation max_bytes roots d ((cursor, x) # pages) res"
              using pages(2) cont(3) by (auto simp: read_all_def roots'_def d'_def split: sum.splits)
            ultimately show ?thesis by (intro exI [of _ "(cursor, x) # pages"]) (auto split: sum.splits)
          qed
        qed
      qed
    qed
  qed
qed

lemma effective_limit_range:
  assumes "effective_limit profile key c lo hi = Inr v" "lo \<le> hi" "lo \<le> c"
  shows "lo \<le> v \<and> v \<le> hi \<and> v \<le> c"
proof -
  obtain i where "bounded_int (get (limits_of profile) key) c lo hi = Inr i" "v = min c i"
    using assms(1) by (auto simp: effective_limit_def bindR_Inr)
  then show ?thesis using bounded_int_range [of "get (limits_of profile) key" c lo hi i] assms(2,3)
    by (simp add: min_le_iff_disj)
qed

lemma fetch_limits_small:
  assumes "fetch_limits (C\<lparr>gc_limits := configure_limits l\<rparr>) profile = Inr (pages, page_size, all_bytes)"
  shows "1 \<le> pages \<and> pages \<le> 100 \<and> all_bytes \<le> 100000000"
proof -
  let ?l = "configure_limits l"
  have "effective_limit profile ''max_pages'' (gl_pages ?l) 1 100 = Inr pages"
    and "effective_limit profile ''max_total_response_bytes'' (gl_total_bytes ?l) 1024 100000000 = Inr all_bytes"
    using assms by (auto simp: fetch_limits_def Let_def bindR_Inr)
  moreover have "1 \<le> gl_pages ?l" "1024 \<le> gl_total_bytes ?l"
    by (auto simp: configure_limits_def clamp_def Let_def)
  ultimately show ?thesis
    using effective_limit_range [of profile "''max_pages''" "gl_pages ?l" 1 100 pages]
      effective_limit_range [of profile "''max_total_response_bytes''" "gl_total_bytes ?l" 1024 100000000 all_bytes]
    by auto
qed


end
