(* ===== verification/Graph_Checkpoint.thy ===== *)
theory Graph_Checkpoint
  imports Graph_Mirror Graph_Pages
begin

text \<open>
  The checkpoints of the GraphQL connector: one it hands out is one it takes back, and a source that
  did not change sends nothing.
\<close>

section \<open>A checkpoint that was handed out\<close>

definition fits :: "gql_conn \<Rightarrow> snapshot \<Rightarrow> bool" where
  "fits C sn \<longleftrightarrow> int (length (sn_versions sn)) \<le> max (gl_entities (gc_limits C)) (gl_documents (gc_limits C))"

lemma checkpoint_state_keys [simp]:
  "get (ck_state (next_checkpoint E C sn prior baseline sequence)) ''checkpoint_format'' = JStr checkpoint_format"
  "get (ck_state (next_checkpoint E C sn prior baseline sequence)) ''source_alias'' = JStr (gc_alias C)"
  "get (ck_state (next_checkpoint E C sn prior baseline sequence)) ''operation'' = JStr (gc_operation C)"
  "get (ck_state (next_checkpoint E C sn prior baseline sequence)) ''profile_digest'' = JStr (sn_profile sn)"
  "get (ck_state (next_checkpoint E C sn prior baseline sequence)) ''snapshot_sequence''
     = JInt (sequence + (if checkpoint_changed sn prior baseline then 1 else 0))"
  "get (ck_state (next_checkpoint E C sn prior baseline sequence)) ''snapshot_authoritative'' = JBool (sn_authoritative sn)"
  "get (ck_state (next_checkpoint E C sn prior baseline sequence)) ''allow_empty_snapshot'' = JBool (sn_allow_empty sn)"
  "get (ck_state (next_checkpoint E C sn prior baseline sequence)) ''governance'' = governance_state (sn_gov sn)"
  "get (ck_state (next_checkpoint E C sn prior baseline sequence)) ''versions''
     = JObj (map (\<lambda>(i, v). (i, JStr v)) (sorted_versions (sn_versions sn)))"
  "ck_state (next_checkpoint E C sn prior baseline sequence) \<noteq> []"
  by (simp_all add: next_checkpoint_def Let_def get_def)

lemma py_eq_strings [simp]: "py_eq_list (map JStr xs) (map JStr xs)"
  by (induction xs) simp_all

lemma py_eq_text [simp]: "py_eq (opt_text t) (opt_text t)"
  by (cases t) (simp_all add: opt_text_def)

lemma py_eq_access [simp]: "py_eq (access_json a) (access_json a)"
  by (simp add: access_json_def strings_def)

lemma py_eq_governance [simp]: "py_eq (governance_state g) (governance_state g)"
  by (simp add: governance_state_def)

lemma scope_kept: "validate_scope C (ck_state (next_checkpoint E C sn prior baseline sequence)) = Inr ()"
  by (simp add: validate_scope_def)

lemma baseline_kept:
  assumes "faithful sn" "fits C sn"
  shows "validate_baseline C (ck_state (next_checkpoint E C sn prior baseline sequence))
    = Inr (sorted_versions (sn_versions sn))"
proof -
  have "\<forall>(i, v) \<in> set (sorted_versions (sn_versions sn)). i \<noteq> [] \<and> v \<noteq> []"
    using assms(1) by (auto simp: faithful_def sorted_versions_def)
  then have "version_texts (map (\<lambda>(i, v). (i, JStr v)) (sorted_versions (sn_versions sn)))
      = Inr (sorted_versions (sn_versions sn))" by (rule version_texts_written)
  moreover have "\<not> max (gl_entities (gc_limits C)) (gl_documents (gc_limits C)) < int (length (sorted_versions (sn_versions sn)))"
    using assms(2) unfolding fits_def sorted_versions_def length_sort by linarith
  ultimately show ?thesis by (auto simp: validate_baseline_def refuse_if_def)
qed

lemma sequence_kept:
  "0 \<le> sequence \<Longrightarrow> validate_sequence (ck_state (next_checkpoint E C sn prior baseline sequence))
     = Inr (sequence + (if checkpoint_changed sn prior baseline then 1 else 0))"
  by (simp add: validate_sequence_def)

lemma sequence_positive: "validate_sequence prior = Inr n \<Longrightarrow> 0 \<le> n"
  by (auto simp: validate_sequence_def andR_Inr refuse_if_Inr split: sum.splits if_splits)

lemma policy_kept: "\<not> policy_changed sn (ck_state (next_checkpoint E C sn prior baseline sequence))"
  by (simp add: policy_changed_def)

lemma reconcile_again:
  assumes "reconcile E C ck sn = Inr b" "faithful sn" "fits C sn"
  shows "\<exists>d. reconcile E C (Some (gb_checkpoint b)) sn
    = Inr \<lparr>gb_documents = [], gb_changes = [], gb_checkpoint = gb_checkpoint b, gb_diag = d\<rparr>"
proof -
  obtain sequence where parts: "validate_sequence (prior_state_of ck) = Inr sequence"
    "validate_completeness sn (baseline_of ck) = Inr ()"
    "gb_checkpoint b = next_checkpoint E C sn (prior_state_of ck) (baseline_of ck) sequence"
    using assms(1) by (rule reconcile_parts)
  let ?V = "sorted_versions (sn_versions sn)"
  let ?st = "ck_state (gb_checkpoint b)"
  have wk: "well_keyed (sn_versions sn)" using assms(2) by (simp add: faithful_def)
  have maps: "map_of ?V = map_of (sn_versions sn)" by (rule sorted_versions_map [OF wk])
  have again: "validate_scope C ?st = Inr ()" "validate_baseline C ?st = Inr ?V" "\<not> policy_changed sn ?st"
    using scope_kept baseline_kept [OF assms(2,3)] policy_kept by (simp_all add: parts(3))
  obtain n where n: "validate_sequence ?st = Inr n"
    "next_checkpoint E C sn ?st ?V n = gb_checkpoint b"
  proof -
    let ?n = "sequence + (if checkpoint_changed sn (prior_state_of ck) (baseline_of ck) then 1 else 0)"
    have "sort_key fst ?V = ?V" by (simp add: sorted_versions_def sort_key_id_if_sorted)
    then have same: "\<not> checkpoint_changed sn ?st ?V"
      using policy_kept by (simp add: checkpoint_changed_def parts(3) sorted_versions_def)
    have "next_checkpoint E C sn ?st ?V ?n = next_checkpoint E C sn (prior_state_of ck) (baseline_of ck) sequence"
      using same unfolding next_checkpoint_def [of E C sn ?st] next_checkpoint_def [of E C sn "prior_state_of ck"]
      by (simp add: Let_def)
    moreover have "validate_sequence ?st = Inr ?n"
      using sequence_kept [OF sequence_positive [OF parts(1)]] by (simp add: parts(3))
    ultimately show thesis using that parts(3) by metis
  qed
  have "validate_completeness sn ?V = Inr ()"
    using parts(2) by (auto simp: validate_completeness_def andR_Inr refuse_if_Inr sorted_versions_def)
  moreover have "changed_ids sn ?st ?V = []"
    using again(3) by (auto simp: changed_ids_def filter_empty_conv entity_changed_def maps split: option.splits)
  moreover have "missing_ids ?V (sn_versions sn) = []"
  proof -
    have "i \<in> fst ` set (sn_versions sn)" if "i \<in> fst ` set ?V" for i
      using that by (simp add: sorted_versions_def)
    then show ?thesis by (auto simp: missing_ids_def filter_empty_conv map_of_eq_None_iff)
  qed
  ultimately show ?thesis
    using again n unfolding reconcile_def by (simp add: Let_def prior_state_of_def build_tombstones_def)
qed

section \<open>Snapshots fit\<close>

lemma effective_limit_small: "effective_limit profile key c lo hi = Inr v \<Longrightarrow> v \<le> c"
  by (auto simp: effective_limit_def bindR_Inr)

lemma dict_set_length: "length (dict_set k v d) \<le> Suc (length d)"
  by (induction k v d rule: dict_set.induct) auto

lemma fold_dict_set_length: "length (fold (\<lambda>x. dict_set (f x) (g x)) xs d) \<le> length d + length xs"
proof (induction xs arbitrary: d)
  case (Cons x xs)
  have "length (fold (\<lambda>x. dict_set (f x) (g x)) xs (dict_set (f x) (g x) d)) \<le> length (dict_set (f x) (g x) d) + length xs"
    by (rule Cons.IH)
  also have "\<dots> \<le> length d + length (x # xs)" using dict_set_length [of "f x" "g x" d] by simp
  finally show ?case by simp
qed simp

lemma concat_opt_length: "length (concat (map opt_list xs)) \<le> length xs"
  by (induction xs) (auto simp: opt_list_def split: option.splits)

lemma snapshot_fits:
  assumes "snapshot_of P (C\<lparr>gc_limits := configure_limits l\<rparr>) profile operation fetched = Inr sn"
  shows "fits (C\<lparr>gc_limits := configure_limits l\<rparr>) sn"
proof -
  let ?C = "C\<lparr>gc_limits := configure_limits l\<rparr>"
  let ?E = "gp_env P"
  have pos: "1 \<le> gl_entities (gc_limits ?C)" "1 \<le> gl_documents (gc_limits ?C)"
    by (simp_all add: configure_limits_def Let_def clamp_def)
  obtain xs d where fetched: "fetched = (xs, d)" by fastforce
  consider "hierarchy_snapshot ?E ?C profile operation fetched = Inr sn"
    | "document_snapshot ?E ?C profile operation fetched = Inr sn"
    using assms by (auto simp: snapshot_of_def split: json.splits)
  then show ?thesis
  proof cases
    case 1
    then obtain B L p where p: "entity_limits_of ?C profile = Inr L" "prepare_entities ?E ?C B L operation xs = Inr p"
      "sn_versions sn = map (\<lambda>i. (it_node_id i, it_version i)) (pp_items p)"
      using fetched by (auto simp: hierarchy_snapshot_def bindR_Inr)
    have "length (pp_items p) \<le> nat (el_entities L)"
      using p(2) prepare_kinds_spec [of ?E ?C B L operation xs all_kinds _ p]
      unfolding prepare_entities_def by (simp add: known_ids_def)
    moreover have "el_entities L \<le> gl_entities (gc_limits ?C)"
      using p(1) effective_limit_small unfolding entity_limits_of_def Let_def bindR_Inr by fastforce
    ultimately show ?thesis using p(3) pos by (simp add: fits_def)
  next
    case 2
    then obtain B n rendered where n: "effective_limit profile ''max_documents'' (gl_documents (gc_limits ?C)) 1 10000 = Inr n"
      "mapR (one_document ?E ?C B operation) (take (nat n) (root_records xs)) = Inr rendered"
      "sn_versions sn = fold (\<lambda>x. dict_set (sd_entity_id x) (sd_updated x)) (concat (map opt_list rendered)) []"
      using fetched by (auto simp: document_snapshot_def Let_def bindR_Inr)
    have "length (sn_versions sn) \<le> length rendered"
      using fold_dict_set_length [of sd_entity_id sd_updated "concat (map opt_list rendered)" "[]"]
        concat_opt_length [of rendered] unfolding n(3) by simp
    also have "length rendered \<le> nat n" using mapR_length [OF n(2)] by simp
    finally show ?thesis using effective_limit_small [OF n(1)] pos by (simp add: fits_def)
  qed
qed

text \<open>
  Property C37. A checkpoint a configured connector hands out is one it takes back. Polled again from
  it, a source that did not change sends no document and no change, and the checkpoint stays as it
  is. Whatever the source shows next, the poll fails only because an authoritative snapshot is
  incomplete or empty without approval, or because withdrawals are due and the governance kept in the
  checkpoint does not pass the check it passed before.
\<close>

theorem checkpoint_taken_back:
  "case snapshot_of P (C\<lparr>gc_limits := configure_limits l\<rparr>) profile operation fetched of
     Inl e \<Rightarrow> True
   | Inr sn \<Rightarrow>
       (case reconcile (gp_env P) (C\<lparr>gc_limits := configure_limits l\<rparr>) ck sn of
          Inl e \<Rightarrow> True
        | Inr b \<Rightarrow>
            (case reconcile (gp_env P) (C\<lparr>gc_limits := configure_limits l\<rparr>) (Some (gb_checkpoint b)) sn of
               Inl e \<Rightarrow> False
             | Inr again \<Rightarrow> gb_documents again = [] \<and> gb_changes again = [] \<and> gb_checkpoint again = gb_checkpoint b)
            \<and> (case reconcile (gp_env P) (C\<lparr>gc_limits := configure_limits l\<rparr>) (Some (gb_checkpoint b)) other of
                 Inr later \<Rightarrow> True
               | Inl e \<Rightarrow>
                   e = incomplete \<or> e = unapproved_empty
                   \<or> sn_authoritative other \<and> resolve_previous_governance (gp_env P) (ck_state (gb_checkpoint b)) = Inl e))"
proof -
  let ?C = "C\<lparr>gc_limits := configure_limits l\<rparr>"
  let ?E = "gp_env P"
  {
    fix sn b
    assume sn: "snapshot_of P ?C profile operation fetched = Inr sn" and b: "reconcile ?E ?C ck sn = Inr b"
    have f: "faithful sn" using sn mapped.reads_faithfully by (simp add: snapshot_of_reads)
    have fit: "fits ?C sn" by (rule snapshot_fits [OF sn])
    have quiet: "\<exists>d. reconcile ?E ?C (Some (gb_checkpoint b)) sn
        = Inr \<lparr>gb_documents = [], gb_changes = [], gb_checkpoint = gb_checkpoint b, gb_diag = d\<rparr>"
      by (rule reconcile_again [OF b f fit])
    obtain sequence where parts: "validate_sequence (prior_state_of ck) = Inr sequence"
      "gb_checkpoint b = next_checkpoint ?E ?C sn (prior_state_of ck) (baseline_of ck) sequence"
      using b by (rule reconcile_parts)
    obtain n where kept: "validate_scope ?C (ck_state (gb_checkpoint b)) = Inr ()"
      "validate_baseline ?C (ck_state (gb_checkpoint b)) = Inr (sorted_versions (sn_versions sn))"
      "validate_sequence (ck_state (gb_checkpoint b)) = Inr n"
      using scope_kept baseline_kept [OF f fit] sequence_kept [OF sequence_positive [OF parts(1)]]
      by (simp add: parts(2))
    have "e = incomplete \<or> e = unapproved_empty
        \<or> sn_authoritative other \<and> resolve_previous_governance ?E (ck_state (gb_checkpoint b)) = Inl e"
      if "reconcile ?E ?C (Some (gb_checkpoint b)) other = Inl e" for e
      using that unfolding reconcile_def prior_state_of_def option.case Let_def kept
      by (auto simp: bindR_Inl andR_Inl validate_completeness_def refuse_if_Inl build_tombstones_def Let_def
          split: if_splits)
    note quiet this
  }
  then show ?thesis by (fastforce split: sum.splits)
qed

end
