(* ===== verification/Spec2Isabelle.thy ===== *)
theory Spec2Isabelle
  imports WB_Durable Sync_Safety Memory_Sink Runner_Supervision Runner_Supervisor Ingest_Privacy
    Tool_Pass Tool_Fan Http_Client Http_Api Http_Body Http_Walk Http_Resilience Privacy_Guard
    Log_Redaction Graph_Checkpoint
begin

text \<open>
  A verification development of \<^verbatim>\<open>agent-connector-sdk\<close>, the SDK connectors of an agent platform
  are built with (\<^verbatim>\<open>src/scion_sdk\<close>). It models the parts that keep durable state and decide:
  how a connector writes back to a source, how sources are read into the platform, how the runner
  supervises both, and how requests leave the process. Paths below are relative to \<^verbatim>\<open>src/scion_sdk\<close>.

  \<^bold>\<open>How programs are modelled.\<close> \<open>Prelude\<close> holds the common ground. A pure function that may raise
  answers \<open>error + value\<close>. A method is a program: a function from the state to an exception or a
  value, and the state it leaves, so effects made before an exception stay. Whatever is behind a
  protocol class or in another package is a port: an argument of the definitions, a function on a
  world of any type that may answer and change anything. A theorem over ports holds for every
  port, unless it names a law, which is then the \<^theory_text>\<open>assumes\<close> of a locale that the model's own
  providers interpret. Calls are appended to a log, and the claims about order are claims about
  that log. \<open>async\<close> code is sequential between its \<^theory_text>\<open>await\<close> points; a call of a method is one
  run, except where a theory says that it can be killed in the middle. \<open>Json_Value\<close> holds JSON
  values, Python equality on them and the canonical encoding that digests are made of.

  \<^bold>\<open>Governed write-back\<close> (\<^verbatim>\<open>writeback/\<close>). \<open>WB_Contract\<close>: the exceptions, records and pure guards,
  and the authorization resolvers. \<open>WB_Service\<close>: \<^verbatim>\<open>service.py\<close>, every method with its calls in
  order. \<open>WB_Safety\<close>: what a method does around the effect, what it returns, and what a key that is
  unresolved forbids, over every history of calls. \<open>WB_Source\<close>: the locale of a source
  that remembers its effects by key, and the service over it. \<open>WB_Memory\<close>: \<^verbatim>\<open>memory.py\<close> as an
  instance, with its injected losses; an effect lands at most once, and an apply that lost its
  acknowledgement is recovered. \<open>WB_Recovery\<close>, \<open>WB_File\<close>, \<open>WB_Connector\<close>: the receipt
  replay of \<^verbatim>\<open>recovery.py\<close>, the file-backed transport and ledger, and \<^verbatim>\<open>connector.py\<close> with its
  in-flight claims. \<open>WB_Durable\<close>: the connector over histories in which the process is killed after
  any call and started again, and that a claim is released on every path. The replay reads pages up
  to a bound, and a bound above the number of pages of the stream reads it all.

  \<^bold>\<open>Declared sources\<close> (\<^verbatim>\<open>ingest/\<close>). \<open>Backoff\<close>: the delays every loop of the SDK shares.
  \<open>Sync_Records\<close>: declarations, extraction of records and edges from tool results, the parent
  relation of fan-out sources. \<open>Source_Sync\<close>: \<^verbatim>\<open>source_sync.py\<close> and its mixins, a run over a
  session, an ingest facade and a key-value store. \<open>Sync_Safety\<close>: the durable checkpoint moves only
  behind accepted submissions, the budget holds, and the sweep of a source ends; its round number
  is the page budget plus one, which is shown never to be what stops it.

  \<^bold>\<open>The runner\<close> (\<^verbatim>\<open>runner/\<close>). \<open>Stages\<close>: stage declarations and the acceptance of their graph, which
  is shown to be acyclicity. \<open>Schema_Drift\<close>: normal forms of source schemas and the classes
  of their changes, against a reference relation. \<open>Runner_Sync\<close>: one pass over a
  stream, page by page, with at most \<open>max_pages\<close> pages. \<open>Runner_Protocol\<close>: that pass against a step
  relation, and the counts it reports. \<open>Memory_Sink\<close>: the in-memory sink, an instance of
  the sink the pass relies on. \<open>Runner_Plans\<close>: which adapters a cycle runs.
  \<open>Runner_Health\<close>: the health state and its two reports. \<open>Runner_Worker\<close> and
  \<open>Runner_Supervision\<close>: a connector's endless loop, composed of all of these; two numbers bound the
  connections and the followed cycles of the run that is looked at, and \<open>WkRunning\<close> marks a run
  that the bound cut, so the claims are about every finite prefix of the endless loop. \<open>Runner_Supervisor\<close>: the loop over the registry.

  \<^bold>\<open>Knowledge ingest\<close> (\<^verbatim>\<open>ingest/\<close>). \<open>Ingest_Model\<close>, \<open>Ingest_Request\<close>: bindings, change sets and the one
  generated request a change set becomes, with the checkpoint after the one it expects.
  \<open>Ingest_Service\<close>: \<^verbatim>\<open>service.py\<close> over any transport, and the transport over the generated client.
  \<open>Ingest_Protocol\<close>: the calls of a commit as a relation, and the locale of a transport whose
  receipts bind the request, which the channel provides. \<open>Ingest_Mapping\<close>: records to entities
  and edges. \<open>Ingest_Stream\<close>, \<open>Ingest_Paging\<close>: a connector's stream, from its writers to the paging
  of a source. \<open>Ingest_Walk\<close>: the commits of a page against the list of change sets the page is, and
  the walk as a relation; a walk without a page bound is given two pages more than its cursor
  history, and is shown never to use them up. \<open>Ingest_Privacy\<close>: the keyed projection as an
  instance of the locale of projections that leave the checkpoint alone; there
  a batched mapping with an edge from another record than the first is shown never to be committed.

  \<^bold>\<open>Tool sources\<close> (\<^verbatim>\<open>adapters/mcp_tool*.py\<close>, \<^verbatim>\<open>manifest/\<close>). The adapter that gives the runner its
  pages. \<open>Tool_Preset\<close>: the declaration of a tool source and its validation. \<open>Tool_Contract\<close>: the
  canonical schemas and fingerprints of a live tool, its check against a pin, and what the
  fingerprints cannot see. \<open>Tool_Paging\<close>: arguments, positions and the checkpoint after a page, with
  the round trip of dotted paths. \<open>Tool_Records\<close>: results to records, relationships, withdrawals and
  live sets. \<open>Tool_Adapter\<close>: discovery, extraction, the fan-out over parents and reconciliation. The
  depth of a chain of parents is bounded by their number plus two, which \<open>Tool_Fan\<close> shows to be
  enough; the pages of a parent and of a reconciliation by \<open>max_pages\<close>, as in the code.
  \<open>Tool_Types\<close>: every page is well formed. \<open>Tool_Sweep\<close> and \<open>Tool_Pass\<close>: the watermark moves with
  the end of a sweep only, page by page and over a whole pass of the runner with the adapter as its
  ports. \<open>Tool_Reconcile\<close>: over a source that serves numbered slices, reconciliation is the
  exact difference. \<open>Tool_Fan\<close>: what a restart does in the middle of a fan-out.

  \<^bold>\<open>HTTP\<close> (\<^verbatim>\<open>http/\<close>, \<^verbatim>\<open>httpsupport/\<close>, \<^verbatim>\<open>resilience.py\<close>). The HTTP library, the
  splitting of URLs and name resolution are ports. \<open>Http_Url\<close>: redaction, origins and problems.
  \<open>Http_Retry\<close>: the policy, its delays and the certificate failures it never repeats. \<open>Http_Flow\<close>: the
  attempt generator as a state machine and the two transports that drive it; their loops end because
  a policy has at most ten attempts. \<open>Http_Resilience\<close>: calls that are repeated on the caller's word.
  \<open>Http_Body\<close>: bodies under a byte bound. \<open>Http_Address\<close>, \<open>Http_Egress\<close>: addresses as words, the
  egress policy, and the transport that resolves a request once and dials only that address; over
  every run of requests no connection is used for two hosts. \<open>Http_Client\<close>: the stack of a client, with
  what it sends at all. \<open>Http_Rate\<close>: rate-limit headers, bounded pauses and the pacing of concurrent
  callers. \<open>Http_Api\<close>: the class-based client and the redaction of its secrets. \<open>Http_Links\<close>: the
  linear scan of a link header against what it means. \<open>Http_Paging\<close>, \<open>Http_Walk\<close>: the pagination
  iterators, their budgets, and where a server can lead them.

  \<^bold>\<open>Privacy and redaction\<close> (\<^verbatim>\<open>privacy*.py\<close>, \<^verbatim>\<open>httpsupport/redaction.py\<close>). \<open>Regex_Match\<close>: regular
  expressions with captures, look-around and laziness and their backtracking matcher, which ends because a
  repetition stops at a round that consumes nothing; a cut lemma gives the result of a search
  from a piece of the text. \<open>Privacy_Guard\<close>: the patterns, the field rules and the deep pass; no field a
  rule names leaves the guard with its value, and the report is empty exactly when no rule applies.
  \<open>Log_Redaction\<close>: the redaction of log records and a credential that it passes.

  \<^bold>\<open>The GraphQL document connector\<close> (\<^verbatim>\<open>source_connectors/connectors/graphql_document.py\<close> and
  \<^verbatim>\<open>_graphql_*.py\<close>). The GraphQL parser, the hashes, the JSON decoder, the secret resolver, the endpoint policy
  and the transport are ports. \<open>Graph_Values\<close>: patterns, dotted paths, access. \<open>Graph_Query\<close>: the
  checks of a query document on its syntax tree, against what it selects at any depth.
  \<open>Graph_Profile\<close>: every check of a profile. \<open>Graph_Fetch\<close>, \<open>Graph_Pages\<close>: bounded posts and the page
  loop, at most a hundred pages and four posts a page, no cursor twice. \<open>Graph_Render\<close>,
  \<open>Graph_Map\<close>, \<open>Graph_Entities\<close>: documents behind the privacy guard, the hierarchy walk, which is the
  preorder of the tree, and entities with links among themselves only. \<open>Graph_Snapshot\<close>: a snapshot against
  the checkpoint before it. \<open>Graph_Connector\<close>: loads, plans and polls. \<open>Graph_Mirror\<close>: the locale of readers
  whose snapshots list what they send, which both mappings provide, and the store that is left by a
  history of polls. \<open>Graph_Checkpoint\<close>: a checkpoint that was handed out is taken back.

  \<^bold>\<open>Not modelled.\<close> Requests and clients of other services (\<^verbatim>\<open>transports/\<close>, \<^verbatim>\<open>auth/\<close>,
  \<^verbatim>\<open>credentials/\<close>, \<^verbatim>\<open>tls/\<close>, \<^verbatim>\<open>a2a/\<close>, \<^verbatim>\<open>repository/\<close>) and readers and writers of particular vendors
  (the rest of \<^verbatim>\<open>source_connectors/\<close>, \<^verbatim>\<open>vendor_extractors/\<close>, \<^verbatim>\<open>writeback_sinks/\<close>, the rest of \<^verbatim>\<open>adapters/\<close>, \<^verbatim>\<open>finance/\<close>,
  \<^verbatim>\<open>earth_observations/\<close>, \<^verbatim>\<open>taxonomy/\<close>): third-party formats behind the ports above. The server
  surface (\<^verbatim>\<open>mcp/\<close>), which registers tools by reflection. Static checks of packages and their
  command lines (\<^verbatim>\<open>artifacts/\<close>, the rest of \<^verbatim>\<open>manifest/\<close>, \<^verbatim>\<open>certify/\<close>, \<^verbatim>\<open>data_prep/\<close>). Logging, thread locks inside one operation and the wiring of
  processes. Threads are represented only as far as an interleaving of whole operations goes.
\<close>

end
